(* ===== verification/Prelude.thy ===== *)
theory Prelude
  imports Complex_Main "HOL-Library.List_Lexorder" "HOL-Library.Char_ord" "HOL-Library.Sublist"
begin

text \<open>
  Shared vocabulary of the development: Python values (\<open>json\<close> for the free-form
  \<open>dict[str, Any]\<close> columns, association lists for dictionaries, which keep insertion
  order), timestamps as SQLAlchemy returns them, the few query shapes the code uses
  (\<open>ORDER BY \<dots> DESC LIMIT n\<close>), and the list lemmas that the component proofs share.
  Floating-point rates are exact rationals; IEEE rounding is not modelled.
\<close>

section \<open>Collections of facts\<close>

named_theorems frame_simps
  \<open>Which parts of a state an operation leaves unchanged\<close>
named_theorems py_simps
  \<open>Evaluation of the Python idioms of this theory\<close>

section \<open>Python values\<close>

datatype json =
    JNull
  | JBool bool
  | JInt int
  | JFloat rat
  | JStr string
  | JList "json list"
  | JObj "(string \<times> json) list"

type_synonym 'v dict = "(string \<times> 'v) list"

text \<open>\<open>d.get(k)\<close> and \<open>d.get(k, default)\<close>.\<close>

definition dict_get :: "'v dict \<Rightarrow> string \<Rightarrow> 'v option" where
  "dict_get d k = map_of d k"

definition dict_get_or :: "'v dict \<Rightarrow> string \<Rightarrow> 'v \<Rightarrow> 'v" where
  "dict_get_or d k v = (case map_of d k of None \<Rightarrow> v | Some x \<Rightarrow> x)"

text \<open>\<open>d[k] = v\<close>: an existing key keeps its position, a new one goes last.\<close>

fun dict_set :: "('k \<times> 'v) list \<Rightarrow> 'k \<Rightarrow> 'v \<Rightarrow> ('k \<times> 'v) list" where
  "dict_set [] k v = [(k, v)]"
| "dict_set ((k', v') # d) k v = (if k' = k then (k, v) # d else (k', v') # dict_set d k v)"

text \<open>
  \<open>{**d, **d'}\<close>, a string or \<open>None\<close> as a JSON value, and the truth value of what
  \<open>d.get(k)\<close> returns.
\<close>

definition dict_update :: "'v dict \<Rightarrow> 'v dict \<Rightarrow> 'v dict" where
  "dict_update d d' = fold (\<lambda>(k, v) acc. dict_set acc k v) d' d"

definition opt_str :: "string option \<Rightarrow> json" where
  "opt_str s = (case s of None \<Rightarrow> JNull | Some x \<Rightarrow> JStr x)"

fun py_truthy :: "json option \<Rightarrow> bool" where
  "py_truthy None = False"
| "py_truthy (Some JNull) = False"
| "py_truthy (Some (JBool b)) = b"
| "py_truthy (Some (JInt i)) = (i \<noteq> 0)"
| "py_truthy (Some (JFloat q)) = (q \<noteq> 0)"
| "py_truthy (Some (JStr s)) = (s \<noteq> [])"
| "py_truthy (Some (JList vs)) = (vs \<noteq> [])"
| "py_truthy (Some (JObj d)) = (d \<noteq> [])"

text \<open>The last binding of a key wins in \<open>{x.id: x for x in xs}\<close>.\<close>

definition index_by :: "('a \<Rightarrow> 'k) \<Rightarrow> 'a list \<Rightarrow> 'k \<Rightarrow> 'a option" where
  "index_by key xs k = find (\<lambda>x. key x = k) (rev xs)"

fun is_dict :: "json \<Rightarrow> bool" where
  "is_dict (JObj d) = True"
| "is_dict _ = False"

lemma map_of_dict_set [simp]: "map_of (dict_set d k v) = (map_of d)(k \<mapsto> v)"
  by (induction d k v rule: dict_set.induct) (auto simp: fun_eq_iff)

lemma dict_set_not_Nil [simp]: "dict_set d k v \<noteq> []"
  by (cases "(d, k, v)" rule: dict_set.cases) auto

lemma index_by_Some_in: "index_by key xs k = Some x \<Longrightarrow> x \<in> set xs \<and> key x = k"
  unfolding index_by_def find_Some_iff by (metis nth_mem set_rev length_rev)

lemma index_by_None: "index_by key xs k = None \<longleftrightarrow> k \<notin> key ` set xs"
  by (auto simp: index_by_def find_None_iff)

lemma index_by_ex: "k \<in> key ` set xs \<Longrightarrow> \<exists>x. index_by key xs k = Some x \<and> x \<in> set xs \<and> key x = k"
  by (metis index_by_None index_by_Some_in not_None_eq)

lemma index_by_distinct:
  assumes "distinct (map key xs)" and "x \<in> set xs"
  shows "index_by key xs (key x) = Some x"
proof -
  obtain y where y: "index_by key xs (key x) = Some y" "y \<in> set xs" "key y = key x"
    using index_by_ex[of "key x" key xs] assms(2) by auto
  then have "y = x"
    using assms by (auto simp: distinct_map inj_on_def)
  with y show ?thesis by simp
qed

section \<open>Timestamps\<close>

text \<open>
  A \<open>datetime\<close> with or without \<open>tzinfo\<close>, in microseconds. SQLite hands time-zone
  aware columns back naive; the code reads such values as UTC.
\<close>

datatype datetime = Naive int | Aware int

fun instant :: "datetime \<Rightarrow> int" where
  "instant (Naive t) = t"
| "instant (Aware t) = t"

text \<open>\<open>(a - b).total_seconds()\<close> and \<open>a + timedelta(seconds=s)\<close>.\<close>

definition total_seconds :: "datetime \<Rightarrow> datetime \<Rightarrow> rat" where
  "total_seconds a b = rat_of_int (instant a - instant b) / 1000000"

definition plus_seconds :: "datetime \<Rightarrow> int \<Rightarrow> datetime" where
  "plus_seconds d s = Aware (instant d + s * 1000000)"

lemma total_seconds_less_iff [py_simps]:
  "total_seconds a b < of_int s \<longleftrightarrow> instant a < instant b + s * 1000000"
proof -
  have "total_seconds a b < of_int s \<longleftrightarrow> rat_of_int (instant a - instant b) < of_int (s * 1000000)"
    by (simp add: total_seconds_def divide_less_eq)
  also have "\<dots> \<longleftrightarrow> instant a - instant b < s * 1000000"
    by (simp only: of_int_less_iff)
  finally show ?thesis by linarith
qed

lemma instant_plus_seconds [simp]: "instant (plus_seconds d s) = instant d + s * 1000000"
  by (simp add: plus_seconds_def)

section \<open>Query shapes\<close>

text \<open>
  \<open>ORDER BY t DESC\<close> and \<open>ORDER BY t ASC\<close> over a table kept in insertion order. SQL
  leaves the order of equal timestamps open; here the row inserted last comes first in the
  descending order, and the ascending order is stable.
\<close>

definition order_desc :: "('a \<Rightarrow> datetime) \<Rightarrow> 'a list \<Rightarrow> 'a list" where
  "order_desc t xs = sort_key (\<lambda>x. - instant (t x)) (rev xs)"

definition order_asc :: "('a \<Rightarrow> datetime) \<Rightarrow> 'a list \<Rightarrow> 'a list" where
  "order_asc t xs = sort_key (\<lambda>x. instant (t x)) xs"

definition first_row :: "'a list \<Rightarrow> 'a option" where
  "first_row xs = (case xs of [] \<Rightarrow> None | x # _ \<Rightarrow> Some x)"

lemma first_row_mem: "first_row xs = Some x \<Longrightarrow> x \<in> set xs"
  by (cases xs) (simp_all add: first_row_def)

lemma set_order_desc [simp]: "set (order_desc t xs) = set xs"
  by (simp add: order_desc_def)

lemma set_order_asc [simp]: "set (order_asc t xs) = set xs"
  by (simp add: order_asc_def)

lemma length_order_desc [simp]: "length (order_desc t xs) = length xs"
  by (simp add: order_desc_def)

lemma order_desc_Nil_iff [simp]: "order_desc t xs = [] \<longleftrightarrow> xs = []"
  by (metis length_0_conv length_order_desc)

lemma first_row_Some_in: "first_row xs = Some x \<Longrightarrow> x \<in> set xs"
  by (auto simp: first_row_def split: list.splits)

lemma first_row_None [simp]: "first_row xs = None \<longleftrightarrow> xs = []"
  by (auto simp: first_row_def split: list.splits)

lemma first_row_desc_newest:
  assumes "first_row (order_desc t xs) = Some x" and "y \<in> set xs"
  shows "instant (t y) \<le> instant (t x)"
proof -
  obtain zs where zs: "order_desc t xs = x # zs"
    using assms(1) by (auto simp: first_row_def split: list.splits)
  have "sorted (map (\<lambda>x. - instant (t x)) (order_desc t xs))"
    unfolding order_desc_def by (rule sorted_sort_key)
  moreover have "y \<in> set (x # zs)"
    using assms(2) zs by (metis set_order_desc)
  ultimately show ?thesis using zs by auto
qed

section \<open>Shared list lemmas\<close>

lemma length_filter_add_one:
  "P x \<Longrightarrow> length (filter P (xs @ [x])) = Suc (length (filter P xs))"
  by simp

lemma filter_map_unchanged:
  "(\<And>x. x \<in> set xs \<Longrightarrow> P x \<Longrightarrow> f x = x) \<Longrightarrow> (\<And>x. x \<in> set xs \<Longrightarrow> P (f x) = P x) \<Longrightarrow>
    filter P (map f xs) = filter P xs"
  by (induction xs) auto

lemma takeWhile_length_le: "length (takeWhile P xs) \<le> length xs"
  by (simp add: length_takeWhile_le)

lemma sum_list_filter_indicator:
  "sum_list (map (\<lambda>x. if P x then (1::int) else 0) xs) = int (length (filter P xs))"
  by (induction xs) auto

text \<open>A primary-key update, seen through a primary-key lookup.\<close>

lemma find_map_key:
  "(\<And>x. key (g x) = key x) \<Longrightarrow>
    find (\<lambda>x. key x = k) (map g xs) = map_option g (find (\<lambda>x. key x = k) xs)"
  by (induction xs) auto

lemma find_map_update_other:
  "(\<And>x. key (f x) = key x) \<Longrightarrow> k' \<noteq> k \<Longrightarrow>
    find (\<lambda>x. key x = k') (map (\<lambda>x. if key x = k then f x else x) xs) = find (\<lambda>x. key x = k') xs"
  by (induction xs) auto

lemma find_map_update_same:
  "(\<And>x. key (f x) = key x) \<Longrightarrow>
    find (\<lambda>x. key x = k) (map (\<lambda>x. if key x = k then f x else x) xs) =
      map_option f (find (\<lambda>x. key x = k) xs)"
  by (induction xs) auto

text \<open>Counting with a disjoint cover: every element falls in exactly one class.\<close>

lemma length_filter_disj:
  "(\<And>x. x \<in> set xs \<Longrightarrow> \<not> (P x \<and> Q x)) \<Longrightarrow>
    length (filter (\<lambda>x. P x \<or> Q x) xs) = length (filter P xs) + length (filter Q xs)"
  by (induction xs) auto

end
