(* ===== verification/ErrorKinds.thy ===== *)
theory ErrorKinds
  imports Prelude
begin

text \<open>
  The failure vocabulary: retryable against permanent faults
  (\<open>backend/pipeline/error_taxonomy.py\<close>) and the coarser, control-facing
  \<open>ErrorKind\<close> (\<open>backend/control/error_kinds.py\<close>). An exception is modelled by its
  class name, the explicit \<open>error_type\<close> of a \<open>ChannelFetchError\<close> and its cause.
\<close>

section \<open>Retry taxonomy\<close>

definition RETRYABLE :: "string list" where
  "RETRYABLE =
     [''TimeoutException'', ''TimeoutError'', ''ConnectTimeout'', ''ReadTimeout'',
      ''WriteTimeout'', ''PoolTimeout'', ''ConnectError'', ''ConnectionError'', ''ReadError'',
      ''WriteError'', ''RemoteProtocolError'', ''NetworkError'', ''OSError'',
      ''RetryableHTTPStatus'']"

definition PERMANENT :: "string list" where
  "PERMANENT =
     [''ValueError'', ''KeyError'', ''TypeError'', ''FileNotFoundError'', ''JSONDecodeError'',
      ''ValidationError'', ''PermanentHTTPStatus'', ''BinaryNotAllowedError'']"

definition CAPTCHA_CHALLENGE :: string where
  "CAPTCHA_CHALLENGE = ''captcha_challenge''"

definition is_captcha :: "string option \<Rightarrow> bool" where
  "is_captcha error_type \<longleftrightarrow> error_type = Some CAPTCHA_CHALLENGE"

definition is_retryable :: "string option \<Rightarrow> bool" where
  "is_retryable error_type =
     (case error_type of
        None \<Rightarrow> False
      | Some e \<Rightarrow>
          if e = [] then False
          else if List.member RETRYABLE e then True
          else if List.member PERMANENT e then False
          else False)"

definition is_retryable_http_status :: "int \<Rightarrow> bool" where
  "is_retryable_http_status status_code =
     (if status_code \<in> {408, 429} \<or> status_code \<ge> 500 then True else False)"

text \<open>
  Exceptions: any class by name, or the wrapper \<open>ChannelFetchError\<close> with its optional
  \<open>error_type\<close> and \<open>__cause__\<close>.
\<close>

datatype exn =
    Exn (type_name: string)
  | ChannelFetchError "string option" "exn option"

fun exn_class :: "exn \<Rightarrow> string" where
  "exn_class (Exn n) = n"
| "exn_class (ChannelFetchError _ _) = ''ChannelFetchError''"

fun effective_error_type :: "exn \<Rightarrow> string" where
  "effective_error_type (ChannelFetchError (Some e) cause) = e"
| "effective_error_type (ChannelFetchError None (Some cause)) = exn_class cause"
| "effective_error_type (ChannelFetchError None None) = ''ChannelFetchError''"
| "effective_error_type (Exn n) = n"

section \<open>Control-facing error kinds\<close>

datatype error_kind =
    K_RATE_LIMITED | K_AUTH_FAILED | K_NETWORK | K_TIMEOUT | K_SCHEMA_DRIFT | K_VALIDATION
  | K_ODP_UNAVAILABLE | K_STORE_FAILED | K_POISON_MESSAGE | K_CAPTCHA | K_UNKNOWN

fun error_kind_value :: "error_kind \<Rightarrow> string" where
  "error_kind_value K_RATE_LIMITED = ''rate_limited''"
| "error_kind_value K_AUTH_FAILED = ''auth_failed''"
| "error_kind_value K_NETWORK = ''network''"
| "error_kind_value K_TIMEOUT = ''timeout''"
| "error_kind_value K_SCHEMA_DRIFT = ''schema_drift''"
| "error_kind_value K_VALIDATION = ''validation''"
| "error_kind_value K_ODP_UNAVAILABLE = ''odp_unavailable''"
| "error_kind_value K_STORE_FAILED = ''store_failed''"
| "error_kind_value K_POISON_MESSAGE = ''poison_message''"
| "error_kind_value K_CAPTCHA = ''captcha''"
| "error_kind_value K_UNKNOWN = ''unknown''"

definition ERROR_TYPE_MAP :: "(string \<times> error_kind) list" where
  "ERROR_TYPE_MAP =
     [(''ConnectError'', K_NETWORK), (''ConnectionError'', K_NETWORK), (''ReadError'', K_NETWORK),
      (''WriteError'', K_NETWORK), (''RemoteProtocolError'', K_NETWORK),
      (''NetworkError'', K_NETWORK), (''OSError'', K_NETWORK),
      (''TimeoutException'', K_TIMEOUT), (''TimeoutError'', K_TIMEOUT),
      (''ConnectTimeout'', K_TIMEOUT), (''ReadTimeout'', K_TIMEOUT),
      (''WriteTimeout'', K_TIMEOUT), (''PoolTimeout'', K_TIMEOUT),
      (''RetryableHTTPStatus'', K_RATE_LIMITED), (''RateLimitError'', K_RATE_LIMITED),
      (''RateLimited'', K_RATE_LIMITED),
      (''AuthenticationError'', K_AUTH_FAILED), (''AuthFailed'', K_AUTH_FAILED),
      (''Unauthorized'', K_AUTH_FAILED), (''PermissionError'', K_AUTH_FAILED),
      (''JSONDecodeError'', K_SCHEMA_DRIFT), (''SchemaDriftError'', K_SCHEMA_DRIFT),
      (''ParseError'', K_SCHEMA_DRIFT), (''SAXParseException'', K_SCHEMA_DRIFT),
      (''ValueError'', K_VALIDATION), (''KeyError'', K_VALIDATION), (''TypeError'', K_VALIDATION),
      (''ValidationError'', K_VALIDATION), (''PermanentHTTPStatus'', K_VALIDATION),
      (''SSRFValidationError'', K_VALIDATION), (''FileNotFoundError'', K_VALIDATION),
      (''OdpUnavailableError'', K_ODP_UNAVAILABLE), (''OdpIngestError'', K_ODP_UNAVAILABLE),
      (''StoreError'', K_STORE_FAILED), (''IntegrityError'', K_STORE_FAILED),
      (''OperationalError'', K_STORE_FAILED),
      (''PoisonMessageError'', K_POISON_MESSAGE),
      (''captcha_challenge'', K_CAPTCHA)]"

definition map_error_type :: "string option \<Rightarrow> error_kind" where
  "map_error_type error_type =
     (case error_type of
        None \<Rightarrow> K_UNKNOWN
      | Some e \<Rightarrow>
          if e = [] then K_UNKNOWN
          else (case map_of ERROR_TYPE_MAP e of None \<Rightarrow> K_UNKNOWN | Some k \<Rightarrow> k))"

definition map_exception :: "exn option \<Rightarrow> error_kind" where
  "map_exception exc =
     (case exc of None \<Rightarrow> K_UNKNOWN | Some e \<Rightarrow> map_error_type (Some (effective_error_type e)))"

section \<open>Properties\<close>

lemma error_kind_value_inject [simp]: "error_kind_value a = error_kind_value b \<longleftrightarrow> a = b"
  by (cases a; cases b; simp)

text \<open>
  Every transient fault is visible to the controller as one of the three kinds it backs off
  on, and no permanent fault is.
\<close>

lemma retryable_kinds: "list_all (\<lambda>e. map_error_type (Some e) \<in> {K_NETWORK, K_TIMEOUT, K_RATE_LIMITED}) RETRYABLE"
  by code_simp

lemma permanent_kinds:
  "list_all (\<lambda>e. map_error_type (Some e) \<in> {K_VALIDATION, K_SCHEMA_DRIFT, K_UNKNOWN}) PERMANENT"
  by code_simp

lemma is_retryable_iff: "is_retryable error_type \<longleftrightarrow> (\<exists>e. error_type = Some e \<and> e \<in> set RETRYABLE)"
proof (cases error_type)
  case None
  then show ?thesis by (simp add: is_retryable_def)
next
  case (Some e)
  have "[] \<notin> set RETRYABLE" by (simp add: RETRYABLE_def)
  with Some show ?thesis by (auto simp: is_retryable_def)
qed

lemma captcha_kind: "map_error_type (Some CAPTCHA_CHALLENGE) = K_CAPTCHA"
  by code_simp

lemma captcha_not_listed: "CAPTCHA_CHALLENGE \<notin> set RETRYABLE \<and> CAPTCHA_CHALLENGE \<notin> set PERMANENT"
  by (simp add: CAPTCHA_CHALLENGE_def RETRYABLE_def PERMANENT_def)

text \<open>
  Retry policy and controller agree on faults: every fault the pipeline retries reaches the
  controller as a network, timeout or rate-limit kind, no fault listed as permanent does, and a
  captcha challenge is neither retried nor permanent but a kind of its own.
\<close>

lemma retry_policy_matches_kinds:
  "(is_retryable (Some e) \<longrightarrow>
      map_error_type (Some e) \<in> {K_NETWORK, K_TIMEOUT, K_RATE_LIMITED}) \<and>
   (e \<in> set PERMANENT \<longrightarrow>
      map_error_type (Some e) \<in> {K_VALIDATION, K_SCHEMA_DRIFT, K_UNKNOWN} \<and>
      \<not> is_retryable (Some e)) \<and>
   (is_captcha (Some e) \<longrightarrow>
      map_error_type (Some e) = K_CAPTCHA \<and> \<not> is_retryable (Some e) \<and> e \<notin> set PERMANENT)"
proof -
  have r: "is_retryable (Some e) \<Longrightarrow> map_error_type (Some e) \<in> {K_NETWORK, K_TIMEOUT, K_RATE_LIMITED}"
    using retryable_kinds by (auto simp: is_retryable_iff list_all_iff)
  have p: "e \<in> set PERMANENT \<Longrightarrow> map_error_type (Some e) \<in> {K_VALIDATION, K_SCHEMA_DRIFT, K_UNKNOWN}"
    using permanent_kinds by (auto simp: list_all_iff)
  have c: "is_captcha (Some e) \<Longrightarrow> e = CAPTCHA_CHALLENGE"
    by (simp add: is_captcha_def)
  have "is_retryable (Some e) \<Longrightarrow> e \<notin> set PERMANENT" using r p by fastforce
  with r p c captcha_kind captcha_not_listed show ?thesis
    by (simp add: is_retryable_iff) blast
qed

lemma retry_policy_matches_kinds_witness:
  "is_retryable (Some ''ConnectError'') \<and> map_error_type (Some ''ConnectError'') = K_NETWORK"
proof -
  have "is_retryable (Some ''ConnectError'')" by (simp add: is_retryable_iff RETRYABLE_def)
  with retry_policy_matches_kinds[of "''ConnectError''"] show ?thesis
    by (simp add: map_error_type_def ERROR_TYPE_MAP_def)
qed

end
