(* ===== verification/Measurement.thy ===== *)
theory Measurement
  imports ErrorKinds
begin

text \<open>
  Sensor readings and setpoints: \<open>SourceMeasurement\<close> and its rate derivation
  (\<open>backend/control/measurements.py\<close>), the persisted row and its recorder
  (\<open>backend/models/source_measurement.py\<close>, \<open>backend/control/recorder.py\<close>), the
  objectives with their overrides (\<open>backend/control/objectives.py\<close>) and sensor coverage
  (\<open>backend/control/coverage.py\<close>).
\<close>

section \<open>The measurement contract\<close>

record source_measurement =
  sm_source_id :: string
  sm_run_id :: string
  sm_accepted :: int
  sm_duplicates :: int
  sm_rejected :: int
  sm_fetch_latency_ms :: int
  sm_ingest_latency_ms :: "int option"
  sm_store_latency_ms :: "int option"
  sm_error_rate :: rat
  sm_duplicate_rate :: rat
  sm_freshness_lag_seconds :: "int option"
  sm_cursor_advanced :: bool
  sm_odp_stream_lag :: "int option"
  sm_odp_pending :: "int option"
  sm_dlq_count :: int
  sm_error_kinds :: "int dict"
  sm_source_ts_quality :: "string option"
  sm_observed_at :: datetime

definition derive ::
  "string \<Rightarrow> string \<Rightarrow> int \<Rightarrow> int \<Rightarrow> int \<Rightarrow> int \<Rightarrow> datetime \<Rightarrow> bool \<Rightarrow> int option \<Rightarrow> int option \<Rightarrow>
   int option \<Rightarrow> int option \<Rightarrow> int option \<Rightarrow> int \<Rightarrow> int dict \<Rightarrow> string option \<Rightarrow> source_measurement"
where
  "derive source_id run_id accepted duplicates rejected fetch_latency_ms observed_at
     cursor_advanced ingest_latency_ms store_latency_ms freshness_lag_seconds odp_stream_lag
     odp_pending dlq_count error_kinds source_ts_quality =
     (let total_seen = accepted + duplicates + rejected;
          (error_rate, duplicate_rate) =
            (if total_seen > 0
             then (rat_of_int rejected / rat_of_int total_seen,
                   rat_of_int duplicates / rat_of_int total_seen)
             else (0, 0))
      in \<lparr>sm_source_id = source_id, sm_run_id = run_id, sm_accepted = accepted,
          sm_duplicates = duplicates, sm_rejected = rejected,
          sm_fetch_latency_ms = fetch_latency_ms, sm_ingest_latency_ms = ingest_latency_ms,
          sm_store_latency_ms = store_latency_ms, sm_error_rate = error_rate,
          sm_duplicate_rate = duplicate_rate, sm_freshness_lag_seconds = freshness_lag_seconds,
          sm_cursor_advanced = cursor_advanced, sm_odp_stream_lag = odp_stream_lag,
          sm_odp_pending = odp_pending, sm_dlq_count = dlq_count, sm_error_kinds = error_kinds,
          sm_source_ts_quality = source_ts_quality, sm_observed_at = observed_at\<rparr>)"

section \<open>The persisted row and its recorder\<close>

type_synonym row_id = nat

record measurement_row =
  mr_id :: row_id
  mr_source_id :: string
  mr_run_id :: string
  mr_measured_at :: datetime
  mr_accepted :: int
  mr_duplicates :: int
  mr_rejected :: int
  mr_error_rate :: rat
  mr_duplicate_rate :: rat
  mr_error_kinds :: "int dict"
  mr_fetch_latency_ms :: "int option"
  mr_ingest_latency_ms :: "int option"
  mr_store_latency_ms :: "int option"
  mr_cursor_advanced :: bool
  mr_newest_source_ts :: "datetime option"
  mr_newest_observed_at :: "datetime option"
  mr_freshness_lag_seconds :: "int option"
  mr_source_ts_quality :: string
  mr_raw :: "json dict"

record freshness_info =
  fi_newest_source_ts :: "datetime option"
  fi_newest_observed_at :: "datetime option"
  fi_freshness_lag_seconds :: "int option"
  fi_quality :: string

definition default_freshness :: freshness_info where
  "default_freshness =
     \<lparr>fi_newest_source_ts = None, fi_newest_observed_at = None,
      fi_freshness_lag_seconds = None, fi_quality = ''missing''\<rparr>"

definition VALID_QUALITIES :: "string list" where
  "VALID_QUALITIES = [''source'', ''observed_fallback'', ''missing'', ''invalid'', ''synthetic'']"

definition error_kinds_payload :: "error_kind option \<Rightarrow> string option \<Rightarrow> int dict" where
  "error_kinds_payload kind error_type =
     (case kind of
        Some k \<Rightarrow> [(error_kind_value k, 1)]
      | None \<Rightarrow> (case error_type of
          Some e \<Rightarrow> [(error_kind_value (map_error_type (Some e)), 1)]
        | None \<Rightarrow> []))"

text \<open>The row \<open>record_run_measurement\<close> adds to the session; \<open>rid\<close> is its fresh primary key.\<close>

definition record_run_measurement ::
  "row_id \<Rightarrow> string \<Rightarrow> string \<Rightarrow> int \<Rightarrow> int \<Rightarrow> int \<Rightarrow> int \<Rightarrow> int option \<Rightarrow> int option \<Rightarrow> bool \<Rightarrow>
   string option \<Rightarrow> error_kind option \<Rightarrow> freshness_info option \<Rightarrow> json dict option \<Rightarrow> datetime \<Rightarrow>
   measurement_row list \<Rightarrow> measurement_row \<times> measurement_row list"
where
  "record_run_measurement rid source_id run_id accepted duplicates rejected fetch_latency_ms
     ingest_latency_ms store_latency_ms cursor_advanced error_type kind freshness raw now rows =
     (let fresh = (case freshness of None \<Rightarrow> default_freshness | Some f \<Rightarrow> f);
          quality = (if List.member VALID_QUALITIES (fi_quality fresh) then fi_quality fresh
                     else ''missing'');
          contract = derive source_id run_id accepted duplicates rejected fetch_latency_ms now
                       cursor_advanced ingest_latency_ms store_latency_ms
                       (fi_freshness_lag_seconds fresh) None None 0 [] None;
          row = \<lparr>mr_id = rid, mr_source_id = sm_source_id contract,
                 mr_run_id = sm_run_id contract, mr_measured_at = sm_observed_at contract,
                 mr_accepted = sm_accepted contract, mr_duplicates = sm_duplicates contract,
                 mr_rejected = sm_rejected contract, mr_error_rate = sm_error_rate contract,
                 mr_duplicate_rate = sm_duplicate_rate contract,
                 mr_error_kinds = error_kinds_payload kind error_type,
                 mr_fetch_latency_ms = Some (sm_fetch_latency_ms contract),
                 mr_ingest_latency_ms = sm_ingest_latency_ms contract,
                 mr_store_latency_ms = sm_store_latency_ms contract,
                 mr_cursor_advanced = sm_cursor_advanced contract,
                 mr_newest_source_ts = fi_newest_source_ts fresh,
                 mr_newest_observed_at = fi_newest_observed_at fresh,
                 mr_freshness_lag_seconds = sm_freshness_lag_seconds contract,
                 mr_source_ts_quality = quality,
                 mr_raw = (case raw of None \<Rightarrow> [] | Some r \<Rightarrow> r)\<rparr>
      in (row, rows @ [row]))"

section \<open>Objectives\<close>

record source_objective =
  so_max_error_rate :: rat
  so_max_duplicate_rate :: rat
  so_max_freshness_lag_seconds :: "int option"
  so_max_run_latency_ms :: int
  so_max_pending :: int
  so_min_accepted_per_run :: "int option"

definition default_objective :: source_objective where
  "default_objective =
     \<lparr>so_max_error_rate = 5 / 100, so_max_duplicate_rate = 50 / 100,
      so_max_freshness_lag_seconds = None, so_max_run_latency_ms = 30000,
      so_max_pending = 1000, so_min_accepted_per_run = None\<rparr>"

record objective_override =
  oo_max_error_rate :: "rat option"
  oo_max_duplicate_rate :: "rat option"
  oo_max_freshness_lag_seconds :: "int option"
  oo_max_run_latency_ms :: "int option"
  oo_max_pending :: "int option"
  oo_min_accepted_per_run :: "int option"

text \<open>
  \<open>SourceObjectiveOverride.model_validate\<close> is pydantic's; it is the parameter
  \<open>model_validate\<close>, which rejects a dictionary (\<open>Inl\<close>) or returns the override it
  describes. \<open>model_dump(exclude_none=True)\<close> then keeps the keys that are set.
\<close>

type_synonym 'e validator = "json dict \<Rightarrow> 'e + objective_override"

definition resolve_objective ::
  "'e validator \<Rightarrow> json dict option \<Rightarrow> 'e + source_objective"
where
  "resolve_objective model_validate override =
     (case override of
        None \<Rightarrow> Inr default_objective
      | Some d \<Rightarrow>
          if d = [] then Inr default_objective
          else (case model_validate d of
              Inl e \<Rightarrow> Inl e
            | Inr v \<Rightarrow> Inr
                \<lparr>so_max_error_rate =
                   (case oo_max_error_rate v of None \<Rightarrow> so_max_error_rate default_objective
                    | Some x \<Rightarrow> x),
                 so_max_duplicate_rate =
                   (case oo_max_duplicate_rate v of
                      None \<Rightarrow> so_max_duplicate_rate default_objective | Some x \<Rightarrow> x),
                 so_max_freshness_lag_seconds =
                   (case oo_max_freshness_lag_seconds v of
                      None \<Rightarrow> so_max_freshness_lag_seconds default_objective | Some x \<Rightarrow> Some x),
                 so_max_run_latency_ms =
                   (case oo_max_run_latency_ms v of
                      None \<Rightarrow> so_max_run_latency_ms default_objective | Some x \<Rightarrow> x),
                 so_max_pending =
                   (case oo_max_pending v of None \<Rightarrow> so_max_pending default_objective
                    | Some x \<Rightarrow> x),
                 so_min_accepted_per_run =
                   (case oo_min_accepted_per_run v of
                      None \<Rightarrow> so_min_accepted_per_run default_objective | Some x \<Rightarrow> Some x)\<rparr>))"

section \<open>Sensor coverage\<close>

record sensor_coverage =
  cov_run :: bool
  cov_cursor :: bool
  cov_freshness :: bool
  cov_error_kinds :: bool
  cov_odp :: bool

definition CRITICAL_SIGNALS :: "string list" where
  "CRITICAL_SIGNALS = [''odp'', ''error_kinds'']"

definition coverage_items :: "sensor_coverage \<Rightarrow> bool dict" where
  "coverage_items c =
     [(''run'', cov_run c), (''cursor'', cov_cursor c), (''freshness'', cov_freshness c),
      (''error_kinds'', cov_error_kinds c), (''odp'', cov_odp c)]"

definition compute_sensor_coverage :: "source_measurement \<Rightarrow> sensor_coverage" where
  "compute_sensor_coverage m =
     (let has_rich_row = (sm_source_ts_quality m \<noteq> None)
      in \<lparr>cov_run = True, cov_cursor = has_rich_row,
          cov_freshness = (sm_freshness_lag_seconds m \<noteq> None),
          cov_error_kinds = has_rich_row,
          cov_odp = (sm_odp_stream_lag m \<noteq> None \<or> sm_odp_pending m \<noteq> None)\<rparr>)"

definition missing_signals :: "sensor_coverage \<Rightarrow> string list" where
  "missing_signals c = map fst (filter (\<lambda>(name, present). \<not> present) (coverage_items c))"

definition derive_confidence :: "sensor_coverage \<Rightarrow> string" where
  "derive_confidence c =
     (let missing = missing_signals c
      in if missing = [] then ''high''
         else if list_ex (\<lambda>s. List.member missing s) CRITICAL_SIGNALS then ''low''
         else if length missing \<ge> 2 then ''low''
         else ''medium'')"

section \<open>Properties\<close>

lemma derive_fields [simp]:
  "sm_source_id (derive s r a d j fl ob ca il sl fr ol op dq ek q) = s"
  "sm_error_kinds (derive s r a d j fl ob ca il sl fr ol op dq ek q) = ek"
  "sm_odp_stream_lag (derive s r a d j fl ob ca il sl fr ol op dq ek q) = ol"
  "sm_odp_pending (derive s r a d j fl ob ca il sl fr ol op dq ek q) = op"
  "sm_source_ts_quality (derive s r a d j fl ob ca il sl fr ol op dq ek q) = q"
  "sm_freshness_lag_seconds (derive s r a d j fl ob ca il sl fr ol op dq ek q) = fr"
  "sm_accepted (derive s r a d j fl ob ca il sl fr ol op dq ek q) = a"
  "sm_run_id (derive s r a d j fl ob ca il sl fr ol op dq ek q) = r"
  by (auto simp: derive_def Let_def)

lemma derive_rates:
  fixes a d j :: int
  defines "n \<equiv> a + d + j"
  shows "sm_error_rate (derive s r a d j fl ob ca il sl fr ol op dq ek q) =
      (if n > 0 then rat_of_int j / rat_of_int n else 0)"
    and "sm_duplicate_rate (derive s r a d j fl ob ca il sl fr ol op dq ek q) =
      (if n > 0 then rat_of_int d / rat_of_int n else 0)"
  by (auto simp: derive_def Let_def n_def)

text \<open>
  What the three confidence levels say about the sensors behind a reading: the two critical
  ones are in place unless the confidence is low.
\<close>

lemma derive_confidence_low_iff:
  "derive_confidence c = ''low'' \<longleftrightarrow>
     \<not> cov_odp c \<or> \<not> cov_error_kinds c \<or>
     length (filter Not [cov_run c, cov_cursor c, cov_freshness c]) \<ge> 2"
  by (auto simp: derive_confidence_def missing_signals_def coverage_items_def
      CRITICAL_SIGNALS_def Let_def)

lemma confidence_low_of_odp_gap:
  "sm_odp_stream_lag m = None \<Longrightarrow> sm_odp_pending m = None \<Longrightarrow>
    derive_confidence (compute_sensor_coverage m) = ''low''"
  unfolding derive_confidence_low_iff by (simp add: compute_sensor_coverage_def Let_def)

end
