(* ===== verification/Evaluator.thy ===== *)
theory Evaluator
  imports Measurement
begin

text \<open>
  From evidence to verdict to suggestion: the control states and actions
  (\<open>backend/control/models.py\<close>), the rule-based evaluator
  (\<open>backend/control/evaluator.py\<close>) and the feedback law
  (\<open>backend/control/policies.py\<close>). The human-readable reason of an action is the
  constructor that names its literal; the f-string of the last one keeps its two values.
\<close>

section \<open>States and actions\<close>

datatype source_control_state =
    HEALTHY | DEGRADED | BACKPRESSURED | RATE_LIMITED | AUTH_FAILED | SCHEMA_DRIFT | PAUSED
  | DEAD | BLOCKED_BY_ODP | UNKNOWN

fun state_value :: "source_control_state \<Rightarrow> string" where
  "state_value HEALTHY = ''healthy''"
| "state_value DEGRADED = ''degraded''"
| "state_value BACKPRESSURED = ''backpressured''"
| "state_value RATE_LIMITED = ''rate_limited''"
| "state_value AUTH_FAILED = ''auth_failed''"
| "state_value SCHEMA_DRIFT = ''schema_drift''"
| "state_value PAUSED = ''paused''"
| "state_value DEAD = ''dead''"
| "state_value BLOCKED_BY_ODP = ''blocked_by_odp''"
| "state_value UNKNOWN = ''unknown''"

lemma state_value_inject [simp]: "state_value a = state_value b \<longleftrightarrow> a = b"
  by (cases a; cases b; simp)

datatype action_reason =
    Reason_rate_limited | Reason_auth_pause | Reason_auth_review | Reason_drift_pause
  | Reason_drift_review | Reason_odp_pause | Reason_dead_review
  | Reason_error_rate rat rat | Reason_pause_expired

record control_action =
  act_type :: string
  act_source_id :: string
  act_reason :: action_reason
  act_payload :: "json dict"

definition error_kinds_json :: "int dict \<Rightarrow> json" where
  "error_kinds_json d = JObj (map (\<lambda>(k, n). (k, JInt n)) d)"

section \<open>The evaluator\<close>

definition DEAD_ZERO_STREAK_THRESHOLD :: int where
  "DEAD_ZERO_STREAK_THRESHOLD = 3"

text \<open>
  Both optional arguments are \<open>TypedDict(total=False)\<close>: every key may be absent.
\<close>

record system_context =
  ctx_odp_backpressured :: "bool option"
  ctx_available :: "bool option"

record trend =
  trd_window :: "int option"
  trd_zero_accepted_streak :: "int option"
  trd_avg_error_rate :: "rat option"
  trd_rate_limited_runs :: "int option"

definition empty_context :: system_context where
  "empty_context = \<lparr>ctx_odp_backpressured = None, ctx_available = None\<rparr>"

definition empty_trend :: trend where
  "empty_trend = \<lparr>trd_window = None, trd_zero_accepted_streak = None,
     trd_avg_error_rate = None, trd_rate_limited_runs = None\<rparr>"

definition or_default :: "'a option \<Rightarrow> 'a \<Rightarrow> 'a" where
  "or_default v d = (case v of None \<Rightarrow> d | Some x \<Rightarrow> x)"

definition evaluate ::
  "source_measurement \<Rightarrow> source_objective \<Rightarrow> trend option \<Rightarrow> system_context option \<Rightarrow>
   source_control_state"
where
  "evaluate m objective trend_opt context_opt =
     (let t = or_default trend_opt empty_trend;
          ctx = or_default context_opt empty_context;
          kinds = sm_error_kinds m;
          trend_rate_limited = or_default (trd_rate_limited_runs t) 0;
          trend_window = or_default (trd_window t) 0;
          rate_limited_dominant_in_trend =
            (trend_window > 0 \<and> trend_rate_limited * 2 > trend_window);
          zero_streak = or_default (trd_zero_accepted_streak t) 0
      in if dict_get_or kinds ''auth_failed'' 0 > 0 then AUTH_FAILED
         else if dict_get_or kinds ''rate_limited'' 0 > 0 \<or> rate_limited_dominant_in_trend
           then RATE_LIMITED
         else if dict_get_or kinds ''schema_drift'' 0 > 0 then SCHEMA_DRIFT
         else if or_default (ctx_available ctx) True \<and> or_default (ctx_odp_backpressured ctx) False
           then BLOCKED_BY_ODP
         else if sm_error_rate m > so_max_error_rate objective then DEGRADED
         else if (case sm_odp_pending m of None \<Rightarrow> False | Some p \<Rightarrow> p > so_max_pending objective)
           then BACKPRESSURED
         else if zero_streak \<ge> DEAD_ZERO_STREAK_THRESHOLD \<and> kinds \<noteq> [] then DEAD
         else if derive_confidence (compute_sensor_coverage m) = ''low'' then UNKNOWN
         else HEALTHY)"

section \<open>The feedback law\<close>

definition suggest_actions ::
  "source_control_state \<Rightarrow> source_measurement \<Rightarrow> source_objective \<Rightarrow> control_action list"
where
  "suggest_actions state m objective =
     (let source_id = sm_source_id m;
          kinds = [(''error_kinds'', error_kinds_json (sm_error_kinds m))];
          rate = [(''error_rate'', JFloat (sm_error_rate m))]
      in case state of
           RATE_LIMITED \<Rightarrow>
             [\<lparr>act_type = ''increase_interval'', act_source_id = source_id,
               act_reason = Reason_rate_limited, act_payload = rate\<rparr>]
         | AUTH_FAILED \<Rightarrow>
             [\<lparr>act_type = ''pause_source'', act_source_id = source_id,
               act_reason = Reason_auth_pause, act_payload = kinds\<rparr>,
              \<lparr>act_type = ''require_auth_review'', act_source_id = source_id,
               act_reason = Reason_auth_review, act_payload = kinds\<rparr>]
         | SCHEMA_DRIFT \<Rightarrow>
             [\<lparr>act_type = ''pause_source'', act_source_id = source_id,
               act_reason = Reason_drift_pause, act_payload = kinds\<rparr>,
              \<lparr>act_type = ''require_review'', act_source_id = source_id,
               act_reason = Reason_drift_review, act_payload = kinds\<rparr>]
         | BLOCKED_BY_ODP \<Rightarrow>
             [\<lparr>act_type = ''pause_low_priority'', act_source_id = source_id,
               act_reason = Reason_odp_pause,
               act_payload = [(''max_pending'', JInt (so_max_pending objective))]\<rparr>]
         | DEAD \<Rightarrow>
             [\<lparr>act_type = ''require_review'', act_source_id = source_id,
               act_reason = Reason_dead_review, act_payload = []\<rparr>]
         | DEGRADED \<Rightarrow>
             [\<lparr>act_type = ''require_review'', act_source_id = source_id,
               act_reason = Reason_error_rate (sm_error_rate m) (so_max_error_rate objective),
               act_payload = rate\<rparr>]
         | _ \<Rightarrow> [])"

section \<open>Observed problems and the honesty gate\<close>

text \<open>
  \<open>problem m objective t ctx s\<close> is the positive evidence for the state \<open>s\<close>, with no
  regard to coverage: the specification the evaluator refines by choosing one of the states
  with evidence, in the order \<open>precedence\<close>.
\<close>

fun problem ::
  "source_measurement \<Rightarrow> source_objective \<Rightarrow> trend \<Rightarrow> system_context \<Rightarrow>
   source_control_state \<Rightarrow> bool"
where
  "problem m objective t ctx AUTH_FAILED = (dict_get_or (sm_error_kinds m) ''auth_failed'' 0 > 0)"
| "problem m objective t ctx RATE_LIMITED =
     (dict_get_or (sm_error_kinds m) ''rate_limited'' 0 > 0 \<or>
      or_default (trd_window t) 0 > 0 \<and>
      or_default (trd_rate_limited_runs t) 0 * 2 > or_default (trd_window t) 0)"
| "problem m objective t ctx SCHEMA_DRIFT = (dict_get_or (sm_error_kinds m) ''schema_drift'' 0 > 0)"
| "problem m objective t ctx BLOCKED_BY_ODP =
     (or_default (ctx_available ctx) True \<and> or_default (ctx_odp_backpressured ctx) False)"
| "problem m objective t ctx DEGRADED = (sm_error_rate m > so_max_error_rate objective)"
| "problem m objective t ctx BACKPRESSURED =
     (case sm_odp_pending m of None \<Rightarrow> False | Some p \<Rightarrow> p > so_max_pending objective)"
| "problem m objective t ctx DEAD =
     (or_default (trd_zero_accepted_streak t) 0 \<ge> 3 \<and> sm_error_kinds m \<noteq> [])"
| "problem m objective t ctx _ = False"

definition precedence :: "source_control_state list" where
  "precedence = [AUTH_FAILED, RATE_LIMITED, SCHEMA_DRIFT, BLOCKED_BY_ODP, DEGRADED,
     BACKPRESSURED, DEAD]"

definition quiet_verdict :: "source_measurement \<Rightarrow> source_control_state" where
  "quiet_verdict m =
     (if derive_confidence (compute_sensor_coverage m) = ''low'' then UNKNOWN else HEALTHY)"

lemma problem_in_precedence: "problem m objective t ctx s \<Longrightarrow> s \<in> set precedence"
  by (cases s) (simp_all add: precedence_def)

lemma find_problem_None:
  "find (problem m objective t ctx) precedence = None \<longleftrightarrow> (\<forall>s. \<not> problem m objective t ctx s)"
  unfolding find_None_iff using problem_in_precedence by metis

lemma find_problem_Some:
  "find (problem m objective t ctx) precedence = Some s \<Longrightarrow> problem m objective t ctx s"
  by (auto simp: find_Some_iff)

lemma evaluate_first_match:
  "evaluate m objective t ctx =
     (case find (problem m objective (or_default t empty_trend) (or_default ctx empty_context))
             precedence of
        Some s \<Rightarrow> s | None \<Rightarrow> quiet_verdict m)"
  unfolding evaluate_def Let_def precedence_def quiet_verdict_def DEAD_ZERO_STREAK_THRESHOLD_def
  by (simp only: find.simps problem.simps option.case if_distrib[of "case_option _ _"] cong: if_cong)

lemma quiet_verdict_cases: "quiet_verdict m \<in> {HEALTHY, UNKNOWN}"
  by (simp add: quiet_verdict_def)

lemma evaluate_not_PAUSED [simp]: "evaluate m objective t ctx \<noteq> PAUSED"
proof
  assume "evaluate m objective t ctx = PAUSED"
  then have "problem m objective (or_default t empty_trend) (or_default ctx empty_context) PAUSED"
    unfolding evaluate_first_match
    using find_problem_Some quiet_verdict_cases[of m] by (fastforce split: option.splits)
  then show False by simp
qed

lemma evaluate_BLOCKED_needs_context [simp]: "evaluate m objective t None \<noteq> BLOCKED_BY_ODP"
proof
  assume "evaluate m objective t None = BLOCKED_BY_ODP"
  then have "problem m objective (or_default t empty_trend) empty_context BLOCKED_BY_ODP"
    unfolding evaluate_first_match
    using find_problem_Some quiet_verdict_cases[of m]
    by (fastforce simp: or_default_def split: option.splits)
  then show False by (simp add: or_default_def empty_context_def)
qed

lemma suggest_actions_source [simp]:
  "a \<in> set (suggest_actions state m objective) \<Longrightarrow> act_source_id a = sm_source_id m"
  by (auto simp: suggest_actions_def Let_def split: source_control_state.splits)

lemma suggest_actions_types:
  "act_type ` set (suggest_actions state m objective) \<subseteq>
    {''increase_interval'', ''pause_source'', ''require_auth_review'', ''require_review'',
     ''pause_low_priority''}"
  by (auto simp: suggest_actions_def Let_def split: source_control_state.splits)

lemma suggest_actions_distinct:
  "distinct (map act_type (suggest_actions state m objective))"
  by (auto simp: suggest_actions_def Let_def split: source_control_state.splits)

lemma suggest_actions_silent:
  "suggest_actions state m objective = [] \<longleftrightarrow> state \<in> {HEALTHY, PAUSED, UNKNOWN, BACKPRESSURED}"
  by (auto simp: suggest_actions_def Let_def split: source_control_state.splits)

text \<open>
  The verdict is decided by evidence before coverage: a state other than healthy and unknown is
  returned exactly when there is positive evidence for some problem, it is then a state with
  evidence that no state earlier in the order of precedence has, and missing sensors only turn
  a healthy verdict into an unknown one.
\<close>

lemma evaluate_evidence_first:
  "(let v = evaluate m objective t ctx;
        P = problem m objective (or_default t empty_trend) (or_default ctx empty_context)
    in if \<exists>s. P s
       then P v \<and> \<not> (\<exists>s \<in> set (takeWhile (\<lambda>s. s \<noteq> v) precedence). P s)
       else v = (if derive_confidence (compute_sensor_coverage m) = ''low'' then UNKNOWN
                 else HEALTHY))"
proof -
  define P where "P = problem m objective (or_default t empty_trend) (or_default ctx empty_context)"
  have first: "find P xs = Some v \<Longrightarrow> \<not> (\<exists>s \<in> set (takeWhile (\<lambda>s. s \<noteq> v) xs). P s)" for xs v
    by (induction xs) (auto split: if_splits)
  show ?thesis
  proof (cases "find P precedence")
    case None
    then have "\<not> (\<exists>s. P s)" unfolding P_def find_problem_None by blast
    with None show ?thesis
      by (auto simp: evaluate_first_match P_def[symmetric] quiet_verdict_def)
  next
    case (Some v)
    then have "P v" unfolding P_def by (rule find_problem_Some)
    with Some first[OF Some] show ?thesis
      by (auto simp: evaluate_first_match P_def[symmetric] Let_def)
  qed
qed

end
