(* ===== verification/ControlState.thy ===== *)
theory ControlState
  imports Evaluator
begin

text \<open>
  The state the control plane works on: the settings it reads (\<open>backend/config.py\<close>), the
  rows of the tables it queries or writes (\<open>backend/models/\<close>), and the database session
  with the two sources of freshness the ORM defaults use, the wall clock and the primary
  keys. The clock is an arbitrary sequence of readings: each use of \<open>datetime.now\<close>
  takes the next one.
\<close>

section \<open>Settings\<close>

record settings =
  control_mode :: string
  control_advisory_dedup_seconds :: int
  control_outcome_min_age_seconds :: int
  control_outcome_stale_seconds :: int
  control_kill_switch :: bool
  control_gate_min_samples :: int
  control_gate_min_recovery_rate :: rat
  control_action_cooldown_seconds :: int
  control_max_actions_per_hour :: int
  control_increase_interval_factor :: rat
  control_increase_interval_max_minutes :: int
  control_pause_ttl_seconds :: int

definition default_settings :: settings where
  "default_settings =
     \<lparr>control_mode = ''advisory'', control_advisory_dedup_seconds = 600,
      control_outcome_min_age_seconds = 3600, control_outcome_stale_seconds = 86400,
      control_kill_switch = False, control_gate_min_samples = 10,
      control_gate_min_recovery_rate = 6 / 10, control_action_cooldown_seconds = 3600,
      control_max_actions_per_hour = 20, control_increase_interval_factor = 2,
      control_increase_interval_max_minutes = 1440, control_pause_ttl_seconds = 3600\<rparr>"

section \<open>Rows\<close>

record data_source =
  ds_id :: string
  ds_name :: string
  ds_channel_type :: string
  ds_channel_config :: "json dict"
  ds_write_strategy :: "string option"
  ds_ai_config :: "json dict option"
  ds_objective_override :: "json dict option"
  ds_enabled :: bool
  ds_review_required :: bool
  ds_paused_until :: "datetime option"

record cron_schedule =
  cs_id :: string
  cs_source_id :: string
  cs_agent_id :: "string option"
  cs_cron_expression :: string
  cs_enabled :: bool
  cs_is_one_time :: bool
  cs_last_run_at :: "datetime option"

record collection_task =
  ct_id :: string
  ct_source_id :: string
  ct_agent_id :: "string option"
  ct_trigger_type :: string
  ct_parameters :: "json dict"
  ct_priority :: int
  ct_status :: string
  ct_error_message :: "string option"
  ct_recovery_mode :: "string option"

record task_run =
  tr_id :: string
  tr_task_id :: string
  tr_status :: string
  tr_celery_task_id :: "string option"
  tr_worker_id :: "string option"
  tr_created_at :: datetime
  tr_started_at :: "datetime option"
  tr_finished_at :: "datetime option"
  tr_duration_ms :: "int option"
  tr_records_collected :: int
  tr_error_message :: "string option"
  tr_error_detail :: "json dict option"
  tr_node_url :: "json option"

record task_run_event =
  te_run_id :: string
  te_step :: string
  te_level :: string
  te_created_at :: datetime
  te_detail :: "json dict option"
  te_elapsed_ms :: "int option"

record control_action_record =
  ca_id :: row_id
  ca_created_at :: datetime
  ca_source_id :: string
  ca_run_id :: "string option"
  ca_measurement_id :: "row_id option"
  ca_mode :: string
  ca_state :: string
  ca_action_type :: string
  ca_reason :: action_reason
  ca_payload :: "json dict"
  ca_executed :: bool
  ca_measurement_before :: source_measurement
  ca_evaluated_at :: "datetime option"
  ca_outcome :: "string option"
  ca_outcome_detail :: "json dict option"

section \<open>The session\<close>

record control_db =
  db_sources :: "data_source list"
  db_schedules :: "cron_schedule list"
  db_measurements :: "measurement_row list"
  db_tasks :: "collection_task list"
  db_runs :: "task_run list"
  db_events :: "task_run_event list"
  db_ledger :: "control_action_record list"
  db_clock :: "nat \<Rightarrow> int"
  db_reads :: nat
  db_next_id :: row_id

definition empty_db :: control_db where
  "empty_db = \<lparr>db_sources = [], db_schedules = [], db_measurements = [], db_tasks = [],
     db_runs = [], db_events = [], db_ledger = [], db_clock = (\<lambda>_. 0), db_reads = 0, db_next_id = 0\<rparr>"

lemma empty_db_fields [simp]:
  "db_sources empty_db = []" "db_schedules empty_db = []" "db_measurements empty_db = []"
  "db_tasks empty_db = []" "db_runs empty_db = []" "db_events empty_db = []"
  "db_ledger empty_db = []" "db_clock empty_db = (\<lambda>_. 0)" "db_reads empty_db = 0"
  "db_next_id empty_db = 0"
  by (simp_all add: empty_db_def)

definition utcnow :: "control_db \<Rightarrow> datetime \<times> control_db" where
  "utcnow db = (Aware (db_clock db (db_reads db)), db\<lparr>db_reads := Suc (db_reads db)\<rparr>)"

definition fresh_id :: "control_db \<Rightarrow> row_id \<times> control_db" where
  "fresh_id db = (db_next_id db, db\<lparr>db_next_id := Suc (db_next_id db)\<rparr>)"

text \<open>
  \<open>session.add(row); flush()\<close> on the ledger: the defaults of \<open>TimestampMixin\<close> fill the
  primary key and the creation time.
\<close>

definition add_action ::
  "control_action_record \<Rightarrow> control_db \<Rightarrow> control_action_record \<times> control_db"
where
  "add_action row db =
     (let (created, db1) = utcnow db; (rid, db2) = fresh_id db1;
          row' = row\<lparr>ca_id := rid, ca_created_at := created\<rparr>
      in (row', db2\<lparr>db_ledger := db_ledger db2 @ [row']\<rparr>))"

text \<open>\<open>session.get(DataSource, id)\<close> and an update of that row.\<close>

definition get_source :: "control_db \<Rightarrow> string \<Rightarrow> data_source option" where
  "get_source db sid = find (\<lambda>s. ds_id s = sid) (db_sources db)"

definition update_source ::
  "string \<Rightarrow> (data_source \<Rightarrow> data_source) \<Rightarrow> control_db \<Rightarrow> control_db"
where
  "update_source sid f db =
     db\<lparr>db_sources := map (\<lambda>s. if ds_id s = sid then f s else s) (db_sources db)\<rparr>"

text \<open>
  \<open>events.emit\<close>: a best-effort insert in a session of its own. An event of a run that
  does not exist violates the foreign key and the failure is swallowed.
\<close>

definition emit_event ::
  "string \<Rightarrow> string \<Rightarrow> string \<Rightarrow> json dict option \<Rightarrow> int option \<Rightarrow> control_db \<Rightarrow> control_db"
where
  "emit_event run_id step level detail elapsed db =
     (if list_ex (\<lambda>r. tr_id r = run_id) (db_runs db)
      then let (created, db1) = utcnow db
           in db1\<lparr>db_events := db_events db1 @
                [\<lparr>te_run_id = run_id, te_step = step, te_level = level, te_created_at = created,
                  te_detail = detail, te_elapsed_ms = elapsed\<rparr>]\<rparr>
      else db)"

section \<open>Frame facts\<close>

lemma utcnow_frame [frame_simps]:
  "db_sources (snd (utcnow db)) = db_sources db"
  "db_schedules (snd (utcnow db)) = db_schedules db"
  "db_measurements (snd (utcnow db)) = db_measurements db"
  "db_tasks (snd (utcnow db)) = db_tasks db"
  "db_runs (snd (utcnow db)) = db_runs db"
  "db_events (snd (utcnow db)) = db_events db"
  "db_ledger (snd (utcnow db)) = db_ledger db"
  "db_clock (snd (utcnow db)) = db_clock db"
  by (simp_all add: utcnow_def)

lemma add_action_frame [frame_simps]:
  "db_sources (snd (add_action row db)) = db_sources db"
  "db_schedules (snd (add_action row db)) = db_schedules db"
  "db_measurements (snd (add_action row db)) = db_measurements db"
  "db_tasks (snd (add_action row db)) = db_tasks db"
  "db_runs (snd (add_action row db)) = db_runs db"
  "db_events (snd (add_action row db)) = db_events db"
  "db_clock (snd (add_action row db)) = db_clock db"
  by (simp_all add: add_action_def utcnow_def fresh_id_def Let_def)

lemma add_action_ledger [frame_simps]:
  "db_ledger (snd (add_action row db)) = db_ledger db @ [fst (add_action row db)]"
  by (simp add: add_action_def utcnow_def fresh_id_def Let_def)

lemma add_action_row:
  "\<exists>rid n. fst (add_action row db) =
     row\<lparr>ca_id := rid, ca_created_at := Aware (db_clock db n)\<rparr>"
  by (auto simp: add_action_def utcnow_def fresh_id_def Let_def)

lemma add_action_fields [simp]:
  "ca_source_id (fst (add_action row db)) = ca_source_id row"
  "ca_state (fst (add_action row db)) = ca_state row"
  "ca_action_type (fst (add_action row db)) = ca_action_type row"
  "ca_executed (fst (add_action row db)) = ca_executed row"
  "ca_evaluated_at (fst (add_action row db)) = ca_evaluated_at row"
  "ca_outcome (fst (add_action row db)) = ca_outcome row"
  "ca_mode (fst (add_action row db)) = ca_mode row"
  by (auto simp: add_action_def utcnow_def fresh_id_def Let_def)

lemma update_source_frame [frame_simps]:
  "db_schedules (update_source sid f db) = db_schedules db"
  "db_measurements (update_source sid f db) = db_measurements db"
  "db_tasks (update_source sid f db) = db_tasks db"
  "db_runs (update_source sid f db) = db_runs db"
  "db_events (update_source sid f db) = db_events db"
  "db_ledger (update_source sid f db) = db_ledger db"
  "db_clock (update_source sid f db) = db_clock db"
  by (simp_all add: update_source_def)

lemma emit_event_frame [frame_simps]:
  "db_sources (emit_event r st l d e db) = db_sources db"
  "db_schedules (emit_event r st l d e db) = db_schedules db"
  "db_measurements (emit_event r st l d e db) = db_measurements db"
  "db_tasks (emit_event r st l d e db) = db_tasks db"
  "db_runs (emit_event r st l d e db) = db_runs db"
  "db_ledger (emit_event r st l d e db) = db_ledger db"
  "db_clock (emit_event r st l d e db) = db_clock db"
  by (simp_all add: emit_event_def utcnow_def Let_def)

lemma get_source_update_other:
  "(\<And>s. ds_id (f s) = ds_id s) \<Longrightarrow> sid' \<noteq> sid \<Longrightarrow>
    get_source (update_source sid f db) sid' = get_source db sid'"
  by (simp add: get_source_def update_source_def find_map_update_other)

lemma get_source_update_same:
  "(\<And>s. ds_id (f s) = ds_id s) \<Longrightarrow>
    get_source (update_source sid f db) sid = map_option f (get_source db sid)"
  by (simp add: get_source_def update_source_def find_map_update_same)

lemma get_source_id: "get_source db sid = Some s \<Longrightarrow> ds_id s = sid \<and> s \<in> set (db_sources db)"
  by (auto simp: get_source_def find_Some_iff)

end
