(* ===== verification/Aggregation.thy ===== *)
theory Aggregation
  imports ControlState
begin

text \<open>
  Reading the sensors (\<open>backend/control/aggregation.py\<close>): the latest persisted row, or
  the latest run with its events when a source has no row yet, mapped onto the measurement
  contract; and the rolling trend over either kind of evidence.
\<close>

definition TREND_PROVENANCE_MEASUREMENTS :: string where
  "TREND_PROVENANCE_MEASUREMENTS = ''measurements''"

definition TREND_PROVENANCE_RUN_HISTORY :: string where
  "TREND_PROVENANCE_RUN_HISTORY = ''run_history''"

record source_trend =
  st_window :: int
  st_zero_accepted_streak :: int
  st_avg_error_rate :: rat
  st_rate_limited_runs :: int
  st_provenance :: string

definition row_to_measurement :: "measurement_row \<Rightarrow> source_measurement" where
  "row_to_measurement row =
     derive (mr_source_id row) (mr_run_id row) (mr_accepted row) (mr_duplicates row)
       (mr_rejected row) (or_default (mr_fetch_latency_ms row) 0) (mr_measured_at row)
       (mr_cursor_advanced row) (mr_ingest_latency_ms row) (mr_store_latency_ms row)
       (mr_freshness_lag_seconds row) None None 0 (mr_error_kinds row)
       (Some (mr_source_ts_quality row))"

definition latest_measurement_row :: "control_db \<Rightarrow> string \<Rightarrow> measurement_row option" where
  "latest_measurement_row db source_id =
     first_row (order_desc mr_measured_at
       (filter (\<lambda>r. mr_source_id r = source_id) (db_measurements db)))"

type_synonym window_entry = "int \<times> rat \<times> int dict"

fun zero_streak :: "window_entry list \<Rightarrow> int" where
  "zero_streak [] = 0"
| "zero_streak ((accepted, er, kinds) # es) = (if accepted = 0 then 1 + zero_streak es else 0)"

definition summarize_window :: "window_entry list \<Rightarrow> string \<Rightarrow> source_trend option" where
  "summarize_window entries provenance =
     (if entries = [] then None
      else Some
        \<lparr>st_window = int (length entries), st_zero_accepted_streak = zero_streak entries,
         st_avg_error_rate =
           sum_list (map (\<lambda>(a, er, k). er) entries) / rat_of_int (int (length entries)),
         st_rate_limited_runs =
           sum_list (map (\<lambda>(a, er, k). if dict_get_or k ''rate_limited'' 0 > 0 then 1 else 0) entries),
         st_provenance = provenance\<rparr>)"

definition trend_from_rows :: "measurement_row list \<Rightarrow> source_trend option" where
  "trend_from_rows rows =
     summarize_window (map (\<lambda>r. (mr_accepted r, mr_error_rate r, mr_error_kinds r)) rows)
       TREND_PROVENANCE_MEASUREMENTS"

definition build_trend :: "control_db \<Rightarrow> string \<Rightarrow> nat \<Rightarrow> source_trend option" where
  "build_trend db source_id window =
     trend_from_rows (take window (order_desc mr_measured_at
       (filter (\<lambda>r. mr_source_id r = source_id) (db_measurements db))))"

definition recent_runs :: "control_db \<Rightarrow> string \<Rightarrow> nat \<Rightarrow> task_run list" where
  "recent_runs db source_id limit =
     take limit (order_desc tr_created_at
       (filter (\<lambda>r. list_ex (\<lambda>t. ct_id t = tr_task_id r \<and> ct_source_id t = source_id) (db_tasks db))
         (db_runs db)))"

definition collect_elapsed_ms :: "control_db \<Rightarrow> string \<Rightarrow> int option" where
  "collect_elapsed_ms db run_id =
     (case first_row (order_desc te_created_at
        (filter (\<lambda>e. te_run_id e = run_id \<and> te_step e = ''collect'' \<and> te_elapsed_ms e \<noteq> None)
          (db_events db))) of
        None \<Rightarrow> None | Some e \<Rightarrow> te_elapsed_ms e)"

definition complete_detail :: "control_db \<Rightarrow> string \<Rightarrow> json dict" where
  "complete_detail db run_id =
     (case first_row (order_desc te_created_at
        (filter (\<lambda>e. te_run_id e = run_id \<and> te_step e = ''complete'') (db_events db))) of
        None \<Rightarrow> [] | Some e \<Rightarrow> or_default (te_detail e) [])"

text \<open>
  \<open>int(detail.get(k, 0) or 0)\<close>. The pipeline writes integers under these keys; a missing
  or null value counts as zero, and other JSON values do not occur.
\<close>

definition detail_count :: "json dict \<Rightarrow> string \<Rightarrow> int" where
  "detail_count detail k = (case dict_get detail k of Some (JInt n) \<Rightarrow> n | _ \<Rightarrow> 0)"

definition measurement_from_run :: "control_db \<Rightarrow> string \<Rightarrow> task_run \<Rightarrow> source_measurement" where
  "measurement_from_run db source_id run =
     (let detail = complete_detail db (tr_id run);
          (collected, stored, skipped) =
            (if detail \<noteq> []
             then (detail_count detail ''collected'', detail_count detail ''stored'',
                   detail_count detail ''skipped'')
             else (tr_records_collected run, tr_records_collected run, 0));
          rejected = max 0 (collected - stored - skipped);
          fetch_latency_ms =
            (case collect_elapsed_ms db (tr_id run) of
               Some ms \<Rightarrow> ms | None \<Rightarrow> or_default (tr_duration_ms run) 0);
          observed_at = or_default (tr_finished_at run) (tr_created_at run)
      in derive source_id (tr_id run) stored skipped rejected fetch_latency_ms observed_at
           False None None None None None 0 [] None)"

definition build_measurement_from_task_events ::
  "control_db \<Rightarrow> string \<Rightarrow> source_measurement option"
where
  "build_measurement_from_task_events db source_id =
     (case recent_runs db source_id 1 of
        [] \<Rightarrow> None
      | run # _ \<Rightarrow> Some (measurement_from_run db source_id run))"

definition build_measurement :: "control_db \<Rightarrow> string \<Rightarrow> source_measurement option" where
  "build_measurement db source_id =
     (case latest_measurement_row db source_id of
        Some row \<Rightarrow> Some (row_to_measurement row)
      | None \<Rightarrow> build_measurement_from_task_events db source_id)"

definition build_trend_from_run_history ::
  "control_db \<Rightarrow> string \<Rightarrow> nat \<Rightarrow> source_trend option"
where
  "build_trend_from_run_history db source_id window =
     summarize_window
       (map (\<lambda>run. let m = measurement_from_run db source_id run
                    in (sm_accepted m, sm_error_rate m, sm_error_kinds m))
         (recent_runs db source_id window))
       TREND_PROVENANCE_RUN_HISTORY"

definition build_trend_with_fallback ::
  "control_db \<Rightarrow> string \<Rightarrow> nat \<Rightarrow> source_trend option"
where
  "build_trend_with_fallback db source_id window =
     (case build_trend db source_id window of
        Some t \<Rightarrow> Some t
      | None \<Rightarrow> build_trend_from_run_history db source_id window)"

section \<open>Facts\<close>

text \<open>The evidence a reading depends on: everything except the ledger and the clock.\<close>

definition same_evidence :: "control_db \<Rightarrow> control_db \<Rightarrow> bool" where
  "same_evidence db db' \<longleftrightarrow>
     db_measurements db = db_measurements db' \<and> db_tasks db = db_tasks db' \<and>
     db_runs db = db_runs db' \<and> db_events db = db_events db'"

lemma no_odp_row [simp]:
  "sm_odp_stream_lag (row_to_measurement row) = None"
  "sm_odp_pending (row_to_measurement row) = None"
  by (simp_all add: row_to_measurement_def)

lemma no_odp_run [simp]:
  "sm_odp_stream_lag (measurement_from_run db s run) = None"
  "sm_odp_pending (measurement_from_run db s run) = None"
  by (simp_all add: measurement_from_run_def Let_def case_prod_unfold)

lemma build_measurement_no_odp:
  assumes "build_measurement db s = Some m"
  shows "sm_odp_stream_lag m = None \<and> sm_odp_pending m = None"
  using assms
  by (auto simp: build_measurement_def build_measurement_from_task_events_def
      split: option.splits list.splits)

lemma source_id_row [simp]: "sm_source_id (row_to_measurement row) = mr_source_id row"
  by (simp add: row_to_measurement_def)

lemma source_id_run [simp]: "sm_source_id (measurement_from_run db s run) = s"
  by (simp add: measurement_from_run_def Let_def case_prod_unfold)

lemma latest_measurement_row_source: "latest_measurement_row db s = Some r \<Longrightarrow> mr_source_id r = s"
  by (auto simp: latest_measurement_row_def dest!: first_row_Some_in)

lemma build_measurement_source: "build_measurement db s = Some m \<Longrightarrow> sm_source_id m = s"
  by (auto simp: build_measurement_def build_measurement_from_task_events_def
      split: option.splits list.splits dest: latest_measurement_row_source)

lemma zero_streak_takeWhile: "zero_streak es = int (length (takeWhile (\<lambda>(a, _, _). a = 0) es))"
  by (induction es rule: zero_streak.induct) auto

lemma summarize_window_bounds:
  assumes "summarize_window es p = Some t"
  shows "st_window t = int (length es) \<and> 0 < st_window t \<and>
    0 \<le> st_zero_accepted_streak t \<and> st_zero_accepted_streak t \<le> st_window t \<and>
    0 \<le> st_rate_limited_runs t \<and> st_rate_limited_runs t \<le> st_window t"
proof -
  let ?limited = "\<lambda>e :: window_entry. dict_get_or (snd (snd e)) ''rate_limited'' 0 > 0"
  have t: "es \<noteq> []" "st_window t = int (length es)" "st_zero_accepted_streak t = zero_streak es"
    "st_rate_limited_runs t = sum_list (map (\<lambda>e. if ?limited e then 1 else 0) es)"
    using assms by (auto simp: summarize_window_def case_prod_unfold split: if_splits)
  have "st_rate_limited_runs t = int (length (filter ?limited es))"
    unfolding t(4) by (rule sum_list_filter_indicator)
  then have "0 \<le> st_rate_limited_runs t \<and> st_rate_limited_runs t \<le> int (length es)" by simp
  with t(1-3) show ?thesis
    by (simp add: zero_streak_takeWhile takeWhile_length_le)
qed

text \<open>
  A trend summarizes at most its window: the streak of newest readings that accepted nothing and
  the number of rate-limited readings both lie within the number of readings summarized, which
  is positive and at most the window asked for.
\<close>

lemma trend_bounds:
  assumes "build_trend db s n = Some t"
  shows "0 < st_window t \<and> st_window t \<le> int n \<and>
    0 \<le> st_zero_accepted_streak t \<and> st_zero_accepted_streak t \<le> st_window t \<and>
    0 \<le> st_rate_limited_runs t \<and> st_rate_limited_runs t \<le> st_window t"
  using summarize_window_bounds[OF assms[unfolded build_trend_def trend_from_rows_def]] by auto

theorem trend_bounds_witness:
  "\<exists>db t. build_trend db ''s'' 5 = Some t \<and> st_zero_accepted_streak t \<le> st_window t"
proof -
  let ?row = "fst (record_run_measurement 0 ''s'' ''r'' 0 0 0 0 None None False
    (Some ''RateLimited'') None None None (Aware 0) [])"
  let ?db = "empty_db\<lparr>db_measurements := [?row]\<rparr>"
  have "mr_source_id ?row = ''s''" by (simp add: record_run_measurement_def Let_def)
  then obtain t where "build_trend ?db ''s'' 5 = Some t"
    by (simp add: build_trend_def trend_from_rows_def summarize_window_def order_desc_def)
  with trend_bounds[OF this] show ?thesis by blast
qed

text \<open>
  Rates derived from non-negative counts are proper fractions: both lie between zero and one and
  together they never exceed one; an empty run has both rates zero.
\<close>

lemma derive_rates_bounded:
  assumes "0 \<le> a" and "0 \<le> d" and "0 \<le> j"
  shows "(let m = derive s r a d j fl ob ca il sl fr ol op dq ek q
          in 0 \<le> sm_error_rate m \<and> 0 \<le> sm_duplicate_rate m \<and>
             sm_error_rate m + sm_duplicate_rate m \<le> 1 \<and>
             (sm_error_rate m = 0) = (j = 0))"
proof (cases "a + d + j > 0")
  case True
  then have "rat_of_int j / of_int (a + d + j) + rat_of_int d / of_int (a + d + j) \<le> 1"
    using assms by (simp add: add_divide_distrib[symmetric] divide_le_eq)
  with True assms show ?thesis
    by (simp add: Let_def derive_rates divide_nonneg_pos)
next
  case False
  with assms show ?thesis by (simp add: Let_def derive_rates)
qed

theorem derive_rates_bounded_witness:
  "sm_error_rate (derive ''s'' ''r'' 1 1 2 0 (Aware 0) False None None None None None 0 [] None) +
   sm_duplicate_rate (derive ''s'' ''r'' 1 1 2 0 (Aware 0) False None None None None None 0 [] None) \<le> 1"
  using derive_rates_bounded[of 1 1 2 "''s''" "''r''" 0 "Aware 0" False None None None None None 0 "[]" None]
  by (simp add: Let_def)

end
