(* ===== verification/Ledger.thy ===== *)
theory Ledger
  imports ControlState
begin

text \<open>
  The evidence ledger: recording suggestions with deduplication and recording executions
  (\<open>backend/control/ledger.py\<close>), and the tally the advisory report and the gate share
  (\<open>backend/control/report.py\<close>). The ledger is append-only for its clients; that contract
  is the locale \<open>append_log\<close>.
\<close>

section \<open>Append-only logs\<close>

locale append_log =
  fixes rows :: "'s \<Rightarrow> 'r list"
    and append :: "'q \<Rightarrow> 's \<Rightarrow> 's"
    and stored :: "'q \<Rightarrow> 's \<Rightarrow> 'r"
  assumes rows_append: "rows (append q s) = rows s @ [stored q s]"
begin

lemma prefix_append: "prefix (rows s) (rows (append q s))"
  by (simp add: rows_append)

lemma prefix_fold: "prefix (rows s) (rows (fold append qs s))"
proof (induction qs arbitrary: s)
  case Nil
  show ?case by simp
next
  case (Cons q qs)
  show ?case
    using prefix_order.trans[OF prefix_append[of s q] Cons.IH[of "append q s"]] by simp
qed

lemma length_fold: "length (rows (fold append qs s)) = length (rows s) + length qs"
  by (induction qs arbitrary: s) (simp_all add: rows_append)

lemma count_append:
  "length (filter P (rows (append q s))) =
    length (filter P (rows s)) + (if P (stored q s) then 1 else 0)"
  by (simp add: rows_append)

lemma old_rows_stay: "r \<in> set (rows s) \<Longrightarrow> r \<in> set (rows (fold append qs s))"
  using prefix_fold[of s qs] set_mono_prefix by blast

end

interpretation ledger_log: append_log db_ledger "\<lambda>row db. snd (add_action row db)"
    "\<lambda>row db. fst (add_action row db)"
  by unfold_locales (rule add_action_ledger)

section \<open>Recording\<close>

fun ensure_utc :: "datetime \<Rightarrow> datetime" where
  "ensure_utc (Naive t) = Aware t"
| "ensure_utc (Aware t) = Aware t"

lemma instant_ensure_utc [simp]: "instant (ensure_utc d) = instant d"
  by (cases d) auto

definition latest_action :: "control_db \<Rightarrow> string \<Rightarrow> string \<Rightarrow> control_action_record option" where
  "latest_action db source_id action_type =
     first_row (order_desc ca_created_at
       (filter (\<lambda>r. ca_source_id r = source_id \<and> ca_action_type r = action_type) (db_ledger db)))"

definition advisory_row ::
  "string \<Rightarrow> source_control_state \<Rightarrow> control_action \<Rightarrow> source_measurement \<Rightarrow> row_id option \<Rightarrow>
   string option \<Rightarrow> string \<Rightarrow> control_action_record"
where
  "advisory_row source_id state action m measurement_row_id run_id mode =
     \<lparr>ca_id = 0, ca_created_at = Aware 0, ca_source_id = source_id, ca_run_id = run_id,
      ca_measurement_id = measurement_row_id, ca_mode = mode, ca_state = state_value state,
      ca_action_type = act_type action, ca_reason = act_reason action,
      ca_payload = act_payload action, ca_executed = False, ca_measurement_before = m,
      ca_evaluated_at = None, ca_outcome = None, ca_outcome_detail = None\<rparr>"

definition is_duplicate ::
  "control_db \<Rightarrow> string \<Rightarrow> source_control_state \<Rightarrow> control_action \<Rightarrow> datetime \<Rightarrow> int \<Rightarrow> bool"
where
  "is_duplicate db source_id state action now dedup_seconds =
     (case latest_action db source_id (act_type action) of
        None \<Rightarrow> False
      | Some latest \<Rightarrow>
          ca_state latest = state_value state \<and>
          total_seconds now (ensure_utc (ca_created_at latest)) < of_int dedup_seconds)"

fun record_advisory_loop ::
  "string \<Rightarrow> source_control_state \<Rightarrow> source_measurement \<Rightarrow> row_id option \<Rightarrow> string option \<Rightarrow>
   string \<Rightarrow> int \<Rightarrow> datetime \<Rightarrow> control_action list \<Rightarrow> nat \<Rightarrow> control_db \<Rightarrow> nat \<times> control_db"
where
  "record_advisory_loop source_id state m mid run_id mode dedup now [] written db = (written, db)"
| "record_advisory_loop source_id state m mid run_id mode dedup now (action # actions) written db =
     (if is_duplicate db source_id state action now dedup
      then record_advisory_loop source_id state m mid run_id mode dedup now actions written db
      else record_advisory_loop source_id state m mid run_id mode dedup now actions (Suc written)
             (snd (add_action (advisory_row source_id state action m mid run_id mode) db)))"

definition record_advisory_actions ::
  "string \<Rightarrow> source_control_state \<Rightarrow> control_action list \<Rightarrow> source_measurement \<Rightarrow> row_id option \<Rightarrow>
   string option \<Rightarrow> string \<Rightarrow> int \<Rightarrow> control_db \<Rightarrow> nat \<times> control_db"
where
  "record_advisory_actions source_id state actions m mid run_id mode dedup_seconds db =
     (let (now, db1) = utcnow db
      in record_advisory_loop source_id state m mid run_id mode dedup_seconds now actions 0 db1)"

definition record_executed_action ::
  "string \<Rightarrow> source_control_state \<Rightarrow> string \<Rightarrow> action_reason \<Rightarrow> json dict \<Rightarrow> source_measurement \<Rightarrow>
   row_id option \<Rightarrow> string option \<Rightarrow> control_db \<Rightarrow> control_action_record \<times> control_db"
where
  "record_executed_action source_id state action_type reason payload m mid run_id db =
     add_action
       \<lparr>ca_id = 0, ca_created_at = Aware 0, ca_source_id = source_id, ca_run_id = run_id,
        ca_measurement_id = mid, ca_mode = ''automatic'', ca_state = state_value state,
        ca_action_type = action_type, ca_reason = reason, ca_payload = payload,
        ca_executed = True, ca_measurement_before = m, ca_evaluated_at = None,
        ca_outcome = None, ca_outcome_detail = None\<rparr> db"

section \<open>The report\<close>

record totals =
  tot_total :: int
  tot_pending :: int
  tot_evaluated :: int
  tot_recovered :: int
  tot_persisted :: int
  tot_insufficient_data :: int
  tot_recovery_rate :: "rat option"

definition count_rows :: "('a \<Rightarrow> bool) \<Rightarrow> 'a list \<Rightarrow> int" where
  "count_rows P rows = sum_list (map (\<lambda>r. if P r then 1 else 0) rows)"

definition tally :: "control_action_record list \<Rightarrow> totals" where
  "tally rows =
     (let recovered = count_rows (\<lambda>r. ca_outcome r = Some ''recovered'') rows;
          persisted = count_rows (\<lambda>r. ca_outcome r = Some ''persisted'') rows;
          insufficient = count_rows (\<lambda>r. ca_outcome r = Some ''insufficient_data'') rows;
          evaluated = count_rows (\<lambda>r. ca_evaluated_at r \<noteq> None) rows;
          denominator = recovered + persisted
      in \<lparr>tot_total = int (length rows), tot_pending = int (length rows) - evaluated,
          tot_evaluated = evaluated, tot_recovered = recovered, tot_persisted = persisted,
          tot_insufficient_data = insufficient,
          tot_recovery_rate =
            (if denominator \<noteq> 0 then Some (rat_of_int recovered / rat_of_int denominator)
             else None)\<rparr>)"

fun bucket_by_state_action_from ::
  "((string \<times> string) \<times> control_action_record list) list \<Rightarrow> control_action_record list \<Rightarrow>
   ((string \<times> string) \<times> control_action_record list) list"
where
  "bucket_by_state_action_from buckets [] = buckets"
| "bucket_by_state_action_from buckets (row # rows) =
     (let key = (ca_state row, ca_action_type row);
          old = (case map_of buckets key of None \<Rightarrow> [] | Some rs \<Rightarrow> rs)
      in bucket_by_state_action_from (dict_set buckets key (old @ [row])) rows)"

definition bucket_by_state_action ::
  "control_action_record list \<Rightarrow> ((string \<times> string) \<times> control_action_record list) list"
where
  "bucket_by_state_action rows = bucket_by_state_action_from [] rows"

fun mode_breakdown_from :: "int dict \<Rightarrow> control_action_record list \<Rightarrow> int dict" where
  "mode_breakdown_from modes [] = modes"
| "mode_breakdown_from modes (row # rows) =
     mode_breakdown_from (dict_set modes (ca_mode row) (dict_get_or modes (ca_mode row) 0 + 1)) rows"

definition mode_breakdown :: "control_action_record list \<Rightarrow> int dict" where
  "mode_breakdown rows = mode_breakdown_from [] rows"

section \<open>Facts about recording\<close>

lemma count_rows_length [simp]: "count_rows P rows = int (length (filter P rows))"
  by (simp add: count_rows_def sum_list_filter_indicator)

lemma record_advisory_loop_frame [frame_simps]:
  "db_sources (snd (record_advisory_loop s st m mid r md dd now as w db)) = db_sources db"
  "db_schedules (snd (record_advisory_loop s st m mid r md dd now as w db)) = db_schedules db"
  "db_measurements (snd (record_advisory_loop s st m mid r md dd now as w db)) = db_measurements db"
  "db_tasks (snd (record_advisory_loop s st m mid r md dd now as w db)) = db_tasks db"
  "db_runs (snd (record_advisory_loop s st m mid r md dd now as w db)) = db_runs db"
  "db_events (snd (record_advisory_loop s st m mid r md dd now as w db)) = db_events db"
  "db_clock (snd (record_advisory_loop s st m mid r md dd now as w db)) = db_clock db"
  by (induction s st m mid r md dd now as w db rule: record_advisory_loop.induct)
    (simp_all add: frame_simps)

lemma record_advisory_frame [frame_simps]:
  "db_sources (snd (record_advisory_actions s st as m mid r md dd db)) = db_sources db"
  "db_schedules (snd (record_advisory_actions s st as m mid r md dd db)) = db_schedules db"
  "db_measurements (snd (record_advisory_actions s st as m mid r md dd db)) = db_measurements db"
  "db_tasks (snd (record_advisory_actions s st as m mid r md dd db)) = db_tasks db"
  "db_runs (snd (record_advisory_actions s st as m mid r md dd db)) = db_runs db"
  "db_events (snd (record_advisory_actions s st as m mid r md dd db)) = db_events db"
  "db_clock (snd (record_advisory_actions s st as m mid r md dd db)) = db_clock db"
  by (simp_all add: record_advisory_actions_def utcnow_def frame_simps)

lemma record_executed_frame [frame_simps]:
  "db_sources (snd (record_executed_action s st a rs p m mid r db)) = db_sources db"
  "db_schedules (snd (record_executed_action s st a rs p m mid r db)) = db_schedules db"
  "db_measurements (snd (record_executed_action s st a rs p m mid r db)) = db_measurements db"
  "db_tasks (snd (record_executed_action s st a rs p m mid r db)) = db_tasks db"
  "db_runs (snd (record_executed_action s st a rs p m mid r db)) = db_runs db"
  "db_events (snd (record_executed_action s st a rs p m mid r db)) = db_events db"
  "db_clock (snd (record_executed_action s st a rs p m mid r db)) = db_clock db"
  "db_ledger (snd (record_executed_action s st a rs p m mid r db)) =
     db_ledger db @ [fst (record_executed_action s st a rs p m mid r db)]"
  by (simp_all add: record_executed_action_def frame_simps)

lemma record_executed_fields [simp]:
  "ca_source_id (fst (record_executed_action s st a rs p m mid r db)) = s"
  "ca_state (fst (record_executed_action s st a rs p m mid r db)) = state_value st"
  "ca_action_type (fst (record_executed_action s st a rs p m mid r db)) = a"
  "ca_executed (fst (record_executed_action s st a rs p m mid r db))"
  "ca_evaluated_at (fst (record_executed_action s st a rs p m mid r db)) = None"
  "ca_outcome (fst (record_executed_action s st a rs p m mid r db)) = None"
  by (simp_all add: record_executed_action_def)

text \<open>
  Every row the advisory recorder adds is a pending, unexecuted suggestion of one of the
  given actions; the rows that were there stay, in place.
\<close>

definition suggestion_of ::
  "string \<Rightarrow> source_control_state \<Rightarrow> control_action list \<Rightarrow> control_action_record \<Rightarrow> bool"
where
  "suggestion_of source_id state actions r \<longleftrightarrow>
     ca_source_id r = source_id \<and> ca_state r = state_value state \<and>
     ca_action_type r \<in> act_type ` set actions \<and> \<not> ca_executed r \<and>
     ca_evaluated_at r = None \<and> ca_outcome r = None"

lemma record_advisory_loop_appends:
  "\<exists>new. db_ledger (snd (record_advisory_loop s st m mid r md dd now as w db)) = db_ledger db @ new \<and>
     list_all (suggestion_of s st as) new \<and>
     fst (record_advisory_loop s st m mid r md dd now as w db) = w + length new"
proof (induction s st m mid r md dd now as w db rule: record_advisory_loop.induct)
  case (1 s st m mid r md dd now w db)
  show ?case by simp
next
  case (2 s st m mid r md dd now a as w db)
  show ?case
  proof (cases "is_duplicate db s st a now dd")
    case True
    from "2.IH"(1)[OF True] obtain new where new:
      "db_ledger (snd (record_advisory_loop s st m mid r md dd now as w db)) = db_ledger db @ new"
      "list_all (suggestion_of s st as) new"
      "fst (record_advisory_loop s st m mid r md dd now as w db) = w + length new" by auto
    then show ?thesis using True
      by (intro exI[of _ new]) (auto simp: list_all_iff suggestion_of_def)
  next
    case False
    let ?row = "advisory_row s st a m mid r md"
    let ?db = "snd (add_action ?row db)"
    from "2.IH"(2)[OF False] obtain new where new:
      "db_ledger (snd (record_advisory_loop s st m mid r md dd now as (Suc w) ?db)) =
         db_ledger ?db @ new"
      "list_all (suggestion_of s st as) new"
      "fst (record_advisory_loop s st m mid r md dd now as (Suc w) ?db) = Suc w + length new"
      by auto
    then show ?thesis using False
      by (intro exI[of _ "fst (add_action ?row db) # new"])
        (auto simp: list_all_iff suggestion_of_def add_action_ledger advisory_row_def)
  qed
qed

lemma record_advisory_appends:
  "\<exists>new. db_ledger (snd (record_advisory_actions s st as m mid r md dd db)) = db_ledger db @ new \<and>
     list_all (suggestion_of s st as) new \<and>
     fst (record_advisory_actions s st as m mid r md dd db) = length new"
  using record_advisory_loop_appends[of s st m mid r md dd "fst (utcnow db)" as 0 "snd (utcnow db)"]
  by (simp add: record_advisory_actions_def case_prod_unfold Let_def frame_simps)

text \<open>Buckets of the report are the ledger filtered by their key.\<close>

lemma map_of_bucket_from:
  "map_of (bucket_by_state_action_from buckets rows) key =
     (let old = map_of buckets key;
          hit = filter (\<lambda>r. (ca_state r, ca_action_type r) = key) rows
      in if hit = [] then old
         else Some ((case old of None \<Rightarrow> [] | Some rs \<Rightarrow> rs) @ hit))"
  by (induction buckets rows rule: bucket_by_state_action_from.induct)
    (auto simp: Let_def split: option.splits)

section \<open>Well-formed ledgers\<close>

text \<open>
  A row is judged exactly when it carries one of the three verdicts, primary keys are
  distinct and older than the next fresh one, and no row comes from the future of the clock.
\<close>

definition VERDICTS :: "string list" where
  "VERDICTS = [''recovered'', ''persisted'', ''insufficient_data'']"

definition row_judged_ok :: "control_action_record \<Rightarrow> bool" where
  "row_judged_ok r \<longleftrightarrow>
     (case ca_outcome r of
        None \<Rightarrow> ca_evaluated_at r = None
      | Some v \<Rightarrow> ca_evaluated_at r \<noteq> None \<and> List.member VERDICTS v)"

definition ledger_ok :: "control_db \<Rightarrow> bool" where
  "ledger_ok db \<longleftrightarrow>
     list_all row_judged_ok (db_ledger db) \<and> distinct (map ca_id (db_ledger db)) \<and>
     list_all (\<lambda>r. ca_id r < db_next_id db) (db_ledger db)"

lemma ledger_ok_utcnow: "ledger_ok (snd (utcnow db)) = ledger_ok db"
  by (simp add: ledger_ok_def utcnow_def)

lemma ledger_ok_add_action:
  assumes "ledger_ok db" and "row_judged_ok row"
  shows "ledger_ok (snd (add_action row db))"
proof -
  let ?row = "row\<lparr>ca_id := db_next_id db, ca_created_at := Aware (db_clock db (db_reads db))\<rparr>"
  have l: "db_ledger (snd (add_action row db)) = db_ledger db @ [?row]"
    and n: "db_next_id (snd (add_action row db)) = Suc (db_next_id db)"
    by (simp_all add: add_action_def utcnow_def fresh_id_def Let_def)
  from assms show ?thesis
    by (force simp: ledger_ok_def l n row_judged_ok_def list_all_iff split: option.splits)
qed

lemma row_judged_ok_advisory [simp]: "row_judged_ok (advisory_row s st a m mid r md)"
  by (simp add: row_judged_ok_def advisory_row_def)

lemma ledger_ok_record_executed:
  "ledger_ok db \<Longrightarrow> ledger_ok (snd (record_executed_action s st a rs p m mid r db))"
  unfolding record_executed_action_def by (rule ledger_ok_add_action) (simp_all add: row_judged_ok_def)

lemma ledger_ok_record_loop:
  "ledger_ok db \<Longrightarrow> ledger_ok (snd (record_advisory_loop s st m mid r md dd now as w db))"
  by (induction s st m mid r md dd now as w db rule: record_advisory_loop.induct)
    (simp_all add: ledger_ok_add_action)

lemma ledger_ok_record_advisory:
  "ledger_ok db \<Longrightarrow> ledger_ok (snd (record_advisory_actions s st as m mid r md dd db))"
  by (simp add: record_advisory_actions_def case_prod_unfold Let_def ledger_ok_record_loop
      ledger_ok_utcnow)

section \<open>Deduplication\<close>

lemma latest_action_add_other:
  "ca_action_type row \<noteq> ty \<Longrightarrow> latest_action (snd (add_action row db)) s ty = latest_action db s ty"
  by (simp add: latest_action_def add_action_ledger)

lemma is_duplicate_add_other:
  "act_type a \<noteq> ca_action_type row \<Longrightarrow>
    is_duplicate (snd (add_action row db)) s st a now dd = is_duplicate db s st a now dd"
  by (simp add: is_duplicate_def latest_action_add_other)

lemma record_advisory_loop_exact:
  "distinct (map act_type as) \<Longrightarrow>
    fst (record_advisory_loop s st m mid r md dd now as w db) =
      w + length (filter (\<lambda>a. \<not> is_duplicate db s st a now dd) as) \<and>
    map ca_action_type (db_ledger (snd (record_advisory_loop s st m mid r md dd now as w db))) =
      map ca_action_type (db_ledger db) @
      map act_type (filter (\<lambda>a. \<not> is_duplicate db s st a now dd) as)"
proof (induction s st m mid r md dd now as w db rule: record_advisory_loop.induct)
  case (1 s st m mid r md dd now w db)
  show ?case by simp
next
  case (2 s st m mid r md dd now a as w db)
  show ?case
  proof (cases "is_duplicate db s st a now dd")
    case True
    with "2.IH"(1) "2.prems" show ?thesis by simp
  next
    case False
    let ?row = "advisory_row s st a m mid r md"
    have same: "filter (\<lambda>b. \<not> is_duplicate (snd (add_action ?row db)) s st b now dd) as =
        filter (\<lambda>b. \<not> is_duplicate db s st b now dd) as"
    proof (rule filter_cong[OF refl])
      fix b assume "b \<in> set as"
      then have "act_type b \<in> act_type ` set as" by (rule imageI)
      then have "act_type b \<noteq> ca_action_type ?row"
        using "2.prems" by (auto simp: advisory_row_def)
      then show "(\<not> is_duplicate (snd (add_action ?row db)) s st b now dd) =
          (\<not> is_duplicate db s st b now dd)" by (simp add: is_duplicate_add_other)
    qed
    from "2.IH"(2)[OF False] "2.prems" False same show ?thesis
      by (simp add: add_action_ledger) (simp add: advisory_row_def)
  qed
qed

text \<open>
  The advisory recorder writes exactly one row per suggested action that is not a duplicate
  (latest row for the same source and action type in the same state and younger than the
  window), in the order of the suggestions, and reports how many it wrote.
\<close>

lemma record_advisory_exact:
  assumes "distinct (map act_type actions)"
  shows "(let fresh = filter (\<lambda>a. \<not> is_duplicate db s st a (fst (utcnow db)) dedup) actions;
              (written, db') = record_advisory_actions s st actions m mid r md dedup db
          in written = length fresh \<and>
             map ca_action_type (db_ledger db') =
               map ca_action_type (db_ledger db) @ map act_type fresh)"
proof -
  have dup: "is_duplicate (snd (utcnow db)) = is_duplicate db"
    by (intro ext) (simp add: is_duplicate_def latest_action_def frame_simps)
  show ?thesis
    using record_advisory_loop_exact[OF assms, of s st m mid r md dedup "fst (utcnow db)" 0
        "snd (utcnow db)"]
    by (simp add: record_advisory_actions_def case_prod_unfold Let_def frame_simps dup)
qed

lemma record_advisory_exact_witness:
  "map ca_action_type (db_ledger (snd (record_advisory_actions ''s'' DEAD
     [\<lparr>act_type = ''require_review'', act_source_id = ''s'', act_reason = Reason_dead_review,
       act_payload = []\<rparr>]
     (derive ''s'' ''r'' 0 0 0 0 (Aware 0) False None None None None None 0 [] None)
     None None ''advisory'' 600 empty_db))) = [''require_review'']"
proof -
  let ?a = "\<lparr>act_type = ''require_review'', act_source_id = ''s'',
    act_reason = Reason_dead_review, act_payload = []\<rparr>"
  have "\<not> is_duplicate empty_db ''s'' DEAD ?a now 600" for now
    by (simp add: is_duplicate_def latest_action_def order_desc_def first_row_def)
  moreover have "distinct (map act_type [?a])" by simp
  ultimately show ?thesis
    using record_advisory_exact[of "[?a]" empty_db "''s''" DEAD 600]
    by (simp add: case_prod_unfold Let_def)
qed

lemma insort_key_least:
  "(\<And>y. y \<in> set ys \<Longrightarrow> f x \<le> f y) \<Longrightarrow> insort_key f x ys = x # ys"
  by (cases ys) auto

lemma latest_action_add_same:
  assumes "\<And>r. r \<in> set (db_ledger db) \<Longrightarrow> instant (ca_created_at r) \<le> db_clock db (db_reads db)"
  shows "latest_action (snd (add_action row db)) (ca_source_id row) (ca_action_type row) =
    Some (fst (add_action row db))"
proof -
  let ?x = "fst (add_action row db)"
  let ?xs = "filter (\<lambda>r. ca_source_id r = ca_source_id row \<and> ca_action_type r = ca_action_type row)
    (db_ledger db)"
  have "instant (ca_created_at ?x) = db_clock db (db_reads db)"
    by (simp add: add_action_def utcnow_def fresh_id_def Let_def)
  then have "order_desc ca_created_at (?xs @ [?x]) = ?x # order_desc ca_created_at ?xs"
    unfolding order_desc_def using assms by (simp, intro insort_key_least) auto
  then show ?thesis
    by (simp add: latest_action_def add_action_ledger first_row_def)
qed

end
