(* ===== verification/Service.thy ===== *)
theory Service
  imports Aggregation Ledger
begin

text \<open>
  The one measure, evaluate, record path (\<open>backend/control/service.py\<close>) that the
  control-state endpoint and the control cycle share, with the builder of its system context
  (\<open>backend/control/system_context.py\<close>). The reading of the shared data plane comes from
  Redis, so it is an input: \<open>None\<close> when the collector fails. The prose of the emitted
  event (its message and the reasons) is left out; database failures are not modelled.
\<close>

section \<open>System context\<close>

record stream_state =
  ss_available :: bool
  ss_lag :: "int option"
  ss_pending :: "int option"

record system_context_read =
  scr_odp_backpressured :: bool
  scr_stream_lag :: "int option"
  scr_pending :: "int option"
  scr_available :: bool

definition build_system_context ::
  "stream_state option \<Rightarrow> source_objective \<Rightarrow> system_context_read"
where
  "build_system_context snapshot objective =
     (case snapshot of
        None \<Rightarrow>
          \<lparr>scr_odp_backpressured = False, scr_stream_lag = None, scr_pending = None,
           scr_available = False\<rparr>
      | Some stream \<Rightarrow>
          let stream_available = ss_available stream;
              pending = ss_pending stream;
              lag = ss_lag stream;
              odp_backpressured =
                (stream_available \<and>
                 (case pending of None \<Rightarrow> False | Some p \<Rightarrow> p > so_max_pending objective))
          in \<lparr>scr_odp_backpressured = odp_backpressured,
              scr_stream_lag = (if stream_available then lag else None),
              scr_pending = (if stream_available then pending else None),
              scr_available = stream_available\<rparr>)"

definition context_dict :: "system_context_read \<Rightarrow> system_context" where
  "context_dict c =
     \<lparr>ctx_odp_backpressured = Some (scr_odp_backpressured c), ctx_available = Some (scr_available c)\<rparr>"

section \<open>The decision\<close>

text \<open>The default of the \<open>window\<close> arguments of the aggregation module.\<close>

definition default_window :: nat where
  "default_window = 5"

record source_decision =
  sd_measurement :: "source_measurement option"
  sd_measurement_row_id :: "row_id option"
  sd_run_id :: "string option"
  sd_trend :: "source_trend option"
  sd_control_state :: "source_control_state option"
  sd_confidence :: "string option"
  sd_coverage :: "sensor_coverage option"
  sd_missing_signals :: "string list"
  sd_suggested_actions :: "control_action list"
  sd_ledger_rows_written :: nat

definition trend_argument :: "source_trend \<Rightarrow> trend" where
  "trend_argument t =
     \<lparr>trd_window = Some (st_window t), trd_zero_accepted_streak = Some (st_zero_accepted_streak t),
      trd_avg_error_rate = Some (st_avg_error_rate t),
      trd_rate_limited_runs = Some (st_rate_limited_runs t)\<rparr>"

definition advisory_detail ::
  "string \<Rightarrow> source_control_state \<Rightarrow> control_action list \<Rightarrow> string \<Rightarrow> json dict"
where
  "advisory_detail source_id state actions mode =
     [(''source_id'', JStr source_id), (''control_state'', JStr (state_value state)),
      (''suggested_actions'', JList (map (\<lambda>a. JObj [(''action_type'', JStr (act_type a)),
         (''payload'', JObj (act_payload a))]) actions)),
      (''control_mode'', JStr mode)]"

definition decide_for_source ::
  "string \<Rightarrow> source_objective \<Rightarrow> system_context \<Rightarrow> string \<Rightarrow> int \<Rightarrow> bool \<Rightarrow> control_db \<Rightarrow>
   source_decision \<times> control_db"
where
  "decide_for_source source_id objective ctx mode dedup_seconds record_evidence db =
     (let measurement_row = latest_measurement_row db source_id;
          measurement =
            (case measurement_row of
               Some row \<Rightarrow> Some (row_to_measurement row)
             | None \<Rightarrow> build_measurement db source_id);
          trend_summary = build_trend_with_fallback db source_id default_window;
          measurement_row_id = map_option mr_id measurement_row;
          run_id = map_option mr_run_id measurement_row
      in case measurement of
           None \<Rightarrow>
             (\<lparr>sd_measurement = None, sd_measurement_row_id = measurement_row_id,
               sd_run_id = run_id, sd_trend = trend_summary, sd_control_state = None,
               sd_confidence = None, sd_coverage = None, sd_missing_signals = [],
               sd_suggested_actions = [], sd_ledger_rows_written = 0\<rparr>, db)
         | Some m \<Rightarrow>
             let control_state =
                   evaluate m objective (map_option trend_argument trend_summary) (Some ctx);
                 coverage = compute_sensor_coverage m;
                 confidence = derive_confidence coverage;
                 missing = missing_signals coverage;
                 actions = suggest_actions control_state m objective;
                 (written, db') =
                   (if actions \<noteq> []
                    then let db1 = emit_event (sm_run_id m) ''control_advisory'' ''info''
                               (Some (advisory_detail source_id control_state actions mode)) None db
                         in if record_evidence
                            then record_advisory_actions source_id control_state actions m
                                   measurement_row_id run_id mode dedup_seconds db1
                            else (0, db1)
                    else (0, db))
             in (\<lparr>sd_measurement = Some m, sd_measurement_row_id = measurement_row_id,
                  sd_run_id = run_id, sd_trend = trend_summary,
                  sd_control_state = Some control_state, sd_confidence = Some confidence,
                  sd_coverage = Some coverage, sd_missing_signals = missing,
                  sd_suggested_actions = actions, sd_ledger_rows_written = written\<rparr>, db'))"

section \<open>Facts\<close>

text \<open>What a decision consists of, and the two writes it may make.\<close>

lemma decide_measurement:
  "sd_measurement (fst (decide_for_source s ob ctx md dd re db)) = build_measurement db s"
  by (auto simp: decide_for_source_def build_measurement_def Let_def case_prod_unfold
      split: option.splits)

lemma decide_None:
  "build_measurement db s = None \<Longrightarrow>
    snd (decide_for_source s ob ctx md dd re db) = db \<and>
    sd_suggested_actions (fst (decide_for_source s ob ctx md dd re db)) = []"
  by (auto simp: decide_for_source_def build_measurement_def Let_def split: option.splits)

lemma decide_Some:
  assumes "build_measurement db s = Some m"
  obtains st t where
    "st = evaluate m ob (map_option trend_argument t) (Some ctx)"
    "sd_control_state (fst (decide_for_source s ob ctx md dd re db)) = Some st"
    "sd_confidence (fst (decide_for_source s ob ctx md dd re db)) =
       Some (derive_confidence (compute_sensor_coverage m))"
    "sd_suggested_actions (fst (decide_for_source s ob ctx md dd re db)) = suggest_actions st m ob"
    "snd (decide_for_source s ob ctx md dd re db) =
       (if suggest_actions st m ob = [] then db
        else let db1 = emit_event (sm_run_id m) ''control_advisory'' ''info''
                   (Some (advisory_detail s st (suggest_actions st m ob) md)) None db
             in if re then snd (record_advisory_actions s st (suggest_actions st m ob) m
                  (sd_measurement_row_id (fst (decide_for_source s ob ctx md dd re db)))
                  (sd_run_id (fst (decide_for_source s ob ctx md dd re db))) md dd db1)
                else db1)"
proof -
  define t where "t = build_trend_with_fallback db s default_window"
  have m: "(case latest_measurement_row db s of Some row \<Rightarrow> Some (row_to_measurement row)
      | None \<Rightarrow> build_measurement db s) = Some m"
    using assms by (auto simp: build_measurement_def split: option.splits)
  show thesis
    by (rule that[OF refl, of t])
      (simp_all add: decide_for_source_def m t_def[symmetric] Let_def case_prod_unfold)
qed

lemma decide_frame [frame_simps]:
  "db_sources (snd (decide_for_source s ob ctx md dd re db)) = db_sources db"
  "db_schedules (snd (decide_for_source s ob ctx md dd re db)) = db_schedules db"
  "db_measurements (snd (decide_for_source s ob ctx md dd re db)) = db_measurements db"
  "db_tasks (snd (decide_for_source s ob ctx md dd re db)) = db_tasks db"
  "db_runs (snd (decide_for_source s ob ctx md dd re db)) = db_runs db"
  "db_clock (snd (decide_for_source s ob ctx md dd re db)) = db_clock db"
  by (simp_all add: decide_for_source_def Let_def case_prod_unfold frame_simps
      split: option.split)

lemma evaluate_quiet_cases:
  assumes "sm_odp_stream_lag m = None" and "sm_odp_pending m = None"
  shows "evaluate m ob t ctx \<notin> {HEALTHY, BACKPRESSURED, PAUSED}"
proof -
  let ?P = "problem m ob (or_default t empty_trend) (or_default ctx empty_context)"
  have "\<not> ?P HEALTHY" "\<not> ?P BACKPRESSURED" "\<not> ?P PAUSED" using assms(2) by simp_all
  moreover have "quiet_verdict m = UNKNOWN"
    unfolding quiet_verdict_def using confidence_low_of_odp_gap[OF assms] by simp
  ultimately show ?thesis
    unfolding evaluate_first_match
    by (auto split: option.splits dest!: find_problem_Some)
qed

text \<open>
  A decision is advisory. It never touches a source, a schedule, a measurement or a run; the
  ledger only grows, by unexecuted and unjudged suggestions of this source in the decided state,
  exactly as many as reported; and without a reading of the source nothing at all is written.
\<close>

lemma decision_is_advisory:
  "(let (d, db') = decide_for_source s ob ctx md dd re db
    in db_sources db' = db_sources db \<and> db_schedules db' = db_schedules db \<and>
       db_measurements db' = db_measurements db \<and> db_runs db' = db_runs db \<and>
       (case sd_control_state d of
          None \<Rightarrow> db' = db \<and> sd_suggested_actions d = []
        | Some st \<Rightarrow> \<exists>new. db_ledger db' = db_ledger db @ new \<and>
            list_all (suggestion_of s st (sd_suggested_actions d)) new \<and>
            sd_ledger_rows_written d = length new))"
proof (cases "build_measurement db s")
  case None
  moreover have "sd_control_state (fst (decide_for_source s ob ctx md dd re db)) = None"
    using None by (auto simp: decide_for_source_def build_measurement_def Let_def split: option.splits)
  ultimately show ?thesis
    using decide_None[OF None, of ob ctx md dd re] by (simp add: case_prod_unfold)
next
  case (Some m)
  define t where "t = build_trend_with_fallback db s default_window"
  define st where "st = evaluate m ob (map_option trend_argument t) (Some ctx)"
  let ?as = "suggest_actions st m ob"
  let ?db1 = "emit_event (sm_run_id m) ''control_advisory'' ''info'' (Some (advisory_detail s st ?as md)) None db"
  let ?mid = "map_option mr_id (latest_measurement_row db s)"
  let ?run = "map_option mr_run_id (latest_measurement_row db s)"
  have m: "(case latest_measurement_row db s of Some row \<Rightarrow> Some (row_to_measurement row)
      | None \<Rightarrow> build_measurement db s) = Some m"
    using Some by (auto simp: build_measurement_def split: option.splits)
  have d: "sd_control_state (fst (decide_for_source s ob ctx md dd re db)) = Some st"
    "sd_suggested_actions (fst (decide_for_source s ob ctx md dd re db)) = ?as"
    "snd (decide_for_source s ob ctx md dd re db) = (if ?as = [] then db else if re
       then snd (record_advisory_actions s st ?as m ?mid ?run md dd ?db1) else ?db1)"
    "sd_ledger_rows_written (fst (decide_for_source s ob ctx md dd re db)) = (if ?as = [] \<or> \<not> re
       then 0 else fst (record_advisory_actions s st ?as m ?mid ?run md dd ?db1))"
    by (simp_all add: decide_for_source_def m t_def[symmetric] st_def[symmetric] Let_def
        case_prod_unfold)
  obtain new where
    "db_ledger (snd (record_advisory_actions s st ?as m ?mid ?run md dd ?db1)) = db_ledger ?db1 @ new"
    "list_all (suggestion_of s st ?as) new"
    "fst (record_advisory_actions s st ?as m ?mid ?run md dd ?db1) = length new"
    using record_advisory_appends by blast
  then have "\<exists>new. db_ledger (snd (decide_for_source s ob ctx md dd re db)) = db_ledger db @ new \<and>
      list_all (suggestion_of s st ?as) new \<and>
      sd_ledger_rows_written (fst (decide_for_source s ob ctx md dd re db)) = length new"
    unfolding d by (auto simp: frame_simps)
  then show ?thesis by (simp add: case_prod_unfold d(1,2) frame_simps)
qed

text \<open>
  The readings the decision path builds carry no data-plane backlog, so its confidence is always
  low and it never reports a source healthy, backpressured or paused.
\<close>

lemma decision_never_healthy:
  "sd_control_state (fst (decide_for_source s ob ctx md dd re db)) \<notin>
     {Some HEALTHY, Some BACKPRESSURED, Some PAUSED} \<and>
   sd_confidence (fst (decide_for_source s ob ctx md dd re db)) \<in> {None, Some ''low''}"
proof (cases "build_measurement db s")
  case None
  then show ?thesis
    by (auto simp: decide_for_source_def build_measurement_def Let_def split: option.splits)
next
  case (Some m)
  have odp: "sm_odp_stream_lag m = None" "sm_odp_pending m = None"
    using build_measurement_no_odp[OF Some] by simp_all
  from Some show ?thesis
  proof (rule decide_Some)
    fix st t
    assume st: "st = evaluate m ob (map_option trend_argument t) (Some ctx)"
      and d: "sd_control_state (fst (decide_for_source s ob ctx md dd re db)) = Some st"
        "sd_confidence (fst (decide_for_source s ob ctx md dd re db)) =
           Some (derive_confidence (compute_sensor_coverage m))"
    show ?thesis
      using evaluate_quiet_cases[OF odp, of ob "map_option trend_argument t" "Some ctx"]
        confidence_low_of_odp_gap[OF odp]
      by (simp add: d st)
  qed
qed

end
