(* ===== verification/Gate.thy ===== *)
theory Gate
  imports Ledger
begin

text \<open>
  The execution gate: the kill switch (\<open>backend/control/kill_switch.py\<close>), the AND-ed
  conditions (\<open>backend/control/gate.py\<close>) and the fail-closed authorization of automatic
  agent actions (\<open>backend/control/operations_agent_policy.py\<close>).
\<close>

section \<open>Kill switch\<close>

type_synonym kill_override = "bool option"

definition is_engaged :: "settings \<Rightarrow> kill_override \<Rightarrow> bool" where
  "is_engaged cfg runtime_override =
     (case runtime_override of Some v \<Rightarrow> v | None \<Rightarrow> control_kill_switch cfg)"

definition set_override :: "bool \<Rightarrow> kill_override \<Rightarrow> kill_override" where
  "set_override v runtime_override = Some v"

definition reset :: "kill_override \<Rightarrow> kill_override" where
  "reset runtime_override = None"

definition current_state :: "settings \<Rightarrow> kill_override \<Rightarrow> bool \<times> bool option \<times> bool" where
  "current_state cfg runtime_override =
     (is_engaged cfg runtime_override, runtime_override, control_kill_switch cfg)"

section \<open>The gate\<close>

record gate_result =
  gr_allowed :: bool
  gr_blocked_by :: "string option"
  gr_detail :: "json dict option"

definition gate_allow :: gate_result where
  "gate_allow = \<lparr>gr_allowed = True, gr_blocked_by = None, gr_detail = None\<rparr>"

definition gate_block :: "string \<Rightarrow> json dict \<Rightarrow> gate_result" where
  "gate_block reason detail =
     \<lparr>gr_allowed = False, gr_blocked_by = Some reason,
      gr_detail = (if detail = [] then None else Some detail)\<rparr>"

definition evidence_rows :: "control_db \<Rightarrow> string \<Rightarrow> string \<Rightarrow> control_action_record list" where
  "evidence_rows db state action_type =
     filter (\<lambda>r. ca_state r = state \<and> ca_action_type r = action_type) (db_ledger db)"

definition latest_executed :: "control_db \<Rightarrow> string \<Rightarrow> string \<Rightarrow> control_action_record option" where
  "latest_executed db source_id action_type =
     first_row (order_desc ca_created_at
       (filter (\<lambda>r. ca_source_id r = source_id \<and> ca_action_type r = action_type \<and> ca_executed r)
         (db_ledger db)))"

definition executed_last_hour :: "control_db \<Rightarrow> datetime \<Rightarrow> control_action_record list" where
  "executed_last_hour db now =
     filter (\<lambda>r. ca_executed r \<and> instant (ca_created_at r) \<ge> instant now - 3600 * 1000000)
       (db_ledger db)"

definition unresolved_executed ::
  "control_db \<Rightarrow> string \<Rightarrow> string \<Rightarrow> string \<Rightarrow> control_action_record option"
where
  "unresolved_executed db source_id action_type state =
     first_row (filter (\<lambda>r. ca_source_id r = source_id \<and> ca_action_type r = action_type \<and>
       ca_state r = state \<and> ca_executed r \<and> ca_evaluated_at r = None) (db_ledger db))"

definition evaluate_gate ::
  "settings \<Rightarrow> kill_override \<Rightarrow> control_db \<Rightarrow> string \<Rightarrow> string \<Rightarrow> string \<Rightarrow> datetime \<Rightarrow> string \<Rightarrow>
   int \<Rightarrow> rat \<Rightarrow> int \<Rightarrow> int \<Rightarrow> gate_result"
where
  "evaluate_gate cfg override db source_id action_type state now mode min_samples
     min_recovery_rate cooldown_seconds max_actions_per_hour =
     (if is_engaged cfg override then gate_block ''kill_switch'' []
      else if mode \<noteq> ''automatic''
        then gate_block ''control_mode_not_automatic'' [(''control_mode'', JStr mode)]
      else
        let bucket_totals = tally (evidence_rows db state action_type);
            samples = tot_evaluated bucket_totals;
            recovery_rate = tot_recovery_rate bucket_totals
        in if samples < min_samples
             then gate_block ''below_min_samples''
               [(''samples'', JInt samples), (''required'', JInt min_samples)]
           else if (case recovery_rate of None \<Rightarrow> True | Some r \<Rightarrow> r < min_recovery_rate)
             then gate_block ''below_min_recovery_rate''
               [(''recovery_rate'', case recovery_rate of None \<Rightarrow> JNull | Some r \<Rightarrow> JFloat r),
                (''required'', JFloat min_recovery_rate)]
           else
             let cooling =
                   (case latest_executed db source_id action_type of
                      None \<Rightarrow> None
                    | Some r \<Rightarrow>
                        let age = total_seconds now (ensure_utc (ca_created_at r))
                        in if age < of_int cooldown_seconds then Some age else None)
             in case cooling of
                  Some age \<Rightarrow> gate_block ''cooldown_active''
                    [(''age_seconds'', JFloat age), (''required'', JInt cooldown_seconds)]
                | None \<Rightarrow>
                    let n = int (length (executed_last_hour db now))
                    in if n \<ge> max_actions_per_hour
                       then gate_block ''hourly_cap_exhausted''
                         [(''executed_last_hour'', JInt n), (''cap'', JInt max_actions_per_hour)]
                       else
                         (case unresolved_executed db source_id action_type state of
                            Some r \<Rightarrow> gate_block ''unresolved_in_flight''
                              [(''row_id'', JInt (int (ca_id r)))]
                          | None \<Rightarrow> gate_allow))"

section \<open>Automatic actions of operations agents\<close>

record automatic_action_decision =
  aad_allowed :: bool
  aad_blocked_by :: "string option"
  aad_requires_actuator :: bool

definition aad_allow :: automatic_action_decision where
  "aad_allow = \<lparr>aad_allowed = True, aad_blocked_by = None, aad_requires_actuator = True\<rparr>"

definition aad_block :: "string \<Rightarrow> automatic_action_decision" where
  "aad_block reason =
     \<lparr>aad_allowed = False, aad_blocked_by = Some reason, aad_requires_actuator = True\<rparr>"

definition exactly_scoped :: "string \<Rightarrow> string list \<Rightarrow> bool" where
  "exactly_scoped v scope \<longleftrightarrow> \<not> List.member scope ''*'' \<and> List.member scope v"

definition evaluate_automatic_action ::
  "bool \<Rightarrow> string \<Rightarrow> string list \<Rightarrow> string list \<Rightarrow> string list \<Rightarrow> string \<Rightarrow> string \<Rightarrow> string \<Rightarrow>
   string \<Rightarrow> bool \<Rightarrow> bool \<Rightarrow> bool \<Rightarrow> automatic_action_decision"
where
  "evaluate_automatic_action agent_disabled profile_mode tool_scope resource_scope action_scope
     tool_name resource_ref action_type risk_level automatic_eligible enrollment_active
     gate_allowed =
     (if agent_disabled then aad_block ''agent_disabled''
      else if profile_mode \<noteq> ''low_risk_automatic'' then aad_block ''profile_not_automatic''
      else if \<not> exactly_scoped tool_name tool_scope then aad_block ''tool_out_of_scope''
      else if \<not> exactly_scoped resource_ref resource_scope then aad_block ''resource_out_of_scope''
      else if \<not> exactly_scoped action_type action_scope then aad_block ''action_out_of_scope''
      else if risk_level \<in> {''high'', ''critical''} then aad_block ''risk_requires_human_approval''
      else if risk_level \<notin> {''low'', ''medium''} then aad_block ''risk_unrecognized''
      else if \<not> automatic_eligible then aad_block ''action_not_eligible''
      else if \<not> enrollment_active then aad_block ''automatic_enrollment_inactive''
      else if \<not> gate_allowed then aad_block ''gate_blocked''
      else aad_allow)"

section \<open>What an open gate means\<close>

lemmas gate_result_simps = gate_allow_def gate_block_def

lemma gate_block_not_allowed [simp]: "\<not> gr_allowed (gate_block reason d)"
  by (simp add: gate_block_def)

lemma gate_allow_allowed [simp]: "gr_allowed gate_allow"
  by (simp add: gate_allow_def)

text \<open>The conditions of the gate as one conjunction, each stated on the ledger rows.\<close>

definition cooled_down :: "control_db \<Rightarrow> string \<Rightarrow> string \<Rightarrow> datetime \<Rightarrow> int \<Rightarrow> bool" where
  "cooled_down db source_id action_type now cooldown \<longleftrightarrow>
     (\<forall>r \<in> set (db_ledger db). ca_source_id r = source_id \<and> ca_action_type r = action_type \<and>
        ca_executed r \<longrightarrow> instant (ca_created_at r) + cooldown * 1000000 \<le> instant now)"

lemma cooled_down_latest:
  "cooled_down db s a now cd \<longleftrightarrow>
     (case latest_executed db s a of None \<Rightarrow> True
      | Some r \<Rightarrow> \<not> total_seconds now (ensure_utc (ca_created_at r)) < of_int cd)"
proof (cases "latest_executed db s a")
  case None
  then have "filter (\<lambda>r. ca_source_id r = s \<and> ca_action_type r = a \<and> ca_executed r) (db_ledger db) = []"
    by (simp add: latest_executed_def)
  with None show ?thesis by (auto simp: cooled_down_def filter_empty_conv)
next
  case (Some r)
  let ?rows = "filter (\<lambda>r. ca_source_id r = s \<and> ca_action_type r = a \<and> ca_executed r) (db_ledger db)"
  from Some have fr: "first_row (order_desc ca_created_at ?rows) = Some r"
    by (simp add: latest_executed_def)
  have r: "r \<in> set ?rows" using first_row_Some_in[OF fr] by simp
  have newest: "instant (ca_created_at q) \<le> instant (ca_created_at r)" if "q \<in> set ?rows" for q
    using first_row_desc_newest[OF fr that] .
  have "cooled_down db s a now cd \<longleftrightarrow> instant (ca_created_at r) + cd * 1000000 \<le> instant now"
    unfolding cooled_down_def using r newest by fastforce
  with Some show ?thesis by (auto simp: total_seconds_less_iff not_less)
qed

lemma unresolved_executed_None:
  "unresolved_executed db s a st = None \<longleftrightarrow>
     \<not> (\<exists>r \<in> set (db_ledger db). ca_source_id r = s \<and> ca_action_type r = a \<and> ca_state r = st \<and>
          ca_executed r \<and> ca_evaluated_at r = None)"
  by (auto simp: unresolved_executed_def filter_empty_conv)

lemma evaluate_gate_allowed_iff:
  "gr_allowed (evaluate_gate cfg ov db s a st now mode ms mr cd cap) \<longleftrightarrow>
     \<not> is_engaged cfg ov \<and> mode = ''automatic'' \<and>
     tot_evaluated (tally (evidence_rows db st a)) \<ge> ms \<and>
     (\<exists>r. tot_recovery_rate (tally (evidence_rows db st a)) = Some r \<and> r \<ge> mr) \<and>
     cooled_down db s a now cd \<and>
     int (length (executed_last_hour db now)) < cap \<and>
     unresolved_executed db s a st = None"
  unfolding evaluate_gate_def cooled_down_latest
  by (auto simp: Let_def split: option.splits)

text \<open>
  C2: the gate opens exactly when all six conditions hold together: no kill switch, automatic mode,
  enough judged samples with a sufficient recovery rate in the (state, action type) bucket, no
  execution of the pair within the cooldown, fewer executions than the hourly cap, and no
  execution of the same pair and state still waiting for its verdict.
\<close>

theorem gate_opens_iff:
  "gr_allowed (evaluate_gate cfg ov db s a st now mode ms mr cd cap) \<longleftrightarrow>
     \<not> is_engaged cfg ov \<and> mode = ''automatic'' \<and>
     ms \<le> int (length (filter (\<lambda>r. ca_evaluated_at r \<noteq> None) (evidence_rows db st a))) \<and>
     (let good = length (filter (\<lambda>r. ca_outcome r = Some ''recovered'') (evidence_rows db st a));
          bad = length (filter (\<lambda>r. ca_outcome r = Some ''persisted'') (evidence_rows db st a))
      in 0 < good + bad \<and> mr * of_nat (good + bad) \<le> of_nat good) \<and>
     cooled_down db s a now cd \<and>
     int (length (executed_last_hour db now)) < cap \<and>
     \<not> (\<exists>r \<in> set (db_ledger db). ca_source_id r = s \<and> ca_action_type r = a \<and> ca_state r = st \<and>
          ca_executed r \<and> ca_evaluated_at r = None)"
proof -
  let ?rows = "evidence_rows db st a"
  define g where "g = length (filter (\<lambda>r. ca_outcome r = Some ''recovered'') ?rows)"
  define b where "b = length (filter (\<lambda>r. ca_outcome r = Some ''persisted'') ?rows)"
  have rate: "(\<exists>r. tot_recovery_rate (tally ?rows) = Some r \<and> r \<ge> mr) \<longleftrightarrow>
      0 < g + b \<and> mr * of_nat (g + b) \<le> of_nat g"
    by (auto simp: tally_def Let_def g_def[symmetric] b_def[symmetric] le_divide_eq)
  show ?thesis
    unfolding evaluate_gate_allowed_iff unresolved_executed_None[symmetric] rate
    by (simp add: tally_def Let_def g_def b_def)
qed

text \<open>
  The evidence the gate reads is the evidence the operator's report shows: its query returns the
  report's bucket for the same key, so both tallies are the same.
\<close>

lemma gate_reads_report_bucket:
  "tally (evidence_rows db state action_type) =
     tally (case map_of (bucket_by_state_action (db_ledger db)) (state, action_type) of
       None \<Rightarrow> [] | Some rows \<Rightarrow> rows)"
  unfolding bucket_by_state_action_def map_of_bucket_from evidence_rows_def
  by (auto simp: Let_def conj_commute)

text \<open>
  An agent's automatic action is allowed exactly when every condition holds, so a wildcard in any
  scope, a high, critical or unrecognized risk level, or a closed gate always blocks it, and a
  decision always still requires the actuator.
\<close>

lemma automatic_action_fail_closed:
  "aad_allowed (evaluate_automatic_action dis prof ts rs acs tool res act risk elig enr gate) \<longleftrightarrow>
     \<not> dis \<and> prof = ''low_risk_automatic'' \<and>
     tool \<in> set ts \<and> ''*'' \<notin> set ts \<and> res \<in> set rs \<and> ''*'' \<notin> set rs \<and>
     act \<in> set acs \<and> ''*'' \<notin> set acs \<and> (risk = ''low'' \<or> risk = ''medium'') \<and>
     elig \<and> enr \<and> gate"
  by (auto simp: evaluate_automatic_action_def aad_allow_def aad_block_def exactly_scoped_def)

lemma gate_blocked_reason:
  "\<not> gr_allowed (evaluate_gate cfg ov db s a st now mode ms mr cd cap) \<longleftrightarrow>
     gr_blocked_by (evaluate_gate cfg ov db s a st now mode ms mr cd cap) \<noteq> None"
  unfolding evaluate_gate_def by (auto simp: Let_def gate_result_simps split: option.splits)

end
