(* ===== verification/CronText.thy ===== *)
theory CronText
  imports Prelude
begin

text \<open>
  The text processing of the actuator: \<open>str.strip\<close>, decimal numbers, the regular
  expression for step-minute cron expressions (\<open>^\*/(\d+) \* \* \* \*$\<close> in
  \<open>backend/control/actuator.py\<close>) and the f-string that prints one back. Strings are
  byte strings, so \<open>\d\<close> is an ASCII digit.
\<close>

definition py_space :: "char \<Rightarrow> bool" where
  "py_space c \<longleftrightarrow> List.member [9, 10, 11, 12, 13, 28, 29, 30, 31, 32] (of_char c :: nat)"

definition strip :: "string \<Rightarrow> string" where
  "strip s = rev (dropWhile py_space (rev (dropWhile py_space s)))"

definition is_digit :: "char \<Rightarrow> bool" where
  "is_digit c \<longleftrightarrow> 48 \<le> (of_char c :: nat) \<and> (of_char c :: nat) \<le> 57"

definition digit_char :: "nat \<Rightarrow> char" where
  "digit_char d = char_of (48 + d)"

fun digits_value :: "nat \<Rightarrow> string \<Rightarrow> nat" where
  "digits_value acc [] = acc"
| "digits_value acc (c # cs) = digits_value (10 * acc + (of_char c - 48)) cs"

fun show_nat :: "nat \<Rightarrow> string" where
  "show_nat n = (if n < 10 then [digit_char n] else show_nat (n div 10) @ [digit_char (n mod 10)])"

declare show_nat.simps [simp del]

definition show_int :: "int \<Rightarrow> string" where
  "show_int i = (if i < 0 then ''-'' @ show_nat (nat (- i)) else show_nat (nat i))"

definition hex_digit :: "nat \<Rightarrow> char" where
  "hex_digit n = (if n < 10 then char_of (48 + n) else char_of (87 + n))"

definition step_cron :: "int \<Rightarrow> string" where
  "step_cron minutes = ''*/'' @ show_int minutes @ '' * * * *''"

definition parse_step_minutes :: "string \<Rightarrow> int option" where
  "parse_step_minutes cron_expression =
     (let s = strip cron_expression
      in if prefix ''*/'' s then
           let rest = drop 2 s; ds = takeWhile is_digit rest; tail = dropWhile is_digit rest
           in if ds \<noteq> [] \<and> tail = '' * * * *'' then Some (int (digits_value 0 ds)) else None
         else None)"

text \<open>Python's \<open>round\<close> on an exact value: to the nearest integer, ties to the even one.\<close>

definition py_round :: "rat \<Rightarrow> int" where
  "py_round q =
     (let f = \<lfloor>q\<rfloor>; d = q - of_int f
      in if d < 1 / 2 then f else if d > 1 / 2 then f + 1 else if even f then f else f + 1)"

section \<open>Printing and parsing\<close>

lemma of_char_digit [simp]: "d < 10 \<Longrightarrow> of_char (digit_char d) = (48 + d :: nat)"
  by (simp add: digit_char_def of_char_of)

lemma is_digit_digit_char: "d < 10 \<Longrightarrow> is_digit (digit_char d)"
  by (simp add: is_digit_def)

lemma digits_value_append: "digits_value acc (xs @ ys) = digits_value (digits_value acc xs) ys"
  by (induction acc xs rule: digits_value.induct) auto

lemma show_nat_digits: "list_all is_digit (show_nat n)"
proof (induction n rule: show_nat.induct)
  case (1 n)
  then show ?case
    by (cases "n < 10") (subst show_nat.simps, simp add: is_digit_digit_char)+
qed

lemma show_nat_not_Nil [simp]: "show_nat n \<noteq> []"
  by (subst show_nat.simps) simp

lemma digits_value_show: "digits_value 0 (show_nat n) = n"
proof (induction n rule: show_nat.induct)
  case (1 n)
  show ?case
  proof (cases "n < 10")
    case True
    then show ?thesis by (subst show_nat.simps) simp
  next
    case False
    with "1.IH" have "digits_value 0 (show_nat n) = 10 * (n div 10) + n mod 10"
      by (subst show_nat.simps) (simp add: digits_value_append)
    then show ?thesis by simp
  qed
qed

lemma takeWhile_digits:
  "list_all P xs \<Longrightarrow> \<not> P y \<Longrightarrow> takeWhile P (xs @ y # ys) = xs \<and> dropWhile P (xs @ y # ys) = y # ys"
  by (induction xs) auto

lemma strip_step_cron: "strip (step_cron n) = step_cron n"
  by (simp add: strip_def step_cron_def py_space_def)

lemma parse_step_cron:
  assumes "0 \<le> n"
  shows "parse_step_minutes (step_cron n) = Some n"
proof -
  let ?ds = "show_nat (nat n)" and ?tl = "''* * * *''"
  have n: "step_cron n = ''*/'' @ ?ds @ CHR '' '' # ?tl"
    using assms by (simp add: step_cron_def show_int_def)
  have "takeWhile is_digit (?ds @ CHR '' '' # ?tl) = ?ds \<and>
      dropWhile is_digit (?ds @ CHR '' '' # ?tl) = CHR '' '' # ?tl"
    by (rule takeWhile_digits) (simp_all add: show_nat_digits is_digit_def)
  then show ?thesis
    using assms by (simp add: parse_step_minutes_def strip_step_cron Let_def)
      (simp add: n digits_value_show)
qed

lemma parse_step_nonneg: "parse_step_minutes s = Some n \<Longrightarrow> 0 \<le> n"
  by (auto simp: parse_step_minutes_def Let_def split: if_splits)

section \<open>Rounding\<close>

lemma py_round_of_int [simp]: "py_round (of_int n) = n"
  by (simp add: py_round_def Let_def)

lemma py_round_lower: "of_int n \<le> q \<Longrightarrow> n \<le> py_round q"
  by (auto simp: py_round_def Let_def le_floor_iff intro: order_trans[of n "\<lfloor>q\<rfloor>"])

end
