(* ===== verification/Actuator.thy ===== *)
theory Actuator
  imports ControlState CronText
begin

text \<open>
  The actuator (\<open>backend/control/actuator.py\<close>): the only operations of the control plane
  that change a source or a schedule. The ISO text of a timestamp in an execution detail is
  represented by the instant it denotes.
\<close>

section \<open>The whitelist\<close>

definition INCREASE_INTERVAL :: string where "INCREASE_INTERVAL = ''increase_interval''"
definition PAUSE :: string where "PAUSE = ''pause''"
definition REQUIRE_REVIEW :: string where "REQUIRE_REVIEW = ''require_review''"

lemmas whitelist_names = INCREASE_INTERVAL_def PAUSE_def REQUIRE_REVIEW_def

definition WHITELIST :: "string list" where
  "WHITELIST = [INCREASE_INTERVAL, PAUSE, REQUIRE_REVIEW]"

definition ALIASES :: "(string \<times> string) list" where
  "ALIASES = [(''pause_source'', PAUSE), (''pause_low_priority'', PAUSE),
     (''require_auth_review'', REQUIRE_REVIEW)]"

definition resolve_action_type :: "string \<Rightarrow> string \<times> bool" where
  "resolve_action_type suggested =
     (if List.member WHITELIST suggested then (suggested, False)
      else case map_of ALIASES suggested of
             Some mapped \<Rightarrow> (mapped, False)
           | None \<Rightarrow> (REQUIRE_REVIEW, True))"

section \<open>Operations\<close>

record execution_result =
  er_executed_action_type :: string
  er_downgraded :: bool
  er_original_action_type :: string
  er_original_payload :: "json dict"
  er_detail :: "json dict"

definition new_interval :: "rat \<Rightarrow> int \<Rightarrow> int \<Rightarrow> int" where
  "new_interval factor max_minutes minutes =
     min (max 1 (py_round (of_int minutes * factor))) max_minutes"

datatype widening = Widened string string string | Skipped string | Kept

definition widen_schedule :: "rat \<Rightarrow> int \<Rightarrow> cron_schedule \<Rightarrow> cron_schedule \<times> widening" where
  "widen_schedule factor max_minutes sched =
     (case parse_step_minutes (cs_cron_expression sched) of
        None \<Rightarrow> (sched, Skipped (cs_id sched))
      | Some minutes \<Rightarrow>
          let new_minutes = new_interval factor max_minutes minutes
          in if new_minutes = minutes then (sched, Kept)
             else let old_expr = cs_cron_expression sched; after = step_cron new_minutes
                  in (sched\<lparr>cs_cron_expression := after\<rparr>, Widened (cs_id sched) old_expr after))"

definition selected_schedule :: "string \<Rightarrow> cron_schedule \<Rightarrow> bool" where
  "selected_schedule source_id sched \<longleftrightarrow> cs_source_id sched = source_id \<and> cs_enabled sched"

definition widened_json :: "widening \<Rightarrow> json list" where
  "widened_json w =
     (case w of
        Widened sid old_expr after \<Rightarrow>
          [JObj [(''schedule_id'', JStr sid), (''before'', JStr old_expr), (''after'', JStr after)]]
      | _ \<Rightarrow> [])"

definition skipped_json :: "widening \<Rightarrow> json list" where
  "skipped_json w = (case w of Skipped sid \<Rightarrow> [JStr sid] | _ \<Rightarrow> [])"

definition apply_increase_interval ::
  "string \<Rightarrow> rat \<Rightarrow> int \<Rightarrow> control_db \<Rightarrow> json dict \<times> control_db"
where
  "apply_increase_interval source_id factor max_minutes db =
     (let schedules = filter (selected_schedule source_id) (db_schedules db);
          outcome = map (\<lambda>s. snd (widen_schedule factor max_minutes s)) schedules
      in ([(''widened'', JList (concat (map widened_json outcome))),
           (''skipped_unparseable'', JList (concat (map skipped_json outcome)))],
          db\<lparr>db_schedules :=
               map (\<lambda>s. if selected_schedule source_id s
                         then fst (widen_schedule factor max_minutes s) else s)
                 (db_schedules db)\<rparr>))"

definition isoformat :: "datetime \<Rightarrow> json" where
  "isoformat d = JInt (instant d)"

definition source_field :: "(data_source \<Rightarrow> 'a) \<Rightarrow> 'a \<Rightarrow> control_db \<Rightarrow> string \<Rightarrow> 'a" where
  "source_field f d db sid = (case get_source db sid of None \<Rightarrow> d | Some s \<Rightarrow> f s)"

definition apply_pause :: "string \<Rightarrow> datetime \<Rightarrow> int \<Rightarrow> control_db \<Rightarrow> json dict \<times> control_db" where
  "apply_pause sid now ttl_seconds db =
     (let was_enabled = source_field ds_enabled False db sid;
          until = plus_seconds now ttl_seconds
      in ([(''was_enabled'', JBool was_enabled), (''paused_until'', isoformat until)],
          update_source sid (\<lambda>s. s\<lparr>ds_enabled := False, ds_paused_until := Some until\<rparr>) db))"

definition apply_resume :: "string \<Rightarrow> control_db \<Rightarrow> json dict \<times> control_db" where
  "apply_resume sid db =
     ([(''resumed'', JBool True)],
      update_source sid (\<lambda>s. s\<lparr>ds_enabled := True, ds_paused_until := None\<rparr>) db)"

definition apply_require_review :: "string \<Rightarrow> control_db \<Rightarrow> json dict \<times> control_db" where
  "apply_require_review sid db =
     (let already = source_field ds_review_required False db sid
      in ([(''already_flagged'', JBool already)],
          update_source sid (\<lambda>s. s\<lparr>ds_review_required := True\<rparr>) db))"

definition execute_action ::
  "string \<Rightarrow> control_action \<Rightarrow> datetime \<Rightarrow> rat \<Rightarrow> int \<Rightarrow> int \<Rightarrow> control_db \<Rightarrow>
   execution_result \<times> control_db"
where
  "execute_action sid action now factor max_minutes pause_ttl_seconds db =
     (let (executed_type, downgraded) = resolve_action_type (act_type action);
          (detail, db') =
            (if executed_type = INCREASE_INTERVAL
               then apply_increase_interval sid factor max_minutes db
             else if executed_type = PAUSE then apply_pause sid now pause_ttl_seconds db
             else apply_require_review sid db)
      in (\<lparr>er_executed_action_type = executed_type, er_downgraded = downgraded,
           er_original_action_type = act_type action, er_original_payload = act_payload action,
           er_detail = detail\<rparr>, db'))"

definition pause_source_for_captcha ::
  "string \<Rightarrow> datetime \<Rightarrow> int \<Rightarrow> control_db \<Rightarrow> json dict \<times> control_db"
where
  "pause_source_for_captcha sid now ttl_seconds db =
     (let (detail, db1) = apply_pause sid now ttl_seconds db;
          (review_detail, db2) = apply_require_review sid db1
      in (dict_set detail ''review_required'' (JBool True), db2))"

definition pause_expired :: "datetime \<Rightarrow> data_source \<Rightarrow> bool" where
  "pause_expired now s \<longleftrightarrow>
     (case ds_paused_until s of None \<Rightarrow> False | Some t \<Rightarrow> instant t \<le> instant now)"

definition resume_result :: "json dict \<Rightarrow> execution_result" where
  "resume_result detail =
     \<lparr>er_executed_action_type = ''resume'', er_downgraded = False,
      er_original_action_type = ''resume'', er_original_payload = [], er_detail = detail\<rparr>"

fun resume_loop ::
  "data_source list \<Rightarrow> control_db \<Rightarrow> (string \<times> execution_result) list \<times> control_db"
where
  "resume_loop [] db = ([], db)"
| "resume_loop (s # ss) db =
     (let (detail, db1) = apply_resume (ds_id s) db; (rest, db2) = resume_loop ss db1
      in ((ds_id s, resume_result detail) # rest, db2))"

definition auto_resume_expired_pauses ::
  "datetime \<Rightarrow> control_db \<Rightarrow> (string \<times> execution_result) list \<times> control_db"
where
  "auto_resume_expired_pauses now db =
     resume_loop (filter (pause_expired now) (db_sources db)) db"

section \<open>Frame facts\<close>

lemma apply_increase_frame [frame_simps]:
  "db_sources (snd (apply_increase_interval s f m db)) = db_sources db"
  "db_ledger (snd (apply_increase_interval s f m db)) = db_ledger db"
  "db_measurements (snd (apply_increase_interval s f m db)) = db_measurements db"
  "db_clock (snd (apply_increase_interval s f m db)) = db_clock db"
  by (simp_all add: apply_increase_interval_def Let_def)

lemma apply_pause_frame [frame_simps]:
  "db_schedules (snd (apply_pause s now ttl db)) = db_schedules db"
  "db_ledger (snd (apply_pause s now ttl db)) = db_ledger db"
  "db_measurements (snd (apply_pause s now ttl db)) = db_measurements db"
  "db_clock (snd (apply_pause s now ttl db)) = db_clock db"
  by (simp_all add: apply_pause_def Let_def frame_simps)

lemma apply_review_frame [frame_simps]:
  "db_schedules (snd (apply_require_review s db)) = db_schedules db"
  "db_ledger (snd (apply_require_review s db)) = db_ledger db"
  "db_measurements (snd (apply_require_review s db)) = db_measurements db"
  "db_clock (snd (apply_require_review s db)) = db_clock db"
  by (simp_all add: apply_require_review_def Let_def frame_simps)

lemma apply_resume_frame [frame_simps]:
  "db_schedules (snd (apply_resume s db)) = db_schedules db"
  "db_ledger (snd (apply_resume s db)) = db_ledger db"
  "db_measurements (snd (apply_resume s db)) = db_measurements db"
  "db_clock (snd (apply_resume s db)) = db_clock db"
  "db_next_id (snd (apply_resume s db)) = db_next_id db"
  by (simp_all add: apply_resume_def frame_simps update_source_def)

lemma execute_action_db:
  "snd (execute_action sid action now f mx ttl db) =
     (if fst (resolve_action_type (act_type action)) = INCREASE_INTERVAL
        then snd (apply_increase_interval sid f mx db)
      else if fst (resolve_action_type (act_type action)) = PAUSE
        then snd (apply_pause sid now ttl db)
      else snd (apply_require_review sid db))"
  by (simp add: execute_action_def case_prod_unfold Let_def)

lemma execute_action_frame [frame_simps]:
  "db_ledger (snd (execute_action sid action now f mx ttl db)) = db_ledger db"
  "db_measurements (snd (execute_action sid action now f mx ttl db)) = db_measurements db"
  "db_clock (snd (execute_action sid action now f mx ttl db)) = db_clock db"
  by (simp_all add: execute_action_db frame_simps)

lemma execute_action_next_id [simp]:
  "db_next_id (snd (execute_action sid action now f mx ttl db)) = db_next_id db"
  by (simp add: execute_action_db apply_increase_interval_def apply_pause_def
      apply_require_review_def update_source_def Let_def)

lemma execute_action_result [simp]:
  "er_executed_action_type (fst (execute_action sid action now f mx ttl db)) =
     fst (resolve_action_type (act_type action))"
  "er_original_action_type (fst (execute_action sid action now f mx ttl db)) = act_type action"
  by (simp_all add: execute_action_def case_prod_unfold Let_def)

text \<open>The resume pass is one update per source row.\<close>

definition resumed :: "data_source \<Rightarrow> data_source" where
  "resumed s = s\<lparr>ds_enabled := True, ds_paused_until := None\<rparr>"

lemma resume_loop_frame [frame_simps]:
  "db_schedules (snd (resume_loop ss db)) = db_schedules db"
  "db_ledger (snd (resume_loop ss db)) = db_ledger db"
  "db_measurements (snd (resume_loop ss db)) = db_measurements db"
  "db_clock (snd (resume_loop ss db)) = db_clock db"
  "db_next_id (snd (resume_loop ss db)) = db_next_id db"
  by (induction ss arbitrary: db)
    (simp_all add: case_prod_unfold Let_def frame_simps)

lemma resume_loop_sources:
  "db_sources (snd (resume_loop ss db)) =
     map (\<lambda>s. if ds_id s \<in> ds_id ` set ss then resumed s else s) (db_sources db)"
  by (induction ss arbitrary: db)
    (auto simp: case_prod_unfold Let_def apply_resume_def update_source_def resumed_def)

lemma resume_loop_results: "map fst (fst (resume_loop ss db)) = map ds_id ss"
  by (induction ss arbitrary: db) (simp_all add: case_prod_unfold Let_def)

lemma auto_resume_frame [frame_simps]:
  "db_schedules (snd (auto_resume_expired_pauses now db)) = db_schedules db"
  "db_ledger (snd (auto_resume_expired_pauses now db)) = db_ledger db"
  "db_measurements (snd (auto_resume_expired_pauses now db)) = db_measurements db"
  "db_clock (snd (auto_resume_expired_pauses now db)) = db_clock db"
  "db_next_id (snd (auto_resume_expired_pauses now db)) = db_next_id db"
  by (simp_all add: auto_resume_expired_pauses_def frame_simps)

lemma auto_resume_sources:
  assumes "distinct (map ds_id (db_sources db))"
  shows "db_sources (snd (auto_resume_expired_pauses now db)) =
    map (\<lambda>s. if pause_expired now s then resumed s else s) (db_sources db)"
proof -
  have "ds_id s \<in> ds_id ` set (filter (pause_expired now) (db_sources db)) \<longleftrightarrow> pause_expired now s"
    if "s \<in> set (db_sources db)" for s
    using that assms by (auto simp: distinct_map inj_on_def)
  then show ?thesis
    by (simp add: auto_resume_expired_pauses_def resume_loop_sources)
qed

section \<open>Properties\<close>

lemma resolve_in_whitelist: "fst (resolve_action_type ty) \<in> set WHITELIST"
  by (auto simp: resolve_action_type_def WHITELIST_def ALIASES_def whitelist_names)

text \<open>
  Whatever action type is suggested, what is executed is on the three-entry whitelist; names on
  the whitelist and the three aliases run as themselves, and everything else becomes a review
  request, flagged as a downgrade.
\<close>

lemma resolve_action_type_spec:
  "fst (resolve_action_type ty) \<in> {''increase_interval'', ''pause'', ''require_review''} \<and>
   (snd (resolve_action_type ty) \<longleftrightarrow>
      ty \<notin> {''increase_interval'', ''pause'', ''require_review'', ''pause_source'',
             ''pause_low_priority'', ''require_auth_review''}) \<and>
   (snd (resolve_action_type ty) \<longrightarrow> fst (resolve_action_type ty) = ''require_review'')"
  by (auto simp: resolve_action_type_def WHITELIST_def ALIASES_def whitelist_names)

lemma new_interval_bounds:
  assumes "1 \<le> mx"
  shows "1 \<le> new_interval f mx m \<and> new_interval f mx m \<le> mx"
  using assms by (auto simp: new_interval_def)

lemma new_interval_mono:
  assumes "1 \<le> f" and "0 \<le> m" and "m \<le> mx"
  shows "m \<le> new_interval f mx m"
proof -
  have "of_int m \<le> of_int m * f"
    using assms by (simp add: mult_le_cancel_left1)
  then show ?thesis
    using py_round_lower assms(3) by (fastforce simp: new_interval_def)
qed

theorem resolve_action_type_spec_witness:
  "resolve_action_type ''force_cursor_rescan'' = (''require_review'', True)"
proof -
  have d: "snd (resolve_action_type ''force_cursor_rescan'')"
    by (simp add: resolve_action_type_def WHITELIST_def ALIASES_def whitelist_names)
  have "fst (resolve_action_type ''force_cursor_rescan'') = ''require_review''"
    using resolve_action_type_spec[THEN conjunct2, THEN conjunct2, THEN mp, OF d] .
  with d show ?thesis by (simp add: prod_eq_iff)
qed

text \<open>Repeated backoff of one step interval.\<close>

definition backoff :: "rat \<Rightarrow> int \<Rightarrow> nat \<Rightarrow> int \<Rightarrow> int" where
  "backoff f mx k m = ((new_interval f mx) ^^ k) m"

lemma new_interval_double:
  assumes "2 \<le> f" and "1 \<le> m" and "m \<le> mx"
  shows "min mx (m + 1) \<le> new_interval f mx m"
proof -
  have "of_int (m + 1) \<le> (of_int m * 2 :: rat)" using assms(2) by simp
  also have "\<dots> \<le> of_int m * f" using assms by (simp add: mult_left_mono)
  finally have "m + 1 \<le> py_round (of_int m * f)" by (rule py_round_lower)
  then show ?thesis by (simp add: new_interval_def)
qed

lemma backoff_progress:
  assumes "2 \<le> f" and "1 \<le> m" and "m \<le> mx"
  shows "min mx (m + int k) \<le> backoff f mx k m \<and> backoff f mx k m \<le> mx \<and> 1 \<le> backoff f mx k m"
proof (induction k)
  case 0
  with assms show ?case by (simp add: backoff_def)
next
  case (Suc k)
  let ?b = "backoff f mx k m"
  from Suc have b: "1 \<le> ?b" "?b \<le> mx" by auto
  have "backoff f mx (Suc k) m = new_interval f mx ?b" by (simp add: backoff_def)
  with new_interval_double[OF assms(1) b] new_interval_bounds[of mx f ?b] Suc b
  show ?case by auto
qed

text \<open>
  Bounded multiplicative backoff reaches its cap: with a factor of at least two, widening a step
  interval repeatedly never shrinks it or passes the cap, and after at most \<open>max_minutes\<close>
  rounds it is the cap and stays there.
\<close>

lemma backoff_reaches_cap:
  assumes "2 \<le> f" and "1 \<le> m" and "m \<le> mx"
  shows "m \<le> backoff f mx k m \<and> backoff f mx k m \<le> mx \<and>
    (nat mx \<le> k \<longrightarrow> backoff f mx k m = mx)"
proof -
  have "mx \<le> m + int k" if "nat mx \<le> k" using that assms(2) by linarith
  with backoff_progress[OF assms, of k] assms(3) show ?thesis by auto
qed

lemma backoff_reaches_cap_witness: "backoff 2 1440 1440 30 = 1440"
  using backoff_reaches_cap[of 2 30 1440 1440] by simp

text \<open>
  An increase-interval action rewrites only enabled step schedules of its own source, the rewritten
  expression parses back to the new step, and a schedule of any other shape is left as it is.
\<close>

lemma increase_interval_effect:
  assumes "1 \<le> mx" and "i < length (db_schedules db)"
  shows "(let before = db_schedules db ! i;
              after = db_schedules (snd (apply_increase_interval sid f mx db)) ! i
          in (if selected_schedule sid before \<and> parse_step_minutes (cs_cron_expression before) \<noteq> None
              then parse_step_minutes (cs_cron_expression after) =
                     map_option (new_interval f mx) (parse_step_minutes (cs_cron_expression before)) \<and>
                   cs_id after = cs_id before \<and> cs_source_id after = cs_source_id before \<and>
                   cs_enabled after = cs_enabled before
              else after = before))"
proof -
  let ?before = "db_schedules db ! i"
  have after: "db_schedules (snd (apply_increase_interval sid f mx db)) ! i =
      (if selected_schedule sid ?before then fst (widen_schedule f mx ?before) else ?before)"
    using assms(2) by (simp add: apply_increase_interval_def Let_def)
  have "0 \<le> new_interval f mx n" for n
    using new_interval_bounds[OF assms(1), of f n] by simp
  then show ?thesis
    by (auto simp: after widen_schedule_def Let_def parse_step_cron split: option.splits)
qed

lemma increase_interval_effect_witness:
  "parse_step_minutes (cs_cron_expression (db_schedules (snd (apply_increase_interval ''s'' 2 1440
     (empty_db\<lparr>db_schedules := [\<lparr>cs_id = ''c'', cs_source_id = ''s'',
        cs_agent_id = None, cs_cron_expression = step_cron 30, cs_enabled = True, cs_is_one_time = False, cs_last_run_at = None\<rparr>]\<rparr>))) ! 0)) = Some 60"
proof -
  let ?db = "empty_db\<lparr>db_schedules := [\<lparr>cs_id = ''c'', cs_source_id = ''s'',
        cs_agent_id = None, cs_cron_expression = step_cron 30, cs_enabled = True, cs_is_one_time = False, cs_last_run_at = None\<rparr>]\<rparr>"
  have "py_round 60 = 60" using py_round_of_int[of 60] by simp
  then have "new_interval 2 1440 30 = 60" by (simp add: new_interval_def)
  then show ?thesis
    using increase_interval_effect[of 1440 0 ?db "''s''" 2]
    by (simp add: Let_def selected_schedule_def parse_step_cron)
qed

lemma resumed_fields [simp]:
  "ds_enabled (resumed s)" "ds_paused_until (resumed s) = None" "ds_id (resumed s) = ds_id s"
  by (simp_all add: resumed_def)

text \<open>
  A pause lasts exactly its time to live: the resume pass at a later time re-enables the paused
  source and clears its deadline if and only if the deadline has passed, and before that leaves
  the source disabled.
\<close>

lemma pause_then_auto_resume:
  assumes "distinct (map ds_id (db_sources db))" and "get_source db sid = Some s"
  shows "get_source (snd (auto_resume_expired_pauses later (snd (apply_pause sid now ttl db)))) sid =
    Some (if instant now + ttl * 1000000 \<le> instant later
          then s\<lparr>ds_enabled := True, ds_paused_until := None\<rparr>
          else s\<lparr>ds_enabled := False, ds_paused_until := Some (plus_seconds now ttl)\<rparr>)"
proof -
  let ?db = "snd (apply_pause sid now ttl db)"
  let ?p = "s\<lparr>ds_enabled := False, ds_paused_until := Some (plus_seconds now ttl)\<rparr>"
  have ids: "map ds_id (db_sources ?db) = map ds_id (db_sources db)"
    by (simp add: apply_pause_def update_source_def Let_def)
  have p: "get_source ?db sid = Some ?p"
    using assms(2) by (simp add: apply_pause_def Let_def get_source_update_same)
  have "get_source (snd (auto_resume_expired_pauses later ?db)) sid =
      map_option (\<lambda>s. if pause_expired later s then resumed s else s) (get_source ?db sid)"
    unfolding get_source_def auto_resume_sources[OF assms(1)[folded ids]]
    by (rule find_map_key) simp
  also have "\<dots> = Some (if pause_expired later ?p then resumed ?p else ?p)"
    by (simp add: p)
  finally show ?thesis by (simp add: pause_expired_def resumed_def)
qed

lemma pause_then_auto_resume_witness:
  "map_option ds_enabled (get_source (snd (auto_resume_expired_pauses (Aware 3600000000)
     (snd (apply_pause ''s'' (Aware 0) 3600
       (empty_db\<lparr>db_sources := [\<lparr>ds_id = ''s'', ds_name = ''n'', ds_channel_type = ''rss'',
           ds_channel_config = [], ds_write_strategy = None, ds_ai_config = None, ds_objective_override = None, ds_enabled = True,
           ds_review_required = False, ds_paused_until = None\<rparr>]\<rparr>))))) ''s'') = Some True"
  by (subst pause_then_auto_resume) (simp_all add: get_source_def)

end
