(* ===== verification/Outcomes.thy ===== *)
theory Outcomes
  imports Aggregation Ledger
begin

text \<open>
  Judging recorded suggestions against later evidence (\<open>backend/control/outcomes.py\<close>).
  A verdict needs only the measurements and the sources, which the pass does not change; the
  pass writes the three judgment columns of the ledger and nothing else.
\<close>

section \<open>The pass\<close>

definition trend_dict :: "source_trend \<Rightarrow> trend" where
  "trend_dict t =
     \<lparr>trd_window = Some (st_window t), trd_zero_accepted_streak = Some (st_zero_accepted_streak t),
      trd_avg_error_rate = Some (st_avg_error_rate t),
      trd_rate_limited_runs = Some (st_rate_limited_runs t)\<rparr>"

definition post_rows :: "control_db \<Rightarrow> string \<Rightarrow> datetime \<Rightarrow> nat \<Rightarrow> measurement_row list" where
  "post_rows db source_id decided_at window =
     take window (order_desc mr_measured_at
       (filter (\<lambda>r. mr_source_id r = source_id \<and> instant (mr_measured_at r) > instant decided_at)
         (db_measurements db)))"

text \<open>One pending row: \<open>Inr None\<close> leaves it pending, \<open>Inr (Some (outcome, detail))\<close> judges it.\<close>

definition judge_row ::
  "'e validator \<Rightarrow> datetime \<Rightarrow> int \<Rightarrow> int \<Rightarrow> nat \<Rightarrow> control_db \<Rightarrow> control_action_record \<Rightarrow>
   'e + (string \<times> json dict) option"
where
  "judge_row model_validate now min_age_seconds stale_after_seconds window db row =
     (let decided_at = ensure_utc (ca_created_at row);
          age_seconds = total_seconds now decided_at
      in if age_seconds < of_int min_age_seconds then Inr None
         else
           let rows = post_rows db (ca_source_id row) decided_at window
           in case rows of
                [] \<Rightarrow>
                  if age_seconds < of_int stale_after_seconds then Inr None
                  else Inr (Some (''insufficient_data'',
                    [(''post_state'', JNull), (''post_measurements'', JInt 0),
                     (''window'', JInt (int window))]))
              | newest # _ \<Rightarrow>
                  let m = row_to_measurement newest;
                      t = trend_from_rows rows;
                      override = (case get_source db (ca_source_id row) of
                        None \<Rightarrow> None | Some s \<Rightarrow> ds_objective_override s)
                  in case resolve_objective model_validate override of
                       Inl e \<Rightarrow> Inl e
                     | Inr objective \<Rightarrow>
                         let post_state = evaluate m objective (map_option trend_dict t) None
                         in Inr (Some
                              (if state_value post_state \<noteq> ca_state row then ''recovered''
                               else ''persisted'',
                               [(''post_state'', JStr (state_value post_state)),
                                (''post_measurements'', JInt (int (length rows))),
                                (''window'', JInt (int window))])))"

record outcome_counts =
  oc_evaluated :: nat
  oc_recovered :: nat
  oc_persisted :: nat
  oc_insufficient_data :: nat
  oc_still_pending :: nat

definition zero_counts :: outcome_counts where
  "zero_counts = \<lparr>oc_evaluated = 0, oc_recovered = 0, oc_persisted = 0,
     oc_insufficient_data = 0, oc_still_pending = 0\<rparr>"

definition count_verdict :: "string \<Rightarrow> outcome_counts \<Rightarrow> outcome_counts" where
  "count_verdict v c =
     (let c' = c\<lparr>oc_evaluated := Suc (oc_evaluated c)\<rparr>
      in if v = ''recovered'' then c'\<lparr>oc_recovered := Suc (oc_recovered c)\<rparr>
         else if v = ''persisted'' then c'\<lparr>oc_persisted := Suc (oc_persisted c)\<rparr>
         else c'\<lparr>oc_insufficient_data := Suc (oc_insufficient_data c)\<rparr>)"

definition set_verdict ::
  "datetime \<Rightarrow> row_id \<Rightarrow> string \<times> json dict \<Rightarrow> control_db \<Rightarrow> control_db"
where
  "set_verdict now rid v db =
     db\<lparr>db_ledger := map (\<lambda>r. if ca_id r = rid
          then r\<lparr>ca_outcome := Some (fst v), ca_outcome_detail := Some (snd v),
                 ca_evaluated_at := Some now\<rparr> else r) (db_ledger db)\<rparr>"

fun outcome_loop ::
  "'e validator \<Rightarrow> datetime \<Rightarrow> int \<Rightarrow> int \<Rightarrow> nat \<Rightarrow> control_action_record list \<Rightarrow> outcome_counts \<Rightarrow>
   control_db \<Rightarrow> 'e + outcome_counts \<times> control_db"
where
  "outcome_loop mv now mn st w [] c db = Inr (c, db)"
| "outcome_loop mv now mn st w (row # rows) c db =
     (case judge_row mv now mn st w db row of
        Inl e \<Rightarrow> Inl e
      | Inr None \<Rightarrow>
          outcome_loop mv now mn st w rows (c\<lparr>oc_still_pending := Suc (oc_still_pending c)\<rparr>) db
      | Inr (Some v) \<Rightarrow>
          outcome_loop mv now mn st w rows (count_verdict (fst v) c)
            (set_verdict now (ca_id row) v db))"

definition pending_rows :: "control_db \<Rightarrow> control_action_record list" where
  "pending_rows db =
     order_asc ca_created_at (filter (\<lambda>r. ca_evaluated_at r = None) (db_ledger db))"

definition evaluate_pending_outcomes ::
  "'e validator \<Rightarrow> settings \<Rightarrow> datetime \<Rightarrow> int option \<Rightarrow> int option \<Rightarrow> nat \<Rightarrow> control_db \<Rightarrow>
   'e + outcome_counts \<times> control_db"
where
  "evaluate_pending_outcomes mv cfg now min_age_seconds stale_after_seconds window db =
     outcome_loop mv now
       (or_default min_age_seconds (control_outcome_min_age_seconds cfg))
       (or_default stale_after_seconds (control_outcome_stale_seconds cfg))
       window (pending_rows db) zero_counts db"

section \<open>Facts\<close>

lemma set_verdict_frame [frame_simps]:
  "db_sources (set_verdict now rid v db) = db_sources db"
  "db_schedules (set_verdict now rid v db) = db_schedules db"
  "db_measurements (set_verdict now rid v db) = db_measurements db"
  "db_clock (set_verdict now rid v db) = db_clock db"
  "db_next_id (set_verdict now rid v db) = db_next_id db"
  by (simp_all add: set_verdict_def)

lemma judge_row_evidence:
  assumes "db_measurements db = db_measurements db'" and "db_sources db = db_sources db'"
  shows "judge_row mv now mn st w db = judge_row mv now mn st w db'"
proof -
  have "post_rows db = post_rows db'" "get_source db = get_source db'"
    using assms by (auto simp: post_rows_def get_source_def fun_eq_iff)
  then show ?thesis by (intro ext) (simp only: judge_row_def)
qed

lemma judge_row_set_verdict [simp]:
  "judge_row mv now mn st w (set_verdict t rid v db) = judge_row mv now mn st w db"
  by (rule judge_row_evidence) (simp_all add: frame_simps)

lemma judge_row_verdict:
  "judge_row mv now mn st w db row = Inr (Some v) \<Longrightarrow> List.member VERDICTS (fst v)"
  by (auto simp: judge_row_def Let_def VERDICTS_def split: if_splits list.splits sum.splits)

text \<open>What a whole pass does to the ledger, in one step.\<close>

definition verdict_of ::
  "'e validator \<Rightarrow> datetime \<Rightarrow> int \<Rightarrow> int \<Rightarrow> nat \<Rightarrow> control_db \<Rightarrow> control_action_record \<Rightarrow>
   control_action_record"
where
  "verdict_of mv now mn st w db r =
     (case judge_row mv now mn st w db r of
        Inr (Some v) \<Rightarrow> r\<lparr>ca_outcome := Some (fst v), ca_outcome_detail := Some (snd v),
                         ca_evaluated_at := Some now\<rparr>
      | _ \<Rightarrow> r)"

lemma verdict_of_fields [simp]:
  "ca_id (verdict_of mv now mn st w db r) = ca_id r"
  "ca_executed (verdict_of mv now mn st w db r) = ca_executed r"
  "ca_action_type (verdict_of mv now mn st w db r) = ca_action_type r"
  "ca_state (verdict_of mv now mn st w db r) = ca_state r"
  "ca_source_id (verdict_of mv now mn st w db r) = ca_source_id r"
  "ca_created_at (verdict_of mv now mn st w db r) = ca_created_at r"
  by (auto simp: verdict_of_def split: sum.splits option.splits)

lemma set_verdict_as_map:
  assumes "distinct (map ca_id (db_ledger db))" and "row \<in> set (db_ledger db)"
    and "judge_row mv now mn st w db0 row = Inr (Some v)"
  shows "db_ledger (set_verdict now (ca_id row) v db) =
    map (\<lambda>r. if ca_id r = ca_id row then verdict_of mv now mn st w db0 r else r) (db_ledger db)"
proof -
  have "verdict_of mv now mn st w db0 r = r\<lparr>ca_outcome := Some (fst v),
      ca_outcome_detail := Some (snd v), ca_evaluated_at := Some now\<rparr>"
    if "r \<in> set (db_ledger db)" "ca_id r = ca_id row" for r
  proof -
    from that assms(1,2) have "r = row" by (auto simp: distinct_map inj_on_def)
    with assms(3) show ?thesis by (simp add: verdict_of_def)
  qed
  then show ?thesis by (simp add: set_verdict_def)
qed

lemma outcome_loop_ledger:
  assumes "outcome_loop mv now mn st w rows c db = Inr (c', db')"
    and "distinct (map ca_id (db_ledger db))" and "distinct (map ca_id rows)"
    and "set rows \<subseteq> set (db_ledger db)"
  shows "db_ledger db' =
      map (\<lambda>r. if ca_id r \<in> ca_id ` set rows then verdict_of mv now mn st w db r else r)
        (db_ledger db)"
  using assms
proof (induction rows arbitrary: c db)
  case Nil
  then show ?case by simp
next
  case (Cons row rows)
  have other: "q \<noteq> row" "ca_id q \<noteq> ca_id row" if "q \<in> set rows" for q
    using Cons.prems(3) that by (auto simp: image_iff)
  show ?case
  proof (cases "judge_row mv now mn st w db row")
    case (Inl e)
    with Cons.prems(1) show ?thesis by simp
  next
    case (Inr vo)
    show ?thesis
    proof (cases vo)
      case None
      have same: "verdict_of mv now mn st w db r = r"
        if "r \<in> set (db_ledger db)" "ca_id r = ca_id row" for r
      proof -
        from that Cons.prems(2,4) have "r = row" by (auto simp: distinct_map inj_on_def)
        with Inr None show ?thesis by (simp add: verdict_of_def)
      qed
      have "db_ledger db' = map (\<lambda>r. if ca_id r \<in> ca_id ` set rows
          then verdict_of mv now mn st w db r else r) (db_ledger db)"
        using Cons.IH[of _ db] Cons.prems Inr None by auto
      with same show ?thesis by auto
    next
      case (Some v)
      let ?db = "set_verdict now (ca_id row) v db"
      let ?f = "verdict_of mv now mn st w db"
      have l: "db_ledger ?db = map (\<lambda>r. if ca_id r = ca_id row then ?f r else r) (db_ledger db)"
        by (rule set_verdict_as_map[OF Cons.prems(2)]) (use Cons.prems(4) Inr Some in auto)
      have ids: "map ca_id (db_ledger ?db) = map ca_id (db_ledger db)"
        unfolding l by simp
      have sub: "set rows \<subseteq> set (db_ledger ?db)"
      proof
        fix q assume q: "q \<in> set rows"
        with Cons.prems(4) have "q \<in> set (db_ledger db)" by auto
        with other[OF q] show "q \<in> set (db_ledger ?db)" unfolding l by force
      qed
      have eq: "verdict_of mv now mn st w ?db = ?f"
        by (intro ext) (simp add: verdict_of_def)
      have ih: "db_ledger db' = map (\<lambda>r. if ca_id r \<in> ca_id ` set rows then ?f r else r) (db_ledger ?db)"
        using Cons.IH[of "count_verdict (fst v) c" ?db] Cons.prems Inr Some ids sub by (simp add: eq)
      have notin: "ca_id row \<notin> ca_id ` set rows" using Cons.prems(3) by simp
      show ?thesis unfolding ih l map_map comp_def
      proof (rule map_cong[OF refl])
        fix r
        show "(if ca_id (if ca_id r = ca_id row then ?f r else r) \<in> ca_id ` set rows
              then ?f (if ca_id r = ca_id row then ?f r else r)
              else if ca_id r = ca_id row then ?f r else r) =
            (if ca_id r \<in> ca_id ` set (row # rows) then ?f r else r)"
          using notin by (cases "ca_id r = ca_id row") simp_all
      qed
    qed
  qed
qed

lemma outcome_loop_frame:
  assumes "outcome_loop mv now mn st w rows c db = Inr (c', db')"
  shows "db_sources db' = db_sources db \<and> db_schedules db' = db_schedules db \<and>
    db_measurements db' = db_measurements db \<and> db_clock db' = db_clock db \<and>
    db_next_id db' = db_next_id db"
  using assms
  by (induction rows arbitrary: c db) (auto simp: frame_simps split: sum.splits option.splits)

lemma outcome_loop_counts:
  assumes "outcome_loop mv now mn st w rows c db = Inr (c', db')"
    and "oc_evaluated c = oc_recovered c + oc_persisted c + oc_insufficient_data c"
  shows "oc_evaluated c' = oc_recovered c' + oc_persisted c' + oc_insufficient_data c' \<and>
    oc_evaluated c' + oc_still_pending c' = oc_evaluated c + oc_still_pending c + length rows"
  using assms
proof (induction rows arbitrary: c db)
  case Nil
  then show ?case by simp
next
  case (Cons row rows)
  show ?case
  proof (cases "judge_row mv now mn st w db row")
    case (Inl e)
    with Cons.prems(1) show ?thesis by simp
  next
    case (Inr vo)
    show ?thesis
    proof (cases vo)
      case None
      then show ?thesis
        using Cons.IH[of "c\<lparr>oc_still_pending := Suc (oc_still_pending c)\<rparr>" db] Cons.prems Inr by simp
    next
      case (Some v)
      let ?c = "count_verdict (fst v) c"
      have "oc_evaluated ?c = oc_recovered ?c + oc_persisted ?c + oc_insufficient_data ?c"
        "oc_evaluated ?c = Suc (oc_evaluated c)" "oc_still_pending ?c = oc_still_pending c"
        using Cons.prems(2) by (simp_all add: count_verdict_def Let_def)
      then show ?thesis
        using Cons.IH[of ?c "set_verdict now (ca_id row) v db"] Cons.prems(1) Inr Some by simp
    qed
  qed
qed

text \<open>The pass as a whole: which rows it judges and how it counts them.\<close>

lemma evaluate_pending_ledger:
  assumes "evaluate_pending_outcomes mv cfg now mn st w db = Inr (c, db')" and "ledger_ok db"
  shows "db_ledger db' =
    map (\<lambda>r. if ca_evaluated_at r = None
           then verdict_of mv now (or_default mn (control_outcome_min_age_seconds cfg))
                  (or_default st (control_outcome_stale_seconds cfg)) w db r
           else r) (db_ledger db)"
proof -
  let ?pend = "filter (\<lambda>r. ca_evaluated_at r = None) (db_ledger db)"
  have d: "distinct (map ca_id (db_ledger db))" using assms(2) by (simp add: ledger_ok_def)
  then have inj: "inj_on ca_id (set (db_ledger db))" and dl: "distinct (db_ledger db)"
    by (auto simp: distinct_map)
  have "distinct (map ca_id (pending_rows db))"
    using inj dl by (auto simp: pending_rows_def distinct_map order_asc_def intro: inj_on_subset)
  moreover have s: "set (pending_rows db) = set ?pend" by (simp add: pending_rows_def)
  ultimately have "db_ledger db' = map (\<lambda>r. if ca_id r \<in> ca_id ` set ?pend
      then verdict_of mv now (or_default mn (control_outcome_min_age_seconds cfg))
             (or_default st (control_outcome_stale_seconds cfg)) w db r else r) (db_ledger db)"
    using outcome_loop_ledger[OF assms(1)[unfolded evaluate_pending_outcomes_def] d] by auto
  moreover have "ca_id r \<in> ca_id ` set ?pend \<longleftrightarrow> ca_evaluated_at r = None"
    if "r \<in> set (db_ledger db)" for r
    using that inj by (auto simp: inj_on_def)
  ultimately show ?thesis by simp
qed

lemma verdict_of_judged_ok:
  "row_judged_ok r \<Longrightarrow> row_judged_ok (verdict_of mv now mn st w db r)"
  using judge_row_verdict[of mv now mn st w db r]
  by (auto simp: verdict_of_def row_judged_ok_def split: sum.splits option.splits)

lemma verdict_of_ids:
  "map (\<lambda>r. ca_id (if P r then verdict_of mv now mn st w db r else r)) rows = map ca_id rows"
  by (induction rows) auto

lemma evaluate_pending_ledger_ok:
  assumes "evaluate_pending_outcomes mv cfg now mn st w db = Inr (c, db')" and "ledger_ok db"
  shows "ledger_ok db'"
proof -
  have n: "db_next_id db' = db_next_id db"
    using outcome_loop_frame[OF assms(1)[unfolded evaluate_pending_outcomes_def]] by simp
  show ?thesis
    using assms(2) unfolding ledger_ok_def evaluate_pending_ledger[OF assms] n
    by (auto simp: list_all_iff comp_def verdict_of_ids verdict_of_judged_ok)
qed

lemma verdict_of_again:
  "ca_evaluated_at (verdict_of mv now mn st w db r) = None \<Longrightarrow> verdict_of mv now mn st w db r = r"
  by (auto simp: verdict_of_def split: sum.splits option.splits)

text \<open>
  A judgment pass accounts for every pending row: each is judged or left pending, the verdict
  counters add up to the number judged, judged rows from earlier passes, sources, schedules and
  measurements are untouched, and the ledger stays well-formed.
\<close>

lemma outcome_pass_accounts:
  assumes "evaluate_pending_outcomes mv cfg now mn st w db = Inr (c, db')" and "ledger_ok db"
  shows "oc_evaluated c = oc_recovered c + oc_persisted c + oc_insufficient_data c \<and>
    oc_evaluated c + oc_still_pending c = length (filter (\<lambda>r. ca_evaluated_at r = None) (db_ledger db)) \<and>
    filter (\<lambda>r. ca_id r \<in> ca_id ` {q \<in> set (db_ledger db). ca_evaluated_at q \<noteq> None}) (db_ledger db') =
      filter (\<lambda>r. ca_evaluated_at r \<noteq> None) (db_ledger db) \<and>
    db_sources db' = db_sources db \<and> db_schedules db' = db_schedules db \<and>
    db_measurements db' = db_measurements db \<and> ledger_ok db'"
proof -
  note run = assms(1)[unfolded evaluate_pending_outcomes_def]
  have inj: "inj_on ca_id (set (db_ledger db))"
    using assms(2) by (auto simp: ledger_ok_def distinct_map)
  have "oc_evaluated c = oc_recovered c + oc_persisted c + oc_insufficient_data c \<and>
      oc_evaluated c + oc_still_pending c = length (pending_rows db)"
    using outcome_loop_counts[OF run] by (simp add: zero_counts_def)
  moreover have "length (pending_rows db) = length (filter (\<lambda>r. ca_evaluated_at r = None) (db_ledger db))"
    by (simp add: pending_rows_def order_asc_def)
  moreover have "filter (\<lambda>r. ca_id r \<in> ca_id ` {q \<in> set (db_ledger db). ca_evaluated_at q \<noteq> None})
      (db_ledger db') = filter (\<lambda>r. ca_evaluated_at r \<noteq> None) (db_ledger db)"
  proof -
    have iff: "ca_id r \<in> ca_id ` {q \<in> set (db_ledger db). ca_evaluated_at q \<noteq> None} \<longleftrightarrow>
        ca_evaluated_at r \<noteq> None" if "r \<in> set (db_ledger db)" for r
      using that inj by (auto simp: inj_on_def)
    show ?thesis
      unfolding evaluate_pending_ledger[OF assms] filter_map comp_def
      by (auto simp: if_distrib[of ca_id] iff[simplified] intro!: map_idI cong: filter_cong)
  qed
  ultimately show ?thesis
    using outcome_loop_frame[OF run] evaluate_pending_ledger_ok[OF assms] by simp
qed

text \<open>
  A judgment pass is settled: running it again at the same time changes nothing, because every row
  it could judge is judged already.
\<close>

lemma outcome_pass_idempotent:
  assumes "evaluate_pending_outcomes mv cfg now mn st w db = Inr (c, db')" and "ledger_ok db"
    and "evaluate_pending_outcomes mv cfg now mn st w db' = Inr (c'', db'')"
  shows "db_ledger db'' = db_ledger db'"
proof -
  note run = assms(1)[unfolded evaluate_pending_outcomes_def]
  have "judge_row mv now a b w db' = judge_row mv now a b w db" for a b
    using outcome_loop_frame[OF run] by (intro judge_row_evidence) simp_all
  then have v: "verdict_of mv now a b w db' = verdict_of mv now a b w db" for a b
    by (intro ext) (simp add: verdict_of_def)
  have "db_ledger db'' = map (\<lambda>r. if ca_evaluated_at r = None
      then verdict_of mv now (or_default mn (control_outcome_min_age_seconds cfg))
             (or_default st (control_outcome_stale_seconds cfg)) w db r else r) (db_ledger db')"
    using evaluate_pending_ledger[OF assms(3) evaluate_pending_ledger_ok[OF assms(1,2)]]
    by (simp add: v)
  then show ?thesis
    unfolding evaluate_pending_ledger[OF assms(1,2)]
    by (auto simp: verdict_of_again)
qed

text \<open>A concrete pending suggestion, stale and without any later reading.\<close>

definition stale_row :: control_action_record where
  "stale_row =
     \<lparr>ca_id = 0, ca_created_at = Naive 0, ca_source_id = ''s'', ca_run_id = None,
      ca_measurement_id = None, ca_mode = ''advisory'', ca_state = ''dead'',
      ca_action_type = ''require_review'', ca_reason = Reason_dead_review, ca_payload = [],
      ca_executed = False,
      ca_measurement_before = derive ''s'' ''r'' 0 0 0 0 (Aware 0) False None None None None None 0 [] None,
      ca_evaluated_at = None, ca_outcome = None, ca_outcome_detail = None\<rparr>"

definition stale_db :: control_db where
  "stale_db = empty_db\<lparr>db_ledger := [stale_row], db_next_id := 1\<rparr>"

definition reject_all :: "unit validator" where
  "reject_all d = Inl ()"

lemma stale_db_ok: "ledger_ok stale_db"
  by (simp add: ledger_ok_def stale_db_def stale_row_def row_judged_ok_def)

lemma stale_row_judged:
  "judge_row reject_all (Aware 86400000000) 3600 86400 5 stale_db stale_row =
     Inr (Some (''insufficient_data'', [(''post_state'', JNull), (''post_measurements'', JInt 0),
       (''window'', JInt 5)]))"
  by (simp add: judge_row_def stale_row_def stale_db_def post_rows_def order_desc_def Let_def
      total_seconds_def)

lemma stale_pending: "pending_rows stale_db = [stale_row]"
  by (simp add: pending_rows_def stale_db_def stale_row_def order_asc_def)

lemma stale_pass:
  "\<exists>c db'. evaluate_pending_outcomes reject_all default_settings (Aware 86400000000) None None 5
     stale_db = Inr (c, db')"
  by (simp add: evaluate_pending_outcomes_def stale_pending or_default_def default_settings_def
      stale_row_judged)

lemma outcome_pass_accounts_witness:
  "\<exists>c db'. evaluate_pending_outcomes reject_all default_settings (Aware 86400000000) None None 5
     stale_db = Inr (c, db') \<and> oc_evaluated c + oc_still_pending c = 1 \<and> ledger_ok db'"
proof -
  from stale_pass obtain c db' where run: "evaluate_pending_outcomes reject_all default_settings
      (Aware 86400000000) None None 5 stale_db = Inr (c, db')" by blast
  from outcome_pass_accounts[OF run stale_db_ok] run show ?thesis
    by (auto simp: stale_db_def stale_row_def)
qed

lemma outcome_pass_idempotent_witness:
  "\<exists>c db' c'' db''. evaluate_pending_outcomes reject_all default_settings (Aware 86400000000) None
     None 5 stale_db = Inr (c, db') \<and>
     evaluate_pending_outcomes reject_all default_settings (Aware 86400000000) None None 5 db' =
       Inr (c'', db'') \<and> db_ledger db'' = db_ledger db'"
proof -
  from stale_pass obtain c db' where run: "evaluate_pending_outcomes reject_all default_settings
      (Aware 86400000000) None None 5 stale_db = Inr (c, db')" by blast
  have "verdict_of reject_all (Aware 86400000000) 3600 86400 5 stale_db stale_row =
      stale_row\<lparr>ca_outcome := Some ''insufficient_data'', ca_outcome_detail := Some
        [(''post_state'', JNull), (''post_measurements'', JInt 0), (''window'', JInt 5)],
        ca_evaluated_at := Some (Aware 86400000000)\<rparr>"
    by (simp add: verdict_of_def stale_row_judged)
  moreover have "db_ledger stale_db = [stale_row]" "ca_evaluated_at stale_row = None"
    by (simp_all add: stale_db_def stale_row_def)
  ultimately have "db_ledger db' = [stale_row\<lparr>ca_outcome := Some ''insufficient_data'',
      ca_outcome_detail := Some [(''post_state'', JNull), (''post_measurements'', JInt 0),
        (''window'', JInt 5)], ca_evaluated_at := Some (Aware 86400000000)\<rparr>]"
    using evaluate_pending_ledger[OF run stale_db_ok]
    by (simp add: or_default_def default_settings_def)
  then have "pending_rows db' = []"
    by (simp add: pending_rows_def order_asc_def)
  then have "evaluate_pending_outcomes reject_all default_settings (Aware 86400000000) None None 5
      db' = Inr (zero_counts, db')"
    by (simp add: evaluate_pending_outcomes_def)
  with outcome_pass_idempotent[OF run stale_db_ok this] run show ?thesis by blast
qed

text \<open>
  Judgments of a suggestion made because the shared data plane was backed up are one-sided: such a
  row is never judged to have persisted, because the pass re-evaluates the source without the
  system context that state depends on. The same holds for the rows of automatic resumes.
\<close>

lemma odp_judgment_never_persisted:
  assumes "judge_row mv now mn st w db row = Inr (Some v)"
    and "ca_state row = state_value BLOCKED_BY_ODP \<or> ca_state row = state_value PAUSED"
  shows "fst v \<noteq> ''persisted''"
proof -
  have "state_value (evaluate m ob t None) \<noteq> ca_state row" for m ob t
    using assms(2) by (auto simp del: state_value.simps)
  with assms(1) show ?thesis
    by (auto simp: judge_row_def Let_def split: if_splits list.splits sum.splits)
qed

lemma odp_judgment_never_persisted_witness:
  "\<exists>v. judge_row reject_all (Aware 86400000000) 3600 86400 5
      (stale_db\<lparr>db_measurements := [fst (record_run_measurement 0 ''s'' ''r'' 0 0 0 0 None None False
        None None None None (Aware 5) [])]\<rparr>)
      (stale_row\<lparr>ca_state := ''blocked_by_odp''\<rparr>) = Inr (Some v) \<and> fst v \<noteq> ''persisted''"
proof -
  let ?row = "fst (record_run_measurement 0 ''s'' ''r'' 0 0 0 0 None None False None None None None
    (Aware 5) [])"
  let ?db = "stale_db\<lparr>db_measurements := [?row]\<rparr>"
  let ?q = "stale_row\<lparr>ca_state := ''blocked_by_odp''\<rparr>"
  have r: "mr_source_id ?row = ''s''" "mr_measured_at ?row = Aware 5"
    by (simp_all add: record_run_measurement_def derive_def Let_def)
  have "post_rows ?db ''s'' (Aware 0) 5 = [?row]"
    by (simp add: post_rows_def order_desc_def r)
  moreover have "get_source ?db ''s'' = None" by (simp add: get_source_def stale_db_def)
  ultimately obtain v where v: "judge_row reject_all (Aware 86400000000) 3600 86400 5 ?db ?q =
      Inr (Some v)"
    by (simp add: judge_row_def Let_def stale_row_def total_seconds_def resolve_objective_def)
  from odp_judgment_never_persisted[OF v] v show ?thesis by auto
qed

end
