(* ===== verification/Cycle.thy ===== *)
theory Cycle
  imports Service Gate Actuator Outcomes
begin

text \<open>
  One tick of the control cycle (\<open>backend/control/cycle.py\<close>) and its transaction
  (\<open>backend/control/cycle_task.py\<close>). The readings of the shared data plane are the
  sequence \<open>collect\<close>, one per source of the tick. An exception, which only a malformed
  objective override raises here, carries the session it leaves behind.
\<close>

section \<open>The tick\<close>

record execution_entry =
  xe_source_id :: string
  xe_action_type :: string
  xe_original_action_type :: string
  xe_downgraded :: bool
  xe_ledger_row_id :: row_id

record blocked_entry =
  xb_source_id :: string
  xb_action_type :: string
  xb_resolved_action_type :: string
  xb_state :: string
  xb_blocked_by :: "string option"
  xb_detail :: "json dict option"

record cycle_result =
  cr_sources_decided :: nat
  cr_suggestions_seen :: nat
  cr_executions :: "execution_entry list"
  cr_blocked :: "blocked_entry list"
  cr_auto_resumed :: "string list"
  cr_outcome_counts :: "outcome_counts option"

definition empty_result :: cycle_result where
  "empty_result = \<lparr>cr_sources_decided = 0, cr_suggestions_seen = 0, cr_executions = [],
     cr_blocked = [], cr_auto_resumed = [], cr_outcome_counts = None\<rparr>"

definition empty_measurement :: "string \<Rightarrow> datetime \<Rightarrow> source_measurement" where
  "empty_measurement source_id now =
     \<lparr>sm_source_id = source_id, sm_run_id = ''control-cycle-auto-resume'', sm_accepted = 0,
      sm_duplicates = 0, sm_rejected = 0, sm_fetch_latency_ms = 0, sm_ingest_latency_ms = None,
      sm_store_latency_ms = None, sm_error_rate = 0, sm_duplicate_rate = 0,
      sm_freshness_lag_seconds = None, sm_cursor_advanced = False, sm_odp_stream_lag = None,
      sm_odp_pending = None, sm_dlq_count = 0, sm_error_kinds = [], sm_source_ts_quality = None,
      sm_observed_at = now\<rparr>"

definition cycle_gate ::
  "settings \<Rightarrow> kill_override \<Rightarrow> datetime \<Rightarrow> string \<Rightarrow> source_control_state \<Rightarrow> string \<Rightarrow>
   control_db \<Rightarrow> gate_result"
where
  "cycle_gate cfg ov now source_id state executed_type db =
     evaluate_gate cfg ov db source_id executed_type (state_value state) now (control_mode cfg)
       (control_gate_min_samples cfg) (control_gate_min_recovery_rate cfg)
       (control_action_cooldown_seconds cfg) (control_max_actions_per_hour cfg)"

definition execution_payload :: "execution_result \<Rightarrow> json dict" where
  "execution_payload r =
     dict_set (dict_set (dict_set (er_detail r)
       ''original_action_type'' (JStr (er_original_action_type r)))
       ''original_payload'' (JObj (er_original_payload r)))
       ''downgraded'' (JBool (er_downgraded r))"

text \<open>An allowed action: the actuator call and its ledger row.\<close>

definition perform ::
  "settings \<Rightarrow> datetime \<Rightarrow> string \<Rightarrow> source_control_state \<Rightarrow> source_measurement \<Rightarrow>
   row_id option \<Rightarrow> string option \<Rightarrow> control_action \<Rightarrow> control_db \<Rightarrow>
   execution_result \<times> control_action_record \<times> control_db"
where
  "perform cfg now source_id state m mid run_id action db =
     (let (exec_result, db1) =
            execute_action source_id action now (control_increase_interval_factor cfg)
              (control_increase_interval_max_minutes cfg) (control_pause_ttl_seconds cfg) db;
          (ledger_row, db2) =
            record_executed_action source_id state (er_executed_action_type exec_result)
              (act_reason action) (execution_payload exec_result) m mid run_id db1
      in (exec_result, ledger_row, db2))"

definition cycle_action ::
  "settings \<Rightarrow> kill_override \<Rightarrow> datetime \<Rightarrow> string \<Rightarrow> source_control_state \<Rightarrow>
   source_measurement \<Rightarrow> row_id option \<Rightarrow> string option \<Rightarrow> control_action \<Rightarrow>
   cycle_result \<times> control_db \<Rightarrow> cycle_result \<times> control_db"
where
  "cycle_action cfg ov now source_id state m mid run_id action = (\<lambda>(res, db).
     let res1 = res\<lparr>cr_suggestions_seen := Suc (cr_suggestions_seen res)\<rparr>;
         (executed_type, downgraded) = resolve_action_type (act_type action);
         gate = cycle_gate cfg ov now source_id state executed_type db
     in if \<not> gr_allowed gate
        then (res1\<lparr>cr_blocked := cr_blocked res1 @
                [\<lparr>xb_source_id = source_id, xb_action_type = act_type action,
                  xb_resolved_action_type = executed_type, xb_state = state_value state,
                  xb_blocked_by = gr_blocked_by gate, xb_detail = gr_detail gate\<rparr>]\<rparr>, db)
        else
          let (exec_result, ledger_row, db') =
                perform cfg now source_id state m mid run_id action db
          in (res1\<lparr>cr_executions := cr_executions res1 @
                [\<lparr>xe_source_id = source_id,
                  xe_action_type = er_executed_action_type exec_result,
                  xe_original_action_type = er_original_action_type exec_result,
                  xe_downgraded = er_downgraded exec_result,
                  xe_ledger_row_id = ca_id ledger_row\<rparr>]\<rparr>, db'))"

text \<open>The body of the loop over the sources, after the objective is resolved.\<close>

definition cycle_source ::
  "settings \<Rightarrow> kill_override \<Rightarrow> datetime \<Rightarrow> stream_state option \<Rightarrow> string \<Rightarrow>
   source_objective \<Rightarrow> cycle_result \<times> control_db \<Rightarrow> cycle_result \<times> control_db"
where
  "cycle_source cfg ov now snapshot source_id objective = (\<lambda>(res, db).
     let ctx = build_system_context snapshot objective;
         (decision, db1) = decide_for_source source_id objective (context_dict ctx)
            (control_mode cfg) (control_advisory_dedup_seconds cfg) True db;
         res1 = res\<lparr>cr_sources_decided := Suc (cr_sources_decided res)\<rparr>
     in case (sd_measurement decision, sd_control_state decision) of
          (Some m, Some state) \<Rightarrow>
            fold (cycle_action cfg ov now source_id state m (sd_measurement_row_id decision)
                    (sd_run_id decision))
              (sd_suggested_actions decision) (res1, db1)
        | _ \<Rightarrow> (res1, db1))"

fun cycle_sources ::
  "'e validator \<Rightarrow> settings \<Rightarrow> kill_override \<Rightarrow> datetime \<Rightarrow> (nat \<Rightarrow> stream_state option) \<Rightarrow> nat \<Rightarrow>
   data_source list \<Rightarrow> cycle_result \<times> control_db \<Rightarrow>
   ('e \<times> control_db) + (cycle_result \<times> control_db)"
where
  "cycle_sources mv cfg ov now collect i [] acc = Inr acc"
| "cycle_sources mv cfg ov now collect i (source # sources) acc =
     (case resolve_objective mv (ds_objective_override source) of
        Inl e \<Rightarrow> Inl (e, snd acc)
      | Inr objective \<Rightarrow>
          cycle_sources mv cfg ov now collect (Suc i) sources
            (cycle_source cfg ov now (collect i) (ds_id source) objective acc))"

definition record_resume ::
  "datetime \<Rightarrow> string \<times> execution_result \<Rightarrow> cycle_result \<times> control_db \<Rightarrow>
   cycle_result \<times> control_db"
where
  "record_resume now = (\<lambda>(source_id, inverse) (res, db).
     (res\<lparr>cr_auto_resumed := cr_auto_resumed res @ [source_id]\<rparr>,
      snd (record_executed_action source_id PAUSED ''resume'' Reason_pause_expired
             (er_detail inverse) (empty_measurement source_id now) None None db)))"

definition run_control_cycle_once ::
  "'e validator \<Rightarrow> settings \<Rightarrow> kill_override \<Rightarrow> (nat \<Rightarrow> stream_state option) \<Rightarrow> datetime \<Rightarrow>
   control_db \<Rightarrow> ('e \<times> control_db) + (cycle_result \<times> control_db)"
where
  "run_control_cycle_once mv cfg ov collect now db =
     (case cycle_sources mv cfg ov now collect 0 (filter ds_enabled (db_sources db))
             (empty_result, db) of
        Inl err \<Rightarrow> Inl err
      | Inr (res1, db1) \<Rightarrow>
          let (resumed_pairs, db2) = auto_resume_expired_pauses now db1;
              (res2, db3) = fold (record_resume now) resumed_pairs (res1, db2)
          in case evaluate_pending_outcomes mv cfg now None None 5 db3 of
               Inl e \<Rightarrow> Inl (e, db3)
             | Inr (counts, db4) \<Rightarrow> Inr (res2\<lparr>cr_outcome_counts := Some counts\<rparr>, db4))"

text \<open>
  The wrapper commits a tick or rolls it back. Events are written in transactions of their
  own and survive the rollback.
\<close>

definition rollback :: "control_db \<Rightarrow> control_db \<Rightarrow> control_db" where
  "rollback db failed = db\<lparr>db_events := db_events failed, db_reads := db_reads failed\<rparr>"

definition tick ::
  "'e validator \<Rightarrow> settings \<Rightarrow> kill_override \<Rightarrow> (nat \<Rightarrow> stream_state option) \<Rightarrow> control_db \<Rightarrow>
   control_db"
where
  "tick mv cfg ov collect db =
     (let (now, db0) = utcnow db
      in case run_control_cycle_once mv cfg ov collect now db0 of
           Inl (e, failed) \<Rightarrow> rollback db0 failed
         | Inr (res, db') \<Rightarrow> db')"

section \<open>Facts\<close>

lemma perform_db:
  "snd (snd (perform cfg now sid st m mid r a db)) =
     (let x = execute_action sid a now (control_increase_interval_factor cfg)
            (control_increase_interval_max_minutes cfg) (control_pause_ttl_seconds cfg) db
      in snd (record_executed_action sid st (fst (resolve_action_type (act_type a))) (act_reason a)
           (execution_payload (fst x)) m mid r (snd x)))"
  by (simp add: perform_def Let_def case_prod_unfold)

lemma perform_ledger:
  "\<exists>row. db_ledger (snd (snd (perform cfg now sid st m mid r a db))) = db_ledger db @ [row] \<and>
     ca_source_id row = sid \<and> ca_state row = state_value st \<and>
     ca_action_type row = fst (resolve_action_type (act_type a)) \<and> ca_executed row"
  by (simp add: perform_db Let_def frame_simps)

lemma cycle_action_db:
  "snd (cycle_action cfg ov now sid st m mid r a (res, db)) =
     (if gr_allowed (cycle_gate cfg ov now sid st (fst (resolve_action_type (act_type a))) db)
      then snd (snd (perform cfg now sid st m mid r a db)) else db)"
  by (simp add: cycle_action_def Let_def case_prod_unfold)

text \<open>The judgment pass rewrites rows in place and keeps what identifies them.\<close>

lemma outcome_pass_map:
  assumes "evaluate_pending_outcomes mv cfg now mn st w db = Inr (c, db')"
  obtains f where "db_ledger db' = map f (db_ledger db)"
    "\<And>r. ca_source_id (f r) = ca_source_id r" "\<And>r. ca_action_type (f r) = ca_action_type r"
    "\<And>r. ca_state (f r) = ca_state r" "\<And>r. ca_executed (f r) = ca_executed r"
    "\<And>r. ca_created_at (f r) = ca_created_at r"
proof -
  have "\<exists>f. db_ledger db' = map f (db_ledger db) \<and>
      (\<forall>r. ca_source_id (f r) = ca_source_id r \<and> ca_action_type (f r) = ca_action_type r \<and>
        ca_state (f r) = ca_state r \<and> ca_executed (f r) = ca_executed r \<and>
        ca_created_at (f r) = ca_created_at r)"
    if "outcome_loop mv now mn st w rows c0 db = Inr (c, db')" for mn st rows c0
    using that
  proof (induction rows arbitrary: c0 db)
    case Nil
    then show ?case by (intro exI[of _ id]) simp
  next
    case (Cons row rows)
    show ?case
    proof (cases "judge_row mv now mn st w db row")
      case (Inl e)
      with Cons.prems show ?thesis by simp
    next
      case (Inr vo)
      show ?thesis
      proof (cases vo)
        case None
        with Inr Cons.prems show ?thesis by (auto intro: Cons.IH)
      next
        case (Some v)
        with Inr Cons.prems obtain f where f: "db_ledger db' =
            map f (db_ledger (set_verdict now (ca_id row) v db))"
          "\<forall>r. ca_source_id (f r) = ca_source_id r \<and> ca_action_type (f r) = ca_action_type r \<and>
            ca_state (f r) = ca_state r \<and> ca_executed (f r) = ca_executed r \<and>
            ca_created_at (f r) = ca_created_at r"
          using Cons.IH by fastforce
        define g where "g r = (if ca_id r = ca_id row then r\<lparr>ca_outcome := Some (fst v),
          ca_outcome_detail := Some (snd v), ca_evaluated_at := Some now\<rparr> else r)" for r :: control_action_record
        have "db_ledger db' = map (f \<circ> g) (db_ledger db)"
          unfolding f(1) set_verdict_def g_def by simp
        with f(2) show ?thesis by (intro exI[of _ "f \<circ> g"]) (simp add: g_def)
      qed
    qed
  qed
  with assms show thesis unfolding evaluate_pending_outcomes_def using that by blast
qed

section \<open>Invariants of the decision loop and of the tick\<close>

text \<open>
  What a predicate on the session must satisfy to hold throughout the loop over the sources:
  it survives the two advisory writes, and an actuator call with its ledger row whenever the
  gate lets that call through. A tick further resumes sources, records the resumes, and judges.
\<close>

locale decision_invariant =
  fixes cfg :: settings and ov :: kill_override and now :: datetime
    and I :: "control_db \<Rightarrow> bool"
  assumes inv_emit: "I db \<Longrightarrow> I (emit_event run step level det el db)"
    and inv_advise: "I db \<Longrightarrow>
      I (snd (record_advisory_actions sid st (suggest_actions st m ob) m mid r md dd db))"
    and inv_perform: "I db \<Longrightarrow> a \<in> set (suggest_actions st m ob) \<Longrightarrow>
      gr_allowed (cycle_gate cfg ov now sid st (fst (resolve_action_type (act_type a))) db) \<Longrightarrow>
      I (snd (snd (perform cfg now sid st m mid r a db)))"
begin

lemma inv_decide:
  assumes "I db"
  shows "I (snd (decide_for_source s ob ctx md dd re db))"
proof (cases "build_measurement db s")
  case None
  with assms decide_None show ?thesis by simp
next
  case (Some m)
  then show ?thesis
    by (rule decide_Some[where ob = ob and ctx = ctx and md = md and dd = dd and re = re])
      (use assms inv_emit inv_advise in \<open>simp add: Let_def\<close>)
qed

lemma inv_actions:
  assumes "I (snd acc)" and "set as \<subseteq> set (suggest_actions st m ob)"
  shows "I (snd (fold (cycle_action cfg ov now s st m mid r) as acc))"
  using assms
proof (induction as arbitrary: acc)
  case (Cons a as)
  obtain res db where acc: "acc = (res, db)" by (cases acc)
  from Cons.prems have "I (snd (cycle_action cfg ov now s st m mid r a acc))"
    by (auto simp: acc cycle_action_db intro: inv_perform)
  with Cons.IH Cons.prems(2) show ?case by simp
qed simp

lemma inv_source:
  assumes "I (snd acc)"
  shows "I (snd (cycle_source cfg ov now snap s ob acc))"
proof -
  obtain res db where acc: "acc = (res, db)" by (cases acc)
  let ?d = "decide_for_source s ob (context_dict (build_system_context snap ob)) (control_mode cfg)
    (control_advisory_dedup_seconds cfg) True db"
  have I1: "I (snd ?d)" using assms by (simp add: acc inv_decide)
  show ?thesis
  proof (cases "build_measurement db s")
    case None
    then have "sd_measurement (fst ?d) = None" by (simp add: decide_measurement)
    with I1 show ?thesis by (simp add: acc cycle_source_def Let_def case_prod_unfold)
  next
    case (Some m)
    then have m: "sd_measurement (fst ?d) = Some m" by (simp add: decide_measurement)
    from Some obtain st where st: "sd_control_state (fst ?d) = Some st"
      "sd_suggested_actions (fst ?d) = suggest_actions st m ob"
      by (rule decide_Some)
    show ?thesis
      using inv_actions[where acc = "(res\<lparr>cr_sources_decided := Suc (cr_sources_decided res)\<rparr>, snd ?d)",
          simplified, OF I1 subset_refl]
      by (simp add: acc cycle_source_def Let_def case_prod_unfold m st)
  qed
qed

lemma inv_sources:
  assumes "I (snd acc)"
  shows "case cycle_sources mv cfg ov now collect i ss acc of
    Inl (e, db') \<Rightarrow> I db' | Inr (res, db') \<Rightarrow> I db'"
  using assms
proof (induction ss arbitrary: i acc)
  case (Cons s ss)
  show ?case
  proof (cases "resolve_objective mv (ds_objective_override s)")
    case (Inl e)
    with Cons.prems show ?thesis by simp
  next
    case (Inr ob)
    with Cons.IH[OF inv_source[OF Cons.prems]] show ?thesis by simp
  qed
qed (simp add: case_prod_unfold)

end

end
