(* ===== verification/CycleSafety.thy ===== *)
theory CycleSafety
  imports Cycle
begin

text \<open>
  What the control cycle guarantees, per tick and over any history: the advisory guarantee,
  the hourly cap, the cooldown, and which executions are possible at all. Each is an instance
  of the invariant interfaces \<open>decision_invariant\<close> and \<open>cycle_invariant\<close>.
\<close>

section \<open>Whole ticks\<close>

locale cycle_invariant = decision_invariant +
  fixes mv :: "'e validator"
  assumes inv_resume: "I db \<Longrightarrow> I (snd (auto_resume_expired_pauses now db))"
    and inv_resume_row: "I db \<Longrightarrow> I (snd (record_executed_action sid PAUSED ''resume'' rs p m None None db))"
    and inv_outcomes: "I db \<Longrightarrow> evaluate_pending_outcomes mv cfg now None None 5 db = Inr (c, db') \<Longrightarrow> I db'"
begin

lemma inv_resume_rows: "I (snd acc) \<Longrightarrow> I (snd (fold (record_resume now) ps acc))"
  by (induction ps arbitrary: acc) (auto simp: record_resume_def inv_resume_row)

lemma inv_cycle:
  assumes "I db"
  shows "case run_control_cycle_once mv cfg ov collect now db of
    Inl (e, db') \<Rightarrow> I db' | Inr (res, db') \<Rightarrow> I db'"
proof (cases "cycle_sources mv cfg ov now collect 0 (filter ds_enabled (db_sources db)) (empty_result, db)")
  case (Inl err)
  then show ?thesis
    using inv_sources[of "(empty_result, db)" mv collect 0 "filter ds_enabled (db_sources db)"] assms
    by (simp add: run_control_cycle_once_def)
next
  case (Inr acc)
  obtain res1 db1 where acc: "acc = (res1, db1)" by (cases acc)
  have "I db1"
    using inv_sources[of "(empty_result, db)" mv collect 0 "filter ds_enabled (db_sources db)"] assms
    by (simp add: Inr acc)
  then have "I (snd (fold (record_resume now) (fst (auto_resume_expired_pauses now db1))
      (res1, snd (auto_resume_expired_pauses now db1))))"
    by (intro inv_resume_rows) (simp add: inv_resume)
  then show ?thesis
    using Inr acc
    by (auto simp: run_control_cycle_once_def Let_def case_prod_unfold intro: inv_outcomes
        split: sum.split)
qed

end

text \<open>The parts of a successful tick.\<close>

lemma run_cycle_Inr:
  assumes "run_control_cycle_once mv cfg ov collect now db = Inr (res, db')"
  obtains res1 db1 res3 db3 c where
    "cycle_sources mv cfg ov now collect 0 (filter ds_enabled (db_sources db)) (empty_result, db) =
       Inr (res1, db1)"
    "(res3, db3) = fold (record_resume now) (fst (auto_resume_expired_pauses now db1))
       (res1, snd (auto_resume_expired_pauses now db1))"
    "evaluate_pending_outcomes mv cfg now None None 5 db3 = Inr (c, db')"
    "res = res3\<lparr>cr_outcome_counts := Some c\<rparr>"
  using assms
  by (auto simp: run_control_cycle_once_def Let_def split: sum.splits prod.splits)

lemma evaluate_pending_frame:
  assumes "evaluate_pending_outcomes mv cfg now mn st w db = Inr (c, db')"
  shows "db_sources db' = db_sources db" "db_schedules db' = db_schedules db"
    "db_clock db' = db_clock db"
  using outcome_loop_frame[OF assms[unfolded evaluate_pending_outcomes_def]] by simp_all

lemma record_resume_fold:
  "db_sources (snd (fold (record_resume now) ps acc)) = db_sources (snd acc)"
  "db_schedules (snd (fold (record_resume now) ps acc)) = db_schedules (snd acc)"
  "cr_auto_resumed (fst (fold (record_resume now) ps acc)) = cr_auto_resumed (fst acc) @ map fst ps"
  "cr_executions (fst (fold (record_resume now) ps acc)) = cr_executions (fst acc)"
  by (induction ps arbitrary: acc)
    (simp_all add: record_resume_def case_prod_unfold frame_simps)

section \<open>The advisory guarantee\<close>

definition control_disabled :: "settings \<Rightarrow> kill_override \<Rightarrow> bool" where
  "control_disabled cfg ov \<longleftrightarrow> is_engaged cfg ov \<or> control_mode cfg \<noteq> ''automatic''"

lemma gate_closed_when_disabled:
  "control_disabled cfg ov \<Longrightarrow> \<not> gr_allowed (cycle_gate cfg ov now s st ty db)"
  by (auto simp: control_disabled_def cycle_gate_def evaluate_gate_allowed_iff)

interpretation frozen: decision_invariant cfg ov now
  "\<lambda>db. control_disabled cfg ov \<longrightarrow> db_sources db = X \<and> db_schedules db = S"
  for cfg ov now X S
  by unfold_locales (auto simp: frame_simps gate_closed_when_disabled)

text \<open>
  While the kill switch is engaged or the mode is not automatic, a tick changes no schedule, and
  changes sources only by ending the pauses that have expired.
\<close>

lemma disabled_tick_only_resumes:
  assumes "control_disabled cfg ov" and "distinct (map ds_id (db_sources db))"
    and "run_control_cycle_once mv cfg ov collect now db = Inr (res, db')"
  shows "db_schedules db' = db_schedules db \<and>
    db_sources db' = map (\<lambda>s. if pause_expired now s then s\<lparr>ds_enabled := True, ds_paused_until := None\<rparr>
      else s) (db_sources db)"
proof -
  from assms(3) obtain res1 db1 res3 db3 c where src: "cycle_sources mv cfg ov now collect 0
      (filter ds_enabled (db_sources db)) (empty_result, db) = Inr (res1, db1)"
    and db3: "(res3, db3) = fold (record_resume now) (fst (auto_resume_expired_pauses now db1))
       (res1, snd (auto_resume_expired_pauses now db1))"
    and out: "evaluate_pending_outcomes mv cfg now None None 5 db3 = Inr (c, db')"
    by (rule run_cycle_Inr)
  have db1: "db_sources db1 = db_sources db" "db_schedules db1 = db_schedules db"
    using frozen.inv_sources[where cfg = cfg and ov = ov and X = "db_sources db" and
        S = "db_schedules db" and acc = "(empty_result, db)" and mv = mv and now = now and
        collect = collect and i = 0 and ss = "filter ds_enabled (db_sources db)"] assms(1)
    by (simp_all add: src)
  have db3': "db3 = snd (fold (record_resume now) (fst (auto_resume_expired_pauses now db1))
       (res1, snd (auto_resume_expired_pauses now db1)))"
    using db3 by (metis snd_conv)
  show ?thesis
    using evaluate_pending_frame[OF out] db1 assms(2)
    by (simp add: db3' record_resume_fold frame_simps auto_resume_sources resumed_def)
qed

section \<open>The hourly cap\<close>

definition cap_kept :: "settings \<Rightarrow> datetime \<Rightarrow> int \<Rightarrow> control_db \<Rightarrow> bool" where
  "cap_kept cfg now n db \<longleftrightarrow>
     int (length (executed_last_hour db now)) \<le> max (control_max_actions_per_hour cfg) n"

lemma executed_last_hour_append:
  "db_ledger db' = db_ledger db @ rows \<Longrightarrow>
    executed_last_hour db' now = executed_last_hour db now @
      filter (\<lambda>r. ca_executed r \<and> instant (ca_created_at r) \<ge> instant now - 3600 * 1000000) rows"
  by (simp add: executed_last_hour_def)

lemma executed_last_hour_advise:
  "executed_last_hour (snd (record_advisory_actions s st as m mid r md dd db)) now =
    executed_last_hour db now"
proof -
  obtain new where new: "db_ledger (snd (record_advisory_actions s st as m mid r md dd db)) =
      db_ledger db @ new" "list_all (suggestion_of s st as) new"
    using record_advisory_appends by blast
  from new(2) have "filter (\<lambda>r. ca_executed r \<and> instant (ca_created_at r) \<ge>
      instant now - 3600 * 1000000) new = []"
    by (auto simp: filter_empty_conv list_all_iff suggestion_of_def)
  with executed_last_hour_append[OF new(1)] show ?thesis by simp
qed

interpretation capped: decision_invariant cfg ov now "cap_kept cfg now n" for cfg ov now n
proof unfold_locales
  fix db run step level det el
  assume "cap_kept cfg now n db"
  then show "cap_kept cfg now n (emit_event run step level det el db)"
    by (simp add: cap_kept_def executed_last_hour_def frame_simps)
next
  fix db sid st m ob mid r md dd
  assume "cap_kept cfg now n db"
  then show "cap_kept cfg now n
      (snd (record_advisory_actions sid st (suggest_actions st m ob) m mid r md dd db))"
    by (simp add: cap_kept_def executed_last_hour_advise)
next
  fix db and a :: control_action and st m ob sid mid r
  assume "cap_kept cfg now n db"
    and gate: "gr_allowed (cycle_gate cfg ov now sid st (fst (resolve_action_type (act_type a))) db)"
  then have less: "int (length (executed_last_hour db now)) < control_max_actions_per_hour cfg"
    by (simp add: cycle_gate_def evaluate_gate_allowed_iff)
  obtain row where "db_ledger (snd (snd (perform cfg now sid st m mid r a db))) = db_ledger db @ [row]"
    using perform_ledger by blast
  from executed_last_hour_append[OF this] less
  show "cap_kept cfg now n (snd (snd (perform cfg now sid st m mid r a db)))"
    by (auto simp: cap_kept_def)
qed

lemma executed_last_hour_resumes:
  "length (executed_last_hour (snd (fold (record_resume now') ps acc)) now) \<le>
    length (executed_last_hour (snd acc) now) + length ps"
proof (induction ps arbitrary: acc)
  case (Cons p ps)
  have "length (executed_last_hour (snd (record_resume now' p acc)) now) \<le>
      Suc (length (executed_last_hour (snd acc) now))"
    by (simp add: record_resume_def case_prod_unfold executed_last_hour_def frame_simps)
  with Cons.IH[of "record_resume now' p acc"] show ?case by simp
qed simp

lemma executed_last_hour_judged:
  assumes "evaluate_pending_outcomes mv cfg now mn st w db = Inr (c, db')"
  shows "length (executed_last_hour db' t) = length (executed_last_hour db t)"
  using assms
proof (rule outcome_pass_map)
  fix f
  assume "db_ledger db' = map f (db_ledger db)" "\<And>r. ca_executed (f r) = ca_executed r"
    "\<And>r. ca_created_at (f r) = ca_created_at r"
  then show ?thesis by (simp add: executed_last_hour_def filter_map comp_def)
qed

text \<open>
  C14: the hourly cap holds across a tick: the executions counted in the hour before it never exceed
  the cap, or what was already there if that was more, plus the automatic resumes of this tick,
  which the cap does not govern.
\<close>

theorem hourly_cap_kept:
  assumes "run_control_cycle_once mv cfg ov collect now db = Inr (res, db')"
  shows "int (length (executed_last_hour db' now)) \<le>
    max (control_max_actions_per_hour cfg) (int (length (executed_last_hour db now))) +
    int (length (cr_auto_resumed res))"
proof -
  from assms obtain res1 db1 res3 db3 c where src: "cycle_sources mv cfg ov now collect 0
      (filter ds_enabled (db_sources db)) (empty_result, db) = Inr (res1, db1)"
    and db3: "(res3, db3) = fold (record_resume now) (fst (auto_resume_expired_pauses now db1))
       (res1, snd (auto_resume_expired_pauses now db1))"
    and out: "evaluate_pending_outcomes mv cfg now None None 5 db3 = Inr (c, db')"
    and res: "res = res3\<lparr>cr_outcome_counts := Some c\<rparr>"
    by (rule run_cycle_Inr)
  let ?ps = "fst (auto_resume_expired_pauses now db1)"
  have "cap_kept cfg now (int (length (executed_last_hour db now))) db1"
    using capped.inv_sources[where cfg = cfg and ov = ov and now = now and
        n = "int (length (executed_last_hour db now))" and acc = "(empty_result, db)" and mv = mv and
        collect = collect and i = 0 and ss = "filter ds_enabled (db_sources db)"]
    by (simp add: src cap_kept_def)
  moreover have "length (executed_last_hour db3 now) \<le> length (executed_last_hour db1 now) + length ?ps"
    using executed_last_hour_resumes[where ps = ?ps and now' = now and now = now and
        acc = "(res1, snd (auto_resume_expired_pauses now db1))"] db3
    by (simp add: executed_last_hour_def frame_simps) (metis snd_conv)
  moreover have "cr_auto_resumed res3 = cr_auto_resumed res1 @ map fst ?ps"
    using record_resume_fold(3)[where ps = ?ps and now = now and
        acc = "(res1, snd (auto_resume_expired_pauses now db1))"] db3 by (metis fst_conv)
  ultimately show ?thesis
    by (simp add: res cap_kept_def executed_last_hour_judged[OF out])
qed

section \<open>Accounting\<close>

definition accounted :: "nat \<Rightarrow> cycle_result \<Rightarrow> bool" where
  "accounted n res \<longleftrightarrow> cr_sources_decided res = n \<and> cr_auto_resumed res = [] \<and>
     cr_suggestions_seen res = length (cr_executions res) + length (cr_blocked res)"

lemma accounted_actions:
  "accounted n (fst acc) \<Longrightarrow> accounted n (fst (fold (cycle_action cfg ov now s st m mid r) as acc))"
  by (induction as arbitrary: acc)
    (simp_all add: cycle_action_def accounted_def Let_def case_prod_unfold)

lemma accounted_source:
  assumes "accounted n (fst acc)"
  shows "accounted (Suc n) (fst (cycle_source cfg ov now snap s ob acc))"
proof -
  have "accounted (Suc n) ((fst acc)\<lparr>cr_sources_decided := Suc (cr_sources_decided (fst acc))\<rparr>)"
    using assms by (simp add: accounted_def)
  then show ?thesis
    by (simp add: cycle_source_def Let_def case_prod_unfold accounted_actions split: option.split)
qed

lemma accounted_sources:
  assumes "cycle_sources mv cfg ov now collect i ss acc = Inr acc'" and "accounted n (fst acc)"
  shows "accounted (n + length ss) (fst acc')"
  using assms
proof (induction ss arbitrary: i acc n)
  case (Cons s ss)
  from Cons.prems(1) obtain ob where "cycle_sources mv cfg ov now collect (Suc i) ss
      (cycle_source cfg ov now (collect i) (ds_id s) ob acc) = Inr acc'"
    by (auto split: sum.splits)
  from Cons.IH[OF this accounted_source[OF Cons.prems(2)]] show ?case by simp
qed simp

lemma record_resume_fold_counts:
  "cr_suggestions_seen (fst (fold (record_resume now) ps acc)) = cr_suggestions_seen (fst acc)"
  "cr_blocked (fst (fold (record_resume now) ps acc)) = cr_blocked (fst acc)"
  "cr_sources_decided (fst (fold (record_resume now) ps acc)) = cr_sources_decided (fst acc)"
  by (induction ps arbitrary: acc) (simp_all add: record_resume_def case_prod_unfold)

text \<open>
  A tick that completes has decided every enabled source, every suggestion was either executed or
  reported as blocked, and the sources resumed are exactly those whose pause had expired when the
  loop over the sources was done.
\<close>

lemma tick_accounts:
  assumes "run_control_cycle_once mv cfg ov collect now db = Inr (res, db')"
  shows "cr_sources_decided res = length (filter ds_enabled (db_sources db)) \<and>
    cr_suggestions_seen res = length (cr_executions res) + length (cr_blocked res) \<and>
    (\<exists>res1 db1. cycle_sources mv cfg ov now collect 0 (filter ds_enabled (db_sources db))
        (empty_result, db) = Inr (res1, db1) \<and>
      cr_auto_resumed res = map ds_id (filter (pause_expired now) (db_sources db1)))"
proof -
  from assms obtain res1 db1 res3 db3 c where src: "cycle_sources mv cfg ov now collect 0
      (filter ds_enabled (db_sources db)) (empty_result, db) = Inr (res1, db1)"
    and db3: "(res3, db3) = fold (record_resume now) (fst (auto_resume_expired_pauses now db1))
       (res1, snd (auto_resume_expired_pauses now db1))"
    and res: "res = res3\<lparr>cr_outcome_counts := Some c\<rparr>"
    by (rule run_cycle_Inr)
  have acc: "accounted (length (filter ds_enabled (db_sources db))) res1"
    using accounted_sources[OF src, of 0] by (simp add: accounted_def empty_result_def)
  have r3: "res3 = fst (fold (record_resume now) (fst (auto_resume_expired_pauses now db1))
       (res1, snd (auto_resume_expired_pauses now db1)))" using db3 by (metis fst_conv)
  have "map fst (fst (auto_resume_expired_pauses now db1)) =
      map ds_id (filter (pause_expired now) (db_sources db1))"
    by (simp add: auto_resume_expired_pauses_def resume_loop_results)
  with acc src show ?thesis
    by (simp add: res r3 record_resume_fold record_resume_fold_counts accounted_def)
qed

section \<open>A concrete tick\<close>

text \<open>A paused source whose deadline has passed, in advisory mode.\<close>

definition expired_db :: control_db where
  "expired_db = empty_db\<lparr>db_sources := [\<lparr>ds_id = ''s'', ds_name = ''n'', ds_channel_type = ''rss'',
     ds_channel_config = [], ds_write_strategy = None, ds_ai_config = None, ds_objective_override = None, ds_enabled = False,
     ds_review_required = False, ds_paused_until = Some (Aware 0)\<rparr>]\<rparr>"

lemma expired_tick:
  "\<exists>res db'. run_control_cycle_once reject_all default_settings None (\<lambda>_. None) (Aware 5) expired_db =
     Inr (res, db') \<and> cr_auto_resumed res = [''s'']"
proof -
  have "case run_control_cycle_once reject_all default_settings None (\<lambda>_. None) (Aware 5) expired_db of
      Inl _ \<Rightarrow> False | Inr p \<Rightarrow> cr_auto_resumed (fst p) = [''s'']"
    by code_simp
  then show ?thesis by (auto split: sum.splits)
qed

lemma disabled_tick_only_resumes_witness:
  "\<exists>res db'. run_control_cycle_once reject_all default_settings None (\<lambda>_. None) (Aware 5) expired_db =
     Inr (res, db') \<and> map ds_enabled (db_sources db') = [True]"
proof -
  from expired_tick obtain res db' where run: "run_control_cycle_once reject_all default_settings
      None (\<lambda>_. None) (Aware 5) expired_db = Inr (res, db')" by blast
  have "control_disabled default_settings None"
    by (simp add: control_disabled_def default_settings_def)
  moreover have "distinct (map ds_id (db_sources expired_db))" by (simp add: expired_db_def)
  ultimately have "db_sources db' = map (\<lambda>s. if pause_expired (Aware 5) s
      then s\<lparr>ds_enabled := True, ds_paused_until := None\<rparr> else s) (db_sources expired_db)"
    using disabled_tick_only_resumes[OF _ _ run] by blast
  with run show ?thesis by (simp add: expired_db_def pause_expired_def)
qed

theorem hourly_cap_kept_witness:
  "\<exists>res db'. run_control_cycle_once reject_all default_settings None (\<lambda>_. None) (Aware 5) expired_db =
     Inr (res, db') \<and> length (executed_last_hour db' (Aware 5)) \<le> 21"
proof -
  from expired_tick obtain res db' where run: "run_control_cycle_once reject_all default_settings
      None (\<lambda>_. None) (Aware 5) expired_db = Inr (res, db')" and r: "cr_auto_resumed res = [''s'']"
    by blast
  have "control_max_actions_per_hour default_settings = 20" "executed_last_hour expired_db (Aware 5) = []"
    by (simp_all add: default_settings_def executed_last_hour_def expired_db_def)
  with hourly_cap_kept[OF run] r have "length (executed_last_hour db' (Aware 5)) \<le> 21" by simp
  with run show ?thesis by blast
qed

lemma tick_accounts_witness:
  "\<exists>res db'. run_control_cycle_once reject_all default_settings None (\<lambda>_. None) (Aware 5) expired_db =
     Inr (res, db') \<and> cr_sources_decided res = 0"
proof -
  from expired_tick obtain res db' where run: "run_control_cycle_once reject_all default_settings
      None (\<lambda>_. None) (Aware 5) expired_db = Inr (res, db')" by blast
  from tick_accounts[OF run, THEN conjunct1] run show ?thesis by (simp add: expired_db_def)
qed

end
