(* ===== verification/CycleHistory.thy ===== *)
theory CycleHistory
  imports CycleSafety
begin

text \<open>
  The control plane over time: ticks, calls of the control-state endpoint, captcha pauses and
  whatever the rest of the system does to its own tables, in any order, as a step relation;
  and the facts that hold of the ledger after every history.
\<close>

section \<open>Histories\<close>

inductive control_step :: "'e validator \<Rightarrow> settings \<Rightarrow> control_db \<Rightarrow> control_db \<Rightarrow> bool"
  for mv :: "'e validator" and cfg :: settings
where
  step_tick: "control_step mv cfg db (tick mv cfg ov collect db)"
| step_decide: "control_step mv cfg db (snd (decide_for_source sid ob ctx (control_mode cfg)
      (control_advisory_dedup_seconds cfg) True db))"
| step_captcha: "control_step mv cfg db (snd (pause_source_for_captcha sid now ttl db))"
| step_environment:
    "db_ledger db' = db_ledger db \<Longrightarrow> db_next_id db' = db_next_id db \<Longrightarrow>
     db_clock db' = db_clock db \<Longrightarrow> db_reads db \<le> db_reads db' \<Longrightarrow> control_step mv cfg db db'"

inductive control_reachable :: "'e validator \<Rightarrow> settings \<Rightarrow> control_db \<Rightarrow> bool"
  for mv :: "'e validator" and cfg :: settings
where
  reach_init: "db_ledger db = [] \<Longrightarrow> control_reachable mv cfg db"
| reach_step: "control_reachable mv cfg db \<Longrightarrow> control_step mv cfg db db' \<Longrightarrow>
     control_reachable mv cfg db'"

inductive_cases control_stepE: "control_step mv cfg db db'"

text \<open>
  A predicate that every tick and every advisory decision keeps, and that depends on the
  ledger, the keys and the clock only, holds after every history.
\<close>

locale history_invariant =
  fixes mv :: "'e validator" and cfg :: settings and J :: "control_db \<Rightarrow> bool"
  assumes hist_tick: "J db \<Longrightarrow> J (tick mv cfg ov collect db)"
    and hist_decide: "J db \<Longrightarrow> J (snd (decide_for_source sid ob ctx md dd True db))"
    and hist_frame: "J db \<Longrightarrow> db_ledger db' = db_ledger db \<Longrightarrow> db_next_id db' = db_next_id db \<Longrightarrow>
      db_clock db' = db_clock db \<Longrightarrow> db_reads db \<le> db_reads db' \<Longrightarrow> J db'"
begin

lemma hist_step: "control_step mv cfg db db' \<Longrightarrow> J db \<Longrightarrow> J db'"
proof (erule control_stepE)
  fix sid now ttl
  assume "J db" and db': "db' = snd (pause_source_for_captcha sid now ttl db)"
  then show "J db'"
    by (elim hist_frame) (simp_all add: pause_source_for_captcha_def apply_pause_def
        apply_require_review_def update_source_def Let_def case_prod_unfold)
qed (auto intro: hist_tick hist_decide hist_frame)

lemma hist_reachable:
  assumes "control_reachable mv cfg db" and "\<And>d. db_ledger d = [] \<Longrightarrow> J d"
  shows "J db"
  using assms(1) by induction (auto intro: assms(2) hist_step)

end

section \<open>Which executions can happen\<close>

definition SUGGESTED_PAIRS :: "(source_control_state \<times> string) list" where
  "SUGGESTED_PAIRS =
     [(RATE_LIMITED, ''increase_interval''), (AUTH_FAILED, ''pause_source''),
      (AUTH_FAILED, ''require_auth_review''), (SCHEMA_DRIFT, ''pause_source''),
      (SCHEMA_DRIFT, ''require_review''), (BLOCKED_BY_ODP, ''pause_low_priority''),
      (DEAD, ''require_review''), (DEGRADED, ''require_review'')]"

definition EXECUTED_PAIRS :: "(source_control_state \<times> string) list" where
  "EXECUTED_PAIRS =
     [(RATE_LIMITED, ''increase_interval''), (SCHEMA_DRIFT, ''require_review''),
      (DEAD, ''require_review''), (DEGRADED, ''require_review''), (PAUSED, ''resume'')]"

definition pair_of :: "(source_control_state \<times> string) list \<Rightarrow> control_action_record \<Rightarrow> bool" where
  "pair_of pairs r \<longleftrightarrow> list_ex (\<lambda>(st, ty). ca_state r = state_value st \<and> ca_action_type r = ty) pairs"

definition row_kind_ok :: "control_action_record \<Rightarrow> bool" where
  "row_kind_ok r \<longleftrightarrow> (if ca_executed r then pair_of EXECUTED_PAIRS r else pair_of SUGGESTED_PAIRS r)"

definition rows_kind_ok :: "settings \<Rightarrow> control_db \<Rightarrow> bool" where
  "rows_kind_ok cfg db \<longleftrightarrow>
     (1 \<le> control_gate_min_samples cfg \<longrightarrow> list_all row_kind_ok (db_ledger db))"

lemma suggest_actions_pairs:
  assumes "a \<in> set (suggest_actions st m ob)"
  shows "(st, act_type a) \<in> set SUGGESTED_PAIRS"
  using assms
  by (cases st) (auto simp: suggest_actions_def SUGGESTED_PAIRS_def Let_def)

lemma suggestion_kind_ok:
  "suggestion_of s st (suggest_actions st m ob) r \<Longrightarrow> row_kind_ok r"
  by (force simp: suggestion_of_def row_kind_ok_def pair_of_def list_ex_iff
      dest: suggest_actions_pairs)

text \<open>The only suggested pairs whose resolved type keeps a bucket of evidence.\<close>

lemma executable_pairs_table:
  "list_all (\<lambda>(st, ty). List.member (SUGGESTED_PAIRS @ EXECUTED_PAIRS) (st, fst (resolve_action_type ty)) \<longrightarrow>
     List.member EXECUTED_PAIRS (st, fst (resolve_action_type ty))) SUGGESTED_PAIRS"
  by code_simp

lemma executable_pairs:
  assumes "(st, ty) \<in> set SUGGESTED_PAIRS"
    and "(st, fst (resolve_action_type ty)) \<in> set SUGGESTED_PAIRS \<union> set EXECUTED_PAIRS"
  shows "(st, fst (resolve_action_type ty)) \<in> set EXECUTED_PAIRS"
  using executable_pairs_table[unfolded list_all_iff, rule_format, OF assms(1)] assms(2) by auto

lemma gate_needs_row:
  assumes "gr_allowed (cycle_gate cfg ov now s st ty db)" and "1 \<le> control_gate_min_samples cfg"
  shows "\<exists>r \<in> set (db_ledger db). ca_state r = state_value st \<and> ca_action_type r = ty"
proof -
  have "1 \<le> tot_evaluated (tally (evidence_rows db (state_value st) ty))"
    using assms by (simp add: cycle_gate_def evaluate_gate_allowed_iff)
  then have "filter (\<lambda>r. ca_evaluated_at r \<noteq> None) (evidence_rows db (state_value st) ty) \<noteq> []"
    by (auto simp: tally_def Let_def)
  then show ?thesis by (auto simp: evidence_rows_def filter_empty_conv)
qed

lemma row_kind_pair:
  assumes "row_kind_ok r" and "ca_state r = state_value st"
  shows "(st, ca_action_type r) \<in> set SUGGESTED_PAIRS \<union> set EXECUTED_PAIRS"
  using assms by (auto simp: row_kind_ok_def pair_of_def list_ex_iff split: if_splits)

lemma rows_kind_append:
  "rows_kind_ok cfg db \<Longrightarrow> db_ledger db' = db_ledger db @ new \<Longrightarrow>
    (1 \<le> control_gate_min_samples cfg \<Longrightarrow> list_all row_kind_ok new) \<Longrightarrow> rows_kind_ok cfg db'"
  by (simp add: rows_kind_ok_def)

lemma rows_kind_perform:
  assumes "rows_kind_ok cfg db" and "a \<in> set (suggest_actions st m ob)"
    and "gr_allowed (cycle_gate cfg ov now sid st (fst (resolve_action_type (act_type a))) db)"
  shows "rows_kind_ok cfg (snd (snd (perform cfg now sid st m mid r a db)))"
proof -
  let ?ty = "fst (resolve_action_type (act_type a))"
  obtain row where row: "db_ledger (snd (snd (perform cfg now sid st m mid r a db))) = db_ledger db @ [row]"
    "ca_state row = state_value st" "ca_action_type row = ?ty" "ca_executed row"
    using perform_ledger by blast
  from assms(1) row(1) show ?thesis
  proof (rule rows_kind_append)
    assume n: "1 \<le> control_gate_min_samples cfg"
    obtain q where q: "q \<in> set (db_ledger db)" "ca_state q = state_value st" "ca_action_type q = ?ty"
      using gate_needs_row[OF assms(3) n] by blast
    from q(1) assms(1) n have "row_kind_ok q" by (simp add: rows_kind_ok_def list_all_iff)
    from row_kind_pair[OF this q(2)] have "(st, ?ty) \<in> set EXECUTED_PAIRS"
      using executable_pairs[OF suggest_actions_pairs[OF assms(2)]] by (simp add: q(3))
    then show "list_all row_kind_ok [row]"
      by (auto simp: row_kind_ok_def pair_of_def list_ex_iff row)
  qed
qed

interpretation kinds: cycle_invariant cfg ov now "rows_kind_ok cfg" mv for cfg ov now mv
proof unfold_locales
  fix db run step level det el
  assume "rows_kind_ok cfg db"
  then show "rows_kind_ok cfg (emit_event run step level det el db)"
    by (simp add: rows_kind_ok_def frame_simps)
next
  fix db sid st m ob mid r md dd
  assume *: "rows_kind_ok cfg db"
  obtain new where "db_ledger (snd (record_advisory_actions sid st (suggest_actions st m ob) m mid r md dd db)) =
      db_ledger db @ new" "list_all (suggestion_of sid st (suggest_actions st m ob)) new"
    using record_advisory_appends by blast
  with * show "rows_kind_ok cfg
      (snd (record_advisory_actions sid st (suggest_actions st m ob) m mid r md dd db))"
    by (elim rows_kind_append) (auto simp: list_all_iff intro: suggestion_kind_ok)
next
  fix db :: control_db
  assume "rows_kind_ok cfg db"
  then show "rows_kind_ok cfg (snd (auto_resume_expired_pauses now db))"
    by (simp add: rows_kind_ok_def frame_simps)
next
  fix db :: control_db and sid rs p m
  assume "rows_kind_ok cfg db"
  then show "rows_kind_ok cfg (snd (record_executed_action sid PAUSED ''resume'' rs p m None None db))"
    by (rule rows_kind_append[OF _ record_executed_frame(8)])
      (simp_all add: row_kind_ok_def pair_of_def EXECUTED_PAIRS_def)
next
  fix db c db'
  assume *: "rows_kind_ok cfg db"
    and "evaluate_pending_outcomes mv cfg now None None 5 db = Inr (c, db')"
  from this(2) show "rows_kind_ok cfg db'"
  proof (rule outcome_pass_map)
    fix f assume f: "db_ledger db' = map f (db_ledger db)"
      "\<And>r. ca_action_type (f r) = ca_action_type r" "\<And>r. ca_state (f r) = ca_state r"
      "\<And>r. ca_executed (f r) = ca_executed r"
    then have "row_kind_ok (f r) = row_kind_ok r" for r
      by (simp add: row_kind_ok_def pair_of_def)
    with * f(1) show ?thesis by (simp add: rows_kind_ok_def list_all_iff)
  qed
qed (rule rows_kind_perform)

interpretation kinds_history: history_invariant mv cfg "rows_kind_ok cfg" for mv cfg
proof unfold_locales
  fix db ov collect
  assume "rows_kind_ok cfg db"
  then have "rows_kind_ok cfg (snd (utcnow db))" by (simp add: rows_kind_ok_def frame_simps)
  from this kinds.inv_cycle[OF this, of mv ov collect "fst (utcnow db)"]
  show "rows_kind_ok cfg (tick mv cfg ov collect db)"
    by (auto simp: tick_def rollback_def rows_kind_ok_def Let_def case_prod_unfold split: sum.splits)
next
  fix db sid ob ctx md dd
  assume "rows_kind_ok cfg db"
  then show "rows_kind_ok cfg (snd (decide_for_source sid ob ctx md dd True db))"
    by (rule kinds.inv_decide)
qed (simp add: rows_kind_ok_def)

text \<open>
  C18: as long as the gate asks for at least one judged sample, the only executions that ever reach
  the ledger, after any history, are interval increases of rate-limited sources, review flags of
  drifting, dead or degraded ones, and resumes. No source is ever paused by the controller and an
  authentication failure never leads to an execution: their suggestions are recorded under names
  under which the gate does not look for evidence.
\<close>

theorem possible_executions:
  assumes "control_reachable mv cfg db" and "1 \<le> control_gate_min_samples cfg"
    and "r \<in> set (db_ledger db)" and "ca_executed r"
  shows "(ca_state r, ca_action_type r) \<in>
    {(''rate_limited'', ''increase_interval''), (''schema_drift'', ''require_review''),
     (''dead'', ''require_review''), (''degraded'', ''require_review''), (''paused'', ''resume'')}"
proof -
  have "rows_kind_ok cfg db"
    using assms(1) by (rule kinds_history.hist_reachable) (simp add: rows_kind_ok_def)
  then have "pair_of EXECUTED_PAIRS r"
    using assms(2-4) by (auto simp: rows_kind_ok_def list_all_iff row_kind_ok_def)
  then show ?thesis by (auto simp: pair_of_def EXECUTED_PAIRS_def)
qed

section \<open>The cooldown\<close>

text \<open>
  Executions of one action type on one source, resumes apart, are at least the cooldown
  apart, given that the clock never runs backwards.
\<close>

definition apart :: "int \<Rightarrow> control_action_record \<Rightarrow> control_action_record \<Rightarrow> bool" where
  "apart cd r q \<longleftrightarrow>
     (ca_source_id r = ca_source_id q \<and> ca_action_type r = ca_action_type q \<and>
      ca_action_type q \<noteq> ''resume'' \<longrightarrow>
      instant (ca_created_at r) + cd * 1000000 \<le> instant (ca_created_at q))"

definition spaced :: "settings \<Rightarrow> control_db \<Rightarrow> bool" where
  "spaced cfg db \<longleftrightarrow>
     sorted_wrt (apart (control_action_cooldown_seconds cfg)) (filter ca_executed (db_ledger db))"

definition spaced_at :: "settings \<Rightarrow> datetime \<Rightarrow> control_db \<Rightarrow> bool" where
  "spaced_at cfg now db \<longleftrightarrow>
     (mono (db_clock db) \<longrightarrow> instant now \<le> db_clock db (db_reads db) \<and> spaced cfg db)"

lemma emit_event_reads: "db_reads db \<le> db_reads (emit_event r s l d e db)"
  by (simp add: emit_event_def utcnow_def Let_def)

lemma add_action_reads: "db_reads (snd (add_action row db)) = Suc (db_reads db)"
  by (simp add: add_action_def utcnow_def fresh_id_def Let_def)

lemma advisory_loop_reads:
  "db_reads db \<le> db_reads (snd (record_advisory_loop s st m mid r md dd now as w db))"
proof (induction as arbitrary: w db)
  case (Cons a as)
  have "db_reads db \<le> db_reads (snd (add_action (advisory_row s st a m mid r md) db))"
    by (simp add: add_action_reads)
  also have "\<dots> \<le> db_reads (snd (record_advisory_loop s st m mid r md dd now as (Suc w)
      (snd (add_action (advisory_row s st a m mid r md) db))))" by (rule Cons.IH)
  finally show ?case using Cons.IH[of db w] by simp
qed simp

lemma advisory_reads: "db_reads db \<le> db_reads (snd (record_advisory_actions s st as m mid r md dd db))"
  using advisory_loop_reads[of "snd (utcnow db)"]
  by (simp add: record_advisory_actions_def utcnow_def) (meson Suc_leD)

lemma execute_action_reads [simp]:
  "db_reads (snd (execute_action sid action now f mx ttl db)) = db_reads db"
  by (simp add: execute_action_db apply_increase_interval_def apply_pause_def
      apply_require_review_def update_source_def Let_def)

lemma record_executed_created:
  "ca_created_at (fst (record_executed_action s st a rs p m mid r db)) = Aware (db_clock db (db_reads db))"
  "db_reads (snd (record_executed_action s st a rs p m mid r db)) = Suc (db_reads db)"
  by (simp_all add: record_executed_action_def add_action_def utcnow_def fresh_id_def Let_def)

lemma spaced_at_frame:
  assumes "spaced_at cfg now db" and "db_clock db' = db_clock db" and "db_reads db \<le> db_reads db'"
    and "filter ca_executed (db_ledger db') = filter ca_executed (db_ledger db)"
  shows "spaced_at cfg now db'"
  using assms by (auto simp: spaced_at_def spaced_def dest: monoD[of _ "db_reads db" "db_reads db'"])

text \<open>A new execution keeps the spacing if the latest one of its kind has cooled down.\<close>

lemma spaced_at_execute:
  assumes sp: "spaced_at cfg now db" and l: "db_ledger db' = db_ledger db @ [row]"
    and c: "db_clock db' = db_clock db" and rd: "db_reads db' = Suc (db_reads db)"
    and t: "instant (ca_created_at row) = db_clock db (db_reads db)"
    and cool: "ca_action_type row = ''resume'' \<or> cooled_down db (ca_source_id row)
        (ca_action_type row) now (control_action_cooldown_seconds cfg)"
  shows "spaced_at cfg now db'"
  unfolding spaced_at_def
proof
  assume "mono (db_clock db')"
  then have m: "mono (db_clock db)" by (simp add: c)
  with sp have now: "instant now \<le> db_clock db (db_reads db)" and s: "spaced cfg db"
    by (simp_all add: spaced_at_def)
  from now monoD[OF m, of "db_reads db" "Suc (db_reads db)"]
  have "instant now \<le> db_clock db' (db_reads db')" by (simp add: c rd)
  moreover have "apart (control_action_cooldown_seconds cfg) q row"
    if "q \<in> set (db_ledger db)" "ca_executed q" for q
    using that cool now t by (force simp: apart_def cooled_down_def)
  then have "spaced cfg db'"
    using s by (auto simp: spaced_def l sorted_wrt_append)
  ultimately show "instant now \<le> db_clock db' (db_reads db') \<and> spaced cfg db'" ..
qed

interpretation spacing: cycle_invariant cfg ov now "spaced_at cfg now" mv for cfg ov now mv
proof unfold_locales
  fix db run step level det el
  assume "spaced_at cfg now db"
  then show "spaced_at cfg now (emit_event run step level det el db)"
    by (rule spaced_at_frame) (simp_all add: frame_simps emit_event_reads)
next
  fix db sid st m ob mid r md dd
  assume *: "spaced_at cfg now db"
  obtain new where new: "db_ledger (snd (record_advisory_actions sid st (suggest_actions st m ob) m mid r md dd db)) =
      db_ledger db @ new" "list_all (suggestion_of sid st (suggest_actions st m ob)) new"
    using record_advisory_appends by blast
  then have "filter ca_executed new = []"
    by (auto simp: filter_empty_conv list_all_iff suggestion_of_def)
  with * new(1) show "spaced_at cfg now
      (snd (record_advisory_actions sid st (suggest_actions st m ob) m mid r md dd db))"
    by (elim spaced_at_frame) (simp_all add: frame_simps advisory_reads)
next
  fix db and a :: control_action and st m ob sid mid r
  assume *: "spaced_at cfg now db"
    and "gr_allowed (cycle_gate cfg ov now sid st (fst (resolve_action_type (act_type a))) db)"
  then have "cooled_down db sid (fst (resolve_action_type (act_type a))) now
      (control_action_cooldown_seconds cfg)"
    by (simp add: cycle_gate_def evaluate_gate_allowed_iff)
  moreover define x where "x = execute_action sid a now (control_increase_interval_factor cfg)
    (control_increase_interval_max_minutes cfg) (control_pause_ttl_seconds cfg) db"
  define y where "y = record_executed_action sid st (fst (resolve_action_type (act_type a)))
    (act_reason a) (execution_payload (fst x)) m mid r (snd x)"
  have "db_ledger (snd x) = db_ledger db" "db_clock (snd x) = db_clock db"
    "db_reads (snd x) = db_reads db"
    by (simp_all add: x_def frame_simps)
  then have "db_ledger (snd y) = db_ledger db @ [fst y]" "db_clock (snd y) = db_clock db"
    "db_reads (snd y) = Suc (db_reads db)"
    "instant (ca_created_at (fst y)) = db_clock db (db_reads db)"
    "ca_source_id (fst y) = sid" "ca_action_type (fst y) = fst (resolve_action_type (act_type a))"
    by (simp_all add: y_def frame_simps record_executed_created)
  ultimately have "spaced_at cfg now (snd y)"
    using * by (auto intro: spaced_at_execute)
  then show "spaced_at cfg now (snd (snd (perform cfg now sid st m mid r a db)))"
    by (simp add: perform_db Let_def x_def[symmetric] y_def[symmetric])
next
  fix db :: control_db
  assume "spaced_at cfg now db"
  moreover have "db_reads (snd (resume_loop ss db)) = db_reads db" for ss
    by (induction ss arbitrary: db)
      (simp_all add: case_prod_unfold Let_def apply_resume_def update_source_def)
  ultimately show "spaced_at cfg now (snd (auto_resume_expired_pauses now db))"
    by (elim spaced_at_frame) (simp_all add: frame_simps auto_resume_expired_pauses_def)
next
  fix db :: control_db and sid rs p m
  assume "spaced_at cfg now db"
  then show "spaced_at cfg now (snd (record_executed_action sid PAUSED ''resume'' rs p m None None db))"
    by (rule spaced_at_execute[OF _ record_executed_frame(8)])
      (simp_all add: frame_simps record_executed_created)
next
  fix db c db'
  assume *: "spaced_at cfg now db"
    and out: "evaluate_pending_outcomes mv cfg now None None 5 db = Inr (c, db')"
  have "db_reads db' = db_reads db"
    if "outcome_loop mv now mn st w rows c0 db = Inr (c, db')" for mn st w rows c0
    using that by (induction rows arbitrary: c0 db)
      (auto simp: set_verdict_def split: sum.splits option.splits)
  then have rd: "db_reads db' = db_reads db" using out by (simp add: evaluate_pending_outcomes_def)
  from out show "spaced_at cfg now db'"
  proof (rule outcome_pass_map)
    fix f assume f: "db_ledger db' = map f (db_ledger db)"
      "\<And>r. ca_source_id (f r) = ca_source_id r" "\<And>r. ca_action_type (f r) = ca_action_type r"
      "\<And>r. ca_executed (f r) = ca_executed r" "\<And>r. ca_created_at (f r) = ca_created_at r"
    then have "apart cd (f r) (f q) = apart cd r q" for cd r q by (simp add: apart_def)
    with f have "spaced cfg db' = spaced cfg db"
      by (simp add: spaced_def filter_map comp_def sorted_wrt_map)
    with * show ?thesis
      by (simp add: spaced_at_def rd evaluate_pending_frame[OF out])
  qed
qed

definition clock_spaced :: "settings \<Rightarrow> control_db \<Rightarrow> bool" where
  "clock_spaced cfg db \<longleftrightarrow> (mono (db_clock db) \<longrightarrow> spaced cfg db)"

lemma clock_spaced_at:
  "clock_spaced cfg db \<Longrightarrow> spaced_at cfg (fst (utcnow db)) (snd (utcnow db))"
  by (auto simp: clock_spaced_def spaced_at_def spaced_def utcnow_def intro: incseq_SucD)

interpretation spacing_history: history_invariant mv cfg "clock_spaced cfg" for mv cfg
proof unfold_locales
  fix db ov collect
  assume *: "clock_spaced cfg db"
  note run = spacing.inv_cycle[OF clock_spaced_at[OF *], of mv ov collect]
  show "clock_spaced cfg (tick mv cfg ov collect db)"
  proof (cases "run_control_cycle_once mv cfg ov collect (fst (utcnow db)) (snd (utcnow db))")
    case (Inl e)
    with * show ?thesis
      by (simp add: tick_def rollback_def clock_spaced_def spaced_def Let_def case_prod_unfold
          frame_simps)
  next
    case (Inr r)
    with run show ?thesis
      by (simp add: tick_def spaced_at_def clock_spaced_def Let_def case_prod_unfold)
  qed
next
  fix db sid ob ctx md dd
  assume *: "clock_spaced cfg db"
  let ?now = "Aware (db_clock db (db_reads db))"
  from * have "spaced_at cfg ?now db" by (simp add: clock_spaced_def spaced_at_def)
  then have "spaced_at cfg ?now (snd (decide_for_source sid ob ctx md dd True db))"
    by (rule spacing.inv_decide)
  then show "clock_spaced cfg (snd (decide_for_source sid ob ctx md dd True db))"
    by (simp add: spaced_at_def clock_spaced_def)
qed (simp add: clock_spaced_def spaced_def)

text \<open>
  C3: after any history, two executions of the same action type on the same source are at least the
  cooldown apart, automatic resumes apart, provided the clock never runs backwards.
\<close>

theorem cooldown_kept:
  assumes "control_reachable mv cfg db" and "mono (db_clock db)"
  shows "sorted_wrt (\<lambda>r q. ca_source_id r = ca_source_id q \<and> ca_action_type r = ca_action_type q \<and>
      ca_action_type q \<noteq> ''resume'' \<longrightarrow>
      instant (ca_created_at r) + control_action_cooldown_seconds cfg * 1000000 \<le>
        instant (ca_created_at q)) (filter ca_executed (db_ledger db))"
proof -
  have "clock_spaced cfg db"
    using assms(1) by (rule spacing_history.hist_reachable) (simp add: clock_spaced_def spaced_def)
  with assms(2) show ?thesis by (simp add: clock_spaced_def spaced_def apart_def[abs_def])
qed

section \<open>A concrete history\<close>

text \<open>
  One source whose readings alternate between rate-limited and quiet: the first suggestion is
  recorded and judged, the second and the fourth limited reading are acted on.
\<close>

definition demo_settings :: settings where
  "demo_settings = default_settings\<lparr>control_mode := ''automatic'', control_gate_min_samples := 1,
     control_advisory_dedup_seconds := 0, control_outcome_min_age_seconds := 1,
     control_action_cooldown_seconds := 5\<rparr>"

definition demo_row :: "int \<Rightarrow> bool \<Rightarrow> measurement_row" where
  "demo_row t limited =
     fst (record_run_measurement 0 ''s'' ''r'' 5 0 0 10 None None False
       (if limited then Some ''RateLimited'' else None) None None None (Aware t) [])"

definition demo_source :: data_source where
  "demo_source = \<lparr>ds_id = ''s'', ds_name = ''n'', ds_channel_type = ''rss'', ds_channel_config = [],
     ds_write_strategy = None, ds_ai_config = None, ds_objective_override = None, ds_enabled = True, ds_review_required = False,
     ds_paused_until = None\<rparr>"

definition demo_init :: control_db where
  "demo_init = empty_db\<lparr>db_sources := [demo_source],
     db_schedules := [\<lparr>cs_id = ''c'', cs_source_id = ''s'', cs_agent_id = None, cs_cron_expression = step_cron 30,
       cs_enabled = True, cs_is_one_time = False, cs_last_run_at = None\<rparr>],
     db_clock := (\<lambda>n. int n * 10000000)\<rparr>"

definition demo_observe :: "bool \<Rightarrow> control_db \<Rightarrow> control_db" where
  "demo_observe limited db =
     db\<lparr>db_measurements := db_measurements db @ [demo_row (int (db_reads db) * 10000000) limited],
       db_reads := Suc (db_reads db)\<rparr>"

definition demo_phase :: "bool \<Rightarrow> control_db \<Rightarrow> control_db" where
  "demo_phase limited db = tick reject_all demo_settings None (\<lambda>_. None) (demo_observe limited db)"

definition demo_db :: control_db where
  "demo_db = fold demo_phase [True, False, True, False, True] demo_init"

lemma demo_reachable: "control_reachable reject_all demo_settings demo_db"
proof -
  have "control_reachable reject_all demo_settings (demo_phase limited db)"
    if "control_reachable reject_all demo_settings db" for limited db
  proof -
    have "control_step reject_all demo_settings db (demo_observe limited db)"
      by (rule step_environment) (simp_all add: demo_observe_def)
    with that have "control_reachable reject_all demo_settings (demo_observe limited db)"
      by (rule reach_step)
    then show ?thesis unfolding demo_phase_def by (rule reach_step) (rule step_tick)
  qed
  moreover have "control_reachable reject_all demo_settings demo_init"
    by (rule reach_init) (simp add: demo_init_def)
  ultimately show ?thesis by (simp add: demo_db_def)
qed

lemma demo_executions:
  "map (\<lambda>r. (ca_state r, ca_action_type r)) (filter ca_executed (db_ledger demo_db)) =
     [(''rate_limited'', ''increase_interval''), (''rate_limited'', ''increase_interval'')]"
  by code_simp

interpretation same_clock: cycle_invariant cfg ov now "\<lambda>db. db_clock db = K" mv for cfg ov now K mv
  by unfold_locales (simp_all add: frame_simps perform_db Let_def evaluate_pending_frame)

lemma tick_clock: "db_clock (tick mv cfg ov collect db) = db_clock db"
  using same_clock.inv_cycle[of "snd (utcnow db)" "db_clock db" mv cfg ov collect "fst (utcnow db)"]
  by (auto simp: tick_def rollback_def Let_def case_prod_unfold frame_simps split: sum.splits)

lemma demo_clock: "db_clock demo_db = (\<lambda>n. int n * 10000000)"
  by (simp add: demo_db_def demo_phase_def demo_observe_def demo_init_def tick_clock)

theorem possible_executions_witness:
  "\<exists>r \<in> set (db_ledger demo_db). ca_executed r \<and> ca_action_type r = ''increase_interval'' \<and>
     (ca_state r, ca_action_type r) \<in>
       {(''rate_limited'', ''increase_interval''), (''schema_drift'', ''require_review''),
        (''dead'', ''require_review''), (''degraded'', ''require_review''), (''paused'', ''resume'')}"
proof -
  have "(''rate_limited'', ''increase_interval'') \<in>
      (\<lambda>r. (ca_state r, ca_action_type r)) ` set (filter ca_executed (db_ledger demo_db))"
    unfolding set_map[symmetric] demo_executions by (rule list.set_intros(1))
  then obtain r where "r \<in> set (filter ca_executed (db_ledger demo_db))"
    "(''rate_limited'', ''increase_interval'') = (ca_state r, ca_action_type r)" by (rule imageE)
  then have r: "r \<in> set (db_ledger demo_db)" "ca_executed r" "ca_action_type r = ''increase_interval''"
    by (simp_all only: prod.inject set_filter mem_Collect_eq)
  have "1 \<le> control_gate_min_samples demo_settings" by (simp add: demo_settings_def)
  from possible_executions[OF demo_reachable this r(1,2)] r show ?thesis by blast
qed

theorem cooldown_kept_witness:
  "length (filter ca_executed (db_ledger demo_db)) = 2 \<and>
   sorted_wrt (\<lambda>r q. ca_source_id r = ca_source_id q \<and> ca_action_type r = ca_action_type q \<and>
      ca_action_type q \<noteq> ''resume'' \<longrightarrow>
      instant (ca_created_at r) + control_action_cooldown_seconds demo_settings * 1000000 \<le>
        instant (ca_created_at q)) (filter ca_executed (db_ledger demo_db))"
proof
  show "length (filter ca_executed (db_ledger demo_db)) = 2"
    using arg_cong[OF demo_executions, of length] by simp
  have "mono (db_clock demo_db)" by (simp add: demo_clock mono_def)
  from cooldown_kept[OF demo_reachable this] show "sorted_wrt (\<lambda>r q. ca_source_id r = ca_source_id q \<and>
      ca_action_type r = ca_action_type q \<and> ca_action_type q \<noteq> ''resume'' \<longrightarrow>
      instant (ca_created_at r) + control_action_cooldown_seconds demo_settings * 1000000 \<le>
        instant (ca_created_at q)) (filter ca_executed (db_ledger demo_db))" .
qed

end
