(* ===== verification/PlanGraph.thy ===== *)
theory PlanGraph
  imports CronText
begin

text \<open>
  Plan IR documents (\<open>backend/schemas/plan_ir.py\<close>), the projection of a data source onto
  its degenerate plan (\<open>backend/plan_ir/projection.py\<close>) and the neighbourhood functions
  of the executor. The \<open>min_length\<close> constraints of the schema are checked by pydantic
  when a document is parsed and are not part of the graph type.
\<close>

datatype node_kind = SourceKind | TransformKind | MergeKind | SinkKind

record plan_port =
  port_name :: string
  port_type :: string

record plan_node =
  node_id :: string
  node_kind :: node_kind
  node_type :: string
  node_label :: "string option"
  node_params :: "json dict"
  node_required_params :: "string list"
  node_inputs :: "plan_port list"
  node_outputs :: "plan_port list"
  node_source_id :: "string option"
  node_draft :: bool

record plan_edge =
  edge_id :: string
  edge_source_node :: string
  edge_source_port :: string
  edge_target_node :: string
  edge_target_port :: string

definition PLAN_IR_VERSION :: string where
  "PLAN_IR_VERSION = ''1.0.0''"

record plan_graph =
  graph_ir_version :: string
  graph_name :: "string option"
  graph_draft :: bool
  graph_nodes :: "plan_node list"
  graph_edges :: "plan_edge list"

section \<open>Projection of a source\<close>

text \<open>The four attributes of \<open>_SourceLike\<close>.\<close>

record source_like =
  sl_id :: string
  sl_name :: string
  sl_channel_type :: string
  sl_channel_config :: "json dict"

definition records_port :: plan_port where
  "records_port = \<lparr>port_name = ''records'', port_type = ''records''\<rparr>"

definition project_source_to_plan :: "source_like \<Rightarrow> plan_graph" where
  "project_source_to_plan source =
     (let source_node_id = ''source:'' @ sl_id source;
          sink_node_id = ''sink:'' @ sl_id source;
          source_node =
            \<lparr>node_id = source_node_id, node_kind = SourceKind,
             node_type = sl_channel_type source @ ''_source'', node_label = Some (sl_name source),
             node_params = dict_update [(''channel_type'', JStr (sl_channel_type source))]
               (sl_channel_config source),
             node_required_params = [], node_inputs = [], node_outputs = [records_port],
             node_source_id = Some (sl_id source), node_draft = False\<rparr>;
          sink_node =
            \<lparr>node_id = sink_node_id, node_kind = SinkKind, node_type = ''collection_store'',
             node_label = Some (sl_name source @ '' (collection store)''), node_params = [],
             node_required_params = [], node_inputs = [records_port], node_outputs = [],
             node_source_id = None, node_draft = False\<rparr>;
          edge =
            \<lparr>edge_id = ''edge:'' @ sl_id source, edge_source_node = source_node_id,
             edge_source_port = ''records'', edge_target_node = sink_node_id,
             edge_target_port = ''records''\<rparr>
      in \<lparr>graph_ir_version = PLAN_IR_VERSION,
          graph_name = Some (sl_name source @ '' (degenerate)''), graph_draft = True,
          graph_nodes = [source_node, sink_node], graph_edges = [edge]\<rparr>)"

section \<open>Neighbourhoods\<close>

definition nodes_by_id :: "plan_graph \<Rightarrow> string \<Rightarrow> plan_node option" where
  "nodes_by_id graph = index_by node_id (graph_nodes graph)"

definition source_nodes :: "plan_graph \<Rightarrow> plan_node list" where
  "source_nodes graph = filter (\<lambda>n. node_kind n = SourceKind) (graph_nodes graph)"

definition downstream_of :: "plan_graph \<Rightarrow> string \<Rightarrow> string list" where
  "downstream_of graph nid =
     map edge_target_node (filter (\<lambda>e. edge_source_node e = nid) (graph_edges graph))"

definition upstream_of :: "plan_graph \<Rightarrow> string \<Rightarrow> string list" where
  "upstream_of graph nid =
     map edge_source_node (filter (\<lambda>e. edge_target_node e = nid) (graph_edges graph))"

lemma downstream_of_iff:
  "y \<in> set (downstream_of graph x) \<longleftrightarrow>
     (\<exists>e \<in> set (graph_edges graph). edge_source_node e = x \<and> edge_target_node e = y)"
  by (auto simp: downstream_of_def)

lemma upstream_downstream: "x \<in> set (upstream_of graph y) \<longleftrightarrow> y \<in> set (downstream_of graph x)"
  by (auto simp: downstream_of_def upstream_of_def)

lemma count_upstream_downstream:
  "count_list (downstream_of graph x) y = count_list (upstream_of graph y) x"
proof -
  have "count_list (map edge_target_node (filter (\<lambda>e. edge_source_node e = x) es)) y =
      count_list (map edge_source_node (filter (\<lambda>e. edge_target_node e = y) es)) x" for es
    by (induction es) auto
  then show ?thesis by (simp add: downstream_of_def upstream_of_def)
qed

lemma finite_with_successors: "finite {x. downstream_of graph x \<noteq> []}"
proof -
  have "{x. downstream_of graph x \<noteq> []} \<subseteq> edge_source_node ` set (graph_edges graph)"
    by (auto simp: downstream_of_def filter_empty_conv)
  then show ?thesis by (rule finite_subset) simp
qed

end
