(* ===== verification/PlanValidation.thy ===== *)
theory PlanValidation
  imports PlanGraph
begin

text \<open>
  The structural validator (\<open>backend/plan_ir/validation.py\<close>) and the version-pin check it
  calls (\<open>backend/workflow/tool_capabilities.py\<close>). The registry of tool capabilities and
  pydantic's parsing of a version pin are parameters. An error keeps its code and its anchors;
  the English message is not modelled.
\<close>

section \<open>Version pins\<close>

record version_pin =
  pin_package :: string
  pin_packageVersion :: string
  pin_capabilityVersion :: string
  pin_provenance :: string

text \<open>
  \<open>registry tool_id\<close> is \<open>None\<close> for an unknown tool and \<open>Some (versionPin)\<close> for an
  installed one; \<open>parse_pin\<close> is \<open>WorkflowCapabilityVersionPin.model_validate\<close>, with
  \<open>None\<close> for a \<open>ValidationError\<close>.
\<close>

type_synonym tool_registry = "string \<Rightarrow> version_pin option option"
type_synonym pin_parser = "json dict \<Rightarrow> version_pin option"

definition ALLOWED_AUTHORITATIVE_PROVENANCE :: "json list" where
  "ALLOWED_AUTHORITATIVE_PROVENANCE = [JStr ''built-in'', JStr ''verified'']"

definition validate_version_pin ::
  "tool_registry \<Rightarrow> pin_parser \<Rightarrow> string \<Rightarrow> json option \<Rightarrow> bool \<Rightarrow> string option"
where
  "validate_version_pin registry parse_pin tool_id version_pin require_pin =
     (let tool = registry tool_id;
          absent = (version_pin = None \<or> version_pin = Some JNull)
      in if tool = Some None then None
         else if tool \<noteq> None \<and> absent \<and> \<not> require_pin then None
         else case tool of
             None \<Rightarrow> Some ''unknown_tool_capability''
           | Some expected \<Rightarrow>
               (case version_pin of
                  Some (JObj d) \<Rightarrow>
                    if \<not> (case dict_get d ''provenance'' of None \<Rightarrow> False
                          | Some p \<Rightarrow> List.member ALLOWED_AUTHORITATIVE_PROVENANCE p)
                      then Some ''disallowed_tool_capability_provenance''
                    else (case parse_pin d of
                        None \<Rightarrow> Some ''invalid_tool_capability_version_pin''
                      | Some submitted \<Rightarrow>
                          if Some submitted \<noteq> expected
                            then Some ''tool_capability_version_pin_mismatch''
                          else None)
                | _ \<Rightarrow> Some ''unpinned_tool_capability''))"

section \<open>The checks\<close>

record plan_validation_error =
  ve_code :: string
  ve_node_id :: "string option"
  ve_edge_id :: "string option"

definition node_error :: "string \<Rightarrow> string \<Rightarrow> plan_validation_error" where
  "node_error code nid = \<lparr>ve_code = code, ve_node_id = Some nid, ve_edge_id = None\<rparr>"

definition edge_error :: "string \<Rightarrow> string option \<Rightarrow> string \<Rightarrow> plan_validation_error" where
  "edge_error code nid eid = \<lparr>ve_code = code, ve_node_id = nid, ve_edge_id = Some eid\<rparr>"

definition check_node_pin ::
  "tool_registry \<Rightarrow> pin_parser \<Rightarrow> bool \<Rightarrow> plan_node \<Rightarrow> plan_validation_error list"
where
  "check_node_pin registry parse_pin require_pin node =
     (case dict_get (node_params node) ''toolCapability'' of
        Some (JObj tool_capability) \<Rightarrow>
          (case dict_get tool_capability ''id'' of
             Some (JStr tool_id) \<Rightarrow>
               if strip tool_id = [] then []
               else
                 let issue = validate_version_pin registry parse_pin (strip tool_id)
                       (dict_get tool_capability ''versionPin'') require_pin
                 in if issue = Some ''unknown_tool_capability'' \<and> \<not> require_pin \<and>
                       (case dict_get (node_params node) ''externalWorkflow'' of
                          Some (JObj _) \<Rightarrow> True | _ \<Rightarrow> False)
                    then []
                    else (case issue of None \<Rightarrow> [] | Some code \<Rightarrow> [node_error code (node_id node)])
           | _ \<Rightarrow> [])
      | _ \<Rightarrow> [])"

definition check_capability_version_pins ::
  "tool_registry \<Rightarrow> pin_parser \<Rightarrow> bool \<Rightarrow> plan_graph \<Rightarrow> plan_validation_error list"
where
  "check_capability_version_pins registry parse_pin require_pin plan =
     concat (map (check_node_pin registry parse_pin require_pin) (graph_nodes plan))"

fun duplicate_errors :: "string set \<Rightarrow> plan_node list \<Rightarrow> plan_validation_error list" where
  "duplicate_errors seen [] = []"
| "duplicate_errors seen (n # ns) =
     (if node_id n \<in> seen then [node_error ''duplicate_node_id'' (node_id n)] else []) @
     duplicate_errors (insert (node_id n) seen) ns"

definition check_duplicate_node_ids :: "plan_graph \<Rightarrow> plan_validation_error list" where
  "check_duplicate_node_ids plan = duplicate_errors {} (graph_nodes plan)"

definition entity_ref_errors :: "plan_node \<Rightarrow> plan_validation_error list" where
  "entity_ref_errors n =
     (if node_kind n = SourceKind
      then
        let has_ref = (node_source_id n \<noteq> None)
        in if has_ref \<and> node_draft n
             then [node_error ''source_node_ambiguous_reference'' (node_id n)]
           else if \<not> has_ref \<and> \<not> node_draft n
             then [node_error ''source_node_missing_reference'' (node_id n)]
           else []
      else if node_source_id n \<noteq> None \<or> node_draft n
        then [node_error ''entity_reference_on_non_source_node'' (node_id n)]
      else [])"

definition check_source_node_entity_refs :: "plan_graph \<Rightarrow> plan_validation_error list" where
  "check_source_node_entity_refs plan = concat (map entity_ref_errors (graph_nodes plan))"

definition dangling_errors ::
  "(string \<Rightarrow> plan_node option) \<Rightarrow> plan_edge \<Rightarrow> plan_validation_error list"
where
  "dangling_errors by_id e =
     (case by_id (edge_source_node e) of
        None \<Rightarrow> [edge_error ''dangling_edge_source'' None (edge_id e)]
      | Some src \<Rightarrow>
          if edge_source_port e \<notin> port_name ` set (node_outputs src)
          then [edge_error ''unknown_source_port'' (Some (edge_source_node e)) (edge_id e)] else []) @
     (case by_id (edge_target_node e) of
        None \<Rightarrow> [edge_error ''dangling_edge_target'' None (edge_id e)]
      | Some tgt \<Rightarrow>
          if edge_target_port e \<notin> port_name ` set (node_inputs tgt)
          then [edge_error ''unknown_target_port'' (Some (edge_target_node e)) (edge_id e)] else [])"

definition check_dangling_edges :: "plan_graph \<Rightarrow> plan_validation_error list" where
  "check_dangling_edges plan = concat (map (dangling_errors (nodes_by_id plan)) (graph_edges plan))"

definition param_absent :: "json dict \<Rightarrow> string \<Rightarrow> bool" where
  "param_absent params name \<longleftrightarrow> dict_get params name \<in> {None, Some JNull}"

definition check_missing_required_params :: "plan_graph \<Rightarrow> plan_validation_error list" where
  "check_missing_required_params plan =
     concat (map (\<lambda>n. map (\<lambda>name. node_error ''missing_required_param'' (node_id n))
       (filter (param_absent (node_params n)) (node_required_params n))) (graph_nodes plan))"

definition incoming_count :: "plan_graph \<Rightarrow> string \<Rightarrow> nat" where
  "incoming_count plan nid = length (filter (\<lambda>e. edge_target_node e = nid) (graph_edges plan))"

definition check_orphan_merges :: "plan_graph \<Rightarrow> plan_validation_error list" where
  "check_orphan_merges plan =
     (if graph_draft plan then []
      else map (\<lambda>n. node_error ''orphan_merge'' (node_id n))
        (filter (\<lambda>n. node_kind n = MergeKind \<and> incoming_count plan (node_id n) < 2)
          (graph_nodes plan)))"

definition types_match :: "string \<Rightarrow> string \<Rightarrow> bool" where
  "types_match a b \<longleftrightarrow> a = b \<or> {''any'', ''unknown''} \<inter> {a, b} \<noteq> {}"

definition port_type_errors ::
  "(string \<Rightarrow> plan_node option) \<Rightarrow> plan_edge \<Rightarrow> plan_validation_error list"
where
  "port_type_errors by_id e =
     (case (by_id (edge_source_node e), by_id (edge_target_node e)) of
        (Some src, Some tgt) \<Rightarrow>
          (case (find (\<lambda>p. port_name p = edge_source_port e) (node_outputs src),
                 find (\<lambda>p. port_name p = edge_target_port e) (node_inputs tgt)) of
             (Some src_port, Some tgt_port) \<Rightarrow>
               if \<not> types_match (port_type src_port) (port_type tgt_port)
               then [edge_error ''port_type_mismatch'' (Some (edge_target_node e)) (edge_id e)]
               else []
           | _ \<Rightarrow> [])
      | _ \<Rightarrow> [])"

definition check_port_type_mismatches :: "plan_graph \<Rightarrow> plan_validation_error list" where
  "check_port_type_mismatches plan =
     concat (map (port_type_errors (nodes_by_id plan)) (graph_edges plan))"

end
