(* ===== verification/PlanCycles.thy ===== *)
theory PlanCycles
  imports PlanValidation
begin

text \<open>
  The cycle check of the validator: a depth-first search with three colours whose back edges
  put the nodes of the current path, from the target on, on a cycle. The nested function
  \<open>visit\<close> mutates the dictionary of colours and the set of cyclic nodes; both are passed
  along here. The search is \<open>visit_all\<close>, the loop over the successors of a node.
\<close>

section \<open>The search\<close>

datatype colour = White | Gray | Black

type_synonym colours = "(string \<times> colour) list"

definition adjacency :: "plan_graph \<Rightarrow> string \<Rightarrow> string list" where
  "adjacency plan x =
     (if x \<in> node_id ` set (graph_nodes plan)
      then filter (\<lambda>t. nodes_by_id plan t \<noteq> None) (downstream_of plan x) else [])"

definition from_index :: "string list \<Rightarrow> string \<Rightarrow> string list" where
  "from_index stack x = dropWhile (\<lambda>y. y \<noteq> x) stack"

function visit_all ::
  "(string \<Rightarrow> string list) \<Rightarrow> string list \<Rightarrow> string list \<Rightarrow> colours \<times> string set \<Rightarrow>
   colours \<times> string set"
where
  "visit_all adj [] stack st = st"
| "visit_all adj (nxt # rest) stack st =
     (case map_of (fst st) nxt of
        Some Gray \<Rightarrow>
          visit_all adj rest stack (fst st, snd st \<union> set (from_index stack nxt))
      | Some White \<Rightarrow>
          let st1 = visit_all adj (adj nxt) (stack @ [nxt]) (dict_set (fst st) nxt Gray, snd st)
          in visit_all adj rest stack (dict_set (fst st1) nxt Black, snd st1)
      | _ \<Rightarrow> visit_all adj rest stack st)"
  by pat_completeness auto

definition whites :: "colours \<Rightarrow> nat" where
  "whites c = length (filter (\<lambda>p. snd p = White) c)"

lemma whites_set_Gray: "map_of c x = Some White \<Longrightarrow> whites (dict_set c x Gray) < whites c"
  by (induction c x Gray rule: dict_set.induct) (auto simp: whites_def split: if_splits)

lemma whites_set_Black: "whites (dict_set c x Black) \<le> whites c"
  by (induction c x Black rule: dict_set.induct) (auto simp: whites_def)

lemma visit_all_whites:
  "visit_all_dom (adj, ns, stack, st) \<Longrightarrow> whites (fst (visit_all adj ns stack st)) \<le> whites (fst st)"
proof (induction adj ns stack st rule: visit_all.pinduct)
  case (1 adj stack st)
  then show ?case by (simp add: visit_all.psimps)
next
  case (2 adj nxt rest stack st)
  show ?case
  proof (cases "map_of (fst st) nxt")
    case None
    with 2 show ?thesis by (simp add: visit_all.psimps)
  next
    case (Some c)
    show ?thesis
    proof (cases c)
      case White
      let ?st1 = "visit_all adj (adj nxt) (stack @ [nxt]) (dict_set (fst st) nxt Gray, snd st)"
      have "whites (fst (visit_all adj rest stack (dict_set (fst ?st1) nxt Black, snd ?st1))) \<le>
          whites (dict_set (fst ?st1) nxt Black)"
        using 2 Some White by simp
      also have "\<dots> \<le> whites (fst ?st1)" by (rule whites_set_Black)
      also have "\<dots> \<le> whites (dict_set (fst st) nxt Gray)" using 2 Some White by simp
      also have "\<dots> \<le> whites (fst st)" using whites_set_Gray Some White by (simp add: less_imp_le)
      finally show ?thesis using 2 Some White by (simp add: visit_all.psimps Let_def)
    qed (use 2 Some in \<open>simp_all add: visit_all.psimps\<close>)
  qed
qed

termination visit_all
proof (relation "measures [\<lambda>(adj, ns, stack, st). whites (fst st), \<lambda>(adj, ns, stack, st). length ns]",
    goal_cases)
  case (4 adj nxt rest stack st c st1)
  have "whites (dict_set (fst st1) nxt Black) \<le> whites (fst st1)" by (rule whites_set_Black)
  also have "\<dots> \<le> whites (dict_set (fst st) nxt Gray)"
    using visit_all_whites[OF 4(4)] 4(3) by simp
  also have "\<dots> < whites (fst st)" using whites_set_Gray 4 by simp
  finally show ?case by simp
qed (auto simp: whites_set_Gray)

definition visit ::
  "(string \<Rightarrow> string list) \<Rightarrow> string \<Rightarrow> string list \<Rightarrow> colours \<times> string set \<Rightarrow> colours \<times> string set"
where
  "visit adj nid stack st =
     (let st1 = visit_all adj (adj nid) (stack @ [nid]) (dict_set (fst st) nid Gray, snd st)
      in (dict_set (fst st1) nid Black, snd st1))"

fun visit_roots ::
  "(string \<Rightarrow> string list) \<Rightarrow> string list \<Rightarrow> colours \<times> string set \<Rightarrow> colours \<times> string set"
where
  "visit_roots adj [] st = st"
| "visit_roots adj (n # ns) st =
     visit_roots adj ns (if map_of (fst st) n = Some White then visit adj n [] st else st)"

definition cyclic_nodes :: "plan_graph \<Rightarrow> string set" where
  "cyclic_nodes plan =
     (let ids = map node_id (graph_nodes plan)
      in snd (visit_roots (adjacency plan) ids (map (\<lambda>i. (i, White)) ids, {})))"

definition check_cycles :: "plan_graph \<Rightarrow> plan_validation_error list" where
  "check_cycles plan = map (node_error ''cycle'') (sorted_list_of_set (cyclic_nodes plan))"

section \<open>Colours\<close>

definition with_colour :: "colour \<Rightarrow> colours \<Rightarrow> string set" where
  "with_colour k c = {x. map_of c x = Some k}"

definition edges_of :: "(string \<Rightarrow> string list) \<Rightarrow> (string \<times> string) set" where
  "edges_of adj = {(x, y). y \<in> set (adj x)}"

lemma with_colour_set:
  "with_colour k (dict_set c x k') =
     (if k = k' then insert x (with_colour k c) else with_colour k c - {x})"
  by (auto simp: with_colour_def)

definition keys :: "colours \<Rightarrow> string set" where
  "keys c = fst ` set c"

lemma keys_set [simp]: "keys (dict_set c x k) = insert x (keys c)"
  by (induction c x k rule: dict_set.induct) (auto simp: keys_def)

lemma keys_map_of: "x \<in> keys c \<longleftrightarrow> (\<exists>k. map_of c x = Some k)"
  by (metis keys_def domD domI dom_map_of_conv_image_fst)

lemma visit_all_frame:
  "with_colour Gray (fst (visit_all adj ns stack st)) = with_colour Gray (fst st) \<and>
   with_colour Black (fst st) \<subseteq> with_colour Black (fst (visit_all adj ns stack st)) \<and>
   keys (fst (visit_all adj ns stack st)) = keys (fst st) \<and>
   snd st \<subseteq> snd (visit_all adj ns stack st)"
proof (induction adj ns stack st rule: visit_all.induct)
  case (2 adj nxt rest stack st)
  show ?case
  proof (cases "map_of (fst st) nxt")
    case (Some c)
    show ?thesis
    proof (cases c)
      case White
      let ?st1 = "visit_all adj (adj nxt) (stack @ [nxt]) (dict_set (fst st) nxt Gray, snd st)"
      let ?st2 = "(dict_set (fst ?st1) nxt Black, snd ?st1)"
      have g: "nxt \<notin> with_colour Gray (fst st)" "nxt \<notin> with_colour Black (fst st)"
        "nxt \<in> keys (fst st)"
        using Some White by (auto simp: with_colour_def keys_map_of)
      note ih1 = "2.IH"(2)[OF Some White, simplified]
      note ih2 = "2.IH"(3)[OF Some White refl, simplified]
      have r: "visit_all adj (nxt # rest) stack st = visit_all adj rest stack ?st2"
        using Some White by (simp add: Let_def)
      show ?thesis
        unfolding r using ih1 ih2 g by (auto simp: with_colour_set)
    qed (use 2 Some in auto)
  qed (use 2 in simp)
qed simp

section \<open>Completeness\<close>

text \<open>A set of finished nodes: closed under successors, and without a cycle.\<close>

definition finished :: "(string \<Rightarrow> string list) \<Rightarrow> string set \<Rightarrow> bool" where
  "finished adj B \<longleftrightarrow>
     (\<forall>x \<in> B. set (adj x) \<subseteq> B) \<and> acyclic {(x, y). x \<in> B \<and> y \<in> set (adj x)}"

lemma finished_insert:
  assumes "finished adj B" and "set (adj n) \<subseteq> B" and "n \<notin> B"
  shows "finished adj (insert n B)"
proof -
  let ?R = "{(x, y). x \<in> B \<and> y \<in> set (adj x)}"
  let ?S = "{(x, y). x \<in> insert n B \<and> y \<in> set (adj x)}"
  have closed: "x \<in> B \<Longrightarrow> set (adj x) \<subseteq> B" for x using assms(1) by (simp add: finished_def)
  have target: "(a, b) \<in> ?S\<^sup>+ \<Longrightarrow> b \<in> B" for a b
    by (induction rule: trancl_induct) (use assms(2) closed in auto)
  have inner: "(a, b) \<in> ?S\<^sup>+ \<Longrightarrow> a \<in> B \<Longrightarrow> (a, b) \<in> ?R\<^sup>+" for a b
  proof (induction rule: trancl_induct)
    case (base b)
    then show ?case by auto
  next
    case (step b c)
    then have "b \<in> B" using target by blast
    with step.hyps(2) have "(b, c) \<in> ?R" by simp
    with step.IH[OF step.prems] show ?case by (rule trancl_into_trancl)
  qed
  have "acyclic ?S"
  proof (rule acyclicI, intro allI notI)
    fix x assume "(x, x) \<in> ?S\<^sup>+"
    with target inner have "(x, x) \<in> ?R\<^sup>+" by blast
    with assms(1) show False by (auto simp: finished_def acyclic_def)
  qed
  with assms(2) closed show ?thesis by (auto simp: finished_def)
qed

lemma visit_all_complete:
  assumes "set ns \<subseteq> keys (fst st)" and "\<And>x. set (adj x) \<subseteq> keys (fst st)"
    and "with_colour Gray (fst st) = set stack" and "finished adj (with_colour Black (fst st))"
    and "snd (visit_all adj ns stack st) = {}"
  shows "finished adj (with_colour Black (fst (visit_all adj ns stack st))) \<and>
    set ns \<subseteq> with_colour Black (fst (visit_all adj ns stack st))"
  using assms
proof (induction adj ns stack st rule: visit_all.induct)
  case (1 adj stack st)
  then show ?case by simp
next
  case (2 adj nxt rest stack st)
  from "2.prems"(1) obtain c where c: "map_of (fst st) nxt = Some c" by (auto simp: keys_map_of)
  show ?case
  proof (cases c)
    case White
    let ?st0 = "(dict_set (fst st) nxt Gray, snd st)"
    let ?st1 = "visit_all adj (adj nxt) (stack @ [nxt]) ?st0"
    let ?st2 = "(dict_set (fst ?st1) nxt Black, snd ?st1)"
    have r: "visit_all adj (nxt # rest) stack st = visit_all adj rest stack ?st2"
      using c White by (simp add: Let_def)
    note f1 = visit_all_frame[of adj "adj nxt" "stack @ [nxt]" ?st0]
    note f2 = visit_all_frame[of adj rest stack ?st2]
    have dom: "keys (dict_set (fst st) nxt Gray) = keys (fst st)" using c by (auto simp: keys_map_of)
    have clean: "snd ?st1 = {}" using f2 "2.prems"(5) unfolding r by auto
    have notin: "nxt \<notin> with_colour Black (fst st)" "nxt \<notin> with_colour Gray (fst st)"
      using c White by (auto simp: with_colour_def)
    have ih1: "finished adj (with_colour Black (fst ?st1)) \<and> set (adj nxt) \<subseteq> with_colour Black (fst ?st1)"
      using "2.IH"(2)[OF c White] "2.prems" dom clean notin
      by (simp add: with_colour_set)
    have "nxt \<in> with_colour Gray (fst ?st1)" using f1 by (simp add: with_colour_set)
    then have "nxt \<notin> with_colour Black (fst ?st1)" by (simp add: with_colour_def)
    then have fin: "finished adj (with_colour Black (fst ?st2))"
      using ih1 by (simp add: with_colour_set finished_insert)
    have gray: "with_colour Gray (fst ?st2) = set stack"
      using f1 notin "2.prems"(3) by (auto simp: with_colour_set)
    have "keys (fst ?st2) = keys (fst st)" using f1 dom by auto
    then have "finished adj (with_colour Black (fst (visit_all adj rest stack ?st2))) \<and>
        set rest \<subseteq> with_colour Black (fst (visit_all adj rest stack ?st2))"
      using "2.IH"(3)[OF c White refl] "2.prems" fin gray unfolding r by simp
    moreover have "nxt \<in> with_colour Black (fst (visit_all adj rest stack ?st2))"
      using f2 by (auto simp: with_colour_set)
    ultimately show ?thesis unfolding r by simp
  next
    case Gray
    then have "nxt \<in> set stack" using c "2.prems"(3) by (auto simp: with_colour_def)
    then have "from_index stack nxt \<noteq> []" by (auto simp: from_index_def dropWhile_eq_Nil_conv)
    then have False
      using "2.prems"(5) c Gray visit_all_frame[of adj rest stack "(fst st, snd st \<union> set (from_index stack nxt))"]
      by auto
    then show ?thesis ..
  next
    case Black
    then have "nxt \<in> with_colour Black (fst st)" using c by (simp add: with_colour_def)
    with Black c "2.IH"(5)[OF c Black] "2.prems" visit_all_frame[of adj rest stack st] show ?thesis by auto
  qed
qed

section \<open>Soundness\<close>

definition walk :: "(string \<Rightarrow> string list) \<Rightarrow> string list \<Rightarrow> bool" where
  "walk adj = successively (\<lambda>x y. y \<in> set (adj x))"

lemma walk_from_first: "walk adj (y # ys) \<Longrightarrow> x \<in> set (y # ys) \<Longrightarrow> (y, x) \<in> (edges_of adj)\<^sup>*"
proof (induction ys arbitrary: y)
  case (Cons z zs)
  then have "(y, z) \<in> edges_of adj" "walk adj (z # zs)" by (auto simp: walk_def edges_of_def)
  with Cons show ?case by (auto intro: converse_rtrancl_into_rtrancl)
qed auto

lemma walk_to_last: "walk adj xs \<Longrightarrow> x \<in> set xs \<Longrightarrow> (x, last xs) \<in> (edges_of adj)\<^sup>*"
proof (induction xs)
  case (Cons y ys)
  then show ?case
  proof (cases "x = y")
    case True
    with Cons.prems show ?thesis using walk_from_first[of adj y ys "last (y # ys)"] by simp
  next
    case False
    with Cons have "ys \<noteq> []" "walk adj ys" by (cases ys; auto simp: walk_def)+
    with Cons False show ?thesis by simp
  qed
qed simp

lemma from_index_suffix:
  assumes "x \<in> set stack"
  obtains ys where "from_index stack x = x # ys" "suffix (x # ys) stack"
proof -
  have "from_index stack x \<noteq> []" using assms by (auto simp: from_index_def dropWhile_eq_Nil_conv)
  then have "from_index stack x = x # tl (from_index stack x)"
    unfolding from_index_def using hd_dropWhile[of "\<lambda>y. y \<noteq> x" stack] by (metis (full_types) list.collapse)
  moreover have "suffix (from_index stack x) stack" unfolding from_index_def by (rule suffix_dropWhile)
  ultimately show thesis using that by metis
qed

lemma walk_suffix: "walk adj stack \<Longrightarrow> suffix xs stack \<Longrightarrow> walk adj xs"
  by (auto simp: walk_def suffix_def successively_append_iff)

lemma back_edge_on_cycle:
  assumes "walk adj stack" and "x \<in> set stack" and "x \<in> set (adj (last stack))"
    and "z \<in> set (from_index stack x)"
  shows "(z, z) \<in> (edges_of adj)\<^sup>+"
proof -
  obtain ys where ys: "from_index stack x = x # ys" "suffix (x # ys) stack"
    using from_index_suffix[OF assms(2)] .
  have w: "walk adj (x # ys)" by (rule walk_suffix[OF assms(1) ys(2)])
  have l: "last (x # ys) = last stack" using ys(2) by (auto simp: suffix_def)
  have "(z, last stack) \<in> (edges_of adj)\<^sup>*"
    using walk_to_last[OF w, of z] assms(4) unfolding l ys(1) .
  moreover have "(last stack, x) \<in> edges_of adj" using assms(3) by (simp add: edges_of_def)
  moreover have "(x, z) \<in> (edges_of adj)\<^sup>*"
    using walk_from_first[OF w] assms(4) by (simp add: ys(1))
  ultimately show ?thesis by (meson rtrancl_into_trancl1 trancl_rtrancl_trancl)
qed

lemma visit_all_sound:
  assumes "walk adj stack" and "with_colour Gray (fst st) = set stack"
    and "stack \<noteq> [] \<Longrightarrow> set ns \<subseteq> set (adj (last stack))"
  shows "snd (visit_all adj ns stack st) \<subseteq> snd st \<union> {x. (x, x) \<in> (edges_of adj)\<^sup>+}"
  using assms
proof (induction adj ns stack st rule: visit_all.induct)
  case (1 adj stack st)
  then show ?case by simp
next
  case (2 adj nxt rest stack st)
  show ?case
  proof (cases "map_of (fst st) nxt")
    case None
    with "2.IH"(1) "2.prems" show ?thesis by simp
  next
    case (Some c)
    show ?thesis
    proof (cases c)
      case White
      let ?st0 = "(dict_set (fst st) nxt Gray, snd st)"
      let ?st1 = "visit_all adj (adj nxt) (stack @ [nxt]) ?st0"
      have notin: "nxt \<notin> with_colour Gray (fst st)" using Some White by (auto simp: with_colour_def)
      have "walk adj (stack @ [nxt])"
        using "2.prems"(1,3) by (auto simp: walk_def successively_append_iff)
      then have one: "snd ?st1 \<subseteq> snd st \<union> {x. (x, x) \<in> (edges_of adj)\<^sup>+}"
        using "2.IH"(2)[OF Some White] "2.prems"(2) by (simp add: with_colour_set)
      have "with_colour Gray (dict_set (fst ?st1) nxt Black) = set stack"
        using visit_all_frame[of adj "adj nxt" "stack @ [nxt]" ?st0] notin "2.prems"(2)
        by (auto simp: with_colour_set)
      then have "snd (visit_all adj rest stack (dict_set (fst ?st1) nxt Black, snd ?st1)) \<subseteq>
          snd ?st1 \<union> {x. (x, x) \<in> (edges_of adj)\<^sup>+}"
        using "2.IH"(3)[OF Some White refl] "2.prems"(1,3) by simp
      with one show ?thesis using Some White by (auto simp: Let_def)
    next
      case Gray
      then have "nxt \<in> set stack" using Some "2.prems"(2) by (auto simp: with_colour_def)
      then have "stack \<noteq> []" by auto
      then have "nxt \<in> set (adj (last stack))" using "2.prems"(3) by simp
      with \<open>nxt \<in> set stack\<close> have "set (from_index stack nxt) \<subseteq> {x. (x, x) \<in> (edges_of adj)\<^sup>+}"
        using back_edge_on_cycle[OF "2.prems"(1)] by blast
      with Gray Some "2.IH"(4)[OF Some Gray] "2.prems" show ?thesis by auto
    next
      case Black
      with Some "2.IH"(5)[OF Some Black] "2.prems" show ?thesis by simp
    qed
  qed
qed

section \<open>The check\<close>

lemma visit_roots_visit_all:
  "with_colour Gray (fst st) = {} \<Longrightarrow> visit_roots adj ns st = visit_all adj ns [] st"
proof (induction ns arbitrary: st)
  case (Cons n ns)
  show ?case
  proof (cases "map_of (fst st) n")
    case None
    with Cons show ?thesis by simp
  next
    case (Some c)
    show ?thesis
    proof (cases c)
      case White
      have "with_colour Gray (fst (visit adj n [] st)) = {}"
        using visit_all_frame[of adj "adj n" "[n]" "(dict_set (fst st) n Gray, snd st)"] Cons.prems
        by (simp add: visit_def Let_def with_colour_set)
      with Cons.IH Some White show ?thesis by (simp add: visit_def Let_def)
    next
      case Gray
      with Some Cons.prems show ?thesis by (auto simp: with_colour_def)
    next
      case Black
      with Some Cons show ?thesis by simp
    qed
  qed
qed simp

lemma adjacency_iff:
  "y \<in> set (adjacency plan x) \<longleftrightarrow> x \<in> node_id ` set (graph_nodes plan) \<and>
     y \<in> node_id ` set (graph_nodes plan) \<and> y \<in> set (downstream_of plan x)"
proof -
  have "(nodes_by_id plan y \<noteq> None) = (y \<in> node_id ` set (graph_nodes plan))"
    by (simp only: nodes_by_id_def index_by_None not_not)
  then show ?thesis
    by (cases "x \<in> node_id ` set (graph_nodes plan)") (auto simp: adjacency_def simp del: not_None_eq)
qed

lemma adjacency_keys: "set (adjacency plan x) \<subseteq> node_id ` set (graph_nodes plan)"
  unfolding subset_iff adjacency_iff by blast

lemma initial_colours:
  "keys (map (\<lambda>i. (i, White)) ids) = set ids"
  "with_colour Gray (map (\<lambda>i. (i, White)) ids) = {}"
  "with_colour Black (map (\<lambda>i. (i, White)) ids) = {}"
  by (force simp: keys_def with_colour_def dest: map_of_SomeD)+

lemma cyclic_nodes_visit_all:
  "cyclic_nodes plan = snd (visit_all (adjacency plan) (map node_id (graph_nodes plan)) []
     (map (\<lambda>i. (i, White)) (map node_id (graph_nodes plan)), {}))"
  by (simp only: cyclic_nodes_def Let_def visit_roots_visit_all initial_colours fst_conv)

lemma cyclic_nodes_sound: "x \<in> cyclic_nodes plan \<Longrightarrow> (x, x) \<in> (edges_of (adjacency plan))\<^sup>+"
  unfolding cyclic_nodes_visit_all
  using visit_all_sound[of "adjacency plan" "[]" "(map (\<lambda>i. (i, White)) (map node_id (graph_nodes plan)), {})"
      "map node_id (graph_nodes plan)"]
  by (auto simp: initial_colours walk_def simp del: map_map)

lemma cyclic_nodes_complete:
  assumes "cyclic_nodes plan = {}"
  shows "acyclic (edges_of (adjacency plan))"
proof -
  let ?ids = "map node_id (graph_nodes plan)"
  let ?st = "(map (\<lambda>i. (i, White)) ?ids, {}) :: colours \<times> string set"
  have "finished (adjacency plan) (with_colour Black (fst (visit_all (adjacency plan) ?ids [] ?st))) \<and>
      set ?ids \<subseteq> with_colour Black (fst (visit_all (adjacency plan) ?ids [] ?st))"
  proof (rule visit_all_complete)
    show "set ?ids \<subseteq> keys (fst ?st)" by (simp only: fst_conv initial_colours subset_refl)
    show "set (adjacency plan x) \<subseteq> keys (fst ?st)" for x
      using adjacency_keys[of plan x] by (simp only: fst_conv initial_colours set_map)
    show "with_colour Gray (fst ?st) = set []" by (simp only: fst_conv initial_colours list.set)
    show "finished (adjacency plan) (with_colour Black (fst ?st))"
      by (simp only: fst_conv initial_colours) (simp add: finished_def acyclic_def)
    show "snd (visit_all (adjacency plan) ?ids [] ?st) = {}"
      using assms unfolding cyclic_nodes_visit_all .
  qed
  then obtain B where B: "finished (adjacency plan) B" "set ?ids \<subseteq> B" by blast
  have "edges_of (adjacency plan) \<subseteq> {(x, y). x \<in> B \<and> y \<in> set (adjacency plan x)}"
    using B(2) by (auto simp: edges_of_def adjacency_def split: if_splits)
  moreover have "acyclic {(x, y). x \<in> B \<and> y \<in> set (adjacency plan x)}"
    using B(1) by (simp add: finished_def)
  ultimately show ?thesis by (rule acyclic_subset[rotated])
qed

lemma finite_cyclic_nodes: "finite (cyclic_nodes plan)"
proof (rule finite_subset)
  show "cyclic_nodes plan \<subseteq> edge_source_node ` set (graph_edges plan)"
  proof
    fix x assume "x \<in> cyclic_nodes plan"
    then have "(x, x) \<in> (edges_of (adjacency plan))\<^sup>+" by (rule cyclic_nodes_sound)
    then obtain y where "y \<in> set (adjacency plan x)" by (cases rule: converse_tranclE) (auto simp: edges_of_def)
    then show "x \<in> edge_source_node ` set (graph_edges plan)"
      unfolding adjacency_iff downstream_of_iff by (metis imageI)
  qed
qed simp

text \<open>The edges between nodes of the plan, as a relation.\<close>

definition plan_relation :: "plan_graph \<Rightarrow> (string \<times> string) set" where
  "plan_relation plan =
     {(x, y). x \<in> node_id ` set (graph_nodes plan) \<and> y \<in> node_id ` set (graph_nodes plan) \<and>
        (\<exists>e \<in> set (graph_edges plan). edge_source_node e = x \<and> edge_target_node e = y)}"

lemma plan_relation_adjacency: "plan_relation plan = edges_of (adjacency plan)"
  unfolding plan_relation_def edges_of_def adjacency_iff downstream_of_iff by blast

lemma check_cycles_Nil: "check_cycles plan = [] \<longleftrightarrow> acyclic (plan_relation plan)"
proof -
  have "check_cycles plan = [] \<longleftrightarrow> cyclic_nodes plan = {}"
    using finite_cyclic_nodes[of plan] by (simp add: check_cycles_def)
  then show ?thesis
    unfolding plan_relation_adjacency
    using cyclic_nodes_complete cyclic_nodes_sound by (auto simp: acyclic_def)
qed

text \<open>
  C17: the cycle check reports nothing exactly when the edges between the plan's nodes form no cycle,
  and every node it reports lies on a cycle.
\<close>

theorem check_cycles_correct:
  "(check_cycles plan = [] \<longleftrightarrow> acyclic (plan_relation plan)) \<and>
   (\<forall>e. e \<in> set (check_cycles plan) \<longrightarrow>
      (\<exists>x. e = node_error ''cycle'' x \<and> (x, x) \<in> (plan_relation plan)\<^sup>+))"
proof -
  have "\<exists>x. e = node_error ''cycle'' x \<and> (x, x) \<in> (plan_relation plan)\<^sup>+"
    if "e \<in> set (check_cycles plan)" for e
    using that finite_cyclic_nodes[of plan] cyclic_nodes_sound[of _ plan]
    by (auto simp: check_cycles_def plan_relation_adjacency)
  then show ?thesis using check_cycles_Nil by blast
qed

definition loop_plan :: plan_graph where
  "loop_plan =
     \<lparr>graph_ir_version = PLAN_IR_VERSION, graph_name = None, graph_draft = False,
      graph_nodes = [\<lparr>node_id = ''t'', node_kind = TransformKind, node_type = ''dedupe'',
        node_label = None, node_params = [], node_required_params = [], node_inputs = [records_port],
        node_outputs = [records_port], node_source_id = None, node_draft = False\<rparr>],
      graph_edges = [\<lparr>edge_id = ''e'', edge_source_node = ''t'', edge_source_port = ''records'',
        edge_target_node = ''t'', edge_target_port = ''records''\<rparr>]\<rparr>"

theorem check_cycles_correct_witness:
  "check_cycles loop_plan = [node_error ''cycle'' ''t''] \<and>
   (''t'', ''t'') \<in> (plan_relation loop_plan)\<^sup>+"
proof
  have "cyclic_nodes loop_plan = {''t''}" by code_simp
  then show c: "check_cycles loop_plan = [node_error ''cycle'' ''t'']" by (simp add: check_cycles_def)
  have "\<exists>x. node_error ''cycle'' ''t'' = node_error ''cycle'' x \<and> (x, x) \<in> (plan_relation loop_plan)\<^sup>+"
    using check_cycles_correct[of loop_plan] c by simp
  then show "(''t'', ''t'') \<in> (plan_relation loop_plan)\<^sup>+" by (simp add: node_error_def)
qed

end
