(* ===== verification/ValidPlans.thy ===== *)
theory ValidPlans
  imports PlanCycles
begin

text \<open>
  The validator as a whole (\<open>validate_plan_graph\<close>) against a declarative specification of
  well-formed plans, and the round trip of the projected degenerate plan through it.
\<close>

section \<open>The validator\<close>

record plan_validation_result =
  pvr_errors :: "plan_validation_error list"

definition valid :: "plan_validation_result \<Rightarrow> bool" where
  "valid r \<longleftrightarrow> pvr_errors r = []"

definition validate_plan_graph ::
  "tool_registry \<Rightarrow> pin_parser \<Rightarrow> bool \<Rightarrow> plan_graph \<Rightarrow> plan_validation_result"
where
  "validate_plan_graph registry parse_pin require_tool_pins plan =
     \<lparr>pvr_errors =
        check_duplicate_node_ids plan @ check_source_node_entity_refs plan @
        check_dangling_edges plan @ check_missing_required_params plan @
        check_capability_version_pins registry parse_pin require_tool_pins plan @
        check_orphan_merges plan @ check_port_type_mismatches plan @ check_cycles plan\<rparr>"

section \<open>Well-formed plans\<close>

text \<open>What a wire must satisfy: it joins declared ports of existing nodes, with matching types.\<close>

definition wired :: "plan_graph \<Rightarrow> plan_edge \<Rightarrow> bool" where
  "wired plan e \<longleftrightarrow>
     (\<exists>src tgt. nodes_by_id plan (edge_source_node e) = Some src \<and>
        nodes_by_id plan (edge_target_node e) = Some tgt \<and>
        (\<exists>p q. find (\<lambda>p. port_name p = edge_source_port e) (node_outputs src) = Some p \<and>
           find (\<lambda>p. port_name p = edge_target_port e) (node_inputs tgt) = Some q \<and>
           (port_type p = port_type q \<or> port_type p \<in> {''any'', ''unknown''} \<or>
            port_type q \<in> {''any'', ''unknown''})))"

definition well_formed_node :: "plan_node \<Rightarrow> bool" where
  "well_formed_node n \<longleftrightarrow>
     (if node_kind n = SourceKind then (node_source_id n \<noteq> None) \<noteq> node_draft n
      else node_source_id n = None \<and> \<not> node_draft n) \<and>
     (\<forall>name \<in> set (node_required_params n).
        \<exists>v. dict_get (node_params n) name = Some v \<and> v \<noteq> JNull)"

definition well_formed_plan ::
  "tool_registry \<Rightarrow> pin_parser \<Rightarrow> bool \<Rightarrow> plan_graph \<Rightarrow> bool"
where
  "well_formed_plan registry parse_pin pins plan \<longleftrightarrow>
     distinct (map node_id (graph_nodes plan)) \<and>
     (\<forall>n \<in> set (graph_nodes plan). well_formed_node n \<and>
        check_node_pin registry parse_pin pins n = [] \<and>
        (node_kind n = MergeKind \<and> \<not> graph_draft plan \<longrightarrow>
           2 \<le> length (filter (\<lambda>e. edge_target_node e = node_id n) (graph_edges plan)))) \<and>
     (\<forall>e \<in> set (graph_edges plan). wired plan e) \<and>
     acyclic (plan_relation plan)"

lemma duplicate_errors_Nil:
  "duplicate_errors seen ns = [] \<longleftrightarrow>
     distinct (map node_id ns) \<and> node_id ` set ns \<inter> seen = {}"
  by (induction seen ns rule: duplicate_errors.induct) auto

lemma entity_ref_errors_Nil:
  "entity_ref_errors n = [] \<longleftrightarrow>
     (if node_kind n = SourceKind then (node_source_id n \<noteq> None) \<noteq> node_draft n
      else node_source_id n = None \<and> \<not> node_draft n)"
  by (auto simp: entity_ref_errors_def Let_def)

lemma params_Nil:
  "filter (param_absent d) names = [] \<longleftrightarrow> (\<forall>name \<in> set names. \<exists>v. dict_get d name = Some v \<and> v \<noteq> JNull)"
  by (auto simp: filter_empty_conv param_absent_def)

lemma find_port: "find (\<lambda>p. port_name p = x) ps = None \<longleftrightarrow> x \<notin> port_name ` set ps"
  by (auto simp: find_None_iff)

lemma wired_iff:
  "dangling_errors (nodes_by_id plan) e = [] \<and> port_type_errors (nodes_by_id plan) e = [] \<longleftrightarrow>
     wired plan e"
proof (cases "nodes_by_id plan (edge_source_node e)")
  case None
  then show ?thesis by (simp add: dangling_errors_def wired_def)
next
  case src: (Some src)
  show ?thesis
  proof (cases "nodes_by_id plan (edge_target_node e)")
    case None
    then show ?thesis by (simp add: dangling_errors_def wired_def)
  next
    case tgt: (Some tgt)
    let ?p = "find (\<lambda>p. port_name p = edge_source_port e) (node_outputs src)"
    let ?q = "find (\<lambda>p. port_name p = edge_target_port e) (node_inputs tgt)"
    have d: "dangling_errors (nodes_by_id plan) e = [] \<longleftrightarrow> ?p \<noteq> None \<and> ?q \<noteq> None"
      unfolding find_port by (simp add: dangling_errors_def src tgt)
    show ?thesis
    proof (cases "?p = None \<or> ?q = None")
      case True
      with d show ?thesis by (auto simp: wired_def src tgt)
    next
      case False
      then obtain p q where pq: "?p = Some p" "?q = Some q" by auto
      have "port_type_errors (nodes_by_id plan) e = [] \<longleftrightarrow> types_match (port_type p) (port_type q)"
        by (simp add: port_type_errors_def src tgt pq)
      with d pq show ?thesis by (auto simp: wired_def src tgt types_match_def)
    qed
  qed
qed

text \<open>
  C19: the validator accepts exactly the well-formed plans: distinct node ids, an entity reference or
  a draft mark on sources and neither elsewhere, required parameters present, valid version
  pins, every edge between declared ports of matching types, at least two inputs for every merge
  of a finished plan, and no cycle.
\<close>

theorem validate_plan_graph_iff:
  "valid (validate_plan_graph registry parse_pin pins plan) \<longleftrightarrow>
     well_formed_plan registry parse_pin pins plan"
proof -
  have cycles: "check_cycles plan = [] \<longleftrightarrow> acyclic (plan_relation plan)"
    using check_cycles_Nil .
  have edges: "check_dangling_edges plan = [] \<and> check_port_type_mismatches plan = [] \<longleftrightarrow>
      (\<forall>e \<in> set (graph_edges plan). wired plan e)"
    unfolding wired_iff[symmetric]
    by (auto simp: check_dangling_edges_def check_port_type_mismatches_def)
  have nodes: "check_duplicate_node_ids plan = [] \<longleftrightarrow> distinct (map node_id (graph_nodes plan))"
    "check_source_node_entity_refs plan = [] \<longleftrightarrow> (\<forall>n \<in> set (graph_nodes plan). entity_ref_errors n = [])"
    "check_missing_required_params plan = [] \<longleftrightarrow>
       (\<forall>n \<in> set (graph_nodes plan). filter (param_absent (node_params n)) (node_required_params n) = [])"
    "check_capability_version_pins registry parse_pin pins plan = [] \<longleftrightarrow>
       (\<forall>n \<in> set (graph_nodes plan). check_node_pin registry parse_pin pins n = [])"
    "check_orphan_merges plan = [] \<longleftrightarrow> (\<forall>n \<in> set (graph_nodes plan).
       node_kind n = MergeKind \<and> \<not> graph_draft plan \<longrightarrow> 2 \<le> incoming_count plan (node_id n))"
    by (simp_all add: check_duplicate_node_ids_def duplicate_errors_Nil check_source_node_entity_refs_def
        check_missing_required_params_def check_capability_version_pins_def check_orphan_merges_def
        filter_empty_conv) (auto simp: not_less)
  have node: "well_formed_node n \<longleftrightarrow> entity_ref_errors n = [] \<and>
      filter (param_absent (node_params n)) (node_required_params n) = []" for n
    by (simp only: well_formed_node_def entity_ref_errors_Nil params_Nil)
  show ?thesis
    unfolding well_formed_plan_def valid_def validate_plan_graph_def node
      plan_validation_result.simps append_is_Nil_conv nodes cycles edges[symmetric]
      incoming_count_def[symmetric]
    by blast
qed

section \<open>The projected plan\<close>

text \<open>
  The degenerate plan of any source is well-formed up to the version pin a channel configuration
  might carry: the errors of the projection are exactly those of the pin check on its source
  node, whatever the channel type and name.
\<close>

lemma projection_validates:
  "pvr_errors (validate_plan_graph registry parse_pin pins (project_source_to_plan source)) =
     check_node_pin registry parse_pin pins (hd (graph_nodes (project_source_to_plan source)))"
proof -
  let ?plan = "project_source_to_plan source"
  let ?a = "''source:'' @ sl_id source" and ?b = "''sink:'' @ sl_id source"
  have ne: "?a \<noteq> ?b" by simp
  have rel: "plan_relation ?plan \<subseteq> {(?a, ?b)}"
    by (auto simp: plan_relation_def project_source_to_plan_def Let_def)
  have "acyclic (plan_relation ?plan)"
  proof (rule acyclicI, intro allI notI)
    fix x assume "(x, x) \<in> (plan_relation ?plan)\<^sup>+"
    then have "(x, x) \<in> {(?a, ?b)}\<^sup>+" using trancl_mono[OF _ rel] by blast
    then have "x = ?a" "x = ?b"
      by (auto elim: converse_tranclE tranclE)
    with ne show False by simp
  qed
  then have c: "check_cycles ?plan = []" by (simp only: check_cycles_Nil)
  have pin: "check_node_pin registry parse_pin pins (graph_nodes ?plan ! 1) = []"
    by (simp add: project_source_to_plan_def Let_def check_node_pin_def dict_get_def)
  have by_id: "nodes_by_id ?plan ?a = Some (graph_nodes ?plan ! 0)"
    "nodes_by_id ?plan ?b = Some (graph_nodes ?plan ! 1)"
    by (simp_all add: project_source_to_plan_def Let_def nodes_by_id_def index_by_def)
  have e: "check_dangling_edges ?plan = []" "check_port_type_mismatches ?plan = []"
    using by_id
    by (simp_all add: check_dangling_edges_def dangling_errors_def check_port_type_mismatches_def
        port_type_errors_def project_source_to_plan_def Let_def records_port_def types_match_def)
  have n: "check_duplicate_node_ids ?plan = []" "check_source_node_entity_refs ?plan = []"
    "check_missing_required_params ?plan = []" "check_orphan_merges ?plan = []"
    by (simp_all add: check_duplicate_node_ids_def check_source_node_entity_refs_def
        check_missing_required_params_def check_orphan_merges_def entity_ref_errors_def
        project_source_to_plan_def Let_def)
  have "graph_nodes ?plan = [graph_nodes ?plan ! 0, graph_nodes ?plan ! 1]"
    by (simp add: project_source_to_plan_def Let_def)
  with pin have "check_capability_version_pins registry parse_pin pins ?plan =
      check_node_pin registry parse_pin pins (hd (graph_nodes ?plan))"
    unfolding check_capability_version_pins_def
    by (simp add: project_source_to_plan_def Let_def)
  with c e n show ?thesis by (simp add: validate_plan_graph_def)
qed

end
