(* ===== verification/Storer.thy ===== *)
theory Storer
  imports Prelude
begin

text \<open>
  Persisting normalized records (\<open>backend/pipeline/storer.py\<close>): deduplication by content
  hash and by the channel's identity, and the recovery after a unique-constraint violation.
  The table holds what is committed when the call starts; rows that other writers commit
  between the existence checks and the flush are the argument \<open>conc\<close>. The forward to the
  ingest service is the argument \<open>odp\<close>. The lineage envelope is taken as already
  serialized.
\<close>

section \<open>Rows and lookups\<close>

record collected_record =
  rec_id :: string
  rec_task_id :: string
  rec_source_id :: string
  rec_workflow_id :: "string option"
  rec_workflow_run_id :: "string option"
  rec_lineage :: "json dict option"
  rec_raw_data :: "json dict"
  rec_normalized_data :: "json dict"
  rec_ai_enrichment :: "json dict option"
  rec_content_hash :: string
  rec_identity_key :: "string option"
  rec_status :: string

text \<open>The constraint \<open>uq_source_content\<close>.\<close>

definition unique_content :: "collected_record list \<Rightarrow> bool" where
  "unique_content table \<longleftrightarrow> distinct (map (\<lambda>r. (rec_source_id r, rec_content_hash r)) table)"

definition HASH_CHUNK_SIZE :: nat where
  "HASH_CHUNK_SIZE = 500"

function chunks :: "nat \<Rightarrow> 'a list \<Rightarrow> 'a list list" where
  "chunks n xs = (if n = 0 \<or> xs = [] then [] else take n xs # chunks n (drop n xs))"
  by pat_completeness auto

termination chunks
  by (relation "measure (\<lambda>(n, xs). length xs)") auto

declare chunks.simps [simp del]

definition existing_hashes :: "collected_record list \<Rightarrow> string \<Rightarrow> string list \<Rightarrow> string set" where
  "existing_hashes table source_id hashes =
     fold (\<lambda>chunk existing. existing \<union>
         set (map rec_content_hash (filter (\<lambda>r. rec_source_id r = source_id \<and>
           List.member chunk (rec_content_hash r)) table)))
       (chunks HASH_CHUNK_SIZE hashes) {}"

definition existing_by_identity ::
  "collected_record list \<Rightarrow> string \<Rightarrow> string list \<Rightarrow> string dict"
where
  "existing_by_identity table source_id identity_keys =
     fold (\<lambda>chunk existing.
         fold (\<lambda>r acc. case rec_identity_key r of
             Some k \<Rightarrow> if rec_source_id r = source_id \<and> List.member chunk k
               then dict_set acc k (rec_id r) else acc
           | None \<Rightarrow> acc) table existing)
       (chunks HASH_CHUNK_SIZE identity_keys) []"

section \<open>The batch loop\<close>

type_synonym triple = "json dict \<times> json dict \<times> string"

record store_args =
  sa_task_id :: string
  sa_source_id :: string
  sa_workflow_id :: "string option"
  sa_workflow_run_id :: "string option"
  sa_lineage :: "json dict option"

text \<open>
  The state of the loop: the session's view of the stored rows, the new rows, the keys of the
  updated ones in the order of \<open>updated_records\<close>, and the two sets of the batch. The key
  of a new row is drawn when it is flushed.
\<close>

record store_state =
  ss_mem :: "collected_record list"
  ss_new :: "collected_record list"
  ss_updated :: "string list"
  ss_skipped :: nat
  ss_seen :: "string set"
  ss_seen_identities :: "string set"

definition new_record :: "store_args \<Rightarrow> triple \<Rightarrow> string option \<Rightarrow> collected_record" where
  "new_record a t identity =
     \<lparr>rec_id = [], rec_task_id = sa_task_id a, rec_source_id = sa_source_id a,
      rec_workflow_id = sa_workflow_id a, rec_workflow_run_id = sa_workflow_run_id a,
      rec_lineage = sa_lineage a, rec_raw_data = fst t, rec_normalized_data = fst (snd t),
      rec_ai_enrichment = None, rec_content_hash = snd (snd t), rec_identity_key = identity,
      rec_status = ''normalized''\<rparr>"

definition update_record :: "triple \<Rightarrow> collected_record \<Rightarrow> collected_record" where
  "update_record t r =
     r\<lparr>rec_raw_data := fst t, rec_normalized_data := fst (snd t),
       rec_content_hash := snd (snd t), rec_status := ''normalized'', rec_ai_enrichment := None\<rparr>"

definition skip_item :: "store_state \<Rightarrow> store_state" where
  "skip_item s = s\<lparr>ss_skipped := Suc (ss_skipped s)\<rparr>"

definition store_by_hash ::
  "store_args \<Rightarrow> string set \<Rightarrow> triple \<Rightarrow> string option \<Rightarrow> store_state \<Rightarrow> store_state"
where
  "store_by_hash a existing t identity s =
     (if snd (snd t) \<in> existing \<or> snd (snd t) \<in> ss_seen s then skip_item s
      else s\<lparr>ss_seen := insert (snd (snd t)) (ss_seen s),
             ss_new := ss_new s @ [new_record a t identity]\<rparr>)"

definition store_item ::
  "store_args \<Rightarrow> string set \<Rightarrow> string dict \<Rightarrow> triple \<times> string option \<Rightarrow> store_state \<Rightarrow> store_state"
where
  "store_item a existing by_identity = (\<lambda>(t, identity) s.
     case identity of
       None \<Rightarrow> store_by_hash a existing t None s
     | Some i \<Rightarrow>
         (case dict_get by_identity i of
            Some rid \<Rightarrow>
              (case find (\<lambda>r. rec_id r = rid) (ss_mem s) of
                 None \<Rightarrow> s
               | Some row \<Rightarrow>
                   if rec_content_hash row = snd (snd t) then skip_item s
                   else s\<lparr>ss_mem := map (\<lambda>r. if rec_id r = rid then update_record t r else r) (ss_mem s),
                          ss_updated := ss_updated s @ [rid]\<rparr>)
          | None \<Rightarrow>
              if i \<in> ss_seen_identities s then skip_item s
              else store_by_hash a existing t (Some i)
                     (s\<lparr>ss_seen_identities := insert i (ss_seen_identities s)\<rparr>)))"

section \<open>Flush and recovery\<close>

text \<open>
  A flush issues the updates, then the inserts; each statement is checked against the unique
  constraint, and one violation fails the whole flush.
\<close>

definition checked :: "collected_record list \<Rightarrow> collected_record list option" where
  "checked table = (if unique_content table then Some table else None)"

fun flush_updates ::
  "collected_record list \<Rightarrow> collected_record list \<Rightarrow> collected_record list option"
where
  "flush_updates [] table = Some table"
| "flush_updates (row # rows) table =
     (case checked (map (\<lambda>r. if rec_id r = rec_id row then row else r) table) of
        None \<Rightarrow> None | Some table' \<Rightarrow> flush_updates rows table')"

fun flush_inserts ::
  "collected_record list \<Rightarrow> collected_record list \<Rightarrow> collected_record list option"
where
  "flush_inserts [] table = Some table"
| "flush_inserts (row # rows) table =
     (case checked (table @ [row]) of None \<Rightarrow> None | Some table' \<Rightarrow> flush_inserts rows table')"

definition flush :: "store_state \<Rightarrow> collected_record list \<Rightarrow> collected_record list option" where
  "flush s table =
     (case flush_updates (filter (\<lambda>r. List.member (ss_updated s) (rec_id r)) (ss_mem s)) table of
        None \<Rightarrow> None
      | Some table' \<Rightarrow> flush_inserts (ss_new s) table')"

fun insert_survivors ::
  "string set \<Rightarrow> collected_record list \<Rightarrow> nat \<Rightarrow> collected_record list \<Rightarrow>
   collected_record list \<times> nat \<times> collected_record list"
where
  "insert_survivors there [] skipped table = ([], skipped, table)"
| "insert_survivors there (r # rs) skipped table =
     (if rec_content_hash r \<in> there then insert_survivors there rs (Suc skipped) table
      else case checked (table @ [r]) of
          None \<Rightarrow> insert_survivors there rs (Suc skipped) table
        | Some table' \<Rightarrow>
            let (kept, skipped', table'') = insert_survivors there rs skipped table'
            in (r # kept, skipped', table''))"

record odp_forward =
  of_forward_to_odp :: bool
  of_ingest_url :: bool
  of_error :: "string option"
  of_ingest_required :: bool

definition odp_off :: odp_forward where
  "odp_off = \<lparr>of_forward_to_odp = False, of_ingest_url = False, of_error = None,
     of_ingest_required = False\<rparr>"

text \<open>\<open>ids\<close> are the primary keys the flush draws for the new rows.\<close>

definition with_ids :: "(nat \<Rightarrow> string) \<Rightarrow> collected_record list \<Rightarrow> collected_record list" where
  "with_ids ids rows = map (\<lambda>(i, r). r\<lparr>rec_id := ids i\<rparr>) (enumerate 0 rows)"

definition batch_loop ::
  "store_args \<Rightarrow> triple list \<Rightarrow> string option list option \<Rightarrow> collected_record list \<Rightarrow> store_state"
where
  "batch_loop a triples identities table =
     (let existing = existing_hashes table (sa_source_id a) (map (snd \<circ> snd) triples);
          identity_keys = List.map_filter id (case identities of None \<Rightarrow> [] | Some is \<Rightarrow> is);
          by_identity = (if identity_keys \<noteq> []
            then existing_by_identity table (sa_source_id a) identity_keys else []);
          tagged = zip triples (case identities of
              None \<Rightarrow> replicate (length triples) None
            | Some is \<Rightarrow> if is = [] then replicate (length triples) None else is)
      in fold (store_item a existing by_identity) tagged
           \<lparr>ss_mem = table, ss_new = [], ss_updated = [], ss_skipped = 0, ss_seen = {},
            ss_seen_identities = {}\<rparr>)"

definition store_records ::
  "store_args \<Rightarrow> triple list \<Rightarrow> string option list option \<Rightarrow> odp_forward \<Rightarrow> (nat \<Rightarrow> string) \<Rightarrow>
   collected_record list \<Rightarrow> collected_record list \<Rightarrow>
   string + (collected_record list \<times> nat \<times> collected_record list)"
where
  "store_records a triples identities odp ids conc table =
     (if triples = [] then Inr ([], 0, table @ conc)
      else if of_forward_to_odp odp \<and> of_ingest_url odp \<and> of_error odp \<noteq> None \<and> of_ingest_required odp
        then Inl (the (of_error odp))
      else
        let s = batch_loop a triples identities table;
            s' = s\<lparr>ss_new := with_ids ids (ss_new s)\<rparr>;
            updated = List.map_filter (\<lambda>i. find (\<lambda>r. rec_id r = i) (ss_mem s)) (ss_updated s)
        in case flush s' (table @ conc) of
             Some table' \<Rightarrow> Inr (ss_new s' @ updated, ss_skipped s, table')
           | None \<Rightarrow>
               let there = existing_hashes (table @ conc) (sa_source_id a)
                     (map rec_content_hash (ss_new s'));
                   (kept, skipped, table') =
                     insert_survivors there (ss_new s') (ss_skipped s) (table @ conc)
               in Inr (kept, skipped, table'))"

section \<open>Lookups\<close>

lemma concat_chunks: "0 < n \<Longrightarrow> concat (chunks n xs) = xs"
  by (induction n xs rule: chunks.induct) (subst chunks.simps, simp)

lemma chunks_small: "chunk \<in> set (chunks n xs) \<Longrightarrow> length chunk \<le> n"
proof (induction n xs rule: chunks.induct)
  case (1 n xs)
  from "1.prems" have "chunk \<in> set (if n = 0 \<or> xs = [] then [] else take n xs # chunks n (drop n xs))"
    by (simp only: chunks.simps[of n xs])
  with "1.IH" show ?case by (auto split: if_splits)
qed

lemma set_chunks: "(\<Union>chunk \<in> set (chunks HASH_CHUNK_SIZE xs). set chunk) = set xs"
  using concat_chunks[of HASH_CHUNK_SIZE xs] by (simp add: HASH_CHUNK_SIZE_def flip: set_concat)

lemma existing_hashes_eq:
  "existing_hashes table sid hashes =
     {h \<in> set hashes. \<exists>r \<in> set table. rec_source_id r = sid \<and> rec_content_hash r = h}"
proof -
  have fold_Un: "fold (\<lambda>c acc. acc \<union> f c) cs A = A \<union> (\<Union>c \<in> set cs. f c)"
    for f :: "string list \<Rightarrow> string set" and cs A
    by (induction cs arbitrary: A) auto
  have "existing_hashes table sid hashes = (\<Union>c \<in> set (chunks HASH_CHUNK_SIZE hashes).
      {h \<in> set c. \<exists>r \<in> set table. rec_source_id r = sid \<and> rec_content_hash r = h})"
    unfolding existing_hashes_def fold_Un by auto
  also have "\<dots> = {h \<in> set hashes. \<exists>r \<in> set table. rec_source_id r = sid \<and> rec_content_hash r = h}"
    unfolding set_chunks[of hashes, symmetric] by blast
  finally show ?thesis .
qed

lemma existing_by_identity_eq:
  "dict_get (existing_by_identity table sid keys) k =
     (if k \<in> set keys then map_option rec_id
        (find (\<lambda>r. rec_source_id r = sid \<and> rec_identity_key r = Some k) (rev table)) else None)"
proof -
  let ?f = "\<lambda>chunk r acc. case rec_identity_key r of
      Some k \<Rightarrow> if rec_source_id r = sid \<and> List.member chunk k then dict_set acc k (rec_id r) else acc
    | None \<Rightarrow> acc"
  let ?row = "find (\<lambda>r. rec_source_id r = sid \<and> rec_identity_key r = Some k) (rev table)"
  have inner: "map_of (fold (?f chunk) table acc) k =
      (if k \<in> set chunk \<and> ?row \<noteq> None then map_option rec_id ?row else map_of acc k)" for chunk acc
    by (induction table rule: rev_induct) (auto split: option.splits)
  have "map_of (fold (\<lambda>chunk existing. fold (?f chunk) table existing) cs acc) k =
      (if (\<exists>c \<in> set cs. k \<in> set c) \<and> ?row \<noteq> None then map_option rec_id ?row else map_of acc k)" for cs acc
    by (induction cs arbitrary: acc) (auto simp: inner)
  moreover have "(\<exists>c \<in> set (chunks HASH_CHUNK_SIZE keys). k \<in> set c) \<longleftrightarrow> k \<in> set keys"
    using set_chunks[of keys] by blast
  ultimately show ?thesis by (auto simp: existing_by_identity_def dict_get_def)
qed

section \<open>Batches without identities\<close>

fun first_new :: "string set \<Rightarrow> triple list \<Rightarrow> triple list" where
  "first_new E [] = []"
| "first_new E (t # ts) =
     (if snd (snd t) \<in> E then first_new E ts else t # first_new (insert (snd (snd t)) E) ts)"

lemma first_new_hashes:
  "set (map (snd \<circ> snd) (first_new E ts)) = set (map (snd \<circ> snd) ts) - E"
  "distinct (map (snd \<circ> snd) (first_new E ts))"
  by (induction E ts rule: first_new.induct) auto

lemma batch_without_identities:
  "fold (store_item a E by_identity) (zip ts (replicate (length ts) None)) s =
     s\<lparr>ss_new := ss_new s @ map (\<lambda>t. new_record a t None) (first_new (E \<union> ss_seen s) ts),
       ss_skipped := ss_skipped s + (length ts - length (first_new (E \<union> ss_seen s) ts)),
       ss_seen := ss_seen s \<union> set (map (snd \<circ> snd) (first_new (E \<union> ss_seen s) ts))\<rparr>"
proof (induction ts arbitrary: s)
  case (Cons t ts)
  have len: "length (first_new E' ts) \<le> length ts" for E'
    by (induction E' ts rule: first_new.induct) auto
  show ?case
  proof (cases "snd (snd t) \<in> E \<union> ss_seen s")
    case True
    then show ?thesis
      using Cons.IH[of "skip_item s"] len[of "E \<union> ss_seen s"]
      by (auto simp: store_item_def store_by_hash_def skip_item_def Suc_diff_le)
  next
    case False
    then show ?thesis
      using Cons.IH[of "s\<lparr>ss_seen := insert (snd (snd t)) (ss_seen s),
          ss_new := ss_new s @ [new_record a t None]\<rparr>"]
      by (auto simp: store_item_def store_by_hash_def)
  qed
qed simp

lemma flush_inserts_eq:
  "unique_content table \<Longrightarrow>
    flush_inserts rows table = (if unique_content (table @ rows) then Some (table @ rows) else None)"
proof (induction rows arbitrary: table)
  case (Cons r rows)
  show ?case
  proof (cases "unique_content (table @ [r])")
    case True
    with Cons.IH[OF True] show ?thesis by (simp add: checked_def)
  next
    case False
    then have "\<not> unique_content (table @ r # rows)" by (auto simp: unique_content_def)
    with False show ?thesis by (simp add: checked_def)
  qed
qed simp

lemma insert_survivors_eq:
  assumes "unique_content table" and "\<And>r. r \<in> set rows \<Longrightarrow> rec_source_id r = sid"
    and "distinct (map rec_content_hash rows)"
    and "\<And>r. r \<in> set rows \<Longrightarrow> rec_content_hash r \<in> there \<longleftrightarrow>
      (\<exists>q \<in> set table. rec_source_id q = sid \<and> rec_content_hash q = rec_content_hash r)"
  shows "insert_survivors there rows n table =
      (filter (\<lambda>r. rec_content_hash r \<notin> there) rows,
       n + length (filter (\<lambda>r. rec_content_hash r \<in> there) rows),
       table @ filter (\<lambda>r. rec_content_hash r \<notin> there) rows) \<and>
    unique_content (table @ filter (\<lambda>r. rec_content_hash r \<notin> there) rows)"
  using assms
proof (induction rows arbitrary: table n)
  case (Cons r rows)
  show ?case
  proof (cases "rec_content_hash r \<in> there")
    case True
    with Cons.IH[of table "Suc n"] Cons.prems show ?thesis by simp
  next
    case False
    then have u: "unique_content (table @ [r])"
      using Cons.prems(1) Cons.prems(2)[of r] Cons.prems(4)[of r]
      by (auto simp: unique_content_def)
    have hit: "rec_content_hash x \<in> there \<longleftrightarrow> (\<exists>q \<in> set (table @ [r]). rec_source_id q = sid \<and>
        rec_content_hash q = rec_content_hash x)" if "x \<in> set rows" for x
    proof -
      have "rec_content_hash r \<noteq> rec_content_hash x"
        using Cons.prems(3) imageI[OF that, of rec_content_hash] by auto
      with Cons.prems(4)[of x] that show ?thesis by simp
    qed
    from Cons.IH[OF u Cons.prems(2) _ hit, of n] Cons.prems(3) have
      "insert_survivors there rows n (table @ [r]) =
        (filter (\<lambda>r. rec_content_hash r \<notin> there) rows,
         n + length (filter (\<lambda>r. rec_content_hash r \<in> there) rows),
         (table @ [r]) @ filter (\<lambda>r. rec_content_hash r \<notin> there) rows) \<and>
       unique_content ((table @ [r]) @ filter (\<lambda>r. rec_content_hash r \<notin> there) rows)"
      by simp
    then show ?thesis using u False by (simp add: checked_def)
  qed
qed simp

lemma with_ids_fields:
  "map rec_content_hash (with_ids ids rows) = map rec_content_hash rows"
  "map rec_source_id (with_ids ids rows) = map rec_source_id rows"
  "length (with_ids ids rows) = length rows"
proof -
  have "map f (map (\<lambda>(i, r). r\<lparr>rec_id := ids i\<rparr>) (enumerate n rows)) = map f rows"
    if "\<And>i r. f (r\<lparr>rec_id := i\<rparr>) = f r" for f :: "collected_record \<Rightarrow> string" and n
    using that by (induction rows arbitrary: n) auto
  from this[where n = 0] show "map rec_content_hash (with_ids ids rows) = map rec_content_hash rows"
    "map rec_source_id (with_ids ids rows) = map rec_source_id rows"
    "length (with_ids ids rows) = length rows"
    unfolding with_ids_def by auto
qed

definition stored_hashes :: "string \<Rightarrow> collected_record list \<Rightarrow> string set" where
  "stored_hashes sid table =
     {h. \<exists>r \<in> set table. rec_source_id r = sid \<and> rec_content_hash r = h}"

definition odp_refuses :: "odp_forward \<Rightarrow> bool" where
  "odp_refuses odp \<longleftrightarrow>
     of_forward_to_odp odp \<and> of_ingest_url odp \<and> of_error odp \<noteq> None \<and> of_ingest_required odp"

text \<open>A batch without identities, in one step.\<close>

lemma store_without_identities:
  assumes "unique_content (table @ conc)" and "\<not> odp_refuses odp"
  obtains new skipped where
    "store_records a triples None odp ids conc table = Inr (new, skipped, (table @ conc) @ new)"
    "unique_content ((table @ conc) @ new)"
    "length new + skipped = length triples"
    "\<And>r. r \<in> set new \<Longrightarrow> rec_source_id r = sa_source_id a"
    "set (map rec_content_hash new) =
       set (map (snd \<circ> snd) triples) - stored_hashes (sa_source_id a) (table @ conc)"
proof (cases "triples = []")
  case True
  show thesis
    by (rule that[of "[]" 0]) (use True assms in \<open>simp_all add: store_records_def\<close>)
next
  case nonempty: False
  define E where "E = existing_hashes table (sa_source_id a) (map (snd \<circ> snd) triples)"
  define fresh where "fresh = first_new E triples"
  define new where "new = with_ids ids (map (\<lambda>t. new_record a t None) fresh)"
  define s where "s = batch_loop a triples None table"
  have s: "ss_new s = map (\<lambda>t. new_record a t None) fresh" "ss_updated s = []"
    "ss_skipped s = length triples - length fresh"
    unfolding s_def batch_loop_def Let_def
    using batch_without_identities[of a E "[]" triples
        "\<lparr>ss_mem = table, ss_new = [], ss_updated = [], ss_skipped = 0, ss_seen = {}, ss_seen_identities = {}\<rparr>"]
    by (simp_all add: E_def[symmetric] fresh_def List.map_filter_def)
  have len: "length (first_new E' ts) \<le> length ts" for E' ts
    by (induction E' ts rule: first_new.induct) auto
  have h: "map rec_content_hash new = map (snd \<circ> snd) fresh"
    by (simp add: new_def with_ids_fields comp_def new_record_def)
  have "map rec_source_id new = map (\<lambda>t. sa_source_id a) fresh"
    by (simp add: new_def with_ids_fields comp_def new_record_def)
  then have src: "r \<in> set new \<Longrightarrow> rec_source_id r = sa_source_id a" for r
    by (metis (no_types, lifting) image_eqI image_iff set_map)
  have dist: "distinct (map rec_content_hash new)" unfolding h fresh_def by (rule first_new_hashes)
  have set_h: "set (map rec_content_hash new) = set (map (snd \<circ> snd) triples) - E"
    unfolding h fresh_def by (rule first_new_hashes)
  have nlen: "length new = length fresh" by (simp add: new_def with_ids_fields)
  have fl: "flush (s\<lparr>ss_new := new\<rparr>) (table @ conc) =
      (if unique_content ((table @ conc) @ new) then Some ((table @ conc) @ new) else None)"
    using flush_inserts_eq[OF assms(1)] by (simp add: flush_def s(2))
  have ret: "store_records a triples None odp ids conc table =
      (case flush (s\<lparr>ss_new := new\<rparr>) (table @ conc) of
         Some table' \<Rightarrow> Inr (new, ss_skipped s, table')
       | None \<Rightarrow> Inr (insert_survivors (existing_hashes (table @ conc) (sa_source_id a)
             (map rec_content_hash new)) new (ss_skipped s) (table @ conc)))"
    using nonempty assms(2)
    by (simp add: store_records_def odp_refuses_def Let_def s_def[symmetric] s(1)[symmetric]
        new_def s(2) List.map_filter_def case_prod_unfold split: option.split)
  let ?there = "existing_hashes (table @ conc) (sa_source_id a) (map rec_content_hash new)"
  let ?kept = "filter (\<lambda>r. rec_content_hash r \<notin> ?there) new"
  have there: "?there = set (map rec_content_hash new) \<inter> stored_hashes (sa_source_id a) (table @ conc)"
    unfolding existing_hashes_eq stored_hashes_def by blast
  have E: "E = set (map (snd \<circ> snd) triples) \<inter> stored_hashes (sa_source_id a) table"
    unfolding E_def existing_hashes_eq stored_hashes_def by blast
  have surv: "insert_survivors ?there new (ss_skipped s) (table @ conc) =
      (?kept, ss_skipped s + length (filter (\<lambda>r. rec_content_hash r \<in> ?there) new), (table @ conc) @ ?kept) \<and>
      unique_content ((table @ conc) @ ?kept)"
  proof (rule insert_survivors_eq[OF assms(1) src dist])
    fix r assume "r \<in> set new"
    then show "rec_content_hash r \<in> ?there \<longleftrightarrow> (\<exists>q \<in> set (table @ conc).
        rec_source_id q = sa_source_id a \<and> rec_content_hash q = rec_content_hash r)"
      unfolding existing_hashes_eq by (simp add: image_iff) metis
  qed
  have mono: "stored_hashes sid table \<subseteq> stored_hashes sid (table @ conc)" for sid
    by (auto simp: stored_hashes_def)
  show thesis
  proof (cases "unique_content ((table @ conc) @ new)")
    case True
    have disj: "set (map rec_content_hash new) \<inter> stored_hashes (sa_source_id a) (table @ conc) = {}"
    proof (rule ccontr)
      assume "set (map rec_content_hash new) \<inter> stored_hashes (sa_source_id a) (table @ conc) \<noteq> {}"
      then obtain r q where rq: "r \<in> set new" "q \<in> set (table @ conc)"
        "rec_source_id q = sa_source_id a" "rec_content_hash q = rec_content_hash r"
        by (auto simp: stored_hashes_def)
      let ?key = "\<lambda>r. (rec_source_id r, rec_content_hash r)"
      have "?key r = ?key q" using rq(3,4) src[OF rq(1)] by simp
      then have "?key r \<in> set (map ?key new)" "?key r \<in> set (map ?key (table @ conc))"
        using imageI[OF rq(1), of ?key] imageI[OF rq(2), of ?key] by (simp_all only: set_map)
      moreover have "set (map ?key (table @ conc)) \<inter> set (map ?key new) = {}"
        using True unfolding unique_content_def map_append[of _ "table @ conc"] distinct_append by blast
      ultimately show False by blast
    qed
    show thesis
    proof (rule that[of new "ss_skipped s"])
      show "store_records a triples None odp ids conc table = Inr (new, ss_skipped s, (table @ conc) @ new)"
        unfolding ret fl using True by simp
      show "set (map rec_content_hash new) =
          set (map (snd \<circ> snd) triples) - stored_hashes (sa_source_id a) (table @ conc)"
        using disj mono[of "sa_source_id a"] unfolding set_h E by blast
    qed (use True src s(3) nlen len[of E triples] in \<open>simp_all add: fresh_def\<close>)
  next
    case False
    show thesis
    proof (rule that[of ?kept "ss_skipped s + length (filter (\<lambda>r. rec_content_hash r \<in> ?there) new)"])
      show "store_records a triples None odp ids conc table = Inr (?kept,
          ss_skipped s + length (filter (\<lambda>r. rec_content_hash r \<in> ?there) new), (table @ conc) @ ?kept)"
        unfolding ret fl using False surv by simp
      have "set (map rec_content_hash ?kept) = set (map rec_content_hash new) - ?there" by auto
      then show "set (map rec_content_hash ?kept) =
          set (map (snd \<circ> snd) triples) - stored_hashes (sa_source_id a) (table @ conc)"
        using mono[of "sa_source_id a"] unfolding there set_h E by blast
      have "length ?kept + length (filter (\<lambda>r. rec_content_hash r \<in> ?there) new) = length new"
        using sum_length_filter_compl[of "\<lambda>r. rec_content_hash r \<in> ?there" new] by simp
      then show "length ?kept + (ss_skipped s + length (filter (\<lambda>r. rec_content_hash r \<in> ?there) new)) =
          length triples"
        using s(3) nlen len[of E triples] by (simp add: fresh_def)
    qed (use surv src in auto)
  qed
qed

text \<open>
  C6: storing a batch without identities loses nothing and stores nothing twice, even when another
  writer commits overlapping rows in between: afterwards the source has exactly the content it
  had before, what the other writer stored and the whole batch, the constraint on (source,
  content hash) holds, existing rows are untouched, and every item was stored or counted as
  skipped.
\<close>

theorem store_loses_nothing:
  assumes "unique_content (table @ conc)"
    and "\<not> (of_forward_to_odp odp \<and> of_ingest_url odp \<and> of_error odp \<noteq> None \<and> of_ingest_required odp)"
  shows "\<exists>new skipped.
    store_records a triples None odp ids conc table = Inr (new, skipped, table @ conc @ new) \<and>
    unique_content (table @ conc @ new) \<and> length new + skipped = length triples \<and>
    stored_hashes (sa_source_id a) (table @ conc @ new) =
      stored_hashes (sa_source_id a) (table @ conc) \<union> set (map (snd \<circ> snd) triples)"
proof -
  have "\<not> odp_refuses odp" using assms(2) by (simp add: odp_refuses_def)
  with assms(1) obtain new skipped where new:
    "store_records a triples None odp ids conc table = Inr (new, skipped, (table @ conc) @ new)"
    "unique_content ((table @ conc) @ new)" "length new + skipped = length triples"
    "\<And>r. r \<in> set new \<Longrightarrow> rec_source_id r = sa_source_id a"
    "set (map rec_content_hash new) =
       set (map (snd \<circ> snd) triples) - stored_hashes (sa_source_id a) (table @ conc)"
    by (rule store_without_identities[where a = a and triples = triples and ids = ids]) blast
  have "stored_hashes (sa_source_id a) new = set (map rec_content_hash new)"
    using new(4) by (auto simp: stored_hashes_def)
  moreover have "stored_hashes sid (xs @ ys) = stored_hashes sid xs \<union> stored_hashes sid ys" for sid xs ys
    by (auto simp: stored_hashes_def)
  ultimately have "stored_hashes (sa_source_id a) ((table @ conc) @ new) =
      stored_hashes (sa_source_id a) (table @ conc) \<union> set (map (snd \<circ> snd) triples)"
    unfolding new(5) by blast
  with new(1-3) show ?thesis by auto
qed

definition plain_args :: store_args where
  "plain_args = \<lparr>sa_task_id = ''t'', sa_source_id = ''s'', sa_workflow_id = None,
     sa_workflow_run_id = None, sa_lineage = None\<rparr>"

theorem store_loses_nothing_witness:
  "\<exists>new skipped table'. store_records plain_args [([], [], ''h''), ([], [], ''h'')] None odp_off
     (\<lambda>i. []) [] [] = Inr (new, skipped, table') \<and> length new + skipped = 2 \<and>
     stored_hashes ''s'' table' = {''h''}"
proof -
  have u: "unique_content ([] @ [])" by (simp add: unique_content_def)
  from store_loses_nothing[OF u, of odp_off plain_args "[([], [], ''h''), ([], [], ''h'')]" "\<lambda>i. []"]
  show ?thesis by (fastforce simp: odp_off_def plain_args_def stored_hashes_def)
qed

text \<open>
  Storing is idempotent: a batch whose content is already stored for the source inserts nothing,
  leaves the table as it is and reports every item as skipped.
\<close>

lemma store_idempotent:
  assumes "unique_content table" and "set (map (snd \<circ> snd) triples) \<subseteq> stored_hashes (sa_source_id a) table"
    and "\<not> (of_forward_to_odp odp \<and> of_ingest_url odp \<and> of_error odp \<noteq> None \<and> of_ingest_required odp)"
  shows "store_records a triples None odp ids [] table = Inr ([], length triples, table)"
proof -
  have "unique_content (table @ [])" "\<not> odp_refuses odp" using assms(1,3) by (simp_all add: odp_refuses_def)
  then obtain new skipped where new:
    "store_records a triples None odp ids [] table = Inr (new, skipped, (table @ []) @ new)"
    "length new + skipped = length triples"
    "set (map rec_content_hash new) =
       set (map (snd \<circ> snd) triples) - stored_hashes (sa_source_id a) (table @ [])"
    by (rule store_without_identities[where a = a and triples = triples and ids = ids]) blast
  from new(3) assms(2) have "new = []" by (simp add: Diff_eq_empty_iff[THEN iffD2])
  with new(1,2) show ?thesis by simp
qed

definition plain_row :: "string \<Rightarrow> string \<Rightarrow> string option \<Rightarrow> collected_record" where
  "plain_row rid h identity = (new_record plain_args ([], [], h) identity)\<lparr>rec_id := rid\<rparr>"

lemma store_idempotent_witness:
  "store_records plain_args [([], [], ''h'')] None odp_off (\<lambda>i. []) [] [plain_row ''r'' ''h'' None] =
     Inr ([], 1, [plain_row ''r'' ''h'' None])"
proof -
  have "unique_content [plain_row ''r'' ''h'' None]" by (simp add: unique_content_def)
  moreover have "set (map (snd \<circ> snd) [([] :: json dict, [] :: json dict, ''h'')]) \<subseteq>
      stored_hashes (sa_source_id plain_args) [plain_row ''r'' ''h'' None]"
    by (simp add: stored_hashes_def plain_row_def new_record_def)
  ultimately show ?thesis
    using store_idempotent[of "[plain_row ''r'' ''h'' None]" "[([], [], ''h'')]" plain_args odp_off "\<lambda>i. []"]
    by (simp add: odp_off_def)
qed

section \<open>Updates in place\<close>

lemma single_update:
  assumes "unique_content table" and "distinct (map rec_id table)" and "r \<in> set table"
    and "find (\<lambda>q. rec_source_id q = sa_source_id a \<and> rec_identity_key q = Some i) (rev table) = Some r"
    and "rec_content_hash r \<noteq> snd (snd t)" and "\<not> odp_refuses odp"
  shows "store_records a [t] (Some [Some i]) odp ids [] table =
    (let table' = map (\<lambda>q. if rec_id q = rec_id r then update_record t r else q) table
     in if unique_content table' then Inr ([update_record t r], 0, table') else Inr ([], 0, table))"
proof -
  have f: "find (\<lambda>q. rec_id q = rec_id r) table = Some r"
    using index_by_distinct[of rec_id "rev table" r] assms(2,3)
    by (simp add: index_by_def rev_map[symmetric])
  have only: "q = r" if "q \<in> set table" "rec_id q = rec_id r" for q
    using that assms(2,3) by (auto simp: distinct_map inj_on_def)
  let ?mem = "map (\<lambda>q. if rec_id q = rec_id r then update_record t q else q) table"
  have mem: "?mem = map (\<lambda>q. if rec_id q = rec_id r then update_record t r else q) table"
    using only by auto
  have id: "rec_id (update_record t q) = rec_id q" for q by (simp add: update_record_def)
  have "dict_get (existing_by_identity table (sa_source_id a) [i]) i = Some (rec_id r)"
    unfolding existing_by_identity_eq using assms(4) by simp
  then have s: "batch_loop a [t] (Some [Some i]) table =
      \<lparr>ss_mem = ?mem, ss_new = [], ss_updated = [rec_id r], ss_skipped = 0, ss_seen = {},
       ss_seen_identities = {}\<rparr>"
    using f assms(5) by (simp add: batch_loop_def Let_def List.map_filter_def store_item_def)
  have upd: "filter (\<lambda>q. rec_id q = rec_id r) ?mem = [update_record t r]"
  proof -
    have "distinct (map rec_id table) \<Longrightarrow> r \<in> set table \<Longrightarrow> filter (\<lambda>q. rec_id q = rec_id r) table = [r]"
      for table :: "collected_record list"
      by (induction table) (auto simp: filter_empty_conv, metis image_eqI)
    then have "filter (\<lambda>q. rec_id q = rec_id r) table = [r]" using assms(2,3) by blast
    moreover have "filter (\<lambda>q. rec_id q = rec_id r) (map (\<lambda>q. if rec_id q = rec_id r then update_record t q else q) xs) =
        map (update_record t) (filter (\<lambda>q. rec_id q = rec_id r) xs)" for xs
      by (induction xs) (auto simp: id)
    ultimately show ?thesis by simp
  qed
  have fm: "find (\<lambda>q. rec_id q = rec_id r) ?mem = Some (update_record t r)"
    using f find_map_update_same[of rec_id "update_record t" "rec_id r" table] by (simp add: id)
  show ?thesis
    using assms(6) upd fm
    by (simp add: store_records_def odp_refuses_def s Let_def flush_def with_ids_def enumerate_simps
        checked_def List.map_filter_def mem id existing_hashes_eq)
qed

text \<open>
  When an item with a known identity comes back with new content, its row is rewritten in place
  and keeps its key, unless the source already has another row with that content: then the flush
  fails on the unique constraint, the edit is dropped and the call still reports success with
  nothing stored and nothing skipped.
\<close>

lemma identity_update_or_dropped:
  assumes "unique_content table" and "distinct (map rec_id table)" and "r \<in> set table"
    and "find (\<lambda>q. rec_source_id q = sa_source_id a \<and> rec_identity_key q = Some i) (rev table) = Some r"
    and "rec_content_hash r \<noteq> snd (snd t)"
  shows "store_records a [t] (Some [Some i]) odp_off ids [] table =
    (if snd (snd t) \<in> stored_hashes (sa_source_id a) table then Inr ([], 0, table)
     else Inr ([update_record t r], 0,
       map (\<lambda>q. if rec_id q = rec_id r then update_record t r else q) table))"
proof -
  let ?table' = "map (\<lambda>q. if rec_id q = rec_id r then update_record t r else q) table"
  let ?key = "\<lambda>r. (rec_source_id r, rec_content_hash r)"
  have src: "rec_source_id r = sa_source_id a" using assms(4) by (auto simp: find_Some_iff)
  have key: "?key (update_record t r) = (sa_source_id a, snd (snd t))" by (simp add: update_record_def src)
  have only: "q = r" if "q \<in> set table" "rec_id q = rec_id r" for q
    using that assms(2,3) by (auto simp: distinct_map inj_on_def)
  obtain xs ys where table: "table = xs @ r # ys" using assms(3) by (auto simp: in_set_conv_decomp)
  have other: "q \<in> set xs \<union> set ys \<Longrightarrow> rec_id q \<noteq> rec_id r" for q
    using assms(2) unfolding table by (auto; metis image_eqI)
  then have "map (\<lambda>q. if rec_id q = rec_id r then update_record t r else q) xs = xs"
    "map (\<lambda>q. if rec_id q = rec_id r then update_record t r else q) ys = ys"
    by (auto intro: map_idI)
  then have t': "?table' = xs @ update_record t r # ys" by (simp add: table)
  have "unique_content ?table' \<longleftrightarrow> (sa_source_id a, snd (snd t)) \<notin> ?key ` (set xs \<union> set ys)"
    using assms(1)[unfolded table unique_content_def] key unfolding t' unique_content_def by auto
  also have "\<dots> \<longleftrightarrow> snd (snd t) \<notin> stored_hashes (sa_source_id a) table"
    using assms(5) src by (force simp: stored_hashes_def table image_iff)
  finally have "unique_content ?table' \<longleftrightarrow> snd (snd t) \<notin> stored_hashes (sa_source_id a) table" .
  moreover have "\<not> odp_refuses odp_off" by (simp add: odp_refuses_def odp_off_def)
  ultimately show ?thesis using single_update[OF assms] by (simp add: Let_def)
qed

lemma identity_update_or_dropped_witness:
  "store_records plain_args [([], [], ''h2'')] (Some [Some ''i'']) odp_off (\<lambda>i. []) []
     [plain_row ''r'' ''h1'' (Some ''i''), plain_row ''q'' ''h2'' None] =
   Inr ([], 0, [plain_row ''r'' ''h1'' (Some ''i''), plain_row ''q'' ''h2'' None])"
proof -
  let ?r = "plain_row ''r'' ''h1'' (Some ''i'')" and ?q = "plain_row ''q'' ''h2'' None"
  have "unique_content [?r, ?q]" "distinct (map rec_id [?r, ?q])"
    "find (\<lambda>q. rec_source_id q = sa_source_id plain_args \<and> rec_identity_key q = Some ''i'') (rev [?r, ?q]) = Some ?r"
    "rec_content_hash ?r \<noteq> snd (snd ([] :: json dict, [] :: json dict, ''h2''))"
    "''h2'' \<in> stored_hashes (sa_source_id plain_args) [?r, ?q]"
    by (simp_all add: unique_content_def plain_row_def new_record_def plain_args_def stored_hashes_def)
  then show ?thesis
    using identity_update_or_dropped[of "[?r, ?q]" ?r plain_args "''i''" "([], [], ''h2'')" "\<lambda>i. []"]
    by simp
qed

end
