(* ===== verification/PlanStore.thy ===== *)
theory PlanStore
  imports ValidPlans ControlState Storer
begin

text \<open>
  The tables behind plans and their services: saving plans with derived flags and the index of
  their sources (\<open>backend/services/plan_service.py\<close>), plan health
  (\<open>backend/services/plan_health_service.py\<close>), task creation
  (\<open>backend/services/task_service.py\<close>). Primary keys are the successive values of
  \<open>pdb_uuid\<close>, the readings of the clocks those of \<open>pdb_clock\<close>. The graph column holds
  the parsed document; pydantic parses it back to itself.
\<close>

section \<open>Tables\<close>

record plan_row =
  pl_id :: string
  pl_name :: string
  pl_graph :: plan_graph
  pl_version :: nat
  pl_draft :: bool
  pl_runnable :: bool

record plan_source_index =
  psi_plan_id :: string
  psi_source_id :: string
  psi_source_node_id :: string

record plan_health_record =
  ph_id :: string
  ph_plan_id :: string
  ph_run_key :: string
  ph_node_id :: string
  ph_node_type :: string
  ph_success :: bool
  ph_duration_ms :: int
  ph_items_in :: int
  ph_items_out :: int
  ph_error_message :: "string option"
  ph_detail :: "json dict"
  ph_recorded_at :: int

record plan_db =
  pdb_sources :: "data_source list"
  pdb_measurements :: "measurement_row list"
  pdb_plans :: "plan_row list"
  pdb_index :: "plan_source_index list"
  pdb_health :: "plan_health_record list"
  pdb_tasks :: "collection_task list"
  pdb_records :: "collected_record list"
  pdb_uuid :: "nat \<Rightarrow> string"
  pdb_next :: nat
  pdb_clock :: "nat \<Rightarrow> int"
  pdb_reads :: nat

definition fresh_uuid :: "plan_db \<Rightarrow> string \<times> plan_db" where
  "fresh_uuid db = (pdb_uuid db (pdb_next db), db\<lparr>pdb_next := Suc (pdb_next db)\<rparr>)"

definition monotonic_ms :: "plan_db \<Rightarrow> int \<times> plan_db" where
  "monotonic_ms db = (pdb_clock db (pdb_reads db), db\<lparr>pdb_reads := Suc (pdb_reads db)\<rparr>)"

section \<open>Saving plans\<close>

definition derive_flags :: "plan_graph \<Rightarrow> bool \<times> bool" where
  "derive_flags graph =
     (let sources = filter (\<lambda>n. node_kind n = SourceKind) (graph_nodes graph);
          draft = list_ex node_draft sources;
          runnable = (sources \<noteq> [] \<and> list_all (\<lambda>n. \<not> node_draft n) sources)
      in (draft, runnable))"

definition indexed :: "plan_node \<Rightarrow> bool" where
  "indexed n \<longleftrightarrow> node_kind n = SourceKind \<and>
     (case node_source_id n of None \<Rightarrow> False | Some s \<Rightarrow> s \<noteq> []) \<and> \<not> node_draft n"

definition reindex_plan_sources :: "string \<Rightarrow> plan_graph \<Rightarrow> plan_db \<Rightarrow> plan_db" where
  "reindex_plan_sources plan_id graph db =
     db\<lparr>pdb_index := filter (\<lambda>i. psi_plan_id i \<noteq> plan_id) (pdb_index db) @
        map (\<lambda>n. \<lparr>psi_plan_id = plan_id, psi_source_id = the (node_source_id n),
                  psi_source_node_id = node_id n\<rparr>)
          (filter indexed (graph_nodes graph))\<rparr>"

definition create_plan ::
  "string \<Rightarrow> plan_graph \<Rightarrow> bool \<Rightarrow> bool \<Rightarrow> plan_db \<Rightarrow> plan_row \<times> plan_db"
where
  "create_plan name graph draft runnable db =
     (let (pid, db1) = fresh_uuid db;
          plan = \<lparr>pl_id = pid, pl_name = name, pl_graph = graph, pl_version = 1, pl_draft = draft,
                  pl_runnable = runnable\<rparr>;
          db2 = db1\<lparr>pdb_plans := pdb_plans db1 @ [plan]\<rparr>
      in (plan, reindex_plan_sources pid graph db2))"

definition update_plan ::
  "plan_row \<Rightarrow> string option \<Rightarrow> plan_graph option \<Rightarrow> bool option \<Rightarrow> bool option \<Rightarrow> plan_db \<Rightarrow>
   plan_row \<times> plan_db"
where
  "update_plan plan name graph draft runnable db =
     (let plan1 = (case name of None \<Rightarrow> plan | Some n \<Rightarrow> plan\<lparr>pl_name := n\<rparr>);
          plan2 = (case graph of
              None \<Rightarrow> plan1
            | Some g \<Rightarrow> plan1\<lparr>pl_graph := g, pl_version := Suc (pl_version plan1),
                pl_draft := (draft = Some True), pl_runnable := (runnable = Some True)\<rparr>);
          db1 = db\<lparr>pdb_plans := map (\<lambda>p. if pl_id p = pl_id plan then plan2 else p) (pdb_plans db)\<rparr>
      in (plan2, case graph of None \<Rightarrow> db1 | Some g \<Rightarrow> reindex_plan_sources (pl_id plan2) g db1))"

text \<open>The index rows of a deleted plan go with it (\<open>ON DELETE CASCADE\<close>), as does its health.\<close>

definition delete_plan :: "plan_row \<Rightarrow> plan_db \<Rightarrow> plan_db" where
  "delete_plan plan db =
     db\<lparr>pdb_plans := filter (\<lambda>p. pl_id p \<noteq> pl_id plan) (pdb_plans db),
        pdb_index := filter (\<lambda>i. psi_plan_id i \<noteq> pl_id plan) (pdb_index db),
        pdb_health := filter (\<lambda>h. ph_plan_id h \<noteq> pl_id plan) (pdb_health db)\<rparr>"

definition get_plan :: "plan_db \<Rightarrow> string \<Rightarrow> plan_row option" where
  "get_plan db plan_id = find (\<lambda>p. pl_id p = plan_id) (pdb_plans db)"

section \<open>Health and tasks\<close>

definition record_node_health ::
  "string \<Rightarrow> string \<Rightarrow> string \<Rightarrow> string \<Rightarrow> bool \<Rightarrow> int \<Rightarrow> int \<Rightarrow> int \<Rightarrow> string option \<Rightarrow> json dict \<Rightarrow>
   plan_db \<Rightarrow> plan_db"
where
  "record_node_health plan_id run_key nid ty success duration_ms items_in items_out error detail db =
     (let (now, db1) = monotonic_ms db; (hid, db2) = fresh_uuid db1
      in db2\<lparr>pdb_health := pdb_health db2 @
           [\<lparr>ph_id = hid, ph_plan_id = plan_id, ph_run_key = run_key, ph_node_id = nid,
             ph_node_type = ty, ph_success = success, ph_duration_ms = duration_ms,
             ph_items_in = items_in, ph_items_out = items_out, ph_error_message = error,
             ph_detail = detail, ph_recorded_at = now\<rparr>]\<rparr>)"

text \<open>A task must reference an existing source; otherwise the insert violates its foreign key.\<close>

definition create_task ::
  "string \<Rightarrow> string \<Rightarrow> json dict \<Rightarrow> int \<Rightarrow> string option \<Rightarrow> plan_db \<Rightarrow> string + (collection_task \<times> plan_db)"
where
  "create_task source_id trigger_type parameters priority agent_id db =
     (if \<not> list_ex (\<lambda>s. ds_id s = source_id) (pdb_sources db)
      then Inl ''FOREIGN KEY constraint failed''
      else
        let (tid, db1) = fresh_uuid db;
            task = \<lparr>ct_id = tid, ct_source_id = source_id, ct_agent_id = agent_id,
                    ct_trigger_type = trigger_type, ct_parameters = parameters,
                    ct_priority = priority, ct_status = ''pending'',
                    ct_error_message = None, ct_recovery_mode = None\<rparr>
        in Inr (task, db1\<lparr>pdb_tasks := pdb_tasks db1 @ [task]\<rparr>))"

section \<open>Saved plans stay consistent\<close>

text \<open>
  Every plan is stored with the flags of its graph, plan keys are distinct, and the index holds
  exactly the materialized source nodes of the stored plans.
\<close>

definition index_of :: "plan_row \<Rightarrow> (string \<times> string \<times> string) set" where
  "index_of p =
     {(pl_id p, s, node_id n) |n s. n \<in> set (graph_nodes (pl_graph p)) \<and> node_kind n = SourceKind \<and>
        \<not> node_draft n \<and> node_source_id n = Some s \<and> s \<noteq> []}"

definition index_rows :: "plan_db \<Rightarrow> (string \<times> string \<times> string) set" where
  "index_rows db =
     (\<lambda>i. (psi_plan_id i, psi_source_id i, psi_source_node_id i)) ` set (pdb_index db)"

definition plans_consistent :: "plan_db \<Rightarrow> bool" where
  "plans_consistent db \<longleftrightarrow>
     distinct (map pl_id (pdb_plans db)) \<and>
     (\<forall>p \<in> set (pdb_plans db). (pl_draft p, pl_runnable p) = derive_flags (pl_graph p)) \<and>
     index_rows db = (\<Union>p \<in> set (pdb_plans db). index_of p)"

lemma indexed_iff:
  "indexed n \<longleftrightarrow> node_kind n = SourceKind \<and> \<not> node_draft n \<and>
     (\<exists>s. node_source_id n = Some s \<and> s \<noteq> [])"
  by (auto simp: indexed_def split: option.splits)

lemma reindex_rows:
  "index_rows (reindex_plan_sources pid g db) =
     {x \<in> index_rows db. fst x \<noteq> pid} \<union>
     {(pid, s, node_id n) |n s. n \<in> set (graph_nodes g) \<and> node_kind n = SourceKind \<and>
        \<not> node_draft n \<and> node_source_id n = Some s \<and> s \<noteq> []}"
proof -
  have "index_rows (reindex_plan_sources pid g db) =
      {x \<in> index_rows db. fst x \<noteq> pid} \<union>
      (\<lambda>n. (pid, the (node_source_id n), node_id n)) ` set (filter indexed (graph_nodes g))"
    by (auto simp: index_rows_def reindex_plan_sources_def image_Un image_image)
  also have "(\<lambda>n. (pid, the (node_source_id n), node_id n)) ` set (filter indexed (graph_nodes g)) =
      {(pid, s, node_id n) |n s. n \<in> set (graph_nodes g) \<and> node_kind n = SourceKind \<and>
        \<not> node_draft n \<and> node_source_id n = Some s \<and> s \<noteq> []}"
  proof (intro equalityI subsetI)
    fix x assume "x \<in> (\<lambda>n. (pid, the (node_source_id n), node_id n)) ` set (filter indexed (graph_nodes g))"
    then show "x \<in> {(pid, s, node_id n) |n s. n \<in> set (graph_nodes g) \<and> node_kind n = SourceKind \<and>
        \<not> node_draft n \<and> node_source_id n = Some s \<and> s \<noteq> []}"
      by (auto simp: indexed_iff)
  next
    fix x assume "x \<in> {(pid, s, node_id n) |n s. n \<in> set (graph_nodes g) \<and> node_kind n = SourceKind \<and>
        \<not> node_draft n \<and> node_source_id n = Some s \<and> s \<noteq> []}"
    then obtain n s where "x = (pid, s, node_id n)" "n \<in> set (filter indexed (graph_nodes g))"
      "node_source_id n = Some s"
      by (auto simp: indexed_iff)
    then show "x \<in> (\<lambda>n. (pid, the (node_source_id n), node_id n)) ` set (filter indexed (graph_nodes g))"
      by (intro image_eqI[of _ _ n]) simp_all
  qed
  finally show ?thesis .
qed

lemma index_of_id: "x \<in> index_of p \<Longrightarrow> fst x = pl_id p"
  by (auto simp: index_of_def)

lemma index_rows_reindexed:
  assumes "index_rows db = (\<Union>p \<in> P. index_of p)" and "\<And>p. p \<in> P - Q \<Longrightarrow> pl_id p \<noteq> pid"
    and "\<And>p. p \<in> P \<inter> Q \<Longrightarrow> pl_id p = pid" and "pl_id q = pid" and "pl_graph q = g"
  shows "index_rows (reindex_plan_sources pid g db) = (\<Union>p \<in> insert q (P - Q). index_of p)"
proof -
  have "{x \<in> index_rows db. fst x \<noteq> pid} = (\<Union>p \<in> P - Q. index_of p)"
    using assms(1-3) index_of_id by (auto, metis DiffI IntI, metis DiffI)
  moreover have "index_of q = {(pid, s, node_id n) |n s. n \<in> set (graph_nodes g) \<and>
      node_kind n = SourceKind \<and> \<not> node_draft n \<and> node_source_id n = Some s \<and> s \<noteq> []}"
    using assms(4,5) by (auto simp: index_of_def)
  ultimately show ?thesis unfolding reindex_rows by auto
qed

lemma create_plan_consistent:
  assumes "plans_consistent db" and "pdb_uuid db (pdb_next db) \<notin> pl_id ` set (pdb_plans db)"
    and "(draft, runnable) = derive_flags g"
  shows "plans_consistent (snd (create_plan name g draft runnable db))"
proof -
  define pid where "pid = pdb_uuid db (pdb_next db)"
  define plan where "plan = \<lparr>pl_id = pid, pl_name = name, pl_graph = g, pl_version = 1,
    pl_draft = draft, pl_runnable = runnable\<rparr>"
  define db2 where "db2 = (db\<lparr>pdb_next := Suc (pdb_next db)\<rparr>)\<lparr>pdb_plans := pdb_plans db @ [plan]\<rparr>"
  have c: "snd (create_plan name g draft runnable db) = reindex_plan_sources pid g db2"
    by (simp add: create_plan_def fresh_uuid_def Let_def pid_def plan_def db2_def)
  have "index_rows db2 = (\<Union>p \<in> set (pdb_plans db). index_of p)"
    using assms(1) by (simp add: plans_consistent_def db2_def index_rows_def)
  then have "index_rows (reindex_plan_sources pid g db2) = (\<Union>p \<in> insert plan (set (pdb_plans db) - {}). index_of p)"
    by (rule index_rows_reindexed) (use assms(2) in \<open>auto simp: plan_def pid_def, metis image_eqI\<close>)
  moreover have "pdb_plans (reindex_plan_sources pid g db2) = pdb_plans db @ [plan]"
    by (simp add: reindex_plan_sources_def db2_def)
  moreover have "pl_id plan = pid" "(pl_draft plan, pl_runnable plan) = derive_flags (pl_graph plan)"
    using assms(3) by (simp_all add: plan_def)
  ultimately show ?thesis
    using assms(1,2) unfolding c plans_consistent_def pid_def[symmetric] by auto
qed

lemma update_plan_consistent:
  assumes "plans_consistent db" and "p \<in> set (pdb_plans db)" and "(draft, runnable) = derive_flags g"
  shows "plans_consistent (snd (update_plan p name (Some g) (Some draft) (Some runnable) db))"
proof -
  define q where "q = (case name of None \<Rightarrow> p | Some n \<Rightarrow> p\<lparr>pl_name := n\<rparr>)\<lparr>pl_graph := g,
    pl_version := Suc (pl_version p), pl_draft := draft, pl_runnable := runnable\<rparr>"
  have q: "pl_id q = pl_id p" "pl_graph q = g" "(pl_draft q, pl_runnable q) = derive_flags g"
    using assms(3) by (simp_all add: q_def split: option.split)
  define db1 where "db1 = db\<lparr>pdb_plans := map (\<lambda>r. if pl_id r = pl_id p then q else r) (pdb_plans db)\<rparr>"
  have u: "snd (update_plan p name (Some g) (Some draft) (Some runnable) db) = reindex_plan_sources (pl_id p) g db1"
    by (cases name) (simp_all add: update_plan_def Let_def db1_def q_def cong: if_cong)
  have only: "r = p" if "r \<in> set (pdb_plans db)" "pl_id r = pl_id p" for r
    using that assms(1,2) by (auto simp: plans_consistent_def distinct_map inj_on_def)
  have "index_rows db1 = (\<Union>p \<in> set (pdb_plans db). index_of p)"
    using assms(1) by (simp add: plans_consistent_def db1_def index_rows_def)
  then have "index_rows (reindex_plan_sources (pl_id p) g db1) =
      (\<Union>r \<in> insert q (set (pdb_plans db) - {p}). index_of r)"
    by (rule index_rows_reindexed) (use only q in auto)
  moreover have plans: "pdb_plans (reindex_plan_sources (pl_id p) g db1) =
      map (\<lambda>r. if pl_id r = pl_id p then q else r) (pdb_plans db)"
    by (simp add: reindex_plan_sources_def db1_def)
  moreover have set: "set (map (\<lambda>r. if pl_id r = pl_id p then q else r) (pdb_plans db)) =
      insert q (set (pdb_plans db) - {p})"
    using only assms(2) by auto
  moreover have ids: "map pl_id (map (\<lambda>r. if pl_id r = pl_id p then q else r) (pdb_plans db)) =
      map pl_id (pdb_plans db)"
    using q(1) by simp
  moreover have "(pl_draft r, pl_runnable r) = derive_flags (pl_graph r)"
    if "r \<in> insert q (set (pdb_plans db) - {p})" for r
    using that q(2,3) assms(1) unfolding plans_consistent_def by auto
  ultimately show ?thesis
    using assms(1) unfolding u plans_consistent_def plans set ids by simp
qed

lemma rename_plan_consistent:
  assumes "plans_consistent db" and "p \<in> set (pdb_plans db)"
  shows "plans_consistent (snd (update_plan p name None draft runnable db))"
proof -
  define q where "q = (case name of None \<Rightarrow> p | Some n \<Rightarrow> p\<lparr>pl_name := n\<rparr>)"
  have q: "pl_id q = pl_id p" "pl_graph q = pl_graph p" "pl_draft q = pl_draft p"
    "pl_runnable q = pl_runnable p" "index_of q = index_of p"
    by (simp_all add: q_def index_of_def split: option.split)
  have only: "r = p" if "r \<in> set (pdb_plans db)" "pl_id r = pl_id p" for r
    using that assms by (auto simp: plans_consistent_def distinct_map inj_on_def)
  have plans: "pdb_plans (snd (update_plan p name None draft runnable db)) =
      map (\<lambda>r. if pl_id r = pl_id p then q else r) (pdb_plans db)"
    "index_rows (snd (update_plan p name None draft runnable db)) = index_rows db"
    by (simp_all add: update_plan_def Let_def q_def index_rows_def)
  have ix: "index_of (if pl_id r = pl_id p then q else r) = index_of r" if "r \<in> set (pdb_plans db)" for r
    using only[OF that] q(5) by (cases "pl_id r = pl_id p") auto
  have ids: "map pl_id (map (\<lambda>r. if pl_id r = pl_id p then q else r) (pdb_plans db)) = map pl_id (pdb_plans db)"
    using q(1) by simp
  have fl: "(pl_draft r', pl_runnable r') = derive_flags (pl_graph r')"
    if "r' \<in> set (map (\<lambda>r. if pl_id r = pl_id p then q else r) (pdb_plans db))" for r'
    using that q(2-4) assms by (auto simp: plans_consistent_def split: if_splits)
  have "(\<Union>r \<in> set (map (\<lambda>r. if pl_id r = pl_id p then q else r) (pdb_plans db)). index_of r) =
      (\<Union>r \<in> set (pdb_plans db). index_of r)"
    unfolding set_map image_image using ix by (intro SUP_cong) auto
  then show ?thesis
    using assms(1) fl unfolding plans_consistent_def plans ids by simp
qed

lemma delete_plan_consistent:
  assumes "plans_consistent db"
  shows "plans_consistent (delete_plan p db)"
proof -
  have "index_rows (delete_plan p db) = {x \<in> index_rows db. fst x \<noteq> pl_id p}"
    by (auto simp: index_rows_def delete_plan_def)
  also have "\<dots> = (\<Union>r \<in> {r \<in> set (pdb_plans db). pl_id r \<noteq> pl_id p}. index_of r)"
    using assms index_of_id by (fastforce simp: plans_consistent_def)
  finally show ?thesis
    using assms by (auto simp: plans_consistent_def delete_plan_def distinct_map inj_on_def)
qed

text \<open>
  Saving keeps the plan tables consistent: creating a plan with the flags derived from its graph
  and a fresh key, updating its graph with rederived flags, renaming it and deleting it all
  preserve that every stored plan carries the flags of its graph and that the trigger index
  lists exactly the materialized source nodes of the stored plans.
\<close>

lemma plan_saves_consistent:
  assumes "plans_consistent db"
  shows "(pdb_uuid db (pdb_next db) \<notin> pl_id ` set (pdb_plans db) \<longrightarrow>
      plans_consistent (snd (create_plan name g (fst (derive_flags g)) (snd (derive_flags g)) db))) \<and>
    (p \<in> set (pdb_plans db) \<longrightarrow>
      plans_consistent (snd (update_plan p name' (Some g) (Some (fst (derive_flags g)))
        (Some (snd (derive_flags g))) db)) \<and>
      plans_consistent (snd (update_plan p name' None fl rn db))) \<and>
    plans_consistent (delete_plan p db)"
  using assms create_plan_consistent[OF assms] update_plan_consistent[OF assms]
    rename_plan_consistent[OF assms] delete_plan_consistent[OF assms]
  by simp

definition empty_pdb :: plan_db where
  "empty_pdb = \<lparr>pdb_sources = [], pdb_measurements = [], pdb_plans = [], pdb_index = [],
     pdb_health = [], pdb_tasks = [], pdb_records = [], pdb_uuid = (\<lambda>n. ''u'' @ show_nat n),
     pdb_next = 0, pdb_clock = (\<lambda>_. 0), pdb_reads = 0\<rparr>"

lemma plan_saves_consistent_witness:
  "plans_consistent (snd (create_plan ''p'' loop_plan False False empty_pdb)) \<and>
   length (pdb_plans (snd (create_plan ''p'' loop_plan False False empty_pdb))) = 1"
proof
  have "plans_consistent empty_pdb"
    by (simp add: plans_consistent_def empty_pdb_def index_rows_def)
  moreover have "derive_flags loop_plan = (False, False)"
    by (simp add: derive_flags_def loop_plan_def)
  ultimately show "plans_consistent (snd (create_plan ''p'' loop_plan False False empty_pdb))"
    using plan_saves_consistent[of empty_pdb "''p''" loop_plan] by (simp add: empty_pdb_def)
  show "length (pdb_plans (snd (create_plan ''p'' loop_plan False False empty_pdb))) = 1"
    by (simp add: create_plan_def fresh_uuid_def reindex_plan_sources_def empty_pdb_def Let_def)
qed

end
