(* ===== verification/GraphSearch.thy ===== *)
theory GraphSearch
  imports Prelude
begin

text \<open>
  Worklist reachability. Three components walk a graph with a stack of pending nodes and a set
  of visited ones (the executor's merge check and segment order, the trigger scope of a
  workflow); the interface \<open>worklist\<close> states what their loops have in common, and what it
  takes for such a loop to compute exactly the reachable nodes. The head of a pending list is
  the node \<open>list.pop()\<close> takes next.
\<close>

inductive_set reach :: "('a \<Rightarrow> 'a list) \<Rightarrow> ('a \<Rightarrow> bool) \<Rightarrow> 'a set \<Rightarrow> 'a set"
  for succ :: "'a \<Rightarrow> 'a list" and ok :: "'a \<Rightarrow> bool" and S :: "'a set"
where
  reach_start: "x \<in> S \<Longrightarrow> ok x \<Longrightarrow> x \<in> reach succ ok S"
| reach_next: "x \<in> reach succ ok S \<Longrightarrow> y \<in> set (succ x) \<Longrightarrow> ok y \<Longrightarrow> y \<in> reach succ ok S"

lemma reach_mono: "x \<in> reach succ ok S \<Longrightarrow> S \<subseteq> T \<Longrightarrow> x \<in> reach succ ok T"
  by (induction rule: reach.induct) (auto intro: reach.intros)

lemma reach_ok: "x \<in> reach succ ok S \<Longrightarrow> ok x"
  by (induction rule: reach.induct) auto

lemma reach_Un: "reach succ ok (S \<union> T) = reach succ ok S \<union> reach succ ok T"
proof
  show "reach succ ok (S \<union> T) \<subseteq> reach succ ok S \<union> reach succ ok T"
  proof
    fix x assume "x \<in> reach succ ok (S \<union> T)"
    then show "x \<in> reach succ ok S \<union> reach succ ok T"
      by induction (auto intro: reach.intros)
  qed
  show "reach succ ok S \<union> reach succ ok T \<subseteq> reach succ ok (S \<union> T)"
    by (auto intro: reach_mono)
qed

lemma reach_reach: "x \<in> reach succ ok (reach succ ok S) \<Longrightarrow> x \<in> reach succ ok S"
  by (induction rule: reach.induct) (auto intro: reach.intros)

lemma reach_all: "reach succ (\<lambda>_. True) S = {y. \<exists>x \<in> S. (x, y) \<in> {(a, b). b \<in> set (succ a)}\<^sup>*}"
proof (intro equalityI subsetI)
  fix y assume "y \<in> reach succ (\<lambda>_. True) S"
  then show "y \<in> {y. \<exists>x \<in> S. (x, y) \<in> {(a, b). b \<in> set (succ a)}\<^sup>*}"
    by induction (auto intro: rtrancl_into_rtrancl)
next
  fix y assume "y \<in> {y. \<exists>x \<in> S. (x, y) \<in> {(a, b). b \<in> set (succ a)}\<^sup>*}"
  then obtain x where "x \<in> S" "(x, y) \<in> {(a, b). b \<in> set (succ a)}\<^sup>*" by blast
  from this(2,1) show "y \<in> reach succ (\<lambda>_. True) S"
    by (induction rule: rtrancl_induct) (auto intro: reach.intros)
qed

locale worklist =
  fixes succ :: "'a \<Rightarrow> 'a list" and ok :: "'a \<Rightarrow> bool"
    and push :: "'a \<Rightarrow> 'a set \<Rightarrow> 'a list"
    and loop :: "'a list \<Rightarrow> 'a set \<Rightarrow> 'a set"
  assumes loop_done: "loop [] seen = seen"
    and loop_skip: "x \<in> seen \<or> \<not> ok x \<Longrightarrow> loop (x # pending) seen = loop pending seen"
    and loop_visit: "x \<notin> seen \<Longrightarrow> ok x \<Longrightarrow>
      loop (x # pending) seen = loop (push x seen @ pending) (insert x seen)"
    and push_sound: "set (push x seen) \<subseteq> set (succ x)"
    and push_complete: "set (succ x) \<subseteq> insert x seen \<union> set (push x seen)"
    and finite_graph: "finite {x. succ x \<noteq> []}"
begin

lemma push_Nil: "succ x = [] \<Longrightarrow> push x seen = []"
  using push_sound[of x seen] by simp

lemma worklist_induct [case_names finish skip visit]:
  assumes fin: "\<And>seen. P [] seen"
    and skip: "\<And>x pending seen. x \<in> seen \<or> \<not> ok x \<Longrightarrow> P pending seen \<Longrightarrow> P (x # pending) seen"
    and visit: "\<And>x pending seen. x \<notin> seen \<Longrightarrow> ok x \<Longrightarrow> P (push x seen @ pending) (insert x seen) \<Longrightarrow>
      P (x # pending) seen"
  shows "P pending seen"
proof -
  let ?todo = "\<lambda>seen. {x. succ x \<noteq> []} - seen"
  have "card (?todo seen) = n \<Longrightarrow> P pending seen" for n
  proof (induction n arbitrary: pending seen rule: less_induct)
    case (less n)
    from less.prems show ?case
    proof (induction pending arbitrary: seen)
      case Nil
      show ?case by (rule fin)
    next
      case (Cons x pending)
      consider "x \<in> seen \<or> \<not> ok x" | "x \<notin> seen" "ok x" "succ x = []" | "x \<notin> seen" "ok x" "succ x \<noteq> []"
        by blast
      then show ?case
      proof cases
        case 1
        then show ?thesis using Cons skip by blast
      next
        case 2
        then have "?todo (insert x seen) = ?todo seen" by auto
        then have "P (push x seen @ pending) (insert x seen)"
          using Cons push_Nil[OF 2(3)] by simp
        with 2 show ?thesis by (intro visit)
      next
        case 3
        then have "card (?todo (insert x seen)) < card (?todo seen)"
          using finite_graph by (intro psubset_card_mono) auto
        then have "P (push x seen @ pending) (insert x seen)"
          using less.IH Cons.prems by blast
        with 3 show ?thesis by (intro visit)
      qed
    qed
  qed
  then show ?thesis by blast
qed

lemma loop_mono: "seen \<subseteq> loop pending seen"
  by (induction pending seen rule: worklist_induct) (auto simp: loop_done loop_skip loop_visit)

lemma loop_starts: "x \<in> set pending \<Longrightarrow> ok x \<Longrightarrow> x \<in> loop pending seen"
proof (induction pending seen rule: worklist_induct)
  case (skip y pending seen)
  with loop_mono show ?case by (auto simp: loop_skip)
next
  case (visit y pending seen)
  with loop_mono[of "insert y seen"] show ?case by (auto simp: loop_visit)
qed simp

lemma loop_sound: "loop pending seen \<subseteq> seen \<union> reach succ ok (set pending)"
proof (induction pending seen rule: worklist_induct)
  case (finish seen)
  show ?case by (simp add: loop_done)
next
  case (skip x pending seen)
  then show ?case by (auto simp: loop_skip intro: reach_mono)
next
  case (visit x pending seen)
  have "reach succ ok (set (push x seen @ pending)) \<subseteq> reach succ ok (set (x # pending))"
  proof
    fix y assume "y \<in> reach succ ok (set (push x seen @ pending))"
    then show "y \<in> reach succ ok (set (x # pending))"
    proof induction
      case (reach_start y)
      with push_sound[of x seen] visit(2) show ?case by (auto intro: reach.intros)
    qed (auto intro: reach.intros)
  qed
  with visit show ?case by (auto simp: loop_visit intro: reach.intros)
qed

text \<open>Successors of visited nodes are visited or still pending.\<close>

lemma loop_closed:
  assumes "\<And>x y. x \<in> seen \<Longrightarrow> y \<in> set (succ x) \<Longrightarrow> ok y \<Longrightarrow> y \<in> seen \<union> set pending"
    and "x \<in> loop pending seen" and "y \<in> set (succ x)" and "ok y"
  shows "y \<in> loop pending seen"
  using assms
proof (induction pending seen rule: worklist_induct)
  case (finish seen)
  then show ?case by (simp add: loop_done)
next
  case (skip z pending seen)
  then have "\<And>x y. x \<in> seen \<Longrightarrow> y \<in> set (succ x) \<Longrightarrow> ok y \<Longrightarrow> y \<in> seen \<union> set pending" by fastforce
  with skip show ?case by (simp add: loop_skip)
next
  case (visit z pending seen)
  have "\<And>x y. x \<in> insert z seen \<Longrightarrow> y \<in> set (succ x) \<Longrightarrow> ok y \<Longrightarrow>
      y \<in> insert z seen \<union> set (push z seen @ pending)"
    using visit.prems(1) push_complete[of z seen] by fastforce
  with visit show ?case by (simp add: loop_visit)
qed

lemma loop_reach: "loop pending {} = reach succ ok (set pending)"
proof
  show "loop pending {} \<subseteq> reach succ ok (set pending)" using loop_sound[of pending "{}"] by simp
  show "reach succ ok (set pending) \<subseteq> loop pending {}"
  proof
    fix x assume "x \<in> reach succ ok (set pending)"
    then show "x \<in> loop pending {}"
      by induction (auto intro: loop_starts loop_closed)
  qed
qed

end

end
