(* ===== verification/Kahn.thy ===== *)
theory Kahn
  imports Prelude
begin

text \<open>
  Kahn's algorithm. Three components order nodes by repeatedly emitting one without pending
  predecessors (the shared segments of plans, the cycle check and the run order of the workflow
  compiler); they differ in the order in which ready nodes are queued. What they share is the pass
  over the successors of an emitted node, \<open>relax\<close>, and the invariant of the locale
  \<open>kahn_graph\<close>.
\<close>

section \<open>One pass over the successors\<close>

definition relax ::
  "string list \<Rightarrow> string \<Rightarrow> (string \<Rightarrow> int) \<times> string list \<Rightarrow> (string \<Rightarrow> int) \<times> string list"
where
  "relax shared nxt = (\<lambda>(deg, ready).
     if nxt \<notin> set shared then (deg, ready)
     else let d = deg nxt - 1
          in (deg(nxt := d), if d = 0 then ready @ [nxt] else ready))"

definition kahn_measure :: "string list \<Rightarrow> (string \<Rightarrow> int) \<times> string list \<Rightarrow> nat" where
  "kahn_measure shared st = length (snd st) + length (filter (\<lambda>v. 0 < fst st v) shared)"

lemma filter_length_le: "(\<And>x. Q x \<Longrightarrow> P x) \<Longrightarrow> length (filter Q xs) \<le> length (filter P xs)"
  by (induction xs) auto

lemma filter_length_less:
  "(\<And>x. Q x \<Longrightarrow> P x) \<Longrightarrow> y \<in> set xs \<Longrightarrow> P y \<Longrightarrow> \<not> Q y \<Longrightarrow> length (filter Q xs) < length (filter P xs)"
  by (induction xs) (auto simp: less_Suc_eq_le filter_length_le)

lemma kahn_measure_relax: "kahn_measure shared (relax shared nxt st) \<le> kahn_measure shared st"
proof (cases "nxt \<in> set shared")
  case True
  obtain deg ready where st: "st = (deg, ready)" by (cases st)
  show ?thesis
  proof (cases "deg nxt = 1")
    case one: True
    have "length (filter (\<lambda>v. 0 < (deg(nxt := 0)) v) shared) < length (filter (\<lambda>v. 0 < deg v) shared)"
      using True one by (intro filter_length_less[of _ _ nxt]) (auto split: if_splits)
    with True one st show ?thesis by (simp add: relax_def kahn_measure_def Let_def)
  next
    case False
    have "length (filter (\<lambda>v. 0 < (deg(nxt := deg nxt - 1)) v) shared) \<le> length (filter (\<lambda>v. 0 < deg v) shared)"
      by (intro filter_length_le) (auto split: if_splits)
    with True False st show ?thesis by (simp add: relax_def kahn_measure_def Let_def)
  qed
qed (simp add: relax_def case_prod_unfold)

lemma kahn_measure_fold: "kahn_measure shared (fold (relax shared) ds st) \<le> kahn_measure shared st"
proof (induction ds arbitrary: st)
  case (Cons d ds)
  from order_trans[OF Cons.IH kahn_measure_relax] show ?case by simp
qed simp

lemma count_list_sort: "count_list (sort xs) y = count_list xs y" for xs :: "'a :: linorder list"
proof -
  have "count_list (insort a xs) y = count_list (a # xs) y" for a :: 'a and xs
    by (induction xs) auto
  then show ?thesis by (induction xs) auto
qed

lemma relax_Pair:
  "relax shared d (deg, ready) =
     (if d \<in> set shared
      then (deg(d := deg d - 1), if deg d = 1 then ready @ [d] else ready) else (deg, ready))"
  by (simp add: relax_def Let_def)

lemma relax_fold:
  assumes "\<forall>v \<in> set ready. deg v \<le> 0" and "distinct ready" and "set ready \<subseteq> set shared"
    and "(deg', ready') = fold (relax shared) ds (deg, ready)"
  shows "\<And>v. v \<in> set shared \<Longrightarrow> deg' v = deg v - int (count_list ds v)"
    and "distinct ready'"
    and "set ready' = set ready \<union> {v \<in> set shared. 0 < deg v \<and> deg v \<le> int (count_list ds v)}"
  using assms
proof (atomize (full), induction ds arbitrary: deg ready)
  case Nil
  then show ?case by auto
next
  case (Cons d ds)
  show ?case
  proof (cases "d \<in> set shared")
    case False
    have "count_list (d # ds) v = count_list ds v" if "v \<in> set shared" for v using that False by auto
    moreover have "(deg', ready') = fold (relax shared) ds (deg, ready)"
      using Cons.prems(4) False by (simp add: relax_Pair)
    ultimately show ?thesis using Cons.IH[of ready deg] Cons.prems(1-3) False
      by (auto simp del: count_list.simps)
  next
    case True
    define deg1 where "deg1 = deg(d := deg d - 1)"
    define ready1 where "ready1 = (if deg d = 1 then ready @ [d] else ready)"
    have step: "(deg', ready') = fold (relax shared) ds (deg1, ready1)"
      using Cons.prems(4) True by (simp add: relax_Pair deg1_def ready1_def)
    have "d \<in> set ready \<Longrightarrow> deg d \<le> 0" using Cons.prems(1) by blast
    then have ok: "\<forall>v \<in> set ready1. deg1 v \<le> 0" "distinct ready1" "set ready1 \<subseteq> set shared"
      using Cons.prems(1-3) True by (auto simp: deg1_def ready1_def)
    have ih: "\<forall>v. v \<in> set shared \<longrightarrow> deg' v = deg1 v - int (count_list ds v)" "distinct ready'"
      "set ready' = set ready1 \<union> {v \<in> set shared. 0 < deg1 v \<and> deg1 v \<le> int (count_list ds v)}"
      using Cons.IH[of ready1 deg1] ok step by blast+
    have "deg1 v - int (count_list ds v) = deg v - int (count_list (d # ds) v)" for v
      by (simp add: deg1_def)
    moreover have "set ready1 \<union> {v \<in> set shared. 0 < deg1 v \<and> deg1 v \<le> int (count_list ds v)} =
        set ready \<union> {v \<in> set shared. 0 < deg v \<and> deg v \<le> int (count_list (d # ds) v)}"
      using True by (auto simp: deg1_def ready1_def split: if_splits)
    ultimately show ?thesis using ih by simp
  qed
qed

lemma all_counted:
  "length (filter Q xs) = length (filter P xs) \<Longrightarrow> (\<And>x. Q x \<Longrightarrow> P x) \<Longrightarrow> x \<in> set xs \<Longrightarrow> P x \<Longrightarrow> Q x"
  using filter_length_less[of Q P x xs] by (metis less_irrefl)

lemma filter_insert_count:
  "n \<notin> A \<Longrightarrow> length (filter (\<lambda>u. u \<in> insert n A) us) = length (filter (\<lambda>u. u \<in> A) us) + count_list us n"
  by (induction us) auto

section \<open>The invariant\<close>

text \<open>
  \<open>up\<close> and \<open>down\<close> list predecessors and successors with multiplicity; predecessors in
  \<open>counted\<close> are the ones a node waits for.
\<close>

locale kahn_graph =
  fixes up down :: "string \<Rightarrow> string list" and nodes :: "string list" and counted :: "string set"
  assumes dual: "u \<in> set nodes \<Longrightarrow> v \<in> set nodes \<Longrightarrow> count_list (down u) v = count_list (up v) u"
    and nodes_counted: "set nodes \<subseteq> counted"
begin

definition degree :: "string \<Rightarrow> int" where
  "degree v = int (length (filter (\<lambda>u. u \<in> counted) (up v)))"

definition inv :: "(string \<Rightarrow> int) \<Rightarrow> string list \<Rightarrow> string list \<Rightarrow> bool" where
  "inv deg ready ordered \<longleftrightarrow>
     distinct (ordered @ ready) \<and> set (ordered @ ready) \<subseteq> set nodes \<and>
     (\<forall>v \<in> set nodes. deg v = degree v - int (length (filter (\<lambda>u. u \<in> set ordered) (up v)))) \<and>
     (\<forall>v \<in> set nodes. v \<in> set (ordered @ ready) \<longleftrightarrow> deg v = 0) \<and>
     (\<forall>xs v ys. ordered = xs @ v # ys \<longrightarrow> set (up v) \<inter> counted \<subseteq> set xs)"

lemma inv_initial:
  assumes "distinct ready" and "set ready = {v \<in> set nodes. degree v = 0}"
    and "\<And>v. v \<in> set nodes \<Longrightarrow> deg v = degree v"
  shows "inv deg ready []"
  using assms by (auto simp: inv_def)

lemma inv_before:
  "inv deg ready ordered \<Longrightarrow> ordered = xs @ v # ys \<Longrightarrow> u \<in> set (up v) \<Longrightarrow> u \<in> counted \<Longrightarrow> u \<in> set xs"
  unfolding inv_def by blast

lemma inv_step:
  assumes inv: "inv deg (nid # ready) ordered"
    and deg': "\<And>v. v \<in> set nodes \<Longrightarrow> deg' v = deg v - int (count_list (down nid) v)"
    and ready': "distinct ready'"
      "set ready' = set ready \<union> {v \<in> set nodes. 0 < deg v \<and> deg v \<le> int (count_list (down nid) v)}"
  shows "inv deg' ready' (ordered @ [nid])"
proof -
  have dist: "distinct (ordered @ nid # ready)" and sub: "set (ordered @ nid # ready) \<subseteq> set nodes"
    and deg: "\<And>v. v \<in> set nodes \<Longrightarrow> deg v = degree v - int (length (filter (\<lambda>u. u \<in> set ordered) (up v)))"
    and zero: "\<And>v. v \<in> set nodes \<Longrightarrow> v \<in> set (ordered @ nid # ready) \<longleftrightarrow> deg v = 0"
    and before: "\<And>xs v ys. ordered = xs @ v # ys \<Longrightarrow> set (up v) \<inter> counted \<subseteq> set xs"
    using inv by (auto simp: inv_def)
  have nid: "nid \<in> set nodes" "deg nid = 0" using sub zero[of nid] by auto
  have d': "deg' v = degree v - int (length (filter (\<lambda>u. u \<in> set (ordered @ [nid])) (up v)))"
    if "v \<in> set nodes" for v
    using deg'[OF that] deg[OF that] dual[OF nid(1) that] filter_insert_count[of nid "set ordered" "up v"] dist
    by simp
  have nonneg: "0 \<le> deg' v" if "v \<in> set nodes" for v
  proof -
    have "length (filter (\<lambda>u. u \<in> set (ordered @ [nid])) (up v)) \<le> length (filter (\<lambda>u. u \<in> counted) (up v))"
      using sub nodes_counted by (intro filter_length_le) auto
    then show ?thesis unfolding d'[OF that] degree_def by linarith
  qed
  have z': "v \<in> set ((ordered @ [nid]) @ ready') \<longleftrightarrow> deg' v = 0" if "v \<in> set nodes" for v
  proof -
    have "v \<in> set ((ordered @ [nid]) @ ready') \<longleftrightarrow> v \<in> set (ordered @ nid # ready) \<or>
        0 < deg v \<and> deg v \<le> int (count_list (down nid) v)"
      using that unfolding set_append ready'(2) by simp
    also have "\<dots> \<longleftrightarrow> deg v = 0 \<or> 0 < deg v \<and> deg v \<le> int (count_list (down nid) v)"
      unfolding zero[OF that] ..
    also have "\<dots> \<longleftrightarrow> deg' v = 0" using deg'[OF that] nonneg[OF that] by linarith
    finally show ?thesis .
  qed
  have "v \<notin> set (ordered @ [nid])" if "v \<in> set ready'" for v
  proof
    assume v: "v \<in> set (ordered @ [nid])"
    then have "deg v = 0" using zero[of v] sub by auto
    with that ready'(2) have "v \<in> set ready" by simp
    with v dist show False by auto
  qed
  then have dist': "distinct ((ordered @ [nid]) @ ready')" using dist ready'(1) by auto
  have "set (up nid) \<inter> counted \<subseteq> set ordered"
  proof
    fix u assume u: "u \<in> set (up nid) \<inter> counted"
    have "length (filter (\<lambda>u. u \<in> set ordered) (up nid)) = length (filter (\<lambda>u. u \<in> counted) (up nid))"
      using deg[OF nid(1)] nid(2) by (simp add: degree_def)
    from all_counted[OF this, of u] u sub nodes_counted show "u \<in> set ordered" by auto
  qed
  then have before': "set (up v) \<inter> counted \<subseteq> set xs" if "ordered @ [nid] = xs @ v # ys" for xs v ys
    using that before by (cases ys rule: rev_cases) auto
  have "set ready' \<subseteq> set nodes" using ready'(2) sub by auto
  with dist' sub d' z' before' show ?thesis by (auto simp: inv_def)
qed

lemma inv_relax:
  assumes "inv deg (nid # ready) ordered" and "\<And>v. count_list ds v = count_list (down nid) v"
    and "(deg', ready') = fold (relax nodes) ds (deg, ready)"
  shows "inv deg' ready' (ordered @ [nid])"
proof (rule inv_step[OF assms(1)])
  have le0: "\<forall>v \<in> set ready. deg v \<le> 0" and "distinct ready" "set ready \<subseteq> set nodes"
    using assms(1) by (auto simp: inv_def)
  note rf = relax_fold[OF this assms(3), unfolded assms(2)]
  show "deg' v = deg v - int (count_list (down nid) v)" if "v \<in> set nodes" for v using rf(1)[OF that] .
  show "distinct ready'" using rf(2) .
  show "set ready' = set ready \<union> {v \<in> set nodes. 0 < deg v \<and> deg v \<le> int (count_list (down nid) v)}"
    using rf(3) .
qed

lemma inv_queued:
  assumes "inv deg (nid # ready) ordered"
    and "(deg', newly) = fold (relax nodes) (down nid) (deg, [])"
    and "distinct newly'" and "set newly' = set newly"
  shows "inv deg' (ready @ newly') (ordered @ [nid])"
proof (rule inv_step[OF assms(1)])
  note rf = relax_fold[of "[]", OF _ _ _ assms(2), simplified]
  show "deg' v = deg v - int (count_list (down nid) v)" if "v \<in> set nodes" for v using rf(1)[OF that] .
  show "set (ready @ newly') = set ready \<union> {v \<in> set nodes. 0 < deg v \<and> deg v \<le> int (count_list (down nid) v)}"
    using rf(3) assms(4) by simp
  have "deg v = 0" if "v \<in> set ready" for v using assms(1) that by (auto simp: inv_def)
  then have "set ready \<inter> set newly = {}" using rf(3) by force
  then show "distinct (ready @ newly')" using assms(1,3,4) by (auto simp: inv_def)
qed

text \<open>When nothing is ready any more, what was not emitted waits for something not emitted.\<close>

lemma inv_stuck:
  assumes "inv deg [] ordered" and "v \<in> set nodes" and "v \<notin> set ordered"
  shows "\<exists>u \<in> set (up v) \<inter> counted. u \<notin> set ordered"
proof (rule ccontr)
  assume "\<not> (\<exists>u \<in> set (up v) \<inter> counted. u \<notin> set ordered)"
  moreover have "set ordered \<subseteq> counted" using assms(1) nodes_counted by (auto simp: inv_def)
  ultimately have "filter (\<lambda>u. u \<in> counted) (up v) = filter (\<lambda>u. u \<in> set ordered) (up v)"
    by (intro filter_cong) auto
  then have "deg v = 0" using assms(1,2) by (auto simp: inv_def degree_def)
  with assms show False by (auto simp: inv_def)
qed

definition waits :: "(string \<times> string) set" where
  "waits = {(u, v). u \<in> set nodes \<and> v \<in> set nodes \<and> u \<in> set (up v)}"

text \<open>What was emitted comes after everything it waits for, directly or not.\<close>

lemma inv_earlier:
  assumes inv: "inv deg [] ordered" and "(u, v) \<in> waits\<^sup>+" and "ordered = xs @ v # ys"
  shows "u \<in> set xs"
  using assms(2,3)
proof (induction arbitrary: xs ys rule: trancl_induct)
  case (base v)
  with inv nodes_counted show ?case unfolding inv_def waits_def by blast
next
  case (step v w)
  then have "v \<in> set xs" using inv nodes_counted unfolding inv_def waits_def by blast
  then obtain as bs where "xs = as @ v # bs" by (meson split_list)
  with step show ?case by fastforce
qed

text \<open>The nodes left over are exactly those on a cycle or behind one.\<close>

lemma inv_left_over:
  assumes inv: "inv deg [] ordered" and counted: "counted = set nodes" and v: "v \<in> set nodes"
  shows "v \<notin> set ordered \<longleftrightarrow> (\<exists>c. (c, c) \<in> waits\<^sup>+ \<and> (c, v) \<in> waits\<^sup>*)"
proof
  assume "v \<notin> set ordered"
  define rest where "rest = set nodes - set ordered"
  define Q where "Q = waits \<inter> rest \<times> rest"
  define A where "A = {u. (u, v) \<in> Q\<^sup>*}"
  have A: "A \<subseteq> rest" "v \<in> A"
  proof -
    show "v \<in> A" by (simp add: A_def)
    have "u \<in> rest" if "(u, v) \<in> Q\<^sup>*" for u
      using that
      by (induction rule: converse_rtrancl_induct)
        (use \<open>v \<notin> set ordered\<close> v in \<open>auto simp: Q_def rest_def\<close>)
    then show "A \<subseteq> rest" by (auto simp: A_def)
  qed
  have pred: "\<exists>x \<in> A. (x, u) \<in> Q" if "u \<in> A" for u
  proof -
    have "u \<in> rest" using A that by blast
    then obtain x where "x \<in> set (up u)" "x \<in> rest"
      using inv_stuck[OF inv, of u] counted by (auto simp: rest_def)
    then have "(x, u) \<in> Q" using \<open>u \<in> rest\<close> by (auto simp: Q_def waits_def rest_def)
    then show ?thesis using that by (auto simp: A_def intro: converse_rtrancl_into_rtrancl)
  qed
  have "finite Q" by (rule finite_subset[of _ "set nodes \<times> set nodes"]) (auto simp: Q_def rest_def)
  then have "finite (Q \<inter> A \<times> A)" by blast
  moreover have "\<not> wf (Q \<inter> A \<times> A)"
  proof
    assume "wf (Q \<inter> A \<times> A)"
    from wfE_min[OF this A(2)] obtain z where "z \<in> A" "\<And>y. (y, z) \<in> Q \<inter> A \<times> A \<Longrightarrow> y \<notin> A" by blast
    with pred show False by blast
  qed
  ultimately obtain c where c: "(c, c) \<in> (Q \<inter> A \<times> A)\<^sup>+"
    using finite_acyclic_wf by (auto simp: acyclic_def)
  then have "c \<in> A" by (meson IntD2 SigmaD1 tranclD)
  moreover have "(c, c) \<in> waits\<^sup>+" using c by (rule trancl_mono) (auto simp: Q_def)
  moreover have "Q\<^sup>* \<subseteq> waits\<^sup>*" by (rule rtrancl_mono) (auto simp: Q_def)
  ultimately show "\<exists>c. (c, c) \<in> waits\<^sup>+ \<and> (c, v) \<in> waits\<^sup>*" by (auto simp: A_def)
next
  assume "\<exists>c. (c, c) \<in> waits\<^sup>+ \<and> (c, v) \<in> waits\<^sup>*"
  then obtain c where c: "(c, c) \<in> waits\<^sup>+" "(c, v) \<in> waits\<^sup>*" by blast
  then have cv: "(c, v) \<in> waits\<^sup>+" by (rule trancl_rtrancl_trancl)
  show "v \<notin> set ordered"
  proof
    assume "v \<in> set ordered"
    then obtain xs ys where v: "ordered = xs @ v # ys" by (meson split_list)
    from inv_earlier[OF inv cv v] have "c \<in> set ordered" using v by auto
    then obtain as bs where as: "ordered = as @ c # bs" by (meson split_list)
    from inv_earlier[OF inv c(1) as] inv as show False by (auto simp: inv_def)
  qed
qed

lemma inv_acyclic:
  assumes "inv deg [] ordered" and "counted = set nodes"
  shows "set nodes \<subseteq> set ordered \<longleftrightarrow> acyclic waits"
proof -
  have "c \<in> set nodes" if "(c, c) \<in> waits\<^sup>+" for c using that by (auto simp: waits_def dest: tranclD)
  then show ?thesis
    using inv_left_over[OF assms] by (auto simp: acyclic_def)
qed

end

end
