(* ===== verification/SegmentOrder.thy ===== *)
theory SegmentOrder
  imports ValidPlans GraphSearch Kahn
begin

text \<open>
  Where the shared segment of a plan lies and in which order it runs: the guard on the merge
  shape and Kahn's algorithm of the executor (\<open>backend/plan_ir/executor.py\<close>). Python
  iterates over sets in an unspecified order; start nodes are a list here, and the results are
  shown not to depend on its order.
\<close>

section \<open>Reachability loops\<close>

text \<open>The loop of \<open>_shared_segment_topo_order\<close>, which skips ids that name no node.\<close>

function reach_loop :: "plan_graph \<Rightarrow> string list \<Rightarrow> string set \<Rightarrow> string set" where
  "reach_loop graph [] reachable = reachable"
| "reach_loop graph (nid # frontier) reachable =
     (if nid \<in> reachable \<or> nodes_by_id graph nid = None
      then reach_loop graph frontier reachable
      else reach_loop graph (rev (downstream_of graph nid) @ frontier) (insert nid reachable))"
  by pat_completeness auto

text \<open>The loop of \<open>_require_merge_shape\<close>, for one source node.\<close>

function seen_loop :: "plan_graph \<Rightarrow> string list \<Rightarrow> string set \<Rightarrow> string set" where
  "seen_loop graph [] seen = seen"
| "seen_loop graph (nid # frontier) seen =
     (if nid \<in> seen then seen_loop graph frontier seen
      else seen_loop graph (rev (downstream_of graph nid) @ frontier) (insert nid seen))"
  by pat_completeness auto

lemma visit_decreases:
  "x \<notin> seen \<Longrightarrow> downstream_of graph x = [] \<or>
     card ({z. downstream_of graph z \<noteq> []} - insert x seen) < card ({z. downstream_of graph z \<noteq> []} - seen)"
  using finite_with_successors[of graph] by (auto intro!: psubset_card_mono)

lemma leaf_keeps:
  "downstream_of graph x = [] \<Longrightarrow>
     {z. downstream_of graph z \<noteq> []} - insert x seen = {z. downstream_of graph z \<noteq> []} - seen"
  by auto

termination reach_loop
proof (relation "measures [\<lambda>(g, ps, seen). card ({z. downstream_of g z \<noteq> []} - seen),
    \<lambda>(g, ps, seen). length ps]", goal_cases)
  case (3 graph nid frontier reachable)
  then show ?case using visit_decreases[of nid reachable graph] leaf_keeps[of graph nid reachable] by auto
qed auto

termination seen_loop
proof (relation "measures [\<lambda>(g, ps, seen). card ({z. downstream_of g z \<noteq> []} - seen),
    \<lambda>(g, ps, seen). length ps]", goal_cases)
  case (3 graph nid frontier seen)
  then show ?case using visit_decreases[of nid seen graph] leaf_keeps[of graph nid seen] by auto
qed auto

interpretation reachable_nodes: worklist "downstream_of graph" "\<lambda>x. nodes_by_id graph x \<noteq> None"
    "\<lambda>x seen. rev (downstream_of graph x)" "reach_loop graph" for graph
  by unfold_locales (auto simp: finite_with_successors)

interpretation merge_walk: worklist "downstream_of graph" "\<lambda>_. True"
    "\<lambda>x seen. rev (downstream_of graph x)" "seen_loop graph" for graph
  by unfold_locales (auto simp: finite_with_successors)

section \<open>The merge shape\<close>

definition merge_ids :: "plan_graph \<Rightarrow> string list" where
  "merge_ids graph = map node_id (filter (\<lambda>n. node_kind n = MergeKind) (graph_nodes graph))"

definition reachable_sources_by_merge :: "plan_graph \<Rightarrow> string \<Rightarrow> string set" where
  "reachable_sources_by_merge graph mid =
     {s \<in> set (map node_id (source_nodes graph)).
        mid \<in> seen_loop graph (rev (downstream_of graph s)) {}}"

definition require_merge_shape :: "plan_graph \<Rightarrow> bool" where
  "require_merge_shape graph \<longleftrightarrow>
     (if merge_ids graph = [] then False
      else list_ex (\<lambda>mid. 2 \<le> card (reachable_sources_by_merge graph mid)) (merge_ids graph))"

text \<open>
  The executor's guard admits a plan with several sources exactly when two different source nodes
  have a path of edges to one merge node.
\<close>

lemma merge_shape_iff:
  "require_merge_shape graph \<longleftrightarrow>
     (\<exists>m s t. m \<in> set (graph_nodes graph) \<and> node_kind m = MergeKind \<and>
        s \<in> node_id ` set (source_nodes graph) \<and> t \<in> node_id ` set (source_nodes graph) \<and> s \<noteq> t \<and>
        (s, node_id m) \<in> {(a, b). b \<in> set (downstream_of graph a)}\<^sup>+ \<and>
        (t, node_id m) \<in> {(a, b). b \<in> set (downstream_of graph a)}\<^sup>+)"
proof -
  let ?R = "{(a, b). b \<in> set (downstream_of graph a)}"
  have path: "seen_loop graph (rev (downstream_of graph s)) {} = {x. (s, x) \<in> ?R\<^sup>+}" for s
  proof -
    have "seen_loop graph (rev (downstream_of graph s)) {} =
        {y. \<exists>x \<in> set (downstream_of graph s). (x, y) \<in> ?R\<^sup>*}"
      using merge_walk.loop_reach[of graph "rev (downstream_of graph s)"] reach_all by fastforce
    also have "\<dots> = {x. (s, x) \<in> ?R\<^sup>+}"
      by (auto intro: rtrancl_into_trancl2 elim: converse_tranclE dest: tranclD)
    finally show ?thesis .
  qed
  have two: "2 \<le> card A \<longleftrightarrow> (\<exists>s t. s \<in> A \<and> t \<in> A \<and> s \<noteq> t)" if "finite A" for A :: "string set"
    using that card_le_Suc0_iff_eq[of A] by (auto simp: numeral_2_eq_2 not_less_eq_eq[symmetric])
  have fin: "finite (reachable_sources_by_merge graph mid)" for mid
    by (simp add: reachable_sources_by_merge_def)
  have "require_merge_shape graph \<longleftrightarrow>
      (\<exists>mid \<in> set (merge_ids graph). \<exists>s t. s \<in> reachable_sources_by_merge graph mid \<and>
         t \<in> reachable_sources_by_merge graph mid \<and> s \<noteq> t)"
    by (auto simp: require_merge_shape_def list_ex_iff two[OF fin])
  also have "\<dots> \<longleftrightarrow> (\<exists>m s t. m \<in> set (graph_nodes graph) \<and> node_kind m = MergeKind \<and>
        s \<in> node_id ` set (source_nodes graph) \<and> t \<in> node_id ` set (source_nodes graph) \<and> s \<noteq> t \<and>
        (s, node_id m) \<in> ?R\<^sup>+ \<and> (t, node_id m) \<in> ?R\<^sup>+)"
    unfolding reachable_sources_by_merge_def path merge_ids_def by auto
  finally show ?thesis .
qed

section \<open>Kahn's algorithm\<close>

definition shared_ids :: "plan_graph \<Rightarrow> string list \<Rightarrow> string list" where
  "shared_ids graph starts =
     sorted_list_of_set {nid \<in> reach_loop graph (rev starts) {}.
       case nodes_by_id graph nid of None \<Rightarrow> False
       | Some n \<Rightarrow> node_kind n \<in> {MergeKind, TransformKind, SinkKind}}"

definition in_degree :: "plan_graph \<Rightarrow> string list \<Rightarrow> string list \<Rightarrow> string \<Rightarrow> int" where
  "in_degree graph starts shared nid =
     int (length (filter (\<lambda>u. u \<in> set shared \<or> u \<in> set starts) (upstream_of graph nid)))"

function kahn ::
  "plan_graph \<Rightarrow> string list \<Rightarrow> (string \<Rightarrow> int) \<Rightarrow> string list \<Rightarrow> string list \<Rightarrow> string list"
where
  "kahn graph shared deg [] ordered = ordered"
| "kahn graph shared deg (nid # ready) ordered =
     (let st = fold (relax shared) (sort (downstream_of graph nid)) (deg, ready)
      in kahn graph shared (fst st) (snd st) (ordered @ [nid]))"
  by pat_completeness auto

termination kahn
proof (relation "measure (\<lambda>(g, shared, deg, ready, ordered). kahn_measure shared (deg, ready))", goal_cases)
  case (2 graph shared deg nid ready ordered st)
  have "kahn_measure shared st \<le> kahn_measure shared (deg, ready)"
    unfolding 2 by (rule kahn_measure_fold)
  also have "\<dots> < kahn_measure shared (deg, nid # ready)" by (simp add: kahn_measure_def)
  finally show ?case by simp
qed auto

definition shared_segment_topo_order :: "plan_graph \<Rightarrow> string list \<Rightarrow> string list" where
  "shared_segment_topo_order graph starts =
     (let shared = shared_ids graph starts;
          deg = in_degree graph starts shared;
          ready = sort (filter (\<lambda>nid. deg nid = 0) shared)
      in kahn graph shared deg ready [])"

section \<open>The order\<close>

interpretation segment: kahn_graph "upstream_of graph" "downstream_of graph" shared
    "set shared \<union> set starts" for graph shared starts
  by unfold_locales (auto simp: count_upstream_downstream)

lemma in_degree_segment: "segment.degree graph shared starts v = in_degree graph starts shared v"
  by (simp add: segment.degree_def in_degree_def)

lemma kahn_inv:
  "segment.inv graph shared starts deg ready ordered \<Longrightarrow>
    \<exists>deg'. segment.inv graph shared starts deg' [] (kahn graph shared deg ready ordered)"
proof (induction graph shared deg ready ordered rule: kahn.induct)
  case (2 graph shared deg nid ready ordered)
  have "segment.inv graph shared starts
      (fst (fold (relax shared) (sort (downstream_of graph nid)) (deg, ready)))
      (snd (fold (relax shared) (sort (downstream_of graph nid)) (deg, ready))) (ordered @ [nid])"
    by (rule segment.inv_relax[OF "2.prems"]) (simp_all only: count_list_sort prod.collapse)
  then show ?case using "2.IH"[OF refl] by (simp add: Let_def)
qed auto

lemma segment_inv:
  "\<exists>deg. segment.inv graph (shared_ids graph starts) starts deg [] (shared_segment_topo_order graph starts)"
proof -
  let ?shared = "shared_ids graph starts"
  have "distinct ?shared" by (simp add: shared_ids_def)
  then have "segment.inv graph ?shared starts (in_degree graph starts ?shared)
      (sort (filter (\<lambda>nid. in_degree graph starts ?shared nid = 0) ?shared)) []"
    by (intro segment.inv_initial) (auto simp: in_degree_segment)
  from kahn_inv[OF this] show ?thesis by (simp add: shared_segment_topo_order_def Let_def)
qed

lemma finite_reachable_nodes: "finite (reach_loop graph ps {})"
proof (rule finite_subset)
  show "reach_loop graph ps {} \<subseteq> node_id ` set (graph_nodes graph)"
    unfolding reachable_nodes.loop_reach
  proof
    fix x assume "x \<in> reach (downstream_of graph) (\<lambda>x. nodes_by_id graph x \<noteq> None) (set ps)"
    then have "nodes_by_id graph x \<noteq> None" by (rule reach_ok)
    then show "x \<in> node_id ` set (graph_nodes graph)"
      by (simp only: nodes_by_id_def index_by_None not_not)
  qed
qed simp

lemma shared_ids_set:
  "set (shared_ids graph starts) =
     {nid \<in> reach (downstream_of graph) (\<lambda>x. nodes_by_id graph x \<noteq> None) (set starts).
        \<exists>n. nodes_by_id graph nid = Some n \<and> node_kind n \<noteq> SourceKind}"
proof -
  have kinds: "(case o' of None \<Rightarrow> False | Some n \<Rightarrow> node_kind n \<in> {MergeKind, TransformKind, SinkKind}) =
      (\<exists>n. o' = Some n \<and> node_kind n \<noteq> SourceKind)" for o' :: "plan_node option"
    by (cases o') (auto, metis node_kind.exhaust)
  show ?thesis
    using finite_reachable_nodes[of graph "rev starts"]
    by (simp add: shared_ids_def kinds reachable_nodes.loop_reach)
qed

lemma segment_relation:
  "{(u, v). u \<in> set (shared_ids graph starts) \<and> v \<in> set (shared_ids graph starts) \<and>
     u \<in> set (upstream_of graph v)} \<subseteq> plan_relation graph"
proof -
  have "nodes_by_id graph x \<noteq> None \<Longrightarrow> x \<in> node_id ` set (graph_nodes graph)" for x
    by (simp only: nodes_by_id_def index_by_None not_not)
  then show ?thesis
    unfolding shared_ids_set plan_relation_def upstream_downstream downstream_of_iff by auto
qed

text \<open>
  C5: the run order of a shared segment is a topological order: no node twice, only merge,
  transform and sink nodes reachable from the start nodes, each after all its predecessors in
  the segment. In an acyclic plan whose start nodes are all in the segment, it is complete.
\<close>

theorem topo_order_correct:
  "(let order = shared_segment_topo_order graph starts;
        segment = {nid \<in> reach (downstream_of graph) (\<lambda>x. nodes_by_id graph x \<noteq> None) (set starts).
          \<exists>n. nodes_by_id graph nid = Some n \<and> node_kind n \<noteq> SourceKind}
    in distinct order \<and> set order \<subseteq> segment \<and>
       (\<forall>xs v ys u. order = xs @ v # ys \<and> u \<in> set (upstream_of graph v) \<and>
          u \<in> segment \<union> set starts \<longrightarrow> u \<in> set xs) \<and>
       (acyclic (plan_relation graph) \<and> set starts \<subseteq> segment \<longrightarrow> set order = segment))"
proof -
  let ?shared = "shared_ids graph starts"
  let ?order = "shared_segment_topo_order graph starts"
  obtain deg where inv: "segment.inv graph ?shared starts deg [] ?order" using segment_inv by blast
  have "set ?order = set ?shared" if "acyclic (plan_relation graph)" "set starts \<subseteq> set ?shared"
  proof -
    have "acyclic (segment.waits graph ?shared)"
      using that(1) segment_relation unfolding segment.waits_def by (rule acyclic_subset)
    then show ?thesis
      using segment.inv_acyclic[OF inv] inv that(2) unfolding segment.inv_def by auto
  qed
  moreover have "u \<in> set xs" if "?order = xs @ v # ys" "u \<in> set (upstream_of graph v)"
      "u \<in> set ?shared \<union> set starts" for xs v ys u
    using inv that unfolding segment.inv_def by blast
  ultimately show ?thesis
    using inv unfolding Let_def shared_ids_set[symmetric]
    by (simp add: segment.inv_def)
qed

section \<open>A concrete plan\<close>

definition demo_node :: "string \<Rightarrow> node_kind \<Rightarrow> string \<Rightarrow> string option \<Rightarrow> plan_node" where
  "demo_node nid kind ty sid =
     \<lparr>node_id = nid, node_kind = kind, node_type = ty, node_label = None, node_params = [],
      node_required_params = [], node_inputs = [records_port], node_outputs = [records_port],
      node_source_id = sid, node_draft = False\<rparr>"

definition demo_edge :: "string \<Rightarrow> string \<Rightarrow> plan_edge" where
  "demo_edge a b = \<lparr>edge_id = a @ b, edge_source_node = a, edge_source_port = ''records'',
     edge_target_node = b, edge_target_port = ''records''\<rparr>"

text \<open>Two sources merged, deduplicated and stored.\<close>

definition demo_plan :: plan_graph where
  "demo_plan =
     \<lparr>graph_ir_version = PLAN_IR_VERSION, graph_name = None, graph_draft = False,
      graph_nodes =
        [demo_node ''a'' SourceKind ''rss_source'' (Some ''s1''),
         demo_node ''b'' SourceKind ''rss_source'' (Some ''s2''),
         demo_node ''m'' MergeKind ''merge'' None, demo_node ''d'' TransformKind ''dedupe'' None,
         demo_node ''k'' SinkKind ''db_sink'' None],
      graph_edges =
        [demo_edge ''a'' ''m'', demo_edge ''b'' ''m'', demo_edge ''m'' ''d'', demo_edge ''d'' ''k'']\<rparr>"

theorem topo_order_correct_witness:
  "set (shared_segment_topo_order demo_plan [''m'']) = {''m'', ''d'', ''k''}"
proof -
  have ids: "shared_ids demo_plan [''m''] = [''d'', ''k'', ''m'']" by code_simp
  have "cyclic_nodes demo_plan = {}" by code_simp
  then have "check_cycles demo_plan = []" by (simp add: check_cycles_def)
  then have "acyclic (plan_relation demo_plan)" by (simp only: check_cycles_Nil)
  moreover have "set [''m''] \<subseteq> set (shared_ids demo_plan [''m''])" unfolding ids by simp
  ultimately have "set (shared_segment_topo_order demo_plan [''m'']) = set (shared_ids demo_plan [''m''])"
    using topo_order_correct[of demo_plan "[''m'']"] unfolding Let_def shared_ids_set[symmetric] by blast
  then show ?thesis unfolding ids by auto
qed

end
