(* ===== verification/PlanExecutor.thy ===== *)
theory PlanExecutor
  imports PlanStore SegmentOrder
begin

text \<open>
  The plan executor (\<open>backend/plan_ir/executor.py\<close>, \<open>backend/plan_ir/transforms.py\<close>)
  and dataflow triggering (\<open>backend/services/plan_trigger_service.py\<close>). Collecting from a
  source is the parameter \<open>runner\<close>; \<open>fault\<close> says which shared node raises an
  exception of its own while it runs. A node commits when it succeeds and is rolled back when
  it raises, so a node has all of its effects or none.
\<close>

section \<open>Transforms\<close>

record provenanced_item =
  pi_raw :: "json dict"
  pi_normalized :: "json dict"
  pi_content_hash :: string
  pi_source_id :: string
  pi_source_node_id :: string

definition merge_items :: "provenanced_item list list \<Rightarrow> provenanced_item list" where
  "merge_items branches = fold (\<lambda>branch merged. merged @ branch) branches []"

fun dedupe_loop ::
  "provenanced_item list \<Rightarrow> string set \<Rightarrow> provenanced_item list \<Rightarrow> nat \<Rightarrow>
   provenanced_item list \<times> nat"
where
  "dedupe_loop [] seen survivors dropped = (survivors, dropped)"
| "dedupe_loop (item # items) seen survivors dropped =
     (if pi_content_hash item \<in> seen then dedupe_loop items seen survivors (Suc dropped)
      else dedupe_loop items (insert (pi_content_hash item) seen) (survivors @ [item]) dropped)"

definition dedupe_items :: "provenanced_item list \<Rightarrow> provenanced_item list \<times> nat" where
  "dedupe_items items = dedupe_loop items {} [] 0"

section \<open>The shared store\<close>

definition provenance_triple :: "string \<Rightarrow> provenanced_item \<Rightarrow> triple" where
  "provenance_triple plan_id item =
     (pi_raw item,
      dict_set (pi_normalized item) ''_plan_provenance''
        (JObj [(''plan_id'', JStr plan_id), (''source_id'', JStr (pi_source_id item)),
               (''source_node_id'', JStr (pi_source_node_id item))]),
      pi_content_hash item)"

definition store_shared_items ::
  "plan_row \<Rightarrow> provenanced_item list \<Rightarrow> json dict \<Rightarrow> plan_db \<Rightarrow> string + (nat \<times> nat \<times> plan_db)"
where
  "store_shared_items plan items params db =
     (if items = [] then Inr (0, 0, db)
      else case create_task (pi_source_id (hd items)) ''plan_shared'' params 5 None db of
          Inl e \<Rightarrow> Inl e
        | Inr (anchor_task, db1) \<Rightarrow>
            (case store_records
                \<lparr>sa_task_id = ct_id anchor_task, sa_source_id = pl_id plan, sa_workflow_id = None,
                 sa_workflow_run_id = None, sa_lineage = None\<rparr>
                (map (provenance_triple (pl_id plan)) items) None odp_off
                (\<lambda>i. pdb_uuid db1 (pdb_next db1 + i)) [] (pdb_records db1) of
               Inl e \<Rightarrow> Inl e
             | Inr (new_records, skipped, table) \<Rightarrow>
                 Inr (length new_records, skipped,
                   db1\<lparr>pdb_records := table, pdb_next := pdb_next db1 + length new_records\<rparr>)))"

section \<open>The shared pipeline\<close>

record shared_segment_result =
  ssr_run_key :: string
  ssr_success :: bool
  ssr_failed_node_id :: "string option"
  ssr_error :: "string option"
  ssr_items_in :: nat
  ssr_stored :: nat
  ssr_skipped :: nat

definition total_items :: "provenanced_item list list \<Rightarrow> nat" where
  "total_items branches = sum_list (map length branches)"

text \<open>
  One node: the new items, the store counts if it stored, and the fields of its health row.
\<close>

definition node_body ::
  "(string \<Rightarrow> string option) \<Rightarrow> plan_row \<Rightarrow> provenanced_item list list \<Rightarrow> json dict \<Rightarrow> plan_node \<Rightarrow>
   provenanced_item list \<Rightarrow> plan_db \<Rightarrow>
   string + (provenanced_item list \<times> (nat \<times> nat) option \<times> nat \<times> nat \<times> json dict \<times> plan_db)"
where
  "node_body fault plan branches params node current db =
     (case fault (node_id node) of
        Some e \<Rightarrow> Inl e
      | None \<Rightarrow>
          if node_kind node = MergeKind then
            let items_in = total_items branches; merged = merge_items branches
            in Inr (merged, None, items_in, length merged, [], db)
          else if node_type node = ''dedupe'' then
            let items_in = length current; (survivors, dropped) = dedupe_items current
            in Inr (survivors, None, items_in, length survivors,
                    [(''dropped'', JInt (int dropped))], db)
          else if node_kind node = SinkKind then
            (case store_shared_items plan current params db of
               Inl e \<Rightarrow> Inl e
             | Inr (stored, skipped, db') \<Rightarrow>
                 Inr (current, Some (stored, skipped), length current, stored,
                      [(''skipped'', JInt (int skipped))], db'))
          else Inl ''unsupported type; only merge/dedupe/store are implemented'')"

fun run_shared_pipeline ::
  "(string \<Rightarrow> string option) \<Rightarrow> plan_row \<Rightarrow> string \<Rightarrow> (string \<Rightarrow> plan_node option) \<Rightarrow>
   provenanced_item list list \<Rightarrow> json dict \<Rightarrow> string list \<Rightarrow> provenanced_item list \<Rightarrow> nat \<times> nat \<Rightarrow>
   plan_db \<Rightarrow> string + (shared_segment_result \<times> plan_db)"
where
  "run_shared_pipeline fault plan run_key nodes branches params [] current counts db =
     Inr (\<lparr>ssr_run_key = run_key, ssr_success = True, ssr_failed_node_id = None, ssr_error = None,
           ssr_items_in = total_items branches, ssr_stored = fst counts,
           ssr_skipped = snd counts\<rparr>, db)"
| "run_shared_pipeline fault plan run_key nodes branches params (nid # order) current counts db =
     (case nodes nid of
        None \<Rightarrow> Inl ''KeyError''
      | Some node \<Rightarrow>
          let (started, db0) = monotonic_ms db
          in case node_body fault plan branches params node current db0 of
               Inl e \<Rightarrow>
                 let (ended, db1) = monotonic_ms db0
                 in Inr (\<lparr>ssr_run_key = run_key, ssr_success = False,
                          ssr_failed_node_id = Some (node_id node), ssr_error = Some e,
                          ssr_items_in = total_items branches, ssr_stored = 0, ssr_skipped = 0\<rparr>,
                        record_node_health (pl_id plan) run_key (node_id node) (node_type node)
                          False (ended - started) (int (length current)) 0 (Some e) [] db1)
             | Inr (current', stored, items_in, items_out, detail, db1) \<Rightarrow>
                 let (ended, db2) = monotonic_ms db1;
                     db3 = record_node_health (pl_id plan) run_key (node_id node) (node_type node)
                       True (ended - started) (int items_in) (int items_out) None detail db2
                 in run_shared_pipeline fault plan run_key nodes branches params order current'
                      (case stored of None \<Rightarrow> counts | Some c \<Rightarrow> c) db3)"

definition run_shared_segment_over_branches ::
  "(string \<Rightarrow> string option) \<Rightarrow> plan_row \<Rightarrow> plan_graph \<Rightarrow> string \<Rightarrow> string list \<Rightarrow>
   provenanced_item list list \<Rightarrow> json dict \<Rightarrow> plan_db \<Rightarrow>
   string + (shared_segment_result option \<times> plan_db)"
where
  "run_shared_segment_over_branches fault plan graph run_key start_node_ids branches params db =
     (let order = shared_segment_topo_order graph start_node_ids
      in if order = [] then Inr (None, db)
         else case run_shared_pipeline fault plan run_key (nodes_by_id graph) branches params order
                [] (0, 0) db of
             Inl e \<Rightarrow> Inl e
           | Inr (r, db') \<Rightarrow> Inr (Some r, db'))"

definition load_provenanced_items ::
  "plan_db \<Rightarrow> string \<Rightarrow> string \<Rightarrow> string \<Rightarrow> provenanced_item list"
where
  "load_provenanced_items db task_id source_id source_node_id =
     map (\<lambda>r. \<lparr>pi_raw = rec_raw_data r, pi_normalized = rec_normalized_data r,
               pi_content_hash = rec_content_hash r, pi_source_id = source_id,
               pi_source_node_id = source_node_id\<rparr>)
       (filter (\<lambda>r. rec_task_id r = task_id) (pdb_records db))"

section \<open>Source segments\<close>

text \<open>The dictionary \<open>run_collection_pipeline\<close> returns, with its optional keys.\<close>

record pipeline_outcome =
  po_error :: "string option"
  po_success :: "bool option"
  po_run_id :: "string option"
  po_collected :: "int option"
  po_stored :: "int option"
  po_skipped :: "int option"

type_synonym pipeline_runner =
  "string \<Rightarrow> json dict \<Rightarrow> plan_db \<Rightarrow> (string + pipeline_outcome) \<times> plan_db"

record source_segment_result =
  sr_node_id :: string
  sr_source_id :: "string option"
  sr_task_id :: "string option"
  sr_run_id :: "string option"
  sr_success :: bool
  sr_collected :: int
  sr_stored :: int
  sr_skipped :: int
  sr_error :: "string option"

definition failed_segment ::
  "plan_node \<Rightarrow> string option \<Rightarrow> string option \<Rightarrow> string \<Rightarrow> source_segment_result"
where
  "failed_segment node source_id task_id error =
     \<lparr>sr_node_id = node_id node, sr_source_id = source_id, sr_task_id = task_id, sr_run_id = None,
      sr_success = False, sr_collected = 0, sr_stored = 0, sr_skipped = 0, sr_error = Some error\<rparr>"

definition get_data_source :: "plan_db \<Rightarrow> string \<Rightarrow> data_source option" where
  "get_data_source db sid = find (\<lambda>s. ds_id s = sid) (pdb_sources db)"

definition before_pipeline_error :: "pipeline_outcome \<Rightarrow> bool" where
  "before_pipeline_error o' \<longleftrightarrow> po_error o' \<noteq> None \<and> po_success o' = None"

definition outcome_segment ::
  "plan_node \<Rightarrow> string \<Rightarrow> string \<Rightarrow> pipeline_outcome \<Rightarrow> source_segment_result"
where
  "outcome_segment node sid tid o' =
     \<lparr>sr_node_id = node_id node, sr_source_id = Some sid, sr_task_id = Some tid,
      sr_run_id = po_run_id o', sr_success = (po_success o' = Some True),
      sr_collected = (case po_collected o' of None \<Rightarrow> 0 | Some n \<Rightarrow> n),
      sr_stored = (case po_stored o' of None \<Rightarrow> 0 | Some n \<Rightarrow> n),
      sr_skipped = (case po_skipped o' of None \<Rightarrow> 0 | Some n \<Rightarrow> n), sr_error = po_error o'\<rparr>"

definition dispatch_source_segment ::
  "pipeline_runner \<Rightarrow> plan_node \<Rightarrow> json dict \<Rightarrow> int \<Rightarrow> string option \<Rightarrow> plan_db \<Rightarrow>
   source_segment_result \<times> plan_db"
where
  "dispatch_source_segment runner node parameters priority agent_id db =
     (case node_source_id node of
        None \<Rightarrow> (failed_segment node None None ''source node has no source_id'', db)
      | Some sid \<Rightarrow>
          if sid = [] then (failed_segment node None None ''source node has no source_id'', db)
          else case get_data_source db sid of
              None \<Rightarrow> (failed_segment node (Some sid) None ''unknown source'', db)
            | Some source \<Rightarrow>
                if \<not> ds_enabled source
                then (failed_segment node (Some (ds_id source)) None ''source is disabled'', db)
                else case create_task (ds_id source) ''plan'' parameters priority agent_id db of
                    Inl e \<Rightarrow> (failed_segment node (Some (ds_id source)) None e, db)
                  | Inr (task, db1) \<Rightarrow>
                      (case runner (ct_id task) parameters db1 of
                         (Inl exc, db2) \<Rightarrow>
                           (failed_segment node (Some (ds_id source)) (Some (ct_id task)) exc, db2)
                       | (Inr o', db2) \<Rightarrow>
                           (if before_pipeline_error o'
                            then failed_segment node (Some (ds_id source)) (Some (ct_id task))
                                   (the (po_error o'))
                            else outcome_segment node (ds_id source) (ct_id task) o', db2)))"

section \<open>Running a plan\<close>

datatype plan_execution_error =
    PlanIsDraft | PlanNotRunnable | NoSourceId | UnknownSource | SourceDisabled | NoMergeNode
  | FailedBeforePipeline string | Raised string

record plan_run_result =
  pr_plan_id :: string
  pr_source_id :: string
  pr_task_id :: string
  pr_run_id :: "string option"
  pr_success :: bool
  pr_collected :: int
  pr_stored :: int
  pr_skipped :: int
  pr_error :: "string option"
  pr_source_results :: "source_segment_result list"
  pr_shared_segment :: "shared_segment_result option"

definition run_degenerate ::
  "pipeline_runner \<Rightarrow> plan_row \<Rightarrow> plan_node \<Rightarrow> json dict \<Rightarrow> int \<Rightarrow> string option \<Rightarrow> plan_db \<Rightarrow>
   (plan_execution_error + plan_run_result) \<times> plan_db"
where
  "run_degenerate runner plan node parameters priority agent_id db =
     (case node_source_id node of
        None \<Rightarrow> (Inl NoSourceId, db)
      | Some sid \<Rightarrow>
          if sid = [] then (Inl NoSourceId, db)
          else case get_data_source db sid of
              None \<Rightarrow> (Inl UnknownSource, db)
            | Some source \<Rightarrow>
                if \<not> ds_enabled source then (Inl SourceDisabled, db)
                else case create_task (ds_id source) ''plan'' parameters priority agent_id db of
                    Inl e \<Rightarrow> (Inl (Raised e), db)
                  | Inr (task, db1) \<Rightarrow>
                      (case runner (ct_id task) parameters db1 of
                         (Inl exc, db2) \<Rightarrow> (Inl (Raised exc), db2)
                       | (Inr o', db2) \<Rightarrow>
                           (if before_pipeline_error o'
                            then (Inl (FailedBeforePipeline (the (po_error o'))), db2)
                            else
                              let r = outcome_segment node (ds_id source) (ct_id task) o'
                              in (Inr \<lparr>pr_plan_id = pl_id plan, pr_source_id = ds_id source,
                                   pr_task_id = ct_id task, pr_run_id = sr_run_id r,
                                   pr_success = sr_success r, pr_collected = sr_collected r,
                                   pr_stored = sr_stored r, pr_skipped = sr_skipped r,
                                   pr_error = sr_error r, pr_source_results = [],
                                   pr_shared_segment = None\<rparr>, db2))))"

fun dispatch_all ::
  "pipeline_runner \<Rightarrow> json dict \<Rightarrow> int \<Rightarrow> string option \<Rightarrow> plan_node list \<Rightarrow> plan_db \<Rightarrow>
   source_segment_result list \<times> plan_db"
where
  "dispatch_all runner params priority agent_id [] db = ([], db)"
| "dispatch_all runner params priority agent_id (node # nodes) db =
     (let (r, db1) = dispatch_source_segment runner node params priority agent_id db;
          (rs, db2) = dispatch_all runner params priority agent_id nodes db1
      in (r # rs, db2))"

definition branches_of ::
  "plan_db \<Rightarrow> plan_node list \<Rightarrow> source_segment_result list \<Rightarrow> provenanced_item list list"
where
  "branches_of db nodes results =
     List.map_filter (\<lambda>(node, r). case sr_task_id r of
         None \<Rightarrow> None
       | Some tid \<Rightarrow> if tid = [] then None
           else Some (load_provenanced_items db tid
             (case sr_source_id r of None \<Rightarrow> [] | Some s \<Rightarrow> s) (node_id node)))
       (zip nodes results)"

fun join_comma :: "string list \<Rightarrow> string" where
  "join_comma [] = []"
| "join_comma [s] = s"
| "join_comma (s # ss) = s @ '','' @ join_comma ss"

definition present :: "string option list \<Rightarrow> string list" where
  "present xs = filter (\<lambda>s. s \<noteq> []) (List.map_filter id xs)"

definition start_node_ids :: "plan_graph \<Rightarrow> plan_node list \<Rightarrow> string list" where
  "start_node_ids graph nodes = remdups (concat (map (\<lambda>n. downstream_of graph (node_id n)) nodes))"

definition run_shared_segments ::
  "pipeline_runner \<Rightarrow> (string \<Rightarrow> string option) \<Rightarrow> plan_row \<Rightarrow> plan_graph \<Rightarrow> plan_node list \<Rightarrow>
   json dict \<Rightarrow> int \<Rightarrow> string option \<Rightarrow> plan_db \<Rightarrow>
   (plan_execution_error + plan_run_result) \<times> plan_db"
where
  "run_shared_segments runner fault plan graph sources params priority agent_id db =
     (let (run_key, db0) = fresh_uuid db;
          (results, db1) = dispatch_all runner params priority agent_id sources db0;
          branches = branches_of db1 sources results
      in case run_shared_segment_over_branches fault plan graph run_key
             (start_node_ids graph sources) branches params db1 of
           Inl e \<Rightarrow> (Inl (Raised e), db1)
         | Inr (shared, db2) \<Rightarrow>
             (Inr \<lparr>pr_plan_id = pl_id plan,
               pr_source_id = join_comma (present (map sr_source_id results)),
               pr_task_id = join_comma (present (map sr_task_id results)), pr_run_id = None,
               pr_success = (list_all sr_success results \<and>
                 (case shared of None \<Rightarrow> True | Some s \<Rightarrow> ssr_success s)),
               pr_collected = sum_list (map sr_collected results),
               pr_stored = (case shared of None \<Rightarrow> sum_list (map sr_stored results)
                 | Some s \<Rightarrow> int (ssr_stored s)),
               pr_skipped = (case shared of None \<Rightarrow> sum_list (map sr_skipped results)
                 | Some s \<Rightarrow> int (ssr_skipped s)),
               pr_error =
                 (let first = (case find (\<lambda>r. \<not> sr_success r \<and> sr_error r \<notin> {None, Some []}) results of
                      None \<Rightarrow> None | Some r \<Rightarrow> sr_error r)
                  in case shared of
                       None \<Rightarrow> first | Some s \<Rightarrow> if ssr_success s then first else ssr_error s),
               pr_source_results = results, pr_shared_segment = shared\<rparr>, db2))"

definition run_plan_once ::
  "pipeline_runner \<Rightarrow> (string \<Rightarrow> string option) \<Rightarrow> plan_row \<Rightarrow> json dict \<Rightarrow> int \<Rightarrow> string option \<Rightarrow>
   plan_db \<Rightarrow> (plan_execution_error + plan_run_result) \<times> plan_db"
where
  "run_plan_once runner fault plan parameters priority agent_id db =
     (if pl_draft plan then (Inl PlanIsDraft, db)
      else if \<not> pl_runnable plan then (Inl PlanNotRunnable, db)
      else
        let graph = pl_graph plan; sources = source_nodes graph
        in case sources of
             [node] \<Rightarrow> run_degenerate runner plan node parameters priority agent_id db
           | _ \<Rightarrow>
               if \<not> require_merge_shape graph then (Inl NoMergeNode, db)
               else run_shared_segments runner fault plan graph sources parameters priority
                      agent_id db)"

section \<open>Dataflow triggering\<close>

record incremental_trigger_result =
  it_plan_id :: string
  it_source_id :: string
  it_source_node_id :: string
  it_run_key :: string
  it_success :: bool
  it_error :: "string option"
  it_shared_segment :: "shared_segment_result option"

definition run_plan_shared_segment_incremental ::
  "(string \<Rightarrow> string option) \<Rightarrow> plan_row \<Rightarrow> string \<Rightarrow> string \<Rightarrow> string \<Rightarrow> json dict \<Rightarrow> plan_db \<Rightarrow>
   incremental_trigger_result \<times> plan_db"
where
  "run_plan_shared_segment_incremental fault plan source_id source_node_id task_id params db =
     (let (run_key, db0) = fresh_uuid db;
          mk = (\<lambda>success error shared.
            \<lparr>it_plan_id = pl_id plan, it_source_id = source_id, it_source_node_id = source_node_id,
             it_run_key = run_key, it_success = success, it_error = error,
             it_shared_segment = shared\<rparr>)
      in if pl_draft plan \<or> \<not> pl_runnable plan then (mk True None None, db0)
         else
           let graph = pl_graph plan;
               items = load_provenanced_items db0 task_id source_id source_node_id;
               starts = remdups (downstream_of graph source_node_id)
           in case run_shared_segment_over_branches fault plan graph run_key starts [items] params db0 of
                Inl e \<Rightarrow> (mk False (Some e) None, db0)
              | Inr (shared, db1) \<Rightarrow>
                  (mk (case shared of None \<Rightarrow> True | Some s \<Rightarrow> ssr_success s)
                      (case shared of None \<Rightarrow> None
                       | Some s \<Rightarrow> if ssr_success s then None else ssr_error s) shared, db1))"

definition runnable_plan_memberships :: "plan_db \<Rightarrow> string \<Rightarrow> plan_source_index list" where
  "runnable_plan_memberships db source_id =
     filter (\<lambda>i. psi_source_id i = source_id \<and>
         list_ex (\<lambda>p. pl_id p = psi_plan_id i \<and> \<not> pl_draft p \<and> pl_runnable p) (pdb_plans db))
       (pdb_index db)"

fun trigger_loop ::
  "(string \<Rightarrow> string option) \<Rightarrow> string \<Rightarrow> string \<Rightarrow> json dict \<Rightarrow> plan_source_index list \<Rightarrow> plan_db \<Rightarrow>
   incremental_trigger_result list \<times> plan_db"
where
  "trigger_loop fault source_id task_id params [] db = ([], db)"
| "trigger_loop fault source_id task_id params (i # rest) db =
     (case get_plan db (psi_plan_id i) of
        None \<Rightarrow> trigger_loop fault source_id task_id params rest db
      | Some plan \<Rightarrow>
          let (r, db1) = run_plan_shared_segment_incremental fault plan source_id
                (psi_source_node_id i) task_id params db;
              (rs, db2) = trigger_loop fault source_id task_id params rest db1
          in (r # rs, db2))"

definition trigger_incremental_shared_segments ::
  "(string \<Rightarrow> string option) \<Rightarrow> string \<Rightarrow> string \<Rightarrow> json dict \<Rightarrow> plan_db \<Rightarrow>
   incremental_trigger_result list \<times> plan_db"
where
  "trigger_incremental_shared_segments fault source_id task_id params db =
     trigger_loop fault source_id task_id params (runnable_plan_memberships db source_id) db"

end
