(* ===== verification/ExecutorProps.thy ===== *)
theory ExecutorProps
  imports PlanExecutor Ledger
begin

text \<open>
  What the plan executor promises: deduplication keeps the first item of each content hash, a
  shared segment touches no source state whatever its nodes do, every node that ran has its
  health row, and what is merged reaches the store.
\<close>

section \<open>Deduplication\<close>

lemma dedupe_loop_eq:
  "dedupe_loop items seen survivors dropped =
     (let (s, d) = dedupe_loop items seen [] 0 in (survivors @ s, dropped + d))"
proof (induction items arbitrary: seen survivors dropped)
  case (Cons item items)
  show ?case
    using Cons.IH[of seen survivors "Suc dropped"] Cons.IH[of seen "[]" "Suc 0"]
      Cons.IH[of "insert (pi_content_hash item) seen" "survivors @ [item]" dropped]
      Cons.IH[of "insert (pi_content_hash item) seen" "[item]" 0]
    by (auto simp: case_prod_unfold Let_def)
qed simp

lemma dedupe_loop_Cons:
  "dedupe_loop (item # items) seen [] 0 =
     (if pi_content_hash item \<in> seen
      then (fst (dedupe_loop items seen [] 0), Suc (snd (dedupe_loop items seen [] 0)))
      else let r = dedupe_loop items (insert (pi_content_hash item) seen) [] 0
           in (item # fst r, snd r))"
  using dedupe_loop_eq[of items seen "[]" 1]
    dedupe_loop_eq[of items "insert (pi_content_hash item) seen" "[item]" 0]
  by (auto simp: case_prod_unfold Let_def)

lemma dedupe_loop_spec:
  "subseq (fst (dedupe_loop items seen [] 0)) items \<and>
   distinct (map pi_content_hash (fst (dedupe_loop items seen [] 0))) \<and>
   pi_content_hash ` set (fst (dedupe_loop items seen [] 0)) = pi_content_hash ` set items - seen \<and>
   length (fst (dedupe_loop items seen [] 0)) + snd (dedupe_loop items seen [] 0) = length items \<and>
   (\<forall>h. h \<notin> seen \<longrightarrow> find (\<lambda>x. pi_content_hash x = h) (fst (dedupe_loop items seen [] 0)) =
      find (\<lambda>x. pi_content_hash x = h) items)"
proof (induction items arbitrary: seen)
  case (Cons item items)
  show ?case
  proof (cases "pi_content_hash item \<in> seen")
    case True
    with Cons.IH[of seen] show ?thesis unfolding dedupe_loop_Cons by auto
  next
    case False
    with Cons.IH[of "insert (pi_content_hash item) seen"] show ?thesis
      unfolding dedupe_loop_Cons by (auto simp: Let_def)
  qed
qed simp

text \<open>
  Deduplication is first-wins by content hash: the survivors keep their order, no hash occurs
  twice, for every hash the first item carrying it is the one that survives, and survivors and
  dropped items account for the input.
\<close>

lemma dedupe_first_wins:
  "(let (survivors, dropped) = dedupe_items items
    in subseq survivors items \<and> distinct (map pi_content_hash survivors) \<and>
       (\<forall>h. find (\<lambda>x. pi_content_hash x = h) survivors = find (\<lambda>x. pi_content_hash x = h) items) \<and>
       length survivors + dropped = length items)"
  using dedupe_loop_spec[of items "{}"] by (simp add: dedupe_items_def case_prod_unfold Let_def)

lemma dedupe_hashes: "pi_content_hash ` set (fst (dedupe_items items)) = pi_content_hash ` set items"
  using dedupe_loop_spec[of items "{}"] by (simp add: dedupe_items_def)

lemma merge_items_eq: "merge_items branches = concat branches"
proof -
  have "fold (\<lambda>branch merged. merged @ branch) branches acc = acc @ concat branches" for acc
    by (induction branches arbitrary: acc) auto
  then show ?thesis by (simp add: merge_items_def)
qed

section \<open>The order names known nodes\<close>

lemma order_nodes:
  assumes "nid \<in> set (shared_segment_topo_order graph starts)"
  shows "\<exists>node. nodes_by_id graph nid = Some node \<and> node_id node = nid \<and> node_kind node \<noteq> SourceKind"
proof -
  let ?shared = "shared_ids graph starts"
  obtain deg where "segment.inv graph ?shared starts deg [] (shared_segment_topo_order graph starts)"
    using segment_inv by blast
  then have "nid \<in> set ?shared" using assms by (auto simp: segment.inv_def)
  then show ?thesis
    unfolding shared_ids_set nodes_by_id_def by (auto dest: index_by_Some_in)
qed

text \<open>One step of the pipeline, with the clock readings out of the way.\<close>

definition node_failed ::
  "plan_row \<Rightarrow> string \<Rightarrow> plan_node \<Rightarrow> string \<Rightarrow> nat \<Rightarrow> plan_db \<Rightarrow> plan_db"
where
  "node_failed plan run_key node e n db =
     record_node_health (pl_id plan) run_key (node_id node) (node_type node) False
       (fst (monotonic_ms (snd (monotonic_ms db))) - fst (monotonic_ms db)) (int n) 0 (Some e) []
       (snd (monotonic_ms (snd (monotonic_ms db))))"

definition node_ran ::
  "plan_row \<Rightarrow> string \<Rightarrow> plan_node \<Rightarrow> int \<Rightarrow> nat \<Rightarrow> nat \<Rightarrow> json dict \<Rightarrow> plan_db \<Rightarrow> plan_db"
where
  "node_ran plan run_key node started items_in items_out detail db =
     record_node_health (pl_id plan) run_key (node_id node) (node_type node) True
       (fst (monotonic_ms db) - started) (int items_in) (int items_out) None detail
       (snd (monotonic_ms db))"

lemma pipeline_step_failed:
  assumes "nodes nid = Some node"
    and "node_body fault plan branches params node current (snd (monotonic_ms db)) = Inl e"
  shows "run_shared_pipeline fault plan run_key nodes branches params (nid # order) current counts db =
     Inr (\<lparr>ssr_run_key = run_key, ssr_success = False, ssr_failed_node_id = Some (node_id node),
           ssr_error = Some e, ssr_items_in = total_items branches, ssr_stored = 0, ssr_skipped = 0\<rparr>,
          node_failed plan run_key node e (length current) db)"
  using assms by (simp add: case_prod_unfold Let_def node_failed_def)

lemma pipeline_step_ran:
  assumes "nodes nid = Some node"
    and "node_body fault plan branches params node current (snd (monotonic_ms db)) =
      Inr (current', stored, items_in, items_out, detail, db1)"
  shows "run_shared_pipeline fault plan run_key nodes branches params (nid # order) current counts db =
     run_shared_pipeline fault plan run_key nodes branches params order current'
       (case stored of None \<Rightarrow> counts | Some c \<Rightarrow> c)
       (node_ran plan run_key node (fst (monotonic_ms db)) items_in items_out detail db1)"
  using assms by (simp add: case_prod_unfold Let_def node_ran_def)

lemma pipeline_cases:
  obtains (failed) e where
      "node_body fault plan branches params node current (snd (monotonic_ms db)) = Inl e"
    | (ran) current' stored items_in items_out detail db1 where
      "node_body fault plan branches params node current (snd (monotonic_ms db)) =
         Inr (current', stored, items_in, items_out, detail, db1)"
  by (metis old.sum.exhaust prod_cases6)

lemma pipeline_returns:
  "(\<And>nid. nid \<in> set order \<Longrightarrow> nodes nid \<noteq> None) \<Longrightarrow>
    \<exists>r db'. run_shared_pipeline fault plan run_key nodes branches params order current counts db = Inr (r, db')"
proof (induction order arbitrary: current counts db)
  case (Cons nid order)
  then obtain node where node: "nodes nid = Some node" by force
  show ?case
  proof (cases rule: pipeline_cases[of fault plan branches params node current db])
    case (failed e)
    from pipeline_step_failed[of nodes nid, OF node failed] show ?thesis by blast
  next
    case (ran current' stored items_in items_out detail db1)
    from Cons.IH Cons.prems show ?thesis unfolding pipeline_step_ran[of nodes nid, OF node ran] by auto
  qed
qed simp

declare run_shared_pipeline.simps(2) [simp del]

lemma segment_returns:
  "\<exists>r db'. run_shared_segment_over_branches fault plan graph run_key starts branches params db = Inr (r, db')"
proof -
  let ?order = "shared_segment_topo_order graph starts"
  have known: "nid \<in> set ?order \<Longrightarrow> nodes_by_id graph nid \<noteq> None" for nid
    using order_nodes by blast
  from pipeline_returns[of ?order "nodes_by_id graph" fault plan run_key branches params "[]" "(0, 0)" db, OF known]
  show ?thesis by (auto simp: run_shared_segment_over_branches_def Let_def)
qed

section \<open>What a shared segment may change\<close>

text \<open>
  A relation between the database before and after, kept by everything a shared segment does:
  fresh keys, clock readings, health rows and the store of a sink.
\<close>

locale shared_relation =
  fixes R :: "plan_db \<Rightarrow> plan_db \<Rightarrow> bool"
  assumes R_refl: "R db db"
    and R_trans: "R db db' \<Longrightarrow> R db' db'' \<Longrightarrow> R db db''"
    and R_key: "R db (snd (fresh_uuid db))"
    and R_clock: "R db (snd (monotonic_ms db))"
    and R_health: "R db (record_node_health pid run_key nid ty ok ms i out err detail db)"
    and R_store: "store_shared_items plan items params db = Inr (stored, skipped, db') \<Longrightarrow> R db db'"
begin

lemma R_body:
  assumes "node_body fault plan branches params node current db = Inr (current', st, i, out, detail, db')"
  shows "R db db'"
  using assms R_refl R_store
  by (auto simp: node_body_def case_prod_unfold Let_def split: option.splits if_splits sum.splits)

lemma R_node_failed: "R db (node_failed plan run_key node e n db)"
  unfolding node_failed_def by (meson R_clock R_health R_trans)

lemma R_node_ran: "R db (node_ran plan run_key node started i out detail db)"
  unfolding node_ran_def by (meson R_clock R_health R_trans)

lemma R_pipeline:
  "run_shared_pipeline fault plan run_key nodes branches params order current counts db = Inr (r, db') \<Longrightarrow>
    R db db'"
proof (induction order arbitrary: current counts db)
  case Nil
  then show ?case using R_refl by auto
next
  case (Cons nid order)
  obtain node where node: "nodes nid = Some node"
    using Cons.prems by (auto simp: run_shared_pipeline.simps split: option.splits)
  show ?case
  proof (cases rule: pipeline_cases[of fault plan branches params node current db])
    case (failed e)
    from Cons.prems show ?thesis
      unfolding pipeline_step_failed[of nodes nid, OF node failed] using R_node_failed by auto
  next
    case (ran current' stored items_in items_out detail db1)
    from Cons.prems have "R (node_ran plan run_key node (fst (monotonic_ms db)) items_in items_out detail db1) db'"
      unfolding pipeline_step_ran[of nodes nid, OF node ran] by (rule Cons.IH)
    then show ?thesis by (meson R_trans R_clock R_body[OF ran] R_node_ran)
  qed
qed

lemma R_segment:
  "run_shared_segment_over_branches fault plan graph run_key starts branches params db = Inr (r, db') \<Longrightarrow>
    R db db'"
  using R_refl
  by (auto simp: run_shared_segment_over_branches_def Let_def split: if_splits sum.splits dest: R_pipeline)

lemma R_incremental:
  "R db (snd (run_plan_shared_segment_incremental fault plan source_id source_node_id task_id params db))"
proof -
  let ?db0 = "snd (fresh_uuid db)"
  let ?items = "load_provenanced_items ?db0 task_id source_id source_node_id"
  obtain r db' where seg: "run_shared_segment_over_branches fault plan (pl_graph plan)
      (fst (fresh_uuid db)) (remdups (downstream_of (pl_graph plan) source_node_id)) [?items] params ?db0 =
      Inr (r, db')"
    using segment_returns by blast
  have "R db db'" using R_trans[OF R_key R_segment[OF seg]] .
  with seg R_key show ?thesis
    by (auto simp: run_plan_shared_segment_incremental_def case_prod_unfold Let_def)
qed

lemma R_trigger: "R db (snd (trigger_incremental_shared_segments fault source_id task_id params db))"
proof -
  have "R db (snd (trigger_loop fault source_id task_id params memberships db))" for memberships
  proof (induction memberships arbitrary: db)
    case (Cons i rest)
    show ?case
    proof (cases "get_plan db (psi_plan_id i)")
      case None
      with Cons.IH show ?thesis by simp
    next
      case (Some plan)
      with R_trans[OF R_incremental Cons.IH] show ?thesis by (simp add: case_prod_unfold Let_def)
    qed
  qed (simp add: R_refl)
  then show ?thesis by (simp add: trigger_incremental_shared_segments_def)
qed

end

subsection \<open>The store of a sink\<close>

lemma flush_inserts_prefix: "flush_inserts rows table = Some table' \<Longrightarrow> prefix table table'"
proof (induction rows arbitrary: table)
  case (Cons row rows)
  then have "prefix (table @ [row]) table'" by (auto simp: checked_def split: if_splits option.splits)
  then show ?case by (rule append_prefixD)
qed simp

lemma insert_survivors_prefix:
  "prefix table (snd (snd (insert_survivors there rows n table)))"
proof (induction rows arbitrary: table n)
  case (Cons row rows)
  show ?case
    using Cons.IH[of table "Suc n"] append_prefixD[OF Cons.IH[of "table @ [row]" n]]
    by (auto simp: checked_def case_prod_unfold Let_def)
qed simp

lemma store_records_prefix:
  assumes "store_records a triples None odp ids [] table = Inr (new, skipped, table')"
  shows "prefix table table'"
proof (cases "triples = []")
  case False
  define s where "s = batch_loop a triples None table"
  have "ss_updated s = []"
    unfolding s_def batch_loop_def Let_def
    by (simp add: batch_without_identities List.map_filter_def)
  moreover have "insert_survivors there rows n table = (k, m, table') \<Longrightarrow> prefix table table'" for there rows n k m
    using insert_survivors_prefix[of table there rows n] by simp
  ultimately show ?thesis
    using assms False flush_inserts_prefix
    by (auto simp: store_records_def Let_def s_def[symmetric] flush_def case_prod_unfold
        split: if_splits option.splits)
qed (use assms in \<open>simp add: store_records_def\<close>)

definition anchored :: "plan_db \<Rightarrow> plan_db \<Rightarrow> bool" where
  "anchored db db' \<longleftrightarrow> pdb_sources db' = pdb_sources db \<and> pdb_measurements db' = pdb_measurements db \<and>
     pdb_plans db' = pdb_plans db \<and> pdb_index db' = pdb_index db \<and>
     prefix (pdb_records db) (pdb_records db') \<and> prefix (pdb_health db) (pdb_health db') \<and>
     prefix (pdb_tasks db) (pdb_tasks db') \<and>
     (\<forall>t \<in> set (drop (length (pdb_tasks db)) (pdb_tasks db')). ct_trigger_type t = ''plan_shared'')"

lemma store_shared_cases:
  assumes "store_shared_items plan items params db = Inr (stored, skipped, db')"
  obtains "items = []" "db' = db" "stored = 0" "skipped = 0"
  | task db1 new table where
    "items \<noteq> []" "create_task (pi_source_id (hd items)) ''plan_shared'' params 5 None db = Inr (task, db1)"
    "store_records \<lparr>sa_task_id = ct_id task, sa_source_id = pl_id plan, sa_workflow_id = None,
        sa_workflow_run_id = None, sa_lineage = None\<rparr> (map (provenance_triple (pl_id plan)) items) None
        odp_off (\<lambda>i. pdb_uuid db1 (pdb_next db1 + i)) [] (pdb_records db1) = Inr (new, skipped, table)"
    "stored = length new" "db' = db1\<lparr>pdb_records := table, pdb_next := pdb_next db1 + length new\<rparr>"
  using assms by (auto simp: store_shared_items_def split: if_splits sum.splits)

lemma create_task_frame:
  "create_task sid ty params p agent db = Inr (task, db') \<Longrightarrow>
    \<exists>k. db' = db\<lparr>pdb_next := k, pdb_tasks := pdb_tasks db @ [task]\<rparr> \<and> ct_trigger_type task = ty"
  by (auto simp: create_task_def fresh_uuid_def Let_def split: if_splits)

lemma store_shared_frame:
  assumes "store_shared_items plan items params db = Inr (stored, skipped, db')"
  shows "anchored db db' \<and> pdb_health db' = pdb_health db \<and> pdb_clock db' = pdb_clock db"
  using assms
proof (cases rule: store_shared_cases)
  case (2 task db1 new table)
  from create_task_frame[OF 2(2)] store_records_prefix[OF 2(3)] 2(5) show ?thesis
    by (auto simp: anchored_def)
qed (simp add: anchored_def)

interpretation shared: shared_relation anchored
proof
  fix db db' db'' assume "anchored db db'" "anchored db' db''"
  then show "anchored db db''"
    by (auto simp: anchored_def prefix_def)
qed (auto simp: anchored_def fresh_uuid_def monotonic_ms_def record_node_health_def Let_def
    dest: store_shared_frame)

text \<open>
  C15: two-tier attribution: when a source's delivery triggers the shared segments of every plan that
  uses it, whatever the shared nodes do or raise, no source, measurement, plan or index row
  changes, stored records and health rows are only added to, and the only tasks created are the
  anchors of shared stores.
\<close>

theorem trigger_keeps_source_state:
  "(let db' = snd (trigger_incremental_shared_segments fault source_id task_id params db)
    in pdb_sources db' = pdb_sources db \<and> pdb_measurements db' = pdb_measurements db \<and>
       pdb_plans db' = pdb_plans db \<and> pdb_index db' = pdb_index db \<and>
       prefix (pdb_records db) (pdb_records db') \<and> prefix (pdb_health db) (pdb_health db') \<and>
       (\<exists>anchors. pdb_tasks db' = pdb_tasks db @ anchors \<and>
          list_all (\<lambda>t. ct_trigger_type t = ''plan_shared'') anchors))"
  using shared.R_trigger[of db fault source_id task_id params]
  by (auto simp: anchored_def Let_def prefix_def list_all_iff)

section \<open>Plan health\<close>

interpretation health_log: append_log pdb_health
    "\<lambda>(pid, run_key, nid, ty, ok, ms, i, out, err, detail) db.
       record_node_health pid run_key nid ty ok ms i out err detail db"
    "\<lambda>(pid, run_key, nid, ty, ok, ms, i, out, err, detail) db.
       \<lparr>ph_id = pdb_uuid db (pdb_next db), ph_plan_id = pid, ph_run_key = run_key, ph_node_id = nid,
        ph_node_type = ty, ph_success = ok, ph_duration_ms = ms, ph_items_in = i, ph_items_out = out,
        ph_error_message = err, ph_detail = detail, ph_recorded_at = pdb_clock db (pdb_reads db)\<rparr>"
  by unfold_locales (auto simp: record_node_health_def fresh_uuid_def monotonic_ms_def Let_def)

lemma health_clock [simp]: "pdb_health (snd (monotonic_ms db)) = pdb_health db"
  by (simp add: monotonic_ms_def)

lemma body_health:
  "node_body fault plan branches params node current db = Inr (current', st, i, out, detail, db') \<Longrightarrow>
    pdb_health db' = pdb_health db"
  using store_shared_frame
  by (fastforce simp: node_body_def case_prod_unfold Let_def split: option.splits if_splits sum.splits)

lemma failed_health:
  "\<exists>h. pdb_health (node_failed plan run_key node e n db) = pdb_health db @ [h] \<and> \<not> ph_success h \<and>
     ph_plan_id h = pl_id plan \<and> ph_run_key h = run_key \<and> ph_node_id h = node_id node"
  unfolding node_failed_def using health_log.rows_append by fastforce

lemma ran_health:
  "\<exists>h. pdb_health (node_ran plan run_key node started i out detail db) = pdb_health db @ [h] \<and>
     ph_success h \<and> ph_plan_id h = pl_id plan \<and> ph_run_key h = run_key \<and> ph_node_id h = node_id node"
  unfolding node_ran_def using health_log.rows_append by fastforce

text \<open>Which nodes have a health row after a run, and with which success flag.\<close>

definition ran_nodes :: "string list \<Rightarrow> shared_segment_result \<Rightarrow> (string \<times> bool) list \<Rightarrow> bool" where
  "ran_nodes order r trace \<longleftrightarrow>
     (if ssr_success r then trace = map (\<lambda>nid. (nid, True)) order
      else \<exists>pre nid post. order = pre @ nid # post \<and> ssr_failed_node_id r = Some nid \<and>
        trace = map (\<lambda>nid. (nid, True)) pre @ [(nid, False)])"

lemma ran_nodes_Cons: "ran_nodes order r trace \<Longrightarrow> ran_nodes (nid # order) r ((nid, True) # trace)"
  unfolding ran_nodes_def by (cases "ssr_success r") (auto, metis append_Cons list.simps(9))

lemma pipeline_health:
  assumes "\<And>nid. nid \<in> set order \<Longrightarrow> \<exists>node. nodes nid = Some node \<and> node_id node = nid"
    and "run_shared_pipeline fault plan run_key nodes branches params order current counts db = Inr (r, db')"
  shows "\<exists>rows. pdb_health db' = pdb_health db @ rows \<and>
    list_all (\<lambda>h. ph_plan_id h = pl_id plan \<and> ph_run_key h = run_key) rows \<and>
    ran_nodes order r (map (\<lambda>h. (ph_node_id h, ph_success h)) rows)"
  using assms
proof (induction order arbitrary: current counts db)
  case Nil
  then show ?case by (auto simp: ran_nodes_def)
next
  case (Cons nid order)
  then obtain node where node: "nodes nid = Some node" and [simp]: "node_id node = nid" by force
  show ?case
  proof (cases rule: pipeline_cases[of fault plan branches params node current db])
    case (failed e)
    obtain h where "pdb_health (node_failed plan run_key node e (length current) db) = pdb_health db @ [h]"
      "\<not> ph_success h" "ph_plan_id h = pl_id plan" "ph_run_key h = run_key" "ph_node_id h = nid"
      using failed_health[of plan run_key node e "length current" db] by auto
    with Cons.prems(2) show ?thesis
      unfolding pipeline_step_failed[of nodes nid, OF node failed]
      by (intro exI[of _ "[h]"]) (auto simp: ran_nodes_def)
  next
    case (ran current' stored items_in items_out detail db1)
    let ?db2 = "node_ran plan run_key node (fst (monotonic_ms db)) items_in items_out detail db1"
    obtain h where h: "pdb_health ?db2 = pdb_health db @ [h]" "ph_success h"
      "ph_plan_id h = pl_id plan" "ph_run_key h = run_key" "ph_node_id h = nid"
      using ran_health[of plan run_key node "fst (monotonic_ms db)" items_in items_out detail db1]
        body_health[OF ran] by auto
    have known: "\<exists>node. nodes n = Some node \<and> node_id node = n" if "n \<in> set order" for n
      using Cons.prems(1) that by simp
    obtain rows where "pdb_health db' = pdb_health ?db2 @ rows"
      "list_all (\<lambda>h. ph_plan_id h = pl_id plan \<and> ph_run_key h = run_key) rows"
      "ran_nodes order r (map (\<lambda>h. (ph_node_id h, ph_success h)) rows)"
      using Cons.IH[OF known Cons.prems(2)[unfolded pipeline_step_ran[of nodes nid, OF node ran]]] by blast
    with h show ?thesis by (intro exI[of _ "h # rows"]) (auto intro: ran_nodes_Cons)
  qed
qed

text \<open>
  Plan health is exact: a shared segment run appends one health row per node it ran, in run order,
  under its run key; if it succeeds every node of the order has a successful row, and if it fails
  the last row, the only unsuccessful one, is that of the node the result blames.
\<close>

lemma health_rows_exact:
  assumes "run_shared_segment_over_branches fault plan graph run_key starts branches params db =
    Inr (Some r, db')"
  shows "\<exists>rows. pdb_health db' = pdb_health db @ rows \<and>
    list_all (\<lambda>h. ph_plan_id h = pl_id plan \<and> ph_run_key h = run_key) rows \<and>
    ran_nodes (shared_segment_topo_order graph starts) r (map (\<lambda>h. (ph_node_id h, ph_success h)) rows)"
proof (rule pipeline_health)
  show "run_shared_pipeline fault plan run_key (nodes_by_id graph) branches params
      (shared_segment_topo_order graph starts) [] (0, 0) db = Inr (r, db')"
    using assms by (auto simp: run_shared_segment_over_branches_def Let_def split: if_splits sum.splits)
qed (use order_nodes in blast)

section \<open>Merged items reach the store\<close>

definition supported :: "plan_node \<Rightarrow> bool" where
  "supported node \<longleftrightarrow> node_kind node = MergeKind \<or> node_type node = ''dedupe'' \<or> node_kind node = SinkKind"

definition stores :: "plan_node \<Rightarrow> bool" where
  "stores node \<longleftrightarrow> node_kind node = SinkKind \<and> node_type node \<noteq> ''dedupe''"

abbreviation hashes :: "provenanced_item list \<Rightarrow> string set" where
  "hashes items \<equiv> pi_content_hash ` set items"

abbreviation known_source :: "plan_db \<Rightarrow> provenanced_item \<Rightarrow> bool" where
  "known_source db item \<equiv> pi_source_id item \<in> ds_id ` set (pdb_sources db)"

lemma store_shared_complete:
  assumes "unique_content (pdb_records db)" and "\<And>x. x \<in> set items \<Longrightarrow> known_source db x"
  obtains stored skipped db' where "store_shared_items plan items params db = Inr (stored, skipped, db')"
    "unique_content (pdb_records db')" "stored + skipped = length items"
    "stored_hashes (pl_id plan) (pdb_records db') = stored_hashes (pl_id plan) (pdb_records db) \<union> hashes items"
proof (cases "items = []")
  case True
  with assms(1) show thesis by (intro that[of 0 0 db]) (simp_all add: store_shared_items_def)
next
  case False
  then have "known_source db (hd items)" using assms(2) by simp
  then obtain task db1 where task:
    "create_task (pi_source_id (hd items)) ''plan_shared'' params 5 None db = Inr (task, db1)"
    by (fastforce simp: create_task_def case_prod_unfold Let_def list_ex_iff)
  with create_task_frame have recs: "pdb_records db1 = pdb_records db" by fastforce
  let ?a = "\<lparr>sa_task_id = ct_id task, sa_source_id = pl_id plan, sa_workflow_id = None,
    sa_workflow_run_id = None, sa_lineage = None\<rparr>"
  let ?ts = "map (provenance_triple (pl_id plan)) items"
  have "unique_content (pdb_records db1 @ [])" "\<not> odp_refuses odp_off"
    using assms(1) recs by (simp_all add: odp_refuses_def odp_off_def)
  then obtain new skipped where new:
    "store_records ?a ?ts None odp_off (\<lambda>i. pdb_uuid db1 (pdb_next db1 + i)) [] (pdb_records db1) =
       Inr (new, skipped, (pdb_records db1 @ []) @ new)"
    "unique_content ((pdb_records db1 @ []) @ new)" "length new + skipped = length ?ts"
    "\<And>r. r \<in> set new \<Longrightarrow> rec_source_id r = sa_source_id ?a"
    "set (map rec_content_hash new) =
       set (map (snd \<circ> snd) ?ts) - stored_hashes (sa_source_id ?a) (pdb_records db1 @ [])"
    by (rule store_without_identities[where a = ?a and triples = ?ts
          and ids = "\<lambda>i. pdb_uuid db1 (pdb_next db1 + i)"]) blast
  have ts: "set (map (snd \<circ> snd) ?ts) = hashes items" by (auto simp: provenance_triple_def)
  have "stored_hashes (pl_id plan) new = set (map rec_content_hash new)"
    using new(4) by (auto simp: stored_hashes_def)
  moreover have "stored_hashes (pl_id plan) (pdb_records db @ new) =
      stored_hashes (pl_id plan) (pdb_records db) \<union> stored_hashes (pl_id plan) new"
    by (auto simp: stored_hashes_def)
  ultimately have "stored_hashes (pl_id plan) (pdb_records db @ new) =
      stored_hashes (pl_id plan) (pdb_records db) \<union> hashes items"
    using new(5) ts recs by simp
  with False task new(1-3) recs show thesis
    by (intro that[of "length new" skipped
          "db1\<lparr>pdb_records := pdb_records db1 @ new, pdb_next := pdb_next db1 + length new\<rparr>"])
      (simp_all add: store_shared_items_def)
qed

lemma body_supported:
  assumes "supported node" and "fault (node_id node) = None" and "unique_content (pdb_records db)"
    and "\<And>x. x \<in> set current \<Longrightarrow> known_source db x"
  obtains current' stored i out detail db' where
    "node_body fault plan branches params node current db = Inr (current', stored, i, out, detail, db')"
    "unique_content (pdb_records db')" "pdb_sources db' = pdb_sources db"
    "hashes current' = (if node_kind node = MergeKind then hashes (concat branches) else hashes current)"
    "set current' \<subseteq> set current \<union> set (concat branches)"
    "stored_hashes (pl_id plan) (pdb_records db') = stored_hashes (pl_id plan) (pdb_records db) \<union>
       (if stores node then hashes current else {})"
proof -
  consider (merge) "node_kind node = MergeKind"
    | (dedupe) "node_kind node \<noteq> MergeKind" "node_type node = ''dedupe''"
    | (sink) "node_kind node = SinkKind" "node_type node \<noteq> ''dedupe''"
    using assms(1) by (auto simp: supported_def)
  then show thesis
  proof cases
    case merge
    show thesis
      by (rule that[of "concat branches" None "total_items branches" "length (concat branches)" "[]" db])
        (use merge assms in \<open>simp_all add: node_body_def merge_items_eq stores_def Let_def\<close>)
  next
    case dedupe
    have "set (fst (dedupe_items current)) \<subseteq> set current"
      using dedupe_loop_spec[of current "{}"] by (auto simp: dedupe_items_def dest: list_emb_set)
    then show thesis
      by (intro that[of "fst (dedupe_items current)" None "length current"
            "length (fst (dedupe_items current))" "[(''dropped'', JInt (int (snd (dedupe_items current))))]" db])
        (use dedupe assms in \<open>auto simp: node_body_def dedupe_hashes stores_def case_prod_unfold Let_def\<close>)
  next
    case sink
    obtain stored skipped db' where st: "store_shared_items plan current params db = Inr (stored, skipped, db')"
      "unique_content (pdb_records db')"
      "stored_hashes (pl_id plan) (pdb_records db') = stored_hashes (pl_id plan) (pdb_records db) \<union> hashes current"
      using assms(3,4)
      by (rule store_shared_complete[where items = current and plan = plan and params = params]) blast
    show thesis
      by (rule that[of current "Some (stored, skipped)" "length current" stored
            "[(''skipped'', JInt (int skipped))]" db'])
        (use sink st assms store_shared_frame[OF st(1)] in \<open>simp_all add: node_body_def stores_def anchored_def\<close>)
  qed
qed

text \<open>
  Every node of the order is supported and raises nothing of its own; then the pipeline succeeds,
  and if it holds merged items already, a sink stores all of them.
\<close>

definition sound_order ::
  "(string \<Rightarrow> string option) \<Rightarrow> (string \<Rightarrow> plan_node option) \<Rightarrow> string list \<Rightarrow> bool"
where
  "sound_order fault nodes order \<longleftrightarrow>
     list_all (\<lambda>nid. case nodes nid of None \<Rightarrow> False
       | Some node \<Rightarrow> supported node \<and> fault (node_id node) = None) order"

definition has_sink :: "(string \<Rightarrow> plan_node option) \<Rightarrow> string list \<Rightarrow> bool" where
  "has_sink nodes order \<longleftrightarrow>
     list_ex (\<lambda>nid. case nodes nid of None \<Rightarrow> False | Some node \<Rightarrow> stores node) order"

definition has_merge :: "(string \<Rightarrow> plan_node option) \<Rightarrow> string list \<Rightarrow> bool" where
  "has_merge nodes order \<longleftrightarrow>
     list_ex (\<lambda>nid. case nodes nid of None \<Rightarrow> False | Some node \<Rightarrow> node_kind node = MergeKind) order"

lemma ran_keeps [simp]:
  "pdb_records (node_ran plan run_key node started i out detail db) = pdb_records db"
  "pdb_sources (node_ran plan run_key node started i out detail db) = pdb_sources db"
  "pdb_records (snd (monotonic_ms db)) = pdb_records db"
  "pdb_sources (snd (monotonic_ms db)) = pdb_sources db"
  by (simp_all add: node_ran_def record_node_health_def monotonic_ms_def fresh_uuid_def)

lemma pipeline_stores:
  assumes "sound_order fault nodes order" and "unique_content (pdb_records db)"
    and "\<And>x. x \<in> set current \<union> set (concat branches) \<Longrightarrow> known_source db x"
    and "has_merge nodes order \<Longrightarrow> hashes current = hashes (concat branches)"
  shows "\<exists>r db'. run_shared_pipeline fault plan run_key nodes branches params order current counts db =
      Inr (r, db') \<and> ssr_success r \<and>
      stored_hashes (pl_id plan) (pdb_records db') = stored_hashes (pl_id plan) (pdb_records db) \<union>
        (if has_sink nodes order then hashes current else {})"
  using assms
proof (induction order arbitrary: current counts db)
  case Nil
  then show ?case by (simp add: has_sink_def)
next
  case (Cons nid order)
  then obtain node where node: "nodes nid = Some node" "supported node" "fault (node_id node) = None"
    by (auto simp: sound_order_def split: option.splits)
  from Cons.prems(2,3) obtain current' stored i out detail db1 where ran:
    "node_body fault plan branches params node current (snd (monotonic_ms db)) =
       Inr (current', stored, i, out, detail, db1)"
    and db1: "unique_content (pdb_records db1)" "pdb_sources db1 = pdb_sources db"
    "hashes current' = (if node_kind node = MergeKind then hashes (concat branches) else hashes current)"
    "set current' \<subseteq> set current \<union> set (concat branches)"
    "stored_hashes (pl_id plan) (pdb_records db1) = stored_hashes (pl_id plan) (pdb_records db) \<union>
       (if stores node then hashes current else {})"
    using body_supported[of node fault "snd (monotonic_ms db)" current plan branches params] node(2,3)
    by (metis (no_types, lifting) UnCI ran_keeps(3,4))
  let ?db2 = "node_ran plan run_key node (fst (monotonic_ms db)) i out detail db1"
  have same: "hashes current' = hashes current"
    using Cons.prems(4) db1(3) node(1) by (auto simp: has_merge_def)
  have "sound_order fault nodes order" "has_merge nodes order \<Longrightarrow> has_merge nodes (nid # order)"
    using Cons.prems(1) by (simp_all add: sound_order_def has_merge_def)
  moreover have "known_source ?db2 x" if "x \<in> set current' \<union> set (concat branches)" for x
    using that db1(2,4) Cons.prems(3)[of x] by auto
  ultimately obtain r db' where "run_shared_pipeline fault plan run_key nodes branches params order current'
      (case stored of None \<Rightarrow> counts | Some c \<Rightarrow> c) ?db2 = Inr (r, db')" "ssr_success r"
      "stored_hashes (pl_id plan) (pdb_records db') = stored_hashes (pl_id plan) (pdb_records ?db2) \<union>
        (if has_sink nodes order then hashes current' else {})"
    using Cons.IH[of ?db2 current' "case stored of None \<Rightarrow> counts | Some c \<Rightarrow> c"] db1(1) Cons.prems(4) same
    by auto
  moreover have "has_sink nodes (nid # order) \<longleftrightarrow> stores node \<or> has_sink nodes order"
    by (simp add: has_sink_def node(1))
  ultimately show ?case
    unfolding pipeline_step_ran[of nodes nid, OF node(1) ran] using db1(5) same by auto
qed

text \<open>
  What is merged reaches the store: if the run order starts with a merge node, continues with
  supported nodes that raise nothing and contains a sink, and the items' sources exist, then the
  run succeeds and afterwards the plan has stored exactly the content it had before together
  with that of every upstream branch, each once.
\<close>

lemma merged_items_stored:
  assumes "shared_segment_topo_order graph starts = m # rest"
    and "nodes_by_id graph m = Some node" and "node_kind node = MergeKind"
    and "sound_order fault (nodes_by_id graph) (m # rest)" and "has_sink (nodes_by_id graph) rest"
    and "unique_content (pdb_records db)"
    and "\<forall>item \<in> set (concat branches). pi_source_id item \<in> ds_id ` set (pdb_sources db)"
  shows "\<exists>r db'. run_shared_segment_over_branches fault plan graph run_key starts branches params db =
      Inr (Some r, db') \<and> ssr_success r \<and>
      stored_hashes (pl_id plan) (pdb_records db') =
        stored_hashes (pl_id plan) (pdb_records db) \<union> pi_content_hash ` set (concat branches)"
proof -
  have node: "supported node" "fault (node_id node) = None" "sound_order fault (nodes_by_id graph) rest"
    using assms(2,4) by (simp_all add: sound_order_def)
  have ran: "node_body fault plan branches params node [] (snd (monotonic_ms db)) =
      Inr (concat branches, None, total_items branches, length (concat branches), [], snd (monotonic_ms db))"
    using assms(3) node(2) by (simp add: node_body_def merge_items_eq Let_def)
  let ?db2 = "node_ran plan run_key node (fst (monotonic_ms db)) (total_items branches)
    (length (concat branches)) [] (snd (monotonic_ms db))"
  obtain r db' where "run_shared_pipeline fault plan run_key (nodes_by_id graph) branches params rest
      (concat branches) (0, 0) ?db2 = Inr (r, db')" "ssr_success r"
      "stored_hashes (pl_id plan) (pdb_records db') = stored_hashes (pl_id plan) (pdb_records ?db2) \<union>
        (if has_sink (nodes_by_id graph) rest then hashes (concat branches) else {})"
    using pipeline_stores[OF node(3), of ?db2 "concat branches" branches plan run_key params "(0, 0)"]
      assms(6,7) by auto
  then show ?thesis
    using assms(5) by (simp add: run_shared_segment_over_branches_def assms(1)
        pipeline_step_ran[of "nodes_by_id graph" m, OF assms(2) ran])
qed

definition shared_source :: "string \<Rightarrow> data_source" where
  "shared_source sid = \<lparr>ds_id = sid, ds_name = sid, ds_channel_type = ''rss'', ds_channel_config = [],
     ds_write_strategy = None, ds_ai_config = None, ds_objective_override = None, ds_enabled = True, ds_review_required = False,
     ds_paused_until = None\<rparr>"

definition shared_item :: "string \<Rightarrow> string \<Rightarrow> provenanced_item" where
  "shared_item h sid = \<lparr>pi_raw = [], pi_normalized = [], pi_content_hash = h, pi_source_id = sid,
     pi_source_node_id = sid\<rparr>"

definition shared_plan :: "plan_graph \<Rightarrow> plan_row" where
  "shared_plan graph = \<lparr>pl_id = ''p'', pl_name = ''p'', pl_graph = graph, pl_version = 1,
     pl_draft = False, pl_runnable = True\<rparr>"

definition shared_db :: plan_db where
  "shared_db = empty_pdb\<lparr>pdb_sources := [shared_source ''s1'', shared_source ''s2'']\<rparr>"

lemma demo_order: "shared_segment_topo_order demo_plan [''m''] = [''m'', ''d'', ''k'']"
  by code_simp

lemma merged_items_stored_witness:
  "\<exists>r db'. run_shared_segment_over_branches (\<lambda>_. None) (shared_plan demo_plan) demo_plan ''key'' [''m'']
      [[shared_item ''h1'' ''s1''], [shared_item ''h1'' ''s2'', shared_item ''h2'' ''s2'']] [] shared_db =
      Inr (Some r, db') \<and> ssr_success r \<and>
      stored_hashes ''p'' (pdb_records db') = {''h1'', ''h2''}"
proof -
  have sound: "sound_order (\<lambda>_. None) (nodes_by_id demo_plan) [''m'', ''d'', ''k'']"
    "has_sink (nodes_by_id demo_plan) [''d'', ''k'']" by code_simp+
  obtain node where node: "nodes_by_id demo_plan ''m'' = Some node" "node_kind node = MergeKind"
    by (simp add: nodes_by_id_def index_by_def demo_plan_def demo_node_def)
  have db: "unique_content (pdb_records shared_db)" "stored_hashes ''p'' (pdb_records shared_db) = {}"
    by (simp_all add: shared_db_def empty_pdb_def unique_content_def stored_hashes_def)
  show ?thesis
    using merged_items_stored[OF demo_order node sound db(1),
        of "[[shared_item ''h1'' ''s1''], [shared_item ''h1'' ''s2'', shared_item ''h2'' ''s2'']]"
        "shared_plan demo_plan" "''key''" "[]"] db(2)
    by (simp add: shared_db_def shared_item_def shared_source_def shared_plan_def)
qed

lemma health_rows_exact_witness:
  "\<exists>r db' rows. run_shared_segment_over_branches (\<lambda>nid. if nid = ''d'' then Some ''boom'' else None)
      (shared_plan demo_plan) demo_plan ''key'' [''m''] [[shared_item ''h1'' ''s1'']] [] shared_db =
      Inr (Some r, db') \<and> pdb_health db' = pdb_health shared_db @ rows \<and>
      map (\<lambda>h. (ph_node_id h, ph_success h)) rows = [(''m'', True), (''d'', False)]"
proof -
  let ?run = "run_shared_segment_over_branches (\<lambda>nid. if nid = ''d'' then Some ''boom'' else None)
      (shared_plan demo_plan) demo_plan ''key'' [''m''] [[shared_item ''h1'' ''s1'']] [] shared_db"
  have "(case ?run of Inr (Some r, db') \<Rightarrow> ssr_failed_node_id r = Some ''d'' \<and> \<not> ssr_success r | _ \<Rightarrow> False)"
    by code_simp
  then obtain r db' where run: "?run = Inr (Some r, db')" and r: "ssr_failed_node_id r = Some ''d''" "\<not> ssr_success r"
    by (auto split: sum.splits option.splits prod.splits)
  from health_rows_exact[OF run] obtain rows where rows: "pdb_health db' = pdb_health shared_db @ rows"
    "ran_nodes [''m'', ''d'', ''k''] r (map (\<lambda>h. (ph_node_id h, ph_success h)) rows)"
    unfolding demo_order by blast
  from rows(2) r have "map (\<lambda>h. (ph_node_id h, ph_success h)) rows = [(''m'', True), (''d'', False)]"
    by (auto simp: ran_nodes_def Cons_eq_append_conv)
  with run rows(1) show ?thesis by (intro exI conjI) assumption+
qed

subsection \<open>A segment without a merge\<close>

lemma mergeless_body:
  assumes "supported node" "fault (node_id node) = None" "node_kind node \<noteq> MergeKind"
  obtains stored i out detail where
    "node_body fault plan branches params node [] db = Inr ([], stored, i, out, detail, db)"
  using assms
  by (cases "node_type node = ''dedupe''")
    (auto simp: node_body_def supported_def dedupe_items_def store_shared_items_def)

lemma mergeless_pipeline:
  assumes "sound_order fault nodes order" and "\<not> has_merge nodes order"
  shows "\<exists>r db'. run_shared_pipeline fault plan run_key nodes branches params order [] counts db =
      Inr (r, db') \<and> ssr_success r \<and> pdb_records db' = pdb_records db"
  using assms
proof (induction order arbitrary: counts db)
  case (Cons nid order)
  then obtain node where node: "nodes nid = Some node" "supported node" "fault (node_id node) = None"
    "node_kind node \<noteq> MergeKind"
    by (auto simp: sound_order_def has_merge_def split: option.splits)
  obtain stored i out detail where ran: "node_body fault plan branches params node [] (snd (monotonic_ms db)) =
      Inr ([], stored, i, out, detail, snd (monotonic_ms db))"
    using mergeless_body[of node fault, OF node(2-4)] by blast
  have "sound_order fault nodes order" "\<not> has_merge nodes order"
    using Cons.prems by (simp_all add: sound_order_def has_merge_def)
  from Cons.IH[OF this] show ?case
    unfolding pipeline_step_ran[of nodes nid, OF node(1) ran] by (metis ran_keeps(1,3))
qed simp

text \<open>
  A delivery that reaches only deduplication and sink nodes, with no merge node on the way, is not
  stored by the plan at all, although the triggered run reports success: the pipeline takes its
  items from merge nodes only.
\<close>

lemma mergeless_delivery_dropped:
  assumes "\<not> pl_draft plan" and "pl_runnable plan"
    and "sound_order fault (nodes_by_id (pl_graph plan))
      (shared_segment_topo_order (pl_graph plan) (remdups (downstream_of (pl_graph plan) source_node_id)))"
    and "\<not> has_merge (nodes_by_id (pl_graph plan))
      (shared_segment_topo_order (pl_graph plan) (remdups (downstream_of (pl_graph plan) source_node_id)))"
  shows "(let (r, db') = run_plan_shared_segment_incremental fault plan source_id source_node_id task_id params db
    in it_success r \<and> it_error r = None \<and> pdb_records db' = pdb_records db)"
proof -
  let ?order = "shared_segment_topo_order (pl_graph plan) (remdups (downstream_of (pl_graph plan) source_node_id))"
  have "pdb_records (snd (fresh_uuid db)) = pdb_records db" by (simp add: fresh_uuid_def)
  with assms(1,2) mergeless_pipeline[OF assms(3,4), of plan "fst (fresh_uuid db)"
      "[load_provenanced_items (snd (fresh_uuid db)) task_id source_id source_node_id]" params "(0, 0)"
      "snd (fresh_uuid db)"]
  show ?thesis
    by (cases "?order = []")
      (auto simp: run_plan_shared_segment_incremental_def run_shared_segment_over_branches_def
        case_prod_unfold Let_def)
qed

definition straight_plan :: plan_graph where
  "straight_plan = demo_plan\<lparr>graph_nodes := [demo_node ''a'' SourceKind ''rss_source'' (Some ''s1''),
     demo_node ''d'' TransformKind ''dedupe'' None, demo_node ''k'' SinkKind ''db_sink'' None],
     graph_edges := [demo_edge ''a'' ''d'', demo_edge ''d'' ''k'']\<rparr>"

lemma mergeless_delivery_dropped_witness:
  "(let (r, db') = run_plan_shared_segment_incremental (\<lambda>_. None) (shared_plan straight_plan) ''s1'' ''a'' ''t'' []
       (shared_db\<lparr>pdb_records := [plain_row ''r'' ''h1'' None]\<rparr>)
    in it_success r \<and> it_error r = None \<and> pdb_records db' = [plain_row ''r'' ''h1'' None])"
proof -
  have order: "shared_segment_topo_order straight_plan (remdups (downstream_of straight_plan ''a'')) = [''d'', ''k'']"
    by code_simp
  have "sound_order (\<lambda>_. None) (nodes_by_id straight_plan) [''d'', ''k'']"
    "\<not> has_merge (nodes_by_id straight_plan) [''d'', ''k'']" by code_simp+
  then show ?thesis
    using mergeless_delivery_dropped[of "shared_plan straight_plan" "\<lambda>_. None" "''a''" "''s1''" "''t''" "[]"
        "shared_db\<lparr>pdb_records := [plain_row ''r'' ''h1'' None]\<rparr>"] order
    by (simp add: shared_plan_def)
qed

end
