(* ===== verification/WorkflowGraph.thy ===== *)
theory WorkflowGraph
  imports CronText PlanValidation
begin

text \<open>
  Workflow projects as the canvas authors them (\<open>backend/schemas/workflow.py\<close>): nodes with
  nested package internals, edges, adapters, parameter interfaces; and the compiler's error value
  (\<open>backend/schemas/workflow_compile.py\<close>), which keeps its code, anchors and path but not
  its English message. Fields no operation of this development reads (the presentation of a
  parameter interface, extra keys) are left out; settings, permissions, anchors and semantic links
  are passed through as JSON.
\<close>

section \<open>Documents\<close>

record mini_network =
  mn_nodes :: nat
  mn_edges :: nat
  mn_mode :: string

record topic_collapse =
  tc_groupId :: string
  tc_nodeCount :: nat
  tc_mode :: string
  tc_packageInternal :: bool

record parameter_binding =
  pb_nodeId :: string
  pb_source :: string
  pb_fieldId :: string

record parameter_field =
  pf_id :: string
  pf_binding :: parameter_binding
  pf_value :: json

record wf_edge =
  we_id :: string
  we_source :: string
  we_target :: string
  we_sourcePort :: "string option"
  we_targetPort :: "string option"
  we_label :: "string option"
  we_condition :: "string option"
  we_semantic :: "json option"
  we_weight :: "rat option"
  we_contractId :: "string option"
  we_proposalState :: "string option"
  we_ui :: "json dict option"

record node_data =
  nd_id :: string
  nd_kind :: string
  nd_capability :: string
  nd_adapter :: "string option"
  nd_params :: "json dict"
  nd_sourceAnchor :: "json option"
  nd_runArtifact :: "json option"
  nd_miniNetwork :: "mini_network option"
  nd_topicCollapse :: "topic_collapse option"
  nd_proposalState :: "string option"
  nd_parameterInterface :: "parameter_field list option"
  nd_ui :: "json dict option"

text \<open>
  A node is its own data and, for a package, its internals: a lock flag, nodes and edges.
\<close>

datatype wf_node = WfNode (wn_data: node_data) (wn_internals: "wf_internals option")
  and wf_internals =
    WfInternals (in_locked: "bool option") (in_nodes: "wf_node list") (in_edges: "wf_edge list")

abbreviation wn_id :: "wf_node \<Rightarrow> string" where
  "wn_id n \<equiv> nd_id (wn_data n)"

abbreviation wn_params :: "wf_node \<Rightarrow> json dict" where
  "wn_params n \<equiv> nd_params (wn_data n)"

text \<open>\<open>node.ui or {}\<close>.\<close>

definition wn_ui :: "wf_node \<Rightarrow> json dict" where
  "wn_ui n = (case nd_ui (wn_data n) of None \<Rightarrow> [] | Some d \<Rightarrow> d)"

record wf_adapter =
  ad_id :: string
  ad_type :: string
  ad_provider :: string
  ad_mode :: string
  ad_config :: "json dict"

record wf_project =
  pj_id :: string
  pj_name :: string
  pj_profile :: string
  pj_version :: nat
  pj_nodes :: "wf_node list"
  pj_edges :: "wf_edge list"
  pj_settings :: json
  pj_adapters :: "wf_adapter list"
  pj_agentPermissions :: json

record compile_error =
  er_code :: string
  er_node_id :: "string option"
  er_edge_id :: "string option"
  er_path :: "string list"

definition wf_node_error :: "string \<Rightarrow> string \<Rightarrow> string list \<Rightarrow> compile_error" where
  "wf_node_error code nid path =
     \<lparr>er_code = code, er_node_id = Some nid, er_edge_id = None, er_path = path\<rparr>"

definition wf_edge_error :: "string \<Rightarrow> string \<Rightarrow> string list \<Rightarrow> compile_error" where
  "wf_edge_error code eid path =
     \<lparr>er_code = code, er_node_id = None, er_edge_id = Some eid, er_path = path\<rparr>"

text \<open>Compiled nodes and edges; package and runtime metadata are JSON objects.\<close>

record compiled_node =
  cn_id :: string
  cn_kind :: string
  cn_capability :: string
  cn_params :: "json dict"
  cn_depends_on :: "string list"
  cn_adapter :: "wf_adapter option"
  cn_sourceAnchor :: "json option"
  cn_runArtifact :: "json option"
  cn_package :: "json dict option"
  cn_runtime :: "json dict"

record compiled_edge =
  ce_id :: string
  ce_source :: string
  ce_target :: string
  ce_sourcePort :: string
  ce_targetPort :: string
  ce_contractId :: "string option"
  ce_condition :: "string option"

section \<open>Identifiers\<close>

definition WORKFLOW_NODE_PATH_SEPARATOR :: string where
  "WORKFLOW_NODE_PATH_SEPARATOR = ''::''"

text \<open>\<open>validate_local_node_id\<close>, which pydantic runs on every node it parses.\<close>

definition valid_local_node_id :: "string \<Rightarrow> bool" where
  "valid_local_node_id i \<longleftrightarrow>
     i \<noteq> [] \<and> \<not> sublist WORKFLOW_NODE_PATH_SEPARATOR i \<and> \<not> sublist ''__'' i"

text \<open>\<open>sep.join(parts)\<close>.\<close>

fun join_with :: "string \<Rightarrow> string list \<Rightarrow> string" where
  "join_with sep [] = []"
| "join_with sep [s] = s"
| "join_with sep (s # ss) = s @ sep @ join_with sep ss"

text \<open>\<open>s.split(sep)\<close> for a separator of one or two characters, scanning from the left.\<close>

fun split_one :: "char \<Rightarrow> string \<Rightarrow> string list" where
  "split_one c [] = [[]]"
| "split_one c (x # xs) =
     (if x = c then [] # split_one c xs
      else case split_one c xs of [] \<Rightarrow> [[x]] | p # ps \<Rightarrow> (x # p) # ps)"

fun split_two :: "char \<Rightarrow> char \<Rightarrow> string \<Rightarrow> string list" where
  "split_two c d [] = [[]]"
| "split_two c d [x] = [[x]]"
| "split_two c d (x # y # xs) =
     (if x = c \<and> y = d then [] # split_two c d xs
      else case split_two c d (y # xs) of [] \<Rightarrow> [[x]] | p # ps \<Rightarrow> (x # p) # ps)"

text \<open>\<open>value.strip() if isinstance(value, str) and value.strip() else None\<close>.\<close>

definition read_stripped :: "json option \<Rightarrow> string option" where
  "read_stripped v =
     (case v of Some (JStr s) \<Rightarrow> if strip s = [] then None else Some (strip s) | _ \<Rightarrow> None)"

definition read_dict :: "json option \<Rightarrow> json dict" where
  "read_dict v = (case v of Some (JObj d) \<Rightarrow> d | _ \<Rightarrow> [])"

definition catalog_id :: "wf_node \<Rightarrow> string option" where
  "catalog_id n = read_stripped (dict_get (wn_ui n) ''catalogId'')"

definition primitive_id :: "wf_node \<Rightarrow> string option" where
  "primitive_id n = read_stripped (dict_get (wn_ui n) ''primitiveId'')"

lemma split_one_not_Nil [simp]: "split_one c s \<noteq> []"
  by (induction c s rule: split_one.induct) (auto split: list.splits)

lemma split_two_not_Nil [simp]: "split_two c d s \<noteq> []"
  by (induction c d s rule: split_two.induct) (auto split: list.splits)

lemma join_with_Cons: "ss \<noteq> [] \<Longrightarrow> join_with sep (s # ss) = s @ sep @ join_with sep ss"
  by (cases ss) auto

lemma join_with_append:
  "xs \<noteq> [] \<Longrightarrow> ys \<noteq> [] \<Longrightarrow> join_with sep (xs @ ys) = join_with sep xs @ sep @ join_with sep ys"
proof (induction xs)
  case (Cons x xs)
  then show ?case by (cases "xs = []") (simp_all add: join_with_Cons)
qed simp

end
