(* ===== verification/NodeRegistry.thy ===== *)
theory NodeRegistry
  imports WorkflowGraph
begin

text \<open>
  The guard on node definitions (\<open>backend/workflow/node_registry.py\<close>): which catalog and
  primitive ids a node may reference, and which keys it may not carry. The registry of tool
  capabilities is the parameter \<open>registry\<close>. Python sets of literals are lists here; only
  membership is used.
\<close>

section \<open>Known ids and forbidden keys\<close>

definition WORKFLOW_CATALOG_IDS :: "string list" where
  "WORKFLOW_CATALOG_IDS =
     [''intelligence.input.collection-need'', ''intelligence.schedule.cron'',
      ''intelligence.source.jin10'', ''intelligence.source.http'', ''intelligence.source.rss'',
      ''intelligence.source.rss-bridge'', ''intelligence.source.rsshub'',
      ''intelligence.source.searxng'', ''intelligence.source.doubao-research'',
      ''intelligence.source.pool'', ''intelligence.source.opencli-slot'',
      ''intelligence.source.feishu-table'', ''intelligence.processing.normalize'',
      ''intelligence.processing.dedupe'', ''intelligence.data.generate'',
      ''intelligence.data.filter'', ''intelligence.data.evaluate'', ''intelligence.data.refine'',
      ''intelligence.flow.merge'', ''intelligence.agent.summary'', ''intelligence.agent.score'',
      ''intelligence.agent.tag'', ''intelligence.router.importance'',
      ''intelligence.control.record-acceptance'', ''intelligence.output.inbox'',
      ''intelligence.output.webhook'', ''intelligence.output.collection-result'',
      ''intelligence.sink.records'', ''intelligence.sink.feishu-bitable'',
      ''intelligence.output.turbopush-publish'', ''media.image-generation'',
      ''media.image-asset'', ''external.tool.capability'', ''package.collection.pipeline'',
      ''package.processing.record-hygiene'', ''package.opencli.multi-source-hda'',
      ''package.intelligence.situation-awareness'', ''package.simulation.swarm-forecast'',
      ''package.intelligence.native-lifecycle'', ''package.gaojixing.doubao-batch'',
      ''package.gaojixing.batch-certification'', ''package.dispatch.fanout'',
      ''package.intelligence.pipeline'', ''package.ops.event'', ''package.ops.monitor-guard'',
      ''package.ops.alert-response'', ''package.ai.prompt-experiment'',
      ''package.verify.regression-gate'', ''package.map.knowledge-map'',
      ''package.review.human-review'', ''package.compat.dify-workflow'']"

definition NATIVE_PRIMITIVE_IDS :: "string list" where
  "NATIVE_PRIMITIVE_IDS = map (\<lambda>t. ''primitive.core.'' @ t)
     [''template-transform'', ''variable-assign'', ''variable-aggregate'', ''list-filter'',
      ''list-sort'', ''if'', ''switch'', ''iteration'', ''loop'']"

definition WORKFLOW_PRIMITIVE_IDS :: "string list" where
  "WORKFLOW_PRIMITIVE_IDS =
     [''primitive.input.adapter-read'', ''primitive.input.manual-sample'',
      ''primitive.transform.parse-json'', ''primitive.transform.map-fields'',
      ''primitive.transform.filter-items'', ''primitive.transform.limit-window'',
      ''primitive.ai.prompt-template'', ''primitive.ai.prompt-version'',
      ''primitive.ai.prompt-test-case'', ''primitive.ai.model-call'',
      ''primitive.ai.model-compare'', ''primitive.ai.score-dimensions'',
      ''primitive.logic.condition'', ''primitive.logic.branch-label'',
      ''primitive.state.cache-window'', ''primitive.state.inbox-write'',
      ''primitive.output.payload-format'', ''primitive.output.mock-send'',
      ''primitive.verify.assert-schema'', ''primitive.verify.coverage-mark'',
      ''primitive.verify.trace-span'', ''primitive.verify.eval-dataset'',
      ''primitive.verify.evaluator'', ''primitive.verify.experiment-run'',
      ''primitive.verify.scorecard'', ''primitive.verify.regression-gate'',
      ''primitive.business.source-health'', ''primitive.business.freshness-gate'',
      ''primitive.business.entity-extract'', ''primitive.business.topic-classify'',
      ''primitive.business.sentiment-score'', ''primitive.business.impact-estimate'',
      ''primitive.business.evidence-pack'', ''primitive.business.digest-compose'',
      ''primitive.business.human-approval'', ''primitive.business.delivery-rate-limit'',
      ''primitive.ops.trigger-manual'', ''primitive.ops.trigger-schedule'',
      ''primitive.ops.trigger-interval'', ''primitive.ops.trigger-single-shot'',
      ''primitive.ops.trigger-webhook'', ''primitive.ops.trigger-startup'',
      ''primitive.ops.trigger-catch-up'', ''primitive.ops.trigger-range'',
      ''primitive.ops.trigger-blackout'', ''primitive.ops.trigger-delay'',
      ''primitive.ops.trigger-precision'', ''primitive.ops.limit-runtime'',
      ''primitive.ops.limit-concurrency'', ''primitive.ops.limit-output-size'',
      ''primitive.ops.limit-memory'', ''primitive.ops.limit-cpu'', ''primitive.ops.limit-retry'',
      ''primitive.ops.limit-queue'', ''primitive.ops.limit-file'', ''primitive.ops.limit-daily'',
      ''primitive.ops.action-email'', ''primitive.ops.action-webhook'',
      ''primitive.ops.action-run-event'', ''primitive.ops.action-channel'',
      ''primitive.ops.action-snapshot'', ''primitive.ops.action-ticket'',
      ''primitive.ops.action-plugin'', ''primitive.ops.action-suspend-job'',
      ''primitive.ops.action-disable-event'', ''primitive.ops.action-bucket-store'',
      ''primitive.ops.action-bucket-fetch'', ''primitive.ops.action-apply-tags'',
      ''primitive.ops.monitor-metric-expression'', ''primitive.ops.monitor-data-match'',
      ''primitive.ops.monitor-delta'', ''primitive.ops.monitor-quick'',
      ''primitive.ops.plugin-shell'', ''primitive.ops.plugin-http-request'',
      ''primitive.ops.plugin-docker'', ''primitive.ops.plugin-test-fixture'',
      ''primitive.ops.secret-ref'', ''primitive.core.manual-trigger'',
      ''primitive.core.schedule-trigger'', ''primitive.core.webhook-trigger'',
      ''primitive.core.error-trigger'', ''primitive.core.edit-fields'', ''primitive.core.code'',
      ''primitive.core.http-request'', ''primitive.core.respond-webhook'', ''primitive.core.if'',
      ''primitive.core.switch'', ''primitive.core.merge'', ''primitive.core.loop-over-items'',
      ''primitive.core.wait'', ''primitive.core.execute-workflow'',
      ''primitive.core.stop-and-error'', ''primitive.core.filter'',
      ''primitive.core.remove-duplicates'', ''primitive.core.sort'', ''primitive.core.limit'',
      ''primitive.core.aggregate'', ''primitive.core.split-out'', ''primitive.core.date-time'',
      ''primitive.core.no-op'', ''primitive.map.source-anchor'', ''primitive.map.jump-back'',
      ''primitive.map.mini-map'', ''primitive.map.topic-collapse'',
      ''primitive.map.semantic-link'', ''primitive.map.link-weight'',
      ''primitive.map.knowledge-export''] @
     NATIVE_PRIMITIVE_IDS"

text \<open>In sorted order, as the loop visits them.\<close>

definition FORBIDDEN_UI_KEYS :: "string list" where
  "FORBIDDEN_UI_KEYS =
     [''executor'', ''executorBinding'', ''generatedPrimitive'', ''implementation'',
      ''primitiveImplementation'', ''rawExecutor'']"

definition FORBIDDEN_PARAM_KEYS :: "string list" where
  "FORBIDDEN_PARAM_KEYS =
     [''commandLine'', ''concurrency'', ''concurrencyLimit'', ''cookie'', ''cookieHeader'',
      ''cookieMaterial'', ''cookies'', ''lockId'', ''maxConcurrency'', ''profileBinding'',
      ''profileBindingId'', ''profileId'', ''profileLockId'', ''rawExecutor'', ''rawIIIPayload'',
      ''rawOpencliCommand'', ''rawOpenCLICommand'', ''rawCommand'', ''resourceTags'',
      ''resolvedCommand'', ''sessionId'', ''sessionPolicy'', ''sessionSnapshotId'', ''workerId'',
      ''workerPool'', ''workerSlotId'', ''workerTags'']"

section \<open>Origins\<close>

text \<open>\<open>_read_string\<close> of this module: a non-empty string, unstripped.\<close>

definition read_nonempty :: "json option \<Rightarrow> string option" where
  "read_nonempty v = (case v of Some (JStr s) \<Rightarrow> if s = [] then None else Some s | _ \<Rightarrow> None)"

definition read_n8n :: "json option \<Rightarrow> json dict option" where
  "read_n8n v =
     (case v of
        Some (JObj d) \<Rightarrow> if dict_get d ''source'' = Some (JStr ''n8n'') then Some d else None
      | _ \<Rightarrow> None)"

record node_origin =
  og_kind :: string
  og_catalog_id :: "string option"
  og_primitive_id :: "string option"
  og_n8n :: "json dict option"
  og_missing_capability :: "string option"
  og_notes :: "string list"

definition is_registered_tool_capability_node ::
  "tool_registry \<Rightarrow> wf_node \<Rightarrow> string option \<Rightarrow> bool"
where
  "is_registered_tool_capability_node registry node cid =
     (case dict_get (wn_params node) ''toolCapability'' of
        Some (JObj tool) \<Rightarrow>
          (case read_nonempty (dict_get tool ''id'') of
             None \<Rightarrow> False
           | Some tool_id \<Rightarrow> cid = Some tool_id \<and> registry tool_id \<noteq> None)
      | _ \<Rightarrow> False)"

definition note_unless_None :: "string \<Rightarrow> string option \<Rightarrow> string list" where
  "note_unless_None label v = (case v of None \<Rightarrow> [] | Some s \<Rightarrow> [label @ s])"

definition resolve_node_origin :: "tool_registry \<Rightarrow> wf_node \<Rightarrow> node_origin" where
  "resolve_node_origin registry node =
     (let ui = wn_ui node;
          cid = read_nonempty (dict_get ui ''catalogId'');
          pid = read_nonempty (dict_get ui ''primitiveId'');
          n8n = read_n8n (dict_get ui ''n8n'');
          missing = read_nonempty (dict_get ui ''missingCapability'');
          origin = \<lparr>og_kind = ''legacy'', og_catalog_id = None, og_primitive_id = None, og_n8n = None,
            og_missing_capability = None, og_notes = []\<rparr>
      in if (case cid of None \<Rightarrow> False | Some c \<Rightarrow> List.member WORKFLOW_CATALOG_IDS c)
           then origin\<lparr>og_kind := ''node_library'', og_catalog_id := cid\<rparr>
         else if is_registered_tool_capability_node registry node cid
           then origin\<lparr>og_kind := ''node_library'', og_catalog_id := cid\<rparr>
         else if (case pid of None \<Rightarrow> False | Some p \<Rightarrow> List.member WORKFLOW_PRIMITIVE_IDS p)
           then origin\<lparr>og_kind := ''primitive_library'', og_primitive_id := pid\<rparr>
         else if n8n \<noteq> None
           then origin\<lparr>og_kind := ''n8n'', og_n8n := n8n, og_missing_capability := missing\<rparr>
         else origin\<lparr>og_missing_capability := missing,
           og_notes := note_unless_None ''unknown catalogId: '' cid @
             note_unless_None ''unknown primitiveId: '' pid @
             note_unless_None ''missing capability: '' missing\<rparr>)"

definition unknown_origin :: "tool_registry \<Rightarrow> wf_node \<Rightarrow> bool" where
  "unknown_origin registry node \<longleftrightarrow>
     og_kind (resolve_node_origin registry node) = ''legacy'' \<and>
     og_notes (resolve_node_origin registry node) \<noteq> []"

section \<open>Forbidden definitions\<close>

fun forbidden_param_paths :: "string list list \<Rightarrow> string list \<Rightarrow> json \<Rightarrow> string list"
  and forbidden_item_paths :: "string list list \<Rightarrow> string list \<Rightarrow> json dict \<Rightarrow> string list"
  and forbidden_list_paths :: "string list list \<Rightarrow> string list \<Rightarrow> nat \<Rightarrow> json list \<Rightarrow> string list"
where
  "forbidden_param_paths allowed path (JObj d) = forbidden_item_paths allowed path d"
| "forbidden_param_paths allowed path (JList vs) = forbidden_list_paths allowed path 0 vs"
| "forbidden_param_paths allowed path _ = []"
| "forbidden_item_paths allowed path [] = []"
| "forbidden_item_paths allowed path ((key, nested) # d) =
     (if List.member FORBIDDEN_PARAM_KEYS key \<and> \<not> List.member allowed (path @ [key])
      then [join_with ''.'' (path @ [key])] else []) @
     forbidden_param_paths allowed (path @ [key]) nested @ forbidden_item_paths allowed path d"
| "forbidden_list_paths allowed path i [] = []"
| "forbidden_list_paths allowed path i (nested # vs) =
     forbidden_param_paths allowed (path @ [show_nat i]) nested @
     forbidden_list_paths allowed path (Suc i) vs"

definition native_intelligence_ref_allowed_paths :: "wf_node \<Rightarrow> string list list" where
  "native_intelligence_ref_allowed_paths node =
     (case dict_get (wn_params node) ''toolCapability'' of
        Some (JObj tool) \<Rightarrow>
          (case (read_nonempty (dict_get tool ''id''), dict_get tool ''executor'') of
             (Some tool_id, Some (JObj executor)) \<Rightarrow>
               if prefix ''tool.intelligence.native.'' tool_id \<and>
                  dict_get executor ''mode'' = Some (JStr ''native_intelligence'')
               then [[''params'', ''toolParams'', ''intelligenceSessionRef'', ''sessionId'']]
               else []
           | _ \<Rightarrow> [])
      | _ \<Rightarrow> [])"

definition forbidden_node_definition_keys :: "wf_node \<Rightarrow> string list" where
  "forbidden_node_definition_keys node =
     map (\<lambda>key. ''ui.'' @ key)
       (filter (\<lambda>key. dict_get (wn_ui node) key \<noteq> None) FORBIDDEN_UI_KEYS) @
     forbidden_param_paths (native_intelligence_ref_allowed_paths node) [''params'']
       (JObj (wn_params node))"

section \<open>What the guard excludes\<close>

text \<open>\<open>carries v p\<close>: following the keys and indices of \<open>p\<close> into \<open>v\<close> ends at a key.\<close>

inductive carries :: "json \<Rightarrow> string list \<Rightarrow> bool" where
  carries_here: "(k, v) \<in> set d \<Longrightarrow> carries (JObj d) [k]"
| carries_key: "(k, v) \<in> set d \<Longrightarrow> carries v p \<Longrightarrow> carries (JObj d) (k # p)"
| carries_index: "i < length vs \<Longrightarrow> carries (vs ! i) p \<Longrightarrow> carries (JList vs) (show_nat i # p)"

inductive_simps carries_atoms [simp]:
  "carries JNull p" "carries (JBool b) p" "carries (JInt i) p" "carries (JFloat q) p" "carries (JStr s) p"

lemma carries_not_Nil: "carries v p \<Longrightarrow> p \<noteq> []"
  by (induction rule: carries.induct) auto

lemma carries_Obj:
  "carries (JObj d) p \<longleftrightarrow> (\<exists>k v q. (k, v) \<in> set d \<and> p = k # q \<and> (q = [] \<or> carries v q))"
  by (subst carries.simps) auto

lemma carries_List:
  "carries (JList vs) p \<longleftrightarrow> (\<exists>i q. i < length vs \<and> p = show_nat i # q \<and> carries (vs ! i) q)"
  by (subst carries.simps) auto

definition smuggles :: "string list list \<Rightarrow> string list \<Rightarrow> string list \<Rightarrow> bool" where
  "smuggles allowed path p \<longleftrightarrow>
     p \<noteq> [] \<and> last p \<in> set FORBIDDEN_PARAM_KEYS \<and> path @ p \<notin> set allowed"

lemma smuggles_Cons:
  "smuggles allowed path (k # q) \<longleftrightarrow>
     (if q = [] then k \<in> set FORBIDDEN_PARAM_KEYS \<and> path @ [k] \<notin> set allowed
      else smuggles allowed (path @ [k]) q)"
  by (simp add: smuggles_def)

lemma ex_carries_Obj:
  "(\<exists>p. carries (JObj d) p \<and> smuggles allowed path p) \<longleftrightarrow>
     (\<exists>(k, v) \<in> set d. (k \<in> set FORBIDDEN_PARAM_KEYS \<and> path @ [k] \<notin> set allowed) \<or>
        (\<exists>q. carries v q \<and> smuggles allowed (path @ [k]) q))"
  (is "?l \<longleftrightarrow> ?r")
proof
  assume ?l
  then obtain k v q where "(k, v) \<in> set d" "q = [] \<or> carries v q" "smuggles allowed path (k # q)"
    by (auto simp: carries_Obj)
  then show ?r by (cases "q = []") (auto simp: smuggles_Cons)
next
  assume ?r
  then obtain k v where kv: "(k, v) \<in> set d" "(k \<in> set FORBIDDEN_PARAM_KEYS \<and> path @ [k] \<notin> set allowed) \<or>
      (\<exists>q. carries v q \<and> smuggles allowed (path @ [k]) q)" by auto
  from kv(2) show ?l
  proof
    assume "k \<in> set FORBIDDEN_PARAM_KEYS \<and> path @ [k] \<notin> set allowed"
    with kv(1) show ?l by (intro exI[of _ "[k]"]) (auto simp: carries_Obj smuggles_Cons)
  next
    assume "\<exists>q. carries v q \<and> smuggles allowed (path @ [k]) q"
    then obtain q where "carries v q" "smuggles allowed (path @ [k]) q" by blast
    with kv(1) carries_not_Nil[of v q] show ?l
      by (intro exI[of _ "k # q"]) (auto simp: carries_Obj smuggles_Cons)
  qed
qed

lemma forbidden_paths_Nil:
  "forbidden_param_paths allowed path v = [] \<longleftrightarrow> \<not> (\<exists>p. carries v p \<and> smuggles allowed path p)"
  "forbidden_item_paths allowed path d = [] \<longleftrightarrow> \<not> (\<exists>p. carries (JObj d) p \<and> smuggles allowed path p)"
  "forbidden_list_paths allowed path i vs = [] \<longleftrightarrow>
     \<not> (\<exists>j p. j < length vs \<and> carries (vs ! j) p \<and> smuggles allowed (path @ [show_nat (i + j)]) p)"
proof (induction allowed path v and allowed path d and allowed path i vs
    rule: forbidden_param_paths_forbidden_item_paths_forbidden_list_paths.induct)
  case (2 allowed path vs)
  have "(\<exists>p. carries (JList vs) p \<and> smuggles allowed path p) \<longleftrightarrow>
      (\<exists>j p. j < length vs \<and> carries (vs ! j) p \<and> smuggles allowed (path @ [show_nat j]) p)"
    using carries_not_Nil by (fastforce simp: carries_List smuggles_Cons)
  with 2 show ?case by simp
next
  case (5 allowed path key nested d)
  then show ?case unfolding ex_carries_Obj by auto
next
  case (7 allowed path i nested vs)
  have "(\<exists>j p. j < length (nested # vs) \<and> carries ((nested # vs) ! j) p \<and>
        smuggles allowed (path @ [show_nat (i + j)]) p) \<longleftrightarrow>
      (\<exists>p. carries nested p \<and> smuggles allowed (path @ [show_nat i]) p) \<or>
      (\<exists>j p. j < length vs \<and> carries (vs ! j) p \<and> smuggles allowed (path @ [show_nat (Suc i + j)]) p)"
    (is "?l \<longleftrightarrow> ?r")
  proof
    assume ?l
    then obtain j p where j: "j < length (nested # vs)" "carries ((nested # vs) ! j) p"
      "smuggles allowed (path @ [show_nat (i + j)]) p" by blast
    then show ?r by (cases j) auto
  next
    assume ?r
    then show ?l
    proof
      assume "\<exists>p. carries nested p \<and> smuggles allowed (path @ [show_nat i]) p"
      then show ?l by (intro exI[of _ 0]) simp
    next
      assume "\<exists>j p. j < length vs \<and> carries (vs ! j) p \<and> smuggles allowed (path @ [show_nat (Suc i + j)]) p"
      then obtain j p where "j < length vs \<and> carries (vs ! j) p \<and> smuggles allowed (path @ [show_nat (Suc i + j)]) p"
        by blast
      then show ?l by (intro exI[of _ "Suc j"] exI[of _ p]) simp
    qed
  qed
  with 7 show ?case by simp
qed (simp_all add: ex_carries_Obj)

lemma forbidden_node_definition_keys_Nil:
  "forbidden_node_definition_keys node = [] \<longleftrightarrow>
     (\<forall>key \<in> set FORBIDDEN_UI_KEYS. dict_get (wn_ui node) key = None) \<and>
     \<not> (\<exists>p. carries (JObj (wn_params node)) p \<and>
          smuggles (native_intelligence_ref_allowed_paths node) [''params''] p)"
  by (auto simp: forbidden_node_definition_keys_def filter_empty_conv forbidden_paths_Nil(1)
      simp del: forbidden_param_paths.simps)

text \<open>
  C38: the guard on authored nodes is exact: a node is reported clean precisely if its interface data has
  no implementation key and no forbidden key occurs anywhere in its parameters, at any depth of
  objects and lists, except the session reference a native intelligence tool may carry.
\<close>

theorem forbidden_keys_exact:
  "forbidden_node_definition_keys node = [] \<longleftrightarrow>
     (\<forall>key. List.member FORBIDDEN_UI_KEYS key \<longrightarrow> dict_get (wn_ui node) key = None) \<and>
     (\<forall>path key. carries (JObj (wn_params node)) (path @ [key]) \<and> List.member FORBIDDEN_PARAM_KEYS key \<longrightarrow>
        List.member (native_intelligence_ref_allowed_paths node) (''params'' # path @ [key]))"
proof -
  have "(\<exists>p. carries (JObj (wn_params node)) p \<and> smuggles allowed [''params''] p) \<longleftrightarrow>
      (\<exists>path key. carries (JObj (wn_params node)) (path @ [key]) \<and> key \<in> set FORBIDDEN_PARAM_KEYS \<and>
         ''params'' # path @ [key] \<notin> set allowed)" (is "?l \<longleftrightarrow> ?r") for allowed
  proof
    assume ?l
    then obtain p where p: "carries (JObj (wn_params node)) p" "smuggles allowed [''params''] p" by blast
    then have "p = butlast p @ [last p]" by (simp add: smuggles_def)
    with p show ?r by (intro exI[of _ "butlast p"] exI[of _ "last p"]) (simp add: smuggles_def)
  next
    assume ?r
    then obtain path key where "carries (JObj (wn_params node)) (path @ [key])"
      "key \<in> set FORBIDDEN_PARAM_KEYS" "''params'' # path @ [key] \<notin> set allowed" by blast
    then show ?l by (intro exI[of _ "path @ [key]"]) (simp add: smuggles_def)
  qed
  then show ?thesis unfolding forbidden_node_definition_keys_Nil by auto
qed

definition smuggling_node :: wf_node where
  "smuggling_node = WfNode \<lparr>nd_id = ''n'', nd_kind = ''action'', nd_capability = ''store'',
     nd_adapter = None, nd_params = [(''steps'', JList [JObj [(''rawCommand'', JStr ''rm'')]])],
     nd_sourceAnchor = None, nd_runArtifact = None, nd_miniNetwork = None, nd_topicCollapse = None,
     nd_proposalState = None, nd_parameterInterface = None, nd_ui = None\<rparr> None"

theorem forbidden_keys_exact_witness:
  "forbidden_node_definition_keys smuggling_node = [''params.steps.0.rawCommand''] \<and>
   \<not> (\<forall>path key. carries (JObj (wn_params smuggling_node)) (path @ [key]) \<and>
        List.member FORBIDDEN_PARAM_KEYS key \<longrightarrow>
        List.member (native_intelligence_ref_allowed_paths smuggling_node) (''params'' # path @ [key]))"
proof -
  have keys: "forbidden_node_definition_keys smuggling_node = [''params.steps.0.rawCommand'']" by code_simp
  have "dict_get (wn_ui smuggling_node) key = None" for key
    by (simp add: smuggling_node_def wn_ui_def dict_get_def)
  with keys show ?thesis using forbidden_keys_exact[of smuggling_node] by simp
qed

end
