(* ===== verification/TriggerScope.thy ===== *)
theory TriggerScope
  imports NodeRegistry GraphSearch
begin

text \<open>
  Which part of a workflow a trigger starts (\<open>backend/workflow/trigger_scope.py\<close>). The
  runtime registry that binds nodes (\<open>resolve_runtime_metadata\<close>) and the registry of tool
  capabilities are parameters.
\<close>

section \<open>Trigger nodes\<close>

type_synonym runtime_resolver = "wf_node \<Rightarrow> wf_adapter option \<Rightarrow> json"

definition SCHEDULE_TRIGGER_BINDING_ID :: string where
  "SCHEDULE_TRIGGER_BINDING_ID = ''workflow.trigger.schedule_tick''"

definition WEBHOOK_TRIGGER_BINDING_ID :: string where
  "WEBHOOK_TRIGGER_BINDING_ID = ''workflow.trigger.webhook_input''"

definition NORMALIZED_TRIGGER_KIND :: "string list" where
  "NORMALIZED_TRIGGER_KIND = [''manual'', ''schedule'', ''webhook'']"

definition normalize_requested_kind :: "string option \<Rightarrow> string" where
  "normalize_requested_kind trigger_kind =
     (case trigger_kind of
        None \<Rightarrow> ''manual''
      | Some k \<Rightarrow> if k = ''ai'' then ''manual''
          else if List.member NORMALIZED_TRIGGER_KIND k then k else ''manual'')"

definition json_get :: "json option \<Rightarrow> string \<Rightarrow> json option" where
  "json_get v key = (case v of Some (JObj d) \<Rightarrow> dict_get d key | _ \<Rightarrow> None)"

definition resolve_trigger_kind ::
  "tool_registry \<Rightarrow> runtime_resolver \<Rightarrow> wf_node \<Rightarrow> wf_adapter option \<Rightarrow> string option"
where
  "resolve_trigger_kind registry metadata node adapter =
     (if unknown_origin registry node then None
      else
        let binding_id = json_get (json_get (Some (metadata node adapter)) ''binding'') ''binding_id''
        in if binding_id = Some (JStr WEBHOOK_TRIGGER_BINDING_ID) then Some ''webhook''
           else if binding_id = Some (JStr SCHEDULE_TRIGGER_BINDING_ID) then
             let node_type = json_get (dict_get (wn_params node) ''builder'') ''nodeType'';
                 mode = dict_get (wn_params node) ''mode''
             in if node_type = Some (JStr ''manual-trigger'') \<or> mode = Some (JStr ''manual'')
                then Some ''manual'' else Some ''schedule''
           else None)"

definition adapter_of :: "wf_adapter list \<Rightarrow> wf_node \<Rightarrow> wf_adapter option" where
  "adapter_of adapters node =
     (case nd_adapter (wn_data node) of
        None \<Rightarrow> None | Some a \<Rightarrow> if a = [] then None else index_by ad_id adapters a)"

definition trigger_candidates ::
  "tool_registry \<Rightarrow> runtime_resolver \<Rightarrow> wf_node list \<Rightarrow> wf_adapter list \<Rightarrow> (wf_node \<times> string) list"
where
  "trigger_candidates registry metadata nodes adapters =
     List.map_filter (\<lambda>node.
         map_option (Pair node) (resolve_trigger_kind registry metadata node (adapter_of adapters node)))
       nodes"

section \<open>The scope of a trigger\<close>

definition wf_targets :: "wf_edge list \<Rightarrow> string \<Rightarrow> string list" where
  "wf_targets edges x = map we_target (filter (\<lambda>e. we_source e = x) edges)"

lemma wf_targets_iff: "y \<in> set (wf_targets edges x) \<longleftrightarrow> (\<exists>e \<in> set edges. we_source e = x \<and> we_target e = y)"
  by (auto simp: wf_targets_def)

lemma finite_wf_sources: "finite {x. wf_targets edges x \<noteq> []}"
proof (rule finite_subset)
  show "{x. wf_targets edges x \<noteq> []} \<subseteq> we_source ` set edges"
    by (auto simp: wf_targets_def filter_empty_conv)
qed simp

function active_loop :: "wf_edge list \<Rightarrow> string list \<Rightarrow> string set \<Rightarrow> string set" where
  "active_loop edges [] active = active"
| "active_loop edges (x # pending) active =
     (if x \<in> active then active_loop edges pending active
      else active_loop edges
        (rev (filter (\<lambda>y. y \<notin> insert x active) (wf_targets edges x)) @ pending) (insert x active))"
  by pat_completeness auto

termination active_loop
proof (relation "measures [\<lambda>(edges, ps, active). card ({z. wf_targets edges z \<noteq> []} - active),
    \<lambda>(edges, ps, active). length ps]", goal_cases)
  case (3 edges x pending active)
  then show ?case
  proof (cases "wf_targets edges x = []")
    case True
    then have "{z. wf_targets edges z \<noteq> []} - insert x active = {z. wf_targets edges z \<noteq> []} - active"
      by auto
    with True show ?thesis by simp
  next
    case False
    with 3 have "card ({z. wf_targets edges z \<noteq> []} - insert x active) <
        card ({z. wf_targets edges z \<noteq> []} - active)"
      using finite_wf_sources[of edges] by (intro psubset_card_mono) auto
    then show ?thesis by simp
  qed
qed auto

text \<open>\<open>list.pop\<close> takes the last pending node: the pending list is reversed here.\<close>

definition downstream_active_ids :: "string list \<Rightarrow> wf_edge list \<Rightarrow> string set" where
  "downstream_active_ids trigger_ids edges = active_loop edges (rev trigger_ids) {}"

interpretation active_walk: worklist "wf_targets edges" "\<lambda>_. True"
    "\<lambda>x active. rev (filter (\<lambda>y. y \<notin> insert x active) (wf_targets edges x))" "active_loop edges" for edges
  by unfold_locales (auto simp: finite_wf_sources)

definition external_workflow_ids :: "wf_node list \<Rightarrow> string set" where
  "external_workflow_ids nodes =
     set (map wn_id (filter (\<lambda>n. case dict_get (wn_params n) ''externalWorkflow'' of
         Some v \<Rightarrow> is_dict v | None \<Rightarrow> False) nodes))"

definition parked_ids :: "wf_node list \<Rightarrow> string set \<Rightarrow> string set \<Rightarrow> string list" where
  "parked_ids nodes active_ids external_ids =
     map wn_id (filter (\<lambda>n. wn_id n \<notin> active_ids \<and> wn_id n \<notin> external_ids) nodes)"

definition scoped_edges :: "wf_edge list \<Rightarrow> string set \<Rightarrow> wf_edge list" where
  "scoped_edges edges active_ids =
     filter (\<lambda>e. we_source e \<in> active_ids \<and> we_target e \<in> active_ids) edges"

definition scoped_project :: "wf_project \<Rightarrow> string set \<Rightarrow> string set \<Rightarrow> wf_project" where
  "scoped_project project active_ids external_ids =
     (let nodes = filter (\<lambda>n. wn_id n \<in> active_ids \<union> external_ids) (pj_nodes project)
      in project\<lparr>pj_nodes := nodes, pj_edges := scoped_edges (pj_edges project) (set (map wn_id nodes))\<rparr>)"

section \<open>Selection\<close>

record trigger_scope_result =
  ts_project :: wf_project
  ts_active_node_ids :: "string set"
  ts_parked_node_ids :: "string list"
  ts_trigger_node_id :: "string option"
  ts_trigger_kind :: string
  ts_selection_error :: "compile_error option"
  ts_selected_kind :: "string option"

record active_union_result =
  au_active_node_ids :: "string set"
  au_parked_node_ids :: "string list"
  au_trigger_node_ids :: "string list"
  au_has_supported_trigger :: bool

definition has_supported_triggers :: "tool_registry \<Rightarrow> runtime_resolver \<Rightarrow> wf_project \<Rightarrow> bool" where
  "has_supported_triggers registry metadata project \<longleftrightarrow>
     trigger_candidates registry metadata (pj_nodes project) (pj_adapters project) \<noteq> []"

definition trigger_error :: "string \<Rightarrow> string option \<Rightarrow> string \<Rightarrow> compile_error" where
  "trigger_error code nid field =
     \<lparr>er_code = code, er_node_id = nid, er_edge_id = None, er_path = [''trigger'', field]\<rparr>"

definition choose_trigger ::
  "(wf_node \<times> string) list \<Rightarrow> string \<Rightarrow> string option \<Rightarrow> compile_error + wf_node"
where
  "choose_trigger candidates requested_kind trigger_node_id =
     (case trigger_node_id of
        Some tid \<Rightarrow>
          (case find (\<lambda>(node, kind). wn_id node = tid) candidates of
             None \<Rightarrow> Inl (trigger_error ''workflow_trigger_not_found'' (Some tid) ''triggerNodeId'')
           | Some (node, kind) \<Rightarrow>
               if kind \<noteq> requested_kind
               then Inl (trigger_error ''workflow_trigger_kind_mismatch'' (Some tid) ''kind'')
               else Inr node)
      | None \<Rightarrow>
          (case map fst (filter (\<lambda>(node, kind). kind = requested_kind) candidates) of
             [node] \<Rightarrow> Inr node
           | [] \<Rightarrow>
               if candidates = [] then Inl (trigger_error ''workflow_trigger_not_found'' None ''kind'')
               else Inl (trigger_error ''workflow_trigger_kind_mismatch'' None ''kind'')
           | _ \<Rightarrow> Inl (trigger_error ''workflow_trigger_ambiguous'' None ''triggerNodeId'')))"

definition select_trigger_scope ::
  "tool_registry \<Rightarrow> runtime_resolver \<Rightarrow> wf_project \<Rightarrow> string option \<Rightarrow> string option \<Rightarrow>
   trigger_scope_result"
where
  "select_trigger_scope registry metadata project trigger_kind trigger_node_id =
     (let candidates = trigger_candidates registry metadata (pj_nodes project) (pj_adapters project);
          requested_kind = normalize_requested_kind trigger_kind
      in case choose_trigger candidates requested_kind trigger_node_id of
           Inl e \<Rightarrow>
             \<lparr>ts_project = project, ts_active_node_ids = {},
              ts_parked_node_ids = map wn_id (pj_nodes project),
              ts_trigger_node_id = trigger_node_id, ts_trigger_kind = requested_kind,
              ts_selection_error = Some e, ts_selected_kind = None\<rparr>
         | Inr selected \<Rightarrow>
             (let active_ids = downstream_active_ids [wn_id selected] (pj_edges project);
                  external_ids = external_workflow_ids (pj_nodes project)
              in \<lparr>ts_project = scoped_project project active_ids external_ids,
                  ts_active_node_ids = active_ids,
                  ts_parked_node_ids = parked_ids (pj_nodes project) active_ids external_ids,
                  ts_trigger_node_id = Some (wn_id selected), ts_trigger_kind = requested_kind,
                  ts_selection_error = None, ts_selected_kind = Some requested_kind\<rparr>))"

definition select_active_union ::
  "tool_registry \<Rightarrow> runtime_resolver \<Rightarrow> wf_project \<Rightarrow> active_union_result"
where
  "select_active_union registry metadata project =
     (let candidates = trigger_candidates registry metadata (pj_nodes project) (pj_adapters project);
          trigger_ids = map (wn_id \<circ> fst) candidates;
          active_ids = downstream_active_ids trigger_ids (pj_edges project);
          external_ids = external_workflow_ids (pj_nodes project)
      in \<lparr>au_active_node_ids = active_ids,
          au_parked_node_ids = parked_ids (pj_nodes project) active_ids external_ids,
          au_trigger_node_ids = trigger_ids, au_has_supported_trigger = (trigger_ids \<noteq> [])\<rparr>)"

section \<open>Scopes are reachable parts\<close>

definition wf_flow :: "wf_edge list \<Rightarrow> (string \<times> string) set" where
  "wf_flow edges = {(we_source e, we_target e) |e. e \<in> set edges}"

lemma downstream_active_ids_eq:
  "downstream_active_ids ids edges = {y. \<exists>x \<in> set ids. (x, y) \<in> (wf_flow edges)\<^sup>*}"
proof -
  have "{(a, b). b \<in> set (wf_targets edges a)} = wf_flow edges"
    by (auto simp: wf_flow_def wf_targets_iff)
  then show ?thesis
    using active_walk.loop_reach[of edges "rev ids"] by (simp add: downstream_active_ids_def reach_all)
qed

lemma candidates_iff:
  "(node, kind) \<in> set (trigger_candidates registry metadata nodes adapters) \<longleftrightarrow>
     node \<in> set nodes \<and> resolve_trigger_kind registry metadata node (adapter_of adapters node) = Some kind"
  by (auto simp: trigger_candidates_def List.map_filter_def image_iff)

lemma choose_trigger_Inr:
  assumes "choose_trigger candidates kind tid = Inr node"
  shows "(node, kind) \<in> set candidates \<and>
    (case tid of Some t \<Rightarrow> wn_id node = t
     | None \<Rightarrow> filter (\<lambda>c. snd c = kind) candidates = [(node, kind)])"
proof (cases tid)
  case (Some t)
  with assms show ?thesis
    by (auto simp: choose_trigger_def split: option.splits if_splits)
      (auto simp: find_Some_iff dest: nth_mem)
next
  case None
  have "filter (\<lambda>(node, k). k = kind) candidates = filter (\<lambda>c. snd c = kind) candidates"
    by (simp add: case_prod_unfold)
  with None assms show ?thesis
    by (auto simp: choose_trigger_def split: list.splits if_splits)
      (metis (mono_tags, lifting) filter_eq_ConsD in_set_conv_decomp list.set_intros(1) mem_Collect_eq set_filter snd_conv)+
qed

lemma candidates_of_kind:
  "filter (\<lambda>c. snd c = kind) (trigger_candidates registry metadata nodes adapters) =
     map (\<lambda>n. (n, kind)) (filter (\<lambda>n. resolve_trigger_kind registry metadata n (adapter_of adapters n) = Some kind) nodes)"
  by (induction nodes) (auto simp: trigger_candidates_def List.map_filter_def)

lemma choose_without_id:
  "(\<exists>node. choose_trigger candidates kind None = Inr node) \<longleftrightarrow>
     length (filter (\<lambda>c. snd c = kind) candidates) = 1"
  by (auto simp: choose_trigger_def case_prod_unfold length_Suc_conv split: list.splits)

lemma scoped_project_nodes:
  "n \<in> set (pj_nodes (scoped_project project A E)) \<longleftrightarrow>
     n \<in> set (pj_nodes project) \<and> (wn_id n \<in> A \<or> wn_id n \<in> E)"
  "e \<in> set (pj_edges (scoped_project project A E)) \<longleftrightarrow> e \<in> set (pj_edges project) \<and>
     we_source e \<in> wn_id ` set (pj_nodes (scoped_project project A E)) \<and>
     we_target e \<in> wn_id ` set (pj_nodes (scoped_project project A E))"
  by (auto simp: scoped_project_def scoped_edges_def Let_def)

lemma select_Inr:
  assumes "choose_trigger (trigger_candidates registry metadata (pj_nodes project) (pj_adapters project))
    (normalize_requested_kind kind) tid = Inr node"
  shows "select_trigger_scope registry metadata project kind tid =
    (let A = {y. (wn_id node, y) \<in> (wf_flow (pj_edges project))\<^sup>*}; E = external_workflow_ids (pj_nodes project)
     in \<lparr>ts_project = scoped_project project A E, ts_active_node_ids = A,
         ts_parked_node_ids = parked_ids (pj_nodes project) A E, ts_trigger_node_id = Some (wn_id node),
         ts_trigger_kind = normalize_requested_kind kind, ts_selection_error = None,
         ts_selected_kind = Some (normalize_requested_kind kind)\<rparr>)"
  using assms by (simp add: select_trigger_scope_def downstream_active_ids_eq Let_def)

lemma parked_ids_iff:
  "i \<in> set (parked_ids nodes A E) \<longleftrightarrow> i \<in> wn_id ` set nodes \<and> i \<notin> A \<and> i \<notin> E"
  by (auto simp: parked_ids_def)

text \<open>
  C37: trigger selection is exact. Without a node id it succeeds precisely if one node of the workflow is
  a trigger of the requested kind; a failed selection activates nothing and parks every node. A
  successful one picks a trigger of the requested kind (and of the requested id), activates
  exactly what the edges reach from it, and splits the nodes into the scoped project and the
  parked ones; the edges kept are those between kept nodes.
\<close>

theorem trigger_selection_exact:
  "(let r = select_trigger_scope registry metadata project kind tid;
        trigger = (\<lambda>n. resolve_trigger_kind registry metadata n (adapter_of (pj_adapters project) n));
        req = normalize_requested_kind kind;
        kept = pj_nodes (ts_project r)
    in (tid = None \<longrightarrow> (ts_selection_error r = None \<longleftrightarrow>
          length (filter (\<lambda>n. trigger n = Some req) (pj_nodes project)) = 1)) \<and>
       (ts_selection_error r \<noteq> None \<longrightarrow> ts_project r = project \<and> ts_active_node_ids r = {} \<and>
          ts_parked_node_ids r = map wn_id (pj_nodes project)) \<and>
       (ts_selection_error r = None \<longrightarrow>
          (\<exists>node \<in> set (pj_nodes project). trigger node = Some req \<and>
             ts_trigger_node_id r = Some (wn_id node) \<and> tid \<in> {None, Some (wn_id node)} \<and>
             ts_active_node_ids r = {y. (wn_id node, y) \<in> (wf_flow (pj_edges project))\<^sup>*} \<and> node \<in> set kept) \<and>
          (\<forall>n \<in> set (pj_nodes project). n \<in> set kept \<longleftrightarrow> wn_id n \<notin> set (ts_parked_node_ids r)) \<and>
          (\<forall>e \<in> set (pj_edges project). e \<in> set (pj_edges (ts_project r)) \<longleftrightarrow>
             we_source e \<in> wn_id ` set kept \<and> we_target e \<in> wn_id ` set kept)))"
proof (cases "choose_trigger (trigger_candidates registry metadata (pj_nodes project) (pj_adapters project))
    (normalize_requested_kind kind) tid")
  case (Inl e)
  then show ?thesis
    using choose_without_id[of "trigger_candidates registry metadata (pj_nodes project) (pj_adapters project)"
        "normalize_requested_kind kind"]
    by (auto simp: select_trigger_scope_def candidates_of_kind)
next
  case (Inr node)
  have unique: "tid = None \<Longrightarrow> length (filter (\<lambda>n. resolve_trigger_kind registry metadata n
      (adapter_of (pj_adapters project) n) = Some (normalize_requested_kind kind)) (pj_nodes project)) = 1"
    using choose_without_id[of "trigger_candidates registry metadata (pj_nodes project) (pj_adapters project)"
        "normalize_requested_kind kind"] Inr by (auto simp: candidates_of_kind)
  have node: "node \<in> set (pj_nodes project)" "tid \<in> {None, Some (wn_id node)}"
    "resolve_trigger_kind registry metadata node (adapter_of (pj_adapters project) node) =
       Some (normalize_requested_kind kind)"
    using choose_trigger_Inr[OF Inr] by (auto simp: candidates_iff split: option.splits)
  then show ?thesis
    unfolding select_Inr[OF Inr] Let_def
    by (intro conjI impI bexI[of _ node] ballI) (use unique in
        \<open>auto simp: scoped_project_nodes(1) parked_ids_iff scoped_project_nodes(2)\<close>)
qed

lemma trigger_kinds: "resolve_trigger_kind registry metadata node adapter = Some kind \<Longrightarrow> kind \<in> set NORMALIZED_TRIGGER_KIND"
  by (auto simp: resolve_trigger_kind_def NORMALIZED_TRIGGER_KIND_def Let_def split: if_splits)

lemma normalize_trigger_kind: "kind \<in> set NORMALIZED_TRIGGER_KIND \<Longrightarrow> normalize_requested_kind (Some kind) = kind"
  by (auto simp: normalize_requested_kind_def NORMALIZED_TRIGGER_KIND_def)

text \<open>
  What publication validates is what runs can reach: the active union of a workflow is the union of
  the scopes that selecting each trigger, by its id and kind, yields.
\<close>

lemma active_union_of_scopes:
  "au_active_node_ids (select_active_union registry metadata project) =
     (\<Union>kind \<in> set NORMALIZED_TRIGGER_KIND. \<Union>n \<in> set (pj_nodes project).
        ts_active_node_ids (select_trigger_scope registry metadata project (Some kind) (Some (wn_id n))))"
  (is "?union = ?scopes")
proof (intro equalityI subsetI)
  let ?cs = "trigger_candidates registry metadata (pj_nodes project) (pj_adapters project)"
  fix y assume "y \<in> ?union"
  then obtain n k where n: "(n, k) \<in> set ?cs" "(wn_id n, y) \<in> (wf_flow (pj_edges project))\<^sup>*"
    by (auto simp: select_active_union_def Let_def downstream_active_ids_eq)
  then obtain m k' where m: "find (\<lambda>(node, kind). wn_id node = wn_id n) ?cs = Some (m, k')"
    by (metis (mono_tags, lifting) case_prod_conv find_None_iff option.exhaust surj_pair)
  then have "(m, k') \<in> set ?cs" "wn_id m = wn_id n"
    by (auto simp: find_Some_iff dest: nth_mem)
  then have k': "m \<in> set (pj_nodes project)" "k' \<in> set NORMALIZED_TRIGGER_KIND" "wn_id m = wn_id n"
    by (auto simp: candidates_iff dest: trigger_kinds)
  have "choose_trigger ?cs (normalize_requested_kind (Some k')) (Some (wn_id m)) = Inr m"
    using m k' by (simp add: choose_trigger_def normalize_trigger_kind)
  from select_Inr[OF this] n(2) k' show "y \<in> ?scopes" by (force simp: Let_def)
next
  let ?cs = "trigger_candidates registry metadata (pj_nodes project) (pj_adapters project)"
  fix y assume "y \<in> ?scopes"
  then obtain k n where kn: "y \<in> ts_active_node_ids (select_trigger_scope registry metadata project (Some k) (Some (wn_id n)))"
    by auto
  then obtain node where node: "choose_trigger ?cs (normalize_requested_kind (Some k)) (Some (wn_id n)) = Inr node"
    by (auto simp: select_trigger_scope_def Let_def split: sum.splits)
  have "(node, normalize_requested_kind (Some k)) \<in> set ?cs" using choose_trigger_Inr[OF node] by blast
  moreover have "(wn_id node, y) \<in> (wf_flow (pj_edges project))\<^sup>*"
    using kn unfolding select_Inr[OF node] by (simp add: Let_def)
  ultimately show "y \<in> ?union"
    by (simp add: select_active_union_def Let_def downstream_active_ids_eq) (metis comp_apply fst_conv)
qed

section \<open>A concrete workflow\<close>

definition plain_node :: "string \<Rightarrow> string \<Rightarrow> string \<Rightarrow> wf_node" where
  "plain_node i kind capability = WfNode \<lparr>nd_id = i, nd_kind = kind, nd_capability = capability,
     nd_adapter = None, nd_params = [], nd_sourceAnchor = None, nd_runArtifact = None,
     nd_miniNetwork = None, nd_topicCollapse = None, nd_proposalState = None,
     nd_parameterInterface = None, nd_ui = None\<rparr> None"

definition plain_edge :: "string \<Rightarrow> string \<Rightarrow> wf_edge" where
  "plain_edge a b = \<lparr>we_id = a @ b, we_source = a, we_target = b, we_sourcePort = None,
     we_targetPort = None, we_label = None, we_condition = None, we_semantic = None,
     we_weight = None, we_contractId = None, we_proposalState = None, we_ui = None\<rparr>"

definition plain_project :: "wf_node list \<Rightarrow> wf_edge list \<Rightarrow> wf_project" where
  "plain_project nodes edges = \<lparr>pj_id = ''w'', pj_name = ''w'', pj_profile = ''intelligence'',
     pj_version = 1, pj_nodes = nodes, pj_edges = edges, pj_settings = JNull, pj_adapters = [],
     pj_agentPermissions = JNull\<rparr>"

text \<open>The binding the registry gives schedule nodes, and no other.\<close>

definition schedule_metadata :: runtime_resolver where
  "schedule_metadata n a =
     (if nd_kind (wn_data n) = ''schedule''
      then JObj [(''binding'', JObj [(''binding_id'', JStr SCHEDULE_TRIGGER_BINDING_ID)])] else JObj [])"

definition scheduled_project :: wf_project where
  "scheduled_project = plain_project [plain_node ''t'' ''schedule'' ''trigger'',
     plain_node ''s'' ''source'' ''fetch'', plain_node ''x'' ''agent'' ''tag''] [plain_edge ''t'' ''s'']"

theorem trigger_selection_exact_witness:
  "ts_selection_error (select_trigger_scope (\<lambda>_. None) schedule_metadata scheduled_project (Some ''schedule'') None) = None \<and>
   ts_parked_node_ids (select_trigger_scope (\<lambda>_. None) schedule_metadata scheduled_project (Some ''schedule'') None) = [''x'']"
proof
  let ?r = "select_trigger_scope (\<lambda>_. None) schedule_metadata scheduled_project (Some ''schedule'') None"
  have "length (filter (\<lambda>n. resolve_trigger_kind (\<lambda>_. None) schedule_metadata n
      (adapter_of (pj_adapters scheduled_project) n) = Some (normalize_requested_kind (Some ''schedule'')))
      (pj_nodes scheduled_project)) = 1"
    by code_simp
  then show ok: "ts_selection_error ?r = None"
    using trigger_selection_exact[of "\<lambda>_. None" schedule_metadata scheduled_project "Some ''schedule''" None]
    unfolding Let_def by blast
  show "ts_parked_node_ids ?r = [''x'']" by code_simp
qed

end
