(* ===== verification/WorkflowOrder.thy ===== *)
theory WorkflowOrder
  imports TriggerScope Kahn
begin

text \<open>
  The two orderings of the workflow compiler (\<open>backend/workflow/compiler.py\<close>): the cycle
  check on authored nodes and the run order of compiled ones. Both are Kahn's algorithm with a
  queue; the run order sorts what becomes ready by its original position, the cycle check keeps
  the order of discovery, which is sorting by a constant key.
\<close>

section \<open>The walk\<close>

function kahn_walk ::
  "(string \<Rightarrow> nat) \<Rightarrow> (string \<Rightarrow> string list) \<Rightarrow> string list \<Rightarrow> (string \<Rightarrow> int) \<Rightarrow> string list \<Rightarrow>
   string list \<Rightarrow> string list"
where
  "kahn_walk rank down nodes deg [] ordered = ordered"
| "kahn_walk rank down nodes deg (nid # queue) ordered =
     (let st = fold (relax nodes) (down nid) (deg, [])
      in kahn_walk rank down nodes (fst st) (queue @ sort_key rank (snd st)) (ordered @ [nid]))"
  by pat_completeness auto

termination kahn_walk
proof (relation "measure (\<lambda>(rank, down, nodes, deg, queue, ordered). kahn_measure nodes (deg, queue))", goal_cases)
  case (2 rank down nodes deg nid queue ordered st)
  have "kahn_measure nodes st \<le> kahn_measure nodes (deg, [])" unfolding 2 by (rule kahn_measure_fold)
  then show ?case by (simp add: kahn_measure_def)
qed auto

text \<open>The keys of \<open>{x: ... for x in xs}\<close>, in insertion order.\<close>

definition dict_keys :: "string list \<Rightarrow> string list" where
  "dict_keys xs = rev (remdups (rev xs))"

lemma dict_keys_simps [simp]: "set (dict_keys xs) = set xs" "distinct (dict_keys xs)"
  by (simp_all add: dict_keys_def)

lemma dict_keys_distinct: "distinct xs \<Longrightarrow> dict_keys xs = xs"
  by (simp add: dict_keys_def distinct_remdups_id)

section \<open>The cycle check\<close>

definition inner_edges :: "string list \<Rightarrow> wf_edge list \<Rightarrow> wf_edge list" where
  "inner_edges ids edges = filter (\<lambda>e. we_source e \<in> set ids \<and> we_target e \<in> set ids) edges"

definition wf_sources :: "wf_edge list \<Rightarrow> string \<Rightarrow> string list" where
  "wf_sources edges y = map we_source (filter (\<lambda>e. we_target e = y) edges)"

definition wf_indegree :: "wf_edge list \<Rightarrow> string \<Rightarrow> int" where
  "wf_indegree edges y = int (length (filter (\<lambda>e. we_target e = y) edges))"

definition cyclic_ids :: "wf_node list \<Rightarrow> wf_edge list \<Rightarrow> string list" where
  "cyclic_ids nodes edges =
     (let ids = dict_keys (map wn_id nodes);
          inner = inner_edges ids edges;
          visited = kahn_walk (\<lambda>_. 0) (wf_targets inner) ids (wf_indegree inner)
            (filter (\<lambda>i. wf_indegree inner i = 0) ids) []
      in sort (filter (\<lambda>i. i \<notin> set visited) ids))"

definition cycle_errors :: "wf_project \<Rightarrow> compile_error list" where
  "cycle_errors project =
     map (\<lambda>i. wf_node_error ''cycle'' i [''nodes'', i]) (cyclic_ids (pj_nodes project) (pj_edges project))"

definition cycle_errors_for_nodes ::
  "string \<Rightarrow> wf_node list \<Rightarrow> wf_edge list \<Rightarrow> string list \<Rightarrow> compile_error list"
where
  "cycle_errors_for_nodes package_node_id nodes edges path_prefix =
     map (\<lambda>i. wf_node_error ''cycle'' package_node_id (path_prefix @ [''internals'', ''nodes'', i]))
       (cyclic_ids nodes edges)"

section \<open>The run order\<close>

definition known_deps :: "compiled_node list \<Rightarrow> compiled_node \<Rightarrow> string list" where
  "known_deps nodes n = filter (\<lambda>u. u \<in> cn_id ` set nodes) (cn_depends_on n)"

definition dependents :: "compiled_node list \<Rightarrow> string \<Rightarrow> string list" where
  "dependents nodes u =
     concat (map (\<lambda>n. replicate (count_list (known_deps nodes n) u) (cn_id n)) nodes)"

definition dependency_count :: "compiled_node list \<Rightarrow> string \<Rightarrow> int" where
  "dependency_count nodes i =
     int (sum_list (map (\<lambda>n. if cn_id n = i then length (known_deps nodes n) else 0) nodes))"

definition original_index :: "compiled_node list \<Rightarrow> string \<Rightarrow> nat" where
  "original_index nodes i =
     (case index_by snd (enumerate 0 (map cn_id nodes)) i of None \<Rightarrow> 0 | Some (k, _) \<Rightarrow> k)"

definition topologically_order_compiled_nodes :: "compiled_node list \<Rightarrow> compiled_node list" where
  "topologically_order_compiled_nodes nodes =
     (let ready = map cn_id (filter (\<lambda>n. dependency_count nodes (cn_id n) = 0) nodes);
          ordered_ids = kahn_walk (original_index nodes) (dependents nodes) (map cn_id nodes)
            (dependency_count nodes) ready []
      in if length ordered_ids \<noteq> length nodes then nodes
         else List.map_filter (index_by cn_id nodes) ordered_ids)"

section \<open>What the walk computes\<close>

context kahn_graph
begin

lemma walk_inv:
  "inv deg queue ordered \<Longrightarrow> \<exists>deg'. inv deg' [] (kahn_walk rank down nodes deg queue ordered)"
proof (induction "kahn_measure nodes (deg, queue)" arbitrary: deg queue ordered rule: less_induct)
  case less
  show ?case
  proof (cases queue)
    case Nil
    with less.prems show ?thesis by auto
  next
    case (Cons nid rest)
    let ?st = "fold (relax nodes) (down nid) (deg, [])"
    have "distinct (snd ?st)" using relax_fold(2)[of "[]" deg nodes "fst ?st" "snd ?st"] by simp
    then have "inv (fst ?st) (rest @ sort_key rank (snd ?st)) (ordered @ [nid])"
      using less.prems Cons by (intro inv_queued[of deg nid rest ordered "fst ?st" "snd ?st"]) auto
    moreover have "kahn_measure nodes (fst ?st, rest @ sort_key rank (snd ?st)) < kahn_measure nodes (deg, queue)"
      using kahn_measure_fold[of nodes "down nid" "(deg, [])"] Cons by (simp add: kahn_measure_def)
    ultimately show ?thesis using less.hyps Cons by (simp add: Let_def)
  qed
qed

end

lemma wf_flow_targets: "(u, v) \<in> wf_flow edges \<longleftrightarrow> u \<in> set (wf_sources edges v)"
  by (auto simp: wf_flow_def wf_sources_def)

lemma count_targets: "count_list (wf_targets edges u) v = count_list (wf_sources edges v) u"
  by (induction edges) (auto simp: wf_targets_def wf_sources_def)

interpretation cycle_walk: kahn_graph "wf_sources (inner_edges ids edges)" "wf_targets (inner_edges ids edges)"
    ids "set ids" for ids edges
  by unfold_locales (simp_all add: count_targets)

lemma cycle_walk_waits: "cycle_walk.waits ids edges = wf_flow (inner_edges ids edges)"
  unfolding cycle_walk.waits_def by (auto simp: wf_flow_def wf_sources_def inner_edges_def)

lemma cycle_walk_degree: "cycle_walk.degree ids edges v = wf_indegree (inner_edges ids edges) v"
proof -
  have "filter (\<lambda>u. u \<in> set ids) (wf_sources (inner_edges ids edges) v) = wf_sources (inner_edges ids edges) v"
    by (rule filter_True) (auto simp: wf_sources_def inner_edges_def)
  then show ?thesis unfolding cycle_walk.degree_def wf_indegree_def by (simp add: wf_sources_def)
qed

lemma cyclic_ids_iff:
  "i \<in> set (cyclic_ids nodes edges) \<longleftrightarrow> i \<in> wn_id ` set nodes \<and>
     (\<exists>c. (c, c) \<in> (wf_flow (inner_edges (map wn_id nodes) edges))\<^sup>+ \<and>
        (c, i) \<in> (wf_flow (inner_edges (map wn_id nodes) edges))\<^sup>*)"
proof -
  let ?ids = "dict_keys (map wn_id nodes)"
  let ?inner = "inner_edges ?ids edges"
  have inner: "?inner = inner_edges (map wn_id nodes) edges" by (simp add: inner_edges_def)
  have "cycle_walk.inv ?ids edges (wf_indegree ?inner) (filter (\<lambda>i. wf_indegree ?inner i = 0) ?ids) []"
    by (rule cycle_walk.inv_initial[unfolded cycle_walk_degree]) auto
  then obtain deg where "cycle_walk.inv ?ids edges deg [] (kahn_walk (\<lambda>_. 0) (wf_targets ?inner) ?ids
      (wf_indegree ?inner) (filter (\<lambda>i. wf_indegree ?inner i = 0) ?ids) [])"
    using cycle_walk.walk_inv by blast
  from cycle_walk.inv_left_over[OF this refl, of i] show ?thesis
    unfolding cycle_walk_waits by (auto simp: cyclic_ids_def inner Let_def)
qed

text \<open>
  C39: the compiler's cycle check is exact: it is silent precisely if the edges between the workflow's
  nodes form no cycle, and the nodes it reports are those on a cycle or downstream of one.
\<close>

theorem cycle_errors_exact:
  "(let flow = wf_flow (inner_edges (map wn_id (pj_nodes project)) (pj_edges project))
    in (cycle_errors project = [] \<longleftrightarrow> acyclic flow) \<and>
       (\<forall>i. List.member (map er_node_id (cycle_errors project)) (Some i) \<longleftrightarrow>
          i \<in> wn_id ` set (pj_nodes project) \<and> (\<exists>c. (c, c) \<in> flow\<^sup>+ \<and> (c, i) \<in> flow\<^sup>*)))"
proof -
  let ?flow = "wf_flow (inner_edges (map wn_id (pj_nodes project)) (pj_edges project))"
  have "c \<in> wn_id ` set (pj_nodes project)" if "(c, c) \<in> ?flow\<^sup>+" for c
    using that by (auto simp: wf_flow_def inner_edges_def dest: tranclD)
  then have "(\<exists>i. i \<in> set (cyclic_ids (pj_nodes project) (pj_edges project))) \<longleftrightarrow> \<not> acyclic ?flow"
    unfolding cyclic_ids_iff acyclic_def by blast
  moreover have "Some i \<in> set (map er_node_id (cycle_errors project)) \<longleftrightarrow>
      i \<in> set (cyclic_ids (pj_nodes project) (pj_edges project))" for i
    by (auto simp: cycle_errors_def wf_node_error_def)
  moreover have "cycle_errors project = [] \<longleftrightarrow> \<not> (\<exists>i. i \<in> set (cyclic_ids (pj_nodes project) (pj_edges project)))"
    by (simp add: cycle_errors_def)
  ultimately show ?thesis
    unfolding Let_def List.member_iff cyclic_ids_iff by simp
qed

section \<open>The run order of compiled nodes\<close>

definition known_ups :: "compiled_node list \<Rightarrow> string \<Rightarrow> string list" where
  "known_ups nodes v = concat (map (\<lambda>n. if cn_id n = v then known_deps nodes n else []) nodes)"

lemma count_list_concat: "count_list (concat xss) x = sum_list (map (\<lambda>xs. count_list xs x) xss)"
  by (induction xss) auto

lemma count_list_replicate: "count_list (replicate n y) x = (if y = x then n else 0)"
  by (induction n) auto

interpretation run_order: kahn_graph "known_ups nodes" "dependents nodes" "map cn_id nodes"
    "set (map cn_id nodes)" for nodes
proof unfold_locales
  fix u v
  show "count_list (dependents nodes u) v = count_list (known_ups nodes v) u"
    unfolding dependents_def known_ups_def count_list_concat map_map comp_def count_list_replicate
    by (intro arg_cong[of _ _ sum_list] map_cong) auto
qed simp

lemma run_order_degree: "run_order.degree nodes v = dependency_count nodes v"
proof -
  have "filter (\<lambda>u. u \<in> set (map cn_id nodes)) (known_ups nodes v) = known_ups nodes v"
    by (rule filter_True) (auto simp: known_ups_def known_deps_def split: if_splits)
  moreover have "length (known_ups nodes v) =
      sum_list (map (\<lambda>n. if cn_id n = v then length (known_deps nodes n) else 0) nodes)"
    unfolding known_ups_def length_concat map_map comp_def
    by (intro arg_cong[of _ _ sum_list] map_cong) auto
  ultimately show ?thesis unfolding run_order.degree_def dependency_count_def by simp
qed

definition dependency_relation :: "compiled_node list \<Rightarrow> (string \<times> string) set" where
  "dependency_relation nodes = {(u, cn_id n) |u n. n \<in> set nodes \<and> u \<in> set (known_deps nodes n)}"

lemma run_order_waits: "run_order.waits nodes = dependency_relation nodes"
  unfolding run_order.waits_def
  by (auto simp: dependency_relation_def known_ups_def known_deps_def split: if_splits) metis

lemma map_filter_index_by:
  assumes "distinct (map key xs)" and "set ids \<subseteq> key ` set xs"
  shows "map key (List.map_filter (index_by key xs) ids) = ids"
    and "set (List.map_filter (index_by key xs) ids) = {x \<in> set xs. key x \<in> set ids}"
proof -
  have hit: "\<exists>x. index_by key xs i = Some x \<and> x \<in> set xs \<and> key x = i" if "i \<in> set ids" for i
    using index_by_ex[of i key xs] assms(2) that by blast
  then show "map key (List.map_filter (index_by key xs) ids) = ids"
    by (induction ids) (auto simp: List.map_filter_def, metis option.sel)
  show "set (List.map_filter (index_by key xs) ids) = {x \<in> set xs. key x \<in> set ids}"
    using index_by_distinct[OF assms(1)] hit
    by (auto simp: List.map_filter_def image_iff) (metis (full_types) option.sel option.simps(3))+
qed

text \<open>
  The run order of compiled nodes is a permutation of them in which, if the dependencies between
  them are acyclic, every node comes after all nodes it depends on; with a cycle the nodes are
  returned as they were.
\<close>

lemma compiled_order_spec:
  assumes "distinct (map cn_id nodes)"
  shows "(let order = topologically_order_compiled_nodes nodes
    in set order = set nodes \<and> distinct (map cn_id order) \<and>
       (acyclic (dependency_relation nodes) \<longrightarrow>
          (\<forall>xs n ys u. order = xs @ n # ys \<and> u \<in> set (known_deps nodes n) \<longrightarrow> u \<in> cn_id ` set xs)) \<and>
       (\<not> acyclic (dependency_relation nodes) \<longrightarrow> order = nodes))"
proof -
  let ?ready = "map cn_id (filter (\<lambda>n. dependency_count nodes (cn_id n) = 0) nodes)"
  define ids where "ids = kahn_walk (original_index nodes) (dependents nodes) (map cn_id nodes)
    (dependency_count nodes) ?ready []"
  have "run_order.inv nodes (dependency_count nodes) ?ready []"
    by (rule run_order.inv_initial[unfolded run_order_degree]) (use assms in \<open>auto simp: distinct_map_filter\<close>)
  then obtain deg where inv: "run_order.inv nodes deg [] ids"
    using run_order.walk_inv unfolding ids_def by blast
  have ids: "distinct ids" "set ids \<subseteq> cn_id ` set nodes" using inv unfolding run_order.inv_def by auto
  have len: "length ids = length nodes \<longleftrightarrow> set ids = cn_id ` set nodes"
    using ids assms card_subset_eq[of "cn_id ` set nodes" "set ids"] distinct_card[of ids]
      distinct_card[of "map cn_id nodes"] by auto
  have acyc: "set ids = cn_id ` set nodes \<longleftrightarrow> acyclic (dependency_relation nodes)"
    using run_order.inv_acyclic[OF inv refl] ids(2) by (auto simp: run_order_waits)
  have order: "topologically_order_compiled_nodes nodes =
      (if length ids \<noteq> length nodes then nodes else List.map_filter (index_by cn_id nodes) ids)"
    by (simp add: topologically_order_compiled_nodes_def Let_def ids_def)
  show ?thesis
  proof (cases "acyclic (dependency_relation nodes)")
    case True
    then have all: "set ids = cn_id ` set nodes" using acyc by blast
    note mf = map_filter_index_by[OF assms ids(2)]
    have "u \<in> cn_id ` set xs" if "List.map_filter (index_by cn_id nodes) ids = xs @ n # ys"
        "u \<in> set (known_deps nodes n)" for xs n ys u
    proof -
      have split: "ids = map cn_id xs @ cn_id n # map cn_id ys" using mf(1) that(1) by simp
      have "n \<in> set nodes" using mf(2) that(1) by auto
      then have "u \<in> set (known_ups nodes (cn_id n)) \<inter> set (map cn_id nodes)"
        using that(2) by (auto simp: known_ups_def known_deps_def)
      then have "u \<in> set (map cn_id xs)" using run_order.inv_before[OF inv split] by blast
      then show ?thesis by simp
    qed
    with True all len mf ids(1) order show ?thesis by (auto simp: Let_def)
  next
    case False
    with acyc len order assms show ?thesis by (simp add: Let_def)
  qed
qed

end
