(* ===== verification/WorkflowPorts.thy ===== *)
theory WorkflowPorts
  imports WorkflowOrder
begin

text \<open>
  Port contracts of workflow nodes (\<open>backend/workflow/compiler.py\<close>): the static table, the
  contracts declared by primitives, the ones inferred from kind and capability, and how an edge
  picks a port. The tables of other modules (tool registry, data operators, native intelligence
  contracts, runtime bindings, package templates) are the fields of \<open>compiler_env\<close>.
\<close>

section \<open>Tables the compiler reads\<close>

record port_contract =
  pc_id :: string
  pc_direction :: string
  pc_type :: string
  pc_required :: bool

type_synonym port_contracts = "port_contract list \<times> port_contract list"

record data_operator_spec =
  op_id :: string
  op_kind :: string
  op_pack_version :: string

text \<open>
  \<open>ev_native_ports tool_id\<close> is the pair of port lists of the runtime contract of the native
  intelligence action with that tool id, if there is one.
\<close>

record compiler_env =
  ev_registry :: tool_registry
  ev_parse_pin :: pin_parser
  ev_operators :: "data_operator_spec list"
  ev_native_ports :: "string \<Rightarrow> ((string \<times> string) list \<times> (string \<times> string) list) option"
  ev_runtime :: "wf_node \<Rightarrow> wf_adapter option \<Rightarrow> string \<Rightarrow> json dict"
  ev_materialize :: "wf_project \<Rightarrow> wf_project"

definition INTERNAL_ID_SEPARATOR :: string where
  "INTERNAL_ID_SEPARATOR = ''::''"

definition MAX_NODE_PATH_DEPTH :: nat where
  "MAX_NODE_PATH_DEPTH = 4"

definition LEGACY_DATA_OPERATOR_PACK_VERSION :: string where
  "LEGACY_DATA_OPERATOR_PACK_VERSION = ''1.0.0''"

definition COLLECTION_SOURCE_CATALOG_IDS :: "string list" where
  "COLLECTION_SOURCE_CATALOG_IDS =
     [''collection.source.web'', ''collection.source.api'', ''collection.source.rss'',
      ''collection.source.cli'']"

definition in_port :: "string \<Rightarrow> string \<Rightarrow> bool \<Rightarrow> port_contract" where
  "in_port i ty req = \<lparr>pc_id = i, pc_direction = ''input'', pc_type = ty, pc_required = req\<rparr>"

definition out_port :: "string \<Rightarrow> string \<Rightarrow> bool \<Rightarrow> port_contract" where
  "out_port i ty req = \<lparr>pc_id = i, pc_direction = ''output'', pc_type = ty, pc_required = req\<rparr>"

definition collection_source_contract :: port_contracts where
  "collection_source_contract =
     ([in_port ''in'' ''trigger'' False], [out_port ''out'' ''CollectorOutputV1'' True])"

definition through_contract :: "string \<Rightarrow> string \<Rightarrow> port_contracts" where
  "through_contract tin tout = ([in_port ''in'' tin True], [out_port ''out'' tout True])"

definition open_contract :: "string \<Rightarrow> port_contracts" where
  "open_contract ty = ([in_port ''in'' ty False], [out_port ''out'' ty False])"

definition PORT_CONTRACTS :: "(string \<times> port_contracts) list" where
  "PORT_CONTRACTS =
     [(''media.image-generation'',
        ([in_port ''prompt'' ''text'' False, in_port ''assets'' ''mediaAsset[]'' False],
         [out_port ''assets'' ''mediaAsset[]'' True, out_port ''generation'' ''mediaGenerationResult'' True])),
      (''media.image-asset'', ([], [out_port ''assets'' ''mediaAsset[]'' True])),
      (''intelligence.input.collection-need'',
        ([in_port ''in'' ''collectionNeed'' False], [out_port ''patch'' ''workflowPatch'' True])),
      (''intelligence.schedule.cron'', ([], [out_port ''tick'' ''trigger'' True])),
      (''intelligence.source.opencli-slot'',
        ([in_port ''in'' ''trigger'' False], [out_port ''out'' ''items[]'' True])),
      (''intelligence.source.rss'',
        ([in_port ''in'' ''trigger'' False], [out_port ''out'' ''items[]'' True])),
      (''intelligence.source.pool'',
        ([in_port ''in'' ''trigger'' False], [out_port ''out'' ''trigger'' True]))] @
     map (\<lambda>cid. (cid, collection_source_contract)) COLLECTION_SOURCE_CATALOG_IDS @
     [(''intelligence.processing.normalize'', through_contract ''items[]'' ''recordCandidate[]''),
      (''intelligence.processing.dedupe'', through_contract ''recordCandidate[]'' ''recordCandidate[]''),
      (''intelligence.data.generate'', through_contract ''recordCandidate[]'' ''recordCandidate[]''),
      (''intelligence.data.filter'', through_contract ''recordCandidate[]'' ''recordCandidate[]''),
      (''intelligence.data.evaluate'', through_contract ''recordCandidate[]'' ''recordCandidate[]''),
      (''intelligence.data.refine'', through_contract ''recordCandidate[]'' ''recordCandidate[]''),
      (''intelligence.flow.merge'', through_contract ''CollectorMergeInputV1'' ''recordCandidate[]''),
      (''intelligence.control.record-acceptance'',
        ([in_port ''candidates'' ''recordCandidate[]'' True], [out_port ''records'' ''record[]'' True])),
      (''intelligence.sink.records'',
        ([in_port ''records'' ''record[]'' True], [out_port ''stored'' ''storedItems[]'' False])),
      (''intelligence.sink.feishu-bitable'',
        ([in_port ''records'' ''storedItems[]'' True], [out_port ''delivery'' ''deliveryAttempt[]'' False])),
      (''intelligence.output.collection-result'',
        ([in_port ''in'' ''recordCandidate[]'' True], [out_port ''out'' ''items[]'' False])),
      (''intelligence.output.inbox'',
        ([in_port ''in'' ''recordCandidate[]'' True], [out_port ''out'' ''storedItems[]'' False])),
      (''intelligence.output.webhook'',
        ([in_port ''in'' ''any'' False], [out_port ''payload'' ''notificationPayload'' False])),
      (''external.tool.capability'', open_contract ''unknown''),
      (''package.intelligence.situation-awareness'', open_contract ''unknown''),
      (''package.simulation.swarm-forecast'', open_contract ''unknown''),
      (''package.intelligence.native-lifecycle'', open_contract ''unknown''),
      (''package.intelligence.pipeline'', open_contract ''any''),
      (''package.review.human-review'', open_contract ''any''),
      (''package.dispatch.fanout'', open_contract ''any''),
      (''package.compat.dify-workflow'', open_contract ''any'')]"

section \<open>Packages\<close>

definition has_package_internals :: "wf_node \<Rightarrow> bool" where
  "has_package_internals node \<longleftrightarrow>
     (case wn_internals node of None \<Rightarrow> False | Some i \<Rightarrow> in_nodes i \<noteq> [])"

definition is_managed_runtime_package :: "wf_node \<Rightarrow> bool" where
  "is_managed_runtime_package node \<longleftrightarrow>
     has_package_internals node \<and> dict_get (wn_params node) ''packageExecution'' = Some (JStr ''managed'')"

definition is_structural_container :: "wf_node \<Rightarrow> bool" where
  "is_structural_container node \<longleftrightarrow> has_package_internals node \<and> \<not> is_managed_runtime_package node"

definition inner_nodes :: "wf_node \<Rightarrow> wf_node list" where
  "inner_nodes node = (case wn_internals node of None \<Rightarrow> [] | Some i \<Rightarrow> in_nodes i)"

definition inner_wires :: "wf_node \<Rightarrow> wf_edge list" where
  "inner_wires node = (case wn_internals node of None \<Rightarrow> [] | Some i \<Rightarrow> in_edges i)"

definition requires_adapter :: "wf_node \<Rightarrow> bool" where
  "requires_adapter node =
     (if catalog_id node = Some ''media.image-asset'' then False
      else if (case catalog_id node of None \<Rightarrow> False | Some c \<Rightarrow> List.member COLLECTION_SOURCE_CATALOG_IDS c)
        then False
      else nd_kind (wn_data node) = ''source'' \<or>
        List.member [''fetch'', ''send''] (nd_capability (wn_data node)))"

section \<open>The contract of a node\<close>

definition native_intelligence_port_contracts :: "compiler_env \<Rightarrow> wf_node \<Rightarrow> port_contracts option" where
  "native_intelligence_port_contracts env node =
     (case dict_get (wn_params node) ''toolCapability'' of
        Some (JObj tool) \<Rightarrow>
          (case read_stripped (dict_get tool ''id'') of
             None \<Rightarrow> None
           | Some tool_id \<Rightarrow>
               map_option (\<lambda>(ins, outs).
                   (map (\<lambda>(name, ty). in_port name ty True) ins, map (\<lambda>(name, ty). out_port name ty True) outs))
                 (ev_native_ports env tool_id))
      | _ \<Rightarrow> None)"

definition inferred_node_port_contracts :: "wf_node \<Rightarrow> port_contracts option" where
  "inferred_node_port_contracts node =
     (let kind = nd_kind (wn_data node); capability = nd_capability (wn_data node);
          alias_input = in_port ''records'' ''any'' False;
          alias_output = out_port ''records'' ''any'' False
      in if kind = ''source'' \<and> capability = ''fetch'' then
           Some ([in_port ''in'' ''any'' False, alias_input], [out_port ''out'' ''items[]'' True, alias_output])
         else if kind = ''agent'' \<and> capability = ''normalize'' then
           Some ([in_port ''in'' ''items[]'' True, alias_input],
             [out_port ''out'' ''recordCandidate[]'' True, alias_output])
         else if List.member [''inbox'', ''sink''] kind \<and> capability = ''store'' then
           Some ([in_port ''in'' ''recordCandidate[]'' True, alias_input],
             [out_port ''out'' ''storedItems[]'' False])
         else if kind = ''notify'' \<and> capability = ''send'' then
           Some ([in_port ''in'' ''recordCandidate[]'' True, alias_input],
             [out_port ''out'' ''notificationPayload'' False])
         else None)"

text \<open>One declared port; a malformed one makes the whole contract unknown.\<close>

definition declared_port :: "json \<Rightarrow> port_contract option" where
  "declared_port value =
     (case value of
        JObj d \<Rightarrow>
          (case (read_stripped (dict_get d ''id''), read_stripped (dict_get d ''direction''),
                 read_stripped (dict_get d ''type'')) of
             (Some i, Some direction, Some ty) \<Rightarrow>
               if List.member [''input'', ''output''] direction
               then Some \<lparr>pc_id = i, pc_direction = direction, pc_type = ty,
                 pc_required = (dict_get d ''required'' \<noteq> Some (JBool False))\<rparr>
               else None
           | _ \<Rightarrow> None)
      | _ \<Rightarrow> None)"

definition declared_contracts :: "json list \<Rightarrow> port_contracts option" where
  "declared_contracts values =
     (let ports = map declared_port values
      in if List.member ports None then None
         else Some (partition (\<lambda>p. pc_direction p = ''input'') (map the ports)))"

definition webhook_trigger_ids :: "string list" where
  "webhook_trigger_ids = [''primitive.core.webhook-trigger'', ''primitive.ops.trigger-webhook'']"

definition node_port_contracts :: "compiler_env \<Rightarrow> wf_node \<Rightarrow> port_contracts option" where
  "node_port_contracts env node =
     (case native_intelligence_port_contracts env node of
        Some c \<Rightarrow> Some c
      | None \<Rightarrow>
          let cid = catalog_id node; pid = primitive_id node;
              table = (case cid of None \<Rightarrow> None | Some c \<Rightarrow>
                if List.member COLLECTION_SOURCE_CATALOG_IDS c then Some collection_source_contract
                else map_of PORT_CONTRACTS c);
              node_library_id = (if pid = None then cid else pid)
          in if table \<noteq> None then table
             else (case node_library_id of
                 None \<Rightarrow> inferred_node_port_contracts node
               | Some lib \<Rightarrow>
                   if List.member webhook_trigger_ids lib
                     then Some ([], [out_port ''request'' ''webhookRequest'' True])
                   else if \<not> prefix ''primitive.'' lib then inferred_node_port_contracts node
                   else (case dict_get (wn_ui node) ''primitivePorts'' of
                       Some (JList values) \<Rightarrow> declared_contracts values
                     | _ \<Rightarrow> None)))"

section \<open>Ports of an edge\<close>

definition truthy :: "string option \<Rightarrow> bool" where
  "truthy s \<longleftrightarrow> (case s of None \<Rightarrow> False | Some t \<Rightarrow> t \<noteq> [])"

text \<open>\<open>_resolve_output_port\<close> and \<open>_resolve_input_port\<close> have the same body.\<close>

definition resolve_port :: "port_contract list \<Rightarrow> string option \<Rightarrow> port_contract option" where
  "resolve_port ports requested =
     (if truthy requested then find (\<lambda>p. Some (pc_id p) = requested) ports
      else case ports of
          [p] \<Rightarrow> Some p
        | _ \<Rightarrow> (case find pc_required ports of Some p \<Rightarrow> Some p | None \<Rightarrow> first_row ports))"

definition resolve_output_port :: "port_contract list \<Rightarrow> string option \<Rightarrow> port_contract option" where
  "resolve_output_port outputs requested = resolve_port outputs requested"

definition resolve_input_port :: "port_contract list \<Rightarrow> string option \<Rightarrow> port_contract option" where
  "resolve_input_port inputs requested = resolve_port inputs requested"

definition port_types_compatible :: "string \<Rightarrow> string \<Rightarrow> bool" where
  "port_types_compatible source_type target_type =
     (if source_type = target_type then True
      else if target_type = ''CollectorMergeInputV1'' \<and>
        List.member [''CollectorOutputV1'', ''recordCandidate[]''] source_type then True
      else List.member [''any'', ''unknown''] source_type \<or> List.member [''any'', ''unknown''] target_type)"

text \<open>\<open>re.fullmatch(r"in\d+", port)\<close>.\<close>

definition is_merge_port :: "string \<Rightarrow> bool" where
  "is_merge_port port \<longleftrightarrow> prefix ''in'' port \<and> drop 2 port \<noteq> [] \<and> list_all is_digit (drop 2 port)"

lemma has_internals_inner: "has_package_internals node \<longleftrightarrow> inner_nodes node \<noteq> []"
  by (auto simp: has_package_internals_def inner_nodes_def split: option.splits)

lemma find_in_set: "find P xs = Some x \<Longrightarrow> x \<in> set xs"
  by (induction xs) (auto split: if_splits)

lemma resolve_port_in: "resolve_port ports requested = Some p \<Longrightarrow> p \<in> set ports"
  by (auto simp: resolve_port_def split: if_splits list.splits option.splits
      dest: find_in_set first_row_Some_in)

lemma resolve_port_Nil: "resolve_port ports None = None \<longleftrightarrow> ports = []"
  by (auto simp: resolve_port_def truthy_def first_row_def split: list.splits option.splits)

end
