(* ===== verification/WorkflowChecks.thy ===== *)
theory WorkflowChecks
  imports WorkflowPorts
begin

text \<open>
  The validation pass of the workflow compiler (\<open>_validate_project\<close> and what it calls in
  \<open>backend/workflow/compiler.py\<close>), on the root graph and on the internals of packages.
\<close>

section \<open>Identifiers of nested nodes\<close>

definition node_path_id :: "string list \<Rightarrow> string" where
  "node_path_id node_path = join_with INTERNAL_ID_SEPARATOR node_path"

definition internal_id :: "string \<Rightarrow> string \<Rightarrow> string" where
  "internal_id package_node_id internal_node_id =
     package_node_id @ INTERNAL_ID_SEPARATOR @ internal_node_id"

text \<open>\<open>tuple(dict.fromkeys((node.id, _node_path_id(node_path))))\<close>.\<close>

definition package_aliases :: "wf_node \<Rightarrow> string list \<Rightarrow> string list" where
  "package_aliases node node_path = dict_keys [wn_id node, node_path_id node_path]"

definition binding_candidate :: "string \<Rightarrow> string set \<Rightarrow> string \<Rightarrow> string option" where
  "binding_candidate binding_node_id internal_node_ids alias_prefix =
     (let candidate = drop (length alias_prefix) binding_node_id
      in if prefix alias_prefix binding_node_id \<and> candidate \<in> internal_node_ids
         then Some candidate else None)"

definition resolve_internal_binding_id :: "string \<Rightarrow> string set \<Rightarrow> string list \<Rightarrow> string option" where
  "resolve_internal_binding_id binding_node_id internal_node_ids aliases =
     (if binding_node_id \<in> internal_node_ids then Some binding_node_id
      else first_row (List.map_filter (binding_candidate binding_node_id internal_node_ids)
        (concat (map (\<lambda>a. [a @ ''__'', a @ INTERNAL_ID_SEPARATOR]) aliases))))"

section \<open>Checks on one node\<close>

definition validate_capability_version_pin :: "compiler_env \<Rightarrow> wf_node \<Rightarrow> compile_error list" where
  "validate_capability_version_pin env node =
     (case dict_get (wn_params node) ''toolCapability'' of
        Some (JObj tool_capability) \<Rightarrow>
          (case read_stripped (dict_get tool_capability ''id'') of
             None \<Rightarrow> []
           | Some tool_id \<Rightarrow>
               if \<not> List.member [Some ''external.tool.capability'', Some tool_id] (catalog_id node) then []
               else
                 (case validate_version_pin (ev_registry env) (ev_parse_pin env) tool_id
                     (dict_get tool_capability ''versionPin'') False of
                    None \<Rightarrow> []
                  | Some code \<Rightarrow>
                      if code = ''unknown_tool_capability'' \<and>
                        (case dict_get (wn_params node) ''externalWorkflow'' of
                           Some (JObj _) \<Rightarrow> True | _ \<Rightarrow> False) then []
                      else [wf_node_error code (wn_id node)
                        [''nodes'', wn_id node, ''params'', ''toolCapability'', ''versionPin'']]))
      | _ \<Rightarrow> [])"

definition validate_node_origin :: "compiler_env \<Rightarrow> wf_node \<Rightarrow> string list \<Rightarrow> compile_error list" where
  "validate_node_origin env node path_prefix =
     map (\<lambda>key. wf_node_error ''forbidden_node_definition'' (wn_id node)
         (path_prefix @ split_one (CHR ''.'') key))
       (forbidden_node_definition_keys node) @
     (if unknown_origin (ev_registry env) node
      then [wf_node_error ''unknown_node_library_binding'' (wn_id node) (path_prefix @ [''ui''])] else [])"

definition resolve_data_operator :: "compiler_env \<Rightarrow> string \<Rightarrow> string option \<Rightarrow> data_operator_spec option" where
  "resolve_data_operator env operator_id pack_version =
     (case pack_version of
        Some v \<Rightarrow> index_by (\<lambda>s. (op_id s, op_pack_version s)) (ev_operators env) (operator_id, v)
      | None \<Rightarrow> index_by (\<lambda>s. (op_id s, op_pack_version s)) (ev_operators env)
          (operator_id, LEGACY_DATA_OPERATOR_PACK_VERSION))"

definition expected_operator_kind :: "wf_node \<Rightarrow> string option" where
  "expected_operator_kind node =
     (case catalog_id node of
        Some cid \<Rightarrow>
          if prefix ''intelligence.data.'' cid then Some (drop (length ''intelligence.data.'') cid) else None
      | None \<Rightarrow> None)"

definition validate_data_operator_node :: "compiler_env \<Rightarrow> wf_node \<Rightarrow> string list \<Rightarrow> compile_error list" where
  "validate_data_operator_node env node path_prefix =
     (let kind = expected_operator_kind node;
          error = (\<lambda>code path. [wf_node_error code (wn_id node) (path_prefix @ path)]);
          requested = read_stripped (dict_get (wn_params node) ''packVersion'')
      in if \<not> List.member (map Some [''generate'', ''filter'', ''evaluate'', ''refine'']) kind then
           if dict_get (wn_params node) ''operatorId'' = None then []
           else error ''data_operator_catalog_required'' [''ui'', ''catalogId'']
         else case read_stripped (dict_get (wn_params node) ''operatorId'') of
             None \<Rightarrow> error ''missing_data_operator_id'' [''params'', ''operatorId'']
           | Some operator_id \<Rightarrow>
               if dict_get (wn_params node) ''packVersion'' \<noteq> None \<and> requested = None
                 then error ''unsupported_data_operator_version'' [''params'', ''packVersion'']
               else
                 (case resolve_data_operator env operator_id
                     (Some (case requested of Some v \<Rightarrow> v | None \<Rightarrow> LEGACY_DATA_OPERATOR_PACK_VERSION)) of
                    None \<Rightarrow>
                      if operator_id \<in> op_id ` set (ev_operators env)
                      then error ''unsupported_data_operator_version'' [''params'', ''packVersion'']
                      else error ''unknown_data_operator'' [''params'', ''operatorId'']
                  | Some spec \<Rightarrow>
                      if Some (op_kind spec) \<noteq> kind
                      then error ''data_operator_kind_mismatch'' [''params'', ''operatorId''] else []))"

text \<open>
  A gap blocks unless its \<open>blockingActions\<close> are given and name neither publishing nor running;
  an explicit \<open>null\<close> counts as not given.
\<close>

definition gap_blocks :: "json dict \<Rightarrow> bool" where
  "gap_blocks gap \<longleftrightarrow>
     (case dict_get gap ''blockingActions'' of
        None \<Rightarrow> True | Some JNull \<Rightarrow> True
      | Some (JList vs) \<Rightarrow> List.member vs (JStr ''publish'') \<or> List.member vs (JStr ''run'')
      | _ \<Rightarrow> False)"

definition gap_error :: "wf_node \<Rightarrow> string list \<Rightarrow> nat \<times> json \<Rightarrow> compile_error list" where
  "gap_error node path_prefix igap =
     (case snd igap of
        JObj gap \<Rightarrow>
          if gap_blocks gap
          then [wf_node_error ''capability_gap'' (wn_id node)
            (path_prefix @ [''ui'', ''builder'', ''capabilityGaps'',
              case read_stripped (dict_get gap ''id'') of
                Some i \<Rightarrow> i | None \<Rightarrow> ''gap-'' @ show_nat (fst igap + 1)])]
          else []
      | _ \<Rightarrow> [])"

definition validate_node_capability_gaps :: "wf_node \<Rightarrow> string list \<Rightarrow> compile_error list" where
  "validate_node_capability_gaps node path_prefix =
     (case dict_get (wn_ui node) ''builder'' of
        Some (JObj builder) \<Rightarrow>
          (case dict_get builder ''capabilityGaps'' of
             Some (JList gaps) \<Rightarrow> concat (map (gap_error node path_prefix) (enumerate 0 gaps))
           | _ \<Rightarrow> [])
      | _ \<Rightarrow> [])"

text \<open>The adapter check, shared by the root level (\<open>error_id\<close> is the node's id) and packages.\<close>

definition adapter_errors :: "wf_adapter list \<Rightarrow> wf_node \<Rightarrow> string \<Rightarrow> string list \<Rightarrow> compile_error list" where
  "adapter_errors adapters node error_id path_prefix =
     (let error = [wf_node_error ''missing_adapter_binding'' error_id (path_prefix @ [''adapter''])];
          bound = truthy (nd_adapter (wn_data node))
      in if \<not> is_structural_container node \<and> bound \<and> the (nd_adapter (wn_data node)) \<notin> ad_id ` set adapters
           then error
         else if \<not> is_structural_container node \<and> requires_adapter node \<and> \<not> bound then error
         else [])"

section \<open>Checks on edges\<close>

definition typed_edge_error :: "compiler_env \<Rightarrow> wf_node list \<Rightarrow> string list \<Rightarrow> wf_edge \<Rightarrow> compile_error list" where
  "typed_edge_error env nodes path_prefix edge =
     (case (index_by wn_id nodes (we_source edge), index_by wn_id nodes (we_target edge)) of
        (Some source_node, Some target_node) \<Rightarrow>
          if is_structural_container source_node \<or> is_structural_container target_node then []
          else (case (node_port_contracts env source_node, node_port_contracts env target_node) of
              (Some source_contract, Some target_contract) \<Rightarrow>
                let merge_alias = (catalog_id target_node = Some ''intelligence.flow.merge'' \<and>
                      truthy (we_targetPort edge) \<and> is_merge_port (the (we_targetPort edge)));
                    target_port = (if merge_alias then Some (in_port ''in'' ''CollectorMergeInputV1'' True)
                      else resolve_input_port (fst target_contract) (we_targetPort edge))
                in (case resolve_output_port (snd source_contract) (we_sourcePort edge) of
                      None \<Rightarrow> [wf_edge_error ''invalid_edge_source_port'' (we_id edge)
                        (path_prefix @ [we_id edge, ''sourcePort''])]
                    | Some source_port \<Rightarrow>
                        (case target_port of
                           None \<Rightarrow> [wf_edge_error ''invalid_edge_target_port'' (we_id edge)
                             (path_prefix @ [we_id edge, ''targetPort''])]
                         | Some target \<Rightarrow>
                             if \<not> port_types_compatible (pc_type source_port) (pc_type target)
                             then [wf_edge_error ''incompatible_edge_ports'' (we_id edge)
                               (path_prefix @ [we_id edge])]
                             else []))
            | _ \<Rightarrow> [])
      | _ \<Rightarrow> [])"

definition validate_typed_edges ::
  "compiler_env \<Rightarrow> wf_node list \<Rightarrow> wf_edge list \<Rightarrow> string list \<Rightarrow> compile_error list"
where
  "validate_typed_edges env nodes edges path_prefix =
     concat (map (typed_edge_error env nodes path_prefix) edges)"

definition incompatible_mapping :: "wf_edge \<Rightarrow> bool" where
  "incompatible_mapping edge \<longleftrightarrow>
     (case we_ui edge of
        None \<Rightarrow> False
      | Some ui \<Rightarrow>
          (case dict_get ui ''mapping'' of
             Some (JObj mapping) \<Rightarrow> dict_get mapping ''compatible'' = Some (JBool False)
           | _ \<Rightarrow> False))"

definition validate_edge_mappings :: "wf_edge list \<Rightarrow> string list \<Rightarrow> compile_error list" where
  "validate_edge_mappings edges path_prefix =
     map (\<lambda>e. wf_edge_error ''incompatible_edge_mapping'' (we_id e)
         (path_prefix @ [we_id e, ''ui'', ''mapping'']))
       (filter incompatible_mapping edges)"

definition needs_visible_merge :: "wf_edge list \<Rightarrow> wf_node \<Rightarrow> bool" where
  "needs_visible_merge edges node \<longleftrightarrow>
     \<not> (length (filter (\<lambda>e. we_target e = wn_id node) edges) \<le> 1 \<or>
        \<not> (case dict_get (wn_ui node) ''builder'' of Some (JObj _) \<Rightarrow> True | _ \<Rightarrow> False) \<or>
        nd_kind (wn_data node) = ''flow'' \<and> nd_capability (wn_data node) = ''merge'')"

definition validate_visible_merge_nodes ::
  "wf_node list \<Rightarrow> wf_edge list \<Rightarrow> string list \<Rightarrow> compile_error list"
where
  "validate_visible_merge_nodes nodes edges path_prefix =
     map (\<lambda>n. wf_node_error ''multiple_inputs_require_merge'' (wn_id n) (path_prefix @ [wn_id n]))
       (filter (needs_visible_merge edges) nodes)"

text \<open>Ids that occur more than once, sorted.\<close>

definition duplicated :: "string list \<Rightarrow> string list" where
  "duplicated ids = sort (filter (\<lambda>i. 1 < count_list ids i) (dict_keys ids))"

section \<open>The internals of a package\<close>

definition package_shape_errors :: "wf_node \<Rightarrow> string list \<Rightarrow> string list \<Rightarrow> compile_error list" where
  "package_shape_errors node node_path path_prefix =
     (let package_node_id = node_path_id node_path;
          ids = map wn_id (inner_nodes node);
          edge_error = (\<lambda>code eid tail. \<lparr>er_code = code, er_node_id = Some package_node_id,
            er_edge_id = Some eid, er_path = path_prefix @ [''internals'', ''edges'', eid] @ tail\<rparr>)
      in map (\<lambda>i. wf_node_error ''duplicate_internal_node_id'' package_node_id
             (path_prefix @ [''internals'', ''nodes'', i])) (duplicated ids) @
         map (\<lambda>i. edge_error ''duplicate_edge_id'' i []) (duplicated (map we_id (inner_wires node))) @
         concat (map (\<lambda>e.
             (if we_source e \<notin> set ids
              then [edge_error ''missing_internal_edge_source'' (we_id e) [''source'']] else []) @
             (if we_target e \<notin> set ids
              then [edge_error ''missing_internal_edge_target'' (we_id e) [''target'']] else []))
           (inner_wires node)))"

definition parameter_binding_errors :: "wf_node \<Rightarrow> string list \<Rightarrow> string list \<Rightarrow> compile_error list" where
  "parameter_binding_errors node node_path path_prefix =
     (case nd_parameterInterface (wn_data node) of
        None \<Rightarrow> []
      | Some public_fields \<Rightarrow>
          map (\<lambda>f. wf_node_error ''invalid_parameter_binding'' (node_path_id node_path)
              (path_prefix @ [''parameterInterface'', ''fields'', pf_id f, ''binding'']))
            (filter (\<lambda>f. resolve_internal_binding_id (pb_nodeId (pf_binding f))
                (wn_id ` set (inner_nodes node)) (package_aliases node node_path) = None) public_fields))"

definition package_graph_errors ::
  "compiler_env \<Rightarrow> wf_node \<Rightarrow> string list \<Rightarrow> string list \<Rightarrow> compile_error list"
where
  "package_graph_errors env node node_path path_prefix =
     (let internal_edge_path = path_prefix @ [''internals'', ''edges'']
      in validate_edge_mappings (inner_wires node) internal_edge_path @
         validate_visible_merge_nodes (inner_nodes node) (inner_wires node) internal_edge_path @
         validate_typed_edges env (inner_nodes node) (inner_wires node) internal_edge_path @
         cycle_errors_for_nodes (node_path_id node_path) (inner_nodes node) (inner_wires node) path_prefix)"

lemma inner_nodes_size: "n \<in> set (inner_nodes node) \<Longrightarrow> size n < size node"
proof -
  assume "n \<in> set (inner_nodes node)"
  then obtain i where i: "wn_internals node = Some i" "n \<in> set (in_nodes i)"
    by (cases "wn_internals node") (auto simp: inner_nodes_def)
  from i(2) have "size n \<le> size_list size (in_nodes i)" by (simp add: size_list_estimation')
  with i(1) show ?thesis by (cases node; cases i) auto
qed

function validate_package_internals ::
  "compiler_env \<Rightarrow> wf_adapter list \<Rightarrow> wf_node \<Rightarrow> string list \<Rightarrow> string list \<Rightarrow> compile_error list"
where
  "validate_package_internals env adapters node node_path path_prefix =
     package_shape_errors node node_path path_prefix @
     (if is_managed_runtime_package node then []
      else
        concat (map (\<lambda>n.
            let internal_path_prefix = path_prefix @ [''internals'', ''nodes'', wn_id n];
                internal_node_path = node_path @ [wn_id n]
            in if MAX_NODE_PATH_DEPTH < length internal_node_path
               then [wf_node_error ''node_path_depth_exceeded'' (node_path_id internal_node_path)
                 internal_path_prefix]
               else
                 adapter_errors adapters n (node_path_id internal_node_path) internal_path_prefix @
                 validate_node_origin env n internal_path_prefix @
                 validate_data_operator_node env n internal_path_prefix @
                 validate_node_capability_gaps n internal_path_prefix @
                 (if is_structural_container n
                  then validate_package_internals env adapters n internal_node_path internal_path_prefix
                  else []))
          (inner_nodes node)) @
        parameter_binding_errors node node_path path_prefix @
        package_graph_errors env node node_path path_prefix)"
  by pat_completeness auto

termination validate_package_internals
  by (relation "measure (\<lambda>(env, adapters, node, node_path, path_prefix). size node)")
    (auto simp: inner_nodes_size)

declare validate_package_internals.simps [simp del]

section \<open>The project\<close>

definition edge_end_errors :: "string list \<Rightarrow> wf_edge \<Rightarrow> compile_error list" where
  "edge_end_errors node_ids edge =
     (if we_source edge \<notin> set node_ids
      then [wf_edge_error ''missing_edge_source'' (we_id edge) [''edges'', we_id edge, ''source'']] else []) @
     (if we_target edge \<notin> set node_ids
      then [wf_edge_error ''missing_edge_target'' (we_id edge) [''edges'', we_id edge, ''target'']] else [])"

definition root_node_errors :: "compiler_env \<Rightarrow> wf_adapter list \<Rightarrow> wf_node \<Rightarrow> compile_error list" where
  "root_node_errors env adapters node =
     (let path = [''nodes'', wn_id node]
      in adapter_errors adapters node (wn_id node) path @
         (if has_package_internals node
          then validate_package_internals env adapters node [wn_id node] path else []) @
         validate_node_origin env node path @ validate_data_operator_node env node path @
         validate_capability_version_pin env node @ validate_node_capability_gaps node path)"

definition validate_project :: "compiler_env \<Rightarrow> wf_project \<Rightarrow> compile_error list" where
  "validate_project env project =
     (let ids = map wn_id (pj_nodes project)
      in map (\<lambda>i. wf_node_error ''duplicate_node_id'' i [''nodes'']) (duplicated ids) @
         map (\<lambda>i. wf_edge_error ''duplicate_edge_id'' i [''edges'']) (duplicated (map we_id (pj_edges project))) @
         concat (map (edge_end_errors ids) (pj_edges project)) @
         concat (map (root_node_errors env (pj_adapters project)) (pj_nodes project)) @
         validate_edge_mappings (pj_edges project) [''edges''] @
         validate_visible_merge_nodes (pj_nodes project) (pj_edges project) [''edges''] @
         validate_typed_edges env (pj_nodes project) (pj_edges project) [''edges''] @
         cycle_errors project)"

section \<open>What a project without errors satisfies\<close>

lemma sort_Nil_iff [simp]: "sort xs = [] \<longleftrightarrow> xs = []"
  by (metis set_empty set_sort)

lemma duplicated_Nil: "duplicated ids = [] \<longleftrightarrow> distinct ids"
proof -
  have "duplicated ids = [] \<longleftrightarrow> (\<forall>i \<in> set ids. \<not> 1 < count_list ids i)"
    by (simp add: duplicated_def filter_empty_conv)
  also have "\<dots> \<longleftrightarrow> distinct ids"
    by (induction ids) (auto simp: count_list_0_iff)
  finally show ?thesis .
qed

text \<open>One level of the graph: distinct ids, edges between its nodes, no cycle.\<close>

definition sound_level :: "wf_node list \<Rightarrow> wf_edge list \<Rightarrow> bool" where
  "sound_level nodes edges \<longleftrightarrow>
     distinct (map wn_id nodes) \<and> distinct (map we_id edges) \<and>
     we_source ` set edges \<subseteq> wn_id ` set nodes \<and> we_target ` set edges \<subseteq> wn_id ` set nodes \<and>
     acyclic (wf_flow edges)"

lemma cyclic_ids_acyclic:
  "cyclic_ids nodes edges = [] \<longleftrightarrow> acyclic (wf_flow (inner_edges (map wn_id nodes) edges))"
proof -
  let ?flow = "wf_flow (inner_edges (map wn_id nodes) edges)"
  have "c \<in> wn_id ` set nodes" if "(c, c) \<in> ?flow\<^sup>+" for c
    using that by (auto simp: wf_flow_def inner_edges_def dest: tranclD)
  then have "(\<exists>i. i \<in> set (cyclic_ids nodes edges)) \<longleftrightarrow> \<not> acyclic ?flow"
    unfolding cyclic_ids_iff acyclic_def by blast
  moreover have "(\<exists>i. i \<in> set (cyclic_ids nodes edges)) \<longleftrightarrow> cyclic_ids nodes edges \<noteq> []"
    by (cases "cyclic_ids nodes edges") auto
  ultimately show ?thesis by blast
qed

lemma inner_edges_all:
  "we_source ` set edges \<subseteq> set ids \<Longrightarrow> we_target ` set edges \<subseteq> set ids \<Longrightarrow> inner_edges ids edges = edges"
  by (auto simp: inner_edges_def filter_id_conv)

lemma validate_project_root:
  assumes "validate_project env project = []"
  shows "sound_level (pj_nodes project) (pj_edges project)"
    and "n \<in> set (pj_nodes project) \<Longrightarrow> root_node_errors env (pj_adapters project) n = []"
proof -
  have d: "distinct (map wn_id (pj_nodes project))" "distinct (map we_id (pj_edges project))"
    and ends: "\<forall>e \<in> set (pj_edges project). edge_end_errors (map wn_id (pj_nodes project)) e = []"
    and nodes: "\<forall>n \<in> set (pj_nodes project). root_node_errors env (pj_adapters project) n = []"
    and cyc: "cyclic_ids (pj_nodes project) (pj_edges project) = []"
    using assms by (auto simp: validate_project_def Let_def duplicated_Nil cycle_errors_def)
  have sub: "we_source ` set (pj_edges project) \<subseteq> set (map wn_id (pj_nodes project))"
    "we_target ` set (pj_edges project) \<subseteq> set (map wn_id (pj_nodes project))"
    using ends by (auto simp: edge_end_errors_def split: if_splits)
  with d cyc show "sound_level (pj_nodes project) (pj_edges project)"
    by (simp add: sound_level_def cyclic_ids_acyclic inner_edges_all)
  show "root_node_errors env (pj_adapters project) n = []" if "n \<in> set (pj_nodes project)"
    using nodes that by blast
qed

text \<open>Every structural container below a node is sound, and nested no deeper than allowed.\<close>

inductive sound_package :: "wf_node \<Rightarrow> bool" where
  sound_leaf: "\<not> is_structural_container node \<Longrightarrow> sound_package node"
| sound_container: "is_structural_container node \<Longrightarrow> sound_level (inner_nodes node) (inner_wires node) \<Longrightarrow>
    (\<And>n. n \<in> set (inner_nodes node) \<Longrightarrow> sound_package n) \<Longrightarrow> sound_package node"

lemma package_shape_errors_Nil:
  "package_shape_errors node node_path path_prefix = [] \<longleftrightarrow>
     distinct (map wn_id (inner_nodes node)) \<and> distinct (map we_id (inner_wires node)) \<and>
     we_source ` set (inner_wires node) \<subseteq> wn_id ` set (inner_nodes node) \<and>
     we_target ` set (inner_wires node) \<subseteq> wn_id ` set (inner_nodes node)"
  by (auto simp: package_shape_errors_def Let_def duplicated_Nil)

lemma validated_package_sound:
  "validate_package_internals env adapters node node_path path_prefix = [] \<Longrightarrow> sound_package node"
proof (induction env adapters node node_path path_prefix rule: validate_package_internals.induct)
  case (1 env adapters node node_path path_prefix)
  show ?case
  proof (cases "is_structural_container node")
    case True
    then have nm: "\<not> is_managed_runtime_package node" by (simp add: is_structural_container_def)
    note errs = 1(2)[unfolded validate_package_internals.simps[of env adapters node]]
    have shape: "package_shape_errors node node_path path_prefix = []"
      and cyc: "cyclic_ids (inner_nodes node) (inner_wires node) = []"
      using errs nm by (auto simp: package_graph_errors_def cycle_errors_for_nodes_def Let_def)
    have inner: "sound_package n" if "n \<in> set (inner_nodes node)" for n
    proof (cases "is_structural_container n")
      case True
      have "validate_package_internals env adapters n (node_path @ [wn_id n])
          (path_prefix @ [''internals'', ''nodes'', wn_id n]) = []"
        and "\<not> MAX_NODE_PATH_DEPTH < length (node_path @ [wn_id n])"
        using errs nm that True by (auto simp: Let_def split: if_splits)
      then show ?thesis using 1(1)[OF nm that refl refl _ True] by blast
    qed (rule sound_leaf)
    have "sound_level (inner_nodes node) (inner_wires node)"
      using shape cyc by (simp add: package_shape_errors_Nil sound_level_def cyclic_ids_acyclic inner_edges_all)
    from sound_container[OF True this inner] show ?thesis .
  qed (rule sound_leaf)
qed

lemma validated_nodes_sound:
  "validate_project env project = [] \<Longrightarrow> n \<in> set (pj_nodes project) \<Longrightarrow> sound_package n"
  using validate_project_root(2)[of env project n]
  by (auto simp: root_node_errors_def Let_def is_structural_container_def split: if_splits
      intro: validated_package_sound sound_leaf)

end
