(* ===== verification/WorkflowCompiler.thy ===== *)
theory WorkflowCompiler
  imports WorkflowChecks ValidPlans
begin

text \<open>
  The compilation pass (\<open>backend/workflow/compiler.py\<close>): packages are flattened into
  compiled nodes and edges and into Plan IR, edges that end at a package are expanded to its
  boundary nodes, and the result is ordered and validated. The code appends to four lists it
  passes down the recursion; here they are a state record. \<open>cs_raised\<close> records the
  \<open>TypeError\<close> of a library id that is an unhashable value.
\<close>

section \<open>Boundaries of a package\<close>

datatype direction = InputSide | OutputSide

fun edge_end :: "direction \<Rightarrow> wf_edge \<Rightarrow> string" where
  "edge_end InputSide e = we_target e"
| "edge_end OutputSide e = we_source e"

function boundary_nodes :: "wf_node \<Rightarrow> string list \<Rightarrow> direction \<Rightarrow> (string list \<times> wf_node) list" where
  "boundary_nodes node node_path dir =
     (if is_managed_runtime_package node \<or> \<not> has_package_internals node then [(node_path, node)]
      else concat (map (\<lambda>n. boundary_nodes n (node_path @ [wn_id n]) dir)
        (filter (\<lambda>n. wn_id n \<notin> edge_end dir ` set (inner_wires node)) (inner_nodes node))))"
  by pat_completeness auto

termination boundary_nodes
  by (relation "measure (\<lambda>(node, node_path, dir). size node)") (auto simp: inner_nodes_size)

declare boundary_nodes.simps [simp del]

definition boundary_node_paths :: "wf_node \<Rightarrow> string list \<Rightarrow> direction \<Rightarrow> string list list" where
  "boundary_node_paths node node_path dir = map fst (boundary_nodes node node_path dir)"

definition expanded_dependency_map ::
  "wf_node list \<Rightarrow> wf_edge list \<Rightarrow> string list \<Rightarrow> string \<Rightarrow> string list"
where
  "expanded_dependency_map nodes edges parent_path target =
     concat (map (\<lambda>e.
         case index_by wn_id nodes (we_source e) of
           None \<Rightarrow> []
         | Some source \<Rightarrow> map node_path_id
             (boundary_node_paths source (parent_path @ [wn_id source]) OutputSide))
       (filter (\<lambda>e. we_target e = target) edges))"

definition or_records :: "string option \<Rightarrow> string" where
  "or_records port = (if truthy port then the port else ''records'')"

definition boundary_edge_port ::
  "compiler_env \<Rightarrow> wf_node \<Rightarrow> direction \<Rightarrow> string option \<Rightarrow> bool \<Rightarrow> string"
where
  "boundary_edge_port env node dir requested_port traversed_container =
     (case node_port_contracts env node of
        None \<Rightarrow> or_records requested_port
      | Some contracts \<Rightarrow>
          let ports = (case dir of InputSide \<Rightarrow> fst contracts | OutputSide \<Rightarrow> snd contracts);
              requested = (if traversed_container \<and> requested_port \<notin> (Some \<circ> pc_id) ` set ports
                then None else requested_port);
              resolved = (case dir of InputSide \<Rightarrow> resolve_input_port ports requested
                | OutputSide \<Rightarrow> resolve_output_port ports requested)
          in (case resolved of Some p \<Rightarrow> pc_id p | None \<Rightarrow> or_records requested_port))"

definition boundary_pairs ::
  "wf_node \<Rightarrow> wf_node \<Rightarrow> string list \<Rightarrow> ((string list \<times> wf_node) \<times> (string list \<times> wf_node)) list"
where
  "boundary_pairs source target parent_path =
     List.product (boundary_nodes source (parent_path @ [wn_id source]) OutputSide)
       (boundary_nodes target (parent_path @ [wn_id target]) InputSide)"

definition expanded_edge ::
  "compiler_env \<Rightarrow> string list \<Rightarrow> wf_edge \<Rightarrow> wf_node \<Rightarrow> wf_node \<Rightarrow> nat \<Rightarrow>
   nat \<times> (string list \<times> wf_node) \<times> (string list \<times> wf_node) \<Rightarrow> compiled_edge"
where
  "expanded_edge env parent_path edge source target pair_count indexed =
     (case indexed of (pair_index, (source_path, source_leaf), (target_path, target_leaf)) \<Rightarrow>
        let base = (if parent_path \<noteq> [] then internal_id (node_path_id parent_path) (we_id edge)
              else we_id edge);
            eid = (if 1 < pair_count then internal_id base (show_nat (pair_index + 1)) else base)
        in \<lparr>ce_id = eid, ce_source = node_path_id source_path, ce_target = node_path_id target_path,
            ce_sourcePort = boundary_edge_port env source_leaf OutputSide (we_sourcePort edge)
              (is_structural_container source),
            ce_targetPort = boundary_edge_port env target_leaf InputSide (we_targetPort edge)
              (is_structural_container target),
            ce_contractId = we_contractId edge, ce_condition = we_condition edge\<rparr>)"

definition expanded_edges ::
  "compiler_env \<Rightarrow> wf_edge list \<Rightarrow> wf_node list \<Rightarrow> string list \<Rightarrow> compiled_edge list"
where
  "expanded_edges env edges nodes parent_path =
     concat (map (\<lambda>e.
         case (index_by wn_id nodes (we_source e), index_by wn_id nodes (we_target e)) of
           (Some source, Some target) \<Rightarrow>
             let pairs = boundary_pairs source target parent_path
             in map (expanded_edge env parent_path e source target (length pairs)) (enumerate 0 pairs)
         | _ \<Rightarrow> []) edges)"

definition to_plan_edge :: "compiled_edge \<Rightarrow> plan_edge" where
  "to_plan_edge e = \<lparr>edge_id = ce_id e, edge_source_node = ce_source e, edge_source_port = ce_sourcePort e,
     edge_target_node = ce_target e, edge_target_port = ce_targetPort e\<rparr>"

section \<open>Packages\<close>

definition package_locked :: "wf_node \<Rightarrow> bool" where
  "package_locked node =
     (case wn_internals node of
        Some (WfInternals (Some locked) _ _) \<Rightarrow> locked
      | _ \<Rightarrow> (case nd_topicCollapse (wn_data node) of None \<Rightarrow> False | Some t \<Rightarrow> tc_mode t = ''locked''))"

definition json_option :: "('a \<Rightarrow> json) \<Rightarrow> 'a option \<Rightarrow> json" where
  "json_option f v = (case v of None \<Rightarrow> JNull | Some x \<Rightarrow> f x)"

definition dump_mini_network :: "mini_network \<Rightarrow> json" where
  "dump_mini_network m = JObj [(''nodes'', JInt (int (mn_nodes m))), (''edges'', JInt (int (mn_edges m))),
     (''mode'', JStr (mn_mode m))]"

definition dump_topic_collapse :: "topic_collapse \<Rightarrow> json" where
  "dump_topic_collapse t = JObj [(''groupId'', JStr (tc_groupId t)),
     (''nodeCount'', JInt (int (tc_nodeCount t))), (''mode'', JStr (tc_mode t)),
     (''packageInternal'', JBool (tc_packageInternal t))]"

definition package_metadata :: "wf_node \<Rightarrow> string list \<Rightarrow> json dict option" where
  "package_metadata node node_path =
     (if nd_topicCollapse (wn_data node) = None \<and> nd_miniNetwork (wn_data node) = None \<and>
         \<not> is_structural_container node \<and> \<not> is_managed_runtime_package node then None
      else
        let locked = package_locked node; managed = is_managed_runtime_package node;
            nid = node_path_id node_path
        in Some
          [(''miniNetwork'', json_option dump_mini_network (nd_miniNetwork (wn_data node))),
           (''topicCollapse'', json_option dump_topic_collapse (nd_topicCollapse (wn_data node))),
           (''locked'', JBool locked), (''editable'', JBool (\<not> locked)),
           (''managed'', JBool managed), (''structural'', JBool (\<not> managed)),
           (''executable'', JBool managed), (''node_path'', JList (map JStr node_path)),
           (''internal_node_ids'', JList (map (\<lambda>n. JStr (internal_id nid (wn_id n))) (inner_nodes node))),
           (''internal_edge_ids'', JList (map (\<lambda>e. JStr (internal_id nid (we_id e))) (inner_wires node)))])"

text \<open>The value a public parameter field hands down: by its own id, by the bound field, its default.\<close>

definition field_value :: "json dict \<Rightarrow> parameter_field \<Rightarrow> json" where
  "field_value params f =
     (case dict_get params (pf_id f) of
        Some v \<Rightarrow> v
      | None \<Rightarrow> (case dict_get params (pb_fieldId (pf_binding f)) of Some v \<Rightarrow> v | None \<Rightarrow> pf_value f))"

definition bind_field ::
  "wf_node \<Rightarrow> string list \<Rightarrow> parameter_field \<Rightarrow> (string \<Rightarrow> json dict) \<Rightarrow> string \<Rightarrow> json dict"
where
  "bind_field node node_path f params_by_node =
     (let value = field_value (wn_params node) f
      in if pb_source (pf_binding f) \<noteq> ''params'' \<or> value = JNull then params_by_node
         else case resolve_internal_binding_id (pb_nodeId (pf_binding f)) (wn_id ` set (inner_nodes node))
             (package_aliases node node_path) of
           None \<Rightarrow> params_by_node
         | Some i \<Rightarrow> params_by_node(i := dict_set (params_by_node i) (pb_fieldId (pf_binding f)) value))"

definition internal_params :: "wf_node \<Rightarrow> string \<Rightarrow> json dict" where
  "internal_params node i =
     (case index_by wn_id (inner_nodes node) i of None \<Rightarrow> [] | Some n \<Rightarrow> wn_params n)"

definition with_params :: "wf_node \<Rightarrow> json dict \<Rightarrow> wf_node" where
  "with_params node params = WfNode (wn_data node\<lparr>nd_params := params\<rparr>) (wn_internals node)"

definition bind_internal_parameters :: "wf_node \<Rightarrow> string list \<Rightarrow> wf_node list" where
  "bind_internal_parameters node node_path =
     (let public_fields = (case nd_parameterInterface (wn_data node) of None \<Rightarrow> [] | Some fs \<Rightarrow> fs);
          params_by_node = fold (bind_field node node_path) public_fields (internal_params node)
      in map (\<lambda>n. with_params
           (case index_by wn_id (inner_nodes node) (wn_id n) of Some m \<Rightarrow> m | None \<Rightarrow> n)
           (params_by_node (wn_id n))) (inner_nodes node))"

section \<open>Compiled nodes\<close>

definition compiled_node_params :: "wf_node \<Rightarrow> json dict" where
  "compiled_node_params node =
     (if \<not> is_managed_runtime_package node then wn_params node
      else case dict_get (wn_params node) ''compatRuntime'' of
          Some (JObj compat_runtime) \<Rightarrow> dict_set (wn_params node) ''compatRuntime''
            (JObj (filter (\<lambda>(k, _). k \<noteq> ''sourceContent'' \<and> k \<noteq> ''ephemeralGrants'') compat_runtime))
        | _ \<Rightarrow> wn_params node)"

text \<open>\<open>model_dump(exclude_none=True)\<close> of a node origin.\<close>

definition dump_origin :: "node_origin \<Rightarrow> json" where
  "dump_origin origin =
     (let opt = (\<lambda>key f v. case v of None \<Rightarrow> [] | Some x \<Rightarrow> [(key, f x)])
      in JObj ([(''kind'', JStr (og_kind origin))] @ opt ''catalog_id'' JStr (og_catalog_id origin) @
        opt ''primitive_id'' JStr (og_primitive_id origin) @
        (case og_n8n origin of None \<Rightarrow> [] | Some d \<Rightarrow> [(''n8n'', JObj d)]) @
        opt ''missing_capability'' JStr (og_missing_capability origin) @
        [(''notes'', JList (map JStr (og_notes origin)))]))"

definition compile_node ::
  "compiler_env \<Rightarrow> wf_node \<Rightarrow> wf_adapter option \<Rightarrow> string list \<Rightarrow> string \<Rightarrow> json dict option \<Rightarrow>
   json dict \<Rightarrow> compiled_node"
where
  "compile_node env node adapter depends_on id_override package runtime =
     (let nid = (if id_override = [] then wn_id node else id_override);
          base = [(''node_id'', JStr nid), (''authoring_node_id'', JStr (wn_id node)),
            (''status_anchor'', JStr nid), (''capability'', JStr (nd_capability (wn_data node))),
            (''dispatch'', JStr ''preview''),
            (''origin'', dump_origin (resolve_node_origin (ev_registry env) node))] @
            (case nd_proposalState (wn_data node) of None \<Rightarrow> [] | Some p \<Rightarrow> [(''proposal_state'', JStr p)]);
          merged = dict_update base runtime;
          named = (if nd_kind (wn_data node) = ''source''
            then (case read_stripped (dict_get (wn_ui node) ''label'') of
                None \<Rightarrow> merged | Some label \<Rightarrow> dict_set merged ''display_name'' (JStr label))
            else merged);
          metadata = (if is_structural_container node
            then dict_update named [(''structural'', JBool True), (''executable'', JBool False)]
            else dict_update named (ev_runtime env node adapter nid))
      in \<lparr>cn_id = nid, cn_kind = nd_kind (wn_data node), cn_capability = nd_capability (wn_data node),
          cn_params = compiled_node_params node, cn_depends_on = depends_on, cn_adapter = adapter,
          cn_sourceAnchor = nd_sourceAnchor (wn_data node), cn_runArtifact = nd_runArtifact (wn_data node),
          cn_package = package, cn_runtime = metadata\<rparr>)"

section \<open>Plan IR nodes\<close>

definition raw_library_id :: "wf_node \<Rightarrow> json option" where
  "raw_library_id node =
     (let pid = dict_get (wn_ui node) ''primitiveId''
      in if py_truthy pid then pid else dict_get (wn_ui node) ''catalogId'')"

text \<open>The membership test in \<open>_plan_ports_for_node\<close> raises on an unhashable id.\<close>

definition plan_ports_raise :: "wf_node \<Rightarrow> bool" where
  "plan_ports_raise node \<longleftrightarrow>
     (case raw_library_id node of Some (JList _) \<Rightarrow> True | Some (JObj _) \<Rightarrow> True | _ \<Rightarrow> False)"

definition plan_port_of :: "port_contract \<Rightarrow> plan_port" where
  "plan_port_of p = \<lparr>port_name = pc_id p, port_type = pc_type p\<rparr>"

definition plan_ports_for_node ::
  "compiler_env \<Rightarrow> wf_node \<Rightarrow> node_kind \<Rightarrow> nat option \<Rightarrow> plan_port list \<times> plan_port list"
where
  "plan_ports_for_node env node kind merge_fan_in =
     (let cid = dict_get (wn_ui node) ''catalogId'';
          port = (\<lambda>name ty. \<lparr>port_name = name, port_type = ty\<rparr>);
          fan_in = max 2 (case merge_fan_in of None \<Rightarrow> 2 | Some k \<Rightarrow> if k = 0 then 2 else k)
      in if List.member (map (Some \<circ> JStr) webhook_trigger_ids) (raw_library_id node)
           then ([], [port ''request'' ''webhookRequest''])
         else if cid = Some (JStr ''intelligence.input.collection-need'')
           then ([port ''in'' ''collectionNeed''], [port ''patch'' ''workflowPatch''])
         else if cid = Some (JStr ''intelligence.flow.merge'')
           then (map (\<lambda>i. port (''in'' @ show_nat i) ''recordCandidate[]'') [1..<fan_in + 1],
             [port ''out'' ''recordCandidate[]''])
         else if cid = Some (JStr ''intelligence.control.record-acceptance'')
           then ([port ''candidates'' ''recordCandidate[]''], [port ''records'' ''record[]''])
         else if cid = Some (JStr ''intelligence.sink.records'')
           then ([port ''records'' ''record[]''], [port ''stored'' ''storedItems[]''])
         else if cid = Some (JStr ''intelligence.sink.feishu-bitable'')
           then ([port ''records'' ''storedItems[]''], [port ''delivery'' ''deliveryAttempt[]''])
         else case node_port_contracts env node of
             Some (inputs, outputs) \<Rightarrow> (map plan_port_of inputs, map plan_port_of outputs)
           | None \<Rightarrow> ([port ''records'' ''any''],
               if kind = SinkKind then [] else [port ''records'' ''any'']))"

definition plan_kind :: "wf_node \<Rightarrow> node_kind" where
  "plan_kind node =
     (let kind = nd_kind (wn_data node)
      in if List.member [''schedule'', ''source''] kind then SourceKind
         else if List.member [''notify'', ''inbox'', ''sink''] kind then SinkKind
         else if kind = ''flow'' \<and> nd_capability (wn_data node) = ''merge'' then MergeKind
         else TransformKind)"

definition to_plan_node ::
  "compiler_env \<Rightarrow> wf_node \<Rightarrow> string \<Rightarrow> string list \<Rightarrow> nat option \<Rightarrow> plan_node"
where
  "to_plan_node env node id_override node_path merge_fan_in =
     (let kind = plan_kind node; ports = plan_ports_for_node env node kind merge_fan_in;
          structural = is_structural_container node
      in \<lparr>node_id = (if id_override = [] then wn_id node else id_override), node_kind = kind,
          node_type = ''workflow.'' @ nd_kind (wn_data node) @ ''.'' @ nd_capability (wn_data node),
          node_label = Some (wn_id node),
          node_params = dict_set (compiled_node_params node) ''workflow'' (JObj
            [(''kind'', JStr (nd_kind (wn_data node))),
             (''capability'', JStr (nd_capability (wn_data node))),
             (''adapter'', json_option JStr (nd_adapter (wn_data node))),
             (''node_path'', JList (map JStr (if node_path = [] then [wn_id node] else node_path))),
             (''structural'', JBool structural), (''executable'', JBool (\<not> structural))]),
          node_required_params = [], node_inputs = fst ports, node_outputs = snd ports,
          node_source_id = None, node_draft = (kind = SourceKind)\<rparr>)"

section \<open>The tree\<close>

record compile_state =
  cs_nodes :: "compiled_node list"
  cs_edges :: "compiled_edge list"
  cs_plan_nodes :: "plan_node list"
  cs_plan_edges :: "plan_edge list"
  cs_raised :: bool

definition append_expanded_edges ::
  "compiler_env \<Rightarrow> wf_edge list \<Rightarrow> wf_node list \<Rightarrow> string list \<Rightarrow> compile_state \<Rightarrow> compile_state"
where
  "append_expanded_edges env edges nodes parent_path st =
     (let new = expanded_edges env edges nodes parent_path
      in st\<lparr>cs_edges := cs_edges st @ new, cs_plan_edges := cs_plan_edges st @ map to_plan_edge new\<rparr>)"

definition ancestor_package_locked :: "string list \<Rightarrow> compiled_node list \<Rightarrow> bool" where
  "ancestor_package_locked node_path compiled =
     (if length node_path \<le> 1 then False
      else case index_by cn_id compiled (node_path_id (butlast node_path)) of
          None \<Rightarrow> False
        | Some parent \<Rightarrow>
            (case cn_package parent of
               None \<Rightarrow> False | Some d \<Rightarrow> py_truthy (dict_get d ''locked'')) \<or>
            dict_get (cn_runtime parent) ''editable'' = Some (JBool False))"

definition tree_runtime :: "wf_node \<Rightarrow> string list \<Rightarrow> compiled_node list \<Rightarrow> json dict" where
  "tree_runtime node node_path compiled =
     [(''node_path'', JList (map JStr node_path)), (''structural'', JBool (is_structural_container node)),
      (''executable'', JBool (\<not> is_structural_container node))] @
     (if 1 < length node_path
      then [(''package_parent_id'', JStr (node_path_id (butlast node_path))),
        (''package_internal_id'', JStr (wn_id node)),
        (''editable'', JBool (\<not> ancestor_package_locked node_path compiled))]
      else [])"

definition compile_tree_node ::
  "compiler_env \<Rightarrow> wf_adapter list \<Rightarrow> wf_node \<Rightarrow> string list \<Rightarrow> string list \<Rightarrow> compile_state \<Rightarrow> compile_state"
where
  "compile_tree_node env adapters node node_path depends_on st =
     st\<lparr>cs_nodes := cs_nodes st @ [compile_node env node
          (index_by ad_id adapters (case nd_adapter (wn_data node) of None \<Rightarrow> [] | Some a \<Rightarrow> a))
          depends_on (node_path_id node_path) (package_metadata node node_path)
          (tree_runtime node node_path (cs_nodes st))],
        cs_plan_nodes := cs_plan_nodes st @ [to_plan_node env node (node_path_id node_path) node_path None],
        cs_raised := (cs_raised st \<or> plan_ports_raise node)\<rparr>"

lemma size_with_params [simp]: "size (with_params node params) = size node"
  by (cases node) (simp add: with_params_def)

lemma bound_node_cases:
  assumes "n \<in> set (bind_internal_parameters node node_path)"
  obtains m params where "m \<in> set (inner_nodes node)" "n = with_params m params"
proof -
  from assms obtain k params where k: "k \<in> set (inner_nodes node)"
    "n = with_params (case index_by wn_id (inner_nodes node) (wn_id k) of Some m \<Rightarrow> m | None \<Rightarrow> k) params"
    by (auto simp: bind_internal_parameters_def Let_def)
  then show thesis
    using that by (cases "index_by wn_id (inner_nodes node) (wn_id k)") (auto dest: index_by_Some_in)
qed

lemma bound_node_size: "n \<in> set (bind_internal_parameters node node_path) \<Longrightarrow> size n < size node"
  by (erule bound_node_cases) (simp add: inner_nodes_size)

function compile_node_tree ::
  "compiler_env \<Rightarrow> wf_adapter list \<Rightarrow> wf_node \<Rightarrow> string list \<Rightarrow> string list \<Rightarrow> compile_state \<Rightarrow> compile_state"
where
  "compile_node_tree env adapters node node_path depends_on st =
     (let st1 = compile_tree_node env adapters node node_path depends_on st
      in if \<not> is_structural_container node then st1
         else
           let bound = bind_internal_parameters node node_path;
               internal_depends_on = expanded_dependency_map bound (inner_wires node) node_path;
               st2 = fold (\<lambda>n s. compile_node_tree env adapters n (node_path @ [wn_id n])
                 (if internal_depends_on (wn_id n) = [] then depends_on else internal_depends_on (wn_id n)) s)
                 bound st1
           in append_expanded_edges env (inner_wires node) bound node_path st2)"
  by pat_completeness auto

termination compile_node_tree
  by (relation "measure (\<lambda>(env, adapters, node, node_path, depends_on, st). size node)")
    (auto simp: bound_node_size)

declare compile_node_tree.simps [simp del]

section \<open>The compiler\<close>

fun update_last :: "('a \<Rightarrow> bool) \<Rightarrow> ('a \<Rightarrow> 'a) \<Rightarrow> 'a list \<Rightarrow> 'a list" where
  "update_last P f [] = []"
| "update_last P f (x # xs) = (if P x \<and> \<not> list_ex P xs then f x # xs else x # update_last P f xs)"

text \<open>One round of \<open>_widen_merge_fan_in\<close>; with duplicate ids the last node is the one in the index.\<close>

definition widen_step :: "plan_edge \<Rightarrow> plan_node list \<Rightarrow> plan_node list" where
  "widen_step e nodes =
     (case index_by node_id nodes (edge_target_node e) of
        None \<Rightarrow> nodes
      | Some n \<Rightarrow>
          if node_kind n \<noteq> MergeKind \<or> \<not> is_merge_port (edge_target_port e) \<or>
            edge_target_port e \<in> port_name ` set (node_inputs n) then nodes
          else update_last (\<lambda>m. node_id m = edge_target_node e)
            (\<lambda>m. m\<lparr>node_inputs := node_inputs m @
               [\<lparr>port_name = edge_target_port e, port_type = ''recordCandidate[]''\<rparr>]\<rparr>) nodes)"

definition widen_merge_fan_in :: "plan_graph \<Rightarrow> plan_graph" where
  "widen_merge_fan_in plan = plan\<lparr>graph_nodes := fold widen_step (graph_edges plan) (graph_nodes plan)\<rparr>"

record authoring_metadata =
  am_project_id :: string
  am_project_name :: string
  am_project_version :: nat
  am_profile :: string
  am_node_count :: nat
  am_edge_count :: nat
  am_adapter_count :: nat
  am_settings :: json
  am_agentPermissions :: json

record compiled_preview =
  cp_authoring :: authoring_metadata
  cp_node_ids :: "string list"
  cp_nodes :: "compiled_node list"
  cp_edges :: "compiled_edge list"
  cp_plan_ir :: plan_graph

datatype compile_response =
    CompileRaised
  | CompileInvalid "compile_error list"
  | CompileValid compiled_preview

definition compile_roots :: "compiler_env \<Rightarrow> wf_project \<Rightarrow> compile_state" where
  "compile_roots env project =
     (let depends_on = expanded_dependency_map (pj_nodes project) (pj_edges project) []
      in fold (\<lambda>n st. compile_node_tree env (pj_adapters project) n [wn_id n] (depends_on (wn_id n)) st)
        (pj_nodes project) \<lparr>cs_nodes = [], cs_edges = [], cs_plan_nodes = [], cs_plan_edges = [], cs_raised = False\<rparr>)"

definition plan_ir_error :: "plan_validation_error \<Rightarrow> compile_error" where
  "plan_ir_error e = \<lparr>er_code = ''plan_ir_'' @ ve_code e, er_node_id = ve_node_id e,
     er_edge_id = ve_edge_id e, er_path = [''plan'', ''runtime'', ''plan_ir'']\<rparr>"

definition authoring_of :: "wf_project \<Rightarrow> authoring_metadata" where
  "authoring_of project = \<lparr>am_project_id = pj_id project, am_project_name = pj_name project,
     am_project_version = pj_version project, am_profile = pj_profile project,
     am_node_count = length (pj_nodes project), am_edge_count = length (pj_edges project),
     am_adapter_count = length (pj_adapters project), am_settings = pj_settings project,
     am_agentPermissions = pj_agentPermissions project\<rparr>"

definition compile_workflow_project :: "compiler_env \<Rightarrow> wf_project \<Rightarrow> compile_response" where
  "compile_workflow_project env authored =
     (let project = ev_materialize env authored; errors = validate_project env project
      in if errors \<noteq> [] then CompileInvalid errors
         else
           let st = compile_roots env project;
               root = expanded_edges env (pj_edges project) (pj_nodes project) [];
               nodes = topologically_order_compiled_nodes (cs_nodes st);
               plan_ir = widen_merge_fan_in \<lparr>graph_ir_version = PLAN_IR_VERSION,
                 graph_name = Some (pj_name project), graph_draft = True, graph_nodes = cs_plan_nodes st,
                 graph_edges = map to_plan_edge root @ cs_plan_edges st\<rparr>;
               plan_validation = validate_plan_graph (ev_registry env) (ev_parse_pin env) False plan_ir
           in if cs_raised st then CompileRaised
              else if \<not> valid plan_validation
                then CompileInvalid (map plan_ir_error (pvr_errors plan_validation))
              else CompileValid \<lparr>cp_authoring = authoring_of project, cp_node_ids = map cn_id nodes,
                cp_nodes = nodes, cp_edges = root @ cs_edges st, cp_plan_ir = plan_ir\<rparr>)"

end
