(* ===== verification/CompiledTree.thy ===== *)
theory CompiledTree
  imports WorkflowCompiler
begin

text \<open>
  What the recursion over packages produces, as two pure functions of the node: the paths with
  their dependencies (\<open>tree_nodes\<close>, with a mark on executable leaves) and the compiled
  edges (\<open>tree_edges\<close>). The state-passing compiler computes both; the dependencies of every
  leaf are then compared with the edges that end at it.
\<close>

section \<open>The tree without the state\<close>

definition child_deps :: "wf_node \<Rightarrow> string list \<Rightarrow> string list \<Rightarrow> wf_node \<Rightarrow> string list" where
  "child_deps node node_path deps n =
     (let up = expanded_dependency_map (bind_internal_parameters node node_path) (inner_wires node) node_path
        (wn_id n)
      in if up = [] then deps else up)"

function tree_nodes :: "wf_node \<Rightarrow> string list \<Rightarrow> string list \<Rightarrow> (string list \<times> bool \<times> string list) list" where
  "tree_nodes node node_path deps =
     (node_path, \<not> is_structural_container node, deps) #
     (if is_structural_container node
      then concat (map (\<lambda>n. tree_nodes n (node_path @ [wn_id n]) (child_deps node node_path deps n))
        (bind_internal_parameters node node_path))
      else [])"
  by pat_completeness auto

termination tree_nodes
  by (relation "measure (\<lambda>(node, node_path, deps). size node)") (auto simp: bound_node_size)

function tree_edges :: "compiler_env \<Rightarrow> wf_node \<Rightarrow> string list \<Rightarrow> compiled_edge list" where
  "tree_edges env node node_path =
     (if is_structural_container node
      then concat (map (\<lambda>n. tree_edges env n (node_path @ [wn_id n])) (bind_internal_parameters node node_path)) @
        expanded_edges env (inner_wires node) (bind_internal_parameters node node_path) node_path
      else [])"
  by pat_completeness auto

termination tree_edges
  by (relation "measure (\<lambda>(env, node, node_path). size node)") (auto simp: bound_node_size)

declare tree_nodes.simps [simp del] tree_edges.simps [simp del]

text \<open>What the four lists keep of the nodes.\<close>

definition plan_executable :: "plan_node \<Rightarrow> bool" where
  "plan_executable n \<longleftrightarrow>
     (case dict_get (node_params n) ''workflow'' of
        Some (JObj d) \<Rightarrow> dict_get d ''executable'' = Some (JBool True) | _ \<Rightarrow> False)"

definition entry_deps :: "string list \<times> bool \<times> string list \<Rightarrow> string \<times> string list" where
  "entry_deps x = (node_path_id (fst x), snd (snd x))"

definition entry_mark :: "string list \<times> bool \<times> string list \<Rightarrow> string \<times> bool" where
  "entry_mark x = (node_path_id (fst x), fst (snd x))"

definition extends_by ::
  "compile_state \<Rightarrow> (string list \<times> bool \<times> string list) list \<Rightarrow> compiled_edge list \<Rightarrow> compile_state \<Rightarrow> bool"
where
  "extends_by st entries edges st' \<longleftrightarrow>
     map (\<lambda>n. (cn_id n, cn_depends_on n)) (cs_nodes st') =
       map (\<lambda>n. (cn_id n, cn_depends_on n)) (cs_nodes st) @ map entry_deps entries \<and>
     map (\<lambda>n. (node_id n, plan_executable n)) (cs_plan_nodes st') =
       map (\<lambda>n. (node_id n, plan_executable n)) (cs_plan_nodes st) @ map entry_mark entries \<and>
     cs_edges st' = cs_edges st @ edges \<and> cs_plan_edges st' = cs_plan_edges st @ map to_plan_edge edges"

lemma extends_by_trans:
  "extends_by st xs es st' \<Longrightarrow> extends_by st' ys fs st'' \<Longrightarrow> extends_by st (xs @ ys) (es @ fs) st''"
  by (simp add: extends_by_def)

lemma extends_by_fold:
  assumes "\<And>n st. n \<in> set ns \<Longrightarrow> extends_by st (f n) (g n) (h n st)"
  shows "extends_by st (concat (map f ns)) (concat (map g ns)) (fold h ns st)"
  using assms
proof (induction ns arbitrary: st)
  case Nil
  then show ?case by (simp add: extends_by_def)
next
  case (Cons n ns)
  have "extends_by (h n st) (concat (map f ns)) (concat (map g ns)) (fold h ns (h n st))"
    using Cons by simp
  from extends_by_trans[OF Cons.prems[of n st] this] show ?case by simp
qed

lemma compile_tree_node_extends:
  assumes "node_path_id node_path = [] \<longrightarrow> wn_id node = []"
  shows "extends_by st [(node_path, \<not> is_structural_container node, deps)] []
    (compile_tree_node env adapters node node_path deps st)"
  using assms by (simp add: extends_by_def compile_tree_node_def compile_node_def to_plan_node_def
      plan_executable_def entry_deps_def entry_mark_def dict_get_def Let_def)

lemma append_edges_extends:
  "extends_by st [] (expanded_edges env edges nodes path) (append_expanded_edges env edges nodes path st)"
  by (simp add: extends_by_def append_expanded_edges_def Let_def)

lemma nested_path_id_nonempty: "path \<noteq> [] \<Longrightarrow> node_path_id (path @ [i]) \<noteq> []"
  by (simp add: node_path_id_def join_with_append INTERNAL_ID_SEPARATOR_def)

lemma compile_node_tree_extends:
  assumes "node_path \<noteq> []" and "node_path_id node_path = [] \<longrightarrow> wn_id node = []"
  shows "extends_by st (tree_nodes node node_path deps) (tree_edges env node node_path)
    (compile_node_tree env adapters node node_path deps st)"
  using assms
proof (induction env adapters node node_path deps st rule: compile_node_tree.induct)
  case (1 env adapters node node_path deps st)
  note first = compile_tree_node_extends[OF 1(3), of st deps env adapters]
  show ?case
  proof (cases "is_structural_container node")
    case False
    with first show ?thesis by (simp add: compile_node_tree.simps tree_nodes.simps tree_edges.simps)
  next
    case True
    let ?bound = "bind_internal_parameters node node_path"
    let ?h = "\<lambda>n s. compile_node_tree env adapters n (node_path @ [wn_id n]) (child_deps node node_path deps n) s"
    let ?st1 = "compile_tree_node env adapters node node_path deps st"
    have "extends_by s (tree_nodes n (node_path @ [wn_id n]) (child_deps node node_path deps n))
        (tree_edges env n (node_path @ [wn_id n])) (?h n s)" if "n \<in> set ?bound" for n s
      using 1(1)[OF refl _ refl refl that] True nested_path_id_nonempty[OF 1(2)] by (simp add: child_deps_def Let_def)
    from extends_by_trans[OF first extends_by_fold[OF this]]
    have "extends_by st (tree_nodes node node_path deps)
        (concat (map (\<lambda>n. tree_edges env n (node_path @ [wn_id n])) ?bound)) (fold ?h ?bound ?st1)"
      using True by (simp add: tree_nodes.simps[of node])
    from extends_by_trans[OF this append_edges_extends[of _ env "inner_wires node" ?bound node_path]] True
    show ?thesis
      by (simp add: compile_node_tree.simps[of _ _ node] tree_edges.simps[of _ node] Let_def child_deps_def)
  qed
qed

section \<open>Binding keeps the shape\<close>

lemma with_params_simps [simp]:
  "wn_id (with_params m params) = wn_id m" "wn_internals (with_params m params) = wn_internals m"
  "inner_nodes (with_params m params) = inner_nodes m" "inner_wires (with_params m params) = inner_wires m"
  "wn_params (with_params m params) = params"
  "nd_parameterInterface (wn_data (with_params m params)) = nd_parameterInterface (wn_data m)"
  by (simp_all add: with_params_def inner_nodes_def inner_wires_def)

lemma bound_ids: "map wn_id (bind_internal_parameters node node_path) = map wn_id (inner_nodes node)"
  by (auto simp: bind_internal_parameters_def Let_def split: option.splits dest: index_by_Some_in)

text \<open>
  No public field of a package, at any depth, writes the parameter that decides whether an
  internal package is expanded or handed to a managed runtime.
\<close>

function keeps_execution :: "wf_node \<Rightarrow> bool" where
  "keeps_execution node \<longleftrightarrow>
     (case nd_parameterInterface (wn_data node) of
        None \<Rightarrow> True
      | Some fs \<Rightarrow> list_all (\<lambda>f. pb_fieldId (pf_binding f) \<noteq> ''packageExecution'') fs) \<and>
     (\<forall>n \<in> set (inner_nodes node). keeps_execution n)"
  by pat_completeness auto

termination keeps_execution
  by (relation "measure size") (auto simp: inner_nodes_size)

declare keeps_execution.simps [simp del]

lemma bind_field_other:
  "pb_fieldId (pf_binding f) \<noteq> key \<Longrightarrow> dict_get (bind_field node path f ps i) key = dict_get (ps i) key"
  by (auto simp: bind_field_def Let_def dict_get_def split: option.splits)

lemma bind_fields_other:
  "list_all (\<lambda>f. pb_fieldId (pf_binding f) \<noteq> key) fs \<Longrightarrow>
     dict_get (fold (bind_field node path) fs ps i) key = dict_get (ps i) key"
  by (induction fs arbitrary: ps) (simp_all add: bind_field_other)

lemma bound_node:
  assumes "keeps_execution node" and "distinct (map wn_id (inner_nodes node))"
    and "n \<in> set (bind_internal_parameters node path)"
  obtains m where "m \<in> set (inner_nodes node)" "wn_id n = wn_id m" "wn_internals n = wn_internals m"
    "is_structural_container n = is_structural_container m" "keeps_execution n"
proof -
  let ?fs = "case nd_parameterInterface (wn_data node) of None \<Rightarrow> [] | Some fs \<Rightarrow> fs"
  have "list_all (\<lambda>f. pb_fieldId (pf_binding f) \<noteq> ''packageExecution'') ?fs"
    using assms(1) by (subst (asm) keeps_execution.simps) (auto split: option.splits)
  from bind_fields_other[OF this]
  have keep: "dict_get (fold (bind_field node path) ?fs (internal_params node) i) ''packageExecution'' =
      dict_get (internal_params node i) ''packageExecution''" for i .
  from assms(3) obtain m where m: "m \<in> set (inner_nodes node)"
    "n = with_params (case index_by wn_id (inner_nodes node) (wn_id m) of Some k \<Rightarrow> k | None \<Rightarrow> m)
       (fold (bind_field node path) ?fs (internal_params node) (wn_id m))"
    by (auto simp: bind_internal_parameters_def Let_def)
  have idx: "index_by wn_id (inner_nodes node) (wn_id m) = Some m" by (rule index_by_distinct[OF assms(2) m(1)])
  with m(2) have n: "n = with_params m (fold (bind_field node path) ?fs (internal_params node) (wn_id m))" by simp
  have "keeps_execution m" using assms(1) m(1) by (subst (asm) keeps_execution.simps) blast
  then have "keeps_execution n"
    unfolding keeps_execution.simps[of n] keeps_execution.simps[of m] unfolding n by simp
  moreover have "is_structural_container n = is_structural_container m"
    using keep[of "wn_id m"] unfolding n
    by (simp add: is_structural_container_def is_managed_runtime_package_def has_internals_inner
        internal_params_def idx)
  ultimately show thesis using that[of m] m(1) n by simp
qed

lemma sound_package_same_shape:
  assumes "sound_package m" and "wn_internals n = wn_internals m"
    and "is_structural_container n = is_structural_container m"
  shows "sound_package n"
proof -
  have "inner_nodes n = inner_nodes m" "inner_wires n = inner_wires m"
    using assms(2) by (simp_all add: inner_nodes_def inner_wires_def)
  with assms show ?thesis by (cases rule: sound_package.cases) (auto intro: sound_package.intros)
qed

lemma boundary_unfold:
  "boundary_nodes node path dir =
     (if \<not> is_structural_container node then [(path, node)]
      else concat (map (\<lambda>n. boundary_nodes n (path @ [wn_id n]) dir)
        (filter (\<lambda>n. wn_id n \<notin> edge_end dir ` set (inner_wires node)) (inner_nodes node))))"
  by (subst boundary_nodes.simps) (auto simp: is_structural_container_def)

lemma boundary_paths_same_shape:
  assumes "wn_internals n = wn_internals m" and "is_structural_container n = is_structural_container m"
  shows "boundary_node_paths n path dir = boundary_node_paths m path dir"
proof -
  have "inner_nodes n = inner_nodes m" "inner_wires n = inner_wires m"
    using assms(1) by (simp_all add: inner_nodes_def inner_wires_def)
  then show ?thesis
    unfolding boundary_node_paths_def boundary_unfold[of n] boundary_unfold[of m] assms(2) by simp
qed

lemma boundary_paths_container:
  "is_structural_container node \<Longrightarrow>
     set (boundary_node_paths node path dir) =
       (\<Union>n \<in> {n \<in> set (inner_nodes node). wn_id n \<notin> edge_end dir ` set (inner_wires node)}.
          set (boundary_node_paths n (path @ [wn_id n]) dir))"
  unfolding boundary_node_paths_def boundary_unfold[of node] by auto

lemma boundary_paths_leaf: "\<not> is_structural_container node \<Longrightarrow> boundary_node_paths node path dir = [path]"
  by (simp add: boundary_node_paths_def boundary_unfold)

text \<open>In an acyclic level some node has no outgoing edge, so a sound package has an output.\<close>

lemma level_has_output:
  assumes "sound_level nodes edges" and "nodes \<noteq> []"
  shows "\<exists>n \<in> set nodes. wn_id n \<notin> we_source ` set edges"
proof -
  let ?flow = "wf_flow edges"
  have flow: "?flow \<subseteq> wn_id ` set nodes \<times> wn_id ` set nodes" and "acyclic ?flow"
    using assms(1) by (auto simp: sound_level_def wf_flow_def)
  moreover have "finite ?flow" using finite_subset[OF flow] by simp
  ultimately have "wf (?flow\<inverse>)" by (simp add: finite_acyclic_wf_converse)
  moreover have "wn_id (hd nodes) \<in> wn_id ` set nodes" using assms(2) by simp
  ultimately obtain z where z: "z \<in> wn_id ` set nodes" "\<And>y. (y, z) \<in> ?flow\<inverse> \<Longrightarrow> y \<notin> wn_id ` set nodes"
    by (rule wfE_min) blast
  then obtain n where "n \<in> set nodes" "z = wn_id n" by auto
  moreover have "z \<notin> we_source ` set edges"
  proof
    assume "z \<in> we_source ` set edges"
    then obtain e where "e \<in> set edges" "z = we_source e" by auto
    then have "(z, we_target e) \<in> ?flow" by (auto simp: wf_flow_def)
    with z(2)[of "we_target e"] flow show False by auto
  qed
  ultimately show ?thesis by blast
qed

lemma sound_package_output: "sound_package node \<Longrightarrow> boundary_node_paths node path OutputSide \<noteq> []"
proof (induction arbitrary: path rule: sound_package.induct)
  case (sound_leaf node)
  then show ?case by (simp add: boundary_paths_leaf)
next
  case (sound_container node)
  then have "inner_nodes node \<noteq> []" by (simp add: is_structural_container_def has_internals_inner)
  from level_has_output[OF sound_container(2) this]
  obtain n where n: "n \<in> set (inner_nodes node)" "wn_id n \<notin> we_source ` set (inner_wires node)" by blast
  have "edge_end OutputSide = we_source" by (rule ext) simp
  then have "set (boundary_node_paths n (path @ [wn_id n]) OutputSide) \<subseteq> set (boundary_node_paths node path OutputSide)"
    using n unfolding boundary_paths_container[OF sound_container(1)] by auto
  moreover have "boundary_node_paths n (path @ [wn_id n]) OutputSide \<noteq> []" by (rule sound_container(4)[OF n(1)])
  ultimately show ?case by (metis set_empty subset_empty)
qed

section \<open>Dependencies and edges of one level\<close>

definition links :: "compiled_edge list \<Rightarrow> (string \<times> string) set" where
  "links es = (\<lambda>e. (ce_source e, ce_target e)) ` set es"

lemma links_append [simp]: "links (xs @ ys) = links xs \<union> links ys"
  by (auto simp: links_def)

lemma links_concat: "links (concat xss) = (\<Union>xs \<in> set xss. links xs)"
  by (auto simp: links_def)

lemma dependency_map_iff:
  "u \<in> set (expanded_dependency_map nodes edges path t) \<longleftrightarrow>
     (\<exists>e \<in> set edges. we_target e = t \<and> (\<exists>s. index_by wn_id nodes (we_source e) = Some s \<and>
        u \<in> node_path_id ` set (boundary_node_paths s (path @ [wn_id s]) OutputSide)))"
  by (auto simp: expanded_dependency_map_def split: option.splits) (metis imageI)

lemma expanded_edge_ends:
  "(\<lambda>e. (ce_source e, ce_target e)) ` expanded_edge env path e s t k ` set (enumerate i pairs) =
     (\<lambda>((p, _), (q, _)). (node_path_id p, node_path_id q)) ` set pairs"
  by (induction pairs arbitrary: i)
    (auto simp: expanded_edge_def Let_def enumerate_eq_zip[of _ "_ # _"] split: prod.splits)

lemma links_expanded_edges:
  "(u, v) \<in> links (expanded_edges env edges nodes path) \<longleftrightarrow>
     (\<exists>e \<in> set edges. \<exists>s t. index_by wn_id nodes (we_source e) = Some s \<and>
        index_by wn_id nodes (we_target e) = Some t \<and>
        u \<in> node_path_id ` set (boundary_node_paths s (path @ [wn_id s]) OutputSide) \<and>
        v \<in> node_path_id ` set (boundary_node_paths t (path @ [wn_id t]) InputSide))"
proof -
  have "links (map (expanded_edge env path e s t k) (enumerate 0 (boundary_pairs s t path))) =
      node_path_id ` set (boundary_node_paths s (path @ [wn_id s]) OutputSide) \<times>
      node_path_id ` set (boundary_node_paths t (path @ [wn_id t]) InputSide)" for e s t k
    unfolding links_def set_map expanded_edge_ends by (force simp: boundary_pairs_def boundary_node_paths_def)
  note pair_links = this
  show ?thesis
    unfolding expanded_edges_def links_concat
    by (auto simp: Let_def pair_links split: option.splits) (force simp: links_def)+
qed

lemma level_link:
  assumes "distinct (map wn_id nodes)" and "n \<in> set nodes"
    and "u \<in> set (expanded_dependency_map nodes edges path (wn_id n))"
    and "p \<in> set (boundary_node_paths n (path @ [wn_id n]) InputSide)"
  shows "(u, node_path_id p) \<in> links (expanded_edges env edges nodes path)"
  using assms(3,4) index_by_distinct[OF assms(1,2)]
  unfolding links_expanded_edges dependency_map_iff by (metis imageI)

lemma level_link_back:
  assumes "(u, v) \<in> links (expanded_edges env edges nodes path)"
  obtains n p where "n \<in> set nodes" "p \<in> set (boundary_node_paths n (path @ [wn_id n]) InputSide)"
    "v = node_path_id p" "u \<in> set (expanded_dependency_map nodes edges path (wn_id n))"
proof -
  from assms obtain e s t where e: "e \<in> set edges" "index_by wn_id nodes (we_source e) = Some s"
    "index_by wn_id nodes (we_target e) = Some t"
    "u \<in> node_path_id ` set (boundary_node_paths s (path @ [wn_id s]) OutputSide)"
    "v \<in> node_path_id ` set (boundary_node_paths t (path @ [wn_id t]) InputSide)"
    unfolding links_expanded_edges by blast
  have t: "t \<in> set nodes" "we_target e = wn_id t" using index_by_Some_in[OF e(3)] by auto
  from e(5) obtain p where p: "p \<in> set (boundary_node_paths t (path @ [wn_id t]) InputSide)" "v = node_path_id p"
    by blast
  have "u \<in> set (expanded_dependency_map nodes edges path (wn_id t))"
    unfolding dependency_map_iff using e(1,2,4) t(2) by blast
  with that t(1) p show thesis by blast
qed

text \<open>A node that nothing feeds has no incoming edge: no edge is lost when packages are expanded.\<close>

lemma level_unfed:
  assumes "we_source ` set edges \<subseteq> wn_id ` set nodes" and "\<And>n. n \<in> set nodes \<Longrightarrow> sound_package n"
    and "expanded_dependency_map nodes edges path t = []"
  shows "t \<notin> we_target ` set edges"
proof
  assume "t \<in> we_target ` set edges"
  then obtain e where e: "e \<in> set edges" "we_target e = t" by auto
  then obtain s where s: "index_by wn_id nodes (we_source e) = Some s" "s \<in> set nodes"
    using assms(1) index_by_ex[of "we_source e" wn_id nodes] by blast
  obtain q where "q \<in> set (boundary_node_paths s (path @ [wn_id s]) OutputSide)"
    using sound_package_output[OF assms(2)[OF s(2)]] by (meson last_in_set)
  then have "node_path_id q \<in> set (expanded_dependency_map nodes edges path t)"
    unfolding dependency_map_iff using e s by blast
  with assms(3) show False by simp
qed

section \<open>Dependencies and edges of the tree\<close>

lemma container_level:
  assumes "sound_package node" and "is_structural_container node" and "keeps_execution node"
  shows "distinct (map wn_id (bind_internal_parameters node path))"
    and "we_source ` set (inner_wires node) \<subseteq> wn_id ` set (bind_internal_parameters node path)"
    and "n \<in> set (bind_internal_parameters node path) \<Longrightarrow> sound_package n \<and> keeps_execution n"
    and "n \<in> set (bind_internal_parameters node path) \<Longrightarrow>
      \<exists>m \<in> set (inner_nodes node). wn_id m = wn_id n \<and>
        boundary_node_paths m p dir = boundary_node_paths n p dir"
    and "m \<in> set (inner_nodes node) \<Longrightarrow>
      \<exists>n \<in> set (bind_internal_parameters node path). wn_id n = wn_id m \<and>
        boundary_node_paths n p dir = boundary_node_paths m p dir"
proof -
  have level: "sound_level (inner_nodes node) (inner_wires node)"
    and inner: "\<And>m. m \<in> set (inner_nodes node) \<Longrightarrow> sound_package m"
    using assms(1,2) by (auto elim: sound_package.cases)
  then have dist: "distinct (map wn_id (inner_nodes node))" by (simp add: sound_level_def)
  have ids: "wn_id ` set (bind_internal_parameters node path) = wn_id ` set (inner_nodes node)"
    using arg_cong[OF bound_ids[of node path], of set] by simp
  show "distinct (map wn_id (bind_internal_parameters node path))" using dist by (simp add: bound_ids)
  show "we_source ` set (inner_wires node) \<subseteq> wn_id ` set (bind_internal_parameters node path)"
    using level ids by (simp add: sound_level_def)
  have bound: "\<exists>m \<in> set (inner_nodes node). wn_id m = wn_id n \<and> keeps_execution n \<and> sound_package n \<and>
      boundary_node_paths m p dir = boundary_node_paths n p dir"
    if "n \<in> set (bind_internal_parameters node path)" for n p dir
    using bound_node[OF assms(3) dist that] inner sound_package_same_shape boundary_paths_same_shape by metis
  show "sound_package n \<and> keeps_execution n" if "n \<in> set (bind_internal_parameters node path)"
    using bound[OF that] by blast
  show "\<exists>m \<in> set (inner_nodes node). wn_id m = wn_id n \<and> boundary_node_paths m p dir = boundary_node_paths n p dir"
    if "n \<in> set (bind_internal_parameters node path)" using bound[OF that] by blast
  show "\<exists>n \<in> set (bind_internal_parameters node path). wn_id n = wn_id m \<and>
      boundary_node_paths n p dir = boundary_node_paths m p dir" if m: "m \<in> set (inner_nodes node)"
  proof -
    obtain n where n: "n \<in> set (bind_internal_parameters node path)" "wn_id n = wn_id m" using ids m by force
    then obtain m' where "m' \<in> set (inner_nodes node)" "wn_id m' = wn_id m"
      "boundary_node_paths m' p dir = boundary_node_paths n p dir" using bound[OF n(1)] by metis
    with dist m have "m' = m" by (auto simp: distinct_map inj_on_def)
    with \<open>boundary_node_paths m' p dir = boundary_node_paths n p dir\<close> n show ?thesis by auto
  qed
qed

lemma child_deps_eq:
  "child_deps node path deps n =
     (if expanded_dependency_map (bind_internal_parameters node path) (inner_wires node) path (wn_id n) = []
      then deps else expanded_dependency_map (bind_internal_parameters node path) (inner_wires node) path (wn_id n))"
  by (simp add: child_deps_def Let_def)

text \<open>The boundary nodes of a package are executable leaves; on the input side they inherit.\<close>

lemma boundary_is_leaf:
  assumes "sound_package node" and "keeps_execution node" and "p \<in> set (boundary_node_paths node path dir)"
  shows "\<exists>d. (p, True, d) \<in> set (tree_nodes node path deps) \<and> (dir = InputSide \<longrightarrow> set deps \<subseteq> set d)"
  using assms
proof (induction node path deps rule: tree_nodes.induct)
  case (1 node path deps)
  show ?case
  proof (cases "is_structural_container node")
    case False
    with 1(4) show ?thesis by (auto simp: boundary_paths_leaf tree_nodes.simps[of node])
  next
    case True
    note level = container_level[OF 1(2) True 1(3)]
    from 1(4) obtain m where m: "m \<in> set (inner_nodes node)" "wn_id m \<notin> edge_end dir ` set (inner_wires node)"
      "p \<in> set (boundary_node_paths m (path @ [wn_id m]) dir)"
      unfolding boundary_paths_container[OF True] by blast
    obtain n where n: "n \<in> set (bind_internal_parameters node path)" "wn_id n = wn_id m"
      "boundary_node_paths n (path @ [wn_id m]) dir = boundary_node_paths m (path @ [wn_id m]) dir"
      using level(5)[OF m(1)] by blast
    have "p \<in> set (boundary_node_paths n (path @ [wn_id n]) dir)" using m(3) n by simp
    from 1(1)[OF True n(1) _ _ this] level(3)[OF n(1)]
    obtain d where d: "(p, True, d) \<in> set (tree_nodes n (path @ [wn_id n]) (child_deps node path deps n))"
      "dir = InputSide \<longrightarrow> set (child_deps node path deps n) \<subseteq> set d" by blast
    have "child_deps node path deps n = deps" if "dir = InputSide"
    proof -
      have "\<not> (\<exists>e \<in> set (inner_wires node). we_target e = wn_id n)" using m(2) n(2) that by force
      then show ?thesis by (simp add: child_deps_def expanded_dependency_map_def Let_def filter_empty_conv)
    qed
    with d n(1) True show ?thesis by (auto simp: tree_nodes.simps[of node])
  qed
qed

lemma leaf_dependency_is_link:
  assumes "sound_package node" and "keeps_execution node" and "(p, True, d) \<in> set (tree_nodes node path deps)"
    and "u \<in> set d"
  shows "(u, node_path_id p) \<in> links (tree_edges env node path) \<or>
    u \<in> set deps \<and> p \<in> set (boundary_node_paths node path InputSide)"
  using assms
proof (induction node path deps rule: tree_nodes.induct)
  case (1 node path deps)
  show ?case
  proof (cases "is_structural_container node")
    case False
    with 1(4,5) show ?thesis by (auto simp: boundary_paths_leaf tree_nodes.simps[of node])
  next
    case True
    note level = container_level[OF 1(2) True 1(3), where path = path]
    let ?bound = "bind_internal_parameters node path"
    from 1(4) True obtain n where n: "n \<in> set ?bound"
      "(p, True, d) \<in> set (tree_nodes n (path @ [wn_id n]) (child_deps node path deps n))"
      by (auto simp: tree_nodes.simps[of node])
    have edges: "links (tree_edges env node path) =
        (\<Union>n \<in> set ?bound. links (tree_edges env n (path @ [wn_id n]))) \<union>
        links (expanded_edges env (inner_wires node) ?bound path)"
      using True by (simp add: tree_edges.simps[of env node] links_concat)
    from 1(1)[OF True n(1) _ _ n(2) 1(5)] level(3)[OF n(1)] consider
      (inside) "(u, node_path_id p) \<in> links (tree_edges env n (path @ [wn_id n]))"
    | (boundary) "u \<in> set (child_deps node path deps n)"
        "p \<in> set (boundary_node_paths n (path @ [wn_id n]) InputSide)" by blast
    then show ?thesis
    proof cases
      case inside
      with n(1) edges show ?thesis by blast
    next
      case boundary
      show ?thesis
      proof (cases "expanded_dependency_map ?bound (inner_wires node) path (wn_id n) = []")
        case unfed: True
        have "wn_id n \<notin> edge_end InputSide ` set (inner_wires node)"
          using level_unfed[OF level(2) _ unfed] level(3) by force
        moreover obtain m where m: "m \<in> set (inner_nodes node)" "wn_id m = wn_id n"
          "boundary_node_paths m (path @ [wn_id n]) InputSide = boundary_node_paths n (path @ [wn_id n]) InputSide"
          using level(4)[OF n(1)] by blast
        ultimately have "p \<in> set (boundary_node_paths node path InputSide)"
          unfolding boundary_paths_container[OF True] using boundary(2) m by (simp, metis)
        with boundary(1) unfed show ?thesis by (simp add: child_deps_eq)
      next
        case False
        with boundary(1) have "u \<in> set (expanded_dependency_map ?bound (inner_wires node) path (wn_id n))"
          by (simp add: child_deps_eq)
        from level_link[OF level(1) n(1) this boundary(2), of env] edges show ?thesis by blast
      qed
    qed
  qed
qed

lemma link_is_leaf_dependency:
  assumes "sound_package node" and "keeps_execution node" and "(u, v) \<in> links (tree_edges env node path)"
  shows "\<exists>p d. (p, True, d) \<in> set (tree_nodes node path deps) \<and> v = node_path_id p \<and> u \<in> set d"
  using assms
proof (induction node path deps rule: tree_nodes.induct)
  case (1 node path deps)
  let ?bound = "bind_internal_parameters node path"
  have True: "is_structural_container node"
    using 1(4) by (cases "is_structural_container node") (auto simp: tree_edges.simps[of env node] links_def)
  note level = container_level[OF 1(2) True 1(3), where path = path]
  have sub: "set (tree_nodes n (path @ [wn_id n]) (child_deps node path deps n)) \<subseteq> set (tree_nodes node path deps)"
    if "n \<in> set ?bound" for n using that True by (auto simp: tree_nodes.simps[of node])
  from 1(4) True consider
    (inside) n where "n \<in> set ?bound" "(u, v) \<in> links (tree_edges env n (path @ [wn_id n]))"
  | (level) "(u, v) \<in> links (expanded_edges env (inner_wires node) ?bound path)"
    by (auto simp: tree_edges.simps[of env node] links_concat)
  then show ?case
  proof cases
    case inside
    from 1(1)[OF True inside(1) _ _ inside(2)] level(3)[OF inside(1)] sub[OF inside(1)] show ?thesis by blast
  next
    case level': level
    from level_link_back[OF this] obtain n p where n: "n \<in> set ?bound"
      "p \<in> set (boundary_node_paths n (path @ [wn_id n]) InputSide)" "v = node_path_id p"
      "u \<in> set (expanded_dependency_map ?bound (inner_wires node) path (wn_id n))" .
    then have "u \<in> set (child_deps node path deps n)" by (auto simp: child_deps_eq)
    then show ?thesis
      using boundary_is_leaf[of n p "path @ [wn_id n]" InputSide "child_deps node path deps n"]
        level(3)[OF n(1)] n(2,3) sub[OF n(1)] by blast
  qed
qed

lemma dependency_is_leaf:
  assumes "sound_package node" and "keeps_execution node" and "(p, l, d) \<in> set (tree_nodes node path deps)"
    and "u \<in> set d"
  shows "u \<in> set deps \<or> (\<exists>q d'. (q, True, d') \<in> set (tree_nodes node path deps) \<and> u = node_path_id q)"
  using assms
proof (induction node path deps rule: tree_nodes.induct)
  case (1 node path deps)
  show ?case
  proof (cases "(p, l, d) = (path, \<not> is_structural_container node, deps)")
    case True
    with 1(5) show ?thesis by simp
  next
    case False
    let ?bound = "bind_internal_parameters node path"
    from False 1(4) obtain n where c: "is_structural_container node" and n: "n \<in> set ?bound"
      "(p, l, d) \<in> set (tree_nodes n (path @ [wn_id n]) (child_deps node path deps n))"
      by (subst (asm) tree_nodes.simps) (auto split: if_splits)
    note level = container_level[OF 1(2) c 1(3), where path = path]
    have sub: "set (tree_nodes n (path @ [wn_id n]) (child_deps node path deps n)) \<subseteq> set (tree_nodes node path deps)"
      if "n \<in> set ?bound" for n using that c by (auto simp: tree_nodes.simps[of node])
    from 1(1)[OF c n(1) _ _ n(2) 1(5)] level(3)[OF n(1)] consider
      "u \<in> set (child_deps node path deps n)"
    | "\<exists>q d'. (q, True, d') \<in> set (tree_nodes n (path @ [wn_id n]) (child_deps node path deps n)) \<and> u = node_path_id q"
      by blast
    then show ?thesis
    proof cases
      case 1
      then consider "u \<in> set deps" | "u \<in> set (expanded_dependency_map ?bound (inner_wires node) path (wn_id n))"
        by (auto simp: child_deps_eq split: if_splits)
      then show ?thesis
      proof cases
        case 2
        then obtain s q where s: "s \<in> set ?bound" "q \<in> set (boundary_node_paths s (path @ [wn_id s]) OutputSide)"
          "u = node_path_id q" unfolding dependency_map_iff by (blast dest: index_by_Some_in)
        from boundary_is_leaf[OF _ _ s(2)] level(3)[OF s(1)] sub[OF s(1)] s(3) show ?thesis by blast
      qed simp
    next
      case 2
      with sub[OF n(1)] show ?thesis by blast
    qed
  qed
qed

end
