(* ===== verification/CompilerProps.thy ===== *)
theory CompilerProps
  imports CompiledTree
begin

text \<open>
  What a valid compile promises: the compiled nodes are in an order in which every dependency
  comes first, the dependencies of executable nodes are the compiled edges that end at them, and
  the Plan IR it carries passes the plan validator.
\<close>

section \<open>The root level\<close>

definition project_entries :: "wf_project \<Rightarrow> (string list \<times> bool \<times> string list) list" where
  "project_entries project = concat (map (\<lambda>n. tree_nodes n [wn_id n]
     (expanded_dependency_map (pj_nodes project) (pj_edges project) [] (wn_id n))) (pj_nodes project))"

definition project_links :: "compiler_env \<Rightarrow> wf_project \<Rightarrow> (string \<times> string) set" where
  "project_links env project =
     links (expanded_edges env (pj_edges project) (pj_nodes project) []) \<union>
     (\<Union>n \<in> set (pj_nodes project). links (tree_edges env n [wn_id n]))"

lemma compile_roots_extends:
  "extends_by \<lparr>cs_nodes = [], cs_edges = [], cs_plan_nodes = [], cs_plan_edges = [], cs_raised = False\<rparr>
     (project_entries project) (concat (map (\<lambda>n. tree_edges env n [wn_id n]) (pj_nodes project)))
     (compile_roots env project)"
  unfolding compile_roots_def project_entries_def Let_def
  by (rule extends_by_fold) (rule compile_node_tree_extends, simp_all add: node_path_id_def)

lemma compile_roots_lists:
  "map (\<lambda>n. (cn_id n, cn_depends_on n)) (cs_nodes (compile_roots env project)) = map entry_deps (project_entries project)"
  "map (\<lambda>n. (node_id n, plan_executable n)) (cs_plan_nodes (compile_roots env project)) = map entry_mark (project_entries project)"
  "cs_edges (compile_roots env project) = concat (map (\<lambda>n. tree_edges env n [wn_id n]) (pj_nodes project))"
  "cs_plan_edges (compile_roots env project) = map to_plan_edge (cs_edges (compile_roots env project))"
  using compile_roots_extends[of project env] by (simp_all add: extends_by_def)

definition keeps_executions :: "wf_project \<Rightarrow> bool" where
  "keeps_executions project \<longleftrightarrow> list_all keeps_execution (pj_nodes project)"

lemma root_dependency_is_link:
  assumes "validate_project env project = []" and "keeps_executions project"
    and "(p, True, d) \<in> set (project_entries project)" and "u \<in> set d"
  shows "(u, node_path_id p) \<in> project_links env project"
proof -
  from assms(3) obtain n where n: "n \<in> set (pj_nodes project)"
    "(p, True, d) \<in> set (tree_nodes n [wn_id n]
       (expanded_dependency_map (pj_nodes project) (pj_edges project) [] (wn_id n)))"
    by (auto simp: project_entries_def)
  have "keeps_execution n" using assms(2) n(1) by (simp add: keeps_executions_def list_all_iff)
  from leaf_dependency_is_link[OF validated_nodes_sound[OF assms(1) n(1)] this n(2) assms(4), of env]
    level_link[of "pj_nodes project" n u "pj_edges project" "[]" p env] n(1)
    validate_project_root(1)[OF assms(1)]
  show ?thesis by (auto simp: project_links_def sound_level_def)
qed


lemma root_dependency_is_leaf:
  assumes "validate_project env project = []" and "keeps_executions project"
    and "(p, l, d) \<in> set (project_entries project)" and "u \<in> set d"
  shows "\<exists>q d'. (q, True, d') \<in> set (project_entries project) \<and> u = node_path_id q"
proof -
  let ?deps = "\<lambda>n. expanded_dependency_map (pj_nodes project) (pj_edges project) [] (wn_id n)"
  have ok: "sound_package n" "keeps_execution n" if "n \<in> set (pj_nodes project)" for n
    using validated_nodes_sound[OF assms(1) that] assms(2) that by (simp_all add: keeps_executions_def list_all_iff)
  have sub: "set (tree_nodes n [wn_id n] (?deps n)) \<subseteq> set (project_entries project)"
    if "n \<in> set (pj_nodes project)" for n using that by (auto simp: project_entries_def)
  from assms(3) obtain n where n: "n \<in> set (pj_nodes project)" "(p, l, d) \<in> set (tree_nodes n [wn_id n] (?deps n))"
    by (auto simp: project_entries_def)
  from dependency_is_leaf[OF ok[OF n(1)] n(2) assms(4)] consider
    "u \<in> set (?deps n)" | "\<exists>q d'. (q, True, d') \<in> set (tree_nodes n [wn_id n] (?deps n)) \<and> u = node_path_id q"
    by blast
  then show ?thesis
  proof cases
    case 1
    then obtain s q where s: "s \<in> set (pj_nodes project)" "u = node_path_id q"
      "q \<in> set (boundary_node_paths s ([] @ [wn_id s]) OutputSide)"
      unfolding dependency_map_iff by (blast dest: index_by_Some_in)
    from boundary_is_leaf[OF ok[OF s(1)] s(3), of "?deps s"] sub[OF s(1)] s(2) show ?thesis by auto
  next
    case 2
    with sub[OF n(1)] show ?thesis by blast
  qed
qed

section \<open>The plan\<close>

lemma update_last_map: "(\<And>x. g (f x) = g x) \<Longrightarrow> map g (update_last P f xs) = map g xs"
  by (induction P f xs rule: update_last.induct) auto

lemma widen_step_keeps:
  "map (\<lambda>n. (node_id n, plan_executable n)) (widen_step e nodes) = map (\<lambda>n. (node_id n, plan_executable n)) nodes"
  by (auto simp: widen_step_def plan_executable_def split: option.splits intro!: update_last_map)

lemma widen_keeps:
  "map (\<lambda>n. (node_id n, plan_executable n)) (graph_nodes (widen_merge_fan_in plan)) =
     map (\<lambda>n. (node_id n, plan_executable n)) (graph_nodes plan)"
  "graph_edges (widen_merge_fan_in plan) = graph_edges plan"
proof -
  have "map (\<lambda>n. (node_id n, plan_executable n)) (fold widen_step es nodes) =
      map (\<lambda>n. (node_id n, plan_executable n)) nodes" for es nodes
    by (induction es arbitrary: nodes) (simp_all add: widen_step_keeps)
  then show "map (\<lambda>n. (node_id n, plan_executable n)) (graph_nodes (widen_merge_fan_in plan)) =
     map (\<lambda>n. (node_id n, plan_executable n)) (graph_nodes plan)" by (simp add: widen_merge_fan_in_def)
qed (simp add: widen_merge_fan_in_def)

lemma valid_plan_facts:
  assumes "valid (validate_plan_graph registry parse_pin pins plan)"
  shows "distinct (map node_id (graph_nodes plan))" and "acyclic (plan_relation plan)"
    and "e \<in> set (graph_edges plan) \<Longrightarrow>
      edge_source_node e \<in> node_id ` set (graph_nodes plan) \<and> edge_target_node e \<in> node_id ` set (graph_nodes plan)"
proof -
  have ok: "check_duplicate_node_ids plan = []" "check_cycles plan = []" "check_dangling_edges plan = []"
    using assms by (simp_all add: valid_def validate_plan_graph_def)
  then show "distinct (map node_id (graph_nodes plan))" "acyclic (plan_relation plan)"
    by (simp_all add: check_duplicate_node_ids_def duplicate_errors_Nil check_cycles_Nil)
  show "edge_source_node e \<in> node_id ` set (graph_nodes plan) \<and> edge_target_node e \<in> node_id ` set (graph_nodes plan)"
    if "e \<in> set (graph_edges plan)"
  proof -
    have "dangling_errors (nodes_by_id plan) e = []" using ok(3) that by (simp add: check_dangling_edges_def)
    then have "nodes_by_id plan (edge_source_node e) \<noteq> None" "nodes_by_id plan (edge_target_node e) \<noteq> None"
      by (intro notI, simp add: dangling_errors_def)+
    then show ?thesis by (simp add: nodes_by_id_def index_by_None)
  qed
qed

text \<open>The facts about a valid compile that the properties below share.\<close>

lemma compile_valid_facts:
  assumes "compile_workflow_project env authored = CompileValid preview"
  defines "project \<equiv> ev_materialize env authored"
  defines "st \<equiv> compile_roots env project"
  shows "validate_project env project = []"
    and "cp_nodes preview = topologically_order_compiled_nodes (cs_nodes st)"
    and "cp_node_ids preview = map cn_id (cp_nodes preview)"
    and "links (cp_edges preview) = project_links env project"
    and "map (\<lambda>n. (node_id n, plan_executable n)) (graph_nodes (cp_plan_ir preview)) =
      map entry_mark (project_entries project)"
    and "graph_edges (cp_plan_ir preview) = map to_plan_edge (cp_edges preview)"
    and "valid (validate_plan_graph (ev_registry env) (ev_parse_pin env) False (cp_plan_ir preview))"
  using assms(1)
  by (auto simp: compile_workflow_project_def Let_def project_def st_def links_concat project_links_def
      compile_roots_lists widen_keeps split: if_splits)

section \<open>Dependencies against edges\<close>

lemma acyclic_if_inner_acyclic:
  assumes "acyclic s" and "\<And>a b c. (a, b) \<in> r \<Longrightarrow> (b, c) \<in> r \<Longrightarrow> (a, b) \<in> s"
  shows "acyclic r"
proof -
  have "(a, b) \<in> s\<^sup>+" if "(a, b) \<in> r\<^sup>+" "(b, c) \<in> r" for a b c
    using that
  proof (induction arbitrary: c rule: trancl_induct)
    case (base y)
    then show ?case using assms(2) by blast
  next
    case (step y z)
    then show ?case using assms(2)[OF step(2,4)] by (meson trancl_into_trancl)
  qed
  then have "(a, a) \<notin> r\<^sup>+" for a
    using assms(1) unfolding acyclic_def by (meson tranclD)
  then show ?thesis by (simp add: acyclic_def)
qed

lemma same_key_entry:
  assumes "distinct (map f xs)" and "x \<in> set xs" and "y \<in> set xs" and "f x = f y"
  shows "x = y"
  using assms by (auto simp: distinct_map inj_on_def)

text \<open>
  The run of a valid compile in terms of its entries: ids are distinct, the compiled nodes before
  ordering are the entries, and the links are the plan's edges.
\<close>

lemma compile_valid_entries:
  assumes "compile_workflow_project env authored = CompileValid preview"
  defines "project \<equiv> ev_materialize env authored"
  defines "nodes \<equiv> cs_nodes (compile_roots env project)"
  shows "distinct (map (node_path_id \<circ> fst) (project_entries project))"
    and "distinct (map cn_id nodes)"
    and "n \<in> set nodes \<Longrightarrow> \<exists>p l. (p, l, cn_depends_on n) \<in> set (project_entries project) \<and> cn_id n = node_path_id p"
    and "(p, l, d) \<in> set (project_entries project) \<Longrightarrow> node_path_id p \<in> cn_id ` set nodes"
    and "acyclic (project_links env project)"
proof -
  note facts = compile_valid_facts[OF assms(1), folded project_def]
  have plan: "map node_id (graph_nodes (cp_plan_ir preview)) = map (node_path_id \<circ> fst) (project_entries project)"
    using arg_cong[OF facts(5), of "map fst"] by (simp add: comp_def entry_mark_def)
  have both: "map (\<lambda>n. (cn_id n, cn_depends_on n)) nodes = map entry_deps (project_entries project)"
    by (simp add: nodes_def compile_roots_lists)
  have ids: "map cn_id nodes = map (node_path_id \<circ> fst) (project_entries project)"
    using arg_cong[OF both, of "map fst"] by (simp add: comp_def entry_deps_def)
  show d: "distinct (map (node_path_id \<circ> fst) (project_entries project))"
    using valid_plan_facts(1)[OF facts(7)] by (simp add: plan)
  show "distinct (map cn_id nodes)" using d by (simp add: ids)
  show "\<exists>p l. (p, l, cn_depends_on n) \<in> set (project_entries project) \<and> cn_id n = node_path_id p"
    if "n \<in> set nodes"
  proof -
    have "(cn_id n, cn_depends_on n) \<in> set (map entry_deps (project_entries project))"
      using that by (auto simp flip: both)
    then show ?thesis by (fastforce simp: entry_deps_def)
  qed
  show "node_path_id p \<in> cn_id ` set nodes" if "(p, l, d) \<in> set (project_entries project)"
    using arg_cong[OF ids, of set] that by force
  have "links (cp_edges preview) \<subseteq> plan_relation (cp_plan_ir preview)"
  proof
    fix x
    assume "x \<in> links (cp_edges preview)"
    then obtain e where e: "to_plan_edge e \<in> set (graph_edges (cp_plan_ir preview))"
      "x = (ce_source e, ce_target e)" by (auto simp: links_def facts(6))
    with valid_plan_facts(3)[OF facts(7) e(1)] show "x \<in> plan_relation (cp_plan_ir preview)"
      unfolding plan_relation_def by (auto simp: to_plan_edge_def intro!: bexI[OF _ e(1)])
  qed
  then show "acyclic (project_links env project)"
    using valid_plan_facts(2)[OF facts(7)] facts(4) by (metis acyclic_subset)
qed

lemma compiled_dependencies_acyclic:
  assumes "compile_workflow_project env authored = CompileValid preview"
    and "keeps_executions (ev_materialize env authored)"
  shows "acyclic (dependency_relation (cs_nodes (compile_roots env (ev_materialize env authored))))"
proof (rule acyclic_if_inner_acyclic[OF compile_valid_entries(5)[OF assms(1)]])
  let ?project = "ev_materialize env authored"
  let ?nodes = "cs_nodes (compile_roots env ?project)"
  note entries = compile_valid_entries[OF assms(1)] and ok = compile_valid_facts(1)[OF assms(1)]
  fix a b c
  assume "(a, b) \<in> dependency_relation ?nodes" and "(b, c) \<in> dependency_relation ?nodes"
  then obtain n m where n: "n \<in> set ?nodes" "cn_id n = b" "a \<in> set (cn_depends_on n)"
    and m: "m \<in> set ?nodes" "b \<in> set (cn_depends_on m)"
    by (auto simp: dependency_relation_def known_deps_def)
  obtain p l where p: "(p, l, cn_depends_on n) \<in> set (project_entries ?project)" "b = node_path_id p"
    using entries(3)[OF n(1)] n(2) by blast
  obtain q where q: "\<exists>d. (q, True, d) \<in> set (project_entries ?project)" "b = node_path_id q"
    using entries(3)[OF m(1)] root_dependency_is_leaf[OF ok assms(2) _ m(2)] by blast
  have "l = True \<and> p = q"
    using q p same_key_entry[OF entries(1) p(1)] by fastforce
  then show "(a, b) \<in> project_links env ?project"
    using root_dependency_is_link[OF ok assms(2) _ n(3)] p by blast
qed

section \<open>What a valid compile promises\<close>

text \<open>
  C1: the nodes of a valid compile have distinct ids, are the nodes of its Plan IR, and are listed in
  an order that can be executed from left to right: every node comes after all the nodes it
  depends on, whatever the order in which they were authored and however packages are nested,
  provided no public parameter rewrites the execution mode of an internal package.
\<close>

theorem compiled_run_order:
  assumes "compile_workflow_project env authored = CompileValid preview"
    and "keeps_executions (ev_materialize env authored)"
  shows "cp_node_ids preview = map cn_id (cp_nodes preview) \<and> distinct (cp_node_ids preview) \<and>
    set (cp_node_ids preview) = node_id ` set (graph_nodes (cp_plan_ir preview)) \<and>
    (\<forall>before n after. cp_nodes preview = before @ n # after \<longrightarrow> set (cn_depends_on n) \<subseteq> cn_id ` set before)"
proof -
  let ?project = "ev_materialize env authored"
  let ?nodes = "cs_nodes (compile_roots env ?project)"
  note facts = compile_valid_facts[OF assms(1)] and entries = compile_valid_entries[OF assms(1)]
  have perm: "set (cp_nodes preview) = set ?nodes" and dist: "distinct (map cn_id (cp_nodes preview))"
    and first: "\<And>before n after u. cp_nodes preview = before @ n # after \<Longrightarrow> u \<in> set (known_deps ?nodes n) \<Longrightarrow>
      u \<in> cn_id ` set before"
    using compiled_order_spec[OF entries(2)] compiled_dependencies_acyclic[OF assms]
    unfolding Let_def facts(2) by blast+
  have known: "known_deps ?nodes n = cn_depends_on n" if n: "n \<in> set ?nodes" for n
  proof -
    have "u \<in> cn_id ` set ?nodes" if "u \<in> set (cn_depends_on n)" for u
      using entries(3)[OF n] root_dependency_is_leaf[OF facts(1) assms(2) _ that] entries(4) by blast
    then show ?thesis by (simp add: known_deps_def filter_id_conv)
  qed
  have "node_id ` set (graph_nodes (cp_plan_ir preview)) = node_path_id ` fst ` set (project_entries ?project)"
    using arg_cong[OF facts(5), of "\<lambda>xs. set (map fst xs)"] by (simp add: comp_def entry_mark_def image_image)
  moreover have "cn_id ` set ?nodes = node_path_id ` fst ` set (project_entries ?project)"
    using arg_cong[OF compile_roots_lists(1)[of env ?project], of "\<lambda>xs. set (map fst xs)"]
    by (simp add: comp_def entry_deps_def image_image)
  ultimately have ids: "set (cp_node_ids preview) = node_id ` set (graph_nodes (cp_plan_ir preview))"
    using perm by (simp add: facts(3))
  have "set (cn_depends_on n) \<subseteq> cn_id ` set before" if "cp_nodes preview = before @ n # after" for before n after
  proof -
    have "n \<in> set ?nodes" using perm that by auto
    then show ?thesis using first[OF that] known by auto
  qed
  with ids dist facts(3) show ?thesis by simp
qed


section \<open>A packaged workflow, and what the checks do not see\<close>

definition bare_env :: compiler_env where
  "bare_env = \<lparr>ev_registry = (\<lambda>_. None), ev_parse_pin = (\<lambda>_. None), ev_operators = [],
     ev_native_ports = (\<lambda>_. None), ev_runtime = (\<lambda>_ _ _. []), ev_materialize = (\<lambda>p. p)\<rparr>"

definition agent_node :: "string \<Rightarrow> wf_node" where
  "agent_node i = plain_node i ''agent'' ''tag''"

definition package_node :: "string \<Rightarrow> parameter_field list option \<Rightarrow> wf_node list \<Rightarrow> wf_edge list \<Rightarrow> wf_node" where
  "package_node i public_fields nodes edges =
     WfNode (wn_data (agent_node i)\<lparr>nd_parameterInterface := public_fields\<rparr>) (Some (WfInternals None nodes edges))"

definition packaged_project :: "parameter_field list option \<Rightarrow> wf_project" where
  "packaged_project public_fields =
     plain_project
       [agent_node ''k'', package_node ''p'' public_fields [agent_node ''b'', agent_node ''a''] [plain_edge ''a'' ''b''],
        agent_node ''s'']
       [plain_edge ''s'' ''p'', plain_edge ''p'' ''k'']"

definition preview_of :: "compile_response \<Rightarrow> compiled_preview option" where
  "preview_of r = (case r of CompileValid preview \<Rightarrow> Some preview | _ \<Rightarrow> None)"

lemma preview_of_Some: "preview_of r = Some preview \<longleftrightarrow> r = CompileValid preview"
  by (cases r) (auto simp: preview_of_def)

lemma packaged_compiles:
  "map_option cp_node_ids (preview_of (compile_workflow_project bare_env (packaged_project None))) =
     Some [''s'', ''p'', ''p::a'', ''p::b'', ''k'']"
  by code_simp

lemma packaged_keeps: "keeps_executions (ev_materialize bare_env (packaged_project None))"
  by code_simp

theorem compiled_run_order_witness:
  "\<exists>preview. compile_workflow_project bare_env (packaged_project None) = CompileValid preview \<and>
     cp_node_ids preview = [''s'', ''p'', ''p::a'', ''p::b'', ''k''] \<and>
     set (cp_node_ids preview) = node_id ` set (graph_nodes (cp_plan_ir preview))"
proof -
  from packaged_compiles obtain preview where
    "compile_workflow_project bare_env (packaged_project None) = CompileValid preview"
    "cp_node_ids preview = [''s'', ''p'', ''p::a'', ''p::b'', ''k'']"
    by (auto simp: preview_of_Some)
  with compiled_run_order[OF this(1) packaged_keeps] show ?thesis by blast
qed



text \<open>
  The checks run before public parameters are bound: a forbidden key that arrives through a
  parameter interface reaches the compiled node.
\<close>

definition smuggled_field :: parameter_field where
  "smuggled_field = \<lparr>pf_id = ''f'', pf_binding = \<lparr>pb_nodeId = ''a'', pb_source = ''params'',
     pb_fieldId = ''rawCommand''\<rparr>, pf_value = JStr ''rm''\<rparr>"

lemma bound_parameters_unchecked:
  "map_option (\<lambda>preview. map cn_params (filter (\<lambda>n. cn_id n = ''p::a'') (cp_nodes preview)))
     (preview_of (compile_workflow_project bare_env (packaged_project (Some [smuggled_field])))) =
     Some [[(''rawCommand'', JStr ''rm'')]]"
  by code_simp

text \<open>A library id that is a list passes validation and then raises in the port lookup.\<close>

definition list_id_node :: wf_node where
  "list_id_node = WfNode (wn_data (agent_node ''n'')\<lparr>nd_ui := Some [(''primitiveId'', JList [JNull])]\<rparr>) None"

lemma unhashable_library_id_raises:
  "validate_project bare_env (plain_project [list_id_node] []) = [] \<and>
   compile_workflow_project bare_env (plain_project [list_id_node] []) = CompileRaised"
  by code_simp

text \<open>Ids that begin or end with a colon make different paths collide.\<close>

lemma node_path_collision:
  "valid_local_node_id ''a:'' \<and> valid_local_node_id '':b'' \<and>
   node_path_id [''a:'', ''b''] = node_path_id [''a'', '':b'']"
  by code_simp

end
