(* ===== verification/Patcher.thy ===== *)
theory Patcher
  imports CompilerProps
begin

text \<open>
  Patch previews (\<open>backend/workflow/patcher.py\<close>): structured operations are applied to a copy
  of the project one by one, each either accepted or answered with an error, and the result is
  compiled. Building a node from an OpenCLI adapter (\<open>materialize_opencli_adapter_node\<close>) is
  the parameter \<open>materialize\<close>, whose left values are the exception's code and missing
  parameters.
\<close>

section \<open>Operations\<close>

record patch_operation =
  po_op :: string
  po_node :: "wf_node option"
  po_edge :: "wf_edge option"
  po_adapter :: "wf_adapter option"
  po_nodeId :: "string option"
  po_adapterNodeId :: "string option"
  po_params :: "json dict"
  po_packageNode :: "wf_node option"
  po_internalNodeIds :: "string list"
  po_capability :: "string option"
  po_reason :: "string option"

record missing_capability =
  mc_capability :: string
  mc_reason :: "string option"
  mc_search_hint :: "string option"

type_synonym adapter_materializer =
  "string \<Rightarrow> string option \<Rightarrow> json dict \<Rightarrow> (string \<times> string list) + (wf_node \<times> wf_adapter option)"

definition patch_error :: "string \<Rightarrow> string list \<Rightarrow> compile_error" where
  "patch_error code path = \<lparr>er_code = code, er_node_id = None, er_edge_id = None, er_path = path\<rparr>"

definition operation_error :: "string \<Rightarrow> string list \<Rightarrow> compile_error" where
  "operation_error op path = patch_error ''invalid_patch_operation'' (path @ [op])"

definition validate_added_node :: "compiler_env \<Rightarrow> wf_node \<Rightarrow> string list \<Rightarrow> compile_error list" where
  "validate_added_node env node path =
     map (\<lambda>key. wf_node_error ''forbidden_node_definition'' (wn_id node)
         (path @ [''node''] @ split_one (CHR ''.'') key))
       (forbidden_node_definition_keys node) @
     (if unknown_origin (ev_registry env) node
      then [wf_node_error ''unknown_node_library_binding'' (wn_id node) (path @ [''node'', ''ui''])] else [])"

section \<open>Finding and updating a nested node\<close>

definition path_parts :: "string \<Rightarrow> string list" where
  "path_parts nid = filter (\<lambda>part. part \<noteq> []) (split_two (CHR '':'') (CHR '':'') nid)"

fun find_path :: "string list \<Rightarrow> wf_node list \<Rightarrow> wf_node option" where
  "find_path [] nodes = None"
| "find_path [part] nodes = find (\<lambda>n. wn_id n = part) nodes"
| "find_path (part # parts) nodes =
     (case find (\<lambda>n. wn_id n = part) nodes of
        None \<Rightarrow> None
      | Some n \<Rightarrow> (case wn_internals n of None \<Rightarrow> None | Some i \<Rightarrow> find_path parts (in_nodes i)))"

definition find_node :: "wf_project \<Rightarrow> string \<Rightarrow> wf_node option" where
  "find_node project nid = find_path (path_parts nid) (pj_nodes project)"

fun update_first :: "('a \<Rightarrow> bool) \<Rightarrow> ('a \<Rightarrow> 'a) \<Rightarrow> 'a list \<Rightarrow> 'a list" where
  "update_first P f [] = []"
| "update_first P f (x # xs) = (if P x then f x # xs else x # update_first P f xs)"

text \<open>The assignment through the reference \<open>_find_node\<close> returns.\<close>

fun update_path :: "(wf_node \<Rightarrow> wf_node) \<Rightarrow> string list \<Rightarrow> wf_node list \<Rightarrow> wf_node list" where
  "update_path f [] nodes = nodes"
| "update_path f [part] nodes = update_first (\<lambda>n. wn_id n = part) f nodes"
| "update_path f (part # parts) nodes =
     update_first (\<lambda>n. wn_id n = part)
       (\<lambda>n. WfNode (wn_data n) (map_option (\<lambda>i. WfInternals (in_locked i)
          (update_path f parts (in_nodes i)) (in_edges i)) (wn_internals n))) nodes"

section \<open>Packaging\<close>

definition package_nodes ::
  "wf_project \<Rightarrow> patch_operation \<Rightarrow> wf_node \<Rightarrow> string list \<Rightarrow> compile_error list + wf_project"
where
  "package_nodes project operation package path =
     (let selected_ids = set (po_internalNodeIds operation);
          selected_nodes = filter (\<lambda>n. wn_id n \<in> selected_ids) (pj_nodes project);
          missing_ids = filter (\<lambda>i. i \<notin> wn_id ` set selected_nodes) (dict_keys (po_internalNodeIds operation));
          internal_edges = filter (\<lambda>e. we_source e \<in> selected_ids \<and> we_target e \<in> selected_ids) (pj_edges project);
          remaining_nodes = filter (\<lambda>n. wn_id n \<notin> selected_ids) (pj_nodes project);
          remaining_edges = filter (\<lambda>e. we_source e \<notin> selected_ids \<and> we_target e \<notin> selected_ids) (pj_edges project);
          locked = map_option (\<lambda>t. tc_mode t = ''locked'') (nd_topicCollapse (wn_data package))
      in if missing_ids \<noteq> [] then
           Inl (map (\<lambda>i. wf_node_error ''missing_patch_node'' i (path @ [''internalNodeIds''])) (sort missing_ids))
         else if wn_id package \<in> wn_id ` set (pj_nodes project) then
           Inl [wf_node_error ''duplicate_node_id'' (wn_id package) (path @ [''packageNode'', ''id''])]
         else Inr (project\<lparr>
           pj_nodes := remaining_nodes @
             [WfNode (wn_data package) (Some (WfInternals locked selected_nodes internal_edges))],
           pj_edges := remaining_edges\<rparr>))"

section \<open>One operation\<close>

text \<open>
  What an operation does to the copy: errors, or the new project; either may come with requests
  for missing capabilities.
\<close>

type_synonym patch_effect = "(compile_error list + wf_project) \<times> missing_capability list"

definition apply_add_node :: "compiler_env \<Rightarrow> wf_project \<Rightarrow> patch_operation \<Rightarrow> string list \<Rightarrow> patch_effect" where
  "apply_add_node env patched operation path =
     ((case po_node operation of
         None \<Rightarrow> Inl [operation_error (po_op operation) path]
       | Some node \<Rightarrow>
           let node_errors = validate_added_node env node path
           in if node_errors \<noteq> [] then Inl node_errors
              else if wn_id node \<in> wn_id ` set (pj_nodes patched) then
                Inl [wf_node_error ''duplicate_node_id'' (wn_id node) (path @ [''node'', ''id''])]
              else Inr (patched\<lparr>pj_nodes := pj_nodes patched @ [node]\<rparr>)), [])"

definition set_params :: "json dict \<Rightarrow> wf_node \<Rightarrow> wf_node" where
  "set_params params n = with_params n (dict_update (wn_params n) params)"

definition apply_update_parameters :: "wf_project \<Rightarrow> patch_operation \<Rightarrow> string list \<Rightarrow> patch_effect" where
  "apply_update_parameters patched operation path =
     ((if \<not> truthy (po_nodeId operation) then Inl [operation_error (po_op operation) path]
       else let nid = the (po_nodeId operation)
         in if find_node patched nid = None
            then Inl [wf_node_error ''missing_patch_node'' nid (path @ [''nodeId''])]
            else Inr (patched\<lparr>pj_nodes := update_path (set_params (po_params operation))
              (path_parts nid) (pj_nodes patched)\<rparr>)), [])"

definition apply_add_adapter :: "wf_project \<Rightarrow> patch_operation \<Rightarrow> string list \<Rightarrow> patch_effect" where
  "apply_add_adapter patched operation path =
     ((case po_adapter operation of
         None \<Rightarrow> Inl [operation_error (po_op operation) path]
       | Some adapter \<Rightarrow>
           if ad_id adapter \<in> ad_id ` set (pj_adapters patched)
           then Inl [patch_error ''duplicate_adapter_id'' (path @ [''adapter'', ''id''])]
           else Inr (patched\<lparr>pj_adapters := pj_adapters patched @ [adapter]\<rparr>)), [])"

text \<open>
  Python's \<open>==\<close> on values: numbers and booleans compare as numbers, dictionaries whatever the order
  of their keys.
\<close>

fun py_number :: "json \<Rightarrow> rat option" where
  "py_number (JBool b) = Some (if b then 1 else 0)"
| "py_number (JInt i) = Some (of_int i)"
| "py_number (JFloat q) = Some q"
| "py_number _ = None"

fun py_eq :: "json \<Rightarrow> json \<Rightarrow> bool"
  and py_eq_list :: "json list \<Rightarrow> json list \<Rightarrow> bool"
  and py_eq_items :: "json dict \<Rightarrow> json dict \<Rightarrow> bool"
where
  "py_eq JNull v = (v = JNull)"
| "py_eq (JBool b) v = (py_number v = py_number (JBool b))"
| "py_eq (JInt i) v = (py_number v = py_number (JInt i))"
| "py_eq (JFloat q) v = (py_number v = py_number (JFloat q))"
| "py_eq (JStr s) v = (v = JStr s)"
| "py_eq (JList xs) v = (case v of JList ys \<Rightarrow> py_eq_list xs ys | _ \<Rightarrow> False)"
| "py_eq (JObj d) v = (case v of JObj e \<Rightarrow> length d = length e \<and> py_eq_items d e | _ \<Rightarrow> False)"
| "py_eq_list [] ys = (ys = [])"
| "py_eq_list (x # xs) ys = (case ys of [] \<Rightarrow> False | y # ys' \<Rightarrow> py_eq x y \<and> py_eq_list xs ys')"
| "py_eq_items [] e = True"
| "py_eq_items ((k, v) # d) e = ((case map_of e k of None \<Rightarrow> False | Some w \<Rightarrow> py_eq v w) \<and> py_eq_items d e)"

lemma py_eq_examples:
  "py_eq (JObj [(''a'', JInt 1), (''b'', JStr ''x'')]) (JObj [(''b'', JStr ''x''), (''a'', JBool True)])"
  "\<not> py_eq (JList [JInt 1]) (JList [JInt 1, JNull])"
  by (simp_all add: py_eq.simps)

definition same_adapter :: "wf_adapter \<Rightarrow> wf_adapter \<Rightarrow> bool" where
  "same_adapter a b \<longleftrightarrow> ad_id a = ad_id b \<and> ad_type a = ad_type b \<and> ad_provider a = ad_provider b \<and>
     ad_mode a = ad_mode b \<and> py_eq (JObj (ad_config a)) (JObj (ad_config b))"

text \<open>Adding the adapter of a materialized node, unless the same one is there already.\<close>

definition merge_adapter :: "wf_adapter list \<Rightarrow> wf_adapter option \<Rightarrow> wf_adapter list option" where
  "merge_adapter adapters new =
     (case new of
        None \<Rightarrow> Some adapters
      | Some adapter \<Rightarrow>
          (case find (\<lambda>a. ad_id a = ad_id adapter) adapters of
             None \<Rightarrow> Some (adapters @ [adapter])
           | Some existing \<Rightarrow> if same_adapter existing adapter then Some adapters else None))"

definition apply_materialize ::
  "compiler_env \<Rightarrow> adapter_materializer \<Rightarrow> wf_project \<Rightarrow> patch_operation \<Rightarrow> string list \<Rightarrow> patch_effect"
where
  "apply_materialize env materialize patched operation path =
     (if \<not> truthy (po_adapterNodeId operation) then (Inl [operation_error (po_op operation) path], [])
      else case materialize (the (po_adapterNodeId operation)) (po_nodeId operation) (po_params operation) of
          Inl (code, missing_params) \<Rightarrow>
            (Inl [patch_error code (path @ [''adapterNodeId''])],
             if missing_params = [] then []
             else [\<lparr>mc_capability = ''opencli.adapter.params'',
               mc_reason = Some (''Missing OpenCLI adapter params: '' @ join_with '', '' missing_params),
               mc_search_hint = po_adapterNodeId operation\<rparr>])
        | Inr (node, adapter) \<Rightarrow>
            let node_errors = validate_added_node env node path
            in if wn_id node \<in> wn_id ` set (pj_nodes patched) then
                 (Inl [wf_node_error ''duplicate_node_id'' (wn_id node) (path @ [''nodeId''])], [])
               else if node_errors \<noteq> [] then (Inl node_errors, [])
               else (case merge_adapter (pj_adapters patched) adapter of
                   None \<Rightarrow> (Inl [patch_error ''duplicate_adapter_id'' (path @ [''adapterNodeId''])], [])
                 | Some adapters \<Rightarrow>
                     (Inr (patched\<lparr>pj_adapters := adapters, pj_nodes := pj_nodes patched @ [node]\<rparr>), [])))"

definition apply_connect_nodes :: "wf_project \<Rightarrow> patch_operation \<Rightarrow> string list \<Rightarrow> patch_effect" where
  "apply_connect_nodes patched operation path =
     ((case po_edge operation of
         None \<Rightarrow> Inl [operation_error (po_op operation) path]
       | Some edge \<Rightarrow> Inr (patched\<lparr>pj_edges := pj_edges patched @ [edge]\<rparr>)), [])"

definition apply_request_missing :: "wf_project \<Rightarrow> patch_operation \<Rightarrow> string list \<Rightarrow> patch_effect" where
  "apply_request_missing patched operation path =
     (if \<not> truthy (po_capability operation) then (Inl [operation_error (po_op operation) path], [])
      else (Inr patched, [\<lparr>mc_capability = the (po_capability operation), mc_reason = po_reason operation,
        mc_search_hint = po_capability operation\<rparr>]))"

definition apply_package_nodes :: "compiler_env \<Rightarrow> wf_project \<Rightarrow> patch_operation \<Rightarrow> string list \<Rightarrow> patch_effect" where
  "apply_package_nodes env patched operation path =
     ((case po_packageNode operation of
         None \<Rightarrow> Inl [operation_error (po_op operation) path]
       | Some package \<Rightarrow>
           if po_internalNodeIds operation = [] then Inl [operation_error (po_op operation) path]
           else
             let package_errors = validate_added_node env package path
             in if package_errors \<noteq> [] then Inl package_errors
                else package_nodes patched operation package path), [])"

definition apply_operation ::
  "compiler_env \<Rightarrow> adapter_materializer \<Rightarrow> wf_project \<Rightarrow> patch_operation \<Rightarrow> string list \<Rightarrow> patch_effect"
where
  "apply_operation env materialize patched operation path =
     (let op = po_op operation
      in if op = ''add_node'' then apply_add_node env patched operation path
         else if op = ''update_parameters'' then apply_update_parameters patched operation path
         else if op = ''add_adapter'' then apply_add_adapter patched operation path
         else if op = ''materialize_opencli_adapter'' then apply_materialize env materialize patched operation path
         else if op = ''connect_nodes'' then apply_connect_nodes patched operation path
         else if op = ''request_missing_capability'' then apply_request_missing patched operation path
         else if op = ''package_nodes'' then apply_package_nodes env patched operation path
         else (Inl [operation_error op path], []))"

section \<open>The preview\<close>

record patch_state =
  pt_project :: wf_project
  pt_errors :: "compile_error list"
  pt_missing :: "missing_capability list"
  pt_accepted :: "patch_operation list"

definition patch_step ::
  "compiler_env \<Rightarrow> adapter_materializer \<Rightarrow> nat \<times> patch_operation \<Rightarrow> patch_state \<Rightarrow> patch_state"
where
  "patch_step env materialize indexed st =
     (case indexed of (index, operation) \<Rightarrow>
        let effect = apply_operation env materialize (pt_project st) operation [''operations'', show_nat index];
            st' = st\<lparr>pt_missing := pt_missing st @ snd effect\<rparr>
        in (case fst effect of
              Inl errors \<Rightarrow> st'\<lparr>pt_errors := pt_errors st @ errors\<rparr>
            | Inr project \<Rightarrow> st'\<lparr>pt_project := project, pt_accepted := pt_accepted st @ [operation]\<rparr>))"

record patch_response =
  pr_valid :: bool
  pr_errors :: "compile_error list"
  pr_missing :: "missing_capability list"
  pr_operations :: "patch_operation list"
  pr_project :: "wf_project option"
  pr_compile :: "compile_response option"

text \<open>\<open>None\<close>: the compiler raised, and the exception leaves the preview.\<close>

definition preview_workflow_patch ::
  "compiler_env \<Rightarrow> adapter_materializer \<Rightarrow> wf_project \<Rightarrow> patch_operation list \<Rightarrow> patch_response option"
where
  "preview_workflow_patch env materialize project operations =
     (let st = fold (patch_step env materialize) (enumerate 0 operations)
           \<lparr>pt_project = project, pt_errors = [], pt_missing = [], pt_accepted = []\<rparr>;
          response = (\<lambda>ok errors proj comp. \<lparr>pr_valid = ok, pr_errors = errors, pr_missing = pt_missing st,
            pr_operations = pt_accepted st, pr_project = proj, pr_compile = comp\<rparr>)
      in if pt_errors st \<noteq> [] then Some (response False (pt_errors st) None None)
         else case compile_workflow_project env (pt_project st) of
             CompileRaised \<Rightarrow> None
           | CompileInvalid errors \<Rightarrow> Some (response False errors None (Some (CompileInvalid errors)))
           | CompileValid preview \<Rightarrow>
               Some (response True [] (Some (pt_project st)) (Some (CompileValid preview))))"

section \<open>Operations in sequence\<close>

text \<open>
  The specification of a preview: apply the operations in order, all or none.
\<close>

fun apply_all ::
  "compiler_env \<Rightarrow> adapter_materializer \<Rightarrow> nat \<Rightarrow> wf_project \<Rightarrow> patch_operation list \<Rightarrow> wf_project option"
where
  "apply_all env materialize index project [] = Some project"
| "apply_all env materialize index project (operation # operations) =
     (case fst (apply_operation env materialize project operation [''operations'', show_nat index]) of
        Inl errors \<Rightarrow> None
      | Inr project' \<Rightarrow> apply_all env materialize (Suc index) project' operations)"

lemmas apply_defs = apply_add_node_def apply_update_parameters_def apply_add_adapter_def apply_materialize_def
  apply_connect_nodes_def apply_request_missing_def apply_package_nodes_def

lemma package_nodes_errors: "package_nodes project operation package path = Inl errors \<Longrightarrow> errors \<noteq> []"
  by (auto simp: package_nodes_def Let_def split: if_splits)

lemma operation_errors_not_Nil:
  "fst (apply_operation env materialize patched operation path) = Inl errors \<Longrightarrow> errors \<noteq> []"
  by (auto simp: apply_operation_def apply_defs Let_def dest!: package_nodes_errors
      split: if_splits option.splits sum.splits prod.splits)

lemma patch_step_errors:
  "pt_errors st \<noteq> [] \<Longrightarrow> pt_errors (fold (patch_step env materialize) ops st) \<noteq> []"
proof (induction ops arbitrary: st)
  case (Cons op ops)
  have "pt_errors (patch_step env materialize op st) \<noteq> []"
    using Cons.prems by (simp add: patch_step_def Let_def split: prod.splits sum.splits)
  with Cons.IH show ?case by simp
qed simp

lemma patch_fold_applies_all:
  assumes "pt_errors st = []"
  shows "case apply_all env materialize i (pt_project st) operations of
      None \<Rightarrow> pt_errors (fold (patch_step env materialize) (enumerate i operations) st) \<noteq> []
    | Some project \<Rightarrow>
        pt_errors (fold (patch_step env materialize) (enumerate i operations) st) = [] \<and>
        pt_project (fold (patch_step env materialize) (enumerate i operations) st) = project \<and>
        pt_accepted (fold (patch_step env materialize) (enumerate i operations) st) = pt_accepted st @ operations"
  using assms
proof (induction operations arbitrary: i st)
  case (Cons operation operations)
  let ?effect = "apply_operation env materialize (pt_project st) operation [''operations'', show_nat i]"
  let ?st = "patch_step env materialize (i, operation) st"
  show ?case
  proof (cases "fst ?effect")
    case (Inl errors)
    then have "pt_errors ?st \<noteq> []"
      using operation_errors_not_Nil[OF Inl] by (simp add: patch_step_def Let_def)
    with Inl patch_step_errors show ?thesis by simp
  next
    case (Inr project)
    have st: "pt_errors ?st = []" "pt_project ?st = project" "pt_accepted ?st = pt_accepted st @ [operation]"
      using Inr Cons.prems by (simp_all add: patch_step_def Let_def)
    from Cons.IH[OF st(1), of "Suc i"] Inr st(2,3) show ?thesis by (simp split: option.splits)
  qed
qed simp

lemma validate_project_shown: "compile_workflow_project env project = CompileInvalid errors \<Longrightarrow> errors \<noteq> []"
  by (auto simp: compile_workflow_project_def Let_def valid_def split: if_splits)

text \<open>
  C16: a patch preview is all or nothing: the answer carries a project exactly if every operation could
  be applied, one after the other, and the result compiles; then all operations are listed as
  accepted and the project is their result. In every other answer there is no project, the
  preview is invalid and at least one error says why.
\<close>

theorem preview_all_or_nothing:
  assumes "preview_workflow_patch env materialize project operations = Some response"
  shows "case pr_project response of
      Some patched \<Rightarrow>
        apply_all env materialize 0 project operations = Some patched \<and> pr_operations response = operations \<and>
        (\<exists>preview. compile_workflow_project env patched = CompileValid preview \<and>
           pr_compile response = Some (CompileValid preview)) \<and> pr_valid response \<and> pr_errors response = []
    | None \<Rightarrow> \<not> pr_valid response \<and> pr_errors response \<noteq> [] \<and>
        (case apply_all env materialize 0 project operations of None \<Rightarrow> True
         | Some patched \<Rightarrow> compile_workflow_project env patched = CompileInvalid (pr_errors response))"
proof -
  define st where "st = fold (patch_step env materialize) (enumerate 0 operations)
    \<lparr>pt_project = project, pt_errors = [], pt_missing = [], pt_accepted = []\<rparr>"
  have fold: "case apply_all env materialize 0 project operations of None \<Rightarrow> pt_errors st \<noteq> []
      | Some p \<Rightarrow> pt_errors st = [] \<and> pt_project st = p \<and> pt_accepted st = operations"
    using patch_fold_applies_all[where i = 0 and env = env and materialize = materialize and operations = operations and
        st = "\<lparr>pt_project = project, pt_errors = [], pt_missing = [], pt_accepted = []\<rparr>"]
    by (simp add: st_def split: option.splits)
  show ?thesis
    using assms fold unfolding preview_workflow_patch_def st_def[symmetric] Let_def
    by (auto split: if_splits option.splits compile_response.splits dest: validate_project_shown)
qed

section \<open>Identifiers stay distinct\<close>

definition distinct_ids :: "wf_project \<Rightarrow> bool" where
  "distinct_ids project \<longleftrightarrow> distinct (map wn_id (pj_nodes project)) \<and> distinct (map ad_id (pj_adapters project))"

lemma map_update_first: "(\<And>x. key (f x) = key x) \<Longrightarrow> map key (update_first P f xs) = map key xs"
  by (induction xs) auto

lemma update_path_ids:
  "(\<And>n. wn_id (f n) = wn_id n) \<Longrightarrow> map wn_id (update_path f parts nodes) = map wn_id nodes"
  by (cases "(f, parts, nodes)" rule: update_path.cases) (auto intro!: map_update_first)

lemma set_params_id [simp]: "wn_id (set_params params n) = wn_id n"
  by (simp add: set_params_def with_params_def)

lemma package_nodes_distinct:
  "package_nodes project operation package path = Inr project' \<Longrightarrow> distinct_ids project \<Longrightarrow> distinct_ids project'"
  by (auto simp: package_nodes_def Let_def distinct_ids_def distinct_map_filter split: if_splits)

lemma merge_adapter_distinct:
  "merge_adapter adapters new = Some adapters' \<Longrightarrow> distinct (map ad_id adapters) \<Longrightarrow> distinct (map ad_id adapters')"
  by (fastforce simp: merge_adapter_def find_None_iff split: option.splits if_splits)

lemma apply_operation_distinct:
  "fst (apply_operation env materialize project operation path) = Inr project' \<Longrightarrow> distinct_ids project \<Longrightarrow>
     distinct_ids project'"
  by (auto simp: apply_operation_def apply_defs Let_def update_path_ids distinct_ids_def
      dest: merge_adapter_distinct package_nodes_distinct[unfolded distinct_ids_def]
      split: if_splits option.splits sum.splits prod.splits)

lemma apply_all_distinct:
  "apply_all env materialize i project operations = Some patched \<Longrightarrow> distinct_ids project \<Longrightarrow> distinct_ids patched"
  by (induction operations arbitrary: i project)
    (auto split: sum.splits dest: apply_operation_distinct)

text \<open>
  C40: whatever operations a patch holds, in whatever order, a previewed project has no two root nodes
  with the same id and no two adapters with the same id, if the project it started from had none.
\<close>

theorem preview_keeps_ids_distinct:
  assumes "preview_workflow_patch env materialize project operations = Some response"
    and "pr_project response = Some patched"
    and "distinct_ids project"
  shows "distinct_ids patched"
proof -
  define st where "st = fold (patch_step env materialize) (enumerate 0 operations)
    \<lparr>pt_project = project, pt_errors = [], pt_missing = [], pt_accepted = []\<rparr>"
  have "pt_errors st = []" "patched = pt_project st"
    using assms(1,2) unfolding preview_workflow_patch_def st_def[symmetric] Let_def
    by (auto split: if_splits compile_response.splits)
  then have "apply_all env materialize 0 project operations = Some patched"
    using patch_fold_applies_all[where i = 0 and env = env and materialize = materialize and operations = operations and
        st = "\<lparr>pt_project = project, pt_errors = [], pt_missing = [], pt_accepted = []\<rparr>"]
    by (auto simp: st_def[symmetric] split: option.splits)
  then show ?thesis using apply_all_distinct assms(3) by blast
qed

section \<open>What packaging does to the wires\<close>

text \<open>
  Packaging moves exactly the selected nodes, in order, into the new package, and keeps exactly the
  wires with both ends on the same side of its boundary. A wire that crossed the boundary is
  gone: nothing in the result is connected to the package.
\<close>

lemma packaging_drops_crossing_wires:
  assumes "package_nodes project operation package path = Inr patched"
    and "we_source ` set (pj_edges project) \<union> we_target ` set (pj_edges project) \<subseteq> wn_id ` set (pj_nodes project)"
  shows "\<exists>packed. wn_id packed = wn_id package \<and>
    pj_nodes patched = filter (\<lambda>n. wn_id n \<notin> set (po_internalNodeIds operation)) (pj_nodes project) @ [packed] \<and>
    inner_nodes packed = filter (\<lambda>n. wn_id n \<in> set (po_internalNodeIds operation)) (pj_nodes project) \<and>
    set (inner_wires packed) \<union> set (pj_edges patched) =
      {e \<in> set (pj_edges project). we_source e \<in> set (po_internalNodeIds operation) \<longleftrightarrow>
         we_target e \<in> set (po_internalNodeIds operation)} \<and>
    wn_id package \<notin> we_source ` set (pj_edges patched) \<union> we_target ` set (pj_edges patched)"
  using assms
  by (auto simp: package_nodes_def Let_def inner_nodes_def inner_wires_def split: if_splits) blast+

section \<open>What an update does to the node it names\<close>

lemma find_update_first:
  "(\<And>x. P (f x) = P x) \<Longrightarrow> find P (update_first P f xs) = map_option f (find P xs)"
  by (induction xs) auto

lemma find_update_path:
  "(\<And>n. wn_id (f n) = wn_id n) \<Longrightarrow> find_path parts (update_path f parts nodes) = map_option f (find_path parts nodes)"
proof (induction parts arbitrary: nodes)
  case (Cons part parts)
  show ?case
  proof (cases parts)
    case Nil
    with Cons.prems show ?thesis by (simp add: find_update_first)
  next
    case (Cons p ps)
    with Cons.IH[OF Cons.prems] Cons.prems show ?thesis
      by (simp add: find_update_first split: option.splits)
  qed
qed simp

lemma update_parameters_found:
  assumes "fst (apply_update_parameters project operation path) = Inr patched"
  shows "\<exists>n. find_node project (the (po_nodeId operation)) = Some n \<and>
    find_node patched (the (po_nodeId operation)) = Some (set_params (po_params operation) n)"
  using assms
  by (auto simp: apply_update_parameters_def Let_def find_node_def find_update_path split: if_splits)

section \<open>A patch on a packaged workflow\<close>

definition no_operation :: patch_operation where
  "no_operation = \<lparr>po_op = [], po_node = None, po_edge = None, po_adapter = None, po_nodeId = None,
     po_adapterNodeId = None, po_params = [], po_packageNode = None, po_internalNodeIds = [],
     po_capability = None, po_reason = None\<rparr>"

definition sample_operations :: "patch_operation list" where
  "sample_operations =
     [no_operation\<lparr>po_op := ''add_node'', po_node := Some (agent_node ''x'')\<rparr>,
      no_operation\<lparr>po_op := ''connect_nodes'', po_edge := Some (plain_edge ''k'' ''x'')\<rparr>,
      no_operation\<lparr>po_op := ''update_parameters'', po_nodeId := Some ''p::a'',
        po_params := [(''depth'', JInt 2)]\<rparr>]"

definition no_adapters :: adapter_materializer where
  "no_adapters i nid params = Inl (''unknown_opencli_adapter_node'', [])"

lemma sample_preview:
  "map_option pr_valid (preview_workflow_patch bare_env no_adapters (packaged_project None) sample_operations) = Some True"
  by code_simp

theorem preview_all_or_nothing_witness:
  "\<exists>response. preview_workflow_patch bare_env no_adapters (packaged_project None) sample_operations = Some response \<and>
     pr_project response \<noteq> None \<and> pr_operations response = sample_operations"
proof -
  from sample_preview obtain response where
    r: "preview_workflow_patch bare_env no_adapters (packaged_project None) sample_operations = Some response"
      "pr_valid response" by auto
  from preview_all_or_nothing[OF r(1)] r(2) have "pr_project response \<noteq> None" "pr_operations response = sample_operations"
    by (auto split: option.splits)
  with r(1) show ?thesis by blast
qed

lemma sample_project:
  "map_option (map_option (map wn_id \<circ> pj_nodes) \<circ> pr_project)
     (preview_workflow_patch bare_env no_adapters (packaged_project None) sample_operations) =
     Some (Some [''k'', ''p'', ''s'', ''x'']) \<and> distinct_ids (packaged_project None)"
  by code_simp

theorem preview_keeps_ids_distinct_witness:
  "\<exists>response patched. preview_workflow_patch bare_env no_adapters (packaged_project None) sample_operations = Some response \<and>
     pr_project response = Some patched \<and> map wn_id (pj_nodes patched) = [''k'', ''p'', ''s'', ''x''] \<and>
     distinct_ids patched"
proof -
  from sample_project obtain response patched where
    r: "preview_workflow_patch bare_env no_adapters (packaged_project None) sample_operations = Some response"
      "pr_project response = Some patched" "map wn_id (pj_nodes patched) = [''k'', ''p'', ''s'', ''x'']" by auto
  have "distinct_ids patched"
    by (rule preview_keeps_ids_distinct[OF r(1,2)]) (rule conjunct2[OF sample_project])
  with r show ?thesis by (intro exI[of _ response] exI[of _ patched] conjI)
qed

definition chain_project :: wf_project where
  "chain_project = plain_project [agent_node ''a'', agent_node ''b'', agent_node ''c'']
     [plain_edge ''a'' ''b'', plain_edge ''b'' ''c'']"

definition package_ab :: patch_operation where
  "package_ab = no_operation\<lparr>po_op := ''package_nodes'', po_packageNode := Some (agent_node ''p''),
     po_internalNodeIds := [''a'', ''b'']\<rparr>"

lemma packaging_drops_crossing_wires_witness:
  "\<exists>patched. package_nodes chain_project package_ab (agent_node ''p'') [] = Inr patched \<and>
     pj_edges patched = [] \<and> pj_edges chain_project = [plain_edge ''a'' ''b'', plain_edge ''b'' ''c''] \<and>
     (\<exists>packed. pj_nodes patched = [agent_node ''c'', packed] \<and> wn_id packed = ''p'')"
proof -
  let ?patched = "chain_project\<lparr>pj_nodes := [agent_node ''c'', WfNode (wn_data (agent_node ''p''))
    (Some (WfInternals None [agent_node ''a'', agent_node ''b''] [plain_edge ''a'' ''b'']))], pj_edges := []\<rparr>"
  have eq: "package_nodes chain_project package_ab (agent_node ''p'') [] = Inr ?patched"
    by (simp add: package_nodes_def chain_project_def package_ab_def plain_project_def plain_edge_def
        agent_node_def plain_node_def no_operation_def dict_keys_def)
  have wired: "we_source ` set (pj_edges chain_project) \<union> we_target ` set (pj_edges chain_project) \<subseteq>
      wn_id ` set (pj_nodes chain_project)" by code_simp
  from packaging_drops_crossing_wires[OF eq wired] eq show ?thesis
    by (auto simp: chain_project_def plain_project_def package_ab_def agent_node_def plain_node_def no_operation_def)
qed

end
