(* ===== verification/Normalizer.thy ===== *)
theory Normalizer
  imports CronText Storer
begin

text \<open>
  Normalization of collected items (\<open>backend/pipeline/normalizer.py\<close>): the standard fields by
  prioritized aliases, extra fields under a prefix, and the content hash that deduplication keys
  on. SHA-256, \<open>json.dumps\<close> and the text of a float are the record \<open>text_ops\<close>.
\<close>

section \<open>Aliases\<close>

definition TITLE_KEYS :: "string list" where
  "TITLE_KEYS = [''title'', ''name'', ''word'', ''topic'', ''headline'', ''subject'']"

definition URL_KEYS :: "string list" where
  "URL_KEYS = [''url'', ''link'', ''href'', ''permalink'']"

definition CONTENT_KEYS :: "string list" where
  "CONTENT_KEYS = [''content'', ''text'', ''body'', ''summary'', ''description'']"

definition AUTHOR_KEYS :: "string list" where
  "AUTHOR_KEYS = [''author'', ''channel'', ''creator'', ''by'', ''user'']"

definition DATE_KEYS :: "string list" where
  "DATE_KEYS =
     [''displayTime'', ''create_time'', ''published_at'', ''publishedAt'', ''published'', ''sent_at'',
      ''sentAt'', ''created_at'', ''time'', ''timestamp'', ''noticeDate'', ''date'', ''listed'', ''updated'']"

definition lower_char :: "char \<Rightarrow> char" where
  "lower_char c = (let n = of_char c :: nat in if 65 \<le> n \<and> n \<le> 90 then char_of (n + 32) else c)"

definition lower :: "string \<Rightarrow> string" where
  "lower s = map lower_char s"

definition STANDARD_KEYS_LOWER :: "string list" where
  "STANDARD_KEYS_LOWER = map lower (TITLE_KEYS @ URL_KEYS @ CONTENT_KEYS @ AUTHOR_KEYS @ DATE_KEYS)"

section \<open>Items\<close>

record text_ops =
  sha256_hex :: "string \<Rightarrow> string"
  json_dumps :: "json dict \<Rightarrow> string"
  float_str :: "rat \<Rightarrow> string"

fun value_text :: "text_ops \<Rightarrow> json \<Rightarrow> string option" where
  "value_text ops (JStr s) = (if s = [] then None else Some s)"
| "value_text ops (JInt i) = Some (show_int i)"
| "value_text ops (JFloat q) = Some (float_str ops q)"
| "value_text ops v = None"

definition lower_map :: "json dict \<Rightarrow> json dict" where
  "lower_map item = fold (\<lambda>(k, v) d. dict_set d (lower k) v) item []"

fun first_text :: "text_ops \<Rightarrow> json dict \<Rightarrow> string list \<Rightarrow> string" where
  "first_text ops d [] = []"
| "first_text ops d (key # keys) =
     (case dict_get d (lower key) of
        None \<Rightarrow> first_text ops d keys
      | Some v \<Rightarrow> (case value_text ops v of None \<Rightarrow> first_text ops d keys | Some s \<Rightarrow> s))"

definition first_field :: "text_ops \<Rightarrow> json dict \<Rightarrow> string list \<Rightarrow> string" where
  "first_field ops item keys = first_text ops (lower_map item) keys"

definition is_extra :: "string \<Rightarrow> bool" where
  "is_extra k \<longleftrightarrow> \<not> List.member STANDARD_KEYS_LOWER (lower k)"

definition extra_key :: "string \<Rightarrow> string" where
  "extra_key k = ''extra_'' @ k"

definition carry_extras :: "json dict \<Rightarrow> json dict \<Rightarrow> json dict" where
  "carry_extras raw normalized =
     fold (\<lambda>(k, v) d. if is_extra k then dict_set d (extra_key k) v else d) raw normalized"

definition dedup_string :: "text_ops \<Rightarrow> json dict \<Rightarrow> string \<Rightarrow> string" where
  "dedup_string ops raw source_id =
     (let title = first_field ops raw TITLE_KEYS; url = first_field ops raw URL_KEYS;
          content = first_field ops raw CONTENT_KEYS
      in if title @ url @ content \<noteq> []
         then title @ ''|'' @ url @ ''|'' @ content @ ''|'' @ source_id
         else source_id @ ''|'' @ json_dumps ops raw)"

definition normalize_item :: "text_ops \<Rightarrow> json dict \<Rightarrow> string \<Rightarrow> json dict \<times> string" where
  "normalize_item ops raw source_id =
     (let normalized =
            [(''title'', JStr (first_field ops raw TITLE_KEYS)),
             (''url'', JStr (first_field ops raw URL_KEYS)),
             (''content'', JStr (first_field ops raw CONTENT_KEYS)),
             (''author'', JStr (first_field ops raw AUTHOR_KEYS)),
             (''published_at'', JStr (first_field ops raw DATE_KEYS)),
             (''source_id'', JStr source_id)]
      in (carry_extras raw normalized, sha256_hex ops (dedup_string ops raw source_id)))"

definition normalize_items :: "text_ops \<Rightarrow> json dict list \<Rightarrow> string \<Rightarrow> triple list" where
  "normalize_items ops raw_items source_id =
     map (\<lambda>raw. let (normalized, content_hash) = normalize_item ops raw source_id
                in (raw, normalized, content_hash)) raw_items"

lemma length_normalize_items [simp]: "length (normalize_items ops items sid) = length items"
  by (simp add: normalize_items_def)

lemma normalize_items_raw [simp]: "map fst (normalize_items ops items sid) = items"
  by (simp add: normalize_items_def comp_def case_prod_beta Let_def)

section \<open>What normalization keeps\<close>

definition STANDARD_FIELDS :: "string list" where
  "STANDARD_FIELDS = [''title'', ''url'', ''content'', ''author'', ''published_at'', ''source_id'']"

lemma lower_map_get: "dict_get (lower_map item) k = map_of (rev (map (\<lambda>(k, v). (lower k, v)) item)) k"
proof -
  have "map_of (fold (\<lambda>(k, v) d. dict_set d (lower k) v) item d) =
      map_of d ++ map_of (rev (map (\<lambda>(k, v). (lower k, v)) item))" for d
  proof (induction item arbitrary: d)
    case (Cons kv item)
    obtain k v where kv: "kv = (k, v)" by fastforce
    show ?case using Cons[of "dict_set d (lower k) v"]
      by (simp add: kv map_add_def fun_eq_iff split: option.splits)
  qed simp
  from this[of "[]"] show ?thesis by (simp add: dict_get_def lower_map_def)
qed

lemma extra_key_not_standard: "extra_key k \<notin> set STANDARD_FIELDS"
  by (simp add: extra_key_def STANDARD_FIELDS_def)

lemma extra_key_inject [simp]: "extra_key a = extra_key b \<longleftrightarrow> a = b"
  by (simp add: extra_key_def)

lemma carry_extras_get:
  "map_of (carry_extras raw d) k =
     (case map_of (rev (map (\<lambda>(k, v). (extra_key k, v)) (filter (\<lambda>(k, _). is_extra k) raw))) k of
        None \<Rightarrow> map_of d k | Some v \<Rightarrow> Some v)"
  unfolding carry_extras_def
  by (induction raw arbitrary: d) (auto simp: map_add_def split: option.splits)

lemma carry_extras_distinct:
  "distinct (map fst d) \<Longrightarrow> distinct (map fst (carry_extras raw d))"
proof -
  have set_keys: "set (map fst (dict_set d k v)) = insert k (set (map fst d))" for d :: "json dict" and k v
    by (induction d k v rule: dict_set.induct) auto
  have "distinct (map fst d) \<Longrightarrow> distinct (map fst (dict_set d k v))" for d :: "json dict" and k v
    by (induction d k v rule: dict_set.induct) (use set_keys in \<open>force\<close>)+
  then show "distinct (map fst d) \<Longrightarrow> distinct (map fst (carry_extras raw d))"
    unfolding carry_extras_def by (induction raw arbitrary: d) auto
qed

lemma map_of_extra_keys:
  "distinct (map fst xs) \<Longrightarrow>
    map_of (rev (map (\<lambda>(k, v). (extra_key k, v)) (filter (\<lambda>(k, _). P k) xs))) (extra_key k) =
      (if P k then map_of xs k else None)"
proof (induction xs)
  case (Cons x xs)
  have "k = fst x \<Longrightarrow> map_of xs k = None" using Cons.prems by (auto simp: map_of_eq_None_iff)
  with Cons show ?case by (cases x) (auto simp: map_add_def split: option.splits)
qed simp

text \<open>
  C36: what an item becomes: the six standard fields are present and are strings, a key that is no
  alias of a standard field is carried over unchanged under its prefixed name, nothing else is
  added, no key occurs twice, and the field of a source is the source's id.
\<close>

theorem normalized_item_typed:
  fixes ops :: text_ops and source_id :: string
  assumes "distinct (map fst raw)"
  defines "n \<equiv> fst (normalize_item ops raw source_id)"
  shows "(\<forall>f \<in> set STANDARD_FIELDS. \<exists>s. dict_get n f = Some (JStr s)) \<and>
    (\<forall>k v. is_extra k \<longrightarrow> dict_get n (extra_key k) = dict_get raw k) \<and>
    (\<forall>k v. dict_get n k = Some v \<longrightarrow>
       k \<in> set STANDARD_FIELDS \<or> (\<exists>k'. k = extra_key k' \<and> is_extra k' \<and> dict_get raw k' = Some v)) \<and>
    distinct (map fst n) \<and> dict_get n ''source_id'' = Some (JStr source_id)"
proof -
  let ?std = "[(''title'', JStr (first_field ops raw TITLE_KEYS)), (''url'', JStr (first_field ops raw URL_KEYS)),
    (''content'', JStr (first_field ops raw CONTENT_KEYS)), (''author'', JStr (first_field ops raw AUTHOR_KEYS)),
    (''published_at'', JStr (first_field ops raw DATE_KEYS)), (''source_id'', JStr source_id)]"
  have n: "n = carry_extras raw ?std" by (simp add: n_def normalize_item_def)
  let ?ex = "rev (map (\<lambda>(k, v). (extra_key k, v)) (filter (\<lambda>(k, _). is_extra k) raw))"
  have get: "dict_get n k = (case map_of ?ex k of None \<Rightarrow> map_of ?std k | Some v \<Rightarrow> Some v)" for k
    unfolding dict_get_def n by (rule carry_extras_get)
  have notex: "map_of ?ex k = None" if "k \<in> set STANDARD_FIELDS" for k
    using that extra_key_not_standard by (auto simp: map_of_eq_None_iff)
  have std: "dict_get n k = map_of ?std k" if "k \<in> set STANDARD_FIELDS" for k
    using notex[OF that] by (simp add: get)
  have extra: "map_of ?ex (extra_key k) = (if is_extra k then map_of raw k else None)" for k
    by (rule map_of_extra_keys[OF assms(1)])
  have none: "map_of ?std (extra_key k) = None" for k by (simp add: extra_key_def)
  have "\<forall>f \<in> set STANDARD_FIELDS. \<exists>s. dict_get n f = Some (JStr s)"
    using std by (simp add: STANDARD_FIELDS_def)
  moreover have "\<forall>k v. is_extra k \<longrightarrow> dict_get n (extra_key k) = dict_get raw k"
    using get extra none by (auto simp: dict_get_def split: option.splits)
  moreover have "k \<in> set STANDARD_FIELDS \<or> (\<exists>k'. k = extra_key k' \<and> is_extra k' \<and> dict_get raw k' = Some v)"
    if "dict_get n k = Some v" for k v
  proof (cases "map_of ?ex k")
    case None
    with that have "map_of ?std k = Some v" by (simp add: get)
    then have "k \<in> set STANDARD_FIELDS" by (auto simp: STANDARD_FIELDS_def split: if_splits)
    then show ?thesis ..
  next
    case (Some w)
    then have "w = v" using that by (simp add: get)
    obtain k' where "k = extra_key k'" "is_extra k'" using map_of_SomeD[OF Some] by auto
    with Some extra[of k'] \<open>w = v\<close> show ?thesis by (auto simp: dict_get_def)
  qed
  moreover have "distinct (map fst n)" unfolding n by (rule carry_extras_distinct) simp
  moreover have "dict_get n ''source_id'' = Some (JStr source_id)" using std by (simp add: STANDARD_FIELDS_def)
  ultimately show ?thesis by blast
qed

definition plain_ops :: text_ops where
  "plain_ops = \<lparr>sha256_hex = (\<lambda>s. s), json_dumps = (\<lambda>d. ''{}''), float_str = (\<lambda>q. ''0.0'')\<rparr>"

theorem normalized_item_typed_witness:
  "dict_get (fst (normalize_item plain_ops [(''Title'', JStr ''t''), (''votes'', JInt 3)] ''s'')) (extra_key ''votes'') =
     Some (JInt 3)"
proof -
  have "distinct (map fst [(''Title'', JStr ''t''), (''votes'', JInt 3)])" by simp
  moreover have "is_extra ''votes''" by code_simp
  ultimately show ?thesis
    using normalized_item_typed[of "[(''Title'', JStr ''t''), (''votes'', JInt 3)]" plain_ops "''s''"]
    by (simp add: dict_get_def)
qed

section \<open>What the content hash depends on\<close>

definition same_content :: "text_ops \<Rightarrow> json dict \<Rightarrow> json dict \<Rightarrow> bool" where
  "same_content ops a b \<longleftrightarrow>
     first_field ops a TITLE_KEYS = first_field ops b TITLE_KEYS \<and>
     first_field ops a URL_KEYS = first_field ops b URL_KEYS \<and>
     first_field ops a CONTENT_KEYS = first_field ops b CONTENT_KEYS"

definition has_content :: "text_ops \<Rightarrow> json dict \<Rightarrow> bool" where
  "has_content ops a \<longleftrightarrow> first_field ops a TITLE_KEYS \<noteq> [] \<or> first_field ops a URL_KEYS \<noteq> [] \<or>
     first_field ops a CONTENT_KEYS \<noteq> []"

lemma split_at_bar:
  "CHR ''|'' \<notin> set a \<Longrightarrow> CHR ''|'' \<notin> set c \<Longrightarrow> a @ CHR ''|'' # b = c @ CHR ''|'' # d \<Longrightarrow> a = c \<and> b = d"
  by (induction a arbitrary: c) (case_tac c; auto)+

text \<open>
  Deduplication is blind to everything but title, url and content: author, date, extra fields
  and the spelling of the keys do not enter the hash of an item that has content. It tells items
  of one source apart if their titles and urls are free of the separator and the hash function
  does not collide on the two.
\<close>

lemma content_hash_exact:
  assumes "has_content ops a" and "has_content ops b"
  shows "(same_content ops a b \<longrightarrow> snd (normalize_item ops a s) = snd (normalize_item ops b s)) \<and>
    (snd (normalize_item ops a s) = snd (normalize_item ops b s) \<longrightarrow>
      (sha256_hex ops (dedup_string ops a s) = sha256_hex ops (dedup_string ops b s) \<longrightarrow>
         dedup_string ops a s = dedup_string ops b s) \<longrightarrow>
      (\<forall>x \<in> {a, b}. \<forall>keys \<in> {TITLE_KEYS, URL_KEYS}. CHR ''|'' \<notin> set (first_field ops x keys)) \<longrightarrow>
      same_content ops a b)"
proof (intro conjI impI)
  assume "same_content ops a b"
  with assms show "snd (normalize_item ops a s) = snd (normalize_item ops b s)"
    by (simp add: same_content_def normalize_item_def dedup_string_def has_content_def Let_def)
next
  assume eq: "snd (normalize_item ops a s) = snd (normalize_item ops b s)"
    and inj: "sha256_hex ops (dedup_string ops a s) = sha256_hex ops (dedup_string ops b s) \<longrightarrow>
      dedup_string ops a s = dedup_string ops b s"
    and bars: "\<forall>x \<in> {a, b}. \<forall>keys \<in> {TITLE_KEYS, URL_KEYS}. CHR ''|'' \<notin> set (first_field ops x keys)"
  have str: "has_content ops x \<Longrightarrow> dedup_string ops x s = first_field ops x TITLE_KEYS @ CHR ''|'' #
      first_field ops x URL_KEYS @ CHR ''|'' # first_field ops x CONTENT_KEYS @ CHR ''|'' # s" for x
    by (simp add: dedup_string_def has_content_def Let_def)
  have all: "first_field ops a TITLE_KEYS @ CHR ''|'' # first_field ops a URL_KEYS @ CHR ''|'' #
        first_field ops a CONTENT_KEYS @ CHR ''|'' # s =
      first_field ops b TITLE_KEYS @ CHR ''|'' # first_field ops b URL_KEYS @ CHR ''|'' #
        first_field ops b CONTENT_KEYS @ CHR ''|'' # s"
    using eq inj by (simp add: normalize_item_def Let_def flip: str[OF assms(1)] str[OF assms(2)])
  have 1: "first_field ops a TITLE_KEYS = first_field ops b TITLE_KEYS"
    and all2: "first_field ops a URL_KEYS @ CHR ''|'' # first_field ops a CONTENT_KEYS @ CHR ''|'' # s =
      first_field ops b URL_KEYS @ CHR ''|'' # first_field ops b CONTENT_KEYS @ CHR ''|'' # s"
    using split_at_bar[OF _ _ all] bars by auto
  have "first_field ops a URL_KEYS = first_field ops b URL_KEYS"
    and "first_field ops a CONTENT_KEYS = first_field ops b CONTENT_KEYS"
    using split_at_bar[OF _ _ all2] bars by auto
  with 1 show "same_content ops a b" by (simp add: same_content_def)
qed

lemma content_hash_exact_witness:
  "snd (normalize_item plain_ops [(''Title'', JStr ''t''), (''author'', JStr ''x'')] ''s'') =
   snd (normalize_item plain_ops [(''name'', JStr ''t''), (''votes'', JInt 3)] ''s'')"
proof -
  have "has_content plain_ops [(''Title'', JStr ''t''), (''author'', JStr ''x'')]"
    "has_content plain_ops [(''name'', JStr ''t''), (''votes'', JInt 3)]"
    "same_content plain_ops [(''Title'', JStr ''t''), (''author'', JStr ''x'')]
       [(''name'', JStr ''t''), (''votes'', JInt 3)]" by code_simp+
  with content_hash_exact show ?thesis by blast
qed

text \<open>Without that condition different items share a hash, and the second one is never stored.\<close>

lemma separator_confuses_items:
  "dedup_string ops [(''title'', JStr ''a|b''), (''url'', JStr ''c'')] s =
     dedup_string ops [(''title'', JStr ''a''), (''url'', JStr ''b|c'')] s"
  by (simp add: dedup_string_def first_field_def lower_map_def TITLE_KEYS_def URL_KEYS_def CONTENT_KEYS_def
      lower_def lower_char_def dict_get_def Let_def)

end
