(* ===== verification/OdpClient.thy ===== *)
theory OdpClient
  imports Normalizer ErrorKinds
begin

text \<open>
  The forward to the ODP ingest service: the wire contract (\<open>backend/odp/schemas.py\<close>), the
  mapper from normalized items (\<open>backend/odp/mapper.py\<close>) and the client
  (\<open>backend/pipeline/odp_client.py\<close>). The service is the parameter \<open>oe_post\<close>; it may
  answer differently to every batch. Parsing and printing of timestamps and \<open>int()\<close> on strings
  are parameters.
\<close>

section \<open>The wire contract\<close>

definition SCHEMA_VERSION :: int where
  "SCHEMA_VERSION = 1"

record record_event =
  ev_provider :: string
  ev_source_id :: string
  ev_event_id :: string
  ev_source_ts :: string
  ev_payload :: "json dict"
  ev_raw_data :: "json dict"
  ev_ingest_mode :: string
  ev_cursor :: "string option"
  ev_trace_id :: "string option"
  ev_task_id :: "string option"

definition to_wire :: "record_event \<Rightarrow> json dict" where
  "to_wire e =
     [(''schema_version'', JInt SCHEMA_VERSION), (''provider'', JStr (ev_provider e)),
      (''source_id'', JStr (ev_source_id e)), (''event_id'', JStr (ev_event_id e)),
      (''ingest_mode'', JStr (ev_ingest_mode e)), (''source_ts'', JStr (ev_source_ts e)),
      (''cursor'', opt_str (ev_cursor e)), (''payload'', JObj (ev_payload e)),
      (''raw_data'', JObj (ev_raw_data e)), (''trace_id'', opt_str (ev_trace_id e)),
      (''task_id'', opt_str (ev_task_id e))]"

text \<open>\<open>int(value)\<close>; a float is cut off towards zero.\<close>

fun json_int :: "(string \<Rightarrow> int option) \<Rightarrow> json \<Rightarrow> exn + int" where
  "json_int parse_int (JInt n) = Inr n"
| "json_int parse_int (JBool b) = Inr (if b then 1 else 0)"
| "json_int parse_int (JFloat q) = Inr (if q < 0 then \<lceil>q\<rceil> else \<lfloor>q\<rfloor>)"
| "json_int parse_int (JStr s) = (case parse_int s of None \<Rightarrow> Inl (Exn ''ValueError'') | Some n \<Rightarrow> Inr n)"
| "json_int parse_int v = Inl (Exn ''TypeError'')"

definition count_field :: "(string \<Rightarrow> int option) \<Rightarrow> json dict \<Rightarrow> string \<Rightarrow> exn + int" where
  "count_field parse_int d k = json_int parse_int (dict_get_or d k (JInt 0))"

record ingest_reject =
  ir_index :: int
  ir_reason :: json
  ir_event_id :: json

definition reject_from_wire :: "(string \<Rightarrow> int option) \<Rightarrow> json \<Rightarrow> exn + ingest_reject" where
  "reject_from_wire parse_int v =
     (case v of
        JObj d \<Rightarrow>
          (case count_field parse_int d ''index'' of
             Inl e \<Rightarrow> Inl e
           | Inr n \<Rightarrow> Inr \<lparr>ir_index = n, ir_reason = dict_get_or d ''reason'' (JStr []),
                          ir_event_id = dict_get_or d ''event_id'' JNull\<rparr>)
      | _ \<Rightarrow> Inl (Exn ''AttributeError''))"

fun rejects_from_wire :: "(string \<Rightarrow> int option) \<Rightarrow> json list \<Rightarrow> exn + ingest_reject list" where
  "rejects_from_wire parse_int [] = Inr []"
| "rejects_from_wire parse_int (v # vs) =
     (case reject_from_wire parse_int v of
        Inl e \<Rightarrow> Inl e
      | Inr r \<Rightarrow> (case rejects_from_wire parse_int vs of Inl e \<Rightarrow> Inl e | Inr rs \<Rightarrow> Inr (r # rs)))"

record odp_ingest_response =
  or_accepted :: int
  or_duplicates :: int
  or_rejected :: int
  or_errors :: "ingest_reject list"

text \<open>
  \<open>for e in d.get("errors") or []\<close>: a list is walked; the keys of an object and the characters
  of a string have no \<open>get\<close>; other true values cannot be walked.
\<close>

definition wire_errors :: "(string \<Rightarrow> int option) \<Rightarrow> json dict \<Rightarrow> exn + ingest_reject list" where
  "wire_errors parse_int d =
     (let errors = dict_get d ''errors''
      in if \<not> py_truthy errors then Inr []
         else case errors of
           Some (JList vs) \<Rightarrow> rejects_from_wire parse_int vs
         | Some (JObj _) \<Rightarrow> Inl (Exn ''AttributeError'')
         | Some (JStr _) \<Rightarrow> Inl (Exn ''AttributeError'')
         | _ \<Rightarrow> Inl (Exn ''TypeError''))"

definition response_from_wire :: "(string \<Rightarrow> int option) \<Rightarrow> json \<Rightarrow> exn + odp_ingest_response" where
  "response_from_wire parse_int v =
     (case v of
        JObj d \<Rightarrow>
          (case count_field parse_int d ''accepted'' of Inl e \<Rightarrow> Inl e | Inr accepted \<Rightarrow>
          (case count_field parse_int d ''duplicates'' of Inl e \<Rightarrow> Inl e | Inr duplicates \<Rightarrow>
          (case count_field parse_int d ''rejected'' of Inl e \<Rightarrow> Inl e | Inr rejected \<Rightarrow>
          (case wire_errors parse_int d of Inl e \<Rightarrow> Inl e | Inr errors \<Rightarrow>
             Inr \<lparr>or_accepted = accepted, or_duplicates = duplicates, or_rejected = rejected,
                  or_errors = errors\<rparr>))))
      | _ \<Rightarrow> Inl (Exn ''AttributeError''))"

section \<open>The mapper\<close>

text \<open>
  What the mapper takes from the \<open>datetime\<close> module: an ISO timestamp parsed, read as UTC if it
  is naive, and printed again; and the current time, printed.
\<close>

record time_ops =
  reformat_iso :: "string \<Rightarrow> string option"
  now_iso :: string

function replace_all :: "string \<Rightarrow> string \<Rightarrow> string \<Rightarrow> string" where
  "replace_all old new s =
     (if old = [] \<or> s = [] then s
      else if prefix old s then new @ replace_all old new (drop (length old) s)
      else hd s # replace_all old new (tl s))"
  by pat_completeness auto

termination replace_all
  by (relation "measure (\<lambda>(_, _, s). length s)") auto

declare replace_all.simps [simp del]

definition provider_for_channel :: "string \<Rightarrow> string" where
  "provider_for_channel channel_type = ''opencli-admin/'' @ channel_type"

definition source_ts :: "time_ops \<Rightarrow> json dict \<Rightarrow> string" where
  "source_ts tops normalized =
     (let published = (case dict_get normalized ''published_at'' of Some (JStr s) \<Rightarrow> s | _ \<Rightarrow> []);
          ts = (if published \<noteq> []
                then case reformat_iso tops (replace_all ''Z'' ''+00:00'' published) of
                    Some t \<Rightarrow> t | None \<Rightarrow> now_iso tops
                else now_iso tops)
      in replace_all ''+00:00'' ''Z'' ts)"

definition from_triple :: "time_ops \<Rightarrow> string \<Rightarrow> string \<Rightarrow> string \<Rightarrow> triple \<Rightarrow> record_event" where
  "from_triple tops channel_type source_id task_id t =
     \<lparr>ev_provider = provider_for_channel channel_type, ev_source_id = source_id,
      ev_event_id = snd (snd t), ev_source_ts = source_ts tops (fst (snd t)),
      ev_payload = fst (snd t), ev_raw_data = fst t, ev_ingest_mode = ''snapshot'',
      ev_cursor = None, ev_trace_id = None, ev_task_id = Some task_id\<rparr>"

section \<open>The client\<close>

text \<open>
  The environment: the variable \<open>ODP_INGEST_URL\<close> and the service, which answers the
  \<open>n\<close>-th batch with a transport error or a status and a body that may not parse.
\<close>

record odp_env =
  oe_url :: string
  oe_post :: "nat \<Rightarrow> string \<Rightarrow> json dict list \<Rightarrow> exn + int \<times> (exn + json)"
  oe_int :: "string \<Rightarrow> int option"
  oe_time :: time_ops

definition rstrip_slash :: "string \<Rightarrow> string" where
  "rstrip_slash s = rev (dropWhile (\<lambda>c. c = CHR ''/'') (rev s))"

definition ingest_url :: "odp_env \<Rightarrow> string option" where
  "ingest_url env = (let base = rstrip_slash (strip (oe_url env)) in if base = [] then None else Some base)"

definition status_error :: "int \<Rightarrow> exn" where
  "status_error status =
     ChannelFetchError (Some (if is_retryable_http_status status then ''RetryableHTTPStatus''
                              else ''PermanentHTTPStatus'')) (Some (Exn ''HTTPStatusError''))"

text \<open>\<open>posted\<close> are the batches the service was sent before.\<close>

definition post_batch ::
  "odp_env \<Rightarrow> json dict list \<Rightarrow> json dict list list \<Rightarrow> (exn + int \<times> int \<times> int) \<times> json dict list list"
where
  "post_batch env events posted =
     (case ingest_url env of
        None \<Rightarrow> (Inr (0, 0, 0), posted)
      | Some url \<Rightarrow>
          if events = [] then (Inr (0, 0, 0), posted)
          else
            (case oe_post env (length posted) (url @ ''/v1/ingest/batch'') events of
               Inl e \<Rightarrow> Inl e
             | Inr (status, body) \<Rightarrow>
                 if \<not> (200 \<le> status \<and> status < 300) then Inl (status_error status)
                 else case body of
                     Inl e \<Rightarrow> Inl e
                   | Inr d \<Rightarrow>
                       (case response_from_wire (oe_int env) d of
                          Inl e \<Rightarrow> Inl e
                        | Inr r \<Rightarrow> Inr (or_accepted r, or_duplicates r, or_rejected r)),
             posted @ [events]))"

definition triple_to_event :: "odp_env \<Rightarrow> string \<Rightarrow> string \<Rightarrow> string \<Rightarrow> triple \<Rightarrow> json dict" where
  "triple_to_event env channel_type source_id task_id t =
     to_wire (from_triple (oe_time env) channel_type source_id task_id t)"

definition forward_triples ::
  "odp_env \<Rightarrow> string \<Rightarrow> string \<Rightarrow> string \<Rightarrow> triple list \<Rightarrow> json dict list list \<Rightarrow>
   (exn + int \<times> int \<times> int) \<times> json dict list list"
where
  "forward_triples env channel_type task_id source_id triples posted =
     post_batch env (map (triple_to_event env channel_type source_id task_id) triples) posted"

lemma forward_posts:
  "snd (forward_triples env ct tid sid triples posted) = posted \<or>
   snd (forward_triples env ct tid sid triples posted) =
     posted @ [map (triple_to_event env ct sid tid) triples]"
  by (simp add: forward_triples_def post_batch_def split: option.splits)

text \<open>
  An ingest service that answers with an error status raises an error the pipeline retries exactly
  if the status is a timeout, a rate limit or a server error.
\<close>

lemma ingest_status_classified:
  assumes "ingest_url env = Some url" and "events \<noteq> []"
    and "oe_post env (length posted) (url @ ''/v1/ingest/batch'') events = Inr (status, body)"
    and "\<not> (200 \<le> status \<and> status < 300)"
  shows "\<exists>e. post_batch env events posted = (Inl e, posted @ [events]) \<and>
    (is_retryable (Some (effective_error_type e)) \<longleftrightarrow> status \<in> {408, 429} \<or> status \<ge> 500)"
proof -
  have "is_retryable (Some (effective_error_type (status_error status))) \<longleftrightarrow> is_retryable_http_status status"
    by (simp add: status_error_def is_retryable_iff RETRYABLE_def)
  moreover have "is_retryable_http_status status \<longleftrightarrow> status \<in> {408, 429} \<or> status \<ge> 500"
    by (simp add: is_retryable_http_status_def)
  ultimately show ?thesis using assms by (simp add: post_batch_def)
qed

definition demo_odp :: odp_env where
  "demo_odp = \<lparr>oe_url = ''http://odp/ '', oe_post = (\<lambda>_ _ _. Inr (503, Inl (Exn ''JSONDecodeError''))),
     oe_int = (\<lambda>_. None), oe_time = \<lparr>reformat_iso = (\<lambda>_. None), now_iso = ''t''\<rparr>\<rparr>"

lemma ingest_status_classified_witness:
  "\<exists>e. post_batch demo_odp [[]] [] = (Inl e, [[[]]]) \<and> is_retryable (Some (effective_error_type e))"
proof -
  have "ingest_url demo_odp = Some ''http://odp''" by code_simp
  from ingest_status_classified[OF this, of "[[]]" "[]" 503] show ?thesis by (simp add: demo_odp_def)
qed

end
