(* ===== verification/Lineage.thy ===== *)
theory Lineage
  imports OdpClient
begin

text \<open>
  Provenance of a collection run (\<open>backend/pipeline/sinks/base.py\<close>): the envelope, its JSON
  form, and how the context of a run builds it. The envelope that is stored is JSON, so its
  references are strings or null and the artifact references a list or null.
\<close>

section \<open>The envelope\<close>

record collection_lineage =
  ln_task_id :: "string option"
  ln_source_id :: "string option"
  ln_provider :: "string option"
  ln_ingest_mode :: "string option"
  ln_collection_run_id :: "string option"
  ln_acquisition_execution_id :: "string option"
  ln_source_revision_id :: "string option"
  ln_source_binding_revision_id :: "string option"
  ln_account_revision_id :: "string option"
  ln_credential_revision_id :: "string option"
  ln_project_id :: "string option"
  ln_scope_ref :: "string option"
  ln_worker_id :: "string option"
  ln_runtime_id :: "string option"
  ln_trace_id :: "string option"
  ln_trace_ref :: "string option"
  ln_artifact_refs :: "json list option"

definition opt_list :: "json list option \<Rightarrow> json" where
  "opt_list vs = (case vs of None \<Rightarrow> JNull | Some xs \<Rightarrow> JList xs)"

definition LINEAGE_KEYS :: "string list" where
  "LINEAGE_KEYS =
     [''task_id'', ''source_id'', ''provider'', ''ingest_mode'', ''collection_run_id'',
      ''acquisition_execution_id'', ''source_revision_id'', ''source_binding_revision_id'',
      ''account_revision_id'', ''credential_revision_id'', ''project_id'', ''scope_ref'',
      ''worker_id'', ''runtime_id'', ''trace_id'', ''trace_ref'', ''artifact_refs'']"

definition lineage_dict :: "collection_lineage \<Rightarrow> json dict" where
  "lineage_dict l =
     [(''task_id'', opt_str (ln_task_id l)), (''source_id'', opt_str (ln_source_id l)),
      (''provider'', opt_str (ln_provider l)), (''ingest_mode'', opt_str (ln_ingest_mode l)),
      (''collection_run_id'', opt_str (ln_collection_run_id l)),
      (''acquisition_execution_id'', opt_str (ln_acquisition_execution_id l)),
      (''source_revision_id'', opt_str (ln_source_revision_id l)),
      (''source_binding_revision_id'', opt_str (ln_source_binding_revision_id l)),
      (''account_revision_id'', opt_str (ln_account_revision_id l)),
      (''credential_revision_id'', opt_str (ln_credential_revision_id l)),
      (''project_id'', opt_str (ln_project_id l)), (''scope_ref'', opt_str (ln_scope_ref l)),
      (''worker_id'', opt_str (ln_worker_id l)), (''runtime_id'', opt_str (ln_runtime_id l)),
      (''trace_id'', opt_str (ln_trace_id l)), (''trace_ref'', opt_str (ln_trace_ref l)),
      (''artifact_refs'', opt_list (ln_artifact_refs l))]"

text \<open>\<open>cls(**{key: values[key] \<dots>})\<close>: a missing key leaves the default.\<close>

definition str_field :: "json dict \<Rightarrow> string \<Rightarrow> string option" where
  "str_field values k = (case dict_get values k of Some (JStr s) \<Rightarrow> Some s | _ \<Rightarrow> None)"

definition list_field :: "json dict \<Rightarrow> string \<Rightarrow> json list option" where
  "list_field values k = (case dict_get values k of Some (JList vs) \<Rightarrow> Some vs | _ \<Rightarrow> None)"

definition lineage_from :: "json dict \<Rightarrow> collection_lineage" where
  "lineage_from values =
     \<lparr>ln_task_id = str_field values ''task_id'',
      ln_source_id = str_field values ''source_id'',
      ln_provider = str_field values ''provider'',
      ln_ingest_mode = str_field values ''ingest_mode'',
      ln_collection_run_id = str_field values ''collection_run_id'',
      ln_acquisition_execution_id = str_field values ''acquisition_execution_id'',
      ln_source_revision_id = str_field values ''source_revision_id'',
      ln_source_binding_revision_id = str_field values ''source_binding_revision_id'',
      ln_account_revision_id = str_field values ''account_revision_id'',
      ln_credential_revision_id = str_field values ''credential_revision_id'',
      ln_project_id = str_field values ''project_id'',
      ln_scope_ref = str_field values ''scope_ref'',
      ln_worker_id = str_field values ''worker_id'',
      ln_runtime_id = str_field values ''runtime_id'',
      ln_trace_id = str_field values ''trace_id'',
      ln_trace_ref = str_field values ''trace_ref'',
      ln_artifact_refs = list_field values ''artifact_refs''\<rparr>"

section \<open>The context of a run\<close>

record run_context =
  rc_task_id :: string
  rc_source_id :: string
  rc_provider :: string
  rc_ingest_mode :: string
  rc_run_id :: "string option"
  rc_trace_id :: "string option"
  rc_acquisition_execution_id :: "string option"
  rc_source_revision_id :: "string option"
  rc_source_binding_revision_id :: "string option"
  rc_account_revision_id :: "string option"
  rc_credential_revision_id :: "string option"
  rc_project_id :: "string option"
  rc_scope_ref :: "string option"
  rc_worker_id :: "string option"
  rc_runtime_id :: "string option"
  rc_trace_ref :: "string option"
  rc_artifact_refs :: "json list option"
  rc_lineage :: "collection_lineage option"

definition new_context :: "string \<Rightarrow> string \<Rightarrow> string \<Rightarrow> string option \<Rightarrow> collection_lineage option \<Rightarrow> run_context" where
  "new_context task_id source_id provider run_id lineage =
     \<lparr>rc_task_id = task_id, rc_source_id = source_id, rc_provider = provider,
      rc_ingest_mode = ''snapshot'', rc_run_id = run_id, rc_trace_id = None,
      rc_acquisition_execution_id = None, rc_source_revision_id = None,
      rc_source_binding_revision_id = None, rc_account_revision_id = None,
      rc_credential_revision_id = None, rc_project_id = None, rc_scope_ref = None,
      rc_worker_id = None, rc_runtime_id = None, rc_trace_ref = None, rc_artifact_refs = None,
      rc_lineage = lineage\<rparr>"

definition optional_lineage :: "run_context \<Rightarrow> json dict" where
  "optional_lineage ctx =
     [(''collection_run_id'', opt_str (rc_run_id ctx)),
      (''trace_id'', opt_str (rc_trace_id ctx)),
      (''acquisition_execution_id'', opt_str (rc_acquisition_execution_id ctx)),
      (''source_revision_id'', opt_str (rc_source_revision_id ctx)),
      (''source_binding_revision_id'', opt_str (rc_source_binding_revision_id ctx)),
      (''account_revision_id'', opt_str (rc_account_revision_id ctx)),
      (''credential_revision_id'', opt_str (rc_credential_revision_id ctx)),
      (''project_id'', opt_str (rc_project_id ctx)),
      (''scope_ref'', opt_str (rc_scope_ref ctx)), (''worker_id'', opt_str (rc_worker_id ctx)),
      (''runtime_id'', opt_str (rc_runtime_id ctx)),
      (''trace_ref'', opt_str (rc_trace_ref ctx)),
      (''artifact_refs'', opt_list (rc_artifact_refs ctx))]"

definition envelope_values :: "run_context \<Rightarrow> json dict" where
  "envelope_values ctx =
     (let inherited = (case rc_lineage ctx of None \<Rightarrow> [] | Some l \<Rightarrow> lineage_dict l);
          own = dict_update inherited
            [(''task_id'', JStr (rc_task_id ctx)), (''source_id'', JStr (rc_source_id ctx)),
             (''provider'', JStr (rc_provider ctx)), (''ingest_mode'', JStr (rc_ingest_mode ctx))]
      in dict_update own (filter (\<lambda>(k, v). v \<noteq> JNull) (optional_lineage ctx)))"

definition lineage_envelope :: "run_context \<Rightarrow> collection_lineage" where
  "lineage_envelope ctx = lineage_from (envelope_values ctx)"

section \<open>Properties\<close>

lemma dict_update_get:
  assumes "distinct (map fst new)"
  shows "map_of (dict_update d new) k = (case map_of new k of None \<Rightarrow> map_of d k | Some v \<Rightarrow> Some v)"
proof -
  have "map_of (fold (\<lambda>(k, v) acc. dict_set acc k v) new d) k =
      (case map_of new k of None \<Rightarrow> map_of d k | Some v \<Rightarrow> Some v)"
    using assms
  proof (induction new arbitrary: d)
    case (Cons kv new)
    obtain a b where kv: "kv = (a, b)" by fastforce
    have "a = k \<Longrightarrow> map_of new k = None" using Cons.prems by (auto simp: kv map_of_eq_None_iff)
    then show ?case using Cons by (auto simp: kv split: option.splits)
  qed simp
  then show ?thesis by (simp add: dict_update_def)
qed

lemma map_of_filter_null:
  "distinct (map fst xs) \<Longrightarrow>
    map_of (filter (\<lambda>(k, v). v \<noteq> JNull) xs) k = (case map_of xs k of Some v \<Rightarrow> if v \<noteq> JNull then Some v else None | None \<Rightarrow> None)"
proof (induction xs)
  case (Cons x xs)
  obtain a b where x: "x = (a, b)" by fastforce
  have "a = k \<Longrightarrow> map_of xs k = None" using Cons.prems by (auto simp: x map_of_eq_None_iff)
  then show ?case using Cons by (auto simp: x split: option.splits)
qed simp

definition str_back :: "json option \<Rightarrow> string option" where
  "str_back v = (case v of Some (JStr s) \<Rightarrow> Some s | _ \<Rightarrow> None)"

definition list_back :: "json option \<Rightarrow> json list option" where
  "list_back v = (case v of Some (JList s) \<Rightarrow> Some s | _ \<Rightarrow> None)"

lemma fields_back: "str_field values k = str_back (map_of values k)" "list_field values k = list_back (map_of values k)"
  by (simp_all add: str_field_def list_field_def str_back_def list_back_def dict_get_def)

lemma back_simps [simp]:
  "str_back (Some (opt_str s)) = s" "list_back (Some (opt_list vs)) = vs" "str_back (Some (JStr x)) = Some x"
  "list_back (Some (JList xs)) = Some xs" "str_back None = None" "list_back None = None"
  by (simp_all add: str_back_def list_back_def opt_str_def opt_list_def split: option.splits)

lemma opt_null [simp]: "opt_str s = JNull \<longleftrightarrow> s = None" "opt_list vs = JNull \<longleftrightarrow> vs = None"
  by (simp_all add: opt_str_def opt_list_def split: option.splits)

definition or_else :: "'x option \<Rightarrow> 'x option \<Rightarrow> 'x option" where
  "or_else a b = (case a of None \<Rightarrow> b | Some x \<Rightarrow> Some x)"

definition inherited :: "run_context \<Rightarrow> (collection_lineage \<Rightarrow> 'x option) \<Rightarrow> 'x option" where
  "inherited ctx f = Option.bind (rc_lineage ctx) f"

lemma lineage_roundtrip: "lineage_from (lineage_dict l) = l"
  by (simp add: lineage_from_def fields_back, simp add: lineage_dict_def)

lemma lineage_dict_back:
  "str_back (map_of (case l of None \<Rightarrow> [] | Some l \<Rightarrow> lineage_dict l) k) =
     Option.bind l (\<lambda>l. str_back (map_of (lineage_dict l) k))"
  "list_back (map_of (case l of None \<Rightarrow> [] | Some l \<Rightarrow> lineage_dict l) k) =
     Option.bind l (\<lambda>l. list_back (map_of (lineage_dict l) k))"
  by (cases l; simp)+

lemma envelope_get:
  "map_of (envelope_values ctx) k =
     (case map_of (optional_lineage ctx) k of
        Some v \<Rightarrow> if v \<noteq> JNull then Some v else map_of (dict_update
            (case rc_lineage ctx of None \<Rightarrow> [] | Some l \<Rightarrow> lineage_dict l)
            [(''task_id'', JStr (rc_task_id ctx)), (''source_id'', JStr (rc_source_id ctx)),
             (''provider'', JStr (rc_provider ctx)), (''ingest_mode'', JStr (rc_ingest_mode ctx))]) k
      | None \<Rightarrow> map_of (dict_update
            (case rc_lineage ctx of None \<Rightarrow> [] | Some l \<Rightarrow> lineage_dict l)
            [(''task_id'', JStr (rc_task_id ctx)), (''source_id'', JStr (rc_source_id ctx)),
             (''provider'', JStr (rc_provider ctx)), (''ingest_mode'', JStr (rc_ingest_mode ctx))]) k)"
proof -
  have d: "distinct (map fst (optional_lineage ctx))" by (simp add: optional_lineage_def)
  then have "distinct (map fst (filter (\<lambda>(k, v). v \<noteq> JNull) (optional_lineage ctx)))"
    by (rule distinct_map_filter)
  then show ?thesis
    unfolding envelope_values_def Let_def
    by (simp add: dict_update_get map_of_filter_null[OF d] split: option.splits)
qed

definition RUN_KEYS :: "string list" where
  "RUN_KEYS = [''task_id'', ''source_id'', ''provider'', ''ingest_mode'']"

lemma run_keys_get:
  "k \<notin> set RUN_KEYS \<Longrightarrow> map_of (dict_update d
     [(''task_id'', a), (''source_id'', b), (''provider'', c), (''ingest_mode'', e)]) k = map_of d k"
  by (subst dict_update_get) (auto simp: RUN_KEYS_def)

lemma envelope_str:
  assumes "map_of (optional_lineage ctx) k = Some (opt_str s)" and "k \<notin> set RUN_KEYS"
    and "\<And>l. str_back (map_of (lineage_dict l) k) = f l"
  shows "str_field (envelope_values ctx) k = or_else s (inherited ctx f)"
  using assms by (cases s) (simp_all add: fields_back envelope_get run_keys_get lineage_dict_back or_else_def inherited_def)

lemma envelope_list:
  assumes "map_of (optional_lineage ctx) k = Some (opt_list s)" and "k \<notin> set RUN_KEYS"
    and "\<And>l. list_back (map_of (lineage_dict l) k) = f l"
  shows "list_field (envelope_values ctx) k = or_else s (inherited ctx f)"
  using assms
  by (cases s) (simp_all add: fields_back envelope_get run_keys_get lineage_dict_back or_else_def inherited_def)

text \<open>
  The envelope survives being stored, and a run neither invents nor loses a reference: task, source,
  provider and mode are the run's own, every other reference is the one the run has established, or
  else the inherited one, or absent.
\<close>

lemma lineage_exact:
  "lineage_from (lineage_dict l) = l \<and>
   lineage_envelope ctx =
     \<lparr>ln_task_id = Some (rc_task_id ctx),
      ln_source_id = Some (rc_source_id ctx),
      ln_provider = Some (rc_provider ctx),
      ln_ingest_mode = Some (rc_ingest_mode ctx),
      ln_collection_run_id = or_else (rc_run_id ctx) (inherited ctx ln_collection_run_id),
      ln_acquisition_execution_id = or_else (rc_acquisition_execution_id ctx) (inherited ctx ln_acquisition_execution_id),
      ln_source_revision_id = or_else (rc_source_revision_id ctx) (inherited ctx ln_source_revision_id),
      ln_source_binding_revision_id = or_else (rc_source_binding_revision_id ctx) (inherited ctx ln_source_binding_revision_id),
      ln_account_revision_id = or_else (rc_account_revision_id ctx) (inherited ctx ln_account_revision_id),
      ln_credential_revision_id = or_else (rc_credential_revision_id ctx) (inherited ctx ln_credential_revision_id),
      ln_project_id = or_else (rc_project_id ctx) (inherited ctx ln_project_id),
      ln_scope_ref = or_else (rc_scope_ref ctx) (inherited ctx ln_scope_ref),
      ln_worker_id = or_else (rc_worker_id ctx) (inherited ctx ln_worker_id),
      ln_runtime_id = or_else (rc_runtime_id ctx) (inherited ctx ln_runtime_id),
      ln_trace_id = or_else (rc_trace_id ctx) (inherited ctx ln_trace_id),
      ln_trace_ref = or_else (rc_trace_ref ctx) (inherited ctx ln_trace_ref),
      ln_artifact_refs = or_else (rc_artifact_refs ctx) (inherited ctx ln_artifact_refs)\<rparr>"
proof (rule conjI[OF lineage_roundtrip])
  have own: "str_field (envelope_values ctx) ''task_id'' = Some (rc_task_id ctx)"
    "str_field (envelope_values ctx) ''source_id'' = Some (rc_source_id ctx)"
    "str_field (envelope_values ctx) ''provider'' = Some (rc_provider ctx)"
    "str_field (envelope_values ctx) ''ingest_mode'' = Some (rc_ingest_mode ctx)"
    by (simp_all add: fields_back envelope_get optional_lineage_def dict_update_get)
  have collection_run_id: "str_field (envelope_values ctx) ''collection_run_id'' = or_else (rc_run_id ctx) (inherited ctx ln_collection_run_id)"
    by (rule envelope_str) (simp_all add: optional_lineage_def RUN_KEYS_def lineage_dict_def)
  have acquisition_execution_id: "str_field (envelope_values ctx) ''acquisition_execution_id'' = or_else (rc_acquisition_execution_id ctx) (inherited ctx ln_acquisition_execution_id)"
    by (rule envelope_str) (simp_all add: optional_lineage_def RUN_KEYS_def lineage_dict_def)
  have source_revision_id: "str_field (envelope_values ctx) ''source_revision_id'' = or_else (rc_source_revision_id ctx) (inherited ctx ln_source_revision_id)"
    by (rule envelope_str) (simp_all add: optional_lineage_def RUN_KEYS_def lineage_dict_def)
  have source_binding_revision_id: "str_field (envelope_values ctx) ''source_binding_revision_id'' = or_else (rc_source_binding_revision_id ctx) (inherited ctx ln_source_binding_revision_id)"
    by (rule envelope_str) (simp_all add: optional_lineage_def RUN_KEYS_def lineage_dict_def)
  have account_revision_id: "str_field (envelope_values ctx) ''account_revision_id'' = or_else (rc_account_revision_id ctx) (inherited ctx ln_account_revision_id)"
    by (rule envelope_str) (simp_all add: optional_lineage_def RUN_KEYS_def lineage_dict_def)
  have credential_revision_id: "str_field (envelope_values ctx) ''credential_revision_id'' = or_else (rc_credential_revision_id ctx) (inherited ctx ln_credential_revision_id)"
    by (rule envelope_str) (simp_all add: optional_lineage_def RUN_KEYS_def lineage_dict_def)
  have project_id: "str_field (envelope_values ctx) ''project_id'' = or_else (rc_project_id ctx) (inherited ctx ln_project_id)"
    by (rule envelope_str) (simp_all add: optional_lineage_def RUN_KEYS_def lineage_dict_def)
  have scope_ref: "str_field (envelope_values ctx) ''scope_ref'' = or_else (rc_scope_ref ctx) (inherited ctx ln_scope_ref)"
    by (rule envelope_str) (simp_all add: optional_lineage_def RUN_KEYS_def lineage_dict_def)
  have worker_id: "str_field (envelope_values ctx) ''worker_id'' = or_else (rc_worker_id ctx) (inherited ctx ln_worker_id)"
    by (rule envelope_str) (simp_all add: optional_lineage_def RUN_KEYS_def lineage_dict_def)
  have runtime_id: "str_field (envelope_values ctx) ''runtime_id'' = or_else (rc_runtime_id ctx) (inherited ctx ln_runtime_id)"
    by (rule envelope_str) (simp_all add: optional_lineage_def RUN_KEYS_def lineage_dict_def)
  have trace_id: "str_field (envelope_values ctx) ''trace_id'' = or_else (rc_trace_id ctx) (inherited ctx ln_trace_id)"
    by (rule envelope_str) (simp_all add: optional_lineage_def RUN_KEYS_def lineage_dict_def)
  have trace_ref: "str_field (envelope_values ctx) ''trace_ref'' = or_else (rc_trace_ref ctx) (inherited ctx ln_trace_ref)"
    by (rule envelope_str) (simp_all add: optional_lineage_def RUN_KEYS_def lineage_dict_def)
  have artifact_refs: "list_field (envelope_values ctx) ''artifact_refs'' = or_else (rc_artifact_refs ctx) (inherited ctx ln_artifact_refs)"
    by (rule envelope_list) (simp_all add: optional_lineage_def RUN_KEYS_def lineage_dict_def)
  show "lineage_envelope ctx =
     \<lparr>ln_task_id = Some (rc_task_id ctx),
      ln_source_id = Some (rc_source_id ctx),
      ln_provider = Some (rc_provider ctx),
      ln_ingest_mode = Some (rc_ingest_mode ctx),
      ln_collection_run_id = or_else (rc_run_id ctx) (inherited ctx ln_collection_run_id),
      ln_acquisition_execution_id = or_else (rc_acquisition_execution_id ctx) (inherited ctx ln_acquisition_execution_id),
      ln_source_revision_id = or_else (rc_source_revision_id ctx) (inherited ctx ln_source_revision_id),
      ln_source_binding_revision_id = or_else (rc_source_binding_revision_id ctx) (inherited ctx ln_source_binding_revision_id),
      ln_account_revision_id = or_else (rc_account_revision_id ctx) (inherited ctx ln_account_revision_id),
      ln_credential_revision_id = or_else (rc_credential_revision_id ctx) (inherited ctx ln_credential_revision_id),
      ln_project_id = or_else (rc_project_id ctx) (inherited ctx ln_project_id),
      ln_scope_ref = or_else (rc_scope_ref ctx) (inherited ctx ln_scope_ref),
      ln_worker_id = or_else (rc_worker_id ctx) (inherited ctx ln_worker_id),
      ln_runtime_id = or_else (rc_runtime_id ctx) (inherited ctx ln_runtime_id),
      ln_trace_id = or_else (rc_trace_id ctx) (inherited ctx ln_trace_id),
      ln_trace_ref = or_else (rc_trace_ref ctx) (inherited ctx ln_trace_ref),
      ln_artifact_refs = or_else (rc_artifact_refs ctx) (inherited ctx ln_artifact_refs)\<rparr>"
    unfolding lineage_envelope_def lineage_from_def own collection_run_id acquisition_execution_id source_revision_id source_binding_revision_id account_revision_id credential_revision_id project_id
      scope_ref worker_id runtime_id trace_id trace_ref artifact_refs ..
qed

end
