(* ===== verification/CursorStore.thy ===== *)
theory CursorStore
  imports Prelude "HOL-Library.Multiset"
begin

text \<open>
  Cursor persistence (\<open>backend/pipeline/cursor_store.py\<close>): the in-memory store, and the
  database store with its optimistic locking, as a relation on all interleavings of concurrent
  saves. A save alternates between reading the row and writing it; the write, its version check
  and its commit are one step, reads and writes of different saves interleave freely. A cursor
  is a value of any type, compared as Python compares dictionaries; \<open>blank\<close> says which
  ones are the empty dictionary, which the database store reads as no cursor.
\<close>

section \<open>Results and the in-memory store\<close>

record 'c commit_result =
  cm_advanced :: bool
  cm_old :: "'c option"
  cm_new :: 'c

definition mem_load :: "(string \<rightharpoonup> 'c) \<Rightarrow> string \<Rightarrow> 'c option" where
  "mem_load store source_id = store source_id"

definition mem_save :: "string \<Rightarrow> 'c \<Rightarrow> (string \<rightharpoonup> 'c) \<Rightarrow> 'c commit_result \<times> (string \<rightharpoonup> 'c)" where
  "mem_save source_id cursor store =
     (let old = store source_id
      in (\<lparr>cm_advanced = (old \<noteq> Some cursor), cm_old = old, cm_new = cursor\<rparr>, store(source_id \<mapsto> cursor)))"

section \<open>The database store\<close>

record 'c source_cursor =
  sc_id :: nat
  sc_source_id :: string
  sc_cursor :: 'c
  sc_version :: nat

record 'c cursor_db =
  cd_rows :: "'c source_cursor list"
  cd_next :: nat

definition select_row :: "'c cursor_db \<Rightarrow> string \<Rightarrow> 'c source_cursor option" where
  "select_row db source_id = find (\<lambda>r. sc_source_id r = source_id) (cd_rows db)"

definition stored_cursor :: "('c \<Rightarrow> bool) \<Rightarrow> 'c source_cursor \<Rightarrow> 'c option" where
  "stored_cursor blank row = (if blank (sc_cursor row) then None else Some (sc_cursor row))"

definition db_load :: "('c \<Rightarrow> bool) \<Rightarrow> 'c cursor_db \<Rightarrow> string \<Rightarrow> 'c option" where
  "db_load blank db source_id =
     (case select_row db source_id of None \<Rightarrow> None | Some row \<Rightarrow> stored_cursor blank row)"

definition attempts :: nat where
  "attempts = 3"

text \<open>Where a call of \<open>save\<close> stands: before its read, before its write, returned, or raised.\<close>

datatype 'c save_phase =
    Reading nat
  | Updating nat "'c source_cursor"
  | Inserting nat
  | Saved "'c commit_result"
  | SaveRaised

record 'c saver =
  sv_source :: string
  sv_cursor :: 'c
  sv_phase :: "'c save_phase"

text \<open>A lost race: the next attempt starts over, the last one raises.\<close>

definition retry :: "nat \<Rightarrow> 'c save_phase" where
  "retry attempt = (if attempt = attempts - 1 then SaveRaised else Reading (attempt + 1))"

text \<open>\<open>UPDATE \<dots> WHERE id = ? AND version = ?\<close>, and whether it matched.\<close>

definition row_matches :: "'c source_cursor \<Rightarrow> 'c source_cursor \<Rightarrow> bool" where
  "row_matches row r \<longleftrightarrow> sc_id r = sc_id row \<and> sc_version r = sc_version row"

definition bump_row :: "'c source_cursor \<Rightarrow> 'c \<Rightarrow> 'c source_cursor \<Rightarrow> 'c source_cursor" where
  "bump_row row cursor r =
     (if row_matches row r then r\<lparr>sc_cursor := cursor, sc_version := sc_version row + 1\<rparr> else r)"

definition versioned_update ::
  "'c source_cursor \<Rightarrow> 'c \<Rightarrow> 'c source_cursor list \<Rightarrow> bool \<times> 'c source_cursor list"
where
  "versioned_update row cursor rows = (list_ex (row_matches row) rows, map (bump_row row cursor) rows)"

definition insert_row :: "string \<Rightarrow> 'c \<Rightarrow> 'c cursor_db \<Rightarrow> 'c cursor_db" where
  "insert_row source_id cursor db =
     \<lparr>cd_rows = cd_rows db @ [\<lparr>sc_id = cd_next db, sc_source_id = source_id, sc_cursor = cursor, sc_version = 0\<rparr>],
      cd_next = cd_next db + 1\<rparr>"

fun advance :: "('c \<Rightarrow> bool) \<Rightarrow> 'c cursor_db \<Rightarrow> string \<Rightarrow> 'c \<Rightarrow> 'c save_phase \<Rightarrow> 'c cursor_db \<times> 'c save_phase" where
  "advance blank db source_id cursor (Reading attempt) =
     (db, case select_row db source_id of
            Some row \<Rightarrow> Updating attempt row | None \<Rightarrow> Inserting attempt)"
| "advance blank db source_id cursor (Updating attempt row) =
     (let (matched, rows) = versioned_update row cursor (cd_rows db); old = stored_cursor blank row
      in if matched
         then (db\<lparr>cd_rows := rows\<rparr>,
           Saved \<lparr>cm_advanced = (old \<noteq> Some cursor), cm_old = old, cm_new = cursor\<rparr>)
         else (db, retry attempt))"
| "advance blank db source_id cursor (Inserting attempt) =
     (if select_row db source_id \<noteq> None then (db, retry attempt)
      else (insert_row source_id cursor db,
            Saved \<lparr>cm_advanced = True, cm_old = None, cm_new = cursor\<rparr>))"
| "advance blank db source_id cursor phase = (db, phase)"

text \<open>A call that nobody interleaves with.\<close>

definition db_save :: "('c \<Rightarrow> bool) \<Rightarrow> string \<Rightarrow> 'c \<Rightarrow> 'c cursor_db \<Rightarrow> 'c save_phase \<times> 'c cursor_db" where
  "db_save blank source_id cursor db =
     (let (db1, phase1) = advance blank db source_id cursor (Reading 0);
          (db2, phase2) = advance blank db1 source_id cursor phase1
      in (phase2, db2))"

section \<open>Concurrent saves\<close>

definition moving :: "'c save_phase \<Rightarrow> bool" where
  "moving phase \<longleftrightarrow> (case phase of Saved _ \<Rightarrow> False | SaveRaised \<Rightarrow> False | _ \<Rightarrow> True)"

text \<open>What a step commits: the source, the cursor and the result the caller gets.\<close>

definition committed :: "'c saver \<Rightarrow> (string \<times> 'c \<times> 'c commit_result) list" where
  "committed s = (case sv_phase s of Saved result \<Rightarrow> [(sv_source s, sv_cursor s, result)] | _ \<Rightarrow> [])"

inductive saves ::
  "('c \<Rightarrow> bool) \<Rightarrow> 'c cursor_db \<times> 'c saver list \<Rightarrow> (string \<times> 'c \<times> 'c commit_result) list \<Rightarrow>
   'c cursor_db \<times> 'c saver list \<Rightarrow> bool"
  for blank :: "'c \<Rightarrow> bool" and st0 :: "'c cursor_db \<times> 'c saver list"
where
  saves_start: "saves blank st0 [] st0"
| saves_step: "saves blank st0 trace (db, savers) \<Longrightarrow> i < length savers \<Longrightarrow> moving (sv_phase (savers ! i)) \<Longrightarrow>
    advance blank db (sv_source (savers ! i)) (sv_cursor (savers ! i)) (sv_phase (savers ! i)) = (db', phase) \<Longrightarrow>
    saves blank st0 (trace @ committed ((savers ! i)\<lparr>sv_phase := phase\<rparr>))
      (db', savers[i := (savers ! i)\<lparr>sv_phase := phase\<rparr>])"

section \<open>Rows and versions\<close>

definition good_rows :: "'c cursor_db \<Rightarrow> bool" where
  "good_rows db \<longleftrightarrow> distinct (map sc_id (cd_rows db)) \<and> distinct (map sc_source_id (cd_rows db)) \<and>
     (\<forall>r \<in> set (cd_rows db). sc_id r < cd_next db)"

text \<open>How many values a source has had.\<close>

definition generation :: "'c cursor_db \<Rightarrow> string \<Rightarrow> nat" where
  "generation db source_id = (case select_row db source_id of None \<Rightarrow> 0 | Some r \<Rightarrow> sc_version r + 1)"

definition cursors :: "'c cursor_db \<Rightarrow> string \<rightharpoonup> 'c" where
  "cursors db source_id = map_option sc_cursor (select_row db source_id)"

lemma select_row_Some:
  "select_row db s = Some r \<Longrightarrow> r \<in> set (cd_rows db) \<and> sc_source_id r = s"
  unfolding select_row_def find_Some_iff by auto

lemma select_row_iff:
  "good_rows db \<Longrightarrow> select_row db s = Some r \<longleftrightarrow> r \<in> set (cd_rows db) \<and> sc_source_id r = s"
proof
  assume good: "good_rows db" and r: "r \<in> set (cd_rows db) \<and> sc_source_id r = s"
  then obtain r' where r': "select_row db s = Some r'"
    unfolding select_row_def by (metis (mono_tags, lifting) find_None_iff not_None_eq)
  with good r select_row_Some[OF r'] have "r' = r" by (auto simp: good_rows_def distinct_map inj_on_def)
  with r' show "select_row db s = Some r" by simp
qed (rule select_row_Some)

lemma bump_row_keys [simp]:
  "sc_id (bump_row row cursor r) = sc_id r" "sc_source_id (bump_row row cursor r) = sc_source_id r"
  by (simp_all add: bump_row_def)

text \<open>A successful update: one row changes, in place.\<close>

lemma versioned_update_hit:
  assumes "good_rows db" and "versioned_update row cursor (cd_rows db) = (True, rows)"
    and "row' \<in> set (cd_rows db)" and "sc_id row' = sc_id row"
  shows "sc_version row' = sc_version row" and "good_rows (db\<lparr>cd_rows := rows\<rparr>)"
    and "select_row (db\<lparr>cd_rows := rows\<rparr>) s =
      (if s = sc_source_id row' then Some (row'\<lparr>sc_cursor := cursor, sc_version := sc_version row + 1\<rparr>)
       else select_row db s)"
proof -
  have rows: "rows = map (bump_row row cursor) (cd_rows db)" and "list_ex (row_matches row) (cd_rows db)"
    using assms(2) by (auto simp: versioned_update_def)
  then obtain r where "r \<in> set (cd_rows db)" "sc_id r = sc_id row'" "sc_version r = sc_version row"
    using assms(4) by (auto simp: list_ex_iff row_matches_def)
  with assms(1,3) show v: "sc_version row' = sc_version row"
    unfolding good_rows_def distinct_map inj_on_def by metis
  show "good_rows (db\<lparr>cd_rows := rows\<rparr>)"
    using assms(1) by (simp add: good_rows_def rows comp_def)
  have "select_row (db\<lparr>cd_rows := rows\<rparr>) s = map_option (bump_row row cursor) (select_row db s)"
    unfolding select_row_def rows by (simp add: find_map_key[where key = sc_source_id])
  moreover have "bump_row row cursor r = (if sc_source_id r = sc_source_id row'
      then row'\<lparr>sc_cursor := cursor, sc_version := sc_version row + 1\<rparr> else r)"
    if "r \<in> set (cd_rows db)" for r
  proof -
    have "sc_source_id r = sc_source_id row' \<longleftrightarrow> r = row'" "sc_id r = sc_id row \<longleftrightarrow> r = row'"
      using that assms(1,3,4) by (auto simp: good_rows_def distinct_map inj_on_def)
    then show ?thesis using v by (simp add: bump_row_def row_matches_def)
  qed
  moreover have "select_row db (sc_source_id row') = Some row'"
    using select_row_iff[OF assms(1)] assms(3) by simp
  ultimately show "select_row (db\<lparr>cd_rows := rows\<rparr>) s =
      (if s = sc_source_id row' then Some (row'\<lparr>sc_cursor := cursor, sc_version := sc_version row + 1\<rparr>)
       else select_row db s)"
    by (cases "select_row db s") (auto dest: select_row_Some)
qed

lemma find_snoc:
  "find P (xs @ [x]) = (case find P xs of Some y \<Rightarrow> Some y | None \<Rightarrow> if P x then Some x else None)"
  by (induction xs) auto

lemma inserted_row:
  assumes "good_rows db" and "select_row db source_id = None"
  shows "good_rows (insert_row source_id cursor db)"
    and "select_row (insert_row source_id cursor db) s =
      (if s = source_id then Some \<lparr>sc_id = cd_next db, sc_source_id = source_id, sc_cursor = cursor, sc_version = 0\<rparr>
       else select_row db s)"
proof -
  have none: "r \<in> set (cd_rows db) \<Longrightarrow> sc_source_id r \<noteq> source_id" for r
    using assms(2) by (auto simp: select_row_def find_None_iff)
  show "good_rows (insert_row source_id cursor db)"
    using assms(1) none by (fastforce simp: good_rows_def insert_row_def)
  show "select_row (insert_row source_id cursor db) s =
      (if s = source_id then Some \<lparr>sc_id = cd_next db, sc_source_id = source_id, sc_cursor = cursor, sc_version = 0\<rparr>
       else select_row db s)"
    using assms(2) by (auto simp: select_row_def insert_row_def find_snoc split: option.splits)
qed

section \<open>What a step does\<close>

text \<open>
  A save that is about to update has read a row that is still there, unless it has moved on to a
  later version.
\<close>

definition fresh_enough :: "'c cursor_db \<Rightarrow> string \<Rightarrow> 'c save_phase \<Rightarrow> bool" where
  "fresh_enough db s phase \<longleftrightarrow>
     (case phase of
        Updating k row \<Rightarrow> \<exists>r. select_row db s = Some r \<and> sc_id r = sc_id row \<and>
          (r = row \<or> sc_version row < sc_version r)
      | _ \<Rightarrow> True)"

definition attempt_of :: "'c save_phase \<Rightarrow> nat" where
  "attempt_of phase = (case phase of Reading k \<Rightarrow> k | Updating k _ \<Rightarrow> k | Inserting k \<Rightarrow> k | _ \<Rightarrow> 0)"

text \<open>The three ways a step can go.\<close>

lemma advance_cases:
  assumes "good_rows db" and "fresh_enough db s phase" and "moving phase"
    and "advance blank db s c phase = (db', phase')"
  obtains
    (read) k where "phase = Reading k" "db' = db"
      "phase' = (case select_row db s of Some row \<Rightarrow> Updating k row | None \<Rightarrow> Inserting k)"
  | (lost) "db' = db" "phase' = retry (attempt_of phase)"
      "case phase of Updating k row \<Rightarrow> \<exists>r. select_row db s = Some r \<and> sc_version row < sc_version r
       | Inserting k \<Rightarrow> select_row db s \<noteq> None | _ \<Rightarrow> False"
  | (commit) old where "good_rows db'" "cursors db' = (cursors db)(s \<mapsto> c)" "old = db_load blank db s"
      "phase' = Saved \<lparr>cm_advanced = (old \<noteq> Some c), cm_old = old, cm_new = c\<rparr>"
      "generation db' s = generation db s + 1"
      "\<And>t. t \<noteq> s \<Longrightarrow> select_row db' t = select_row db t"
      "\<And>r. select_row db s = Some r \<Longrightarrow> \<exists>r'. select_row db' s = Some r' \<and> sc_id r' = sc_id r \<and> sc_version r < sc_version r'"
proof (cases phase)
  case (Reading k)
  with assms(4) read show thesis by auto
next
  case (Updating k row)
  from assms(2) Updating obtain r where r: "select_row db s = Some r" "sc_id r = sc_id row"
    "r = row \<or> sc_version row < sc_version r" by (auto simp: fresh_enough_def)
  have rin: "r \<in> set (cd_rows db)" "sc_source_id r = s" using select_row_Some[OF r(1)] by auto
  obtain matched rows where v: "versioned_update row c (cd_rows db) = (matched, rows)" by fastforce
  show thesis
  proof (cases matched)
    case True
    have "versioned_update row c (cd_rows db) = (True, rows)" using v True by simp
    note hit = versioned_update_hit[OF assms(1) this rin(1) r(2)]
    from hit(1) r(3) have "r = row" by simp
    have new: "db' = db\<lparr>cd_rows := rows\<rparr>"
      "phase' = Saved \<lparr>cm_advanced = (stored_cursor blank row \<noteq> Some c), cm_old = stored_cursor blank row, cm_new = c\<rparr>"
      using assms(4) Updating v True by (simp_all add: Let_def)
    show thesis
    proof (rule commit[of "stored_cursor blank row"])
      show "cursors db' = (cursors db)(s \<mapsto> c)"
        using hit(3) rin(2) by (auto simp: cursors_def new(1) fun_eq_iff)
      show "stored_cursor blank row = db_load blank db s" using r(1) \<open>r = row\<close> by (simp add: db_load_def)
      show "generation db' s = generation db s + 1"
        using hit(3)[of s] rin(2) r(1) \<open>r = row\<close> by (simp add: generation_def new(1))
      show "select_row db' t = select_row db t" if "t \<noteq> s" for t using hit(3) rin(2) that by (simp add: new(1))
      show "\<exists>r'. select_row db' s = Some r' \<and> sc_id r' = sc_id q \<and> sc_version q < sc_version r'"
        if "select_row db s = Some q" for q using hit(3)[of s] rin(2) r(1) that \<open>r = row\<close> by (simp add: new(1))
    qed (use hit(2) new in auto)
  next
    case False
    then have "r \<noteq> row" using v rin(1) by (auto simp: versioned_update_def list_ex_iff row_matches_def)
    with r have "sc_version row < sc_version r" by simp
    with assms(4) Updating v False r(1) show thesis
      by (intro lost) (auto simp: Let_def attempt_of_def)
  qed
next
  case (Inserting k)
  show thesis
  proof (cases "select_row db s")
    case None
    note ins = inserted_row[OF assms(1) None, of c]
    have new: "db' = insert_row s c db" "phase' = Saved \<lparr>cm_advanced = True, cm_old = None, cm_new = c\<rparr>"
      using assms(4) Inserting None by simp_all
    show thesis
      by (rule commit[of None])
        (use ins None in \<open>auto simp: new cursors_def generation_def db_load_def fun_eq_iff\<close>)
  next
    case (Some r)
    with assms(4) Inserting show thesis by (intro lost) (auto simp: attempt_of_def)
  qed
qed (use assms(3) in \<open>auto simp: moving_def\<close>)

section \<open>All interleavings\<close>

text \<open>What the saves committed, replayed one after the other on the in-memory store.\<close>

fun replay :: "(string \<rightharpoonup> 'c) \<Rightarrow> (string \<times> 'c) list \<Rightarrow> 'c commit_result list \<times> (string \<rightharpoonup> 'c)" where
  "replay store [] = ([], store)"
| "replay store ((source_id, cursor) # writes) =
     (let (result, store1) = mem_save source_id cursor store; (results, store2) = replay store1 writes
      in (result # results, store2))"

definition writes_of :: "(string \<times> 'c \<times> 'c commit_result) list \<Rightarrow> (string \<times> 'c) list" where
  "writes_of trace = map (\<lambda>(s, c, _). (s, c)) trace"

definition results_of :: "(string \<times> 'c \<times> 'c commit_result) list \<Rightarrow> 'c commit_result list" where
  "results_of trace = map (\<lambda>(_, _, r). r) trace"

lemma replay_append:
  "replay store (xs @ ys) =
     (let (rs, store1) = replay store xs; (qs, store2) = replay store1 ys in (rs @ qs, store2))"
  by (induction store xs rule: replay.induct) (auto simp: Let_def split: prod.splits)

text \<open>How far a save has got since the first value of its source.\<close>

definition paced :: "nat \<Rightarrow> 'c cursor_db \<Rightarrow> 'c saver \<Rightarrow> bool" where
  "paced gen0 db s \<longleftrightarrow>
     (case sv_phase s of
        Reading k \<Rightarrow> k < attempts \<and> gen0 + k \<le> generation db (sv_source s)
      | Updating k row \<Rightarrow> k < attempts \<and> gen0 + k \<le> sc_version row + 1
      | Inserting k \<Rightarrow> k < attempts \<and> gen0 + k \<le> 0
      | Saved _ \<Rightarrow> True
      | SaveRaised \<Rightarrow> gen0 + attempts \<le> generation db (sv_source s))"

definition run_inv ::
  "('c \<Rightarrow> bool) \<Rightarrow> 'c cursor_db \<Rightarrow> (string \<times> 'c \<times> 'c commit_result) list \<Rightarrow> 'c cursor_db \<Rightarrow> 'c saver list \<Rightarrow> bool"
where
  "run_inv blank db0 trace db savers \<longleftrightarrow> good_rows db \<and>
     (\<forall>s \<in> set savers. fresh_enough db (sv_source s) (sv_phase s) \<and> paced (generation db0 (sv_source s)) db s) \<and>
     mset (concat (map committed savers)) = mset trace \<and>
     (\<forall>t. generation db t = generation db0 t + length (filter (\<lambda>w. fst w = t) trace))"

lemma committed_Nil [simp]: "moving (sv_phase s) \<Longrightarrow> committed s = []"
  by (auto simp: committed_def moving_def split: save_phase.splits)

lemma committed_update:
  assumes "i < length savers" and "moving (sv_phase (savers ! i))"
  shows "mset (concat (map committed (savers[i := s]))) = mset (concat (map committed savers)) + mset (committed s)"
proof -
  have "savers = take i savers @ savers ! i # drop (Suc i) savers" using assms(1) by (rule id_take_nth_drop)
  then have "concat (map committed savers) =
      concat (map committed (take i savers)) @ committed (savers ! i) @ concat (map committed (drop (Suc i) savers))"
    by (metis concat.simps(2) concat_append list.simps(9) map_append)
  with assms show ?thesis by (simp add: upd_conv_take_nth_drop)
qed

lemma fresh_enough_kept:
  assumes "fresh_enough db t phase" and "\<And>r. select_row db t = Some r \<Longrightarrow>
    \<exists>r'. select_row db' t = Some r' \<and> sc_id r' = sc_id r \<and> (r' = r \<or> sc_version r < sc_version r')"
  shows "fresh_enough db' t phase"
proof (cases phase)
  case (Updating k row)
  with assms(1) obtain r where r: "select_row db t = Some r" "sc_id r = sc_id row" "r = row \<or> sc_version row < sc_version r"
    by (auto simp: fresh_enough_def)
  from assms(2)[OF r(1)] r(2,3) Updating show ?thesis by (auto simp: fresh_enough_def)
qed (auto simp: fresh_enough_def)

lemma paced_mono: "paced g db s \<Longrightarrow> generation db (sv_source s) \<le> generation db' (sv_source s) \<Longrightarrow> paced g db' s"
  by (auto simp: paced_def split: save_phase.splits)

lemma paced_retry:
  "k < attempts \<Longrightarrow> g + k + 1 \<le> generation db (sv_source s) \<Longrightarrow> paced g db (s\<lparr>sv_phase := retry k\<rparr>)"
  by (auto simp: paced_def retry_def attempts_def)

lemma run_inv_step:
  assumes inv: "run_inv blank db0 trace db savers" and i: "i < length savers" "moving (sv_phase (savers ! i))"
    and adv: "advance blank db (sv_source (savers ! i)) (sv_cursor (savers ! i)) (sv_phase (savers ! i)) = (db', phase)"
  shows "run_inv blank db0 (trace @ committed ((savers ! i)\<lparr>sv_phase := phase\<rparr>)) db'
    (savers[i := (savers ! i)\<lparr>sv_phase := phase\<rparr>])"
proof -
  let ?s = "savers ! i"
  let ?s' = "?s\<lparr>sv_phase := phase\<rparr>"
  let ?g = "generation db0 (sv_source ?s)"
  have good: "good_rows db" and old: "\<And>s. s \<in> set savers \<Longrightarrow>
      fresh_enough db (sv_source s) (sv_phase s) \<and> paced (generation db0 (sv_source s)) db s"
    and gen: "\<And>t. generation db t = generation db0 t + length (filter (\<lambda>w. fst w = t) trace)"
    and msets: "mset (concat (map committed savers)) = mset trace"
    using inv by (auto simp: run_inv_def)
  have me: "fresh_enough db (sv_source ?s) (sv_phase ?s)" "paced ?g db ?s" using old i(1) by auto
  have msets': "mset (concat (map committed (savers[i := ?s']))) = mset (trace @ committed ?s')"
    using committed_update[OF i] msets by simp
  show ?thesis
  proof (cases rule: advance_cases[OF good me(1) i(2) adv])
    case (1 k)
    have "fresh_enough db (sv_source ?s') phase \<and> paced ?g db ?s'" "committed ?s' = []"
      using 1 me(2) by (auto simp: fresh_enough_def paced_def generation_def committed_def split: option.splits)
    then show ?thesis
      using good old gen msets' 1(2) i(1) by (auto simp: run_inv_def dest!: set_update_subset_insert[THEN subsetD])
  next
    case 2
    have "attempt_of (sv_phase ?s) < attempts" "?g + attempt_of (sv_phase ?s) + 1 \<le> generation db (sv_source ?s)"
      using 2(3) me(2) by (auto simp: paced_def attempt_of_def generation_def split: save_phase.splits)
    from paced_retry[OF this] have "paced ?g db ?s'" unfolding 2(2) .
    moreover have "fresh_enough db (sv_source ?s') phase" "committed ?s' = []"
      using 2(2) by (auto simp: fresh_enough_def retry_def committed_def)
    ultimately show ?thesis
      using good old gen msets' 2(1) i(1) by (auto simp: run_inv_def dest!: set_update_subset_insert[THEN subsetD])
  next
    case (3 oldc)
    have sel: "\<And>r t. select_row db t = Some r \<Longrightarrow>
        \<exists>r'. select_row db' t = Some r' \<and> sc_id r' = sc_id r \<and> (r' = r \<or> sc_version r < sc_version r')"
      using 3(6,7) by metis
    have gens: "generation db' t = generation db t + (if t = sv_source ?s then 1 else 0)" for t
      using 3(5,6) by (auto simp: generation_def)
    have keep: "fresh_enough db' (sv_source s) (sv_phase s) \<and> paced (generation db0 (sv_source s)) db' s"
      if "s \<in> set savers" for s
      using old[OF that] fresh_enough_kept[OF _ sel] paced_mono[of _ db s db'] gens by auto
    have "fresh_enough db' (sv_source ?s') phase \<and> paced ?g db' ?s'"
      "committed ?s' = [(sv_source ?s, sv_cursor ?s, \<lparr>cm_advanced = (oldc \<noteq> Some (sv_cursor ?s)), cm_old = oldc,
         cm_new = sv_cursor ?s\<rparr>)]"
      using 3(4) by (auto simp: fresh_enough_def paced_def committed_def)
    then show ?thesis
      using 3(1) keep gen gens msets' i(1) by (auto simp: run_inv_def dest!: set_update_subset_insert[THEN subsetD])
  qed
qed

lemma saves_inv:
  assumes "saves blank (db0, savers0) trace st" and "good_rows db0" and "list_all (\<lambda>s. sv_phase s = Reading 0) savers0"
  shows "run_inv blank db0 trace (fst st) (snd st)"
  using assms
proof (induction rule: saves.induct)
  case saves_start
  then have "concat (map committed savers0) = []" by (auto simp: list_all_iff committed_def)
  with saves_start show ?case
    by (auto simp: run_inv_def fresh_enough_def paced_def list_all_iff attempts_def)
next
  case (saves_step trace db savers i db' phase)
  then show ?case using run_inv_step[of blank db0 trace db savers i db' phase] by simp
qed

text \<open>The empty dictionary is neither stored nor being saved.\<close>

definition no_blanks :: "('c \<Rightarrow> bool) \<Rightarrow> 'c cursor_db \<Rightarrow> 'c saver list \<Rightarrow> bool" where
  "no_blanks blank db savers \<longleftrightarrow>
     (\<forall>r \<in> set (cd_rows db). \<not> blank (sc_cursor r)) \<and> (\<forall>s \<in> set savers. \<not> blank (sv_cursor s))"

lemma advance_rows:
  "advance blank db s c phase = (db', phase') \<Longrightarrow>
     sc_cursor ` set (cd_rows db') \<subseteq> insert c (sc_cursor ` set (cd_rows db))"
proof (cases phase)
  case (Updating k row)
  have bump: "sc_cursor (bump_row row c r) = (if row_matches row r then c else sc_cursor r)" for r
    by (simp add: bump_row_def)
  assume "advance blank db s c phase = (db', phase')"
  then have "cd_rows db' = cd_rows db \<or> cd_rows db' = map (bump_row row c) (cd_rows db)"
    unfolding Updating advance.simps versioned_update_def Let_def
    by (cases "list_ex (row_matches row) (cd_rows db)") auto
  then show ?thesis by (auto simp: bump)
next
  case (Inserting k)
  then show "advance blank db s c phase = (db', phase') \<Longrightarrow> ?thesis"
    by (cases "select_row db s") (auto simp: insert_row_def)
qed auto

lemma saves_no_blanks:
  "saves blank (db0, savers0) trace st \<Longrightarrow> no_blanks blank db0 savers0 \<Longrightarrow> no_blanks blank (fst st) (snd st)"
proof (induction rule: saves.induct)
  case (saves_step trace db savers i db' phase)
  have "no_blanks blank db savers" using saves_step.IH[OF saves_step.prems] by simp
  then have old: "\<forall>c \<in> sc_cursor ` set (cd_rows db). \<not> blank c" "\<forall>s \<in> set savers. \<not> blank (sv_cursor s)"
    by (auto simp: no_blanks_def)
  have me: "\<not> blank (sv_cursor (savers ! i))" using old(2) nth_mem[OF saves_step.hyps(2)] by (rule bspec)
  then have "\<not> blank (sv_cursor ((savers ! i)\<lparr>sv_phase := phase\<rparr>))" by simp
  with old(2) have "\<forall>s \<in> set (savers[i := (savers ! i)\<lparr>sv_phase := phase\<rparr>]). \<not> blank (sv_cursor s)"
    using set_update_subset_insert[of savers i "(savers ! i)\<lparr>sv_phase := phase\<rparr>"] by blast
  moreover have "\<forall>c \<in> sc_cursor ` set (cd_rows db'). \<not> blank c"
  proof
    fix c assume "c \<in> sc_cursor ` set (cd_rows db')"
    then have "c \<in> insert (sv_cursor (savers ! i)) (sc_cursor ` set (cd_rows db))"
      by (rule subsetD[OF advance_rows[OF saves_step.hyps(4)]])
    then show "\<not> blank c" by (rule insertE) (use me in simp, rule bspec[OF old(1)])
  qed
  ultimately show ?case by (simp add: no_blanks_def)
qed simp

text \<open>The commits, in the order they happened, are sequential saves on the in-memory store.\<close>

lemma saves_replay:
  assumes "saves blank (db0, savers0) trace st" and "good_rows db0" and "list_all (\<lambda>s. sv_phase s = Reading 0) savers0"
    and "no_blanks blank db0 savers0"
  shows "replay (cursors db0) (writes_of trace) = (results_of trace, cursors (fst st))"
  using assms
proof (induction rule: saves.induct)
  case saves_start
  then show ?case by (simp add: writes_of_def results_of_def)
next
  case (saves_step trace db savers i db' phase)
  let ?s = "savers ! i"
  have inv: "run_inv blank db0 trace db savers"
    using saves_inv[OF saves_step.hyps(1)] saves_step.prems by simp
  have "good_rows db" "fresh_enough db (sv_source ?s) (sv_phase ?s)"
    using inv saves_step.hyps(2) by (auto simp: run_inv_def)
  from advance_cases[OF this saves_step.hyps(3,4)] consider
    (quiet) "db' = db" "committed (?s\<lparr>sv_phase := phase\<rparr>) = []"
  | (commit) "cursors db' = (cursors db)(sv_source ?s \<mapsto> sv_cursor ?s)"
      "phase = Saved \<lparr>cm_advanced = (db_load blank db (sv_source ?s) \<noteq> Some (sv_cursor ?s)),
         cm_old = db_load blank db (sv_source ?s), cm_new = sv_cursor ?s\<rparr>"
    by cases (auto simp: committed_def retry_def split: option.splits)
  then show ?case
  proof cases
    case quiet
    then show ?thesis using saves_step.IH saves_step.prems by simp
  next
    case commit
    have "db_load blank db (sv_source ?s) = cursors db (sv_source ?s)"
      using saves_no_blanks[OF saves_step.hyps(1) saves_step.prems(3)]
      by (auto simp: no_blanks_def db_load_def cursors_def stored_cursor_def split: option.splits dest: select_row_Some)
    then show ?thesis
      using saves_step.IH saves_step.prems commit
      by (simp add: writes_of_def results_of_def committed_def replay_append mem_save_def Let_def fun_upd_def)
  qed
qed

text \<open>
  C23: concurrent saves are linearizable: in every interleaving, the commits that callers were told of
  are exactly the commits that happened, and replaying them one by one, in commit order, on the
  in-memory store gives every caller the result it got and ends in the stored cursors. No update
  is lost and no result claims progress it did not make, as long as no cursor is the empty
  dictionary, which the database store does not tell from having no cursor.
\<close>

theorem concurrent_saves_linearizable:
  assumes "saves blank (db0, savers0) trace (db, savers)" and "good_rows db0"
    and "list_all (\<lambda>s. sv_phase s = Reading 0) savers0" and "no_blanks blank db0 savers0"
  shows "replay (cursors db0) (writes_of trace) = (results_of trace, cursors db) \<and>
    mset (concat (map committed savers)) = mset trace"
  using saves_replay[OF assms] saves_inv[OF assms(1-3)] by (simp add: run_inv_def)

definition savers_of :: "string \<Rightarrow> 'c saver list \<Rightarrow> 'c saver list" where
  "savers_of source_id savers = filter (\<lambda>s. sv_source s = source_id) savers"

lemma length_committed_le:
  "length (filter (\<lambda>w. fst w = t) (concat (map committed savers))) \<le> length (filter (\<lambda>s. sv_phase s \<noteq> SaveRaised) (savers_of t savers))"
  by (induction savers) (auto simp: savers_of_def committed_def split: save_phase.splits)

lemma savers_of_kept:
  assumes "saves blank (db0, savers0) trace st"
  shows "length (savers_of t (snd st)) = length (savers_of t savers0)"
  using assms
proof (induction rule: saves.induct)
  case (saves_step trace db savers i db' phase)
  have "map sv_source (savers[i := (savers ! i)\<lparr>sv_phase := phase\<rparr>]) = map sv_source savers"
    using saves_step.hyps(2) by (simp add: map_update list_update_same_conv)
  then have "length (filter (\<lambda>x. x = t) (map sv_source (savers[i := (savers ! i)\<lparr>sv_phase := phase\<rparr>]))) =
      length (filter (\<lambda>x. x = t) (map sv_source savers))" by simp
  with saves_step.IH show ?case by (simp add: savers_of_def filter_map comp_def)
qed simp

lemma no_save_raises:
  assumes "saves blank (db0, savers0) trace (db, savers)" and "good_rows db0"
    and "list_all (\<lambda>s. sv_phase s = Reading 0) savers0" and "s \<in> set savers"
    and "length (savers_of (sv_source s) savers0) \<le> attempts"
  shows "sv_phase s \<noteq> SaveRaised"
proof
  assume raised: "sv_phase s = SaveRaised"
  let ?t = "sv_source s"
  have inv: "run_inv blank db0 trace db savers" using saves_inv[OF assms(1-3)] by simp
  have "paced (generation db0 ?t) db s" using inv assms(4) by (auto simp: run_inv_def)
  then have "generation db0 ?t + attempts \<le> generation db ?t" using raised by (simp add: paced_def)
  moreover have "generation db ?t = generation db0 ?t + length (filter (\<lambda>w. fst w = ?t) trace)"
    using inv by (simp add: run_inv_def)
  moreover have "length (filter (\<lambda>w. fst w = ?t) trace) = length (filter (\<lambda>w. fst w = ?t) (concat (map committed savers)))"
    using inv by (metis run_inv_def mset_filter size_mset)
  moreover have "length (filter (\<lambda>s. sv_phase s \<noteq> SaveRaised) (savers_of ?t savers)) < length (savers_of ?t savers)"
    using assms(4) raised by (intro length_filter_less[of s]) (auto simp: savers_of_def)
  ultimately show False
    using length_committed_le[of ?t savers] savers_of_kept[OF assms(1), of ?t] assms(5) by simp
qed

section \<open>Every save ends\<close>

definition steps_left :: "'c save_phase \<Rightarrow> nat" where
  "steps_left phase =
     (case phase of Reading k \<Rightarrow> 2 * (attempts - k) | Updating k _ \<Rightarrow> 2 * (attempts - k) - 1
      | Inserting k \<Rightarrow> 2 * (attempts - k) - 1 | _ \<Rightarrow> 0)"

definition work_left :: "'c saver list \<Rightarrow> nat" where
  "work_left savers = sum_list (map (steps_left \<circ> sv_phase) savers)"

lemma advance_steps_left:
  assumes "moving phase" and "attempt_of phase < attempts" and "advance blank db s c phase = (db', phase')"
  shows "steps_left phase' < steps_left phase"
  using assms
  by (cases phase) (auto simp: moving_def steps_left_def attempt_of_def retry_def attempts_def Let_def
      split: option.splits if_splits prod.splits)

lemma work_left_update:
  assumes "i < length savers" and "steps_left (sv_phase s) < steps_left (sv_phase (savers ! i))"
  shows "work_left (savers[i := s]) < work_left savers"
proof -
  have "sum_list (map (steps_left \<circ> sv_phase) savers) = steps_left (sv_phase (savers ! i)) +
      sum_list (map (steps_left \<circ> sv_phase) (take i savers)) + sum_list (map (steps_left \<circ> sv_phase) (drop (Suc i) savers))"
    by (subst id_take_nth_drop[OF assms(1)]) simp
  with assms show ?thesis by (simp add: work_left_def upd_conv_take_nth_drop)
qed

text \<open>
  C24: with at most three concurrent saves of a source every call returns its result: each step of any
  save, under any schedule, uses up a bounded amount of work, and when no save can move any more
  all of them have committed; the retry budget is never exhausted.
\<close>

theorem concurrent_saves_return:
  assumes "saves blank (db0, savers0) trace (db, savers)" and "good_rows db0"
    and "list_all (\<lambda>s. sv_phase s = Reading 0) savers0"
    and "\<And>t. length (savers_of t savers0) \<le> 3"
  shows "(\<forall>i db' phase. i < length savers \<and> moving (sv_phase (savers ! i)) \<and>
      advance blank db (sv_source (savers ! i)) (sv_cursor (savers ! i)) (sv_phase (savers ! i)) = (db', phase) \<longrightarrow>
      work_left (savers[i := (savers ! i)\<lparr>sv_phase := phase\<rparr>]) < work_left savers) \<and>
    ((\<exists>s \<in> set savers. moving (sv_phase s)) \<or> (\<forall>s \<in> set savers. \<exists>result. sv_phase s = Saved result))"
proof (intro conjI allI impI)
  fix i db' phase
  assume step: "i < length savers \<and> moving (sv_phase (savers ! i)) \<and>
      advance blank db (sv_source (savers ! i)) (sv_cursor (savers ! i)) (sv_phase (savers ! i)) = (db', phase)"
  have "paced (generation db0 (sv_source (savers ! i))) db (savers ! i)"
    using saves_inv[OF assms(1-3)] step by (auto simp: run_inv_def)
  then have "attempt_of (sv_phase (savers ! i)) < attempts"
    by (auto simp: paced_def attempt_of_def attempts_def split: save_phase.splits)
  with step show "work_left (savers[i := (savers ! i)\<lparr>sv_phase := phase\<rparr>]) < work_left savers"
    using advance_steps_left by (intro work_left_update) auto
next
  have "\<exists>result. sv_phase s = Saved result" if "s \<in> set savers" "\<not> moving (sv_phase s)" for s
    using that no_save_raises[OF assms(1-3) that(1)] assms(4)
    by (cases "sv_phase s") (auto simp: moving_def attempts_def)
  then show "(\<exists>s \<in> set savers. moving (sv_phase s)) \<or> (\<forall>s \<in> set savers. \<exists>result. sv_phase s = Saved result)"
    by blast
qed

section \<open>Two saves that race to insert\<close>

definition race_db :: "string cursor_db" where
  "race_db = \<lparr>cd_rows = [], cd_next = 0\<rparr>"

definition race_savers :: "string saver list" where
  "race_savers = [\<lparr>sv_source = ''s'', sv_cursor = ''a'', sv_phase = Reading 0\<rparr>,
     \<lparr>sv_source = ''s'', sv_cursor = ''b'', sv_phase = Reading 0\<rparr>]"

definition won :: "string commit_result" where
  "won = \<lparr>cm_advanced = True, cm_old = None, cm_new = ''b''\<rparr>"

lemma race_saves:
  "saves (\<lambda>c. c = []) (race_db, race_savers) [(''s'', ''b'', won)]
     (\<lparr>cd_rows = [\<lparr>sc_id = 0, sc_source_id = ''s'', sc_cursor = ''b'', sc_version = 0\<rparr>], cd_next = 1\<rparr>,
      [\<lparr>sv_source = ''s'', sv_cursor = ''a'', sv_phase = Reading 1\<rparr>,
       \<lparr>sv_source = ''s'', sv_cursor = ''b'', sv_phase = Saved won\<rparr>])"
proof -
  note step = saves_step[where blank = "\<lambda>c. c = []"]
  note evals = race_db_def race_savers_def won_def select_row_def insert_row_def retry_def attempts_def moving_def committed_def
  have 1: "saves (\<lambda>c. c = []) (race_db, race_savers) [] (race_db, race_savers[0 := (race_savers ! 0)\<lparr>sv_phase := Inserting 0\<rparr>])"
    using step[OF saves_start, where i = 0 and db = race_db and savers = race_savers and db' = race_db and phase = "Inserting 0"] by (simp add: evals)
  have 2: "saves (\<lambda>c. c = []) (race_db, race_savers) [] (race_db,
      [(race_savers ! 0)\<lparr>sv_phase := Inserting 0\<rparr>, (race_savers ! 1)\<lparr>sv_phase := Inserting 0\<rparr>])"
    using step[OF 1, where i = 1 and db' = race_db and phase = "Inserting 0"] by (simp add: evals)
  have 3: "saves (\<lambda>c. c = []) (race_db, race_savers) [(''s'', ''b'', won)] (insert_row ''s'' ''b'' race_db,
      [(race_savers ! 0)\<lparr>sv_phase := Inserting 0\<rparr>, (race_savers ! 1)\<lparr>sv_phase := Saved won\<rparr>])"
    using step[OF 2, where i = 1 and db' = "insert_row ''s'' ''b'' race_db" and phase = "Saved won"] by (simp add: evals)
  show ?thesis
    using step[OF 3, where i = 0 and db' = "insert_row ''s'' ''b'' race_db" and phase = "Reading 1"] by (simp add: evals)
qed

lemma race_start: "good_rows race_db" "list_all (\<lambda>s. sv_phase s = Reading 0) race_savers"
  by (simp_all add: race_db_def race_savers_def good_rows_def)

theorem concurrent_saves_linearizable_witness:
  "replay Map.empty [(''s'', ''b'')] = ([won], [''s'' \<mapsto> ''b''])"
proof -
  have "no_blanks (\<lambda>c. c = []) race_db race_savers" by (simp add: no_blanks_def race_db_def race_savers_def)
  from concurrent_saves_linearizable[OF race_saves race_start this, THEN conjunct1]
  have "replay (cursors race_db) [(''s'', ''b'')] = ([won], cursors \<lparr>cd_rows =
      [\<lparr>sc_id = 0, sc_source_id = ''s'', sc_cursor = ''b'', sc_version = 0\<rparr>], cd_next = 1\<rparr>)"
    by (simp add: writes_of_def results_of_def del: replay.simps)
  moreover have "cursors race_db = Map.empty" by (simp add: cursors_def race_db_def select_row_def fun_eq_iff)
  moreover have "cursors \<lparr>cd_rows = [\<lparr>sc_id = 0, sc_source_id = ''s'', sc_cursor = ''b'', sc_version = 0\<rparr>],
      cd_next = 1\<rparr> = [''s'' \<mapsto> ''b'']" by (simp add: cursors_def select_row_def fun_eq_iff)
  ultimately show ?thesis by simp
qed

theorem concurrent_saves_return_witness:
  "work_left [\<lparr>sv_source = ''s'', sv_cursor = ''a'', sv_phase = Updating 1 \<lparr>sc_id = 0, sc_source_id = ''s'', sc_cursor = ''b'', sc_version = 0\<rparr>\<rparr>,
     \<lparr>sv_source = ''s'', sv_cursor = ''b'', sv_phase = Saved won\<rparr>] <
   work_left [\<lparr>sv_source = ''s'', sv_cursor = ''a'', sv_phase = Reading 1\<rparr>,
     \<lparr>sv_source = ''s'', sv_cursor = ''b'', sv_phase = Saved won\<rparr>]"
proof -
  have "length (savers_of t race_savers) \<le> 3" for t by (simp add: savers_of_def race_savers_def)
  from concurrent_saves_return[OF race_saves race_start this, THEN conjunct1, rule_format, of 0] show ?thesis
    by (simp add: moving_def select_row_def)
qed

text \<open>The two stores disagree on the empty dictionary: re-saving it is reported as progress.\<close>

lemma empty_cursor_always_advances:
  assumes "select_row db s = Some r" and "good_rows db" and "blank (sc_cursor r)" and "blank c"
  shows "\<exists>db'. db_save blank s c db = (Saved \<lparr>cm_advanced = True, cm_old = None, cm_new = c\<rparr>, db')"
proof -
  have "list_ex (row_matches r) (cd_rows db)"
    using select_row_Some[OF assms(1)] by (auto simp: list_ex_iff row_matches_def)
  with assms show ?thesis by (simp add: db_save_def versioned_update_def stored_cursor_def)
qed

end
