(* ===== verification/ChannelRunner.thy ===== *)
theory ChannelRunner
  imports CursorStore ControlState
begin

text \<open>
  The channel contract (\<open>backend/channels/base.py\<close>), the runner that drives a channel page by
  page (\<open>backend/pipeline/channel_runner.py\<close>) and the collect step that stages its cursor
  (\<open>backend/pipeline/collector.py\<close>). What a channel fetches from the outside is a function of
  the number of fetches made before and of the context the runner hands it; resolving credentials
  is the parameter \<open>auth\<close>. The interface to a cursor store is a locale, interpreted on the
  in-memory store.
\<close>

section \<open>The channel contract\<close>

record capabilities =
  cap_incremental :: bool
  cap_paginated :: bool
  cap_auth_kind :: string
  cap_session_affinity :: bool
  cap_default_rate :: string

definition default_capabilities :: capabilities where
  "default_capabilities = \<lparr>cap_incremental = False, cap_paginated = False, cap_auth_kind = ''none'',
     cap_session_affinity = False, cap_default_rate = ''60/min''\<rparr>"

record channel_result =
  cr_success :: bool
  cr_items :: "json dict list"
  cr_error :: "string option"
  cr_error_type :: "string option"
  cr_metadata :: "json dict"

definition channel_ok :: "json dict list \<Rightarrow> json dict \<Rightarrow> channel_result" where
  "channel_ok items metadata =
     \<lparr>cr_success = True, cr_items = items, cr_error = None, cr_error_type = None, cr_metadata = metadata\<rparr>"

definition channel_fail :: "string \<Rightarrow> string option \<Rightarrow> channel_result" where
  "channel_fail error error_type =
     \<lparr>cr_success = False, cr_items = [], cr_error = Some error, cr_error_type = error_type, cr_metadata = []\<rparr>"

record ('c, 'a) fetch_context =
  fx_config :: "json dict"
  fx_params :: "json dict"
  fx_cursor :: "'c option"
  fx_source_id :: string
  fx_auth :: 'a

record 'c fetch_result =
  fr_items :: "json dict list"
  fr_next_cursor :: "'c option"
  fr_has_more :: bool
  fr_metadata :: "json dict"

text \<open>A channel: its own \<open>fetch\<close> if it has migrated, its \<open>collect\<close> otherwise.\<close>

record ('c, 'a) channel =
  ch_capabilities :: capabilities
  ch_fetch :: "(nat \<Rightarrow> ('c, 'a) fetch_context \<Rightarrow> exn + 'c fetch_result) option"
  ch_collect :: "json dict \<Rightarrow> json dict \<Rightarrow> exn + channel_result"
  ch_identity :: "json dict \<Rightarrow> exn + string option"

definition default_fetch ::
  "(json dict \<Rightarrow> json dict \<Rightarrow> exn + channel_result) \<Rightarrow> ('c, 'a) fetch_context \<Rightarrow> exn + 'c fetch_result"
where
  "default_fetch collect_fn ctx =
     (case collect_fn (fx_config ctx) (fx_params ctx) of
        Inl e \<Rightarrow> Inl e
      | Inr result \<Rightarrow>
          if \<not> cr_success result then Inl (ChannelFetchError (cr_error_type result) None)
          else Inr \<lparr>fr_items = cr_items result, fr_next_cursor = None, fr_has_more = False,
                 fr_metadata = cr_metadata result\<rparr>)"

definition fetch_page ::
  "('c, 'a) channel \<Rightarrow> nat \<Rightarrow> ('c, 'a) fetch_context \<Rightarrow> exn + 'c fetch_result"
where
  "fetch_page ch n ctx =
     (case ch_fetch ch of Some f \<Rightarrow> f n ctx | None \<Rightarrow> default_fetch (ch_collect ch) ctx)"

section \<open>The runner\<close>

definition MAX_PAGES :: nat where
  "MAX_PAGES = 50"

record run_result =
  rr_items :: "json dict list"
  rr_metadata :: "json dict"

definition page_context ::
  "data_source \<Rightarrow> json dict \<Rightarrow> 'a \<Rightarrow> 'c option \<Rightarrow> ('c, 'a) fetch_context"
where
  "page_context source params auth cursor =
     \<lparr>fx_config = ds_channel_config source, fx_params = params, fx_cursor = cursor,
      fx_source_id = ds_id source, fx_auth = auth\<rparr>"

definition next_cursor :: "'c option \<Rightarrow> 'c fetch_result \<Rightarrow> 'c option" where
  "next_cursor cursor result = (case fr_next_cursor result of None \<Rightarrow> cursor | Some c \<Rightarrow> Some c)"

definition goes_on :: "('c, 'a) channel \<Rightarrow> 'c fetch_result \<Rightarrow> bool" where
  "goes_on ch result \<longleftrightarrow> cap_paginated (ch_capabilities ch) \<and> fr_has_more result"

function run_pages ::
  "(string \<Rightarrow> 'c \<Rightarrow> 'st \<Rightarrow> 'r \<times> 'st) \<Rightarrow> ('c, 'a) channel \<Rightarrow> data_source \<Rightarrow> json dict \<Rightarrow> 'a \<Rightarrow>
   nat \<Rightarrow> 'c option \<Rightarrow> json dict list \<Rightarrow> json dict \<Rightarrow> 'st \<Rightarrow> (exn + run_result) \<times> 'st"
where
  "run_pages save ch source params auth pages cursor items metadata store =
     (case fetch_page ch pages (page_context source params auth cursor) of
        Inl e \<Rightarrow> (Inl e, store)
      | Inr result \<Rightarrow>
          let items' = items @ fr_items result;
              metadata' = dict_update metadata (fr_metadata result);
              cursor' = next_cursor cursor result;
              store' = (case fr_next_cursor result of
                  Some c \<Rightarrow> if cap_incremental (ch_capabilities ch) then snd (save (ds_id source) c store)
                           else store
                | None \<Rightarrow> store);
              pages' = pages + 1
          in if \<not> goes_on ch result then (Inr \<lparr>rr_items = items', rr_metadata = metadata'\<rparr>, store')
             else if pages' \<ge> MAX_PAGES then (Inr \<lparr>rr_items = items', rr_metadata = metadata'\<rparr>, store')
             else run_pages save ch source params auth pages' cursor' items' metadata' store')"
  by pat_completeness auto

termination run_pages
  by (relation "measure (\<lambda>(_, _, _, _, _, pages, _). MAX_PAGES - pages)") (auto simp: MAX_PAGES_def)

declare run_pages.simps [simp del]

definition run_channel ::
  "('st \<Rightarrow> string \<Rightarrow> 'c option) \<Rightarrow> (string \<Rightarrow> 'c \<Rightarrow> 'st \<Rightarrow> 'r \<times> 'st) \<Rightarrow> ('c, 'a) channel \<Rightarrow>
   (string \<Rightarrow> string \<Rightarrow> exn + 'a) \<Rightarrow> data_source \<Rightarrow> json dict \<Rightarrow> 'st \<Rightarrow> (exn + run_result) \<times> 'st"
where
  "run_channel load save ch auth source params store =
     (let cursor = (if cap_incremental (ch_capabilities ch) then load store (ds_id source) else None)
      in case auth (ds_id source) (cap_auth_kind (ch_capabilities ch)) of
           Inl e \<Rightarrow> (Inl e, store)
         | Inr a \<Rightarrow> run_pages save ch source params a 0 cursor [] [] store)"

section \<open>Collecting with a staged cursor\<close>

text \<open>
  The result of the collect step; the two reserved metadata keys, the pending cursor and the source
  it belongs to, are fields.
\<close>

record 'c collected = channel_result +
  cl_pending :: "'c option"
  cl_cursor_source :: string

definition RESERVED_KEYS :: "string list" where
  "RESERVED_KEYS = [''__cursor_pending__'', ''__cursor_source_id__'']"

text \<open>
  \<open>ChannelResult.ok(items, **metadata)\<close>: a metadata key that is also the name of a positional
  parameter is a second value for it.
\<close>

definition collect ::
  "('c \<Rightarrow> bool) \<Rightarrow> (string \<Rightarrow> ('c, 'a) channel option) \<Rightarrow> (string \<Rightarrow> string \<Rightarrow> exn + 'a) \<Rightarrow>
   'c cursor_db \<Rightarrow> data_source \<Rightarrow> json dict \<Rightarrow> exn + 'c collected"
where
  "collect blank channels auth cursors_db source parameters =
     (case channels (ds_channel_type source) of
        None \<Rightarrow> Inl (Exn ''ValueError'')
      | Some ch \<Rightarrow>
          let start = (if cap_incremental (ch_capabilities ch)
                       then db_load blank cursors_db (ds_id source) else None);
              staging = (case start of None \<Rightarrow> Map.empty
                         | Some c \<Rightarrow> snd (mem_save (ds_id source) c Map.empty));
              (result, staging') = run_channel mem_load mem_save ch auth source parameters staging;
              staged = mem_load staging' (ds_id source)
          in case result of
               Inl e \<Rightarrow> Inl e
             | Inr r \<Rightarrow>
                 if dict_get (rr_metadata r) ''items'' \<noteq> None \<or> dict_get (rr_metadata r) ''cls'' \<noteq> None
                 then Inl (Exn ''TypeError'')
                 else Inr \<lparr>cr_success = True, cr_items = rr_items r, cr_error = None, cr_error_type = None,
                        cr_metadata = filter (\<lambda>(k, _). \<not> List.member RESERVED_KEYS k) (rr_metadata r),
                        cl_pending = staged, cl_cursor_source = ds_id source\<rparr>)"

section \<open>Chains of pages\<close>

text \<open>The pages of one run, from the page number and the cursor they start at.\<close>

definition cursor_after :: "'c option \<Rightarrow> 'c fetch_result list \<Rightarrow> 'c option" where
  "cursor_after cursor rs = fold (\<lambda>r c. next_cursor c r) rs cursor"

definition pages_follow ::
  "('c, 'a) channel \<Rightarrow> data_source \<Rightarrow> json dict \<Rightarrow> 'a \<Rightarrow> nat \<Rightarrow> 'c option \<Rightarrow> 'c fetch_result list \<Rightarrow> bool"
where
  "pages_follow ch source params auth n cursor rs \<longleftrightarrow>
     (\<forall>i < length rs. fetch_page ch (n + i) (page_context source params auth (cursor_after cursor (take i rs))) =
        Inr (rs ! i))"

definition gathered :: "json dict list \<Rightarrow> json dict \<Rightarrow> 'c fetch_result list \<Rightarrow> run_result" where
  "gathered items metadata rs =
     \<lparr>rr_items = items @ concat (map fr_items rs),
      rr_metadata = fold (\<lambda>r m. dict_update m (fr_metadata r)) rs metadata\<rparr>"

lemma cursor_after_simps [simp]:
  "cursor_after c [] = c" "cursor_after c (r # rs) = cursor_after (next_cursor c r) rs"
  by (simp_all add: cursor_after_def)

lemma gathered_Cons:
  "gathered items metadata (r # rs) = gathered (items @ fr_items r) (dict_update metadata (fr_metadata r)) rs"
  by (simp add: gathered_def)

lemma pages_follow_Cons:
  "pages_follow ch source params a n c (r # rs) \<longleftrightarrow>
     fetch_page ch n (page_context source params a c) = Inr r \<and>
     pages_follow ch source params a (n + 1) (next_cursor c r) rs"
  by (simp add: pages_follow_def All_less_Suc2)

text \<open>One page of the loop.\<close>

definition page_stored ::
  "(string \<Rightarrow> 'c \<Rightarrow> 'st \<Rightarrow> 'r \<times> 'st) \<Rightarrow> ('c, 'a) channel \<Rightarrow> string \<Rightarrow> 'c fetch_result \<Rightarrow> 'st \<Rightarrow> 'st"
where
  "page_stored save ch sid p st =
     (case fr_next_cursor p of
        Some c \<Rightarrow> if cap_incremental (ch_capabilities ch) then snd (save sid c st) else st
      | None \<Rightarrow> st)"

lemma run_pages_raise:
  "fetch_page ch n (page_context source params a cursor) = Inl e \<Longrightarrow>
    run_pages save ch source params a n cursor items metadata st = (Inl e, st)"
  by (subst run_pages.simps) simp

lemma run_pages_page:
  "fetch_page ch n (page_context source params a cursor) = Inr p \<Longrightarrow>
    run_pages save ch source params a n cursor items metadata st =
      (if \<not> goes_on ch p \<or> n + 1 \<ge> MAX_PAGES
       then (Inr (gathered items metadata [p]), page_stored save ch (ds_id source) p st)
       else run_pages save ch source params a (n + 1) (next_cursor cursor p) (items @ fr_items p)
         (dict_update metadata (fr_metadata p)) (page_stored save ch (ds_id source) p st))"
  by (subst run_pages.simps) (cases "goes_on ch p"; simp add: gathered_def page_stored_def Let_def)

section \<open>What a store promises to the runner\<close>

locale cursor_store =
  fixes load :: "'st \<Rightarrow> string \<Rightarrow> 'c option"
    and save :: "string \<Rightarrow> 'c \<Rightarrow> 'st \<Rightarrow> 'r \<times> 'st"
  assumes load_save: "load (snd (save s c st)) t = (if t = s then Some c else load st t)"
begin

text \<open>A run that returns: the pages it saw, and the cursor it left in the store.\<close>

lemma run_pages_returns:
  assumes "run_pages save ch source params a n cursor items metadata st = (Inr r, st')" and "n < MAX_PAGES"
    and "cap_incremental (ch_capabilities ch) \<Longrightarrow> load st (ds_id source) = cursor"
  shows "\<exists>rs. rs \<noteq> [] \<and> pages_follow ch source params a n cursor rs \<and> n + length rs \<le> MAX_PAGES \<and>
    list_all (goes_on ch) (butlast rs) \<and> (goes_on ch (last rs) \<longrightarrow> n + length rs = MAX_PAGES) \<and>
    r = gathered items metadata rs \<and>
    load st' (ds_id source) = (if cap_incremental (ch_capabilities ch) then cursor_after cursor rs
      else load st (ds_id source))"
  using assms
proof (induction "MAX_PAGES - n" arbitrary: n cursor items metadata st rule: less_induct)
  case less
  let ?inc = "cap_incremental (ch_capabilities ch)"
  obtain p where p: "fetch_page ch n (page_context source params a cursor) = Inr p"
    using less.prems(1) run_pages_raise[of ch n source params a cursor _ save items metadata st]
    by (cases "fetch_page ch n (page_context source params a cursor)") auto
  define st1 where "st1 = page_stored save ch (ds_id source) p st"
  have st1: "load st1 (ds_id source) = (if ?inc then next_cursor cursor p else load st (ds_id source))"
    using less.prems(3) by (auto simp: st1_def page_stored_def next_cursor_def load_save split: option.splits)
  have run: "(if \<not> goes_on ch p \<or> n + 1 \<ge> MAX_PAGES
      then (Inr (gathered items metadata [p]), st1)
      else run_pages save ch source params a (n + 1) (next_cursor cursor p) (items @ fr_items p)
        (dict_update metadata (fr_metadata p)) st1) = (Inr r, st')"
    using less.prems(1) unfolding run_pages_page[OF p] st1_def .
  show ?case
  proof (cases "\<not> goes_on ch p \<or> n + 1 \<ge> MAX_PAGES")
    case True
    with run have "r = gathered items metadata [p]" "st' = st1" by auto
    with True less.prems(2) p st1 show ?thesis
      by (intro exI[of _ "[p]"]) (auto simp: pages_follow_def)
  next
    case False
    then have more: "n + 1 < MAX_PAGES" "MAX_PAGES - (n + 1) < MAX_PAGES - n" "goes_on ch p" by auto
    have rec: "run_pages save ch source params a (n + 1) (next_cursor cursor p) (items @ fr_items p)
        (dict_update metadata (fr_metadata p)) st1 = (Inr r, st')" using run False by simp
    obtain rs where rs: "rs \<noteq> []" "pages_follow ch source params a (n + 1) (next_cursor cursor p) rs"
      "n + 1 + length rs \<le> MAX_PAGES" "list_all (goes_on ch) (butlast rs)"
      "goes_on ch (last rs) \<longrightarrow> n + 1 + length rs = MAX_PAGES"
      "r = gathered (items @ fr_items p) (dict_update metadata (fr_metadata p)) rs"
      "load st' (ds_id source) = (if ?inc then cursor_after (next_cursor cursor p) rs else load st1 (ds_id source))"
      using less.hyps[OF more(2) rec more(1)] st1 by auto
    show ?thesis
      using rs p more st1 by (intro exI[of _ "p # rs"]) (auto simp: pages_follow_Cons gathered_Cons)
  qed
qed

text \<open>A run that raises: it was the fetch after a chain of pages that all went on.\<close>

lemma run_pages_raises:
  assumes "run_pages save ch source params a n cursor items metadata st = (Inl e, st')" and "n < MAX_PAGES"
  shows "\<exists>rs. pages_follow ch source params a n cursor rs \<and> n + length rs < MAX_PAGES \<and> list_all (goes_on ch) rs \<and>
    fetch_page ch (n + length rs) (page_context source params a (cursor_after cursor rs)) = Inl e"
  using assms
proof (induction "MAX_PAGES - n" arbitrary: n cursor items metadata st rule: less_induct)
  case less
  show ?case
  proof (cases "fetch_page ch n (page_context source params a cursor)")
    case (Inl e')
    then have "e' = e" using less.prems(1) unfolding run_pages_raise[OF Inl] by simp
    with Inl less.prems(2) show ?thesis by (intro exI[of _ "[]"]) (simp add: pages_follow_def)
  next
    case (Inr p)
    then have more: "n + 1 < MAX_PAGES" "goes_on ch p" and
      rec: "run_pages save ch source params a (n + 1) (next_cursor cursor p) (items @ fr_items p)
        (dict_update metadata (fr_metadata p)) (page_stored save ch (ds_id source) p st) = (Inl e, st')"
      using less.prems(1) unfolding run_pages_page[OF Inr] by (simp_all split: if_splits)
    have "MAX_PAGES - (n + 1) < MAX_PAGES - n" using less.prems(2) by simp
    from less.hyps[OF this rec more(1)] obtain rs where
      "pages_follow ch source params a (n + 1) (next_cursor cursor p) rs" "n + 1 + length rs < MAX_PAGES"
      "list_all (goes_on ch) rs"
      "fetch_page ch (n + 1 + length rs) (page_context source params a (cursor_after (next_cursor cursor p) rs)) = Inl e"
      by blast
    with Inr more show ?thesis by (intro exI[of _ "p # rs"]) (simp add: pages_follow_Cons)
  qed
qed

text \<open>The runner on a store: what a run leaves under the cursor of its source.\<close>

lemma run_channel_returns:
  assumes "run_channel load save ch auth source params st = (Inr r, st')"
  shows "\<exists>a rs. auth (ds_id source) (cap_auth_kind (ch_capabilities ch)) = Inr a \<and> rs \<noteq> [] \<and>
    pages_follow ch source params a 0 (if cap_incremental (ch_capabilities ch) then load st (ds_id source) else None) rs \<and>
    length rs \<le> MAX_PAGES \<and> list_all (goes_on ch) (butlast rs) \<and> (goes_on ch (last rs) \<longrightarrow> length rs = MAX_PAGES) \<and>
    r = gathered [] [] rs \<and>
    load st' (ds_id source) = (if cap_incremental (ch_capabilities ch) then cursor_after (load st (ds_id source)) rs
      else load st (ds_id source))"
proof -
  obtain a where a: "auth (ds_id source) (cap_auth_kind (ch_capabilities ch)) = Inr a"
    and run: "run_pages save ch source params a 0
      (if cap_incremental (ch_capabilities ch) then load st (ds_id source) else None) [] [] st = (Inr r, st')"
    using assms by (auto simp: run_channel_def Let_def split: sum.splits)
  have "0 < MAX_PAGES" by (simp add: MAX_PAGES_def)
  from run_pages_returns[OF run this] a show ?thesis by (auto split: if_splits)
qed

lemma run_channel_raises:
  assumes "run_channel load save ch auth source params st = (Inl e, st')"
  shows "auth (ds_id source) (cap_auth_kind (ch_capabilities ch)) = Inl e \<or>
    (\<exists>a rs. auth (ds_id source) (cap_auth_kind (ch_capabilities ch)) = Inr a \<and>
      pages_follow ch source params a 0 (if cap_incremental (ch_capabilities ch) then load st (ds_id source) else None) rs \<and>
      length rs < MAX_PAGES \<and> list_all (goes_on ch) rs \<and>
      fetch_page ch (length rs) (page_context source params a
        (cursor_after (if cap_incremental (ch_capabilities ch) then load st (ds_id source) else None) rs)) = Inl e)"
proof (cases "auth (ds_id source) (cap_auth_kind (ch_capabilities ch))")
  case (Inr a)
  have "0 < MAX_PAGES" by (simp add: MAX_PAGES_def)
  with assms Inr run_pages_raises[of ch source params a 0 _ "[]" "[]" st e st'] show ?thesis
    by (auto simp: run_channel_def Let_def)
qed (use assms in \<open>auto simp: run_channel_def Let_def\<close>)

end

interpretation mem: cursor_store mem_load mem_save
  by unfold_locales (auto simp: mem_load_def mem_save_def Let_def)

section \<open>What collecting returns\<close>

definition start_cursor :: "('c \<Rightarrow> bool) \<Rightarrow> ('c, 'a) channel \<Rightarrow> 'c cursor_db \<Rightarrow> string \<Rightarrow> 'c option" where
  "start_cursor blank ch cursors_db sid =
     (if cap_incremental (ch_capabilities ch) then db_load blank cursors_db sid else None)"

definition staging :: "string \<Rightarrow> 'c option \<Rightarrow> string \<rightharpoonup> 'c" where
  "staging sid start = (case start of None \<Rightarrow> Map.empty | Some c \<Rightarrow> snd (mem_save sid c Map.empty))"

lemma staging_load [simp]: "mem_load (staging sid start) sid = start"
  by (cases start) (simp_all add: staging_def mem_load_def mem_save_def)

lemma collect_run:
  assumes "channels (ds_channel_type source) = Some ch"
  shows "collect blank channels auth cdb source params =
    (let (result, staging') = run_channel mem_load mem_save ch auth source params
           (staging (ds_id source) (start_cursor blank ch cdb (ds_id source)))
     in case result of
          Inl e \<Rightarrow> Inl e
        | Inr r \<Rightarrow>
            if dict_get (rr_metadata r) ''items'' \<noteq> None \<or> dict_get (rr_metadata r) ''cls'' \<noteq> None
            then Inl (Exn ''TypeError'')
            else Inr \<lparr>cr_success = True, cr_items = rr_items r, cr_error = None, cr_error_type = None,
                   cr_metadata = filter (\<lambda>(k, _). \<not> List.member RESERVED_KEYS k) (rr_metadata r),
                   cl_pending = mem_load staging' (ds_id source), cl_cursor_source = ds_id source\<rparr>)"
  by (simp add: collect_def assms start_cursor_def staging_def Let_def split: prod.splits)

text \<open>The chain of pages behind a collection that succeeds.\<close>

lemma collect_chain:
  assumes "collect blank channels auth cdb source params = Inr c"
  shows "\<exists>ch a rs. channels (ds_channel_type source) = Some ch \<and>
    auth (ds_id source) (cap_auth_kind (ch_capabilities ch)) = Inr a \<and> rs \<noteq> [] \<and> length rs \<le> MAX_PAGES \<and>
    pages_follow ch source params a 0 (start_cursor blank ch cdb (ds_id source)) rs \<and>
    list_all (goes_on ch) (butlast rs) \<and> (goes_on ch (last rs) \<longrightarrow> length rs = MAX_PAGES) \<and>
    cr_success c \<and> cr_items c = concat (map fr_items rs) \<and> cl_cursor_source c = ds_id source \<and>
    cl_pending c = (if cap_incremental (ch_capabilities ch)
      then cursor_after (start_cursor blank ch cdb (ds_id source)) rs else None)"
proof -
  obtain ch where ch: "channels (ds_channel_type source) = Some ch"
    using assms by (auto simp: collect_def split: option.splits)
  let ?start = "start_cursor blank ch cdb (ds_id source)"
  let ?st = "staging (ds_id source) ?start"
  obtain r st' where run: "run_channel mem_load mem_save ch auth source params ?st = (Inr r, st')"
    and c: "cr_success c" "cr_items c = rr_items r" "cl_pending c = mem_load st' (ds_id source)"
      "cl_cursor_source c = ds_id source"
    using assms unfolding collect_run[where channels = channels and source = source, OF ch] by (auto split: prod.splits sum.splits if_splits)
  have start: "(if cap_incremental (ch_capabilities ch) then ?start else None) = ?start"
    "\<not> cap_incremental (ch_capabilities ch) \<Longrightarrow> ?start = None"
    by (simp_all add: start_cursor_def)
  obtain a rs where rs: "auth (ds_id source) (cap_auth_kind (ch_capabilities ch)) = Inr a" "rs \<noteq> []"
    "pages_follow ch source params a 0 ?start rs" "length rs \<le> MAX_PAGES" "list_all (goes_on ch) (butlast rs)"
    "goes_on ch (last rs) \<longrightarrow> length rs = MAX_PAGES" "r = gathered [] [] rs"
    "mem_load st' (ds_id source) = (if cap_incremental (ch_capabilities ch) then cursor_after ?start rs else ?start)"
    using mem.run_channel_returns[OF run, unfolded staging_load start(1)] by (elim exE conjE)
  from ch c start(2) rs show ?thesis
    by (intro exI[of _ ch] exI[of _ a] exI[of _ rs]) (simp add: gathered_def)
qed

text \<open>
  A collection that succeeds is a complete chain of pages: each page was fetched with the newest
  cursor of the pages before it, starting from the persisted one; all but the last say there is more;
  the chain ends where a page says there is none or at fifty pages; every item of every page is
  returned, in order, and the pending cursor is the newest one of the chain (none for a channel that
  is not incremental).
\<close>

lemma collect_gathers_pages:
  assumes "collect blank channels auth cdb source params = Inr c"
  shows "\<exists>ch a rs. channels (ds_channel_type source) = Some ch \<and>
    auth (ds_id source) (cap_auth_kind (ch_capabilities ch)) = Inr a \<and> rs \<noteq> [] \<and> length rs \<le> MAX_PAGES \<and>
    pages_follow ch source params a 0 (start_cursor blank ch cdb (ds_id source)) rs \<and>
    list_all (goes_on ch) (butlast rs) \<and> (goes_on ch (last rs) \<longrightarrow> length rs = MAX_PAGES) \<and>
    cr_success c \<and> cr_items c = concat (map fr_items rs) \<and> cl_cursor_source c = ds_id source \<and>
    cl_pending c = (if cap_incremental (ch_capabilities ch)
      then cursor_after (start_cursor blank ch cdb (ds_id source)) rs else None)"
  by (rule collect_chain[OF assms])

section \<open>A channel that numbers its pages\<close>

definition paged_channel :: "(nat, unit) channel" where
  "paged_channel =
     \<lparr>ch_capabilities = default_capabilities\<lparr>cap_incremental := True, cap_paginated := True\<rparr>,
      ch_fetch = Some (\<lambda>n ctx. case fx_cursor ctx of
          None \<Rightarrow> Inr \<lparr>fr_items = [[(''title'', JStr ''a'')]], fr_next_cursor = Some 1, fr_has_more = True, fr_metadata = []\<rparr>
        | Some c \<Rightarrow> Inr \<lparr>fr_items = [[(''title'', JStr ''b'')]], fr_next_cursor = Some (c + 1), fr_has_more = False, fr_metadata = []\<rparr>),
      ch_collect = (\<lambda>_ _. Inl (Exn ''NotImplementedError'')), ch_identity = (\<lambda>_. Inr None)\<rparr>"

definition paged_source :: data_source where
  "paged_source = \<lparr>ds_id = ''s'', ds_name = ''n'', ds_channel_type = ''paged'', ds_channel_config = [],
     ds_write_strategy = None, ds_ai_config = None, ds_objective_override = None, ds_enabled = True,
     ds_review_required = False, ds_paused_until = None\<rparr>"

definition paged_collected :: "nat collected" where
  "paged_collected = \<lparr>cr_success = True, cr_items = [[(''title'', JStr ''a'')], [(''title'', JStr ''b'')]],
     cr_error = None, cr_error_type = None, cr_metadata = [], cl_pending = Some 2, cl_cursor_source = ''s''\<rparr>"

lemma paged_collect:
  "collect (\<lambda>_. False) (\<lambda>t. Some paged_channel) (\<lambda>_ _. Inr ()) \<lparr>cd_rows = [], cd_next = 0\<rparr> paged_source [] =
     Inr paged_collected"
proof -
  let ?p = "\<lambda>c. page_context paged_source [] () c"
  have f: "fetch_page paged_channel n (?p None) = Inr \<lparr>fr_items = [[(''title'', JStr ''a'')]],
      fr_next_cursor = Some 1, fr_has_more = True, fr_metadata = []\<rparr>"
    "fetch_page paged_channel n (?p (Some c)) = Inr \<lparr>fr_items = [[(''title'', JStr ''b'')]],
      fr_next_cursor = Some (c + 1), fr_has_more = False, fr_metadata = []\<rparr>" for n c
    by (simp_all add: fetch_page_def paged_channel_def page_context_def)
  note evals = paged_channel_def goes_on_def next_cursor_def gathered_def page_stored_def mem_save_def mem_load_def
    paged_source_def dict_update_def dict_get_def MAX_PAGES_def default_capabilities_def Let_def numeral_2_eq_2
  have "run_pages mem_save paged_channel paged_source [] () 1 (Some 1) [[(''title'', JStr ''a'')]] [] st =
      (Inr \<lparr>rr_items = [[(''title'', JStr ''a'')], [(''title'', JStr ''b'')]], rr_metadata = []\<rparr>, st(''s'' \<mapsto> 2))" for st
    by (subst run_pages_page[OF f(2)]) (simp add: evals)
  then have "run_pages mem_save paged_channel paged_source [] () 0 None [] [] Map.empty =
      (Inr \<lparr>rr_items = [[(''title'', JStr ''a'')], [(''title'', JStr ''b'')]], rr_metadata = []\<rparr>, [''s'' \<mapsto> 2])"
    by (subst run_pages_page[OF f(1)]) (simp add: evals)
  then show ?thesis
    by (simp add: collect_def run_channel_def db_load_def select_row_def paged_collected_def evals)
qed

lemma collect_gathers_pages_witness:
  "cl_pending paged_collected = Some 2 \<and> length (cr_items paged_collected) = 2 \<and>
   (\<exists>rs. cr_items paged_collected = concat (map (fr_items :: nat fetch_result \<Rightarrow> _) rs) \<and> rs \<noteq> [])"
  using collect_gathers_pages[OF paged_collect] by (auto simp: paged_collected_def)

text \<open>
  A page that says there is more but names no new cursor is fetched again, up to the limit: its items
  are returned fifty times.
\<close>

lemma stuck_page_refetched:
  assumes "\<And>k ctx. fetch_page ch k ctx = Inr p" and "goes_on ch p" and "fr_next_cursor p = None"
    and "n < MAX_PAGES"
  shows "\<exists>r. run_pages save ch source params a n cursor items metadata st = (Inr r, st) \<and>
    rr_items r = items @ concat (replicate (MAX_PAGES - n) (fr_items p))"
  using assms(4)
proof (induction "MAX_PAGES - n" arbitrary: n items metadata rule: less_induct)
  case less
  have same: "next_cursor cursor p = cursor" "page_stored save ch (ds_id source) p st = st"
    using assms(3) by (simp_all add: next_cursor_def page_stored_def)
  note page = run_pages_page[where n = n and ch = ch and save = save, OF assms(1)]
  show ?case
  proof (cases "n + 1 \<ge> MAX_PAGES")
    case True
    with less.prems have "MAX_PAGES - n = 1" by simp
    with True show ?thesis unfolding page by (simp add: gathered_def same)
  next
    case False
    then have "MAX_PAGES - n = Suc (MAX_PAGES - (n + 1))" by simp
    with False less.hyps[of "n + 1" "items @ fr_items p" "dict_update metadata (fr_metadata p)"] assms(2)
    show ?thesis unfolding page by (simp add: same)
  qed
qed

end
