(* ===== verification/Sinks.thy ===== *)
theory Sinks
  imports Lineage ChannelRunner
begin

text \<open>
  Where collected items go (\<open>backend/pipeline/sinks/\<close>): the legacy sink that stores rows, the
  sink that forwards to the ingest service, both at once, and the choice by a source's
  \<open>write_strategy\<close>. The state is the table of records with its key supply and the batches
  the ingest service has been sent.
\<close>

section \<open>State and results\<close>

record write_db =
  wd_records :: "collected_record list"
  wd_uuid :: "nat \<Rightarrow> string"
  wd_next :: nat
  wd_posted :: "json dict list list"

record sink_result =
  sk_accepted :: int
  sk_duplicates :: int
  sk_rejected :: int
  sk_normalized :: int
  sk_records :: "collected_record list"
  sk_errors :: "string list"
  sk_shadow_meta :: "(int \<times> int \<times> int) option"

definition empty_sink_result :: sink_result where
  "empty_sink_result = \<lparr>sk_accepted = 0, sk_duplicates = 0, sk_rejected = 0, sk_normalized = 0,
     sk_records = [], sk_errors = [], sk_shadow_meta = None\<rparr>"

text \<open>
  What the sinks use: the text functions of the normalizer, the registered channels (for the identity
  of items), the ingest service, rows that other writers commit while a batch is stored, and the text
  of an exception.
\<close>

record ('c, 'a) sink_env =
  se_ops :: text_ops
  se_channels :: "string \<Rightarrow> ('c, 'a) channel option"
  se_odp :: odp_env
  se_conc :: "write_db \<Rightarrow> collected_record list"
  se_text :: "exn \<Rightarrow> string"

section \<open>The three sinks\<close>

text \<open>One failing \<open>identity\<close> call, or an unknown channel, drops the identities of the batch.\<close>

fun identity_list :: "(json dict \<Rightarrow> exn + string option) \<Rightarrow> json dict list \<Rightarrow> string option list option" where
  "identity_list identity [] = Some []"
| "identity_list identity (item # items) =
     (case identity item of
        Inl e \<Rightarrow> None
      | Inr i \<Rightarrow> map_option (\<lambda>is. i # is) (identity_list identity items))"

definition batch_identities ::
  "('c, 'a) sink_env \<Rightarrow> string \<Rightarrow> json dict list \<Rightarrow> string option list option"
where
  "batch_identities env provider items =
     (case se_channels env provider of
        None \<Rightarrow> None
      | Some ch \<Rightarrow> identity_list (ch_identity ch) items)"

definition legacy_args :: "run_context \<Rightarrow> store_args" where
  "legacy_args ctx =
     \<lparr>sa_task_id = rc_task_id ctx, sa_source_id = rc_source_id ctx, sa_workflow_id = None,
      sa_workflow_run_id = None, sa_lineage = Some (lineage_dict (lineage_envelope ctx))\<rparr>"

text \<open>
  \<open>forward\<close> describes the forward inside \<open>store_records\<close>; it is off for every sink that
  \<open>select_sink\<close> builds.
\<close>

definition legacy_write ::
  "('c, 'a) sink_env \<Rightarrow> odp_forward \<Rightarrow> run_context \<Rightarrow> json dict list \<Rightarrow> write_db \<Rightarrow>
   (exn + sink_result) \<times> write_db"
where
  "legacy_write env forward ctx items db =
     (let triples = normalize_items (se_ops env) items (rc_source_id ctx);
          identities = batch_identities env (rc_provider ctx) (map fst triples)
      in case store_records (legacy_args ctx) triples identities forward
             (\<lambda>i. wd_uuid db (wd_next db + i)) (se_conc env db) (wd_records db) of
           Inl e \<Rightarrow> (Inl (Exn e), db)
         | Inr (new_records, skipped, table) \<Rightarrow>
             (Inr (empty_sink_result\<lparr>sk_accepted := int (length new_records), sk_duplicates := int skipped,
                     sk_normalized := int (length triples), sk_records := new_records\<rparr>),
              db\<lparr>wd_records := table, wd_next := wd_next db + length triples\<rparr>))"

definition odp_write ::
  "('c, 'a) sink_env \<Rightarrow> run_context \<Rightarrow> json dict list \<Rightarrow> write_db \<Rightarrow> (exn + sink_result) \<times> write_db"
where
  "odp_write env ctx items db =
     (let triples = normalize_items (se_ops env) items (rc_source_id ctx)
      in if triples = [] then (Inr empty_sink_result, db)
         else
           let (result, posted) = forward_triples (se_odp env) (rc_provider ctx) (rc_task_id ctx)
                 (rc_source_id ctx) triples (wd_posted db)
           in (case result of
                 Inl e \<Rightarrow> Inl e
               | Inr (accepted, duplicates, rejected) \<Rightarrow>
                   Inr (empty_sink_result\<lparr>sk_accepted := accepted, sk_duplicates := duplicates,
                          sk_rejected := rejected, sk_normalized := int (length triples)\<rparr>),
               db\<lparr>wd_posted := posted\<rparr>))"

datatype item_sink = LegacyDbSink odp_forward | OdpSink | DualSink item_sink item_sink bool

fun write_batch ::
  "('c, 'a) sink_env \<Rightarrow> item_sink \<Rightarrow> run_context \<Rightarrow> json dict list \<Rightarrow> write_db \<Rightarrow>
   (exn + sink_result) \<times> write_db"
where
  "write_batch env (LegacyDbSink forward) ctx items db = legacy_write env forward ctx items db"
| "write_batch env OdpSink ctx items db = odp_write env ctx items db"
| "write_batch env (DualSink legacy odp require_odp) ctx items db =
     (case write_batch env legacy ctx items db of
        (Inl e, db1) \<Rightarrow> (Inl e, db1)
      | (Inr result, db1) \<Rightarrow>
          (case write_batch env odp ctx items db1 of
             (Inr shadow, db2) \<Rightarrow>
               (Inr (result\<lparr>sk_shadow_meta :=
                  Some (sk_accepted shadow, sk_duplicates shadow, sk_rejected shadow)\<rparr>), db2)
           | (Inl e, db2) \<Rightarrow>
               if require_odp then (Inl e, db2)
               else (Inr (result\<lparr>sk_errors := sk_errors result @ [''odp shadow: '' @ se_text env e]\<rparr>), db2)))"

section \<open>The strategy\<close>

definition LEGACY :: string where "LEGACY = ''legacy''"
definition ODP_SHADOW :: string where "ODP_SHADOW = ''odp_shadow''"
definition ODP_DUAL_REQUIRED :: string where "ODP_DUAL_REQUIRED = ''odp_dual_required''"
definition ODP_PRIMARY :: string where "ODP_PRIMARY = ''odp_primary''"
definition ODP_ONLY :: string where "ODP_ONLY = ''odp_only''"

lemmas strategy_defs = LEGACY_def ODP_SHADOW_def ODP_DUAL_REQUIRED_def ODP_PRIMARY_def ODP_ONLY_def

definition dual_sink :: "bool \<Rightarrow> item_sink" where
  "dual_sink require_odp = DualSink (LegacyDbSink odp_off) OdpSink require_odp"

definition select_sink :: "string option \<Rightarrow> item_sink" where
  "select_sink strategy =
     (if strategy = Some ODP_ONLY then OdpSink
      else if strategy = Some ODP_SHADOW then dual_sink False
      else if strategy = Some ODP_DUAL_REQUIRED \<or> strategy = Some ODP_PRIMARY then dual_sink True
      else LegacyDbSink odp_off)"

section \<open>What each leg does\<close>

lemma store_records_off: "\<exists>r. store_records a triples identities odp_off ids conc table = Inr r"
proof -
  have "store_records a triples identities odp_off ids conc table \<noteq> Inl e" for e
    by (simp add: store_records_def odp_off_def Let_def split: option.splits prod.splits)
  then show ?thesis by (cases "store_records a triples identities odp_off ids conc table") auto
qed

text \<open>The legacy leg without the forward always succeeds and never talks to the service.\<close>

lemma legacy_leg:
  "\<exists>r db'. legacy_write env odp_off ctx items db = (Inr r, db') \<and> wd_posted db' = wd_posted db \<and>
     wd_uuid db' = wd_uuid db \<and> sk_normalized r = int (length items) \<and> sk_errors r = [] \<and> sk_rejected r = 0 \<and>
     sk_accepted r = int (length (sk_records r))"
  using store_records_off[of "legacy_args ctx" "normalize_items (se_ops env) items (rc_source_id ctx)"
      "batch_identities env (rc_provider ctx) (map fst (normalize_items (se_ops env) items (rc_source_id ctx)))"
      "\<lambda>i. wd_uuid db (wd_next db + i)" "se_conc env db" "wd_records db"]
  by (auto simp: legacy_write_def empty_sink_result_def Let_def split: prod.splits)

lemma legacy_legE:
  obtains r db' where "legacy_write env odp_off ctx items db = (Inr r, db')" "wd_posted db' = wd_posted db"
  using legacy_leg[of env ctx items db] by blast

lemma odp_leg:
  "wd_records (snd (odp_write env ctx items db)) = wd_records db \<and>
   wd_next (snd (odp_write env ctx items db)) = wd_next db \<and> wd_uuid (snd (odp_write env ctx items db)) = wd_uuid db \<and>
   (\<exists>batches. wd_posted (snd (odp_write env ctx items db)) = wd_posted db @ batches \<and> length batches \<le> 1) \<and>
   (\<forall>r. fst (odp_write env ctx items db) = Inr r \<longrightarrow> sk_records r = [])"
  using forward_posts[of "se_odp env" "rc_provider ctx" "rc_task_id ctx" "rc_source_id ctx"
      "normalize_items (se_ops env) items (rc_source_id ctx)" "wd_posted db"]
  by (auto simp: odp_write_def empty_sink_result_def Let_def split: prod.splits sum.splits)

lemma write_batch_dual:
  "write_batch env (dual_sink req) ctx items db =
     (let (legacy, db1) = legacy_write env odp_off ctx items db; (odp, db2) = odp_write env ctx items db1
      in case legacy of
           Inl e \<Rightarrow> (Inl e, db1)
         | Inr result \<Rightarrow>
             (case odp of
                Inr shadow \<Rightarrow> Inr (result\<lparr>sk_shadow_meta :=
                  Some (sk_accepted shadow, sk_duplicates shadow, sk_rejected shadow)\<rparr>)
              | Inl e \<Rightarrow> if req then Inl e
                  else Inr (result\<lparr>sk_errors := sk_errors result @ [''odp shadow: '' @ se_text env e]\<rparr>), db2))"
  by (simp add: dual_sink_def split: prod.splits sum.splits)

text \<open>
  The strategy of a source decides where its items go. Only \<open>odp_only\<close> keeps them out of the
  table, every other strategy stores exactly the rows the legacy sink would store; \<open>legacy\<close>, an
  unknown strategy and none send nothing to the ingest service, the others send each batch at most
  once. A failing service is an error under \<open>odp_only\<close>, \<open>odp_dual_required\<close> and
  \<open>odp_primary\<close> and never under \<open>odp_shadow\<close>, which reports it next to the rows it stored.
\<close>

lemma strategy_decides:
  fixes env :: "('c, 'a) sink_env" and ctx items db strategy
  defines "result \<equiv> write_batch env (select_sink strategy) ctx items db"
    and "legacy \<equiv> legacy_write env odp_off ctx items db"
  shows "wd_records (snd result) =
      (if strategy = Some ODP_ONLY then wd_records db else wd_records (snd legacy)) \<and>
    (\<exists>batches. wd_posted (snd result) = wd_posted db @ batches \<and> length batches \<le> 1 \<and>
       (strategy \<notin> Some ` {ODP_ONLY, ODP_SHADOW, ODP_DUAL_REQUIRED, ODP_PRIMARY} \<longrightarrow> batches = [])) \<and>
    (strategy \<notin> Some ` {ODP_ONLY, ODP_DUAL_REQUIRED, ODP_PRIMARY} \<longrightarrow>
       (\<exists>r l. fst result = Inr r \<and> fst legacy = Inr l \<and> sk_records r = sk_records l \<and> sk_accepted r = sk_accepted l)) \<and>
    (strategy \<in> Some ` {ODP_DUAL_REQUIRED, ODP_PRIMARY} \<longrightarrow>
       (\<forall>e. fst (odp_write env ctx items (snd legacy)) = Inl e \<longrightarrow> fst result = Inl e))"
proof -
  obtain l db1 where l: "legacy_write env odp_off ctx items db = (Inr l, db1)" "wd_posted db1 = wd_posted db"
    by (rule legacy_legE)
  obtain q db2 where q: "odp_write env ctx items db1 = (q, db2)" by fastforce
  have q2: "wd_records db2 = wd_records db1" "\<exists>batches. wd_posted db2 = wd_posted db @ batches \<and> length batches \<le> 1"
    using odp_leg[of env ctx items db1] by (simp_all add: q l)
  consider (only) "strategy = Some ODP_ONLY" | (dual)
      "strategy \<in> Some ` {ODP_SHADOW, ODP_DUAL_REQUIRED, ODP_PRIMARY}"
      "select_sink strategy = dual_sink (strategy \<noteq> Some ODP_SHADOW)"
    | (legacy) "strategy \<notin> Some ` {ODP_ONLY, ODP_SHADOW, ODP_DUAL_REQUIRED, ODP_PRIMARY}"
    by (cases "strategy \<in> Some ` {ODP_SHADOW, ODP_DUAL_REQUIRED, ODP_PRIMARY}")
      (auto simp: select_sink_def strategy_defs)
  then show ?thesis
  proof cases
    case only
    then show ?thesis
      using odp_leg[of env ctx items db] by (simp add: result_def select_sink_def strategy_defs)
  next
    case dual
    let ?req = "strategy \<noteq> Some ODP_SHADOW"
    have "wd_records (snd result) = wd_records db1 \<and> wd_posted (snd result) = wd_posted db2 \<and>
        (\<not> ?req \<longrightarrow> (\<exists>r. fst result = Inr r \<and> sk_records r = sk_records l \<and> sk_accepted r = sk_accepted l)) \<and>
        (?req \<longrightarrow> (\<forall>e. q = Inl e \<longrightarrow> fst result = Inl e))"
      unfolding result_def dual(2) write_batch_dual l by (cases q) (simp_all add: q q2)
    note out = this
    obtain batches where batches: "wd_posted db2 = wd_posted db @ batches" "length batches \<le> 1" using q2(2) by blast
    have legacy: "legacy = (Inr l, db1)" by (simp add: legacy_def l)
    have ne: "strategy \<noteq> Some ODP_ONLY" using dual(1) by (auto simp: strategy_defs)
    show ?thesis
    proof (intro conjI)
      show "wd_records (snd result) = (if strategy = Some ODP_ONLY then wd_records db else wd_records (snd legacy))"
        using out ne by (simp add: legacy)
      show "\<exists>batches. wd_posted (snd result) = wd_posted db @ batches \<and> length batches \<le> 1 \<and>
          (strategy \<notin> Some ` {ODP_ONLY, ODP_SHADOW, ODP_DUAL_REQUIRED, ODP_PRIMARY} \<longrightarrow> batches = [])"
        using out batches dual(1) by (intro exI[of _ batches]) auto
      show "strategy \<notin> Some ` {ODP_ONLY, ODP_DUAL_REQUIRED, ODP_PRIMARY} \<longrightarrow>
          (\<exists>r l. fst result = Inr r \<and> fst legacy = Inr l \<and> sk_records r = sk_records l \<and> sk_accepted r = sk_accepted l)"
      proof
        assume "strategy \<notin> Some ` {ODP_ONLY, ODP_DUAL_REQUIRED, ODP_PRIMARY}"
        then have "strategy = Some ODP_SHADOW" using dual(1) by auto
        then show "\<exists>r l. fst result = Inr r \<and> fst legacy = Inr l \<and> sk_records r = sk_records l \<and> sk_accepted r = sk_accepted l"
          using out by (simp add: legacy)
      qed
      show "strategy \<in> Some ` {ODP_DUAL_REQUIRED, ODP_PRIMARY} \<longrightarrow>
          (\<forall>e. fst (odp_write env ctx items (snd legacy)) = Inl e \<longrightarrow> fst result = Inl e)"
      proof
        assume "strategy \<in> Some ` {ODP_DUAL_REQUIRED, ODP_PRIMARY}"
        then have "strategy \<noteq> Some ODP_SHADOW" by (auto simp: strategy_defs)
        then show "\<forall>e. fst (odp_write env ctx items (snd legacy)) = Inl e \<longrightarrow> fst result = Inl e"
          using out by (simp add: legacy q)
      qed
    qed
  next
    case legacy
    then have "select_sink strategy = LegacyDbSink odp_off" by (simp add: select_sink_def)
    then have "result = (Inr l, db1)" by (simp add: result_def l)
    then show ?thesis using legacy l by (auto simp: legacy_def)
  qed
qed

section \<open>Retrying a required dual write\<close>

definition no_identities :: "('c, 'a) sink_env \<Rightarrow> string \<Rightarrow> json dict list \<Rightarrow> bool" where
  "no_identities env provider items \<longleftrightarrow>
     batch_identities env provider items \<in> {None, Some (replicate (length items) None)}"

lemma store_all_None:
  "store_records a triples (Some (replicate (length triples) None)) odp ids conc table =
     store_records a triples None odp ids conc table"
proof -
  have "List.map_filter id (replicate n None) = ([] :: string list)" for n
    by (induction n) (auto simp: map_filter_def)
  then have "batch_loop a triples (Some (replicate (length triples) None)) table = batch_loop a triples None table"
    by (cases triples) (simp_all add: batch_loop_def Let_def map_filter_def)
  then show ?thesis by (simp only: store_records_def)
qed

lemma legacy_write_plain:
  assumes "no_identities env (rc_provider ctx) items" and "se_conc env db = []"
  shows "legacy_write env odp_off ctx items db =
    (let triples = normalize_items (se_ops env) items (rc_source_id ctx)
     in case store_records (legacy_args ctx) triples None odp_off
            (\<lambda>i. wd_uuid db (wd_next db + i)) [] (wd_records db) of
          Inl e \<Rightarrow> (Inl (Exn e), db)
        | Inr (new_records, skipped, table) \<Rightarrow>
            (Inr (empty_sink_result\<lparr>sk_accepted := int (length new_records), sk_duplicates := int skipped,
                    sk_normalized := int (length triples), sk_records := new_records\<rparr>),
             db\<lparr>wd_records := table, wd_next := wd_next db + length triples\<rparr>))"
  using assms store_all_None[of "legacy_args ctx" "normalize_items (se_ops env) items (rc_source_id ctx)"]
  by (auto simp: legacy_write_def no_identities_def Let_def)

text \<open>Storing a batch a second time finds everything in place.\<close>

lemma legacy_write_again:
  assumes "no_identities env (rc_provider ctx) items" and "\<And>d. se_conc env d = []"
    and "unique_content (wd_records db)" and "legacy_write env odp_off ctx items db = (Inr r, db1)"
    and "wd_records db2 = wd_records db1"
  shows "\<exists>r' db'. legacy_write env odp_off ctx items db2 = (Inr r', db') \<and> sk_records r' = [] \<and>
    sk_duplicates r' = int (length items) \<and> wd_records db' = wd_records db2"
proof -
  let ?a = "legacy_args ctx" and ?ts = "normalize_items (se_ops env) items (rc_source_id ctx)"
  have u: "unique_content (wd_records db @ [])" and off: "\<not> odp_refuses odp_off"
    using assms(3) by (simp_all add: odp_refuses_def odp_off_def)
  obtain new skipped where new:
    "store_records ?a ?ts None odp_off (\<lambda>i. wd_uuid db (wd_next db + i)) [] (wd_records db) =
       Inr (new, skipped, (wd_records db @ []) @ new)"
    "unique_content ((wd_records db @ []) @ new)"
    "\<And>q. q \<in> set new \<Longrightarrow> rec_source_id q = sa_source_id ?a"
    "set (map rec_content_hash new) = set (map (snd \<circ> snd) ?ts) - stored_hashes (sa_source_id ?a) (wd_records db @ [])"
    by (rule store_without_identities[OF u off, where a = ?a and triples = ?ts and
          ids = "\<lambda>i. wd_uuid db (wd_next db + i)"]) blast
  have db1: "wd_records db1 = wd_records db @ new"
    using assms(4) unfolding legacy_write_plain[OF assms(1,2)] by (auto simp: new(1) Let_def)
  have "stored_hashes (sa_source_id ?a) (wd_records db1) =
      stored_hashes (sa_source_id ?a) (wd_records db) \<union> set (map rec_content_hash new)"
    using new(3) by (auto simp: stored_hashes_def db1)
  then have sub: "set (map (snd \<circ> snd) ?ts) \<subseteq> stored_hashes (sa_source_id ?a) (wd_records db2)"
    unfolding new(4) assms(5) by auto
  have "unique_content (wd_records db2)" using new(2) by (simp add: assms(5) db1)
  from store_idempotent[OF this sub, of odp_off] have
    "store_records ?a ?ts None odp_off (\<lambda>i. wd_uuid db2 (wd_next db2 + i)) [] (wd_records db2) =
       Inr ([], length ?ts, wd_records db2)" by (simp add: odp_off_def)
  then show ?thesis unfolding legacy_write_plain[OF assms(1,2)] by (simp add: Let_def empty_sink_result_def)
qed

text \<open>
  When the service fails under a required dual write, the rows are stored although the batch is
  reported as failed, and the retry that succeeds hands none of them on: every item counts as a
  duplicate, so no later step of the pipeline ever sees these records.
\<close>

lemma required_retry_hands_on_nothing:
  assumes "no_identities env (rc_provider ctx) items" and "\<And>d. se_conc env d = []"
    and "unique_content (wd_records db)"
    and "write_batch env (dual_sink True) ctx items db = (Inl e, db1)"
    and "write_batch env (dual_sink True) ctx items db1 = (Inr r, db2)"
  shows "sk_records r = [] \<and> sk_accepted r = 0 \<and> sk_duplicates r = int (length items) \<and>
    wd_records db2 = wd_records db1 \<and>
    (\<exists>l db0. legacy_write env odp_off ctx items db = (Inr l, db0) \<and> wd_records db1 = wd_records db0)"
proof -
  obtain l db0 where l: "legacy_write env odp_off ctx items db = (Inr l, db0)" by (rule legacy_legE)
  have db1: "wd_records db1 = wd_records db0"
    using assms(4) odp_leg[of env ctx items db0] unfolding write_batch_dual l
    by (auto split: prod.splits sum.splits)
  obtain r' db' where again: "legacy_write env odp_off ctx items db1 = (Inr r', db')" "sk_records r' = []"
    "sk_duplicates r' = int (length items)" "wd_records db' = wd_records db1"
    using legacy_write_again[OF assms(1,2,3) l db1] by blast
  have "sk_accepted r' = 0" using legacy_leg[of env ctx items db1] by (simp add: again)
  with assms(5) odp_leg[of env ctx items db'] again l db1 show ?thesis
    unfolding write_batch_dual again(1) by (auto split: prod.splits sum.splits)
qed

text \<open>A service that is down for the first batch.\<close>

definition flaky_env :: "(nat, unit) sink_env" where
  "flaky_env = \<lparr>se_ops = plain_ops, se_channels = (\<lambda>_. None),
     se_odp = demo_odp\<lparr>oe_post := (\<lambda>n _ _. if n = 0 then Inl (Exn ''ConnectError'') else Inr (202, Inr (JObj [])))\<rparr>,
     se_conc = (\<lambda>_. []), se_text = (\<lambda>_. [])\<rparr>"

definition flaky_ctx :: run_context where
  "flaky_ctx = new_context ''t'' ''s'' ''rss'' None None"

definition flaky_db :: write_db where
  "flaky_db = \<lparr>wd_records = [], wd_uuid = (\<lambda>n. show_nat n), wd_next = 0, wd_posted = []\<rparr>"

lemma flaky_first:
  "\<exists>db1. write_batch flaky_env (dual_sink True) flaky_ctx [[(''title'', JStr ''x'')]] flaky_db =
     (Inl (Exn ''ConnectError''), db1) \<and> length (wd_posted db1) = 1"
proof -
  let ?items = "[[(''title'', JStr ''x'')]]"
  obtain l db0 where l: "legacy_write flaky_env odp_off flaky_ctx ?items flaky_db = (Inr l, db0)" "wd_posted db0 = wd_posted flaky_db"
    by (rule legacy_legE)
  have "ingest_url (se_odp flaky_env) = Some ''http://odp''" by code_simp
  then show ?thesis
    unfolding write_batch_dual l
    by (simp add: odp_write_def forward_triples_def post_batch_def normalize_items_def l(2) flaky_db_def Let_def
        case_prod_beta flaky_env_def)
qed

lemma flaky_second:
  assumes "length (wd_posted db1) = 1"
  shows "\<exists>r db2. write_batch flaky_env (dual_sink True) flaky_ctx [[(''title'', JStr ''x'')]] db1 = (Inr r, db2)"
proof -
  let ?items = "[[(''title'', JStr ''x'')]]"
  obtain l db0 where l: "legacy_write flaky_env odp_off flaky_ctx ?items db1 = (Inr l, db0)" "wd_posted db0 = wd_posted db1"
    by (rule legacy_legE)
  have "ingest_url (se_odp flaky_env) = Some ''http://odp''" by code_simp
  moreover have "response_from_wire p (JObj []) = Inr \<lparr>or_accepted = 0, or_duplicates = 0, or_rejected = 0, or_errors = []\<rparr>" for p
    by (simp add: response_from_wire_def count_field_def dict_get_or_def wire_errors_def dict_get_def)
  moreover have "wd_posted db1 \<noteq> []" using assms by auto
  ultimately show ?thesis
    using assms unfolding write_batch_dual l
    by (simp add: odp_write_def forward_triples_def post_batch_def normalize_items_def l(2) Let_def
        case_prod_beta flaky_env_def)
qed

lemma required_retry_hands_on_nothing_witness:
  "\<exists>db1 r db2. write_batch flaky_env (dual_sink True) flaky_ctx [[(''title'', JStr ''x'')]] flaky_db =
       (Inl (Exn ''ConnectError''), db1) \<and>
     write_batch flaky_env (dual_sink True) flaky_ctx [[(''title'', JStr ''x'')]] db1 = (Inr r, db2) \<and>
     sk_records r = [] \<and> sk_duplicates r = 1"
proof -
  let ?items = "[[(''title'', JStr ''x'')]]"
  obtain db1 where 1: "write_batch flaky_env (dual_sink True) flaky_ctx ?items flaky_db = (Inl (Exn ''ConnectError''), db1)"
    "length (wd_posted db1) = 1" using flaky_first by blast
  obtain r db2 where 2: "write_batch flaky_env (dual_sink True) flaky_ctx ?items db1 = (Inr r, db2)"
    using flaky_second[OF 1(2)] by blast
  have "no_identities flaky_env (rc_provider flaky_ctx) ?items" "se_conc flaky_env d = []" "unique_content (wd_records flaky_db)" for d
    by (simp_all add: no_identities_def batch_identities_def flaky_env_def flaky_db_def unique_content_def)
  from required_retry_hands_on_nothing[OF this 1(1) 2] 1(1) 2 show ?thesis by auto
qed

lemma strategy_decides_witness:
  "wd_posted (snd (write_batch flaky_env (select_sink (Some ''unknown'')) flaky_ctx [[(''title'', JStr ''x'')]] flaky_db)) = []"
proof -
  have "Some ''unknown'' \<notin> Some ` {ODP_ONLY, ODP_SHADOW, ODP_DUAL_REQUIRED, ODP_PRIMARY}"
    by (simp add: strategy_defs image_iff)
  then show ?thesis
    using strategy_decides[of flaky_env "Some ''unknown''" flaky_ctx "[[(''title'', JStr ''x'')]]" flaky_db]
    by (auto simp: flaky_db_def)
qed

end
