(* ===== verification/Notifications.thy ===== *)
theory Notifications
  imports Storer ErrorKinds
begin

text \<open>
  Notification dispatch (\<open>backend/pipeline/notifier_dispatch.py\<close>): the rules that match an event,
  one pending log per rule and record, the sends without a session, and the outcomes written back.
  Sending is the parameter \<open>notifiers\<close>: what a registered notifier answers to a payload, whose
  delivery id is unique.
\<close>

section \<open>Rules, logs and payloads\<close>

record notification_rule =
  nr_id :: string
  nr_source_id :: "string option"
  nr_trigger_event :: string
  nr_notifier_type :: string
  nr_notifier_config :: "json dict"
  nr_enabled :: bool

record notification_log =
  nl_id :: string
  nl_rule_id :: string
  nl_record_id :: "string option"
  nl_lineage :: "json dict option"
  nl_status :: string
  nl_response_data :: "json dict option"
  nl_error_message :: "string option"
  nl_ack_status :: string

record notification_payload =
  np_event :: string
  np_source_id :: string
  np_delivery_id :: string
  np_record_id :: "string option"
  np_data :: "json dict"
  np_ai_enrichment :: "json dict option"
  np_lineage :: "json dict option"

datatype send_answer = Plain bool | Detailed bool "json dict option"

type_synonym notifier = "json dict \<Rightarrow> notification_payload \<Rightarrow> exn + send_answer"

text \<open>What dispatch reads of a record; a record that was never stored has no id.\<close>

record notify_item =
  ni_record_id :: "string option"
  ni_lineage :: "json dict option"
  ni_data :: "json dict"
  ni_ai_enrichment :: "json dict option"

definition record_item :: "collected_record \<Rightarrow> notify_item" where
  "record_item r =
     \<lparr>ni_record_id = Some (rec_id r), ni_lineage = rec_lineage r, ni_data = rec_normalized_data r,
      ni_ai_enrichment = rec_ai_enrichment r\<rparr>"

definition failure_item :: "string \<Rightarrow> json dict \<Rightarrow> notify_item" where
  "failure_item source_id failure =
     \<lparr>ni_record_id = None, ni_lineage = None,
      ni_data = [(''title'', JStr (''Task failed: '' @ source_id)),
        (''error'', dict_get_or failure ''error'' JNull),
        (''error_type'', dict_get_or failure ''error_type'' JNull), (''source_id'', JStr source_id),
        (''task_id'', dict_get_or failure ''task_id'' JNull)],
      ni_ai_enrichment = None\<rparr>"

record notify_db =
  nd_rules :: "notification_rule list"
  nd_logs :: "notification_log list"
  nd_uuid :: "nat \<Rightarrow> string"
  nd_next :: nat

section \<open>Planning and sending\<close>

record pending_send =
  ps_log_id :: string
  ps_notifier :: notifier
  ps_config :: "json dict"
  ps_payload :: notification_payload
  ps_ack_required :: bool

record send_outcome =
  sn_log_id :: string
  sn_status :: string
  sn_response_data :: "json dict option"
  sn_error_message :: "string option"
  sn_ack_status :: string

definition rule_matches :: "string \<Rightarrow> string \<Rightarrow> notification_rule \<Rightarrow> bool" where
  "rule_matches source_id trigger_event rule \<longleftrightarrow>
     nr_enabled rule \<and> nr_trigger_event rule = trigger_event \<and>
     (nr_source_id rule = Some source_id \<or> nr_source_id rule = None)"

definition normalize_send_result :: "send_answer \<Rightarrow> bool \<times> json dict option" where
  "normalize_send_result answer =
     (case answer of Detailed success data \<Rightarrow> (success, data) | Plain success \<Rightarrow> (success, None))"

definition send_one :: "(exn \<Rightarrow> string) \<Rightarrow> pending_send \<Rightarrow> send_outcome" where
  "send_one str_exn task =
     (let (status, response_data, error_msg) =
            (case ps_notifier task (ps_config task) (ps_payload task) of
               Inr answer \<Rightarrow>
                 let (success, data) = normalize_send_result answer
                 in (if success then ''sent'' else ''failed'', data, None)
             | Inl e \<Rightarrow> (''failed'', None, Some (str_exn e)))
      in \<lparr>sn_log_id = ps_log_id task, sn_status = status, sn_response_data = response_data,
          sn_error_message = error_msg,
          sn_ack_status = (if status = ''sent'' \<and> ps_ack_required task then ''pending'' else ''not_required'')\<rparr>)"

definition plan_one ::
  "string \<Rightarrow> string \<Rightarrow> notification_rule \<Rightarrow> notifier \<Rightarrow> notify_item \<Rightarrow> string \<Rightarrow> notification_log \<times> pending_send"
where
  "plan_one source_id trigger_event rule nf item log_id =
     (\<lparr>nl_id = log_id, nl_rule_id = nr_id rule, nl_record_id = ni_record_id item,
       nl_lineage = ni_lineage item, nl_status = ''pending'', nl_response_data = None,
       nl_error_message = None, nl_ack_status = ''not_required''\<rparr>,
      \<lparr>ps_log_id = log_id, ps_notifier = nf, ps_config = nr_notifier_config rule,
       ps_payload = \<lparr>np_event = trigger_event, np_source_id = source_id, np_delivery_id = log_id,
         np_record_id = ni_record_id item, np_data = ni_data item,
         np_ai_enrichment = ni_ai_enrichment item, np_lineage = ni_lineage item\<rparr>,
       ps_ack_required = py_truthy (dict_get (nr_notifier_config rule) ''ack_secret'')\<rparr>)"

text \<open>
  The nested loops of phase A, as the pairs they visit: a rule whose notifier is not registered is
  skipped, every other rule meets every record.
\<close>

definition send_pairs ::
  "(string \<Rightarrow> notifier option) \<Rightarrow> notification_rule list \<Rightarrow> notify_item list \<Rightarrow>
   (notification_rule \<times> notifier \<times> notify_item) list"
where
  "send_pairs notifiers rules items =
     concat (map (\<lambda>rule. case notifiers (nr_notifier_type rule) of
         None \<Rightarrow> []
       | Some nf \<Rightarrow> map (\<lambda>item. (rule, nf, item)) items) rules)"

definition send_plan ::
  "(string \<Rightarrow> notifier option) \<Rightarrow> string \<Rightarrow> string \<Rightarrow> notify_item list \<Rightarrow> notify_db \<Rightarrow>
   (notification_log \<times> pending_send) list"
where
  "send_plan notifiers source_id trigger_event items db =
     map (\<lambda>(i, rule, nf, item). plan_one source_id trigger_event rule nf item (nd_uuid db (nd_next db + i)))
       (enumerate 0 (send_pairs notifiers (filter (rule_matches source_id trigger_event) (nd_rules db)) items))"

text \<open>Phase C: a log that is gone is passed over.\<close>

definition apply_outcome :: "notification_log list \<Rightarrow> send_outcome \<Rightarrow> notification_log list" where
  "apply_outcome logs out =
     map (\<lambda>l. if nl_id l = sn_log_id out
       then l\<lparr>nl_status := sn_status out, nl_response_data := sn_response_data out,
              nl_error_message := sn_error_message out, nl_ack_status := sn_ack_status out\<rparr>
       else l) logs"

definition dispatch_notifications ::
  "(exn \<Rightarrow> string) \<Rightarrow> (string \<Rightarrow> notifier option) \<Rightarrow> string \<Rightarrow> notify_item list \<Rightarrow> string \<Rightarrow>
   json dict option \<Rightarrow> notify_db \<Rightarrow> (nat \<times> nat) \<times> notify_db"
where
  "dispatch_notifications str_exn notifiers source_id records trigger_event failure_payload db =
     (let items = (case failure_payload of
            Some failure \<Rightarrow> if records = [] \<and> failure \<noteq> [] then [failure_item source_id failure] else records
          | None \<Rightarrow> records)
      in if items = [] then ((0, 0), db)
         else
           let plan = send_plan notifiers source_id trigger_event items db
           in if plan = [] then ((0, 0), db)
              else
                let db1 = db\<lparr>nd_logs := nd_logs db @ map fst plan, nd_next := nd_next db + length plan\<rparr>;
                    outcomes = map (send_one str_exn) (map snd plan);
                    sent = length (filter (\<lambda>out. sn_status out = ''sent'') outcomes);
                    failed = length outcomes - sent
                in ((sent, failed), db1\<lparr>nd_logs := foldl apply_outcome (nd_logs db1) outcomes\<rparr>))"

section \<open>Every send is accounted for\<close>

text \<open>A log with the outcome of its send, as phase C leaves it.\<close>

definition settled :: "(exn \<Rightarrow> string) \<Rightarrow> notification_log \<times> pending_send \<Rightarrow> notification_log" where
  "settled str_exn entry =
     (let out = send_one str_exn (snd entry)
      in (fst entry)\<lparr>nl_status := sn_status out, nl_response_data := sn_response_data out,
          nl_error_message := sn_error_message out, nl_ack_status := sn_ack_status out\<rparr>)"

definition fresh_logs :: "notify_db \<Rightarrow> bool" where
  "fresh_logs db \<longleftrightarrow> inj_on (nd_uuid db) {nd_next db..} \<and>
     (\<forall>l \<in> set (nd_logs db). nl_id l \<notin> nd_uuid db ` {nd_next db..})"

lemma apply_outcome_append: "apply_outcome (xs @ ys) out = apply_outcome xs out @ apply_outcome ys out"
  by (simp add: apply_outcome_def)

lemma apply_outcome_other: "(\<And>l. l \<in> set logs \<Longrightarrow> nl_id l \<noteq> sn_log_id out) \<Longrightarrow> apply_outcome logs out = logs"
  by (simp add: apply_outcome_def map_idI)

lemma send_one_id [simp]: "sn_log_id (send_one str_exn task) = ps_log_id task"
  by (simp add: send_one_def case_prod_beta Let_def)

lemma settled_id [simp]: "nl_id (settled str_exn entry) = nl_id (fst entry)"
  by (simp add: settled_def Let_def)

text \<open>Applying the outcomes of a plan settles each of its logs and touches no other.\<close>

lemma outcomes_settle:
  assumes "\<forall>e \<in> set plan. ps_log_id (snd e) = nl_id (fst e)" and "distinct (map (nl_id \<circ> fst) plan)"
    and "\<forall>l \<in> set old. nl_id l \<notin> set (map (nl_id \<circ> fst) plan)"
  shows "foldl apply_outcome (old @ map fst plan) (map (send_one str_exn \<circ> snd) plan) =
    old @ map (settled str_exn) plan"
  using assms
proof (induction plan arbitrary: old)
  case (Cons e plan)
  let ?out = "send_one str_exn (snd e)"
  have "apply_outcome old ?out = old" "apply_outcome (map fst plan) ?out = map fst plan"
  proof -
    have ids: "ps_log_id (snd e) = nl_id (fst e)" using Cons.prems(1) by simp
    have "nl_id (fst e) \<notin> nl_id ` set (map fst plan)" using Cons.prems(2) by (auto simp: image_image comp_def)
    then show "apply_outcome (map fst plan) ?out = map fst plan"
      by (intro apply_outcome_other notI) (simp add: ids, metis image_eqI)
    show "apply_outcome old ?out = old"
      using Cons.prems(3) by (intro apply_outcome_other) (auto simp: ids)
  qed
  moreover have "apply_outcome [fst e] ?out = [settled str_exn e]"
    using Cons.prems(1) by (simp add: apply_outcome_def settled_def Let_def)
  ultimately have "apply_outcome (old @ fst e # map fst plan) ?out = (old @ [settled str_exn e]) @ map fst plan"
    using apply_outcome_append[of old "[fst e] @ map fst plan" ?out]
      apply_outcome_append[of "[fst e]" "map fst plan" ?out] by simp
  moreover have "foldl apply_outcome ((old @ [settled str_exn e]) @ map fst plan) (map (send_one str_exn \<circ> snd) plan) =
      (old @ [settled str_exn e]) @ map (settled str_exn) plan"
    by (rule Cons.IH) (use Cons.prems in auto)
  ultimately show ?case by (simp add: comp_def)
qed simp

lemma send_plan_ids:
  "map (nl_id \<circ> fst) (send_plan notifiers s t items db) =
     map (\<lambda>i. nd_uuid db (nd_next db + i)) [0..<length (send_plan notifiers s t items db)]"
  "e \<in> set (send_plan notifiers s t items db) \<Longrightarrow> ps_log_id (snd e) = nl_id (fst e)"
proof -
  have "map (nl_id \<circ> fst) (map (\<lambda>(i, rule, nf, item). plan_one s t rule nf item (f i)) (enumerate k xs)) =
      map f [k..<k + length xs]" for f k xs
  proof -
    have "map (nl_id \<circ> fst) (map (\<lambda>(i, rule, nf, item). plan_one s t rule nf item (f i)) (enumerate k xs)) =
        map f (map fst (enumerate k xs))"
      unfolding map_map by (rule map_cong) (auto simp: plan_one_def)
    then show ?thesis by simp
  qed
  from this[of "\<lambda>i. nd_uuid db (nd_next db + i)" 0] show
    "map (nl_id \<circ> fst) (send_plan notifiers s t items db) =
     map (\<lambda>i. nd_uuid db (nd_next db + i)) [0..<length (send_plan notifiers s t items db)]"
    by (simp add: send_plan_def)
  show "e \<in> set (send_plan notifiers s t items db) \<Longrightarrow> ps_log_id (snd e) = nl_id (fst e)"
    by (auto simp: send_plan_def plan_one_def)
qed

lemma length_send_plan:
  "length (send_plan notifiers s t items db) =
     length (filter (\<lambda>r. rule_matches s t r \<and> notifiers (nr_notifier_type r) \<noteq> None) (nd_rules db)) * length items"
proof -
  have "length (send_pairs notifiers rules items) =
      length (filter (\<lambda>r. notifiers (nr_notifier_type r) \<noteq> None) rules) * length items" for rules
    by (induction rules) (auto simp: send_pairs_def split: option.splits)
  then show ?thesis by (simp add: send_plan_def conj_commute)
qed

lemma settled_status: "nl_status (settled str_exn e) = sn_status (send_one str_exn (snd e))"
  by (simp add: settled_def Let_def)

lemma send_one_status: "sn_status (send_one str_exn task) \<in> {''sent'', ''failed''}"
  by (simp add: send_one_def case_prod_beta Let_def split: sum.splits)

text \<open>
  Dispatch attempts one send for every record and every enabled rule of the event and source whose
  notifier is registered, no more and no fewer; the counts it returns add up to the attempts; each
  attempt has a log of its own that says sent or failed, never pending; and a rule whose notifier is
  unknown or whose send raises keeps no other from being sent.
\<close>

lemma dispatch_accounts:
  assumes "fresh_logs db" and "records \<noteq> []"
    and "dispatch_notifications str_exn notifiers source_id records trigger_event failure db = ((sent, failed), db')"
  shows "sent + failed = length (filter (\<lambda>r. rule_matches source_id trigger_event r \<and>
      notifiers (nr_notifier_type r) \<noteq> None) (nd_rules db)) * length records \<and>
    nd_logs db' = nd_logs db @ map (settled str_exn) (send_plan notifiers source_id trigger_event records db) \<and>
    (\<forall>l \<in> set (drop (length (nd_logs db)) (nd_logs db')). nl_status l \<in> {''sent'', ''failed''}) \<and>
    sent = length (filter (\<lambda>l. nl_status l = ''sent'') (drop (length (nd_logs db)) (nd_logs db')))"
proof -
  let ?plan = "send_plan notifiers source_id trigger_event records db"
  let ?outs = "map (send_one str_exn) (map snd ?plan)"
  have items: "(case failure of Some f \<Rightarrow> if records = [] \<and> f \<noteq> [] then [failure_item source_id f] else records
      | None \<Rightarrow> records) = records" using assms(2) by (auto split: option.splits)
  have len: "length ?plan = length (filter (\<lambda>r. rule_matches source_id trigger_event r \<and>
      notifiers (nr_notifier_type r) \<noteq> None) (nd_rules db)) * length records" by (rule length_send_plan)
  have out: "sent = length (filter (\<lambda>out. sn_status out = ''sent'') ?outs)" "sent + failed = length ?plan"
    "nd_logs db' = foldl apply_outcome (nd_logs db @ map fst ?plan) ?outs"
  proof (atomize (full), cases "?plan = []")
    case True
    then show "sent = length (filter (\<lambda>out. sn_status out = ''sent'') ?outs) \<and> sent + failed = length ?plan \<and>
        nd_logs db' = foldl apply_outcome (nd_logs db @ map fst ?plan) ?outs"
      using assms(2,3) by (simp add: dispatch_notifications_def items Let_def)
  next
    case False
    have "length (filter (\<lambda>out. sn_status out = ''sent'') ?outs) \<le> length ?plan"
      by (metis length_filter_le length_map)
    with False show "sent = length (filter (\<lambda>out. sn_status out = ''sent'') ?outs) \<and> sent + failed = length ?plan \<and>
        nd_logs db' = foldl apply_outcome (nd_logs db @ map fst ?plan) ?outs"
      using assms(2,3) by (auto simp: dispatch_notifications_def items Let_def)
  qed
  have logs: "nd_logs db' = nd_logs db @ map (settled str_exn) ?plan"
    unfolding out(3) map_map
  proof (rule outcomes_settle)
    show "\<forall>e \<in> set ?plan. ps_log_id (snd e) = nl_id (fst e)" using send_plan_ids(2) by blast
    have "inj_on (\<lambda>i. nd_uuid db (nd_next db + i)) {0..<length ?plan}"
    proof (rule inj_onI)
      fix x y assume "nd_uuid db (nd_next db + x) = nd_uuid db (nd_next db + y)"
      then have "nd_next db + x = nd_next db + y"
        using assms(1) by (auto simp: fresh_logs_def dest: inj_onD)
      then show "x = y" by simp
    qed
    then show "distinct (map (nl_id \<circ> fst) ?plan)"
      unfolding send_plan_ids(1) by (simp add: distinct_map)
    show "\<forall>l \<in> set (nd_logs db). nl_id l \<notin> set (map (nl_id \<circ> fst) ?plan)"
      using assms(1) unfolding send_plan_ids(1) by (auto simp: fresh_logs_def)
  qed
  have new: "drop (length (nd_logs db)) (nd_logs db') = map (settled str_exn) ?plan" by (simp add: logs)
  have "length (filter (\<lambda>l. nl_status l = ''sent'') (map (settled str_exn) plan)) =
      length (filter (\<lambda>out. sn_status out = ''sent'') (map (send_one str_exn) (map snd plan)))" for plan
    by (induction plan) (simp_all add: settled_status)
  then show ?thesis
    unfolding new using logs out(1,2) len send_one_status[of str_exn] by (auto simp: settled_status)
qed

definition webhook_rules :: notify_db where
  "webhook_rules = \<lparr>nd_rules =
       [\<lparr>nr_id = ''r1'', nr_source_id = None, nr_trigger_event = ''on_new_record'', nr_notifier_type = ''webhook'',
         nr_notifier_config = [], nr_enabled = True\<rparr>,
        \<lparr>nr_id = ''r2'', nr_source_id = Some ''s'', nr_trigger_event = ''on_new_record'', nr_notifier_type = ''pigeon'',
         nr_notifier_config = [], nr_enabled = True\<rparr>],
     nd_logs = [], nd_uuid = (\<lambda>n. replicate n CHR ''x''), nd_next = 0\<rparr>"

lemma dispatch_accounts_witness:
  "\<exists>sent failed db'. dispatch_notifications (\<lambda>_. ''e'')
       (\<lambda>t. if t = ''webhook'' then Some (\<lambda>_ _. Inl (Exn ''ConnectError'')) else None) ''s''
       [failure_item ''s'' []] ''on_new_record'' None webhook_rules = ((sent, failed), db') \<and> sent + failed = 1"
proof -
  let ?nf = "\<lambda>t. if t = ''webhook'' then Some (\<lambda>_ _. Inl (Exn ''ConnectError'')) else None :: notifier option"
  have "fresh_logs webhook_rules" by (auto simp: fresh_logs_def webhook_rules_def inj_on_def dest: arg_cong[of _ _ length])
  moreover obtain sent failed db' where d: "dispatch_notifications (\<lambda>_. ''e'') ?nf ''s'' [failure_item ''s'' []]
      ''on_new_record'' None webhook_rules = ((sent, failed), db')" by (metis surj_pair)
  ultimately have "sent + failed = 1"
    using conjunct1[OF dispatch_accounts[OF _ _ d]] by (simp add: webhook_rules_def rule_matches_def)
  with d show ?thesis by blast
qed

end
