(* ===== verification/AiEnrichment.thy ===== *)
theory AiEnrichment
  imports Storer ErrorKinds
begin

text \<open>
  AI enrichment of stored records (\<open>backend/pipeline/ai_processor.py\<close>,
  \<open>backend/processors/base.py\<close>) and the configuration a collection run resolves for it
  (phase 2 of \<open>backend/pipeline/runner.py\<close>). The registered processors are the parameter
  \<open>processors\<close>; a provider's key is taken as decrypted.
\<close>

section \<open>Providers and agents\<close>

record model_provider =
  mp_id :: string
  mp_provider_type :: string
  mp_base_url :: "string option"
  mp_api_key :: "string option"
  mp_default_model :: "string option"
  mp_enabled :: bool
  mp_created_at :: datetime

record ai_agent =
  ag_id :: string
  ag_processor_type :: string
  ag_model :: "string option"
  ag_prompt_template :: string
  ag_processor_config :: "json dict"
  ag_provider_id :: "string option"
  ag_enabled :: bool

definition nonempty :: "string option \<Rightarrow> bool" where
  "nonempty s \<longleftrightarrow> s \<noteq> None \<and> s \<noteq> Some []"

section \<open>Resolving a source's configuration\<close>

definition has_inline :: "json dict \<Rightarrow> bool" where
  "has_inline ai_config \<longleftrightarrow>
     py_truthy (dict_get ai_config ''api_key'') \<or> py_truthy (dict_get ai_config ''base_url'')"

text \<open>\<open>db.get(ModelProvider, provider_id)\<close>: only a string can be a stored key.\<close>

definition lookup_provider :: "model_provider list \<Rightarrow> json option \<Rightarrow> model_provider option" where
  "lookup_provider providers pid =
     (case pid of Some (JStr s) \<Rightarrow> find (\<lambda>p. mp_id p = s) providers | _ \<Rightarrow> None)"

definition resolve_llm_config :: "model_provider list \<Rightarrow> json dict \<Rightarrow> json dict" where
  "resolve_llm_config providers ai_config =
     (let provider_id = dict_get ai_config ''provider_id''
      in if \<not> py_truthy provider_id then ai_config
         else case lookup_provider providers provider_id of
             None \<Rightarrow> ai_config
           | Some p \<Rightarrow>
               let r1 = dict_set ai_config ''processor_type'' (JStr (mp_provider_type p));
                   r2 = dict_set r1 ''api_key'' (opt_str (mp_api_key p));
                   r3 = dict_set r2 ''base_url'' (opt_str (mp_base_url p))
               in if nonempty (mp_default_model p)
                  then dict_set r3 ''model'' (opt_str (mp_default_model p)) else r3)"

section \<open>Processing a batch\<close>

record processing_result =
  pg_enrichments :: "json dict list"
  pg_failed_indices :: "int list"

type_synonym processor =
  "collected_record list \<Rightarrow> json \<Rightarrow> json dict \<Rightarrow> exn + processing_result"

definition contract_invalid :: "collected_record list \<Rightarrow> processing_result \<Rightarrow> bool" where
  "contract_invalid records result \<longleftrightarrow>
     length (pg_enrichments result) \<noteq> length records \<or>
     list_ex (\<lambda>i. i < 0 \<or> i \<ge> int (length records)) (pg_failed_indices result)"

definition enrich :: "int list \<Rightarrow> nat \<times> collected_record \<times> json dict \<Rightarrow> collected_record" where
  "enrich failed = (\<lambda>(index, record, enrichment).
     if List.member failed (int index) then record
     else record\<lparr>rec_ai_enrichment := Some enrichment, rec_status := ''ai_processed''\<rparr>)"

definition enriched_count :: "int list \<Rightarrow> nat \<Rightarrow> nat" where
  "enriched_count failed n = length (filter (\<lambda>i. \<not> List.member failed (int i)) [0..<n])"

text \<open>An unhashable \<open>processor_type\<close> makes the registry lookup raise; any other unknown one is skipped.\<close>

definition process_with_ai ::
  "(string \<Rightarrow> processor option) \<Rightarrow> model_provider list \<Rightarrow> collected_record list \<Rightarrow> json dict option \<Rightarrow>
   bool \<Rightarrow> exn + (nat \<times> collected_record list)"
where
  "process_with_ai processors providers records ai_config resolve_provider =
     (case ai_config of
        None \<Rightarrow> Inr (0, records)
      | Some config \<Rightarrow>
          if config = [] \<or> records = [] then Inr (0, records)
          else
            let resolved = (if resolve_provider then resolve_llm_config providers config else config);
                processor_type = dict_get_or resolved ''processor_type'' (JStr ''claude'')
            in case processor_type of
                 JList _ \<Rightarrow> Inl (Exn ''TypeError'')
               | JObj _ \<Rightarrow> Inl (Exn ''TypeError'')
               | JStr t \<Rightarrow>
                   (case processors t of
                      None \<Rightarrow> Inr (0, records)
                    | Some process \<Rightarrow>
                        (case process records (dict_get_or resolved ''prompt_template'' (JStr [])) resolved of
                           Inl e \<Rightarrow> Inl e
                         | Inr result \<Rightarrow>
                             if contract_invalid records result then Inr (0, records)
                             else Inr (enriched_count (pg_failed_indices result) (length records),
                                       map (enrich (pg_failed_indices result))
                                         (enumerate 0 (zip records (pg_enrichments result))))))
               | _ \<Rightarrow> Inr (0, records))"

section \<open>The configuration of a run\<close>

definition credential_fields :: "model_provider \<Rightarrow> json dict" where
  "credential_fields p =
     (if nonempty (mp_api_key p) then [(''api_key'', opt_str (mp_api_key p))] else []) @
     (if nonempty (mp_base_url p) then [(''base_url'', opt_str (mp_base_url p))] else [])"

definition provider_config :: "model_provider list \<Rightarrow> ai_agent \<Rightarrow> json dict" where
  "provider_config providers agent =
     (if \<not> nonempty (ag_provider_id agent) then []
      else case find (\<lambda>p. Some (mp_id p) = ag_provider_id agent) providers of
          None \<Rightarrow> []
        | Some p \<Rightarrow> if mp_enabled p then credential_fields p else [])"

definition agent_fields :: "model_provider list \<Rightarrow> ai_agent \<Rightarrow> json dict" where
  "agent_fields providers agent =
     dict_update (dict_update
       [(''processor_type'', JStr (ag_processor_type agent)), (''model'', opt_str (ag_model agent)),
        (''prompt_template'', JStr (ag_prompt_template agent))]
       (provider_config providers agent)) (ag_processor_config agent)"

text \<open>
  The agent of the task, if it exists and is enabled; otherwise the oldest enabled provider with the
  generic prompt \<open>DEFAULT_ENRICH_PROMPT\<close>.
\<close>

definition resolve_agent_config ::
  "string \<Rightarrow> ai_agent list \<Rightarrow> model_provider list \<Rightarrow> string option \<Rightarrow> json dict option"
where
  "resolve_agent_config default_prompt agents providers agent_id =
     (let explicit = (if \<not> nonempty agent_id then None
            else case find (\<lambda>a. Some (ag_id a) = agent_id) agents of
                None \<Rightarrow> None
              | Some a \<Rightarrow> if ag_enabled a then Some (agent_fields providers a) else None)
      in case explicit of
           Some c \<Rightarrow> Some c
         | None \<Rightarrow>
             (case first_row (order_asc mp_created_at (filter mp_enabled providers)) of
                None \<Rightarrow> None
              | Some p \<Rightarrow> Some (dict_update
                  [(''processor_type'', JStr ''openai''), (''model'', opt_str (mp_default_model p)),
                   (''prompt_template'', JStr default_prompt)] (credential_fields p))))"

section \<open>Properties\<close>

definition same_but_enrichment :: "collected_record \<Rightarrow> collected_record \<Rightarrow> bool" where
  "same_but_enrichment r q \<longleftrightarrow>
     q = r\<lparr>rec_ai_enrichment := rec_ai_enrichment q, rec_status := rec_status q\<rparr>"

lemma nth_enumerate0: "i < length xs \<Longrightarrow> enumerate 0 xs ! i = (i, xs ! i)"
  by (simp add: nth_enumerate_eq)

text \<open>What a processing that returns has done: nothing, or the enrichment of an answer that keeps the contract.\<close>

lemma process_with_ai_outcome:
  assumes "process_with_ai processors providers records ai_config resolve = Inr (n, records')"
  shows "(n = 0 \<and> records' = records) \<or>
    (\<exists>result. \<not> contract_invalid records result \<and>
      n = enriched_count (pg_failed_indices result) (length records) \<and>
      records' = map (enrich (pg_failed_indices result)) (enumerate 0 (zip records (pg_enrichments result))))"
proof (cases "ai_config = None \<or> ai_config = Some [] \<or> records = []")
  case True
  then show ?thesis using assms by (auto simp: process_with_ai_def split: option.splits)
next
  case False
  then obtain config where c: "ai_config = Some config" "config \<noteq> []" "records \<noteq> []" by auto
  define resolved where "resolved = (if resolve then resolve_llm_config providers config else config)"
  have eq: "process_with_ai processors providers records ai_config resolve =
      (case dict_get_or resolved ''processor_type'' (JStr ''claude'') of
         JList _ \<Rightarrow> Inl (Exn ''TypeError'') | JObj _ \<Rightarrow> Inl (Exn ''TypeError'')
       | JStr t \<Rightarrow> (case processors t of None \<Rightarrow> Inr (0, records)
           | Some process \<Rightarrow>
               (case process records (dict_get_or resolved ''prompt_template'' (JStr [])) resolved of
                  Inl e \<Rightarrow> Inl e
                | Inr result \<Rightarrow> if contract_invalid records result then Inr (0, records)
                    else Inr (enriched_count (pg_failed_indices result) (length records),
                           map (enrich (pg_failed_indices result)) (enumerate 0 (zip records (pg_enrichments result))))))
       | _ \<Rightarrow> Inr (0, records))"
    using c by (simp only: process_with_ai_def option.case resolved_def Let_def if_False simp_thms)
  show ?thesis
  proof (cases "dict_get_or resolved ''processor_type'' (JStr ''claude'')")
    case (JStr t)
    show ?thesis
    proof (cases "processors t")
      case None
      then show ?thesis using assms unfolding eq JStr by simp
    next
      case (Some process)
      show ?thesis
        using assms unfolding eq JStr json.case Some option.case
        by (cases "process records (dict_get_or resolved ''prompt_template'' (JStr [])) resolved")
          (auto split: if_splits)
    qed
  qed (use assms eq in simp_all)
qed

text \<open>
  A processor may only enrich: whatever it answers, the batch keeps its length and order, no
  field of a record but its enrichment and status changes, the reported number is that of the
  records with a new enrichment, and an answer that breaks the contract changes nothing.
\<close>

lemma enrichment_is_confined:
  assumes "process_with_ai processors providers records ai_config resolve = Inr (n, records')"
  shows "length records' = length records \<and>
    (\<forall>i < length records. same_but_enrichment (records ! i) (records' ! i)) \<and>
    (\<exists>enriched. enriched \<subseteq> {..<length records} \<and> card enriched = n \<and>
      (\<forall>i < length records. if i \<in> enriched
         then rec_status (records' ! i) = ''ai_processed'' \<and> rec_ai_enrichment (records' ! i) \<noteq> None
         else records' ! i = records ! i))"
proof -
  have same: "same_but_enrichment r r" for r by (simp add: same_but_enrichment_def)
  consider (none) "n = 0" "records' = records"
    | (some) result where "\<not> contract_invalid records result"
        "n = enriched_count (pg_failed_indices result) (length records)"
        "records' = map (enrich (pg_failed_indices result)) (enumerate 0 (zip records (pg_enrichments result)))"
    using process_with_ai_outcome[OF assms] by blast
  then show ?thesis
  proof cases
    case none
    then show ?thesis using same by (auto intro!: exI[of _ "{}"])
  next
    case (some result)
    let ?failed = "pg_failed_indices result"
    have len: "length (pg_enrichments result) = length records"
      using some(1) by (simp add: contract_invalid_def)
    have nth: "records' ! i = enrich ?failed (i, records ! i, pg_enrichments result ! i)" if "i < length records" for i
      using that len by (simp add: some(3) nth_enumerate0)
    let ?e = "{i. i < length records \<and> \<not> List.member ?failed (int i)}"
    have "card ?e = n"
    proof -
      have "?e = set (filter (\<lambda>i. \<not> List.member ?failed (int i)) [0..<length records])" by auto
      then show ?thesis by (simp only: distinct_card some(2) enriched_count_def distinct_filter distinct_upt)
    qed
    moreover have "length records' = length records" using len by (simp add: some(3))
    ultimately show ?thesis
      using nth by (intro conjI exI[of _ ?e]) (auto simp: enrich_def same_but_enrichment_def)
  qed
qed

definition summarizer :: "string \<Rightarrow> processor option" where
  "summarizer t = (if t = ''claude'' then Some (\<lambda>rs _ _. Inr \<lparr>pg_enrichments = map (\<lambda>_. [(''summary'', JStr ''s'')]) rs,
     pg_failed_indices = [1]\<rparr>) else None)"

lemma enrichment_is_confined_witness:
  "\<exists>n rs. process_with_ai summarizer [] [plain_row ''a'' ''h'' None, plain_row ''b'' ''g'' None]
     (Some [(''model'', JStr ''m'')]) True = Inr (n, rs) \<and> length rs = 2"
proof -
  have "\<exists>n rs. process_with_ai summarizer [] [plain_row ''a'' ''h'' None, plain_row ''b'' ''g'' None]
     (Some [(''model'', JStr ''m'')]) True = Inr (n, rs)"
    by (simp add: process_with_ai_def resolve_llm_config_def dict_get_def dict_get_or_def summarizer_def
        contract_invalid_def)
  then show ?thesis using enrichment_is_confined by fastforce
qed

end
