(* ===== verification/CollectionPipeline.thy ===== *)
theory CollectionPipeline
  imports Sinks Notifications AiEnrichment Actuator
begin

text \<open>
  The pipeline of one collection run (\<open>backend/pipeline/pipeline.py\<close>): collect, write through
  the sink of the source, commit the cursor, enrich, notify, measure. It composes the components of
  the theories imported here; each step is a function on the tables it may touch, and a step that
  ends the run says so. Failures of the database itself are left out, except for the constraint
  violations and lost races that the storer and the cursor store handle.
\<close>

section \<open>State and environment\<close>

record 'c pipe_state =
  pp_control :: control_db
  pp_write :: write_db
  pp_cursors :: "'c cursor_db"
  pp_notify :: notify_db

text \<open>
  What the pipeline uses beside the tables: the environment of the sinks (channels, ingest service,
  text functions), credentials, the bound browser of a site, registered processors and notifiers,
  model providers, the parsers of timestamps, Python's \<open>str\<close>, the cached option names of an
  OpenCLI command, and what other runs do to the cursor table while a cursor
  is saved, with the text of a save that lost its races.
\<close>

record ('c, 'a) pipe_env =
  pe_sinks :: "('c, 'a) sink_env"
  pe_auth :: "string \<Rightarrow> string \<Rightarrow> exn + 'a"
  pe_binding :: "json \<Rightarrow> exn + string option"
  pe_blank :: "'c \<Rightarrow> bool"
  pe_cursor_json :: "'c \<Rightarrow> json"
  pe_race :: "nat \<Rightarrow> 'c cursor_db \<Rightarrow> 'c cursor_db"
  pe_race_text :: string
  pe_processors :: "string \<Rightarrow> processor option"
  pe_providers :: "model_provider list"
  pe_notifiers :: "string \<Rightarrow> notifier option"
  pe_parse_rfc822 :: "string \<Rightarrow> datetime option"
  pe_parse_iso :: "string \<Rightarrow> datetime option"
  pe_py_str :: "json \<Rightarrow> string"
  pe_named_options :: "string \<Rightarrow> string \<Rightarrow> string list option"
  pe_settings :: settings

record pipeline_result =
  px_success :: bool
  px_source_id :: string
  px_collected :: nat
  px_stored :: nat
  px_skipped :: int
  px_ai_processed :: nat
  px_notifications_sent :: nat
  px_error :: "string option"
  px_duration_ms :: int
  px_metadata :: "json dict"

definition failed_result :: "string \<Rightarrow> nat \<Rightarrow> string option \<Rightarrow> json dict \<Rightarrow> pipeline_result" where
  "failed_result source_id collected error metadata =
     \<lparr>px_success = False, px_source_id = source_id, px_collected = collected, px_stored = 0, px_skipped = 0,
      px_ai_processed = 0, px_notifications_sent = 0, px_error = error, px_duration_ms = 0,
      px_metadata = metadata\<rparr>"

text \<open>A step ends the run, by returning or by raising, or hands on what the next steps need.\<close>

datatype 'x flow = Ends "exn + pipeline_result" | Goes_on 'x

text \<open>\<open>int(delta.total_seconds() * 1000)\<close>: truncated towards zero.\<close>

definition millis :: "datetime \<Rightarrow> datetime \<Rightarrow> int" where
  "millis later earlier = (let d = instant later - instant earlier in sgn d * (\<bar>d\<bar> div 1000))"

definition now_in :: "'c pipe_state \<Rightarrow> datetime \<times> 'c pipe_state" where
  "now_in st = (let (t, db) = utcnow (pp_control st) in (t, st\<lparr>pp_control := db\<rparr>))"

text \<open>An event of the run, when there is one.\<close>

definition emit_run ::
  "string option \<Rightarrow> string \<Rightarrow> string \<Rightarrow> json dict option \<Rightarrow> int option \<Rightarrow> 'c pipe_state \<Rightarrow> 'c pipe_state"
where
  "emit_run run step level detail elapsed st =
     (case run of
        None \<Rightarrow> st
      | Some run_id \<Rightarrow> st\<lparr>pp_control := emit_event run_id step level detail elapsed (pp_control st)\<rparr>)"

section \<open>Freshness and measurements\<close>

text \<open>RFC 822 first, then ISO; both parsers read a naive time as UTC.\<close>

definition parse_item_timestamp :: "('c, 'a) pipe_env \<Rightarrow> json \<Rightarrow> datetime option" where
  "parse_item_timestamp env v =
     (case v of
        JStr s \<Rightarrow>
          if s = [] then None
          else (case pe_parse_rfc822 env s of
              Some t \<Rightarrow> Some t
            | None \<Rightarrow> pe_parse_iso env (replace_all ''Z'' ''+00:00'' s))
      | _ \<Rightarrow> None)"

fun latest :: "datetime \<Rightarrow> datetime list \<Rightarrow> datetime" where
  "latest t [] = t"
| "latest t (u # us) = latest (if instant t < instant u then u else t) us"

definition derive_freshness :: "('c, 'a) pipe_env \<Rightarrow> collected_record list \<Rightarrow> datetime \<Rightarrow> freshness_info" where
  "derive_freshness env new_records now =
     (let observed = (\<lambda>quality. \<lparr>fi_newest_source_ts = None, fi_newest_observed_at = Some now,
            fi_freshness_lag_seconds = None, fi_quality = quality\<rparr>)
      in if new_records = [] then observed ''missing''
         else
           let raw_values = map (\<lambda>r. dict_get (rec_normalized_data r) ''published_at'') new_records
           in if \<not> list_ex py_truthy raw_values then observed ''observed_fallback''
              else
                let parsed = List.map_filter (\<lambda>v. case v of
                      None \<Rightarrow> None | Some x \<Rightarrow> if py_truthy v then parse_item_timestamp env x else None) raw_values
                in (case parsed of
                      [] \<Rightarrow> observed ''invalid''
                    | t # ts \<Rightarrow>
                        let newest = latest t ts; d = instant now - instant newest
                        in \<lparr>fi_newest_source_ts = Some newest, fi_newest_observed_at = Some now,
                            fi_freshness_lag_seconds = Some (sgn d * (\<bar>d\<bar> div 1000000)), fi_quality = ''source''\<rparr>))"

record measured =
  ms_accepted :: int
  ms_duplicates :: int
  ms_rejected :: int
  ms_fetch_latency_ms :: int
  ms_store_latency_ms :: "int option"
  ms_cursor_advanced :: bool
  ms_error_type :: "string option"
  ms_error_kind :: "error_kind option"
  ms_freshness :: "freshness_info option"
  ms_raw :: "json dict"
  ms_measured_at :: "datetime option"

definition measured_failure :: "int \<Rightarrow> int \<Rightarrow> string option \<Rightarrow> error_kind option \<Rightarrow> json dict \<Rightarrow> measured" where
  "measured_failure rejected latency error_type kind raw =
     \<lparr>ms_accepted = 0, ms_duplicates = 0, ms_rejected = rejected, ms_fetch_latency_ms = latency,
      ms_store_latency_ms = None, ms_cursor_advanced = False, ms_error_type = error_type,
      ms_error_kind = kind, ms_freshness = None, ms_raw = raw, ms_measured_at = None\<rparr>"

definition record_measurement :: "string \<Rightarrow> string \<Rightarrow> measured \<Rightarrow> 'c pipe_state \<Rightarrow> 'c pipe_state" where
  "record_measurement source_id run_id m st =
     (let (now, st1) = (case ms_measured_at m of Some t \<Rightarrow> (t, st) | None \<Rightarrow> now_in st);
          (rid, db) = fresh_id (pp_control st1);
          (_, rows) = record_run_measurement rid source_id run_id (ms_accepted m) (ms_duplicates m)
            (ms_rejected m) (ms_fetch_latency_ms m) None (ms_store_latency_ms m) (ms_cursor_advanced m)
            (ms_error_type m) (ms_error_kind m) (ms_freshness m) (Some (ms_raw m)) now (db_measurements db)
      in st1\<lparr>pp_control := db\<lparr>db_measurements := rows\<rparr>\<rparr>)"

text \<open>The failure measurements take the time once more, for the latency.\<close>

definition measure_failure ::
  "string \<Rightarrow> string option \<Rightarrow> datetime \<Rightarrow> (int \<Rightarrow> measured) \<Rightarrow> 'c pipe_state \<Rightarrow> 'c pipe_state"
where
  "measure_failure source_id run step1_start m st =
     (case run of
        None \<Rightarrow> st
      | Some run_id \<Rightarrow>
          let (now, st1) = now_in st in record_measurement source_id run_id (m (millis now step1_start)) st1)"

definition notify_task_failed ::
  "('c, 'a) pipe_env \<Rightarrow> string \<Rightarrow> string \<Rightarrow> string \<Rightarrow> string option \<Rightarrow> 'c pipe_state \<Rightarrow> 'c pipe_state"
where
  "notify_task_failed env task_id source_id error error_type st =
     (let (_, ndb) = dispatch_notifications (se_text (pe_sinks env)) (pe_notifiers env) source_id []
            ''on_task_failed''
            (Some [(''error'', JStr error), (''error_type'', opt_str error_type), (''task_id'', JStr task_id)])
            (pp_notify st)
      in st\<lparr>pp_notify := ndb\<rparr>)"

section \<open>Before collecting\<close>

text \<open>
  A channel with session affinity attaches to the browser that is bound to the site, unless the
  caller chose one.
\<close>

definition bind_endpoint :: "('c, 'a) pipe_env \<Rightarrow> data_source \<Rightarrow> json dict \<Rightarrow> exn + json dict" where
  "bind_endpoint env source params =
     (case se_channels (pe_sinks env) (ds_channel_type source) of
        None \<Rightarrow> Inr params
      | Some ch \<Rightarrow>
          if cap_session_affinity (ch_capabilities ch) \<and> \<not> py_truthy (dict_get params ''chrome_endpoint'') then
            let site = dict_get_or (ds_channel_config source) ''site'' (JStr [])
            in if \<not> py_truthy (Some site) then Inr params
               else (case pe_binding env site of
                   Inl e \<Rightarrow> Inl e
                 | Inr None \<Rightarrow> Inr params
                 | Inr (Some endpoint) \<Rightarrow> Inr (dict_set params ''chrome_endpoint'' (JStr endpoint)))
          else Inr params)"

text \<open>Iterating over a JSON value: a list, the keys of an object, the characters of a string.\<close>

fun json_iter :: "json \<Rightarrow> exn + json list" where
  "json_iter (JList vs) = Inr vs"
| "json_iter (JObj d) = Inr (map (\<lambda>(k, _). JStr k) d)"
| "json_iter (JStr s) = Inr (map (\<lambda>c. JStr [c]) s)"
| "json_iter v = Inl (Exn ''TypeError'')"

fun json_len :: "json \<Rightarrow> exn + nat" where
  "json_len (JList vs) = Inr (length vs)"
| "json_len (JObj d) = Inr (length d)"
| "json_len (JStr s) = Inr (length s)"
| "json_len v = Inl (Exn ''TypeError'')"

definition skill_detail :: "json dict \<Rightarrow> json dict \<Rightarrow> exn + json" where
  "skill_detail config params =
     (let md = dict_get_or config ''skill_md'' (JStr [])
      in case json_len (if py_truthy (Some md) then md else JStr []) of
           Inl e \<Rightarrow> Inl e
         | Inr n \<Rightarrow> Inr (JObj [(''skill_chars'', JInt (int n)),
             (''has_chrome_endpoint'', JBool (py_truthy (dict_get params ''chrome_endpoint''))),
             (''auto_confirm'', JBool (py_truthy (dict_get config ''auto_confirm'')))]))"

text \<open>The options an OpenCLI command is shown with: unknown names become positional arguments.\<close>

definition command_args ::
  "('c, 'a) pipe_env \<Rightarrow> string list \<Rightarrow> json dict \<Rightarrow> string list \<times> (string \<times> json) list"
where
  "command_args env named raw_args =
     (if named = [] then ([], raw_args)
      else (map (\<lambda>(k, v). pe_py_str env v) (filter (\<lambda>(k, v). \<not> List.member named k) raw_args),
            filter (\<lambda>(k, v). List.member named k) raw_args))"

definition opencli_command :: "('c, 'a) pipe_env \<Rightarrow> json dict \<Rightarrow> json dict \<Rightarrow> exn + string list" where
  "opencli_command env config params =
     (let site = dict_get_or config ''site'' (JStr []); cmd = dict_get_or config ''command'' (JStr []);
          fmt = dict_get_or config ''format'' (JStr ''json'')
      in case dict_get_or config ''args'' (JObj []) of
           JObj args \<Rightarrow>
             (case json_iter (dict_get_or config ''positional_args'' (JList [])) of
                Inl e \<Rightarrow> Inl e
              | Inr pos \<Rightarrow>
                  let raw_args = dict_update args (filter (\<lambda>(k, _). k \<noteq> ''chrome_endpoint'') params)
                  in (case (site, cmd, fmt) of
                        (JStr s, JStr c, JStr f) \<Rightarrow>
                          let named = (case pe_named_options env s c of None \<Rightarrow> [] | Some ns \<Rightarrow> ns);
                              (extra_pos, named_args) = command_args env named raw_args
                          in Inr ([''opencli'', s, c] @ extra_pos @ map (pe_py_str env) pos @
                               concat (map (\<lambda>(k, v). [''--'' @ k, pe_py_str env v]) named_args) @ [''-f'', f])
                      | _ \<Rightarrow> Inl (Exn ''TypeError'')))
         | _ \<Rightarrow> Inl (Exn ''TypeError''))"

definition join_words :: "string list \<Rightarrow> string" where
  "join_words ws = concat (map (\<lambda>(i, w). if i = 0 then w else CHR '' '' # w) (enumerate (0::nat) ws))"

text \<open>
  The detail of the first event. It is built outside of any handler, so a configuration of the wrong
  shape raises here.
\<close>

definition collect_detail ::
  "('c, 'a) pipe_env \<Rightarrow> data_source \<Rightarrow> json dict \<Rightarrow> exn + json dict"
where
  "collect_detail env source params =
     (let base = [(''channel_type'', JStr (ds_channel_type source)), (''params'', JObj params)]
      in if ds_channel_type source = ''skill'' then
           (case skill_detail (ds_channel_config source) params of
              Inl e \<Rightarrow> Inl e | Inr d \<Rightarrow> Inr (base @ [(''skill'', d)]))
         else if ds_channel_type source = ''opencli'' then
           (case opencli_command env (ds_channel_config source) params of
              Inl e \<Rightarrow> Inl e | Inr words \<Rightarrow> Inr (base @ [(''command'', JStr (join_words words))]))
         else Inr base)"

definition announce_collect ::
  "('c, 'a) pipe_env \<Rightarrow> string option \<Rightarrow> data_source \<Rightarrow> json dict \<Rightarrow> 'c pipe_state \<Rightarrow>
   json dict flow \<times> 'c pipe_state"
where
  "announce_collect env run source params st =
     (case run of
        None \<Rightarrow> (Goes_on params, st)
      | Some run_id \<Rightarrow>
          let params' = (if ds_channel_type source = ''skill'' then dict_set params ''run_id'' (JStr run_id)
                         else params)
          in case collect_detail env source params' of
               Inl e \<Rightarrow> (Ends (Inl e), st)
             | Inr detail \<Rightarrow> (Goes_on params', emit_run run ''collect'' ''info'' (Some detail) None st))"

section \<open>Collecting\<close>

text \<open>
  A raised exception: transient ones go to the caller, which retries; the others end the run with a
  measurement and a notification.
\<close>

definition collect_raised ::
  "('c, 'a) pipe_env \<Rightarrow> string \<Rightarrow> string option \<Rightarrow> bool \<Rightarrow> data_source \<Rightarrow> datetime \<Rightarrow> exn \<Rightarrow> 'c pipe_state \<Rightarrow>
   (exn + pipeline_result) \<times> 'c pipe_state"
where
  "collect_raised env task_id run notify source step1_start e st =
     (let error = se_text (pe_sinks env) e; error_type = effective_error_type e;
          st1 = emit_run run ''collect'' ''error''
                  (Some [(''error'', JStr error), (''error_type'', JStr error_type)]) None st
      in if is_retryable (Some error_type) then (Inl e, st1)
         else
           let st2 = measure_failure (ds_id source) run step1_start
                 (\<lambda>latency. measured_failure 0 latency None (Some (map_exception (Some e)))
                    [(''stage'', JStr ''collect''), (''error'', JStr error), (''error_type'', JStr error_type)]) st1;
               st3 = (if notify then notify_task_failed env task_id (ds_id source) error (Some error_type) st2
                      else st2)
           in (Inr (failed_result (ds_id source) 0 (Some error) []), st3))"

text \<open>A captcha wall pauses the source and asks for a review.\<close>

definition captcha_wall ::
  "('c, 'a) pipe_env \<Rightarrow> string option \<Rightarrow> data_source \<Rightarrow> channel_result \<Rightarrow> 'c pipe_state \<Rightarrow>
   pipeline_result \<times> 'c pipe_state"
where
  "captcha_wall env run source result st =
     (let ttl = control_pause_ttl_seconds (pe_settings env);
          st1 = (if get_source (pp_control st) (ds_id source) = None then st
                 else
                   let (now, st') = now_in st;
                       (_, db) = pause_source_for_captcha (ds_id source) now ttl (pp_control st')
                   in emit_run run ''collect'' ''warning''
                        (Some [(''captcha_paused'', JBool True), (''pause_ttl_seconds'', JInt ttl)]) None
                        (st'\<lparr>pp_control := db\<rparr>))
      in (failed_result (ds_id source) 0 (cr_error result) [(''captcha_paused'', JBool True)], st1))"

text \<open>A result that is not successful.\<close>

definition collect_failed ::
  "('c, 'a) pipe_env \<Rightarrow> string \<Rightarrow> string option \<Rightarrow> bool \<Rightarrow> data_source \<Rightarrow> datetime \<Rightarrow> channel_result \<Rightarrow>
   'c pipe_state \<Rightarrow> (exn + pipeline_result) \<times> 'c pipe_state"
where
  "collect_failed env task_id run notify source step1_start result st =
     (let st1 = emit_run run ''collect'' ''error''
            (Some [(''error'', opt_str (cr_error result)), (''error_type'', opt_str (cr_error_type result))]) None st
      in if is_retryable (cr_error_type result) then (Inl (ChannelFetchError None None), st1)
         else if is_captcha (cr_error_type result) then
           let (r, st2) = captcha_wall env run source result st1 in (Inr r, st2)
         else
           let st2 = measure_failure (ds_id source) run step1_start
                 (\<lambda>latency. measured_failure 0 latency (cr_error_type result) None
                    [(''stage'', JStr ''collect''), (''error'', opt_str (cr_error result))]) st1;
               st3 = (if notify then notify_task_failed env task_id (ds_id source)
                        (case cr_error result of Some (c # cs) \<Rightarrow> c # cs | _ \<Rightarrow> ''collect failed'')
                        (cr_error_type result) st2
                      else st2)
           in (Inr (failed_result (ds_id source) 0 (cr_error result) []), st3))"

text \<open>The metadata with the two reserved keys, as the event shows it.\<close>

definition shown_metadata :: "('c, 'a) pipe_env \<Rightarrow> 'c collected \<Rightarrow> json dict" where
  "shown_metadata env result =
     cr_metadata result @
       [(''__cursor_pending__'', case cl_pending result of None \<Rightarrow> JNull | Some c \<Rightarrow> pe_cursor_json env c),
        (''__cursor_source_id__'', JStr (cl_cursor_source result))]"

definition collect_step ::
  "('c, 'a) pipe_env \<Rightarrow> string \<Rightarrow> string option \<Rightarrow> bool \<Rightarrow> data_source \<Rightarrow> json dict \<Rightarrow> 'c pipe_state \<Rightarrow>
   ('c collected \<times> int) flow \<times> 'c pipe_state"
where
  "collect_step env task_id run notify source params st =
     (let (step1_start, st1) = now_in st
      in case announce_collect env run source params st1 of
           (Ends r, st2) \<Rightarrow> (Ends r, st2)
         | (Goes_on params', st2) \<Rightarrow>
             (case collect (pe_blank env) (se_channels (pe_sinks env)) (pe_auth env) (pp_cursors st2) source params' of
                Inl e \<Rightarrow>
                  let (r, st3) = collect_raised env task_id run notify source step1_start e st2 in (Ends r, st3)
              | Inr result \<Rightarrow>
                  if \<not> cr_success result then
                    let (r, st3) = collect_failed env task_id run notify source step1_start
                          (channel_result.truncate result) st2
                    in (Ends r, st3)
                  else
                    let (done_at, st3) = now_in st2; elapsed = millis done_at step1_start
                    in (Goes_on (result, elapsed),
                        emit_run run ''collect'' ''info''
                          (Some [(''count'', JInt (int (length (cr_items result)))),
                                 (''metadata'', JObj (shown_metadata env result))]) (Some elapsed) st3)))"

section \<open>Writing\<close>

definition shadow_json :: "int \<times> int \<times> int \<Rightarrow> json" where
  "shadow_json = (\<lambda>(a, d, r). JObj [(''accepted'', JInt a), (''duplicates'', JInt d), (''rejected'', JInt r)])"

definition write_events :: "string option \<Rightarrow> sink_result \<Rightarrow> 'c pipe_state \<Rightarrow> 'c pipe_state" where
  "write_events run result st =
     (let st1 = emit_run run ''normalize'' ''info'' (Some [(''items'', JInt (sk_normalized result))]) None st;
          st2 = emit_run run ''store'' ''info''
            (Some [(''new'', JInt (int (length (sk_records result)))), (''skipped'', JInt (sk_duplicates result))]) None st1
      in if sk_errors result = [] then st2
         else emit_run run ''store'' ''warning''
           (Some [(''shadow_errors'', JList (map JStr (sk_errors result))),
                  (''shadow_meta'', case sk_shadow_meta result of None \<Rightarrow> JNull | Some m \<Rightarrow> shadow_json m)]) None st2)"

definition write_raised ::
  "('c, 'a) pipe_env \<Rightarrow> string option \<Rightarrow> data_source \<Rightarrow> nat \<Rightarrow> int \<Rightarrow> exn \<Rightarrow> 'c pipe_state \<Rightarrow>
   (exn + pipeline_result) \<times> 'c pipe_state"
where
  "write_raised env run source n elapsed e st =
     (let error = se_text (pe_sinks env) e; error_type = effective_error_type e;
          st1 = emit_run run ''store'' ''error''
                  (Some [(''error'', JStr error), (''error_type'', JStr error_type)]) None st
      in if is_retryable (Some error_type) then (Inl e, st1)
         else
           let st2 = (case run of
                 None \<Rightarrow> st1
               | Some run_id \<Rightarrow> record_measurement (ds_id source) run_id
                   (measured_failure (int n) elapsed None (Some (map_exception (Some e)))
                      [(''stage'', JStr ''store''), (''error'', JStr error), (''error_type'', JStr error_type)]) st1)
           in (Inr (failed_result (ds_id source) n (Some error) []), st2))"

text \<open>\<open>sink or select_sink(source.write_strategy)\<close>.\<close>

definition active_sink :: "item_sink option \<Rightarrow> data_source \<Rightarrow> item_sink" where
  "active_sink sink source = (case sink of Some s \<Rightarrow> s | None \<Rightarrow> select_sink (ds_write_strategy source))"

definition write_step ::
  "('c, 'a) pipe_env \<Rightarrow> item_sink option \<Rightarrow> run_context \<Rightarrow> string option \<Rightarrow> data_source \<Rightarrow> 'c collected \<Rightarrow>
   int \<Rightarrow> 'c pipe_state \<Rightarrow> sink_result flow \<times> 'c pipe_state"
where
  "write_step env sink ctx run source result elapsed st =
     (case write_batch (pe_sinks env) (active_sink sink source) ctx (cr_items result) (pp_write st) of
        (Inl e, db) \<Rightarrow>
          let (r, st1) = write_raised env run source (length (cr_items result)) elapsed e (st\<lparr>pp_write := db\<rparr>)
          in (Ends r, st1)
      | (Inr written, db) \<Rightarrow> (Goes_on written, write_events run written (st\<lparr>pp_write := db\<rparr>)))"

section \<open>Committing the cursor\<close>

text \<open>
  A save among other savers: what they commit before each of its steps is \<open>others\<close>. A save takes
  at most two steps per attempt, so the bound is never what ends it (\<open>save_among_returns\<close>).
\<close>

fun save_among ::
  "(nat \<Rightarrow> 'c cursor_db \<Rightarrow> 'c cursor_db) \<Rightarrow> ('c \<Rightarrow> bool) \<Rightarrow> string \<Rightarrow> 'c \<Rightarrow> nat \<Rightarrow> 'c cursor_db \<Rightarrow> 'c save_phase \<Rightarrow>
   'c save_phase \<times> 'c cursor_db"
where
  "save_among others blank source_id cursor 0 db phase = (phase, db)"
| "save_among others blank source_id cursor (Suc n) db phase =
     (if \<not> moving phase then (phase, db)
      else let (db', phase') = advance blank (others n db) source_id cursor phase
           in save_among others blank source_id cursor n db' phase')"

definition cursor_step ::
  "('c, 'a) pipe_env \<Rightarrow> string option \<Rightarrow> 'c collected \<Rightarrow> 'c pipe_state \<Rightarrow> bool \<times> 'c pipe_state"
where
  "cursor_step env run result st =
     (case cl_pending result of
        None \<Rightarrow> (False, st)
      | Some cursor \<Rightarrow>
          let (phase, db) = save_among (pe_race env) (pe_blank env) (cl_cursor_source result) cursor
                (2 * attempts) (pp_cursors st) (Reading 0);
              st1 = st\<lparr>pp_cursors := db\<rparr>
          in (case phase of
                Saved commit \<Rightarrow> (cm_advanced commit, st1)
              | _ \<Rightarrow> (False, emit_run run ''store'' ''warning''
                  (Some [(''source_id'', JStr (cl_cursor_source result)), (''cursor'', pe_cursor_json env cursor),
                         (''error'', JStr (pe_race_text env))]) None st1)))"

section \<open>Enriching\<close>

definition effective_config :: "json dict option \<Rightarrow> data_source \<Rightarrow> json dict option" where
  "effective_config agent_config source =
     (case agent_config of Some (kv # kvs) \<Rightarrow> Some (kv # kvs) | _ \<Rightarrow> ds_ai_config source)"

definition set_task_status :: "string \<Rightarrow> string \<Rightarrow> control_db \<Rightarrow> control_db" where
  "set_task_status task_id status db =
     db\<lparr>db_tasks := map (\<lambda>t. if ct_id t = task_id then t\<lparr>ct_status := status\<rparr> else t) (db_tasks db)\<rparr>"

text \<open>The stored row of an enriched record takes its enrichment.\<close>

definition persist_enrichment :: "collected_record list \<Rightarrow> collected_record \<Rightarrow> collected_record list" where
  "persist_enrichment table rec =
     (if rec_ai_enrichment rec = None then table
      else map (\<lambda>r. if rec_id r = rec_id rec
             then r\<lparr>rec_ai_enrichment := rec_ai_enrichment rec, rec_status := ''ai_processed''\<rparr> else r) table)"

definition persist_enrichments :: "collected_record list \<Rightarrow> write_db \<Rightarrow> write_db" where
  "persist_enrichments records db = db\<lparr>wd_records := foldl persist_enrichment (wd_records db) records\<rparr>"

definition enrich_batch ::
  "('c, 'a) pipe_env \<Rightarrow> string \<Rightarrow> string option \<Rightarrow> json dict \<Rightarrow> bool \<Rightarrow> collected_record list \<Rightarrow> 'c pipe_state \<Rightarrow>
   nat \<times> collected_record list \<times> 'c pipe_state"
where
  "enrich_batch env task_id run config resolve records st =
     (let st1 = st\<lparr>pp_control := set_task_status task_id ''ai_processing'' (pp_control st)\<rparr>
      in case process_with_ai (pe_processors env) (pe_providers env) records (Some config) resolve of
           Inl e \<Rightarrow> (0, records, emit_run run ''ai_process'' ''warning'' None None st1)
         | Inr (n, records') \<Rightarrow>
             let st2 = st1\<lparr>pp_write := persist_enrichments records' (pp_write st1)\<rparr>
             in (n, records',
                 if n > 0 then emit_run run ''ai_process'' ''info'' (Some [(''processed'', JInt (int n))]) None st2
                 else emit_run run ''ai_process'' ''warning''
                   (Some [(''processed'', JInt 0),
                          (''processor_type'', dict_get_or config ''processor_type'' (JStr ''claude''))]) None st2))"

definition ai_step ::
  "('c, 'a) pipe_env \<Rightarrow> string \<Rightarrow> string option \<Rightarrow> bool \<Rightarrow> json dict option \<Rightarrow> data_source \<Rightarrow>
   collected_record list \<Rightarrow> 'c pipe_state \<Rightarrow> nat \<times> collected_record list \<times> 'c pipe_state"
where
  "ai_step env task_id run enable agent_config source records st =
     (case effective_config agent_config source of
        Some (kv # kvs) \<Rightarrow>
          if enable \<and> records \<noteq> []
          then enrich_batch env task_id run (kv # kvs) (agent_config = None) records st
          else (0, records, st)
      | _ \<Rightarrow> (0, records, if enable then emit_run run ''ai_process'' ''info'' None None st else st))"

section \<open>Notifying\<close>

definition notify_step ::
  "('c, 'a) pipe_env \<Rightarrow> string option \<Rightarrow> bool \<Rightarrow> data_source \<Rightarrow> collected_record list \<Rightarrow> nat \<Rightarrow> 'c pipe_state \<Rightarrow>
   nat \<times> 'c pipe_state"
where
  "notify_step env run enable source records ai_count st =
     (if \<not> enable \<or> records = [] then (0, st)
      else
        let dispatch = (\<lambda>event. dispatch_notifications (se_text (pe_sinks env)) (pe_notifiers env) (ds_id source)
              (map record_item records) event None);
            ((sent, failed), ndb1) = dispatch ''on_new_record'' (pp_notify st);
            ndb2 = (if ai_count > 0 then snd (dispatch ''on_ai_processed'' ndb1) else ndb1)
        in (sent, emit_run run ''notify'' (if failed > 0 \<and> sent = 0 then ''warning'' else ''info'')
              (Some [(''sent'', JInt (int sent)), (''failed'', JInt (int failed))]) None
              (st\<lparr>pp_notify := ndb2\<rparr>)))"

section \<open>The run\<close>

definition shadow_fields :: "sink_result \<Rightarrow> json dict \<Rightarrow> json dict" where
  "shadow_fields written metadata =
     (if sk_errors written = [] then metadata
      else
        let m1 = dict_set metadata ''shadow_errors'' (JList (map JStr (sk_errors written)))
        in case sk_shadow_meta written of
             None \<Rightarrow> m1 | Some m \<Rightarrow> dict_set m1 ''shadow_meta'' (shadow_json m))"

text \<open>A successful run has no error, whatever the shadow sink reported.\<close>

definition completion ::
  "('c, 'a) pipe_env \<Rightarrow> nat \<Rightarrow> sink_result \<Rightarrow> collected_record list \<Rightarrow> int \<Rightarrow> int \<Rightarrow> bool \<Rightarrow> datetime \<Rightarrow> measured"
where
  "completion env n written records elapsed duration advanced completed_at =
     \<lparr>ms_accepted = int (length records), ms_duplicates = sk_duplicates written,
      ms_rejected = sk_rejected written, ms_fetch_latency_ms = elapsed,
      ms_store_latency_ms = Some (duration - elapsed), ms_cursor_advanced = advanced,
      ms_error_type = None, ms_error_kind = None,
      ms_freshness = Some (derive_freshness env records completed_at),
      ms_raw = [(''stage'', JStr ''complete''), (''collected'', JInt (int n)), (''duration_ms'', JInt duration),
        (''shadow_errors'', if sk_errors written = [] then JNull else JList (map JStr (sk_errors written)))],
      ms_measured_at = Some completed_at\<rparr>"

definition complete_step ::
  "('c, 'a) pipe_env \<Rightarrow> string option \<Rightarrow> data_source \<Rightarrow> nat \<Rightarrow> sink_result \<Rightarrow> collected_record list \<Rightarrow> int \<Rightarrow>
   int \<Rightarrow> bool \<Rightarrow> 'c pipe_state \<Rightarrow> 'c pipe_state"
where
  "complete_step env run source n written records elapsed duration advanced st =
     (case run of
        None \<Rightarrow> st
      | Some run_id \<Rightarrow>
          let st1 = emit_run run ''complete'' ''info''
                (Some [(''duration_ms'', JInt duration), (''collected'', JInt (int n)),
                       (''stored'', JInt (int (length records))), (''skipped'', JInt (sk_duplicates written))]) None st;
              (completed_at, st2) = now_in st1
          in record_measurement (ds_id source) run_id
               (completion env n written records elapsed duration advanced completed_at) st2)"

text \<open>Everything after the sink has accepted the batch; nothing here fails the run.\<close>

definition after_write ::
  "('c, 'a) pipe_env \<Rightarrow> string \<Rightarrow> string option \<Rightarrow> bool \<Rightarrow> bool \<Rightarrow> json dict option \<Rightarrow> data_source \<Rightarrow> datetime \<Rightarrow>
   'c collected \<Rightarrow> int \<Rightarrow> sink_result \<Rightarrow> 'c pipe_state \<Rightarrow> pipeline_result \<times> 'c pipe_state"
where
  "after_write env task_id run enable_ai notify agent_config source started result elapsed written st =
     (let n = length (cr_items result);
          (advanced, st1) = cursor_step env run result st;
          (ai_count, records, st2) = ai_step env task_id run enable_ai agent_config source (sk_records written) st1;
          (sent, st3) = notify_step env run notify source records ai_count st2;
          (done_at, st4) = now_in st3; duration = millis done_at started;
          st5 = complete_step env run source n written records elapsed duration advanced st4
      in (\<lparr>px_success = True, px_source_id = ds_id source, px_collected = n, px_stored = length records,
           px_skipped = sk_duplicates written, px_ai_processed = ai_count, px_notifications_sent = sent,
           px_error = None, px_duration_ms = duration,
           px_metadata = shadow_fields written (cr_metadata result)\<rparr>, st5))"

text \<open>An empty run id is no run.\<close>

definition run_of :: "string option \<Rightarrow> string option" where
  "run_of run_id = (if run_id = Some [] then None else run_id)"

definition run_pipeline ::
  "('c, 'a) pipe_env \<Rightarrow> string \<Rightarrow> data_source \<Rightarrow> json dict \<Rightarrow> bool \<Rightarrow> bool \<Rightarrow> json dict option \<Rightarrow> string option \<Rightarrow>
   item_sink option \<Rightarrow> collection_lineage option \<Rightarrow> 'c pipe_state \<Rightarrow> (exn + pipeline_result) \<times> 'c pipe_state"
where
  "run_pipeline env task_id source parameters enable_ai notify agent_config run_id sink lineage st =
     (let run = run_of run_id;
          (started, st1) = now_in st
      in case bind_endpoint env source parameters of
           Inl e \<Rightarrow> (Inl e, st1)
         | Inr params \<Rightarrow>
             (case collect_step env task_id run notify source params st1 of
                (Ends r, st2) \<Rightarrow> (r, st2)
              | (Goes_on (result, elapsed), st2) \<Rightarrow>
                  (case write_step env sink
                      (new_context task_id (ds_id source) (ds_channel_type source) run_id lineage)
                      run source result elapsed st2 of
                     (Ends r, st3) \<Rightarrow> (r, st3)
                   | (Goes_on written, st3) \<Rightarrow>
                       let (r, st4) = after_write env task_id run enable_ai notify agent_config source started
                             result elapsed written st3
                       in (Inr r, st4))))"

end
