(* ===== verification/PipelineProps.thy ===== *)
theory PipelineProps
  imports CollectionPipeline
begin

text \<open>
  What a collection run may change and what it promises: frame facts of the steps, the saving of a
  cursor among other savers, and the properties of \<open>run_pipeline\<close>.
\<close>

section \<open>Frame facts\<close>

lemma now_in_frame [frame_simps]:
  "pp_write (snd (now_in st)) = pp_write st" "pp_cursors (snd (now_in st)) = pp_cursors st"
  "pp_notify (snd (now_in st)) = pp_notify st"
  "db_sources (pp_control (snd (now_in st))) = db_sources (pp_control st)"
  "db_schedules (pp_control (snd (now_in st))) = db_schedules (pp_control st)"
  "db_measurements (pp_control (snd (now_in st))) = db_measurements (pp_control st)"
  "db_tasks (pp_control (snd (now_in st))) = db_tasks (pp_control st)"
  "db_runs (pp_control (snd (now_in st))) = db_runs (pp_control st)"
  by (simp_all add: now_in_def case_prod_unfold Let_def frame_simps)

lemma emit_run_frame [frame_simps]:
  "pp_write (emit_run run s l d e st) = pp_write st" "pp_cursors (emit_run run s l d e st) = pp_cursors st"
  "pp_notify (emit_run run s l d e st) = pp_notify st"
  "db_sources (pp_control (emit_run run s l d e st)) = db_sources (pp_control st)"
  "db_schedules (pp_control (emit_run run s l d e st)) = db_schedules (pp_control st)"
  "db_measurements (pp_control (emit_run run s l d e st)) = db_measurements (pp_control st)"
  "db_tasks (pp_control (emit_run run s l d e st)) = db_tasks (pp_control st)"
  "db_runs (pp_control (emit_run run s l d e st)) = db_runs (pp_control st)"
  by (simp_all add: emit_run_def frame_simps split: option.splits)

lemma record_measurement_frame [frame_simps]:
  "pp_write (record_measurement sid rid m st) = pp_write st"
  "pp_cursors (record_measurement sid rid m st) = pp_cursors st"
  "pp_notify (record_measurement sid rid m st) = pp_notify st"
  "db_sources (pp_control (record_measurement sid rid m st)) = db_sources (pp_control st)"
  "db_schedules (pp_control (record_measurement sid rid m st)) = db_schedules (pp_control st)"
  "db_tasks (pp_control (record_measurement sid rid m st)) = db_tasks (pp_control st)"
  "db_runs (pp_control (record_measurement sid rid m st)) = db_runs (pp_control st)"
  by (simp_all add: record_measurement_def fresh_id_def case_prod_unfold Let_def frame_simps split: option.splits)

text \<open>One row, with the numbers it was given.\<close>

definition row_of :: "string \<Rightarrow> string \<Rightarrow> measured \<Rightarrow> measurement_row \<Rightarrow> bool" where
  "row_of sid rid m row \<longleftrightarrow> mr_source_id row = sid \<and> mr_run_id row = rid \<and> mr_accepted row = ms_accepted m \<and>
     mr_duplicates row = ms_duplicates m \<and> mr_rejected row = ms_rejected m \<and>
     mr_cursor_advanced row = ms_cursor_advanced m \<and>
     mr_error_kinds row = error_kinds_payload (ms_error_kind m) (ms_error_type m) \<and> mr_raw row = ms_raw m"

lemma record_measurement_row:
  "\<exists>row. row_of sid rid m row \<and>
     db_measurements (pp_control (record_measurement sid rid m st)) = db_measurements (pp_control st) @ [row]"
  by (auto simp: record_measurement_def record_run_measurement_def derive_def fresh_id_def row_of_def
      case_prod_unfold Let_def frame_simps split: option.splits)

lemma measure_failure_frame [frame_simps]:
  "pp_write (measure_failure sid run t m st) = pp_write st"
  "pp_cursors (measure_failure sid run t m st) = pp_cursors st"
  "pp_notify (measure_failure sid run t m st) = pp_notify st"
  "db_sources (pp_control (measure_failure sid run t m st)) = db_sources (pp_control st)"
  "db_schedules (pp_control (measure_failure sid run t m st)) = db_schedules (pp_control st)"
  "db_tasks (pp_control (measure_failure sid run t m st)) = db_tasks (pp_control st)"
  "db_runs (pp_control (measure_failure sid run t m st)) = db_runs (pp_control st)"
  by (simp_all add: measure_failure_def case_prod_unfold Let_def frame_simps split: option.splits)

lemma measure_failure_row:
  "\<exists>row latency. row_of sid rid (m latency) row \<and>
     db_measurements (pp_control (measure_failure sid (Some rid) t m st)) = db_measurements (pp_control st) @ [row]"
proof -
  let ?st = "snd (now_in st)"
  obtain row where "row_of sid rid (m (millis (fst (now_in st)) t)) row"
    "db_measurements (pp_control (record_measurement sid rid (m (millis (fst (now_in st)) t)) ?st)) =
       db_measurements (pp_control ?st) @ [row]"
    using record_measurement_row[of sid rid "m (millis (fst (now_in st)) t)" ?st] by blast
  then show ?thesis
    by (intro exI[of _ row] exI[of _ "millis (fst (now_in st)) t"])
      (simp add: measure_failure_def case_prod_unfold Let_def frame_simps)
qed

lemma measure_failure_none [simp]: "measure_failure sid None t m st = st"
  by (simp add: measure_failure_def)

lemma notify_task_failed_frame [frame_simps]:
  "pp_write (notify_task_failed env t s e ty st) = pp_write st"
  "pp_cursors (notify_task_failed env t s e ty st) = pp_cursors st"
  "pp_control (notify_task_failed env t s e ty st) = pp_control st"
  by (simp_all add: notify_task_failed_def case_prod_unfold Let_def)

section \<open>Saving a cursor\<close>

lemma save_among_stopped: "\<not> moving phase \<Longrightarrow> save_among others blank s c n db phase = (phase, db)"
  by (cases n) simp_all

text \<open>Whatever the other savers do, the steps given are enough.\<close>

lemma save_among_returns:
  "attempt_of phase < attempts \<Longrightarrow> steps_left phase \<le> n \<Longrightarrow>
    \<not> moving (fst (save_among others blank s c n db phase))"
proof (induction n arbitrary: db phase)
  case 0
  then show ?case
    by (cases phase) (auto simp: steps_left_def moving_def attempt_of_def attempts_def)
next
  case (Suc n)
  show ?case
  proof (cases "moving phase")
    case True
    obtain db' phase' where step: "advance blank (others n db) s c phase = (db', phase')" by fastforce
    have "steps_left phase' < steps_left phase" by (rule advance_steps_left[OF True Suc.prems(1) step])
    then have "steps_left phase' \<le> n" using Suc.prems(2) by simp
    moreover have "attempt_of phase' < attempts"
      using step Suc.prems(1) True
      by (cases phase) (auto simp: attempt_of_def retry_def attempts_def moving_def Let_def
          split: option.splits if_splits prod.splits)
    ultimately show ?thesis using Suc.IH step True by simp
  qed (simp add: save_among_stopped)
qed

text \<open>
  What the others make of the table, and how they behave: whoever else writes it saves cursors, so the row
  of a source stays, and changes only together with its version.
\<close>

inductive by_others :: "(nat \<Rightarrow> 'c cursor_db \<Rightarrow> 'c cursor_db) \<Rightarrow> 'c cursor_db \<Rightarrow> 'c cursor_db \<Rightarrow> bool"
  for others :: "nat \<Rightarrow> 'c cursor_db \<Rightarrow> 'c cursor_db"
where
  others_rest: "by_others others db db"
| others_commit: "by_others others (others n db) db' \<Longrightarrow> by_others others db db'"

definition others_save :: "(nat \<Rightarrow> 'c cursor_db \<Rightarrow> 'c cursor_db) \<Rightarrow> bool" where
  "others_save others \<longleftrightarrow> (\<forall>n db. good_rows db \<longrightarrow> good_rows (others n db) \<and>
     (\<forall>s r. select_row db s = Some r \<longrightarrow> (\<exists>r'. select_row (others n db) s = Some r' \<and> sc_id r' = sc_id r \<and>
        (r' = r \<or> sc_version r < sc_version r'))))"

lemma others_save_generation:
  assumes "others_save others" and "good_rows db"
  shows "generation db s \<le> generation (others n db) s"
proof (cases "select_row db s")
  case (Some r)
  with assms obtain r' where "select_row (others n db) s = Some r'" "r' = r \<or> sc_version r < sc_version r'"
    unfolding others_save_def by blast
  with Some show ?thesis by (auto simp: generation_def)
qed (simp add: generation_def)

definition saver_at :: "string \<Rightarrow> 'c \<Rightarrow> 'c save_phase \<Rightarrow> 'c saver" where
  "saver_at s c phase = \<lparr>sv_source = s, sv_cursor = c, sv_phase = phase\<rparr>"

text \<open>
  How a save ends: it commits to what the others have left, or it gives up, after as many changes of
  the source's cursor by others as it has attempts.
\<close>

definition save_ended ::
  "(nat \<Rightarrow> 'c cursor_db \<Rightarrow> 'c cursor_db) \<Rightarrow> ('c \<Rightarrow> bool) \<Rightarrow> string \<Rightarrow> 'c \<Rightarrow> nat \<Rightarrow> 'c cursor_db \<Rightarrow>
   'c save_phase \<Rightarrow> 'c cursor_db \<Rightarrow> bool"
where
  "save_ended others blank s c gen0 db phase' db' \<longleftrightarrow> (\<exists>db1. by_others others db db1 \<and>
     (case phase' of
        Saved r \<Rightarrow> cursors db' = (cursors db1)(s \<mapsto> c) \<and> cm_advanced r = (db_load blank db1 s \<noteq> Some c)
      | _ \<Rightarrow> db' = db1 \<and> gen0 + attempts \<le> generation db1 s))"

lemma save_among_ended:
  assumes "others_save others"
  shows "good_rows db \<Longrightarrow> fresh_enough db s phase \<Longrightarrow> paced gen0 db (saver_at s c phase) \<Longrightarrow> moving phase \<Longrightarrow>
    steps_left phase \<le> n \<Longrightarrow> save_among others blank s c n db phase = (phase', db') \<Longrightarrow>
    save_ended others blank s c gen0 db phase' db'"
proof (induction n arbitrary: db phase)
  case 0
  then show ?case
    by (cases phase) (auto simp: steps_left_def moving_def paced_def saver_at_def attempts_def)
next
  case (Suc n)
  let ?db = "others n db"
  have good: "good_rows ?db" using assms Suc.prems(1) by (simp add: others_save_def)
  have rows: "\<exists>r'. select_row ?db s = Some r' \<and> sc_id r' = sc_id r \<and> (r' = r \<or> sc_version r < sc_version r')"
    if "select_row db s = Some r" for r using assms Suc.prems(1) that unfolding others_save_def by blast
  have fresh: "fresh_enough ?db s phase" by (rule fresh_enough_kept[OF Suc.prems(2) rows])
  have gen: "generation db s \<le> generation ?db s" by (rule others_save_generation[OF assms Suc.prems(1)])
  have pace: "paced gen0 ?db (saver_at s c phase)"
    using Suc.prems(3) gen by (auto simp: paced_def saver_at_def split: save_phase.splits)
  have att: "attempt_of phase < attempts"
    using pace Suc.prems(4) by (auto simp: paced_def saver_at_def attempt_of_def moving_def split: save_phase.splits)
  obtain db1 phase1 where step: "advance blank ?db s c phase = (db1, phase1)" by fastforce
  have left: "steps_left phase1 \<le> n"
    using advance_steps_left[OF Suc.prems(4) att step] Suc.prems(5) by simp
  have rest: "save_among others blank s c n db1 phase1 = (phase', db')" using Suc.prems(4,6) step by simp
  have up: "save_ended others blank s c gen0 db phase' db'" if "save_ended others blank s c gen0 ?db phase' db'"
    using that unfolding save_ended_def by (blast intro: others_commit)
  from good fresh Suc.prems(4) step show ?case
  proof (cases rule: advance_cases)
    case (read k)
    have "fresh_enough ?db s phase1" "moving phase1" "paced gen0 ?db (saver_at s c phase1)"
      using pace by (auto simp: read fresh_enough_def moving_def paced_def saver_at_def generation_def split: option.splits)
    with Suc.IH[OF good _ _ _ left] rest read(2) up show ?thesis by simp
  next
    case lost
    have more: "gen0 + attempt_of phase + 1 \<le> generation ?db s"
      using lost(3) pace by (auto simp: paced_def saver_at_def attempt_of_def generation_def split: save_phase.splits)
    show ?thesis
    proof (cases "attempt_of phase = attempts - 1")
      case True
      then have "phase1 = SaveRaised" using lost(2) by (simp add: retry_def)
      moreover have "gen0 + attempts \<le> generation ?db s" using more True att by simp
      ultimately show ?thesis
        using rest lost(1) by (intro up) (auto simp: save_ended_def save_among_stopped moving_def intro!: others_rest)
    next
      case False
      then have ph: "phase1 = Reading (attempt_of phase + 1)" using lost(2) by (simp add: retry_def)
      have "fresh_enough ?db s phase1" "moving phase1" "paced gen0 ?db (saver_at s c phase1)"
        using more att False by (simp_all add: ph fresh_enough_def moving_def paced_def saver_at_def)
      with Suc.IH[OF good _ _ _ left] rest lost(1) up show ?thesis by simp
    qed
  next
    case (commit old)
    then have "phase' = phase1" "db' = db1" using rest by (simp_all add: save_among_stopped moving_def)
    then show ?thesis using commit(2-4) by (intro up) (auto simp: save_ended_def intro!: others_rest)
  qed
qed

text \<open>Savers are others that save.\<close>

lemma others_save_db_save:
  "others_save (\<lambda>n db. if P n then snd (db_save blank (s n) (c n) db) else db)"
proof -
  have "good_rows (snd (db_save blank s c db)) \<and>
      (\<forall>t r. select_row db t = Some r \<longrightarrow> (\<exists>r'. select_row (snd (db_save blank s c db)) t = Some r' \<and>
         sc_id r' = sc_id r \<and> (r' = r \<or> sc_version r < sc_version r')))" if good: "good_rows db" for s c and db :: "'a cursor_db"
  proof -
    define phase1 where "phase1 = (case select_row db s of Some row \<Rightarrow> Updating 0 row | None \<Rightarrow> Inserting (0::nat))"
    obtain db' phase' where step: "advance blank db s c phase1 = (db', phase')" by fastforce
    have save: "snd (db_save blank s c db) = db'"
      by (simp add: db_save_def Let_def phase1_def[symmetric] step)
    have m1: "moving phase1" and f1: "fresh_enough db s phase1"
      by (auto simp: phase1_def moving_def fresh_enough_def split: option.splits)
    from good f1 m1 step show ?thesis
    proof (cases rule: advance_cases)
      case (commit old)
      have "\<exists>r'. select_row db' t = Some r' \<and> sc_id r' = sc_id r \<and> (r' = r \<or> sc_version r < sc_version r')"
        if "select_row db t = Some r" for t r
        using commit(6)[of t] commit(7)[of r] that by (cases "t = s") auto
      with commit(1) save show ?thesis by simp
    qed (use good save in \<open>auto simp: phase1_def split: option.splits\<close>)
  qed
  then show ?thesis by (simp add: others_save_def)
qed

section \<open>The steps\<close>

text \<open>What collecting leaves alone, whatever happens; and what it leaves alone if it neither measures nor notifies.\<close>

definition untouched :: "'c pipe_state \<Rightarrow> 'c pipe_state \<Rightarrow> bool" where
  "untouched st st' \<longleftrightarrow> pp_write st' = pp_write st \<and> pp_cursors st' = pp_cursors st \<and>
     db_sources (pp_control st') = db_sources (pp_control st) \<and>
     db_schedules (pp_control st') = db_schedules (pp_control st) \<and>
     db_tasks (pp_control st') = db_tasks (pp_control st) \<and> db_runs (pp_control st') = db_runs (pp_control st)"

definition quiet :: "'c pipe_state \<Rightarrow> 'c pipe_state \<Rightarrow> bool" where
  "quiet st st' \<longleftrightarrow> untouched st st' \<and> pp_notify st' = pp_notify st \<and>
     db_measurements (pp_control st') = db_measurements (pp_control st)"

text \<open>One measurement if there is a run, none otherwise.\<close>

definition measured_once :: "string \<Rightarrow> string option \<Rightarrow> (int \<Rightarrow> measured) \<Rightarrow> 'c pipe_state \<Rightarrow> 'c pipe_state \<Rightarrow> bool" where
  "measured_once sid run m st st' \<longleftrightarrow>
     (case run of
        None \<Rightarrow> db_measurements (pp_control st') = db_measurements (pp_control st)
      | Some rid \<Rightarrow> \<exists>row latency. row_of sid rid (m latency) row \<and>
          db_measurements (pp_control st') = db_measurements (pp_control st) @ [row])"

lemma quiet_trans [trans]: "quiet a b \<Longrightarrow> quiet b c \<Longrightarrow> quiet a c"
  by (simp add: quiet_def untouched_def)

lemma quiet_untouched: "quiet a b \<Longrightarrow> untouched b c \<Longrightarrow> untouched a c"
  by (simp add: quiet_def untouched_def)

lemma quiet_measured: "quiet a b \<Longrightarrow> measured_once sid run m b c \<Longrightarrow> measured_once sid run m a c"
  by (simp add: quiet_def measured_once_def split: option.splits)

lemma quiet_now [intro]: "quiet st (snd (now_in st))"
  by (simp add: quiet_def untouched_def frame_simps)

lemma quiet_emit [intro]: "quiet st (emit_run run s l d e st)"
  by (simp add: quiet_def untouched_def frame_simps)

lemma measure_failure_once: "measured_once sid run m st (measure_failure sid run t m st)"
proof (cases run)
  case (Some rid)
  show ?thesis unfolding measured_once_def Some option.case by (rule measure_failure_row)
qed (simp add: measured_once_def)

lemma announce_cases:
  assumes "announce_collect env run source params st = (fl, st')"
  obtains (raises) e p where "fl = Ends (Inl e)" "collect_detail env source p = Inl e" "run \<noteq> None" "st' = st"
  | (announced) p where "fl = Goes_on p" "quiet st st'"
proof (cases run)
  case None
  with assms announced[of params] show thesis by (simp add: announce_collect_def quiet_def untouched_def)
next
  case (Some rid)
  let ?p = "if ds_channel_type source = ''skill'' then dict_set params ''run_id'' (JStr rid) else params"
  show thesis
  proof (cases "collect_detail env source ?p")
    case (Inl e)
    with assms Some raises[of e ?p] show thesis by (simp add: announce_collect_def)
  next
    case (Inr d)
    then have "fl = Goes_on ?p" "st' = emit_run run ''collect'' ''info'' (Some d) None st"
      using assms Some by (simp_all add: announce_collect_def)
    then show thesis using announced[of ?p] quiet_emit by blast
  qed
qed

text \<open>A failure of the collect step, as it is measured.\<close>

definition collect_failure :: "('c, 'a) pipe_env \<Rightarrow> exn \<Rightarrow> int \<Rightarrow> measured" where
  "collect_failure env e latency = measured_failure 0 latency None (Some (map_exception (Some e)))
     [(''stage'', JStr ''collect''), (''error'', JStr (se_text (pe_sinks env) e)),
      (''error_type'', JStr (effective_error_type e))]"

lemma collect_raised_transient:
  assumes "is_retryable (Some (effective_error_type e))"
  shows "fst (collect_raised env task run notify source t e st) = Inl e"
    "quiet st (snd (collect_raised env task run notify source t e st))"
  using assms by (auto simp: collect_raised_def Let_def)

lemma collect_raised_permanent:
  assumes "\<not> is_retryable (Some (effective_error_type e))"
  shows "fst (collect_raised env task run notify source t e st) =
      Inr (failed_result (ds_id source) 0 (Some (se_text (pe_sinks env) e)) [])"
    "untouched st (snd (collect_raised env task run notify source t e st))"
    "measured_once (ds_id source) run (collect_failure env e) st
       (snd (collect_raised env task run notify source t e st))"
proof -
  let ?ev = "emit_run run ''collect'' ''error'' (Some [(''error'', JStr (se_text (pe_sinks env) e)),
      (''error_type'', JStr (effective_error_type e))]) None st"
  let ?st2 = "measure_failure (ds_id source) run t (collect_failure env e) ?ev"
  have fn: "(\<lambda>latency. measured_failure 0 latency None (Some (map_exception (Some e)))
     [(''stage'', JStr ''collect''), (''error'', JStr (se_text (pe_sinks env) e)),
      (''error_type'', JStr (effective_error_type e))]) = collect_failure env e"
    by (simp add: collect_failure_def fun_eq_iff)
  have st: "collect_raised env task run notify source t e st =
      (Inr (failed_result (ds_id source) 0 (Some (se_text (pe_sinks env) e)) []),
       if notify then notify_task_failed env task (ds_id source) (se_text (pe_sinks env) e)
         (Some (effective_error_type e)) ?st2 else ?st2)"
    using assms by (simp add: collect_raised_def Let_def fn)
  show "fst (collect_raised env task run notify source t e st) =
      Inr (failed_result (ds_id source) 0 (Some (se_text (pe_sinks env) e)) [])"
    "untouched st (snd (collect_raised env task run notify source t e st))"
    by (simp_all add: st untouched_def frame_simps)
  have "measured_once (ds_id source) run (collect_failure env e) st ?st2"
    by (rule quiet_measured[OF quiet_emit measure_failure_once])
  then show "measured_once (ds_id source) run (collect_failure env e) st
       (snd (collect_raised env task run notify source t e st))"
    by (simp add: st measured_once_def frame_simps split: option.splits)
qed

text \<open>Collecting through the runner raises its failures, it never returns one.\<close>

lemma collect_succeeds: "collect blank channels auth cdb source params = Inr c \<Longrightarrow> cr_success c"
  using collect_chain[of blank channels auth cdb source params c] by blast

lemma collect_step_cases:
  assumes "collect_step env task run notify source params st = (fl, st')"
  obtains
    (detail) e p where "fl = Ends (Inl e)" "run \<noteq> None" "collect_detail env source p = Inl e" "quiet st st'"
  | (transient) e where "fl = Ends (Inl e)" "is_retryable (Some (effective_error_type e))" "quiet st st'"
  | (failed) e where "fl = Ends (Inr (failed_result (ds_id source) 0 (Some (se_text (pe_sinks env) e)) []))"
      "\<not> is_retryable (Some (effective_error_type e))" "untouched st st'"
      "measured_once (ds_id source) run (collect_failure env e) st st'"
  | (got) c elapsed p where "fl = Goes_on (c, elapsed)" "quiet st st'"
      "collect (pe_blank env) (se_channels (pe_sinks env)) (pe_auth env) (pp_cursors st) source p = Inr c"
proof -
  obtain t0 st1 where now: "now_in st = (t0, st1)" by fastforce
  obtain fl2 st2 where ann: "announce_collect env run source params st1 = (fl2, st2)" by fastforce
  have q1: "quiet st st1" using quiet_now[of st] now by simp
  from ann show thesis
  proof (cases rule: announce_cases)
    case (raises e p)
    with assms now ann q1 detail[of e p] show thesis by (simp add: collect_step_def)
  next
    case (announced p)
    have q2: "quiet st st2" by (rule quiet_trans[OF q1 announced(2)])
    then have cur: "pp_cursors st2 = pp_cursors st" by (simp add: quiet_def untouched_def)
    let ?res = "collect (pe_blank env) (se_channels (pe_sinks env)) (pe_auth env) (pp_cursors st) source p"
    show thesis
    proof (cases ?res)
      case (Inl e)
      let ?r = "collect_raised env task run notify source t0 e st2"
      have fl: "fl = Ends (fst ?r)" "st' = snd ?r"
        using assms Inl announced(1) by (simp_all add: collect_step_def now ann cur case_prod_unfold Let_def)
      show thesis
      proof (cases "is_retryable (Some (effective_error_type e))")
        case True
        note cr = collect_raised_transient[OF True, where env = env and task = task and run = run
            and notify = notify and source = source and t = t0 and st = st2]
        show thesis using transient[of e] True cr fl quiet_trans[OF q2 cr(2)] by simp
      next
        case False
        note cr = collect_raised_permanent[OF False, where env = env and task = task and run = run
            and notify = notify and source = source and t = t0 and st = st2]
        show thesis
          using failed[of e] False cr(1) fl quiet_untouched[OF q2 cr(2)] quiet_measured[OF q2 cr(3)] by simp
      qed
    next
      case (Inr c)
      note ok = collect_succeeds[OF Inr]
      obtain t3 st3 where now3: "now_in st2 = (t3, st3)" by fastforce
      have "quiet st2 st3" using quiet_now[of st2] now3 by simp
      then have q3: "quiet st (emit_run run ''collect'' ''info'' d el st3)" for d el
        using q2 quiet_emit quiet_trans by blast
      from ok Inr announced(1) assms have fl: "fl = Goes_on (c, millis t3 t0)"
        "st' = emit_run run ''collect'' ''info'' (Some [(''count'', JInt (int (length (cr_items c)))),
           (''metadata'', JObj (shown_metadata env c))]) (Some (millis t3 t0)) st3"
        by (simp_all add: collect_step_def now ann cur now3 Let_def)
      show thesis by (rule got[OF fl(1) _ Inr]) (simp add: fl(2) q3)
    qed
  qed
qed

text \<open>A failure of the sink, as it is measured: every collected item counts as rejected.\<close>

definition write_failure :: "('c, 'a) pipe_env \<Rightarrow> nat \<Rightarrow> int \<Rightarrow> exn \<Rightarrow> measured" where
  "write_failure env n elapsed e = measured_failure (int n) elapsed None (Some (map_exception (Some e)))
     [(''stage'', JStr ''store''), (''error'', JStr (se_text (pe_sinks env) e)),
      (''error_type'', JStr (effective_error_type e))]"

definition written_to :: "write_db \<Rightarrow> 'c pipe_state \<Rightarrow> 'c pipe_state \<Rightarrow> bool" where
  "written_to db st st' \<longleftrightarrow> untouched (st\<lparr>pp_write := db\<rparr>) st' \<and> pp_notify st' = pp_notify st"

lemma write_step_cases:
  assumes "write_step env sink ctx run source c elapsed st = (fl, st')"
  obtains
    (transient) e db where "fl = Ends (Inl e)" "is_retryable (Some (effective_error_type e))"
      "write_batch (pe_sinks env) (active_sink sink source) ctx (cr_items c) (pp_write st) = (Inl e, db)"
      "written_to db st st'" "db_measurements (pp_control st') = db_measurements (pp_control st)"
  | (failed) e db where
      "fl = Ends (Inr (failed_result (ds_id source) (length (cr_items c)) (Some (se_text (pe_sinks env) e)) []))"
      "write_batch (pe_sinks env) (active_sink sink source) ctx (cr_items c) (pp_write st) = (Inl e, db)"
      "\<not> is_retryable (Some (effective_error_type e))" "written_to db st st'"
      "measured_once (ds_id source) run (\<lambda>_. write_failure env (length (cr_items c)) elapsed e) st st'"
  | (written) w db where "fl = Goes_on w"
      "write_batch (pe_sinks env) (active_sink sink source) ctx (cr_items c) (pp_write st) = (Inr w, db)"
      "written_to db st st'" "db_measurements (pp_control st') = db_measurements (pp_control st)"
proof -
  obtain res db where w: "write_batch (pe_sinks env) (active_sink sink source) ctx (cr_items c) (pp_write st) = (res, db)"
    by fastforce
  let ?st = "st\<lparr>pp_write := db\<rparr>"
  show thesis
  proof (cases res)
    case (Inl e)
    let ?n = "length (cr_items c)"
    define ev where "ev = emit_run run ''store'' ''error'' (Some [(''error'', JStr (se_text (pe_sinks env) e)),
      (''error_type'', JStr (effective_error_type e))]) None ?st"
    have ev: "written_to db st ev" "db_measurements (pp_control ev) = db_measurements (pp_control st)"
      by (simp_all add: ev_def written_to_def untouched_def frame_simps)
    show thesis
    proof (cases "is_retryable (Some (effective_error_type e))")
      case True
      then have "fl = Ends (Inl e)" "st' = ev"
        using assms w Inl by (simp_all add: write_step_def write_raised_def ev_def Let_def)
      with transient[of e db] True w Inl ev show thesis by simp
    next
      case False
      have fl: "fl = Ends (Inr (failed_result (ds_id source) ?n (Some (se_text (pe_sinks env) e)) []))"
        "st' = (case run of None \<Rightarrow> ev
           | Some rid \<Rightarrow> record_measurement (ds_id source) rid (write_failure env ?n elapsed e) ev)"
        using assms w Inl False
        by (cases run; simp add: write_step_def write_raised_def write_failure_def ev_def Let_def)+
      have "written_to db st st'" using ev(1)
        by (simp add: fl(2) written_to_def untouched_def frame_simps split: option.splits)
      moreover have "measured_once (ds_id source) run (\<lambda>_. write_failure env ?n elapsed e) st st'"
        using record_measurement_row[of "ds_id source" "the run" "write_failure env ?n elapsed e" ev] ev(2)
        by (cases run) (simp_all add: fl(2) measured_once_def)
      ultimately show thesis using failed[of e db] fl(1) w Inl False by simp
    qed
  next
    case (Inr v)
    have fl: "fl = Goes_on v" "st' = write_events run v ?st" using assms w Inr by (simp_all add: write_step_def)
    have "written_to db st st'" "db_measurements (pp_control st') = db_measurements (pp_control st)"
      by (simp_all add: fl(2) write_events_def written_to_def untouched_def frame_simps Let_def)
    with written[of v db] fl(1) w Inr show thesis by simp
  qed
qed

section \<open>After the write\<close>

lemma set_task_status_frame [frame_simps]:
  "db_sources (set_task_status t s db) = db_sources db" "db_schedules (set_task_status t s db) = db_schedules db"
  "db_measurements (set_task_status t s db) = db_measurements db" "db_runs (set_task_status t s db) = db_runs db"
  "db_events (set_task_status t s db) = db_events db"
  by (simp_all add: set_task_status_def)

text \<open>What the last steps leave alone.\<close>

definition sources_kept :: "'c pipe_state \<Rightarrow> 'c pipe_state \<Rightarrow> bool" where
  "sources_kept st st' \<longleftrightarrow> db_sources (pp_control st') = db_sources (pp_control st) \<and>
     db_schedules (pp_control st') = db_schedules (pp_control st) \<and> db_runs (pp_control st') = db_runs (pp_control st)"

definition same_readings :: "'c pipe_state \<Rightarrow> 'c pipe_state \<Rightarrow> bool" where
  "same_readings st st' \<longleftrightarrow> sources_kept st st' \<and> pp_cursors st' = pp_cursors st \<and>
     db_measurements (pp_control st') = db_measurements (pp_control st)"

lemma same_readings_trans [trans]: "same_readings a b \<Longrightarrow> same_readings b c \<Longrightarrow> same_readings a c"
  by (simp add: same_readings_def sources_kept_def)

lemma same_readings_simple [intro]:
  "same_readings st st"
  "same_readings st (emit_run run s l d e st)" "same_readings st (snd (now_in st))"
  "same_readings st (st\<lparr>pp_notify := n\<rparr>)" "same_readings st (st\<lparr>pp_write := w\<rparr>)"
  "same_readings st (st\<lparr>pp_control := set_task_status t q (pp_control st)\<rparr>)"
  by (simp_all add: same_readings_def sources_kept_def frame_simps)

lemma enrich_batch_quiet: "same_readings st (snd (snd (enrich_batch env t run cfg resolve rs st)))"
  by (simp add: enrich_batch_def same_readings_def sources_kept_def frame_simps Let_def
      split: sum.splits prod.splits)

lemma ai_step_quiet: "same_readings st (snd (snd (ai_step env t run en agent source rs st)))"
  by (auto simp: ai_step_def intro: enrich_batch_quiet split: option.splits list.splits)

lemma enrich_batch_length: "length (fst (snd (enrich_batch env t run cfg resolve rs st))) = length rs"
proof (cases "process_with_ai (pe_processors env) (pe_providers env) rs (Some cfg) resolve")
  case (Inr nr)
  obtain n rs' where nr: "nr = (n, rs')" by fastforce
  have "length rs' = length rs"
    using process_with_ai_outcome[OF Inr[unfolded nr]] by (auto simp: contract_invalid_def)
  with Inr nr show ?thesis by (simp add: enrich_batch_def Let_def)
qed (simp add: enrich_batch_def Let_def)

lemma ai_step_length: "length (fst (snd (ai_step env t run en agent source rs st))) = length rs"
  by (simp add: ai_step_def enrich_batch_length split: option.splits list.splits)

lemma notify_step_quiet: "same_readings st (snd (notify_step env run en source rs n st))"
  by (simp add: notify_step_def case_prod_unfold Let_def same_readings_def sources_kept_def frame_simps)

lemma cursor_step_frame:
  "sources_kept st (snd (cursor_step env run c st))"
  "db_measurements (pp_control (snd (cursor_step env run c st))) = db_measurements (pp_control st)"
  by (simp_all add: cursor_step_def sources_kept_def case_prod_unfold Let_def frame_simps
      split: option.splits save_phase.splits)

text \<open>The pending cursor among other savers.\<close>

lemma cursor_step_among:
  assumes "good_rows (pp_cursors st)" and "others_save (pe_race env)" and "cl_pending c = Some cur"
    and "cursor_step env run c st = (adv, st')"
  shows "\<exists>db1. by_others (pe_race env) (pp_cursors st) db1 \<and>
    (cursors (pp_cursors st') = (cursors db1)(cl_cursor_source c \<mapsto> cur) \<and>
       adv = (db_load (pe_blank env) db1 (cl_cursor_source c) \<noteq> Some cur) \<or>
     pp_cursors st' = db1 \<and> \<not> adv \<and>
       generation (pp_cursors st) (cl_cursor_source c) + attempts \<le> generation db1 (cl_cursor_source c))"
proof -
  let ?s = "cl_cursor_source c"
  obtain phase db where save: "save_among (pe_race env) (pe_blank env) ?s cur (2 * attempts) (pp_cursors st) (Reading 0) = (phase, db)"
    by fastforce
  have "save_ended (pe_race env) (pe_blank env) ?s cur (generation (pp_cursors st) ?s) (pp_cursors st) phase db"
    by (rule save_among_ended[OF assms(2,1) _ _ _ _ save])
      (simp_all add: fresh_enough_def paced_def saver_at_def moving_def steps_left_def attempts_def)
  moreover have "pp_cursors st' = db" "adv = (case phase of Saved r \<Rightarrow> cm_advanced r | _ \<Rightarrow> False)"
    using assms(4) by (auto simp: cursor_step_def assms(3) save Let_def frame_simps split: save_phase.splits)
  ultimately show ?thesis by (auto simp: save_ended_def split: save_phase.splits)
qed

definition successful :: "'c collected \<Rightarrow> sink_result \<Rightarrow> bool \<Rightarrow> measured \<Rightarrow> bool" where
  "successful c w advanced m \<longleftrightarrow> ms_accepted m = int (length (sk_records w)) \<and> ms_duplicates m = sk_duplicates w \<and>
     ms_rejected m = sk_rejected w \<and> ms_cursor_advanced m = advanced \<and> ms_error_type m = None \<and>
     ms_error_kind m = None"

lemma complete_step_frame:
  "sources_kept st (complete_step env run source n w rs el d adv st)"
  "pp_cursors (complete_step env run source n w rs el d adv st) = pp_cursors st"
  by (simp_all add: complete_step_def sources_kept_def case_prod_unfold Let_def frame_simps split: option.splits)

lemma complete_step_measures:
  assumes "length rs = length (sk_records w)"
  shows "\<exists>m. successful c w adv m \<and>
    measured_once (ds_id source) run (\<lambda>_. m) st (complete_step env run source n w rs el d adv st)"
proof (cases run)
  case None
  let ?m = "(measured_failure 0 0 None None [])\<lparr>ms_accepted := int (length (sk_records w)),
      ms_duplicates := sk_duplicates w, ms_rejected := sk_rejected w, ms_cursor_advanced := adv\<rparr>"
  show ?thesis
    by (rule exI[of _ ?m]) (simp add: None successful_def measured_failure_def measured_once_def complete_step_def)
next
  case (Some rid)
  define st1 where "st1 = emit_run run ''complete'' ''info'' (Some [(''duration_ms'', JInt d),
      (''collected'', JInt (int n)), (''stored'', JInt (int (length rs))), (''skipped'', JInt (sk_duplicates w))]) None st"
  obtain t st2 where now: "now_in st1 = (t, st2)" by fastforce
  have same: "db_measurements (pp_control st2) = db_measurements (pp_control st)"
    using now_in_frame(6)[of st1] unfolding now snd_conv by (simp add: st1_def frame_simps)
  let ?m = "completion env n w rs el d adv t"
  have "complete_step env run source n w rs el d adv st = record_measurement (ds_id source) rid ?m st2"
    using now by (simp add: complete_step_def st1_def Some Let_def)
  moreover have "successful c w adv ?m" using assms by (simp add: successful_def completion_def)
  ultimately show ?thesis
    by (intro exI[of _ ?m]) (simp add: Some measured_once_def same[symmetric] record_measurement_row)
qed

lemma after_write_result:
  assumes "after_write env task run ai notify agent source t0 c el w st = (r, st')"
  shows "px_success r" "px_source_id r = ds_id source" "px_collected r = length (cr_items c)"
    "px_stored r = length (sk_records w)" "px_skipped r = sk_duplicates w" "sources_kept st st'"
    "pp_cursors st' = pp_cursors (snd (cursor_step env run c st))"
    "\<exists>m. successful c w (fst (cursor_step env run c st)) m \<and> measured_once (ds_id source) run (\<lambda>_. m) st st'"
proof -
  obtain adv st1 where cur: "cursor_step env run c st = (adv, st1)" by fastforce
  obtain k rs st2 where ai: "ai_step env task run ai agent source (sk_records w) st1 = (k, rs, st2)"
    by (metis prod_cases3)
  obtain sent st3 where nt: "notify_step env run notify source rs k st2 = (sent, st3)" by fastforce
  obtain t4 st4 where now: "now_in st3 = (t4, st4)" by fastforce
  have len: "length rs = length (sk_records w)"
    using ai_step_length[where env = env and t = task and run = run and en = ai and agent = agent
        and source = source and rs = "sk_records w" and st = st1] by (simp add: ai)
  have q: "same_readings st1 st4"
    using ai_step_quiet[where env = env and t = task and run = run and en = ai and agent = agent
        and source = source and rs = "sk_records w" and st = st1]
      notify_step_quiet[where env = env and run = run and en = notify and source = source and rs = rs
        and n = k and st = st2] same_readings_simple(3)[of st3]
    by (simp add: ai nt now same_readings_def sources_kept_def)
  let ?d = "millis t4 t0"
  have eq: "r = \<lparr>px_success = True, px_source_id = ds_id source, px_collected = length (cr_items c),
       px_stored = length rs, px_skipped = sk_duplicates w, px_ai_processed = k,
       px_notifications_sent = sent, px_error = None, px_duration_ms = ?d,
       px_metadata = shadow_fields w (cr_metadata c)\<rparr>"
    "st' = complete_step env run source (length (cr_items c)) w rs el ?d adv st4"
    using assms by (simp_all add: after_write_def cur ai nt now Let_def)
  show "px_success r" "px_source_id r = ds_id source" "px_collected r = length (cr_items c)"
    "px_stored r = length (sk_records w)" "px_skipped r = sk_duplicates w"
    by (simp_all add: eq(1) len)
  note cs = cursor_step_frame[where st = st and env = env and run = run and c = c, unfolded cur snd_conv]
  show "sources_kept st st'" "pp_cursors st' = pp_cursors (snd (cursor_step env run c st))"
    using cs(1) q complete_step_frame[where st = st4 and env = env and run = run and source = source and w = w
        and n = "length (cr_items c)" and rs = rs and el = el and d = ?d and adv = adv]
    by (simp_all add: eq(2) cur sources_kept_def same_readings_def)
  obtain m where m: "successful c w adv m" "measured_once (ds_id source) run (\<lambda>_. m) st4 st'"
    using complete_step_measures[OF len, of c adv source run st4 env "length (cr_items c)" el ?d] eq(2) by auto
  have "db_measurements (pp_control st4) = db_measurements (pp_control st)"
    using cs(2) q by (simp add: same_readings_def)
  with m show "\<exists>m. successful c w (fst (cursor_step env run c st)) m \<and> measured_once (ds_id source) run (\<lambda>_. m) st st'"
    by (intro exI[of _ m]) (simp add: cur measured_once_def split: option.splits)
qed

section \<open>The ways a run can go\<close>

text \<open>The batch a run collected, and what its sink did with it.\<close>

definition collected_batch :: "('c, 'a) pipe_env \<Rightarrow> data_source \<Rightarrow> 'c pipe_state \<Rightarrow> 'c collected \<Rightarrow> bool" where
  "collected_batch env source st c \<longleftrightarrow>
     (\<exists>p. collect (pe_blank env) (se_channels (pe_sinks env)) (pe_auth env) (pp_cursors st) source p = Inr c)"

definition sink_did ::
  "('c, 'a) pipe_env \<Rightarrow> item_sink option \<Rightarrow> string \<Rightarrow> data_source \<Rightarrow> string option \<Rightarrow> collection_lineage option \<Rightarrow>
   'c pipe_state \<Rightarrow> 'c collected \<Rightarrow> (exn + sink_result) \<times> write_db"
where
  "sink_did env sink task source run_id lineage st c =
     write_batch (pe_sinks env) (active_sink sink source)
       (new_context task (ds_id source) (ds_channel_type source) run_id lineage) (cr_items c) (pp_write st)"

definition setup_error :: "('c, 'a) pipe_env \<Rightarrow> data_source \<Rightarrow> json dict \<Rightarrow> string option \<Rightarrow> exn \<Rightarrow> bool" where
  "setup_error env source params run_id e \<longleftrightarrow> bind_endpoint env source params = Inl e \<or>
     (run_of run_id \<noteq> None \<and> (\<exists>p. collect_detail env source p = Inl e))"

lemma run_pipeline_cases:
  assumes "run_pipeline env task source params ai notify agent run_id sink lineage st = (r, st')"
  obtains
    (early) e where "r = Inl e" "setup_error env source params run_id e" "quiet st st'"
  | (transient) e where "r = Inl e" "is_retryable (Some (effective_error_type e))" "quiet st st'"
  | (collect_failed) e where "r = Inr (failed_result (ds_id source) 0 (Some (se_text (pe_sinks env) e)) [])"
      "untouched st st'" "measured_once (ds_id source) (run_of run_id) (collect_failure env e) st st'"
  | (write_transient) c e db where "r = Inl e" "is_retryable (Some (effective_error_type e))"
      "collected_batch env source st c" "sink_did env sink task source run_id lineage st c = (Inl e, db)"
      "written_to db st st'" "db_measurements (pp_control st') = db_measurements (pp_control st)"
  | (write_failed) c e db el where
      "r = Inr (failed_result (ds_id source) (length (cr_items c)) (Some (se_text (pe_sinks env) e)) [])"
      "collected_batch env source st c" "sink_did env sink task source run_id lineage st c = (Inl e, db)"
      "written_to db st st'"
      "measured_once (ds_id source) (run_of run_id) (\<lambda>_. write_failure env (length (cr_items c)) el e) st st'"
  | (completed) c w db el t0 st3 res where "r = Inr res" "collected_batch env source st c"
      "sink_did env sink task source run_id lineage st c = (Inr w, db)" "written_to db st st3"
      "db_measurements (pp_control st3) = db_measurements (pp_control st)"
      "after_write env task (run_of run_id) ai notify agent source t0 c el w st3 = (res, st')"
proof -
  obtain t0 st1 where now: "now_in st = (t0, st1)" by fastforce
  have q1: "quiet st st1" using quiet_now[of st] now by simp
  show thesis
  proof (cases "bind_endpoint env source params")
    case (Inl e)
    with assms now q1 early[of e] show thesis by (simp add: run_pipeline_def setup_error_def Let_def)
  next
    case (Inr params')
    obtain fl st2 where col: "collect_step env task (run_of run_id) notify source params' st1 = (fl, st2)" by fastforce
    from col show thesis
    proof (cases rule: collect_step_cases)
      case (detail e p)
      with assms now Inr col early[of e] quiet_trans[OF q1 detail(4)] show thesis
        by (auto simp: run_pipeline_def setup_error_def Let_def)
    next
      case (transient e)
      with assms now Inr col that(2)[of e] quiet_trans[OF q1 transient(3)] show thesis
        by (simp add: run_pipeline_def Let_def)
    next
      case (failed e)
      have "r = Inr (failed_result (ds_id source) 0 (Some (se_text (pe_sinks env) e)) [])" "st' = st2"
        using assms now Inr col failed(1) by (simp_all add: run_pipeline_def Let_def)
      with collect_failed[of e] quiet_untouched[OF q1 failed(3)] quiet_measured[OF q1 failed(4)] show thesis by simp
    next
      case (got c el p)
      have same: "pp_cursors st1 = pp_cursors st" "pp_write st2 = pp_write st"
        using q1 got(2) by (simp_all add: quiet_def untouched_def)
      have batch: "collected_batch env source st c" using got(3) by (auto simp: collected_batch_def same(1))
      have q2: "quiet st st2" by (rule quiet_trans[OF q1 got(2)])
      let ?ctx = "new_context task (ds_id source) (ds_channel_type source) run_id lineage"
      obtain fl3 st3 where wr: "write_step env sink ?ctx (run_of run_id) source c el st2 = (fl3, st3)" by fastforce
      have r: "(r, st') = (case fl3 of Ends x \<Rightarrow> (x, st3) | Goes_on w \<Rightarrow>
          let (x, st4) = after_write env task (run_of run_id) ai notify agent source t0 c el w st3 in (Inr x, st4))"
        using assms by (simp add: run_pipeline_def now Inr col got(1) wr Let_def split: flow.splits)
      have wt: "written_to db st st3" if "written_to db st2 st3" for db
        using that q2 by (simp add: written_to_def quiet_def untouched_def)
      have ms: "db_measurements (pp_control st2) = db_measurements (pp_control st)" using q2 by (simp add: quiet_def)
      from wr show thesis
      proof (cases rule: write_step_cases)
        case (transient e db)
        with r wt ms show thesis
          by (intro write_transient[of e c db]) (simp_all add: batch sink_did_def same(2))
      next
        case (failed e db)
        have "measured_once (ds_id source) (run_of run_id) (\<lambda>_. write_failure env (length (cr_items c)) el e) st st3"
          by (rule quiet_measured[OF q2 failed(5)])
        with failed r wt show thesis
          by (intro write_failed[of c e db el]) (simp_all add: batch sink_did_def same(2))
      next
        case (written w db)
        obtain res st4 where aw: "after_write env task (run_of run_id) ai notify agent source t0 c el w st3 = (res, st4)"
          by fastforce
        with r written(1) have "r = Inr res" "st' = st4" by simp_all
        with written wt ms aw show thesis
          by (intro that(6)[of res c w db st3 t0 el]) (simp_all add: batch sink_did_def same(2))
      qed
    qed
  qed
qed

section \<open>Properties\<close>

text \<open>The pages behind a batch, from the persisted cursor on.\<close>

definition batch_of_pages ::
  "('c, 'a) pipe_env \<Rightarrow> data_source \<Rightarrow> 'c cursor_db \<Rightarrow> 'c collected \<Rightarrow> bool"
where
  "batch_of_pages env source cdb c \<longleftrightarrow>
     (\<exists>ch a p rs. se_channels (pe_sinks env) (ds_channel_type source) = Some ch \<and> rs \<noteq> [] \<and>
        pages_follow ch source p a 0 (start_cursor (pe_blank env) ch cdb (ds_id source)) rs \<and>
        cr_items c = concat (map fr_items rs) \<and> cl_cursor_source c = ds_id source \<and>
        cl_pending c = (if cap_incremental (ch_capabilities ch)
          then cursor_after (start_cursor (pe_blank env) ch cdb (ds_id source)) rs else None))"

lemma collected_batch_pages:
  assumes "collected_batch env source st c"
  shows "batch_of_pages env source (pp_cursors st) c"
proof -
  obtain p where p: "collect (pe_blank env) (se_channels (pe_sinks env)) (pe_auth env) (pp_cursors st) source p = Inr c"
    using assms by (auto simp: collected_batch_def)
  show ?thesis
    using collect_chain[OF p] unfolding batch_of_pages_def by (elim exE conjE, intro exI conjI) assumption+
qed

text \<open>
  C7: the persisted cursor moves only with data that landed. A run that raises or fails leaves the
  cursor table alone. A run that succeeds has collected a chain of pages that starts at the persisted
  cursor and handed all their items to its sink, which accepted them; without a pending cursor (a channel
  that is not incremental) the table stays as it is. With one, the newest cursor of those pages is stored
  for the source, and nothing else changed, in the table as concurrent savers have left it, or the save,
  whose failure is not fatal, has written nothing; it gives up only after concurrent savers have changed
  the source's cursor at least three times. Whoever else writes the table is assumed to save through it:
  there is one row per source, which stays, and changes only together with its version.
\<close>

theorem cursor_moves_with_data:
  assumes "run_pipeline env task source params ai notify agent run_id sink lineage st = (r, st')"
    and "good_rows (pp_cursors st)" and "others_save (pe_race env)"
  shows "case r of
      Inl e \<Rightarrow> pp_cursors st' = pp_cursors st
    | Inr res \<Rightarrow>
        if \<not> px_success res then pp_cursors st' = pp_cursors st
        else \<exists>c w db. batch_of_pages env source (pp_cursors st) c \<and>
          sink_did env sink task source run_id lineage st c = (Inr w, db) \<and>
          px_collected res = length (cr_items c) \<and> px_stored res = length (sk_records w) \<and>
          (case cl_pending c of
             None \<Rightarrow> pp_cursors st' = pp_cursors st
           | Some cur \<Rightarrow> \<exists>others. by_others (pe_race env) (pp_cursors st) others \<and>
               (cursors (pp_cursors st') = (cursors others)(ds_id source \<mapsto> cur) \<or>
                pp_cursors st' = others \<and>
                generation (pp_cursors st) (ds_id source) + 3 \<le> generation others (ds_id source)))"
  using assms(1)
proof (cases rule: run_pipeline_cases)
  case (completed c w db el t0 st3 res)
  note aw = after_write_result[OF completed(6)]
  have same: "pp_cursors st3 = pp_cursors st" using completed(4) by (simp add: written_to_def untouched_def)
  have pages: "batch_of_pages env source (pp_cursors st) c" by (rule collected_batch_pages[OF completed(2)])
  then have src: "cl_cursor_source c = ds_id source" by (auto simp: batch_of_pages_def)
  obtain adv st4 where step: "cursor_step env (run_of run_id) c st3 = (adv, st4)" by fastforce
  have st': "pp_cursors st' = pp_cursors st4" using aw(7) by (simp add: step)
  have "case cl_pending c of
      None \<Rightarrow> pp_cursors st' = pp_cursors st
    | Some cur \<Rightarrow> \<exists>others. by_others (pe_race env) (pp_cursors st) others \<and>
        (cursors (pp_cursors st') = (cursors others)(ds_id source \<mapsto> cur) \<or>
         pp_cursors st' = others \<and>
         generation (pp_cursors st) (ds_id source) + 3 \<le> generation others (ds_id source))"
  proof (cases "cl_pending c")
    case None
    then show ?thesis using step st' same by (simp add: cursor_step_def)
  next
    case (Some cur)
    from cursor_step_among[OF _ assms(3) Some step] assms(2) Some show ?thesis
      unfolding same src st' attempts_def by auto
  qed
  then show ?thesis using completed(1,3) aw(1,3,4) pages by auto
qed (auto simp: quiet_def untouched_def written_to_def failed_result_def)

text \<open>
  C11: a run is measured exactly once, whatever becomes of it, unless it raises to be retried: then it
  leaves no measurement. A success is measured with what it stored and skipped and without an error;
  a failure with no accepted item, every collected item rejected, and one error kind.
\<close>

theorem run_measured_once:
  assumes "run_pipeline env task source params ai notify agent (Some rid) sink lineage st = (r, st')"
    and "rid \<noteq> []"
  shows "case r of
      Inl e \<Rightarrow> db_measurements (pp_control st') = db_measurements (pp_control st)
    | Inr res \<Rightarrow> \<exists>row. db_measurements (pp_control st') = db_measurements (pp_control st) @ [row] \<and>
        mr_source_id row = ds_id source \<and> mr_run_id row = rid \<and>
        (if px_success res
         then mr_accepted row = int (px_stored res) \<and> mr_duplicates row = px_skipped res \<and> mr_error_kinds row = []
         else mr_accepted row = 0 \<and> mr_rejected row = int (px_collected res) \<and>
           (\<exists>kind. mr_error_kinds row = [(error_kind_value kind, 1)]))"
proof -
  have run: "run_of (Some rid) = Some rid" using assms(2) by (simp add: run_of_def)
  note fields = row_of_def failed_result_def measured_failure_def error_kinds_payload_def
  from assms(1) show ?thesis
  proof (cases rule: run_pipeline_cases)
    case (collect_failed e)
    then show ?thesis by (fastforce simp: measured_once_def run collect_failure_def fields)
  next
    case (write_failed c e db el)
    then show ?thesis by (fastforce simp: measured_once_def run write_failure_def fields)
  next
    case (completed c w db el t0 st3 res)
    note aw = after_write_result[OF completed(6)]
    obtain m where m: "successful c w (fst (cursor_step env (run_of (Some rid)) c st3)) m"
      "measured_once (ds_id source) (run_of (Some rid)) (\<lambda>_. m) st3 st'" using aw(8) by blast
    then obtain row where "row_of (ds_id source) rid m row"
      "db_measurements (pp_control st') = db_measurements (pp_control st3) @ [row]"
      by (auto simp: measured_once_def run)
    with m(1) completed(1,5) aw(1,4,5) show ?thesis by (auto simp: successful_def fields)
  qed (simp_all add: quiet_def)
qed

text \<open>
  A run never edits a data source. In particular no run pauses its source, although the branch
  for a captcha wall would: collecting through the runner raises every failure, so the branch on a
  returned failure is never taken, and a captcha is handled as any permanent fault.
\<close>

lemma run_never_edits_sources:
  "db_sources (pp_control (snd (run_pipeline env task source params ai notify agent run_id sink lineage st))) =
   db_sources (pp_control st)"
proof -
  obtain r st' where run: "run_pipeline env task source params ai notify agent run_id sink lineage st = (r, st')"
    by fastforce
  then have "db_sources (pp_control st') = db_sources (pp_control st)"
  proof (cases rule: run_pipeline_cases)
    case (completed c w db el t0 st3 res)
    with after_write_result(6)[OF completed(6)] show ?thesis
      by (simp add: written_to_def untouched_def sources_kept_def)
  qed (simp_all add: quiet_def untouched_def written_to_def)
  with run show ?thesis by simp
qed

text \<open>
  What a run raises is a transient fault, which its caller retries, or comes from preparing it:
  binding a browser, or the detail of the first event, which is built outside of any handler.
\<close>

lemma only_transient_errors_raise:
  assumes "run_pipeline env task source params ai notify agent run_id sink lineage st = (Inl e, st')"
  shows "is_retryable (Some (effective_error_type e)) = False \<Longrightarrow> setup_error env source params run_id e"
  using assms by (cases rule: run_pipeline_cases) simp_all

section \<open>A run of the paged channel\<close>

text \<open>Another saver inserts a cursor between the read and the insert of the run's first attempt.\<close>

definition demo_env :: "(nat, unit) pipe_env" where
  "demo_env =
     \<lparr>pe_sinks = flaky_env\<lparr>se_channels := (\<lambda>t. if t = ''paged'' then Some paged_channel else None)\<rparr>,
      pe_auth = (\<lambda>_ _. Inr ()), pe_binding = (\<lambda>_. Inr None), pe_blank = (\<lambda>_. False), pe_cursor_json = (\<lambda>n. JInt (int n)),
      pe_race = (\<lambda>n d. if n = 4 then snd (db_save (\<lambda>_. False) ''s'' 1 d) else d), pe_race_text = [], pe_processors = (\<lambda>_. None), pe_providers = [],
      pe_notifiers = (\<lambda>_. None), pe_parse_rfc822 = (\<lambda>_. None), pe_parse_iso = (\<lambda>_. None), pe_py_str = (\<lambda>_. []),
      pe_named_options = (\<lambda>_ _. None), pe_settings = default_settings\<rparr>"

definition demo_state :: "nat pipe_state" where
  "demo_state = \<lparr>pp_control = empty_db, pp_write = flaky_db, pp_cursors = \<lparr>cd_rows = [], cd_next = 0\<rparr>,
     pp_notify = webhook_rules\<rparr>"

lemma demo_collect:
  "collect (pe_blank demo_env) (se_channels (pe_sinks demo_env)) (pe_auth demo_env) (pp_cursors demo_state) paged_source [] =
     Inr paged_collected"
  using paged_collect by (simp add: collect_def demo_env_def demo_state_def paged_source_def)

lemma demo_save:
  "snd (save_among (pe_race demo_env) (pe_blank demo_env) ''s'' 2 (2 * attempts) (pp_cursors demo_state) (Reading 0)) =
     \<lparr>cd_rows = [\<lparr>sc_id = 0, sc_source_id = ''s'', sc_cursor = 2, sc_version = 1\<rparr>], cd_next = 1\<rparr>"
proof -
  have "2 * attempts = Suc (Suc (Suc (Suc (Suc (Suc 0)))))" by (simp add: attempts_def)
  show ?thesis
    unfolding \<open>2 * attempts = Suc (Suc (Suc (Suc (Suc (Suc 0)))))\<close>
    by (simp add: demo_env_def demo_state_def moving_def db_save_def select_row_def insert_row_def retry_def attempts_def
        versioned_update_def row_matches_def bump_row_def stored_cursor_def Let_def)
qed

lemma demo_run:
  obtains res st' where
    "run_pipeline demo_env ''t'' paged_source [] True True None (Some ''r'') None None demo_state = (Inr res, st')"
    "px_success res"
    "pp_cursors st' = \<lparr>cd_rows = [\<lparr>sc_id = 0, sc_source_id = ''s'', sc_cursor = 2, sc_version = 1\<rparr>], cd_next = 1\<rparr>"
proof -
  let ?run = "Some ''r''" and ?ctx = "new_context ''t'' ''s'' ''paged'' (Some ''r'') None"
  obtain t0 st1 where now: "now_in demo_state = (t0, st1)" by fastforce
  obtain fl st2 where col: "collect_step demo_env ''t'' ?run True paged_source [] st1 = (fl, st2)" by fastforce
  have cur: "pp_cursors st1 = pp_cursors demo_state" using now_in_frame(2)[of demo_state] by (simp add: now)
  obtain t1 st1' where now1: "now_in st1 = (t1, st1')" by fastforce
  have cur': "pp_cursors st1' = pp_cursors demo_state" using now_in_frame(2)[of st1] by (simp add: now1 cur)
  have det: "collect_detail demo_env paged_source [] = Inr [(''channel_type'', JStr ''paged''), (''params'', JObj [])]"
    and chan: "ds_channel_type paged_source = ''paged''" and sid: "ds_id paged_source = ''s''"
    by (simp_all add: collect_detail_def paged_source_def)
  have ok: "cr_success paged_collected" by (simp add: paged_collected_def)
  have "\<exists>el. fl = Goes_on (paged_collected, el)"
    using col ok by (auto simp: collect_step_def now1 announce_collect_def chan det frame_simps cur' demo_collect
        case_prod_unfold Let_def)
  then obtain el where fl: "fl = Goes_on (paged_collected, el)" by blast
  obtain l db0 where l: "legacy_write (pe_sinks demo_env) odp_off ?ctx (cr_items paged_collected) (pp_write st2) = (Inr l, db0)"
    by (rule legacy_legE)
  have "active_sink None paged_source = LegacyDbSink odp_off"
    by (simp add: active_sink_def select_sink_def paged_source_def strategy_defs)
  then have wr: "\<exists>st3. write_step demo_env None ?ctx ?run paged_source paged_collected el st2 = (Goes_on l, st3)"
    by (simp add: write_step_def l)
  then obtain st3 where wr: "write_step demo_env None ?ctx ?run paged_source paged_collected el st2 = (Goes_on l, st3)"
    by blast
  obtain res st4 where aw: "after_write demo_env ''t'' ?run True True None paged_source t0 paged_collected el l st3 = (res, st4)"
    by fastforce
  have "bind_endpoint demo_env paged_source [] = Inr []"
    by (simp add: bind_endpoint_def demo_env_def paged_source_def paged_channel_def default_capabilities_def)
  then have "run_pipeline demo_env ''t'' paged_source [] True True None (Some ''r'') None None demo_state = (Inr res, st4)"
    by (simp add: run_pipeline_def now run_of_def col fl chan sid wr aw Let_def)
  moreover have "pp_cursors st' = pp_cursors demo_state" if "(fl, st') = (fl, st2)" for st'
    using that col cur' by (auto simp: collect_step_def now1 announce_collect_def chan det frame_simps demo_collect
        case_prod_unfold Let_def ok)
  then have "pp_cursors st2 = pp_cursors demo_state" by simp
  then have c3: "pp_cursors st3 = pp_cursors demo_state"
    using wr by (auto simp: write_step_def write_events_def frame_simps Let_def split: sum.splits prod.splits if_splits)
  have "pp_cursors (snd (cursor_step demo_env ?run paged_collected st3)) =
      snd (save_among (pe_race demo_env) (pe_blank demo_env) ''s'' 2 (2 * attempts) (pp_cursors demo_state) (Reading 0))"
    by (simp add: cursor_step_def c3 paged_collected_def case_prod_unfold Let_def frame_simps split: save_phase.splits)
  ultimately show thesis using after_write_result(1,7)[OF aw] that demo_save by simp
qed

theorem cursor_moves_with_data_witness:
  "\<exists>res st' c others. run_pipeline demo_env ''t'' paged_source [] True True None (Some ''r'') None None demo_state = (Inr res, st') \<and>
     cursors (pp_cursors demo_state) ''s'' = None \<and> cursors (pp_cursors st') ''s'' = Some 2 \<and>
     batch_of_pages demo_env paged_source (pp_cursors demo_state) c \<and> cl_pending c = Some 2 \<and>
     by_others (pe_race demo_env) (pp_cursors demo_state) others \<and>
     cursors (pp_cursors st') = (cursors others)(''s'' \<mapsto> 2)"
proof -
  obtain res st' where run: "run_pipeline demo_env ''t'' paged_source [] True True None (Some ''r'') None None demo_state = (Inr res, st')"
    "px_success res" "pp_cursors st' = \<lparr>cd_rows = [\<lparr>sc_id = 0, sc_source_id = ''s'', sc_cursor = 2, sc_version = 1\<rparr>], cd_next = 1\<rparr>"
    by (rule demo_run)
  have sid: "ds_id paged_source = ''s''" by (simp add: paged_source_def)
  have "good_rows (pp_cursors demo_state)" by (simp add: demo_state_def good_rows_def)
  moreover have "others_save (pe_race demo_env)"
    using others_save_db_save[of "\<lambda>n. n = 4" "\<lambda>_. False" "\<lambda>_. ''s''" "\<lambda>_. 1"] by (simp add: demo_env_def)
  ultimately obtain c where c: "batch_of_pages demo_env paged_source (pp_cursors demo_state) c"
    "case cl_pending c of None \<Rightarrow> pp_cursors st' = pp_cursors demo_state
     | Some cur \<Rightarrow> \<exists>others. by_others (pe_race demo_env) (pp_cursors demo_state) others \<and>
         (cursors (pp_cursors st') = (cursors others)(''s'' \<mapsto> cur) \<or>
          pp_cursors st' = others \<and> generation (pp_cursors demo_state) ''s'' + 3 \<le> generation others ''s'')"
    using cursor_moves_with_data[OF run(1), unfolded sid] run(2) by auto
  have st': "cursors (pp_cursors st') ''s'' = Some 2" "generation (pp_cursors st') ''s'' = 2"
    "cursors (pp_cursors demo_state) ''s'' = None"
    by (simp_all add: run(3) cursors_def generation_def select_row_def demo_state_def)
  then obtain cur others where "cl_pending c = Some cur" "by_others (pe_race demo_env) (pp_cursors demo_state) others"
    "cursors (pp_cursors st') = (cursors others)(''s'' \<mapsto> cur)"
    using c(2) by (auto split: option.splits)
  moreover from this(3) have "cur = 2" using st'(1) by simp
  ultimately show ?thesis using run(1) c(1) st' by blast
qed

theorem run_measured_once_witness:
  "\<exists>row. db_measurements (pp_control (snd (run_pipeline demo_env ''t'' paged_source [] True True None (Some ''r'') None None demo_state))) = [row] \<and>
     mr_run_id row = ''r'' \<and> mr_error_kinds row = []"
proof -
  obtain res st' where run: "run_pipeline demo_env ''t'' paged_source [] True True None (Some ''r'') None None demo_state = (Inr res, st')"
    "px_success res" by (rule demo_run)
  show ?thesis using run_measured_once[OF run(1)] run by (auto simp: demo_state_def)
qed

text \<open>An OpenCLI source whose \<open>args\<close> is null.\<close>

definition null_args_source :: data_source where
  "null_args_source = paged_source\<lparr>ds_channel_type := ''opencli'', ds_channel_config := [(''args'', JNull)]\<rparr>"

lemma null_args_raise:
  "\<exists>st'. run_pipeline demo_env ''t'' null_args_source [] True True None (Some ''r'') None None demo_state =
     (Inl (Exn ''TypeError''), st')"
proof -
  have "bind_endpoint demo_env null_args_source [] = Inr []"
    by (simp add: bind_endpoint_def demo_env_def null_args_source_def)
  moreover have "collect_detail demo_env null_args_source [] = Inl (Exn ''TypeError'')"
    by (simp add: collect_detail_def null_args_source_def opencli_command_def dict_get_or_def dict_get_def)
  moreover have "ds_channel_type null_args_source = ''opencli''" by (simp add: null_args_source_def)
  ultimately show ?thesis
    by (simp add: run_pipeline_def run_of_def collect_step_def announce_collect_def case_prod_unfold Let_def)
qed

lemma only_transient_errors_raise_witness:
  "is_retryable (Some (effective_error_type (Exn ''TypeError''))) = False \<and>
   setup_error demo_env null_args_source [] (Some ''r'') (Exn ''TypeError'')"
proof -
  have no: "is_retryable (Some (effective_error_type (Exn ''TypeError''))) = False" by code_simp
  obtain st' where run: "run_pipeline demo_env ''t'' null_args_source [] True True None (Some ''r'') None None demo_state =
      (Inl (Exn ''TypeError''), st')" using null_args_raise by blast
  show ?thesis using only_transient_errors_raise[OF run no] no by simp
qed

end
