(* ===== verification/RateLimiting.thy ===== *)
theory RateLimiting
  imports CronText Normalizer
begin

text \<open>
  The shared HTTP client of channels (\<open>backend/pipeline/http_client.py\<close>): the token bucket
  every request waits on and the retry loop with its backoff. Times are seconds as exact
  rationals. \<open>float()\<close> on a string is the parameter \<open>parse_float\<close>, the server the
  parameter \<open>respond\<close>, the random jitter the parameter \<open>jitter\<close>; a sleep of
  \<open>d\<close> seconds ends \<open>d\<close> seconds later or after that.
\<close>

section \<open>Rates\<close>

text \<open>\<open>str.partition\<close> with a one-character separator.\<close>

definition partition_at :: "char \<Rightarrow> string \<Rightarrow> string \<times> string" where
  "partition_at c s = (takeWhile (\<lambda>x. x \<noteq> c) s, drop 1 (dropWhile (\<lambda>x. x \<noteq> c) s))"

definition UNIT_SECONDS :: "(string \<times> rat) list" where
  "UNIT_SECONDS = [(''sec'', 1), (''second'', 1), (''min'', 60), (''minute'', 60), (''hour'', 3600)]"

definition parse_rate :: "(string \<Rightarrow> rat option) \<Rightarrow> string \<Rightarrow> rat" where
  "parse_rate parse_float rate =
     (let (count_str, unit) = partition_at (CHR ''/'') rate
      in case parse_float count_str of
           None \<Rightarrow> 1
         | Some count \<Rightarrow>
             let per = dict_get_or UNIT_SECONDS (lower (strip unit)) 60
             in if per \<noteq> 0 then count / per else count)"

section \<open>The token bucket\<close>

record token_bucket =
  tb_rate :: rat
  tb_capacity :: rat
  tb_tokens :: rat
  tb_updated :: rat

definition new_bucket :: "rat \<Rightarrow> rat option \<Rightarrow> rat \<Rightarrow> token_bucket" where
  "new_bucket rate capacity now =
     (let cap = (case capacity of Some c \<Rightarrow> c | None \<Rightarrow> max 1 rate)
      in \<lparr>tb_rate = max rate (1 / 1000000), tb_capacity = cap, tb_tokens = cap, tb_updated = now\<rparr>)"

text \<open>
  One \<open>acquire\<close>, entered at \<open>now\<close> once the lock is free; a sleep overruns by
  \<open>late\<close>. The second component is the time at which the caller goes on.
\<close>

definition acquire :: "rat \<Rightarrow> rat \<Rightarrow> rat \<Rightarrow> token_bucket \<Rightarrow> token_bucket \<times> rat" where
  "acquire tokens now late b =
     (let available = min (tb_capacity b) (tb_tokens b + (now - tb_updated b) * tb_rate b)
      in if available < tokens
         then let woken = now + (tokens - available) / tb_rate b + late
              in (b\<lparr>tb_tokens := 0, tb_updated := woken\<rparr>, woken)
         else (b\<lparr>tb_tokens := available - tokens, tb_updated := now\<rparr>, now))"

text \<open>
  Callers one after the other, each with its arrival and the overrun of its sleep: the lock
  admits the next one when the previous one is through.
\<close>

fun grants :: "token_bucket \<Rightarrow> (rat \<times> rat) list \<Rightarrow> rat list" where
  "grants b [] = []"
| "grants b ((arrival, late) # callers) =
     (let (b', granted) = acquire 1 (max arrival (tb_updated b)) late b in granted # grants b' callers)"

definition good_bucket :: "token_bucket \<Rightarrow> bool" where
  "good_bucket b \<longleftrightarrow> 0 < tb_rate b \<and> 0 \<le> tb_tokens b \<and> tb_tokens b \<le> tb_capacity b"

lemma new_bucket_good:
  "(case capacity of Some c \<Rightarrow> 0 \<le> c | None \<Rightarrow> True) \<Longrightarrow> good_bucket (new_bucket rate capacity now)"
  by (auto simp: new_bucket_def good_bucket_def Let_def split: option.splits)

text \<open>A grant takes one token out of what has been refilled, waiting or not.\<close>

lemma acquire_spends:
  assumes "good_bucket b" and "tb_updated b \<le> now" and "0 \<le> late" and "acquire 1 now late b = (b', granted)"
  shows "good_bucket b' \<and> tb_rate b' = tb_rate b \<and> tb_capacity b' = tb_capacity b \<and>
    tb_updated b' = granted \<and> tb_updated b \<le> granted \<and> tb_tokens b' \<le> max 0 (tb_capacity b - 1) \<and>
    tb_tokens b' + 1 \<le> tb_tokens b + (granted - tb_updated b) * tb_rate b"
proof -
  let ?r = "tb_rate b"
  let ?avail = "min (tb_capacity b) (tb_tokens b + (now - tb_updated b) * ?r)"
  have r: "0 < ?r" and tok: "0 \<le> tb_tokens b" "tb_tokens b \<le> tb_capacity b"
    using assms(1) by (auto simp: good_bucket_def)
  have refill: "0 \<le> (now - tb_updated b) * ?r" using assms(2) r by simp
  show ?thesis
  proof (cases "?avail < 1")
    case True
    let ?w = "now + (1 - ?avail) / ?r + late"
    have b': "b' = b\<lparr>tb_tokens := 0, tb_updated := ?w\<rparr>" "granted = ?w"
      using assms(4) True by (auto simp: acquire_def Let_def)
    have d: "0 \<le> (1 - ?avail) / ?r" using True r by simp
    then have "tb_updated b \<le> ?w" using assms(2,3) by linarith
    moreover have "(?w - tb_updated b) * ?r = (now - tb_updated b) * ?r + (1 - ?avail) + late * ?r"
    proof -
      define q where "q = (1 - ?avail) / ?r"
      have q: "q * ?r = 1 - ?avail" using r by (simp add: q_def)
      have "(now + q + late - tb_updated b) * ?r = (now - tb_updated b) * ?r + q * ?r + late * ?r"
        by (simp add: algebra_simps)
      then show ?thesis unfolding q by (simp only: q_def)
    qed
    moreover have "0 \<le> late * ?r" using assms(3) r by simp
    ultimately show ?thesis using r tok by (simp add: b' good_bucket_def)
  next
    case False
    then have "b' = b\<lparr>tb_tokens := ?avail - 1, tb_updated := now\<rparr>" "granted = now"
      using assms(4) by (auto simp: acquire_def Let_def)
    then show ?thesis using False r tok refill assms(2) by (auto simp: good_bucket_def)
  qed
qed

lemma length_grants [simp]: "length (grants b callers) = length callers"
  by (induction b callers rule: grants.induct) (auto split: prod.splits)

lemma grants_after:
  assumes "good_bucket b" and "\<forall>c \<in> set callers. 0 \<le> snd c" and "j < length callers"
  shows "int j + 1 \<le> \<lfloor>tb_tokens b + (grants b callers ! j - tb_updated b) * tb_rate b\<rfloor> \<and>
    tb_updated b \<le> grants b callers ! j"
  using assms
proof (induction b callers arbitrary: j rule: grants.induct)
  case (2 b arrival late callers)
  obtain b' g where acq: "acquire 1 (max arrival (tb_updated b)) late b = (b', g)" by fastforce
  have s: "good_bucket b'" "tb_rate b' = tb_rate b" "tb_updated b' = g" "tb_updated b \<le> g"
      "tb_tokens b' + 1 \<le> tb_tokens b + (g - tb_updated b) * tb_rate b"
    using acquire_spends[OF "2.prems"(1) _ _ acq] "2.prems"(2) by auto
  have now: "grants b ((arrival, late) # callers) = g # grants b' callers" by (simp add: acq)
  have tok: "0 \<le> tb_tokens b'" using s(1) by (simp add: good_bucket_def)
  show ?case
  proof (cases j)
    case 0
    then show ?thesis using s tok by (simp add: acq le_floor_iff)
  next
    case (Suc i)
    have ih: "int i + 1 \<le> \<lfloor>tb_tokens b' + (grants b' callers ! i - g) * tb_rate b\<rfloor>" "g \<le> grants b' callers ! i"
      using "2.IH"[OF refl acq[symmetric] s(1), of i] "2.prems"(2,3) s(2,3) Suc by auto
    let ?h = "grants b' callers ! i"
    have "rat_of_int (int i + 1) \<le> tb_tokens b' + (?h - g) * tb_rate b" using ih(1) by (simp add: le_floor_iff)
    moreover have "(?h - tb_updated b) * tb_rate b = (?h - g) * tb_rate b + (g - tb_updated b) * tb_rate b"
      by (simp add: algebra_simps)
    ultimately have "rat_of_int (int i + 2) \<le> tb_tokens b + (?h - tb_updated b) * tb_rate b" using s(5) by simp
    then have "int i + 2 \<le> \<lfloor>tb_tokens b + (?h - tb_updated b) * tb_rate b\<rfloor>" by (simp only: le_floor_iff)
    then show ?thesis using ih(2) s(4) unfolding now Suc by simp
  qed
qed simp

text \<open>The bucket as it is when the first \<open>i\<close> callers are through.\<close>

fun bucket_after :: "token_bucket \<Rightarrow> (rat \<times> rat) list \<Rightarrow> token_bucket" where
  "bucket_after b [] = b"
| "bucket_after b ((arrival, late) # callers) =
     bucket_after (fst (acquire 1 (max arrival (tb_updated b)) late b)) callers"

lemma grants_append: "grants b (xs @ ys) = grants b xs @ grants (bucket_after b xs) ys"
  by (induction b xs rule: grants.induct) (auto split: prod.splits)

lemma bucket_after_good:
  "good_bucket b \<Longrightarrow> \<forall>c \<in> set xs. 0 \<le> snd c \<Longrightarrow>
    good_bucket (bucket_after b xs) \<and> tb_rate (bucket_after b xs) = tb_rate b \<and>
    tb_capacity (bucket_after b xs) = tb_capacity b"
proof (induction b xs rule: bucket_after.induct)
  case (2 b arrival late callers)
  obtain b' g where acq: "acquire 1 (max arrival (tb_updated b)) late b = (b', g)" by fastforce
  have "good_bucket b' \<and> tb_rate b' = tb_rate b \<and> tb_capacity b' = tb_capacity b"
    using acquire_spends[OF "2.prems"(1) _ _ acq] "2.prems"(2) by auto
  then show ?case using "2.IH" "2.prems"(2) by (simp add: acq)
qed simp

text \<open>
  C35: whatever the callers do and however late sleeps end, the requests of one client never
  exceed the rate: in any window of \<open>w\<close> seconds at most the burst (the capacity, one at
  least) plus \<open>w\<close> times the rate go out.
\<close>

theorem rate_is_kept:
  assumes "good_bucket b" and "\<forall>c \<in> set callers. 0 \<le> snd c" and "i \<le> j" and "j < length callers"
    and "grants b callers ! j - grants b callers ! i \<le> w"
  shows "rat_of_nat (j - i + 1) \<le> max 1 (tb_capacity b) + w * tb_rate b"
proof -
  let ?b1 = "bucket_after b (take i callers)"
  obtain arrival late rest where rest: "drop i callers = (arrival, late) # rest"
    using assms(3,4) by (cases "drop i callers") auto
  obtain b' g where acq: "acquire 1 (max arrival (tb_updated ?b1)) late ?b1 = (b', g)" by fastforce
  have b1: "good_bucket ?b1 \<and> tb_rate ?b1 = tb_rate b \<and> tb_capacity ?b1 = tb_capacity b"
    using bucket_after_good[OF assms(1)] assms(2) by (meson in_set_takeD)
  have sub: "set ((arrival, late) # rest) \<subseteq> set callers" using rest by (metis set_drop_subset)
  then have late: "0 \<le> late" using assms(2) by auto
  note s = acquire_spends[OF conjunct1[OF b1] _ late acq]
  have all: "grants b callers = grants b (take i callers) @ g # grants b' rest"
    using grants_append[of b "take i callers" "drop i callers"]
    unfolding append_take_drop_id by (simp add: rest acq)
  have gi: "grants b callers ! i = g" using assms(3,4) by (simp add: all nth_append)
  have r: "0 < tb_rate b" using assms(1) by (simp add: good_bucket_def)
  show ?thesis
  proof (cases "j = i")
    case True
    with assms(5) r show ?thesis by (simp add: le_max_iff_disj add_increasing2)
  next
    case False
    define k where "k = j - i - 1"
    have k: "k < length rest" "j - i = Suc k"
      using False assms(3,4) rest by (auto simp: k_def) (metis length_Cons length_drop Suc_diff_Suc diff_less_mono le_neq_implies_less less_Suc_eq_le not_less_eq diff_Suc_1 Suc_less_eq)
    have gj: "grants b callers ! j = grants b' rest ! k"
      using assms(3,4) k(2) by (simp add: all nth_append)
    have "int k + 1 \<le> \<lfloor>tb_tokens b' + (grants b' rest ! k - g) * tb_rate b\<rfloor>"
      using grants_after[of b' rest k] s b1 sub assms(2) k(1) by auto
    then have "rat_of_int (int k + 1) \<le> tb_tokens b' + (grants b' rest ! k - g) * tb_rate b"
      by (simp only: le_floor_iff)
    moreover have "(grants b' rest ! k - g) * tb_rate b \<le> w * tb_rate b"
      using assms(5) r by (simp add: gi gj)
    moreover have "tb_tokens b' \<le> max 0 (tb_capacity b - 1)" using s b1 by simp
    ultimately show ?thesis using k(2) by (simp add: max_def split: if_splits)
  qed
qed

text \<open>
  Four requests at once with two tokens: two go out in the burst, the third sleeps half a second and
  overruns by another half, and the fourth, behind it, sleeps half a second more.
\<close>

lemma burst_grants:
  "grants (new_bucket 2 None 0) [(0, 0), (0, 0), (0, 1 / 2), (0, 0)] = [0, 0, 1, 3 / 2]"
  by (simp add: new_bucket_def acquire_def Let_def)

theorem rate_is_kept_witness:
  "good_bucket (new_bucket 2 None 0) \<and>
   grants (new_bucket 2 None 0) [(0, 0), (0, 0), (0, 1 / 2), (0, 0)] = [0, 0, 1, 3 / 2] \<and>
   rat_of_nat (3 - 0 + 1) \<le> max 1 (tb_capacity (new_bucket 2 None 0)) + 3 / 2 * tb_rate (new_bucket 2 None 0)"
proof -
  have good: "good_bucket (new_bucket 2 None 0)" by (rule new_bucket_good) simp
  from rate_is_kept[OF good, of "[(0, 0), (0, 0), (0, 1 / 2), (0, 0)]" 0 3 "3 / 2"] good burst_grants
  show ?thesis by simp
qed

section \<open>Retries\<close>

definition RETRY_STATUS :: "int list" where
  "RETRY_STATUS = [429, 500, 502, 503, 504, 520, 522, 524]"

record http_response =
  rs_status :: int
  rs_retry_after :: "string option"

definition retry_after :: "(string \<Rightarrow> rat option) \<Rightarrow> http_response \<Rightarrow> rat option" where
  "retry_after parse_float resp =
     (case rs_retry_after resp of
        None \<Rightarrow> None
      | Some value \<Rightarrow> if value = [] then None else parse_float value)"

text \<open>
  The loop of \<open>request\<close>: \<open>respond n\<close> is the answer to the \<open>n\<close>-th request. The result
  is the response that is returned, the number of requests sent and the sleeps in between.
\<close>

function request_loop ::
  "(string \<Rightarrow> rat option) \<Rightarrow> (nat \<Rightarrow> rat) \<Rightarrow> nat \<Rightarrow> (nat \<Rightarrow> http_response) \<Rightarrow> nat \<Rightarrow>
   http_response \<times> nat \<times> rat list"
where
  "request_loop parse_float jitter max_retries respond attempt =
     (let resp = respond attempt
      in if \<not> List.member RETRY_STATUS (rs_status resp) \<or> attempt \<ge> max_retries
         then (resp, attempt + 1, [])
         else
           let delay = (case retry_after parse_float resp of
                   Some d \<Rightarrow> d
                 | None \<Rightarrow> min 60 (2 ^ attempt) + jitter attempt);
               (final, sent, delays) = request_loop parse_float jitter max_retries respond (attempt + 1)
           in (final, sent, delay # delays))"
  by pat_completeness auto

termination request_loop
  by (relation "measure (\<lambda>(_, _, max_retries, _, attempt). max_retries - attempt)") auto

declare request_loop.simps [simp del]

definition request ::
  "(string \<Rightarrow> rat option) \<Rightarrow> (nat \<Rightarrow> rat) \<Rightarrow> nat \<Rightarrow> (nat \<Rightarrow> http_response) \<Rightarrow> http_response \<times> nat \<times> rat list"
where
  "request parse_float jitter max_retries respond = request_loop parse_float jitter max_retries respond 0"

definition final_answer :: "nat \<Rightarrow> http_response \<Rightarrow> nat \<Rightarrow> bool" where
  "final_answer max_retries resp n \<longleftrightarrow> \<not> List.member RETRY_STATUS (rs_status resp) \<or> n = max_retries"

lemma request_loop_spec:
  assumes "attempt \<le> max_retries"
    and "request_loop parse_float jitter max_retries respond attempt = (final, sent, delays)"
  shows "attempt < sent \<and> sent \<le> max_retries + 1 \<and> final = respond (sent - 1) \<and>
    final_answer max_retries final (sent - 1) \<and> length delays = sent - 1 - attempt \<and>
    (\<forall>n. attempt \<le> n \<and> n < sent - 1 \<longrightarrow> \<not> final_answer max_retries (respond n) n \<and>
      delays ! (n - attempt) = (case retry_after parse_float (respond n) of
         Some d \<Rightarrow> d | None \<Rightarrow> min 60 (2 ^ n) + jitter n))"
  using assms
proof (induction parse_float jitter max_retries respond attempt arbitrary: final sent delays rule: request_loop.induct)
  case (1 parse_float jitter max_retries respond attempt)
  show ?case
  proof (cases "final_answer max_retries (respond attempt) attempt")
    case True
    then have "(final, sent, delays) = (respond attempt, attempt + 1, [])"
      using "1.prems"(2) by (subst (asm) request_loop.simps) (auto simp: final_answer_def Let_def split: if_splits)
    with True "1.prems"(1) show ?thesis by auto
  next
    case False
    then have retry: "\<not> (\<not> List.member RETRY_STATUS (rs_status (respond attempt)) \<or> attempt \<ge> max_retries)"
      using "1.prems"(1) by (auto simp: final_answer_def)
    obtain ds where rec: "request_loop parse_float jitter max_retries respond (attempt + 1) = (final, sent, ds)"
      and ds: "delays = (case retry_after parse_float (respond attempt) of
          Some d \<Rightarrow> d | None \<Rightarrow> min 60 (2 ^ attempt) + jitter attempt) # ds"
      using "1.prems"(2) retry by (subst (asm) request_loop.simps) (auto simp: Let_def split: prod.splits)
    have "attempt + 1 \<le> max_retries" using retry by simp
    note ih = "1.IH"[OF refl retry refl this rec]
    have "delays ! (n - attempt) = (case retry_after parse_float (respond n) of
         Some d \<Rightarrow> d | None \<Rightarrow> min 60 (2 ^ n) + jitter n) \<and> \<not> final_answer max_retries (respond n) n"
      if "attempt \<le> n" "n < sent - 1" for n
    proof (cases "n = attempt")
      case True
      show ?thesis using ds False unfolding True by simp
    next
      case neq: False
      then have "delays ! (n - attempt) = ds ! (n - (attempt + 1))" using that(1) ds by (simp add: nth_Cons')
      with neq that ih show ?thesis by auto
    qed
    with ih ds show ?thesis by auto
  qed
qed

text \<open>
  A request returns after at most \<open>max_retries + 1\<close> attempts with the first answer
  that is not a retry status, or with the last one; every answer before it was a retry status,
  and without a numeric Retry-After the client slept no longer than a minute and the jitter.
\<close>

lemma request_returns:
  assumes "request parse_float jitter max_retries respond = (final, sent, delays)"
    and "\<forall>n. 0 \<le> jitter n \<and> jitter n \<le> 1 / 2"
  shows "1 \<le> sent \<and> sent \<le> max_retries + 1 \<and> final = respond (sent - 1) \<and>
    (\<not> List.member RETRY_STATUS (rs_status final) \<or> sent = max_retries + 1) \<and>
    length delays = sent - 1 \<and>
    (\<forall>n < sent - 1. List.member RETRY_STATUS (rs_status (respond n)) \<and>
      (case retry_after parse_float (respond n) of
         Some d \<Rightarrow> delays ! n = d
       | None \<Rightarrow> min 60 (2 ^ n) \<le> delays ! n \<and> delays ! n \<le> min 60 (2 ^ n) + 1 / 2))"
proof -
  note spec = request_loop_spec[OF le0 assms(1)[unfolded request_def]]
  have "List.member RETRY_STATUS (rs_status (respond n)) \<and> (case retry_after parse_float (respond n) of
         Some d \<Rightarrow> delays ! n = d
       | None \<Rightarrow> min 60 (2 ^ n) \<le> delays ! n \<and> delays ! n \<le> min 60 (2 ^ n) + 1 / 2)"
    if "n < sent - 1" for n
  proof -
    have n: "\<not> final_answer max_retries (respond n) n" "delays ! n = (case retry_after parse_float (respond n) of
        Some d \<Rightarrow> d | None \<Rightarrow> min 60 (2 ^ n) + jitter n)"
      using spec that by simp_all
    have "0 \<le> jitter n \<and> jitter n \<le> 1 / 2" using assms(2) by blast
    with n show ?thesis by (cases "retry_after parse_float (respond n)") (simp_all add: final_answer_def)
  qed
  moreover have "\<not> List.member RETRY_STATUS (rs_status final) \<or> sent = max_retries + 1"
    using spec unfolding final_answer_def by linarith
  ultimately show ?thesis using spec by simp
qed

definition busy_twice :: "nat \<Rightarrow> http_response" where
  "busy_twice n = \<lparr>rs_status = (if n < 2 then 503 else 200), rs_retry_after = (if n = 0 then Some ''7'' else None)\<rparr>"

lemma busy_twice_request:
  "request (\<lambda>s. Some 7) (\<lambda>n. 0) 5 busy_twice = (busy_twice 2, 3, [7, 2])"
proof -
  note step = request_loop.simps[of "\<lambda>s. Some 7" "\<lambda>n. 0" 5 busy_twice]
  have 2: "request_loop (\<lambda>s. Some 7) (\<lambda>n. 0) 5 busy_twice 2 = (busy_twice 2, 3, [])"
    by (subst step) (simp add: busy_twice_def RETRY_STATUS_def)
  have 1: "request_loop (\<lambda>s. Some 7) (\<lambda>n. 0) 5 busy_twice 1 = (busy_twice 2, 3, [2])"
  proof -
    have b: "busy_twice 1 = \<lparr>rs_status = 503, rs_retry_after = None\<rparr>" by (simp add: busy_twice_def)
    show ?thesis by (subst step) (simp only: b one_add_one 2, simp add: RETRY_STATUS_def retry_after_def)
  qed
  show ?thesis
    unfolding request_def
    by (subst step) (simp only: add_0_left 1, simp add: busy_twice_def[of 0] RETRY_STATUS_def retry_after_def)
qed

lemma request_returns_witness: "rs_status (busy_twice (3 - 1)) = 200 \<and> (3::nat) \<le> 5 + 1"
  using request_returns[OF busy_twice_request] by (simp add: busy_twice_def)

text \<open>
  The taxonomy's documentation says that 408 and all of 5xx are handled by this client before
  they reach the pipeline; several of them are returned at once.
\<close>

lemma transient_statuses_not_retried:
  "respond 0 = \<lparr>rs_status = s, rs_retry_after = h\<rparr> \<Longrightarrow> s \<in> {408, 501, 505, 521, 523} \<Longrightarrow>
    request parse_float jitter max_retries respond = (respond 0, 1, [])"
  by (auto simp: request_def request_loop.simps[of _ _ _ _ 0] RETRY_STATUS_def Let_def)

end
