(* ===== verification/DomainLimiter.thy ===== *)
theory DomainLimiter
  imports RateLimiting ErrorKinds
begin

text \<open>
  The per-domain cap on concurrent collection runs (\<open>backend/pipeline/domain_limiter.py\<close>): the
  host of a source, and the semaphores of one event loop as a relation on all interleavings of
  runs. \<open>asyncio\<close> wakes waiters in order; the relation admits any order.
\<close>

section \<open>The host of a source\<close>

definition LIMITER_URL_KEYS :: "string list" where
  "LIMITER_URL_KEYS = [''feed_url'', ''base_url'', ''url'', ''site'', ''endpoint'']"

text \<open>\<open>PER_DOMAIN_CONCURRENCY\<close> as read from the environment; \<open>int()\<close> is a parameter.\<close>

definition slot_limit :: "(string \<Rightarrow> int option) \<Rightarrow> string option \<Rightarrow> nat" where
  "slot_limit parse_int env =
     (case parse_int (case env of None \<Rightarrow> ''3'' | Some s \<Rightarrow> s) of
        None \<Rightarrow> 3
      | Some n \<Rightarrow> nat (max 1 n))"

text \<open>
  \<open>urlparse(url).netloc\<close> of the standard library: leading control characters and blanks go,
  tabs and line ends go everywhere, a scheme is dropped if it is one, and what follows two slashes
  is the network location. Brackets must come in pairs and hold an address, which
  \<open>bracketed_ok\<close> decides.
\<close>

definition scheme_char :: "char \<Rightarrow> bool" where
  "scheme_char c \<longleftrightarrow> (let n = of_char (lower_char c) :: nat in 97 \<le> n \<and> n \<le> 122) \<or> is_digit c \<or>
     List.member ''+-.'' c"

definition drop_scheme :: "string \<Rightarrow> string" where
  "drop_scheme url =
     (let (scheme, rest) = partition_at (CHR '':'') url
      in if List.member url (CHR '':'') \<and> scheme \<noteq> [] \<and>
            (let n = of_char (lower_char (hd url)) :: nat in 97 \<le> n \<and> n \<le> 122) \<and> list_all scheme_char scheme
         then rest else url)"

definition clean_url :: "string \<Rightarrow> string" where
  "clean_url url = filter (\<lambda>c. \<not> List.member [9, 10, 13] (of_char c :: nat))
     (dropWhile (\<lambda>c. (of_char c :: nat) \<le> 32) url)"

definition netloc :: "(string \<Rightarrow> bool) \<Rightarrow> string \<Rightarrow> exn + string" where
  "netloc bracketed_ok url =
     (let rest = drop_scheme (clean_url url)
      in if take 2 rest \<noteq> ''//'' then Inr []
         else
           let loc = takeWhile (\<lambda>c. \<not> List.member ''/?#'' c) (drop 2 rest);
               opened = List.member loc (CHR ''[''); closed = List.member loc (CHR '']'')
           in if opened \<noteq> closed then Inl (Exn ''ValueError'')
              else if opened \<and> \<not> bracketed_ok loc then Inl (Exn ''ValueError'')
              else Inr loc)"

definition after_last :: "char \<Rightarrow> string \<Rightarrow> string" where
  "after_last c s = rev (takeWhile (\<lambda>x. x \<noteq> c) (rev s))"

definition host_of_netloc :: "string \<Rightarrow> string" where
  "host_of_netloc loc = lower (fst (partition_at (CHR '':'') (after_last (CHR ''@'') loc)))"

fun infix_of :: "string \<Rightarrow> string \<Rightarrow> bool" where
  "infix_of p [] \<longleftrightarrow> p = []"
| "infix_of p (c # s) \<longleftrightarrow> prefix p (c # s) \<or> infix_of p s"

fun domain_from :: "(string \<Rightarrow> bool) \<Rightarrow> json dict \<Rightarrow> string list \<Rightarrow> exn + string option" where
  "domain_from bracketed_ok config [] = Inr None"
| "domain_from bracketed_ok config (key # keys) =
     (case dict_get config key of
        Some (JStr val) \<Rightarrow>
          if val = [] then domain_from bracketed_ok config keys
          else (case netloc bracketed_ok (if infix_of ''://'' val then val else ''//'' @ val) of
              Inl e \<Rightarrow> Inl e
            | Inr loc \<Rightarrow>
                let host = host_of_netloc loc
                in if host \<noteq> [] then Inr (Some host) else domain_from bracketed_ok config keys)
      | _ \<Rightarrow> domain_from bracketed_ok config keys)"

definition domain_of :: "(string \<Rightarrow> bool) \<Rightarrow> json dict \<Rightarrow> exn + string option" where
  "domain_of bracketed_ok config = domain_from bracketed_ok config LIMITER_URL_KEYS"

lemma domain_examples:
  "domain_of (\<lambda>_. True) [(''url'', JStr ''HTTPS://me:pw@Example.ORG:8080/a?b'')] = Inr (Some ''example.org'')"
  "domain_of (\<lambda>_. True) [(''site'', JStr ''bilibili''), (''url'', JInt 3)] = Inr (Some ''bilibili'')"
  "domain_of (\<lambda>_. True) [(''binary'', JStr ''date'')] = Inr None"
  by code_simp+

text \<open>
  A malformed address raises here, and the runner derives the host outside of the block that
  marks a failed run.
\<close>

lemma malformed_url_raises:
  "domain_of ok [(''url'', JStr ''http://[oops'')] = Inl (Exn ''ValueError'')"
proof -
  have "clean_url ''http://[oops'' = ''http://[oops''" "drop_scheme ''http://[oops'' = ''//[oops''"
    "infix_of ''://'' ''http://[oops''" by code_simp+
  then show ?thesis by (simp add: domain_of_def LIMITER_URL_KEYS_def dict_get_def netloc_def Let_def)
qed

section \<open>Slots\<close>

datatype slot_phase = Arriving | Waiting | Running | Finished

record limited_run =
  lr_domain :: "string option"
  lr_phase :: slot_phase

type_synonym slots = "(string \<rightharpoonup> nat) \<times> limited_run list"

definition semaphore :: "nat \<Rightarrow> (string \<rightharpoonup> nat) \<Rightarrow> string \<Rightarrow> string \<rightharpoonup> nat" where
  "semaphore limit sems domain = (case sems domain of None \<Rightarrow> sems(domain \<mapsto> limit) | Some _ \<Rightarrow> sems)"

definition with_phase :: "nat \<Rightarrow> slot_phase \<Rightarrow> limited_run list \<Rightarrow> limited_run list" where
  "with_phase i phase runs = runs[i := (runs ! i)\<lparr>lr_phase := phase\<rparr>]"

text \<open>
  The steps of \<open>domain_slot\<close>: no domain, no limit; otherwise the run looks its semaphore up,
  takes a permit when there is one, or is cancelled while it waits, and gives the permit back however
  the run ends. The semaphores are those of one event loop: the code keeps a set of them per loop, so
  the limit holds per loop.
\<close>

inductive slot_step :: "nat \<Rightarrow> slots \<Rightarrow> slots \<Rightarrow> bool" for limit :: nat where
  unlimited: "i < length runs \<Longrightarrow> runs ! i = \<lparr>lr_domain = None, lr_phase = Arriving\<rparr> \<Longrightarrow>
     slot_step limit (sems, runs) (sems, with_phase i Running runs)"
| arrive: "i < length runs \<Longrightarrow> runs ! i = \<lparr>lr_domain = Some d, lr_phase = Arriving\<rparr> \<Longrightarrow>
     slot_step limit (sems, runs) (semaphore limit sems d, with_phase i Waiting runs)"
| take_slot: "i < length runs \<Longrightarrow> runs ! i = \<lparr>lr_domain = Some d, lr_phase = Waiting\<rparr> \<Longrightarrow>
     sems d = Some (Suc v) \<Longrightarrow> slot_step limit (sems, runs) (sems(d \<mapsto> v), with_phase i Running runs)"
| cancel: "i < length runs \<Longrightarrow> runs ! i = \<lparr>lr_domain = Some d, lr_phase = Waiting\<rparr> \<Longrightarrow>
     slot_step limit (sems, runs) (sems, with_phase i Finished runs)"
| leave: "i < length runs \<Longrightarrow> runs ! i = \<lparr>lr_domain = Some d, lr_phase = Running\<rparr> \<Longrightarrow>
     sems d = Some v \<Longrightarrow> slot_step limit (sems, runs) (sems(d \<mapsto> v + 1), with_phase i Finished runs)"
| leave_unlimited: "i < length runs \<Longrightarrow> runs ! i = \<lparr>lr_domain = None, lr_phase = Running\<rparr> \<Longrightarrow>
     slot_step limit (sems, runs) (sems, with_phase i Finished runs)"

inductive_cases slot_step_elim: "slot_step limit (sems, runs) s'"

inductive slots_reachable :: "nat \<Rightarrow> slots \<Rightarrow> bool" for limit :: nat where
  slots_init: "\<forall>r \<in> set runs. lr_phase r = Arriving \<Longrightarrow> slots_reachable limit (Map.empty, runs)"
| slots_next: "slots_reachable limit s \<Longrightarrow> slot_step limit s s' \<Longrightarrow> slots_reachable limit s'"

definition running :: "string \<Rightarrow> limited_run list \<Rightarrow> nat" where
  "running d runs = length (filter (\<lambda>r. r = \<lparr>lr_domain = Some d, lr_phase = Running\<rparr>) runs)"

definition slots_inv :: "nat \<Rightarrow> slots \<Rightarrow> bool" where
  "slots_inv limit s \<longleftrightarrow>
     (\<forall>d. case fst s d of
        None \<Rightarrow> (\<forall>r \<in> set (snd s). lr_domain r = Some d \<longrightarrow> lr_phase r \<in> {Arriving})
      | Some v \<Rightarrow> v + running d (snd s) = limit)"

lemma length_filter_update:
  "i < length xs \<Longrightarrow>
    length (filter P (xs[i := x])) + (if P (xs ! i) then 1 else 0) = length (filter P xs) + (if P x then 1 else 0)"
proof -
  assume i: "i < length xs"
  have "filter P xs = filter P (take i xs) @ filter P [xs ! i] @ filter P (drop (Suc i) xs)"
    by (subst id_take_nth_drop[OF i]) simp
  then show ?thesis by (simp add: upd_conv_take_nth_drop[OF i])
qed

text \<open>Moving one run: the counts of its domain change by the run, no other does.\<close>

lemma running_with_phase:
  assumes "i < length runs" and "runs ! i = \<lparr>lr_domain = dm, lr_phase = p\<rparr>"
  shows "running d (with_phase i q runs) + (if dm = Some d \<and> p = Running then 1 else 0) =
    running d runs + (if dm = Some d \<and> q = Running then 1 else 0)"
  using length_filter_update[OF assms(1), of "\<lambda>r. r = \<lparr>lr_domain = Some d, lr_phase = Running\<rparr>"
      "(runs ! i)\<lparr>lr_phase := q\<rparr>"]
  by (simp add: running_def with_phase_def assms(2))

lemma with_phase_set:
  "i < length runs \<Longrightarrow> r \<in> set (with_phase i q runs) \<Longrightarrow> r \<in> set runs \<or> r = (runs ! i)\<lparr>lr_phase := q\<rparr>"
  unfolding with_phase_def using set_update_subset_insert[of runs i "(runs ! i)\<lparr>lr_phase := q\<rparr>"] by blast

lemma running_with_phase_other:
  "i < length runs \<Longrightarrow> lr_domain (runs ! i) \<noteq> Some d \<Longrightarrow> running d (with_phase i q runs) = running d runs"
  using running_with_phase[of i runs "lr_domain (runs ! i)" "lr_phase (runs ! i)" d q] by simp

text \<open>A step at one domain keeps the invariant if it keeps it there.\<close>

lemma slots_inv_local:
  assumes "slots_inv limit (sems, runs)" and i: "i < length runs"
    and "\<And>e. lr_domain (runs ! i) \<noteq> Some e \<Longrightarrow> sems' e = sems e"
    and "\<And>d. lr_domain (runs ! i) = Some d \<Longrightarrow>
      \<exists>v. sems' d = Some v \<and> v + running d (with_phase i q runs) = limit"
  shows "slots_inv limit (sems', with_phase i q runs)"
  unfolding slots_inv_def
proof
  fix d
  show "case fst (sems', with_phase i q runs) d of
      None \<Rightarrow> \<forall>r \<in> set (snd (sems', with_phase i q runs)). lr_domain r = Some d \<longrightarrow> lr_phase r \<in> {Arriving}
    | Some v \<Rightarrow> v + running d (snd (sems', with_phase i q runs)) = limit"
  proof (cases "lr_domain (runs ! i) = Some d")
    case True
    with assms(4)[of d] show ?thesis by auto
  next
    case False
    then have same: "sems' d = sems d" "running d (with_phase i q runs) = running d runs"
      using assms(3) running_with_phase_other[OF i] by auto
    have "case sems d of None \<Rightarrow> \<forall>r \<in> set runs. lr_domain r = Some d \<longrightarrow> lr_phase r \<in> {Arriving}
      | Some v \<Rightarrow> v + running d runs = limit"
      using assms(1) unfolding slots_inv_def fst_conv snd_conv by (rule spec)
    then show ?thesis
      using same with_phase_set[OF i, of _ q] False by (cases "sems d") (fastforce, auto)
  qed
qed

lemma slots_inv_Some:
  assumes "slots_inv limit (sems, runs)" and "i < length runs"
    and "lr_domain (runs ! i) = Some d" and "lr_phase (runs ! i) \<noteq> Arriving"
  shows "\<exists>v. sems d = Some v \<and> v + running d runs = limit"
proof -
  have "case sems d of None \<Rightarrow> \<forall>r \<in> set runs. lr_domain r = Some d \<longrightarrow> lr_phase r \<in> {Arriving}
      | Some v \<Rightarrow> v + running d runs = limit"
    using assms(1) unfolding slots_inv_def fst_conv snd_conv by (rule spec)
  moreover have "runs ! i \<in> set runs" using assms(2) by simp
  ultimately show ?thesis using assms(3,4) by (cases "sems d") auto
qed

lemma slot_step_inv:
  assumes "slot_step limit s s'" and "slots_inv limit s"
  shows "slots_inv limit s'"
  using assms
proof cases
  case (unlimited i runs sems)
  then show ?thesis using slots_inv_local[of limit sems runs i sems Running] assms(2) by simp
next
  case (arrive i runs d sems)
  have "\<exists>v. semaphore limit sems d = (\<lambda>e. if e = d then Some v else sems e) \<and> v + running d runs = limit"
  proof (cases "sems d")
    case None
    then have "\<forall>r \<in> set runs. lr_domain r = Some d \<longrightarrow> lr_phase r = Arriving"
      using assms(2) arrive(1) by (auto simp: slots_inv_def dest: spec[of _ d])
    then have "running d runs = 0" by (auto simp: running_def filter_empty_conv)
    with None show ?thesis by (intro exI[of _ limit]) (auto simp: semaphore_def fun_eq_iff)
  next
    case (Some v)
    then have "v + running d runs = limit"
      using assms(2) arrive(1) by (auto simp: slots_inv_def dest: spec[of _ d])
    with Some show ?thesis by (intro exI[of _ v]) (auto simp: semaphore_def fun_eq_iff)
  qed
  then show ?thesis
    using slots_inv_local[of limit sems runs i "semaphore limit sems d" Waiting] assms(2) arrive
      running_with_phase[of i runs "Some d" Arriving d Waiting] by auto
next
  case (take_slot i runs d sems v)
  have "Suc v + running d runs = limit"
    using slots_inv_Some[of limit sems runs i d] assms(2) take_slot by auto
  then show ?thesis
    using slots_inv_local[of limit sems runs i "sems(d \<mapsto> v)" Running] assms(2) take_slot
      running_with_phase[of i runs "Some d" Waiting d Running] by auto
next
  case (cancel i runs d sems)
  then show ?thesis
    using slots_inv_local[of limit sems runs i sems Finished] assms(2)
      slots_inv_Some[of limit sems runs i d]
      running_with_phase[of i runs "Some d" Waiting d Finished] by auto
next
  case (leave i runs d sems v)
  have "v + running d runs = limit"
    using slots_inv_Some[of limit sems runs i d] assms(2) leave by auto
  then show ?thesis
    using slots_inv_local[of limit sems runs i "sems(d \<mapsto> v + 1)" Finished] assms(2) leave
      running_with_phase[of i runs "Some d" Running d Finished] by auto
next
  case (leave_unlimited i runs sems)
  then show ?thesis using slots_inv_local[of limit sems runs i sems Finished] assms(2) by simp
qed

lemma reachable_slots_inv: "slots_reachable limit s \<Longrightarrow> slots_inv limit s"
proof (induction rule: slots_reachable.induct)
  case (slots_init runs)
  then show ?case by (simp add: slots_inv_def)
qed (rule slot_step_inv)

text \<open>
  C34: in every interleaving of the runs of one event loop at most \<open>limit\<close> of them work on one domain, however runs
  end or are cancelled, and no permit is lost: a run that waits while fewer than \<open>limit\<close> work
  on its domain can go ahead.
\<close>

theorem domain_cap_kept:
  assumes "slots_reachable limit (sems, runs)"
  shows "running d runs \<le> limit \<and>
    (i < length runs \<and> runs ! i = \<lparr>lr_domain = Some d, lr_phase = Waiting\<rparr> \<and> running d runs < limit \<longrightarrow>
      (\<exists>sems'. slot_step limit (sems, runs) (sems', with_phase i Running runs)))"
proof (intro conjI impI)
  have inv: "slots_inv limit (sems, runs)" using assms by (rule reachable_slots_inv)
  show "running d runs \<le> limit"
  proof (cases "sems d")
    case None
    then have "\<forall>r \<in> set runs. lr_domain r = Some d \<longrightarrow> lr_phase r = Arriving"
      using inv by (auto simp: slots_inv_def dest: spec[of _ d])
    then have "running d runs = 0" by (auto simp: running_def filter_empty_conv)
    then show ?thesis by simp
  next
    case (Some v)
    then show ?thesis using inv by (auto simp: slots_inv_def dest: spec[of _ d])
  qed
  assume w: "i < length runs \<and> runs ! i = \<lparr>lr_domain = Some d, lr_phase = Waiting\<rparr> \<and> running d runs < limit"
  then obtain v where "sems d = Some v" "v + running d runs = limit"
    using slots_inv_Some[OF inv, of i d] by auto
  with w obtain u where "sems d = Some (Suc u)" by (cases v) auto
  with w show "\<exists>sems'. slot_step limit (sems, runs) (sems', with_phase i Running runs)"
    using take_slot[of i runs d sems u limit] by blast
qed

theorem domain_cap_kept_witness:
  "\<exists>sems'. slot_step 1 (semaphore 1 Map.empty ''h'', [\<lparr>lr_domain = Some ''h'', lr_phase = Waiting\<rparr>])
     (sems', with_phase 0 Running [\<lparr>lr_domain = Some ''h'', lr_phase = Waiting\<rparr>])"
proof -
  let ?r = "\<lparr>lr_domain = Some ''h'', lr_phase = Arriving\<rparr>"
  have "slots_reachable 1 (Map.empty, [?r])" by (rule slots_init) simp
  moreover have "slot_step 1 (Map.empty, [?r]) (semaphore 1 Map.empty ''h'', with_phase 0 Waiting [?r])"
    by (rule arrive) simp_all
  ultimately have "slots_reachable 1 (semaphore 1 Map.empty ''h'', with_phase 0 Waiting [?r])" by (rule slots_next)
  from domain_cap_kept[OF this, of "''h''" 0] show ?thesis by (simp add: with_phase_def running_def)
qed

end
