(* ===== verification/TaskRunner.thy ===== *)
theory TaskRunner
  imports PipelineProps DomainLimiter ExecutorProps
begin

text \<open>
  The runner of a collection task (\<open>backend/pipeline/runner.py\<close>): its five phases around
  \<open>run_pipeline\<close>, the scheduled occurrences that create or resume a task, and the retries of the
  worker (\<open>backend/worker/tasks.py\<close>). Phase five hands new records to the plans that contain the
  source, which is the incremental trigger of \<open>PlanExecutor\<close>.
\<close>

section \<open>State\<close>

text \<open>
  The tables of the pipeline and those of the plans; both see the same sources, measurements, tasks and
  records, which \<open>plan_view\<close> hands over. The worker's signal of exhausted retries may fail to be written.
\<close>

record 'c run_state =
  rn_pipe :: "'c pipe_state"
  rn_plans :: plan_db

record ('c, 'a) run_env =
  re_pipe :: "('c, 'a) pipe_env"
  re_agents :: "ai_agent list"
  re_default_prompt :: string
  re_bracketed_ok :: "string \<Rightarrow> bool"
  re_fault :: "string \<Rightarrow> string option"
  re_signal_fails :: bool

definition update_task :: "string \<Rightarrow> (collection_task \<Rightarrow> collection_task) \<Rightarrow> control_db \<Rightarrow> control_db" where
  "update_task task_id f db = db\<lparr>db_tasks := map (\<lambda>t. if ct_id t = task_id then f t else t) (db_tasks db)\<rparr>"

definition update_run :: "string \<Rightarrow> (task_run \<Rightarrow> task_run) \<Rightarrow> control_db \<Rightarrow> control_db" where
  "update_run run_id f db = db\<lparr>db_runs := map (\<lambda>r. if tr_id r = run_id then f r else r) (db_runs db)\<rparr>"

definition get_collection_task :: "control_db \<Rightarrow> string \<Rightarrow> collection_task option" where
  "get_collection_task db task_id = find (\<lambda>t. ct_id t = task_id) (db_tasks db)"

definition in_control :: "(control_db \<Rightarrow> control_db) \<Rightarrow> 'c run_state \<Rightarrow> 'c run_state" where
  "in_control f st = st\<lparr>rn_pipe := (rn_pipe st)\<lparr>pp_control := f (pp_control (rn_pipe st))\<rparr>\<rparr>"

definition control_of :: "'c run_state \<Rightarrow> control_db" where
  "control_of st = pp_control (rn_pipe st)"

section \<open>The phases\<close>

text \<open>Phase 1: the task and a new run are running, in one transaction.\<close>

definition start_run ::
  "collection_task \<Rightarrow> string option \<Rightarrow> string option \<Rightarrow> 'c run_state \<Rightarrow> string \<times> 'c run_state"
where
  "start_run task celery_task_id worker_id st =
     (let (run_id, plans) = fresh_uuid (rn_plans st);
          (started, db1) = utcnow (control_of st);
          (created, db2) = utcnow db1;
          run = \<lparr>tr_id = run_id, tr_task_id = ct_id task, tr_status = ''running'', tr_celery_task_id = celery_task_id,
                 tr_worker_id = worker_id, tr_created_at = created, tr_started_at = Some started,
                 tr_finished_at = None, tr_duration_ms = None, tr_records_collected = 0,
                 tr_error_message = None, tr_error_detail = None, tr_node_url = None\<rparr>;
          db3 = update_task (ct_id task) (\<lambda>t. t\<lparr>ct_status := ''running''\<rparr>) (db2\<lparr>db_runs := db_runs db2 @ [run]\<rparr>)
      in (run_id, in_control (\<lambda>_. db3) (st\<lparr>rn_plans := plans\<rparr>)))"

definition announce_trigger :: "string \<Rightarrow> collection_task \<Rightarrow> 'c run_state \<Rightarrow> 'c run_state" where
  "announce_trigger run_id task st =
     (if run_id = [] \<or> ct_source_id task = [] then st
      else in_control (emit_event run_id ''trigger'' ''info''
        (Some [(''trigger_type'', JStr (ct_trigger_type task)), (''source_id'', JStr (ct_source_id task))]) None) st)"

definition error_outcome :: "string \<Rightarrow> pipeline_outcome" where
  "error_outcome error = \<lparr>po_error = Some error, po_success = None, po_run_id = None, po_collected = None,
     po_stored = None, po_skipped = None\<rparr>"

definition source_missing :: "string \<Rightarrow> string \<Rightarrow> 'c run_state \<Rightarrow> 'c run_state" where
  "source_missing task_id run_id st =
     in_control (\<lambda>db. update_run run_id
         (\<lambda>r. r\<lparr>tr_status := ''failed'', tr_error_message := Some ''Source not found''\<rparr>)
         (update_task task_id (\<lambda>t. t\<lparr>ct_status := ''failed'', ct_error_message := Some ''Source not found''\<rparr>) db)) st"

text \<open>A raising pipeline: the attempt is recorded as failed before the exception goes on.\<close>

definition raise_message :: "('c, 'a) run_env \<Rightarrow> exn \<Rightarrow> string" where
  "raise_message env e = ''['' @ effective_error_type e @ ''] '' @ se_text (pe_sinks (re_pipe env)) e"

definition record_raise :: "('c, 'a) run_env \<Rightarrow> string \<Rightarrow> string \<Rightarrow> exn \<Rightarrow> 'c run_state \<Rightarrow> 'c run_state" where
  "record_raise env task_id run_id e st =
     (let message = raise_message env e
      in in_control (\<lambda>db.
           let db1 = update_task task_id (\<lambda>t. t\<lparr>ct_status := ''failed'', ct_error_message := Some message\<rparr>) db
           in if list_ex (\<lambda>r. tr_id r = run_id) (db_runs db1) then
                let (ended, db2) = utcnow db1
                in update_run run_id (\<lambda>r. r\<lparr>tr_status := ''failed'', tr_error_message := Some message,
                     tr_finished_at := Some ended\<rparr>) db2
              else db1) st)"

text \<open>Phase 4.\<close>

definition run_numbers :: "pipeline_result \<Rightarrow> datetime \<Rightarrow> task_run \<Rightarrow> task_run" where
  "run_numbers result ended r =
     (let r1 = r\<lparr>tr_finished_at := Some ended, tr_duration_ms := Some (px_duration_ms result),
                tr_records_collected := int (px_stored result)\<rparr>;
          node_url = dict_get (px_metadata result) ''node_url'';
          r2 = (if py_truthy node_url then r1\<lparr>tr_node_url := node_url\<rparr> else r1);
          shadow = dict_get (px_metadata result) ''shadow_errors''
      in if py_truthy shadow then
           r2\<lparr>tr_error_detail := Some [(''shadow_errors'', the shadow),
             (''shadow_meta'', dict_get_or (px_metadata result) ''shadow_meta'' JNull)]\<rparr>
         else r2)"

definition task_verdict :: "pipeline_result \<Rightarrow> collection_task \<Rightarrow> collection_task" where
  "task_verdict result t =
     (if py_truthy (dict_get (px_metadata result) ''awaiting_confirm'')
      then t\<lparr>ct_status := ''awaiting_confirm'', ct_error_message := None\<rparr>
      else if px_success result then t\<lparr>ct_status := ''completed'', ct_error_message := None\<rparr>
      else t\<lparr>ct_status := ''failed'', ct_error_message := px_error result\<rparr>)"

definition run_verdict :: "pipeline_result \<Rightarrow> task_run \<Rightarrow> task_run" where
  "run_verdict result r =
     (if py_truthy (dict_get (px_metadata result) ''awaiting_confirm'') then r\<lparr>tr_status := ''awaiting_confirm''\<rparr>
      else if px_success result then r\<lparr>tr_status := ''completed''\<rparr>
      else r\<lparr>tr_status := ''failed'', tr_error_message := px_error result\<rparr>)"

definition persist_outcome :: "string \<Rightarrow> string \<Rightarrow> pipeline_result \<Rightarrow> 'c run_state \<Rightarrow> 'c run_state" where
  "persist_outcome task_id run_id result st =
     in_control (\<lambda>db.
       let db1 = (if list_ex (\<lambda>r. tr_id r = run_id) (db_runs db) then
             let (ended, db') = utcnow db
             in update_run run_id (\<lambda>r. run_verdict result (run_numbers result ended r)) db'
           else db)
       in update_task task_id (task_verdict result) db1) st"

text \<open>Phase 5, over the plan tables and the records the pipeline stored.\<close>

definition plan_view :: "'c run_state \<Rightarrow> plan_db" where
  "plan_view st = (rn_plans st)\<lparr>pdb_sources := db_sources (control_of st),
     pdb_measurements := db_measurements (control_of st), pdb_tasks := db_tasks (control_of st),
     pdb_records := wd_records (pp_write (rn_pipe st))\<rparr>"

definition trigger_plans ::
  "('c, 'a) run_env \<Rightarrow> string \<Rightarrow> string \<Rightarrow> json dict \<Rightarrow> 'c run_state \<Rightarrow> 'c run_state"
where
  "trigger_plans env source_id task_id parameters st =
     (let (_, plans) = trigger_incremental_shared_segments (re_fault env) source_id task_id parameters (plan_view st);
          pipe = rn_pipe st
      in st\<lparr>rn_plans := plans, rn_pipe := pipe\<lparr>
             pp_control := (pp_control pipe)\<lparr>db_sources := pdb_sources plans, db_measurements := pdb_measurements plans,
               db_tasks := pdb_tasks plans\<rparr>,
             pp_write := (pp_write pipe)\<lparr>wd_records := pdb_records plans\<rparr>\<rparr>\<rparr>)"

definition run_outcome :: "string \<Rightarrow> pipeline_result \<Rightarrow> pipeline_outcome" where
  "run_outcome run_id result =
     \<lparr>po_error = px_error result, po_success = Some (px_success result), po_run_id = Some run_id,
      po_collected = Some (int (px_collected result)), po_stored = Some (int (px_stored result)),
      po_skipped = Some (px_skipped result)\<rparr>"

text \<open>Phases 3 to 5; the host of the source is derived before the handler is in place.\<close>

definition run_source ::
  "('c, 'a) run_env \<Rightarrow> string \<Rightarrow> string \<Rightarrow> collection_task \<Rightarrow> data_source \<Rightarrow> json dict \<Rightarrow> 'c run_state \<Rightarrow>
   (exn + pipeline_outcome) \<times> 'c run_state"
where
  "run_source env task_id run_id task source parameters st =
     (case domain_of (re_bracketed_ok env) (ds_channel_config source) of
        Inl e \<Rightarrow> (Inl e, st)
      | Inr _ \<Rightarrow>
          let agent_config = resolve_agent_config (re_default_prompt env) (re_agents env)
                (pe_providers (re_pipe env)) (ct_agent_id task);
              (result, pipe) = run_pipeline (re_pipe env) task_id source (dict_update (ct_parameters task) parameters)
                True (ct_recovery_mode task \<noteq> Some ''recollect'') agent_config (Some run_id) None None (rn_pipe st);
              st1 = st\<lparr>rn_pipe := pipe\<rparr>
          in case result of
               Inl e \<Rightarrow> (Inl e, record_raise env task_id run_id e st1)
             | Inr res \<Rightarrow>
                 let st2 = persist_outcome task_id run_id res st1;
                     st3 = (if px_success res \<and> px_stored res > 0 \<and> ct_source_id task \<noteq> []
                            then trigger_plans env (ct_source_id task) task_id parameters st2 else st2)
                 in (Inr (run_outcome run_id res), st3))"

definition run_collection_pipeline ::
  "('c, 'a) run_env \<Rightarrow> string \<Rightarrow> json dict \<Rightarrow> string option \<Rightarrow> string option \<Rightarrow> 'c run_state \<Rightarrow>
   (exn + pipeline_outcome) \<times> 'c run_state"
where
  "run_collection_pipeline env task_id parameters celery_task_id worker_id st =
     (case get_collection_task (control_of st) task_id of
        None \<Rightarrow> (Inr (error_outcome (''Task '' @ task_id @ '' not found'')), st)
      | Some task \<Rightarrow>
          let (run_id, st1) = start_run task celery_task_id worker_id st;
              st2 = announce_trigger run_id task st1
          in case get_source (control_of st2) (ct_source_id task) of
               None \<Rightarrow> (Inr (error_outcome ''Source not found''), source_missing task_id run_id st2)
             | Some source \<Rightarrow> run_source env task_id run_id task source parameters st2)"

section \<open>Scheduled occurrences\<close>

text \<open>
  A task is created with the occurrence id as its key when there is one; creating a second task
  under the same key violates the primary key, and a missing source the foreign key.
\<close>

definition new_task ::
  "string option \<Rightarrow> string \<Rightarrow> json dict \<Rightarrow> string option \<Rightarrow> 'c run_state \<Rightarrow> (exn + collection_task) \<times> 'c run_state"
where
  "new_task task_id source_id parameters agent_id st =
     (let (tid, st1) = (case task_id of
            Some i \<Rightarrow> (i, st)
          | None \<Rightarrow> let (i, plans) = fresh_uuid (rn_plans st) in (i, st\<lparr>rn_plans := plans\<rparr>));
          task = \<lparr>ct_id = tid, ct_source_id = source_id, ct_agent_id = agent_id, ct_trigger_type = ''scheduled'',
                  ct_parameters = parameters, ct_priority = 5, ct_status = ''pending'', ct_error_message = None,
                  ct_recovery_mode = None\<rparr>
      in if get_source (control_of st) source_id = None \<or> get_collection_task (control_of st) tid \<noteq> None
         then (Inl (Exn ''IntegrityError''), st1)
         else (Inr task, in_control (\<lambda>db. db\<lparr>db_tasks := db_tasks db @ [task]\<rparr>) st1))"

definition update_schedule :: "string \<Rightarrow> (cron_schedule \<Rightarrow> cron_schedule) \<Rightarrow> control_db \<Rightarrow> control_db" where
  "update_schedule schedule_id f db =
     db\<lparr>db_schedules := map (\<lambda>c. if cs_id c = schedule_id then f c else c) (db_schedules db)\<rparr>"

text \<open>A one-time schedule is consumed when its occurrence is created.\<close>

definition consume_schedule :: "cron_schedule \<Rightarrow> control_db \<Rightarrow> control_db" where
  "consume_schedule schedule db =
     (let (now, db1) = utcnow db
      in update_schedule (cs_id schedule)
           (\<lambda>c. c\<lparr>cs_last_run_at := Some now, cs_enabled := (if cs_is_one_time schedule then False else cs_enabled c)\<rparr>) db1)"

definition occurrence_task ::
  "string \<Rightarrow> string \<Rightarrow> json dict \<Rightarrow> string option \<Rightarrow> 'c run_state \<Rightarrow> (exn + collection_task) \<times> 'c run_state"
where
  "occurrence_task schedule_id source_id parameters occurrence_id st =
     (let schedule = find (\<lambda>c. cs_id c = schedule_id) (db_schedules (control_of st));
          existing = (case occurrence_id of None \<Rightarrow> None | Some i \<Rightarrow> get_collection_task (control_of st) i);
          (found, st1) = (case existing of
              Some task \<Rightarrow>
                (if ct_source_id task \<noteq> source_id \<or> ct_trigger_type task \<noteq> ''scheduled''
                 then (Inl (Exn ''RuntimeError''), st) else (Inr task, st))
            | None \<Rightarrow> new_task occurrence_id source_id parameters
                (case schedule of None \<Rightarrow> None | Some c \<Rightarrow> cs_agent_id c) st)
      in case found of
           Inl e \<Rightarrow> (Inl e, st)
         | Inr task \<Rightarrow>
             (case schedule of
                Some c \<Rightarrow>
                  (Inr task, if ct_status task = ''pending'' then in_control (consume_schedule c) st1 else st1)
              | None \<Rightarrow> (Inr task, st1)))"

definition run_scheduled_pipeline ::
  "('c, 'a) run_env \<Rightarrow> string \<Rightarrow> string \<Rightarrow> json dict \<Rightarrow> string option \<Rightarrow> string option \<Rightarrow> string option \<Rightarrow> 'c run_state \<Rightarrow>
   (exn + pipeline_outcome) \<times> 'c run_state"
where
  "run_scheduled_pipeline env schedule_id source_id parameters occurrence_id celery_task_id worker_id st =
     (case occurrence_task schedule_id source_id parameters occurrence_id st of
        (Inl e, st1) \<Rightarrow> (Inl e, st1)
      | (Inr task, st1) \<Rightarrow> run_collection_pipeline env (ct_id task) parameters celery_task_id worker_id st1)"

section \<open>Retries of the worker\<close>

definition MAX_RETRIES :: nat where
  "MAX_RETRIES = 3"

text \<open>
  What the worker does with an attempt that raises: it tries again, up to \<open>max_retries\<close> times, and the
  last failure goes to \<open>on_failure\<close>. The tables may change between attempts.
\<close>

fun attempt_task ::
  "nat \<Rightarrow> ('st \<Rightarrow> (exn + 'o) \<times> 'st) \<Rightarrow> (nat \<Rightarrow> 'st \<Rightarrow> 'st) \<Rightarrow> nat \<Rightarrow> 'st \<Rightarrow> (exn + 'o) \<times> nat \<times> 'st"
where
  "attempt_task 0 body between retries st =
     (let (r, st1) = body st in (r, retries, st1))"
| "attempt_task (Suc left) body between retries st =
     (case body st of
        (Inr out, st1) \<Rightarrow> (Inr out, retries, st1)
      | (Inl e, st1) \<Rightarrow> attempt_task left body between (Suc retries) (between retries st1))"

definition exhausted_detail :: "nat \<Rightarrow> task_run \<Rightarrow> json dict" where
  "exhausted_detail retries r =
     dict_update (case tr_error_detail r of None \<Rightarrow> [] | Some d \<Rightarrow> d)
       [(''retries_exhausted'', JBool True), (''retries'', JInt (int retries)),
        (''max_retries'', JInt (int MAX_RETRIES))]"

text \<open>
  \<open>_mark_retries_exhausted\<close>: the newest run of the task carries the signal. Recording it is best effort:
  a failure is logged and goes no further.
\<close>

definition mark_retries_exhausted :: "string \<Rightarrow> nat \<Rightarrow> 'c run_state \<Rightarrow> 'c run_state" where
  "mark_retries_exhausted task_id retries st =
     (if task_id = [] then st
      else case first_row (order_desc tr_created_at (filter (\<lambda>r. tr_task_id r = task_id) (db_runs (control_of st)))) of
          None \<Rightarrow> st
        | Some run \<Rightarrow>
            in_control (\<lambda>db. emit_event (tr_id run) ''complete'' ''error''
                (Some [(''retries_exhausted'', JBool True), (''retries'', JInt (int retries)),
                       (''max_retries'', JInt (int MAX_RETRIES))]) None
                (update_run (tr_id run) (\<lambda>r. r\<lparr>tr_error_detail := Some (exhausted_detail retries r)\<rparr>) db)) st)"

text \<open>The worker's task \<open>run_collection\<close>.\<close>

definition run_collection ::
  "('c, 'a) run_env \<Rightarrow> string \<Rightarrow> json dict \<Rightarrow> string option \<Rightarrow> string option \<Rightarrow> (nat \<Rightarrow> 'c run_state \<Rightarrow> 'c run_state) \<Rightarrow>
   'c run_state \<Rightarrow> (exn + pipeline_outcome) \<times> 'c run_state"
where
  "run_collection env task_id parameters request_id hostname between st =
     (let (r, retries, st1) = attempt_task MAX_RETRIES
            (run_collection_pipeline env task_id parameters request_id hostname) between 0 st
      in case r of
           Inr out \<Rightarrow> (Inr out, st1)
         | Inl e \<Rightarrow> (Inl e, if retries \<ge> MAX_RETRIES \<and> \<not> re_signal_fails env
                then mark_retries_exhausted task_id retries st1 else st1))"

text \<open>The worker's task \<open>run_scheduled_collection\<close>: the same retries, no signal when they are exhausted.\<close>

definition run_scheduled_collection ::
  "('c, 'a) run_env \<Rightarrow> string \<Rightarrow> string \<Rightarrow> json dict \<Rightarrow> string \<Rightarrow> string option \<Rightarrow> (nat \<Rightarrow> 'c run_state \<Rightarrow> 'c run_state) \<Rightarrow>
   'c run_state \<Rightarrow> (exn + pipeline_outcome) \<times> 'c run_state"
where
  "run_scheduled_collection env schedule_id source_id parameters request_id hostname between st =
     (let (r, _, st1) = attempt_task MAX_RETRIES
            (run_scheduled_pipeline env schedule_id source_id parameters (Some request_id) (Some request_id) hostname)
            between 0 st
      in (r, st1))"

end
