(* ===== verification/RunnerProps.thy ===== *)
theory RunnerProps
  imports TaskRunner
begin

text \<open>
  What the runner promises: every attempt ends with a verdict on its run and its task, an occurrence
  of a schedule creates one task however often it is tried, retries are bounded and their exhaustion
  is visible; and where the default agent takes over from the configuration of a source.
\<close>

section \<open>Tasks through the pipeline\<close>

text \<open>The pipeline changes at most the status of its own task, while it enriches.\<close>

definition tasks_kept :: "string \<Rightarrow> 'c pipe_state \<Rightarrow> 'c pipe_state \<Rightarrow> bool" where
  "tasks_kept task st st' \<longleftrightarrow> db_tasks (pp_control st') = db_tasks (pp_control st) \<or>
     db_tasks (pp_control st') = db_tasks (set_task_status task ''ai_processing'' (pp_control st))"

definition same_tasks :: "'c pipe_state \<Rightarrow> 'c pipe_state \<Rightarrow> bool" where
  "same_tasks st st' \<longleftrightarrow> db_tasks (pp_control st') = db_tasks (pp_control st)"

lemma tasks_kept_around: "same_tasks a b \<Longrightarrow> tasks_kept task b c \<Longrightarrow> same_tasks c d \<Longrightarrow> tasks_kept task a d"
  by (simp add: same_tasks_def tasks_kept_def set_task_status_def)

lemma ai_step_tasks: "tasks_kept task st (snd (snd (ai_step env task run en agent source rs st)))"
  by (simp add: tasks_kept_def ai_step_def enrich_batch_def frame_simps Let_def
      split: option.splits list.splits sum.splits prod.splits)

lemma step_tasks:
  "same_tasks st (snd (cursor_step env run c st))"
  "same_tasks st (snd (notify_step env run en source rs n st))"
  "same_tasks st (complete_step env run source k w rs el d adv st)"
  "same_tasks st (snd (now_in st))"
  by (simp_all add: same_tasks_def cursor_step_def notify_step_def complete_step_def case_prod_unfold Let_def
      frame_simps split: option.splits save_phase.splits)

lemma same_tasks_trans: "same_tasks a b \<Longrightarrow> same_tasks b c \<Longrightarrow> same_tasks a c"
  by (simp add: same_tasks_def)

lemma after_write_tasks:
  "tasks_kept task st (snd (after_write env task run ai notify agent source t0 c el w st))"
proof -
  obtain adv st1 where cur: "cursor_step env run c st = (adv, st1)" by fastforce
  obtain k rs st2 where ai: "ai_step env task run ai agent source (sk_records w) st1 = (k, rs, st2)"
    by (metis prod_cases3)
  obtain sent st3 where nt: "notify_step env run notify source rs k st2 = (sent, st3)" by fastforce
  obtain t4 st4 where now: "now_in st3 = (t4, st4)" by fastforce
  have 1: "same_tasks st st1" using step_tasks(1)[of st env run c] by (simp add: cur)
  have 2: "tasks_kept task st1 st2"
    using ai_step_tasks[where env = env and task = task and run = run and en = ai and agent = agent
        and source = source and rs = "sk_records w" and st = st1] by (simp add: ai)
  have 3: "same_tasks st2 st3"
    using step_tasks(2)[of st2 env run notify source rs k] by (simp add: nt)
  have 4: "same_tasks st3 st4" using step_tasks(4)[of st3] by (simp add: now)
  have 5: "same_tasks st4 (complete_step env run source (length (cr_items c)) w rs el (millis t4 t0) adv st4)"
    by (rule step_tasks(3))
  show ?thesis
    using tasks_kept_around[OF 1 2 same_tasks_trans[OF same_tasks_trans[OF 3 4] 5]]
    by (simp add: after_write_def cur ai nt now Let_def)
qed

lemma run_pipeline_tasks:
  assumes "run_pipeline env task source params ai notify agent run_id sink lineage st = (r, st')"
  shows "tasks_kept task st st'" "db_runs (pp_control st') = db_runs (pp_control st)"
    "db_schedules (pp_control st') = db_schedules (pp_control st)"
proof -
  have "tasks_kept task st st' \<and> db_runs (pp_control st') = db_runs (pp_control st) \<and>
      db_schedules (pp_control st') = db_schedules (pp_control st)"
    using assms
  proof (cases rule: run_pipeline_cases)
    case (completed c w db el t0 st3 res)
    have "tasks_kept task st3 st'"
      using after_write_tasks[where env = env and task = task and run = "run_of run_id" and ai = ai
          and notify = notify and agent = agent and source = source and ?t0.0 = t0 and c = c and el = el
          and w = w and st = st3] by (simp add: completed(6))
    moreover have "db_tasks (pp_control st3) = db_tasks (pp_control st)"
      "db_runs (pp_control st3) = db_runs (pp_control st)" "db_schedules (pp_control st3) = db_schedules (pp_control st)"
      using completed(4) by (simp_all add: written_to_def untouched_def)
    moreover have "db_runs (pp_control st') = db_runs (pp_control st3)"
      "db_schedules (pp_control st') = db_schedules (pp_control st3)"
      using after_write_result(6)[OF completed(6)] by (simp_all add: sources_kept_def)
    ultimately show ?thesis by (simp add: tasks_kept_def set_task_status_def)
  qed (simp_all add: quiet_def untouched_def written_to_def tasks_kept_def)
  then show "tasks_kept task st st'" "db_runs (pp_control st') = db_runs (pp_control st)"
    "db_schedules (pp_control st') = db_schedules (pp_control st)" by simp_all
qed

section \<open>One attempt\<close>

lemma in_control_simps [simp]:
  "control_of (in_control f st) = f (control_of st)" "rn_plans (in_control f st) = rn_plans st"
  by (simp_all add: in_control_def control_of_def)

lemma update_task_frame [frame_simps]:
  "db_sources (update_task t f db) = db_sources db" "db_runs (update_task t f db) = db_runs db"
  "db_schedules (update_task t f db) = db_schedules db"
  by (simp_all add: update_task_def)

lemma update_run_frame [frame_simps]:
  "db_sources (update_run t g db) = db_sources db" "db_tasks (update_run t g db) = db_tasks db"
  "db_schedules (update_run t g db) = db_schedules db"
  by (simp_all add: update_run_def)

lemma get_task_update:
  assumes "\<And>t. ct_id (f t) = ct_id t"
  shows "get_collection_task (update_task tid f db) t =
    (if t = tid then map_option f (get_collection_task db tid) else get_collection_task db t)"
  using find_map_update_same[where key = ct_id and f = f, OF assms]
    find_map_update_other[where key = ct_id and f = f, OF assms]
  by (simp add: get_collection_task_def update_task_def)

text \<open>Only the rows of one task change, and of these only the status and the error.\<close>

definition task_core :: "collection_task \<Rightarrow> collection_task" where
  "task_core t = t\<lparr>ct_status := [], ct_error_message := None\<rparr>"

definition only_task :: "string \<Rightarrow> collection_task list \<Rightarrow> collection_task list \<Rightarrow> bool" where
  "only_task task_id tasks tasks' \<longleftrightarrow>
     (\<exists>g. tasks' = map (\<lambda>t. if ct_id t = task_id then g t else t) tasks \<and> (\<forall>t. task_core (g t) = task_core t))"

lemma task_core_eq:
  "task_core a = task_core b \<Longrightarrow> ct_id a = ct_id b \<and> ct_source_id a = ct_source_id b \<and> ct_trigger_type a = ct_trigger_type b"
  by (cases a; cases b) (simp add: task_core_def)

lemma only_taskI:
  "(\<And>t. task_core (g t) = task_core t) \<Longrightarrow> only_task tid (db_tasks db) (db_tasks (update_task tid g db))"
  unfolding only_task_def update_task_def by (intro exI[of _ g]) simp

lemma only_task_trans:
  assumes "only_task tid a b" and "only_task tid b c"
  shows "only_task tid a c"
proof -
  obtain g h where g: "b = map (\<lambda>t. if ct_id t = tid then g t else t) a" "\<And>t. task_core (g t) = task_core t"
    and h: "c = map (\<lambda>t. if ct_id t = tid then h t else t) b" "\<And>t. task_core (h t) = task_core t"
    using assms unfolding only_task_def by blast
  have "ct_id (g t) = ct_id t" for t using task_core_eq[OF g(2)] by simp
  then have "c = map (\<lambda>t. if ct_id t = tid then h (g t) else t) a" by (simp add: g(1) h(1))
  then show ?thesis unfolding only_task_def by (intro exI[of _ "\<lambda>t. h (g t)"]) (simp add: g(2) h(2))
qed

lemma only_task_refl [simp]: "only_task tid ts ts"
  unfolding only_task_def by (intro exI[of _ "\<lambda>t. t"]) simp

lemma only_task_kept: "tasks_kept tid p p' \<Longrightarrow> only_task tid (db_tasks (pp_control p)) (db_tasks (pp_control p'))"
  using only_taskI[of "\<lambda>t. t\<lparr>ct_status := ''ai_processing''\<rparr>" tid "pp_control p"]
  by (auto simp: tasks_kept_def set_task_status_def update_task_def task_core_def)

lemma find_append: "find P (xs @ ys) = (case find P xs of Some x \<Rightarrow> Some x | None \<Rightarrow> find P ys)"
  by (induction xs) auto


lemma get_task_cong: "db_tasks db' = db_tasks db \<Longrightarrow> get_collection_task db' t = get_collection_task db t"
  by (simp add: get_collection_task_def)



text \<open>The anchors of shared stores come after the tasks that are there.\<close>

definition anchors_after :: "collection_task list \<Rightarrow> collection_task list \<Rightarrow> bool" where
  "anchors_after tasks tasks' \<longleftrightarrow>
     (\<exists>anchors. tasks' = tasks @ anchors \<and> list_all (\<lambda>t. ct_trigger_type t = ''plan_shared'') anchors)"

lemma anchors_after_refl [simp]: "anchors_after ts ts"
  by (simp add: anchors_after_def)

lemma trigger_plans_frame:
  "db_runs (control_of (trigger_plans env sid tid ps st)) = db_runs (control_of st)"
  "db_schedules (control_of (trigger_plans env sid tid ps st)) = db_schedules (control_of st)"
  by (simp_all add: trigger_plans_def control_of_def case_prod_unfold Let_def)

lemma trigger_plans_tasks:
  "anchors_after (db_tasks (control_of st)) (db_tasks (control_of (trigger_plans env sid tid ps st)))"
  using shared.R_trigger[of "plan_view st" "re_fault env" sid tid ps]
  by (auto simp: anchored_def anchors_after_def trigger_plans_def plan_view_def control_of_def case_prod_unfold Let_def
      prefix_def list_all_iff)

text \<open>The state after phase 1 and its event.\<close>

lemma start_run_state:
  assumes "start_run task cid wid st = (rid, st1)" and "st2 = announce_trigger rid task st1"
  obtains run where "db_runs (control_of st2) = db_runs (control_of st) @ [run]" "tr_id run = rid"
    "tr_task_id run = ct_id task" "tr_status run = ''running''" "tr_finished_at run = None"
    "tr_celery_task_id run = cid" "tr_worker_id run = wid" "tr_error_message run = None"
    "rid = fst (fresh_uuid (rn_plans st))" "db_sources (control_of st2) = db_sources (control_of st)"
    "db_schedules (control_of st2) = db_schedules (control_of st)"
    "db_tasks (control_of st2) = db_tasks (update_task (ct_id task) (\<lambda>t. t\<lparr>ct_status := ''running''\<rparr>) (control_of st))"
proof -
  obtain t1 db1 where u1: "utcnow (control_of st) = (t1, db1)" by fastforce
  obtain t2 db2 where u2: "utcnow db1 = (t2, db2)" by fastforce
  have f: "db_runs db2 = db_runs (control_of st)" "db_tasks db2 = db_tasks (control_of st)"
    "db_sources db2 = db_sources (control_of st)" "db_schedules db2 = db_schedules (control_of st)"
    using utcnow_frame[of "control_of st"] utcnow_frame[of db1] by (simp_all add: u1 u2)
  let ?run = "\<lparr>tr_id = rid, tr_task_id = ct_id task, tr_status = ''running'', tr_celery_task_id = cid,
     tr_worker_id = wid, tr_created_at = t2, tr_started_at = Some t1, tr_finished_at = None, tr_duration_ms = None,
     tr_records_collected = 0, tr_error_message = None, tr_error_detail = None, tr_node_url = None\<rparr>"
  have st1: "control_of st1 = update_task (ct_id task) (\<lambda>t. t\<lparr>ct_status := ''running''\<rparr>)
      (db2\<lparr>db_runs := db_runs db2 @ [?run]\<rparr>)" "rid = fst (fresh_uuid (rn_plans st))"
    using assms(1) by (auto simp: start_run_def u1 u2 case_prod_unfold Let_def)
  show thesis
    by (rule that[of ?run])
      (simp_all add: assms(2) announce_trigger_def frame_simps st1(1) f update_task_def st1(2)[symmetric])
qed


lemma verdict_ids [simp]:
  "ct_id (task_verdict res t) = ct_id t" "tr_id (run_verdict res r) = tr_id r" "tr_id (run_numbers res e r) = tr_id r"
  "tr_task_id (run_verdict res r) = tr_task_id r" "tr_task_id (run_numbers res e r) = tr_task_id r"
  "tr_finished_at (run_verdict res r) = tr_finished_at r" "tr_finished_at (run_numbers res e r) = Some e"
  by (simp_all add: task_verdict_def run_verdict_def run_numbers_def Let_def)

definition verdict :: "pipeline_result \<Rightarrow> string" where
  "verdict res = (if py_truthy (dict_get (px_metadata res) ''awaiting_confirm'') then ''awaiting_confirm''
     else if px_success res then ''completed'' else ''failed'')"

lemma verdict_status [simp]:
  "ct_status (task_verdict res t) = verdict res" "tr_status (run_verdict res r) = verdict res"
  by (simp_all add: task_verdict_def run_verdict_def verdict_def)



text \<open>The ways through phases 3 to 5.\<close>

lemma run_source_cases:
  assumes "run_source env tid rid task source params st = (r, st')"
    and "domain_of (re_bracketed_ok env) (ds_channel_config source) = Inr host"
  obtains
    (raised) e pipe where "r = Inl e" "tasks_kept tid (rn_pipe st) pipe"
      "db_runs (pp_control pipe) = db_runs (control_of st)"
      "db_schedules (pp_control pipe) = db_schedules (control_of st)" "st' = record_raise env tid rid e (st\<lparr>rn_pipe := pipe\<rparr>)"
  | (returned) res pipe where "r = Inr (run_outcome rid res)" "tasks_kept tid (rn_pipe st) pipe"
      "db_runs (pp_control pipe) = db_runs (control_of st)"
      "db_schedules (pp_control pipe) = db_schedules (control_of st)"
      "db_schedules (control_of st') = db_schedules (control_of (persist_outcome tid rid res (st\<lparr>rn_pipe := pipe\<rparr>)))"
      "db_runs (control_of st') = db_runs (control_of (persist_outcome tid rid res (st\<lparr>rn_pipe := pipe\<rparr>)))"
      "anchors_after (db_tasks (control_of (persist_outcome tid rid res (st\<lparr>rn_pipe := pipe\<rparr>)))) (db_tasks (control_of st'))"
      "px_success res \<and> px_stored res > 0 \<or>
       db_tasks (control_of st') = db_tasks (control_of (persist_outcome tid rid res (st\<lparr>rn_pipe := pipe\<rparr>)))"
proof -
  let ?agent = "resolve_agent_config (re_default_prompt env) (re_agents env) (pe_providers (re_pipe env)) (ct_agent_id task)"
  obtain q pipe where p: "run_pipeline (re_pipe env) tid source (dict_update (ct_parameters task) params) True
      (ct_recovery_mode task \<noteq> Some ''recollect'') ?agent (Some rid) None None (rn_pipe st) = (q, pipe)" by fastforce
  note kept = run_pipeline_tasks[OF p]
  have runs: "db_runs (pp_control pipe) = db_runs (control_of st)"
    "db_schedules (pp_control pipe) = db_schedules (control_of st)" using kept(2,3) by (simp_all add: control_of_def)
  show thesis
  proof (cases q)
    case (Inl e)
    have "r = Inl e" "st' = record_raise env tid rid e (st\<lparr>rn_pipe := pipe\<rparr>)"
      using assms(1) Inl unfolding run_source_def assms(2) sum.case Let_def p prod.case by simp_all
    then show thesis using raised kept(1) runs by blast
  next
    case (Inr res)
    let ?st2 = "persist_outcome tid rid res (st\<lparr>rn_pipe := pipe\<rparr>)"
    have r: "r = Inr (run_outcome rid res)"
      and st': "st' = (if px_success res \<and> px_stored res > 0 \<and> ct_source_id task \<noteq> []
         then trigger_plans env (ct_source_id task) tid params ?st2 else ?st2)"
      using assms(1) Inr unfolding run_source_def assms(2) sum.case Let_def p prod.case by simp_all
    show thesis by (rule returned[OF r kept(1) runs]) (simp_all add: st' trigger_plans_frame trigger_plans_tasks)
  qed
qed


text \<open>
  The host is derived before the handler: a source with a malformed address raises out of the runner
  and leaves its run and its task running.
\<close>

lemma malformed_host_stays_running:
  assumes "get_collection_task (control_of st) task_id = Some task"
    and "get_source (control_of st) (ct_source_id task) = Some source"
    and "domain_of (re_bracketed_ok env) (ds_channel_config source) = Inl e"
  shows "\<exists>st' run. run_collection_pipeline env task_id params cid wid st = (Inl e, st') \<and>
    db_runs (control_of st') = db_runs (control_of st) @ [run] \<and> tr_status run = ''running'' \<and>
    map_option ct_status (get_collection_task (control_of st') task_id) = Some ''running''"
proof -
  have tid: "ct_id task = task_id" using assms(1) by (auto simp: get_collection_task_def find_Some_iff)
  obtain rid st1 where s1: "start_run task cid wid st = (rid, st1)" by fastforce
  define st2 where "st2 = announce_trigger rid task st1"
  obtain run where run: "db_runs (control_of st2) = db_runs (control_of st) @ [run]" "tr_status run = ''running''"
    "db_sources (control_of st2) = db_sources (control_of st)"
    "db_tasks (control_of st2) = db_tasks (update_task (ct_id task) (\<lambda>t. t\<lparr>ct_status := ''running''\<rparr>) (control_of st))"
    by (rule start_run_state[OF s1 st2_def]) blast
  have src: "get_source (control_of st2) (ct_source_id task) = Some source"
    using assms(2) run(3) by (simp add: get_source_def)
  have "run_collection_pipeline env task_id params cid wid st = (Inl e, st2)"
    by (simp add: run_collection_pipeline_def assms(1,3) s1 st2_def[symmetric] src run_source_def Let_def)
  moreover have "map_option ct_status (get_collection_task (control_of st2) task_id) = Some ''running''"
    using get_task_cong[OF run(4), of task_id] get_task_update[of "\<lambda>t. t\<lparr>ct_status := ''running''\<rparr>"] assms(1) by (simp add: tid)
  ultimately show ?thesis using run(1,2) by blast
qed

section \<open>The default agent\<close>

lemma dict_set_nonempty: "dict_set d k v \<noteq> []"
  by (cases d) (auto split: prod.splits)

lemma dict_update_nonempty: "d \<noteq> [] \<Longrightarrow> dict_update d d' \<noteq> []"
proof (induction d' arbitrary: d)
  case (Cons kv d')
  obtain k v where "kv = (k, v)" by fastforce
  with Cons.IH[of "dict_set d k v"] show ?case by (simp add: dict_update_def dict_set_nonempty)
qed (simp add: dict_update_def)

text \<open>
  As soon as one provider is enabled, no run uses the \<open>ai_config\<close> of its source: the agent of the
  task or the default agent takes its place.
\<close>

lemma provider_hides_source_config:
  assumes "p \<in> set providers" and "mp_enabled p"
  shows "effective_config (resolve_agent_config d agents providers agent_id) source =
      resolve_agent_config d agents providers agent_id"
    "resolve_agent_config d agents providers agent_id \<noteq> None"
proof -
  let ?c = "resolve_agent_config d agents providers agent_id"
  have "p \<in> set (order_asc mp_created_at (filter mp_enabled providers))" using assms by simp
  then obtain q where "first_row (order_asc mp_created_at (filter mp_enabled providers)) = Some q"
    by (cases "order_asc mp_created_at (filter mp_enabled providers)") (auto simp: first_row_def)
  moreover have "agent_fields providers a \<noteq> []" for a
    by (simp add: agent_fields_def dict_update_nonempty)
  moreover have "dict_update [(''processor_type'', JStr ''openai''), (''model'', opt_str (mp_default_model q)),
        (''prompt_template'', JStr d)] (credential_fields q) \<noteq> []" by (simp add: dict_update_nonempty)
  ultimately have "\<exists>c. ?c = Some c \<and> c \<noteq> []"
    by (simp add: resolve_agent_config_def Let_def split: option.splits)
  then obtain kv kvs where "?c = Some (kv # kvs)" by (metis neq_Nil_conv)
  then show "effective_config ?c source = ?c" "?c \<noteq> None" by (simp_all add: effective_config_def)
qed

section \<open>Occurrences\<close>

text \<open>
  The tasks, without the anchors of shared stores and without those under the keys \<open>others\<close>, which
  are left to whoever else creates tasks.
\<close>

definition own_ids :: "string set \<Rightarrow> collection_task list \<Rightarrow> string list" where
  "own_ids others tasks = map ct_id (filter (\<lambda>t. ct_id t \<notin> others \<and> ct_trigger_type t \<noteq> ''plan_shared'') tasks)"

definition task_ids :: "string set \<Rightarrow> 'c run_state \<Rightarrow> string list" where
  "task_ids others st = own_ids others (db_tasks (control_of st))"

lemma get_task_None: "get_collection_task db t = None \<longleftrightarrow> t \<notin> ct_id ` set (db_tasks db)"
  by (auto simp: get_collection_task_def find_None_iff)

definition tasks_grow :: "string \<Rightarrow> collection_task list \<Rightarrow> collection_task list \<Rightarrow> bool" where
  "tasks_grow task_id tasks tasks' \<longleftrightarrow> (\<exists>own. only_task task_id tasks own \<and> anchors_after own tasks')"

lemma own_ids_grow:
  assumes "tasks_grow tid tasks tasks'"
  shows "own_ids others tasks' = own_ids others tasks"
proof -
  obtain g anchors where g: "tasks' = map (\<lambda>t. if ct_id t = tid then g t else t) tasks @ anchors"
      "\<And>t. task_core (g t) = task_core t"
    and anchors: "list_all (\<lambda>t. ct_trigger_type t = ''plan_shared'') anchors"
    using assms unfolding tasks_grow_def only_task_def anchors_after_def by blast
  have same: "ct_id (g t) = ct_id t" "ct_trigger_type (g t) = ct_trigger_type t" for t
    using task_core_eq[OF g(2)[of t]] by simp_all
  have "own_ids others (map (\<lambda>t. if ct_id t = tid then g t else t) tasks) = own_ids others tasks"
    unfolding own_ids_def by (induction tasks) (auto simp: same)
  moreover have "own_ids others anchors = []" using anchors by (auto simp: own_ids_def filter_empty_conv list_all_iff)
  ultimately show ?thesis by (simp add: g(1) own_ids_def)
qed

lemma only_task_grows: "only_task tid ts ts' \<Longrightarrow> tasks_grow tid ts ts'"
  unfolding tasks_grow_def by fastforce

lemma grow_after: "only_task tid a b \<Longrightarrow> tasks_grow tid b c \<Longrightarrow> tasks_grow tid a c"
  unfolding tasks_grow_def using only_task_trans by blast

text \<open>An attempt touches its task, adds anchors, leaves schedules alone, and keeps the runs that are there.\<close>

lemma in_control_keeps:
  "only_task t (db_tasks (control_of st)) (db_tasks (control_of (source_missing t r st)))"
  "db_schedules (control_of (source_missing t r st)) = db_schedules (control_of st)"
  "map tr_task_id (db_runs (control_of (source_missing t r st))) = map tr_task_id (db_runs (control_of st))"
  "only_task t (db_tasks (control_of st)) (db_tasks (control_of (record_raise env t r e st)))"
  "db_schedules (control_of (record_raise env t r e st)) = db_schedules (control_of st)"
  "map tr_task_id (db_runs (control_of (record_raise env t r e st))) = map tr_task_id (db_runs (control_of st))"
  "only_task t (db_tasks (control_of st)) (db_tasks (control_of (persist_outcome t r res st)))"
  "db_schedules (control_of (persist_outcome t r res st)) = db_schedules (control_of st)"
  "map tr_task_id (db_runs (control_of (persist_outcome t r res st))) = map tr_task_id (db_runs (control_of st))"
proof -
  have only: "only_task t (db_tasks (control_of st)) (db_tasks db)"
    if "db_tasks db = db_tasks (update_task t g (control_of st))"
      and "\<And>x. task_core (g x) = task_core x" for db :: control_db and g
    using only_taskI[of g t "control_of st"] that by simp
  show "only_task t (db_tasks (control_of st)) (db_tasks (control_of (source_missing t r st)))"
    by (rule only[where g = "\<lambda>x. x\<lparr>ct_status := ''failed'', ct_error_message := Some ''Source not found''\<rparr>"])
      (simp_all add: source_missing_def frame_simps task_core_def)
  show "only_task t (db_tasks (control_of st)) (db_tasks (control_of (record_raise env t r e st)))"
    by (rule only[where g = "\<lambda>x. x\<lparr>ct_status := ''failed'', ct_error_message := Some (raise_message env e)\<rparr>"])
      (simp_all add: record_raise_def Let_def case_prod_unfold frame_simps task_core_def)
  show "only_task t (db_tasks (control_of st)) (db_tasks (control_of (persist_outcome t r res st)))"
    by (rule only[where g = "task_verdict res"])
      (simp_all add: persist_outcome_def Let_def case_prod_unfold frame_simps update_task_def task_verdict_def task_core_def)
qed (auto simp: source_missing_def record_raise_def persist_outcome_def Let_def case_prod_unfold frame_simps update_run_def)

lemma run_source_keeps:
  assumes "run_source env tid rid task source params st = (r, st')"
  shows "tasks_grow tid (db_tasks (control_of st)) (db_tasks (control_of st'))"
    "db_schedules (control_of st') = db_schedules (control_of st)"
    "map tr_task_id (db_runs (control_of st')) = map tr_task_id (db_runs (control_of st))"
proof -
  have "tasks_grow tid (db_tasks (control_of st)) (db_tasks (control_of st')) \<and>
    db_schedules (control_of st') = db_schedules (control_of st) \<and>
    map tr_task_id (db_runs (control_of st')) = map tr_task_id (db_runs (control_of st))"
  proof (cases "domain_of (re_bracketed_ok env) (ds_channel_config source)")
    case (Inl e)
    with assms show ?thesis by (simp add: run_source_def only_task_grows)
  next
    case (Inr host)
    have c: "control_of (st\<lparr>rn_pipe := pipe\<rparr>) = pp_control pipe" for pipe by (simp add: control_of_def)
    from assms Inr show ?thesis
    proof (cases rule: run_source_cases)
      case (raised e pipe)
      have "only_task tid (db_tasks (pp_control pipe)) (db_tasks (control_of st'))"
        using in_control_keeps(4)[of tid "st\<lparr>rn_pipe := pipe\<rparr>" env rid e] by (simp add: raised(5) c)
      from only_task_trans[OF only_task_kept[OF raised(2), folded control_of_def] this] raised show ?thesis
        by (simp add: only_task_grows in_control_keeps c)
    next
      case (returned res pipe)
      have "only_task tid (db_tasks (pp_control pipe)) (db_tasks (control_of (persist_outcome tid rid res (st\<lparr>rn_pipe := pipe\<rparr>))))"
        using in_control_keeps(7)[of tid "st\<lparr>rn_pipe := pipe\<rparr>" rid res] by (simp add: c)
      from only_task_trans[OF only_task_kept[OF returned(2), folded control_of_def] this] returned(7)
      have "tasks_grow tid (db_tasks (control_of st)) (db_tasks (control_of st'))" unfolding tasks_grow_def by blast
      with returned show ?thesis by (simp add: in_control_keeps c)
    qed
  qed
  then show "tasks_grow tid (db_tasks (control_of st)) (db_tasks (control_of st'))"
    "db_schedules (control_of st') = db_schedules (control_of st)"
    "map tr_task_id (db_runs (control_of st')) = map tr_task_id (db_runs (control_of st))" by simp_all
qed

lemma attempt_keeps:
  assumes "run_collection_pipeline env task_id params cid wid st = (r, st')"
  shows "tasks_grow task_id (db_tasks (control_of st)) (db_tasks (control_of st'))"
    "db_schedules (control_of st') = db_schedules (control_of st)"
    "map tr_task_id (db_runs (control_of st')) = map tr_task_id (db_runs (control_of st)) \<or>
     map tr_task_id (db_runs (control_of st')) = map tr_task_id (db_runs (control_of st)) @ [task_id]"
    "r = Inl e \<Longrightarrow> map tr_task_id (db_runs (control_of st')) = map tr_task_id (db_runs (control_of st)) @ [task_id]"
proof -
  have "tasks_grow task_id (db_tasks (control_of st)) (db_tasks (control_of st')) \<and>
    db_schedules (control_of st') = db_schedules (control_of st) \<and>
    ((\<exists>out. r = Inr out) \<and> map tr_task_id (db_runs (control_of st')) = map tr_task_id (db_runs (control_of st)) \<or>
     map tr_task_id (db_runs (control_of st')) = map tr_task_id (db_runs (control_of st)) @ [task_id])"
  proof (cases "get_collection_task (control_of st) task_id")
    case None
    with assms show ?thesis by (auto simp: run_collection_pipeline_def only_task_grows)
  next
    case (Some task)
    have tid: "ct_id task = task_id" using Some by (auto simp: get_collection_task_def find_Some_iff)
    obtain rid st1 where s1: "start_run task cid wid st = (rid, st1)" by fastforce
    define st2 where "st2 = announce_trigger rid task st1"
    obtain run where run: "db_runs (control_of st2) = db_runs (control_of st) @ [run]" "tr_task_id run = ct_id task"
      "db_schedules (control_of st2) = db_schedules (control_of st)"
      "db_tasks (control_of st2) = db_tasks (update_task (ct_id task) (\<lambda>t. t\<lparr>ct_status := ''running''\<rparr>) (control_of st))"
      by (rule start_run_state[OF s1 st2_def]) blast
    have only: "only_task task_id (db_tasks (control_of st)) (db_tasks (control_of st2))"
      unfolding run(4) tid by (rule only_taskI) (simp add: task_core_def)
    have r: "(r, st') = (case get_source (control_of st2) (ct_source_id task) of
        None \<Rightarrow> (Inr (error_outcome ''Source not found''), source_missing task_id rid st2)
      | Some source \<Rightarrow> run_source env task_id rid task source params st2)"
      using assms unfolding run_collection_pipeline_def Some option.case s1 Let_def prod.case st2_def[symmetric]
      by simp
    show ?thesis
    proof (cases "get_source (control_of st2) (ct_source_id task)")
      case None
      with r have "st' = source_missing task_id rid st2" "r = Inr (error_outcome ''Source not found'')" by simp_all
      with only_task_trans[OF only in_control_keeps(1)[of task_id st2 rid]] run show ?thesis
        by (simp add: only_task_grows in_control_keeps tid)
    next
      case (Some source)
      with r have "run_source env task_id rid task source params st2 = (r, st')" by simp
      from run_source_keeps[OF this] run grow_after[OF only] show ?thesis by (simp add: tid)
    qed
  qed
  then show "tasks_grow task_id (db_tasks (control_of st)) (db_tasks (control_of st'))"
    "db_schedules (control_of st') = db_schedules (control_of st)"
    "map tr_task_id (db_runs (control_of st')) = map tr_task_id (db_runs (control_of st)) \<or>
     map tr_task_id (db_runs (control_of st')) = map tr_task_id (db_runs (control_of st)) @ [task_id]"
    "r = Inl e \<Longrightarrow> map tr_task_id (db_runs (control_of st')) = map tr_task_id (db_runs (control_of st)) @ [task_id]"
    by auto
qed

text \<open>The rows of a one-time schedule are off.\<close>

definition schedule_rows :: "string \<Rightarrow> 'c run_state \<Rightarrow> cron_schedule list" where
  "schedule_rows schedule_id st = filter (\<lambda>c. cs_id c = schedule_id) (db_schedules (control_of st))"

definition one_time_off :: "string \<Rightarrow> 'c run_state \<Rightarrow> bool" where
  "one_time_off schedule_id st \<longleftrightarrow> list_all (\<lambda>c. cs_is_one_time c \<longrightarrow> \<not> cs_enabled c) (schedule_rows schedule_id st)"

lemma new_task_state:
  assumes "new_task (Some occ) src params agent st = (Inr task, st1)" and "occ \<notin> others"
  shows "occ \<notin> set (task_ids others st)" "ct_id task = occ" "ct_status task = ''pending''"
    "task_ids others st1 = task_ids others st @ [occ]" "db_schedules (control_of st1) = db_schedules (control_of st)"
  using assms by (auto simp: new_task_def task_ids_def own_ids_def get_task_None Let_def split: if_splits)

lemma short_filter:
  assumes "length (filter P xs) \<le> 1" and "x \<in> set xs" "P x" and "y \<in> set xs" "P y"
  shows "x = y"
proof -
  obtain z where "set (filter P xs) \<subseteq> {z}"
    using assms(1) by (cases "filter P xs") auto
  moreover have "x \<in> set (filter P xs)" "y \<in> set (filter P xs)" using assms(2-5) by auto
  ultimately show ?thesis by blast
qed

lemma consume_schedule_state:
  assumes "find (\<lambda>c. cs_id c = schedule_id) (db_schedules (control_of st)) = Some c"
    and "length (schedule_rows schedule_id st) \<le> 1"
  shows "task_ids others (in_control (consume_schedule c) st) = task_ids others st"
    "length (schedule_rows schedule_id (in_control (consume_schedule c) st)) \<le> 1"
    "one_time_off schedule_id (in_control (consume_schedule c) st)"
proof -
  obtain now db where u: "utcnow (control_of st) = (now, db)" by fastforce
  have f: "db_tasks db = db_tasks (control_of st)" "db_schedules db = db_schedules (control_of st)"
    using utcnow_frame[of "control_of st"] by (simp_all add: u)
  have id: "cs_id c = schedule_id" "c \<in> set (db_schedules (control_of st))" using assms(1) by (auto simp: find_Some_iff)
  have same: "x = c" if "x \<in> set (db_schedules (control_of st))" "cs_id x = schedule_id" for x
    using short_filter[OF assms(2)[unfolded schedule_rows_def] that id(2,1)] .
  let ?g = "\<lambda>x. x\<lparr>cs_last_run_at := Some now, cs_enabled := (if cs_is_one_time c then False else cs_enabled x)\<rparr>"
  have rows: "schedule_rows schedule_id (in_control (consume_schedule c) st) = map ?g (schedule_rows schedule_id st)"
  proof -
    have "filter (\<lambda>x. cs_id x = schedule_id) (map (\<lambda>x. if cs_id x = schedule_id then ?g x else x) xs) =
        map ?g (filter (\<lambda>x. cs_id x = schedule_id) xs)" for xs by (induction xs) auto
    then show ?thesis by (simp add: schedule_rows_def consume_schedule_def u update_schedule_def f id(1))
  qed
  show "task_ids others (in_control (consume_schedule c) st) = task_ids others st"
    by (simp add: task_ids_def consume_schedule_def u update_schedule_def f)
  show "length (schedule_rows schedule_id (in_control (consume_schedule c) st)) \<le> 1" using assms(2) by (simp add: rows)
  show "one_time_off schedule_id (in_control (consume_schedule c) st)"
    unfolding one_time_off_def rows by (auto simp: list_all_iff schedule_rows_def dest: same)
qed

lemma occurrence_task_cases:
  assumes "occurrence_task schedule_id src params (Some occ) st = (r, st1)"
    and "length (schedule_rows schedule_id st) \<le> 1" and "occ \<notin> others"
  obtains
    (refused) e where "r = Inl e" "st1 = st"
  | (found) task where "r = Inr task" "occ \<in> set (task_ids others st)" "task_ids others st1 = task_ids others st"
      "length (schedule_rows schedule_id st1) \<le> 1" "one_time_off schedule_id st \<Longrightarrow> one_time_off schedule_id st1"
  | (created) task where "r = Inr task" "occ \<notin> set (task_ids others st)" "task_ids others st1 = task_ids others st @ [occ]"
      "length (schedule_rows schedule_id st1) \<le> 1" "one_time_off schedule_id st1"
proof -
  let ?sched = "find (\<lambda>c. cs_id c = schedule_id) (db_schedules (control_of st))"
  have off_none: "one_time_off schedule_id s" "length (schedule_rows schedule_id s) \<le> 1"
    if "?sched = None" "db_schedules (control_of s) = db_schedules (control_of st)" for s :: "'a run_state"
    using that by (auto simp: one_time_off_def schedule_rows_def find_None_iff list_all_iff filter_empty_conv)
  show thesis
  proof (cases "get_collection_task (control_of st) occ")
    case (Some task)
    show thesis
    proof (cases "ct_source_id task \<noteq> src \<or> ct_trigger_type task \<noteq> ''scheduled''")
      case True
      with assms(1) Some have "r = Inl (Exn ''RuntimeError'')" "st1 = st" by (simp_all add: occurrence_task_def)
      then show thesis by (rule refused)
    next
      case False
      have "task \<in> set (db_tasks (control_of st))" "ct_id task = occ"
        using Some by (auto simp: get_collection_task_def find_Some_iff)
      with False assms(3) have there: "occ \<in> set (task_ids others st)"
        by (auto simp: task_ids_def own_ids_def image_iff intro!: bexI[of _ task])
      show thesis
      proof (cases ?sched)
        case None
        with assms(1,2) Some False there found[of task] show thesis by (simp add: occurrence_task_def)
      next
        case (Some c)
        note cs = consume_schedule_state[OF Some assms(2)]
        have "r = Inr task" "st1 = (if ct_status task = ''pending'' then in_control (consume_schedule c) st else st)"
          using assms(1) \<open>get_collection_task (control_of st) occ = Some task\<close> False Some
          by (simp_all add: occurrence_task_def)
        with there cs assms(2) found[of task] show thesis by simp
      qed
    qed
  next
    case None
    let ?agent = "case ?sched of None \<Rightarrow> None | Some c \<Rightarrow> cs_agent_id c"
    obtain q s1 where nt: "new_task (Some occ) src params ?agent st = (q, s1)" by fastforce
    show thesis
    proof (cases q)
      case (Inl e)
      with assms(1) None nt have "r = Inl e" "st1 = st" by (simp_all add: occurrence_task_def)
      then show thesis by (rule refused)
    next
      case (Inr task)
      note new = new_task_state[OF nt[unfolded Inr] assms(3)]
      show thesis
      proof (cases ?sched)
        case None
        with assms(1) \<open>get_collection_task (control_of st) occ = None\<close> nt Inr have "r = Inr task" "st1 = s1"
          by (simp_all add: occurrence_task_def)
        with new off_none[OF None] created[of task] show thesis by simp
      next
        case (Some c)
        have s1: "find (\<lambda>c. cs_id c = schedule_id) (db_schedules (control_of s1)) = Some c"
          "length (schedule_rows schedule_id s1) \<le> 1"
          using Some assms(2) by (simp_all add: new(5) schedule_rows_def)
        have "r = Inr task" "st1 = in_control (consume_schedule c) s1"
          using assms(1) \<open>get_collection_task (control_of st) occ = None\<close> nt Inr Some new(3)
          by (simp_all add: occurrence_task_def)
        with new consume_schedule_state[OF s1] created[of task] show thesis by simp
      qed
    qed
  qed
qed

lemma occurrence_attempt_keeps:
  assumes "occurrence_task schedule_id src params occ s = (Inr task, s1)"
    and "run_scheduled_pipeline env schedule_id src params occ cid host s = (q, s')"
  shows "task_ids others s' = task_ids others s1" "schedule_rows sid s' = schedule_rows sid s1"
    "one_time_off sid s' = one_time_off sid s1"
proof -
  have "run_collection_pipeline env (ct_id task) params cid host s1 = (q, s')"
    using assms by (simp add: run_scheduled_pipeline_def)
  note kept = attempt_keeps(1,2)[OF this]
  show "task_ids others s' = task_ids others s1" using own_ids_grow[OF kept(1)] by (simp add: task_ids_def)
  show "schedule_rows sid s' = schedule_rows sid s1" by (simp add: schedule_rows_def kept(2))
  then show "one_time_off sid s' = one_time_off sid s1" by (simp add: one_time_off_def)
qed

text \<open>The runs of a task.\<close>

definition runs_of :: "string \<Rightarrow> 'c run_state \<Rightarrow> task_run list" where
  "runs_of task_id st = filter (\<lambda>r. tr_task_id r = task_id) (db_runs (control_of st))"

lemma runs_of_count:
  "length (runs_of task_id st) = length (filter (\<lambda>i. i = task_id) (map tr_task_id (db_runs (control_of st))))"
  by (simp add: runs_of_def filter_map comp_def)

text \<open>An invariant of the attempts.\<close>

lemma attempt_task_invariant:
  assumes "attempt_task left body between retries st = (r, n, st')" and "I st"
    and "\<And>s q s'. I s \<Longrightarrow> body s = (q, s') \<Longrightarrow> I s'" and "\<And>k s. I s \<Longrightarrow> I (between k s)"
  shows "I st'"
  using assms(1,2)
proof (induction left arbitrary: retries st)
  case 0
  obtain q s where "body st = (q, s)" by fastforce
  with 0 assms(3) show ?case by auto
next
  case (Suc left)
  obtain q s where b: "body st = (q, s)" by fastforce
  note Is = assms(3)[OF Suc.prems(2) b]
  show ?case
  proof (cases q)
    case (Inl e)
    with Suc.prems(1) b have "attempt_task left body between (Suc retries) (between retries s) = (r, n, st')" by simp
    then show ?thesis by (rule Suc.IH) (rule assms(4)[OF Is])
  next
    case (Inr out)
    with Suc.prems(1) b Is show ?thesis by simp
  qed
qed

text \<open>
  The attempts of a task as a list, each with its outcome and the state it left: all but the last one
  raised, and each starts where the time between two attempts has taken the tables.
\<close>

fun attempt_trail ::
  "('st \<Rightarrow> (exn + 'o) \<times> 'st) \<Rightarrow> (nat \<Rightarrow> 'st \<Rightarrow> 'st) \<Rightarrow> nat \<Rightarrow> 'st \<Rightarrow> ((exn + 'o) \<times> 'st) list \<Rightarrow> bool"
where
  "attempt_trail body between k st [] \<longleftrightarrow> False"
| "attempt_trail body between k st [(r, st')] \<longleftrightarrow> body st = (r, st')"
| "attempt_trail body between k st ((r, st') # attempt # trail) \<longleftrightarrow>
     body st = (r, st') \<and> (\<exists>e. r = Inl e) \<and> attempt_trail body between (Suc k) (between k st') (attempt # trail)"

lemma attempt_task_trail:
  assumes "attempt_task left body between retries st = (r, n, st')"
  shows "\<exists>trail. attempt_trail body between retries st trail \<and> n + 1 = retries + length trail \<and>
    length trail \<le> left + 1 \<and> last trail = (r, st') \<and> (\<forall>e. r = Inl e \<longrightarrow> length trail = left + 1)"
  using assms
proof (induction left arbitrary: retries st)
  case 0
  obtain q s where "body st = (q, s)" by fastforce
  with 0 show ?case by (intro exI[of _ "[(q, s)]"]) auto
next
  case (Suc left)
  obtain q s where b: "body st = (q, s)" by fastforce
  show ?case
  proof (cases q)
    case (Inl e)
    with Suc.prems b have "attempt_task left body between (Suc retries) (between retries s) = (r, n, st')" by simp
    from Suc.IH[OF this] obtain trail where trail: "attempt_trail body between (Suc retries) (between retries s) trail"
      "n + 1 = Suc retries + length trail" "length trail \<le> left + 1" "last trail = (r, st')"
      "\<forall>e. r = Inl e \<longrightarrow> length trail = left + 1" by blast
    moreover from trail(1) obtain a rest where "trail = a # rest" by (cases trail) auto
    ultimately show ?thesis using b Inl by (intro exI[of _ "(q, s) # trail"]) auto
  next
    case (Inr out)
    with Suc.prems b show ?thesis by (intro exI[of _ "[(q, s)]"]) auto
  qed
qed

text \<open>Every attempt adds at most one of something, and exactly one when it raises.\<close>

lemma attempt_trail_adds:
  assumes "\<And>s q s'. body s = (q, s') \<Longrightarrow> size_of s \<le> size_of s' \<and> size_of s' \<le> size_of s + (1::nat)"
    and "\<And>s e s'. body s = (Inl e, s') \<Longrightarrow> size_of s' = size_of s + 1"
    and "\<And>k s. size_of (between k s) = size_of s"
  shows "attempt_trail body between k st trail \<Longrightarrow> last trail = (r, st') \<Longrightarrow>
    size_of st' \<le> size_of st + length trail \<and> size_of st + length trail \<le> size_of st' + 1 \<and>
    (\<forall>e. r = Inl e \<longrightarrow> size_of st' = size_of st + length trail)"
proof (induction trail arbitrary: k st)
  case (Cons a trail)
  obtain q s where a: "a = (q, s)" by fastforce
  show ?case
  proof (cases trail)
    case Nil
    with Cons.prems a have b: "body st = (r, st')" by simp
    then show ?thesis using assms(1)[OF b] assms(2) Nil by auto
  next
    case next_one: (Cons b rest)
    with Cons.prems(1) a obtain e where b: "body st = (Inl e, s)" "attempt_trail body between (Suc k) (between k s) trail"
      by auto
    from Cons.IH[OF b(2)] Cons.prems(2) next_one have "size_of st' \<le> size_of (between k s) + length trail \<and>
        size_of (between k s) + length trail \<le> size_of st' + 1 \<and>
        (\<forall>e. r = Inl e \<longrightarrow> size_of st' = size_of (between k s) + length trail)" by simp
    then show ?thesis using assms(2)[OF b(1)] assms(3)[of k s] by simp
  qed
qed simp

text \<open>
  C12: a scheduled occurrence creates its task once. However often the worker retries, and whatever
  others do to their own tasks in between, of the tasks that are not theirs there are afterwards those
  from before, or those and one more under the key of the occurrence, not counting the anchors under
  which triggered plans store; and once it has been created, a one-time schedule is off, as long as
  nobody else edits the schedule in the meantime.
\<close>

theorem occurrence_created_once:
  assumes "run_scheduled_collection env schedule_id source_id params request_id host between st = (r, st')"
    and "length (schedule_rows schedule_id st) \<le> 1" and "request_id \<notin> others"
    and "\<And>k s. task_ids others (between k s) = task_ids others s"
    and "\<And>k s. schedule_rows schedule_id (between k s) = schedule_rows schedule_id s"
  shows "if request_id \<in> set (task_ids others st) then task_ids others st' = task_ids others st
    else task_ids others st' = task_ids others st \<or>
      task_ids others st' = task_ids others st @ [request_id] \<and> one_time_off schedule_id st'"
proof -
  let ?body = "run_scheduled_pipeline env schedule_id source_id params (Some request_id) (Some request_id) host"
  define I where "I s \<longleftrightarrow> length (schedule_rows schedule_id s) \<le> 1 \<and>
    (task_ids others s = task_ids others st \<or>
     request_id \<notin> set (task_ids others st) \<and> task_ids others s = task_ids others st @ [request_id] \<and> one_time_off schedule_id s)"
    for s :: "'a run_state"
  obtain n where at: "attempt_task MAX_RETRIES ?body between 0 st = (r, n, st')"
    using assms(1) by (auto simp: run_scheduled_collection_def Let_def split: prod.splits)
  have step: "I s'" if "I s" "?body s = (q, s')" for s q s'
  proof -
    have d: "length (schedule_rows schedule_id s) \<le> 1" using that(1) by (simp add: I_def)
    obtain oc s1 where oc: "occurrence_task schedule_id source_id params (Some request_id) s = (oc, s1)" by fastforce
    have after: "task_ids others s' = task_ids others s1" "schedule_rows schedule_id s' = schedule_rows schedule_id s1"
      "one_time_off schedule_id s' = one_time_off schedule_id s1" if "oc = Inr task" for task
      using occurrence_attempt_keeps[OF oc[unfolded that] \<open>?body s = (q, s')\<close>] by simp_all
    from oc d assms(3) show "I s'"
    proof (cases rule: occurrence_task_cases)
      case (refused e)
      with that oc show ?thesis by (simp add: run_scheduled_pipeline_def)
    next
      case (found task)
      with after[OF found(1)] that(1) show ?thesis by (auto simp: I_def)
    next
      case (created task)
      have "task_ids others s = task_ids others st" using created(2) that(1) by (auto simp: I_def)
      with created after[OF created(1)] show ?thesis by (simp add: I_def)
    qed
  qed
  have waits: "I (between k s)" if "I s" for k s
    using that assms(4,5) by (simp add: I_def one_time_off_def)
  have "I st" using assms(2) by (simp add: I_def)
  have "I st'" by (rule attempt_task_invariant[where I = I, OF at \<open>I st\<close> step waits])
  then show ?thesis by (auto simp: I_def)
qed

text \<open>The newest run of a task after an update that keeps the times of creation.\<close>

lemma insort_key_map: "(\<And>x. k (f x) = k x) \<Longrightarrow> insort_key k (f x) (map f ys) = map f (insort_key k x ys)"
  by (induction ys) auto

lemma sort_key_map: "(\<And>x. k (f x) = k x) \<Longrightarrow> sort_key k (map f ys) = map f (sort_key k ys)"
  unfolding sort_key_def by (induction ys) (simp_all add: insort_key_map)

lemma order_desc_map: "(\<And>x. key (f x) = key x) \<Longrightarrow> order_desc key (map f xs) = map f (order_desc key xs)"
  by (simp add: order_desc_def rev_map sort_key_map)

lemma first_row_map: "first_row (map f xs) = map_option f (first_row xs)"
  by (cases xs) (simp_all add: first_row_def)

lemma signal_recorded:
  assumes "task_id \<noteq> []" and "runs_of task_id st \<noteq> []"
  shows "\<exists>run d. first_row (order_desc tr_created_at (runs_of task_id (mark_retries_exhausted task_id n st))) = Some run \<and>
      tr_error_detail run = Some d \<and> dict_get d ''retries_exhausted'' = Some (JBool True) \<and>
      dict_get d ''retries'' = Some (JInt (int n))"
    "length (runs_of task_id (mark_retries_exhausted task_id n st)) = length (runs_of task_id st)"
proof -
  obtain run where run: "first_row (order_desc tr_created_at (runs_of task_id st)) = Some run"
    using assms(2) by (metis first_row_None not_None_eq order_desc_Nil_iff)
  let ?f = "\<lambda>r. r\<lparr>tr_error_detail := Some (exhausted_detail n r)\<rparr>"
  let ?g = "\<lambda>r. if tr_id r = tr_id run then ?f r else r"
  have "db_runs (control_of (mark_retries_exhausted task_id n st)) = map ?g (db_runs (control_of st))"
    using run assms(1) by (simp add: mark_retries_exhausted_def runs_of_def frame_simps update_run_def)
  moreover have "filter (\<lambda>r. tr_task_id r = task_id) (map ?g xs) = map ?g (filter (\<lambda>r. tr_task_id r = task_id) xs)" for xs
    by (induction xs) auto
  ultimately have runs: "runs_of task_id (mark_retries_exhausted task_id n st) = map ?g (runs_of task_id st)"
    by (simp add: runs_of_def)
  then show "length (runs_of task_id (mark_retries_exhausted task_id n st)) = length (runs_of task_id st)" by simp
  have "order_desc tr_created_at (runs_of task_id (mark_retries_exhausted task_id n st)) =
      map ?g (order_desc tr_created_at (runs_of task_id st))"
    unfolding runs by (rule order_desc_map) simp
  with run have "first_row (order_desc tr_created_at (runs_of task_id (mark_retries_exhausted task_id n st))) = Some (?f run)"
    by (simp add: first_row_map)
  moreover have "dict_get (exhausted_detail n run) ''retries_exhausted'' = Some (JBool True)"
    "dict_get (exhausted_detail n run) ''retries'' = Some (JInt (int n))"
    by (simp_all add: exhausted_detail_def dict_update_def dict_get_def)
  ultimately show "\<exists>run d. first_row (order_desc tr_created_at (runs_of task_id (mark_retries_exhausted task_id n st))) = Some run \<and>
      tr_error_detail run = Some d \<and> dict_get d ''retries_exhausted'' = Some (JBool True) \<and>
      dict_get d ''retries'' = Some (JInt (int n))" by auto
qed

text \<open>
  C13: retries are bounded and their end is visible. The worker makes at most four attempts, every one
  but the last having raised, and the outcome is that of the last one. Each attempt adds at most one run of
  the task, and exactly one when it raises. When the last one raises, four attempts were made and, unless
  that write fails, the newest of the runs they left carries the signal that the retries are exhausted. The
  task has a nonempty id, and nobody else adds or removes runs of this task between the attempts; runs of
  other tasks may come and go.
\<close>

theorem retries_end_visibly:
  assumes "run_collection env task_id params request_id host between st = (r, st')" and "task_id \<noteq> []"
    and "\<And>k s. length (runs_of task_id (between k s)) = length (runs_of task_id s)"
  shows "\<exists>trail. attempt_trail (run_collection_pipeline env task_id params request_id host) between 0 st trail \<and>
    length trail \<le> 4 \<and> fst (last trail) = r \<and>
    length (runs_of task_id st') \<le> length (runs_of task_id st) + length trail \<and>
    length (runs_of task_id st) + length trail \<le> length (runs_of task_id st') + 1 \<and>
    (case r of
       Inr out \<Rightarrow> st' = snd (last trail)
     | Inl e \<Rightarrow> length trail = 4 \<and> length (runs_of task_id st') = length (runs_of task_id st) + 4 \<and>
         (if re_signal_fails env then st' = snd (last trail)
          else \<exists>run d. first_row (order_desc tr_created_at (runs_of task_id st')) = Some run \<and>
            tr_error_detail run = Some d \<and> dict_get d ''retries_exhausted'' = Some (JBool True) \<and>
            dict_get d ''retries'' = Some (JInt 3)))"
proof -
  let ?body = "run_collection_pipeline env task_id params request_id host"
  let ?n = "\<lambda>s. length (runs_of task_id s)"
  obtain q n st1 where at: "attempt_task MAX_RETRIES ?body between 0 st = (q, n, st1)" by (metis prod_cases3)
  have r: "r = q" "st' = (case q of Inr out \<Rightarrow> st1
      | Inl e \<Rightarrow> if n \<ge> MAX_RETRIES \<and> \<not> re_signal_fails env then mark_retries_exhausted task_id n st1 else st1)"
    using assms(1) by (auto simp: run_collection_def at split: sum.splits)
  obtain trail where trail: "attempt_trail ?body between 0 st trail" "n + 1 = length trail"
    "length trail \<le> 4" "last trail = (q, st1)" "\<forall>e. q = Inl e \<longrightarrow> length trail = 4"
    using attempt_task_trail[OF at] by (auto simp: MAX_RETRIES_def)
  have one: "?n s \<le> ?n s' \<and> ?n s' \<le> ?n s + 1" if "?body s = (q', s')" for s q' s'
    using attempt_keeps(3)[OF that] by (elim disjE) (simp_all only: runs_of_count, simp_all)
  have raises: "?n s' = ?n s + 1" if "?body s = (Inl e, s')" for s e s'
    using attempt_keeps(4)[OF that refl] by (simp only: runs_of_count) simp
  note size = attempt_trail_adds[where size_of = ?n, OF one raises assms(3) trail(1,4)]
  show ?thesis
  proof (cases q)
    case (Inr out)
    with r size trail show ?thesis by (intro exI[of _ trail]) simp
  next
    case (Inl e)
    with trail have four: "length trail = 4" "n = 3" by simp_all
    with size Inl have n1: "?n st1 = ?n st + 4" by simp
    then have some: "runs_of task_id st1 \<noteq> []" by auto
    have st': "st' = (if re_signal_fails env then st1 else mark_retries_exhausted task_id 3 st1)"
      using r(2) Inl four(2) by (simp add: MAX_RETRIES_def)
    show ?thesis
      using trail(1,4) four(1) Inl r(1) n1 signal_recorded[OF assms(2) some, of 3]
      by (intro exI[of _ trail]) (simp add: st')
  qed
qed

section \<open>A task of the paged source\<close>

definition demo_run_env :: "(nat, unit) run_env" where
  "demo_run_env = \<lparr>re_pipe = demo_env, re_agents = [], re_default_prompt = [], re_bracketed_ok = (\<lambda>_. True),
     re_fault = (\<lambda>_. None), re_signal_fails = False\<rparr>"

definition demo_task :: collection_task where
  "demo_task = \<lparr>ct_id = ''t'', ct_source_id = ''s'', ct_agent_id = None, ct_trigger_type = ''manual'',
     ct_parameters = [], ct_priority = 5, ct_status = ''pending'', ct_error_message = None, ct_recovery_mode = None\<rparr>"

definition demo_runner :: "nat run_state" where
  "demo_runner = \<lparr>rn_pipe = demo_state\<lparr>pp_control := empty_db\<lparr>db_sources := [paged_source], db_tasks := [demo_task],
     db_schedules := [\<lparr>cs_id = ''c'', cs_source_id = ''s'', cs_agent_id = None, cs_cron_expression = [],
       cs_enabled = True, cs_is_one_time = True, cs_last_run_at = None\<rparr>]\<rparr>\<rparr>, rn_plans = empty_pdb\<rparr>"

lemma demo_runner_fields [simp]:
  "db_sources (control_of demo_runner) = [paged_source]" "db_tasks (control_of demo_runner) = [demo_task]"
  "db_runs (control_of demo_runner) = []" "rn_plans demo_runner = empty_pdb"
  "length (schedule_rows ''c'' demo_runner) = 1" "runs_of t demo_runner = []"
  by (simp_all add: demo_runner_def demo_state_def control_of_def schedule_rows_def runs_of_def)


text \<open>A source that cannot be reached: every attempt raises, and leaves its task and its source in place.\<close>

definition down_env :: "(nat, unit) run_env" where
  "down_env = demo_run_env\<lparr>re_pipe := demo_env\<lparr>pe_auth := (\<lambda>_ _. Inl (Exn ''ConnectionError''))\<rparr>\<rparr>"

definition there :: "string \<Rightarrow> 'c run_state \<Rightarrow> bool" where
  "there t st \<longleftrightarrow> get_source (control_of st) ''s'' = Some paged_source \<and>
     (\<exists>task. get_collection_task (control_of st) t = Some task \<and> ct_source_id task = ''s'')"

lemma get_task_grows:
  assumes "tasks_grow tid (db_tasks a) (db_tasks b)" and "get_collection_task a t = Some task"
  shows "\<exists>task'. get_collection_task b t = Some task' \<and> ct_source_id task' = ct_source_id task"
proof -
  obtain g anchors where b: "db_tasks b = map (\<lambda>t. if ct_id t = tid then g t else t) (db_tasks a) @ anchors"
    "\<And>t. task_core (g t) = task_core t"
    using assms(1) unfolding tasks_grow_def only_task_def anchors_after_def by blast
  have g: "ct_id (g t) = ct_id t" "ct_source_id (g t) = ct_source_id t" for t
    using task_core_eq[OF b(2)[of t]] by simp_all
  have "find (\<lambda>x. ct_id x = t) (map (\<lambda>t. if ct_id t = tid then g t else t) xs) =
      map_option (\<lambda>t. if ct_id t = tid then g t else t) (find (\<lambda>x. ct_id x = t) xs)" for xs
    by (induction xs) (auto simp: g)
  with assms(2) show ?thesis by (auto simp: get_collection_task_def b(1) find_append g)
qed

lemma down_pipeline:
  "\<exists>st'. run_pipeline (re_pipe down_env) tid paged_source ps True notify agent (Some rid) None None st =
     (Inl (Exn ''ConnectionError''), st')"
proof -
  have auth: "collect (pe_blank (re_pipe down_env)) (se_channels (pe_sinks (re_pipe down_env))) (pe_auth (re_pipe down_env))
      cs paged_source p = Inl (Exn ''ConnectionError'')" for cs p
    by (simp add: collect_def run_channel_def down_env_def demo_run_env_def demo_env_def paged_source_def Let_def
        split: option.splits)
  have bind: "bind_endpoint (re_pipe down_env) paged_source ps = Inr ps"
    by (simp add: bind_endpoint_def down_env_def demo_run_env_def demo_env_def paged_source_def paged_channel_def
        default_capabilities_def)
  have det: "collect_detail (re_pipe down_env) paged_source p = Inr [(''channel_type'', JStr ''paged''), (''params'', JObj p)]"
    and chan: "ds_channel_type paged_source = ''paged''" for p
    by (simp_all add: collect_detail_def paged_source_def)
  have retry: "is_retryable (Some (effective_error_type (Exn ''ConnectionError'')))" by code_simp
  show ?thesis
    using retry
    by (cases "run_of (Some rid)")
      (simp_all add: run_pipeline_def bind collect_step_def announce_collect_def chan det auth collect_raised_def
        case_prod_unfold Let_def)
qed

lemma down_attempt:
  assumes "there t st"
  obtains st' where "run_collection_pipeline down_env t ps cid wid st = (Inl (Exn ''ConnectionError''), st')" "there t st'"
proof -
  obtain task where task: "get_collection_task (control_of st) t = Some task" "ct_source_id task = ''s''"
    and src: "get_source (control_of st) ''s'' = Some paged_source"
    using assms unfolding there_def by blast
  have tid: "ct_id task = t" using task(1) by (auto simp: get_collection_task_def find_Some_iff)
  obtain rid st1 where s1: "start_run task cid wid st = (rid, st1)" by fastforce
  define st2 where "st2 = announce_trigger rid task st1"
  have srcs: "db_sources (control_of st2) = db_sources (control_of st)"
    by (rule start_run_state[OF s1 st2_def]) blast
  have src2: "get_source (control_of st2) (ct_source_id task) = Some paged_source"
    using src by (simp add: task(2) get_source_def srcs)
  have host: "domain_of (re_bracketed_ok down_env) (ds_channel_config paged_source) = Inr None"
    by (simp add: paged_source_def domain_of_def LIMITER_URL_KEYS_def dict_get_def)
  let ?agent = "resolve_agent_config (re_default_prompt down_env) (re_agents down_env)
      (pe_providers (re_pipe down_env)) (ct_agent_id task)"
  obtain pipe where pipe: "run_pipeline (re_pipe down_env) t paged_source (dict_update (ct_parameters task) ps) True
      (ct_recovery_mode task \<noteq> Some ''recollect'') ?agent (Some rid) None None (rn_pipe st2) =
      (Inl (Exn ''ConnectionError''), pipe)" using down_pipeline by blast
  let ?st' = "record_raise down_env t rid (Exn ''ConnectionError'') (st2\<lparr>rn_pipe := pipe\<rparr>)"
  have run: "run_collection_pipeline down_env t ps cid wid st = (Inl (Exn ''ConnectionError''), ?st')"
    by (simp add: run_collection_pipeline_def task(1) s1 st2_def[symmetric] src2 run_source_def host pipe Let_def)
  have "db_sources (control_of ?st') = db_sources (pp_control pipe)"
    by (simp add: record_raise_def control_of_def[of "st2\<lparr>rn_pipe := pipe\<rparr>"] case_prod_unfold Let_def frame_simps)
  also have "\<dots> = db_sources (control_of st2)"
    using run_never_edits_sources[of "re_pipe down_env" t paged_source "dict_update (ct_parameters task) ps" True
        "ct_recovery_mode task \<noteq> Some ''recollect''" ?agent "Some rid" None None "rn_pipe st2"]
    by (simp add: pipe control_of_def)
  finally have "get_source (control_of ?st') ''s'' = Some paged_source" using src by (simp add: get_source_def srcs)
  moreover have "\<exists>task. get_collection_task (control_of ?st') t = Some task \<and> ct_source_id task = ''s''"
    using get_task_grows[OF attempt_keeps(1)[OF run] task(1)] task(2) by simp
  ultimately show thesis using that run unfolding there_def by blast
qed

lemma attempt_task_raises:
  assumes "\<And>s. I s \<Longrightarrow> \<exists>s'. body s = (Inl e, s') \<and> I s'" and "\<And>k s. I s \<Longrightarrow> I (between k s)"
  shows "I st \<Longrightarrow> \<exists>n st'. attempt_task left body between k st = (Inl e, n, st')"
proof (induction left arbitrary: k st)
  case 0
  with assms(1) obtain s where "body st = (Inl e, s)" by blast
  then show ?case by simp
next
  case (Suc left)
  obtain s where s: "body st = (Inl e, s)" "I s" using assms(1)[OF Suc.prems] by blast
  from Suc.IH[OF assms(2)[OF s(2)]] s(1) show ?case by simp
qed

text \<open>Between two attempts somebody else creates a task.\<close>

definition another_task :: "nat \<Rightarrow> nat run_state \<Rightarrow> nat run_state" where
  "another_task k = in_control (\<lambda>db. db\<lparr>db_tasks := db_tasks db @ [demo_task\<lparr>ct_id := ''x''\<rparr>]\<rparr>)"

lemma another_task_keeps:
  "task_ids {''x''} (another_task k s) = task_ids {''x''} s" "schedule_rows c (another_task k s) = schedule_rows c s"
  "runs_of t (another_task k s) = runs_of t s" "there t s \<Longrightarrow> there t (another_task k s)"
  by (auto simp: another_task_def task_ids_def own_ids_def demo_task_def schedule_rows_def runs_of_def there_def
      get_source_def get_collection_task_def find_append)

lemma demo_occurrence:
  assumes "run_scheduled_pipeline down_env ''c'' ''s'' [] (Some ''o'') (Some ''o'') None demo_runner = (q, s)"
  shows "''o'' \<in> set (task_ids {''x''} s)" "length (schedule_rows ''c'' s) \<le> 1"
proof -
  obtain oc s1 where oc: "occurrence_task ''c'' ''s'' [] (Some ''o'') demo_runner = (oc, s1)" by fastforce
  have "get_collection_task (control_of demo_runner) ''o'' = None"
    by (simp add: get_collection_task_def demo_task_def)
  moreover have "get_source (control_of demo_runner) ''s'' \<noteq> None" by (simp add: get_source_def paged_source_def)
  ultimately obtain task where task: "oc = Inr task"
    using oc by (auto simp: occurrence_task_def new_task_def Let_def split: option.splits)
  have "length (schedule_rows ''c'' demo_runner) \<le> 1" by simp
  with oc have "''o'' \<in> set (task_ids {''x''} s1) \<and> length (schedule_rows ''c'' s1) \<le> 1"
    by (cases rule: occurrence_task_cases[where others = "{''x''}"]) (simp_all add: task)
  with occurrence_attempt_keeps[OF oc[unfolded task] assms]
  show "''o'' \<in> set (task_ids {''x''} s)" "length (schedule_rows ''c'' s) \<le> 1" by simp_all
qed

lemma occurrence_stays:
  assumes "''o'' \<in> set (task_ids {''x''} s)" "length (schedule_rows ''c'' s) \<le> 1"
    and "run_scheduled_pipeline env ''c'' ''s'' [] (Some ''o'') (Some ''o'') None s = (q, s')"
  shows "''o'' \<in> set (task_ids {''x''} s')" "length (schedule_rows ''c'' s') \<le> 1"
proof -
  obtain oc s1 where oc: "occurrence_task ''c'' ''s'' [] (Some ''o'') s = (oc, s1)" by fastforce
  have "''o'' \<in> set (task_ids {''x''} s') \<and> length (schedule_rows ''c'' s') \<le> 1"
  proof (rule occurrence_task_cases[OF oc assms(2), where others = "{''x''}"], goal_cases)
    case (2 e)
    with assms oc show ?case by (simp add: run_scheduled_pipeline_def)
  next
    case (3 task)
    with occurrence_attempt_keeps[OF oc[unfolded 3(1)] assms(3)] show ?case by simp
  next
    case (4 task)
    with assms(1) show ?case by simp
  qed simp
  then show "''o'' \<in> set (task_ids {''x''} s')" "length (schedule_rows ''c'' s') \<le> 1" by simp_all
qed

theorem occurrence_created_once_witness:
  "\<exists>r st'. run_scheduled_collection down_env ''c'' ''s'' [] ''o'' None another_task demo_runner = (r, st') \<and>
     task_ids {''x''} st' = [''t'', ''o''] \<and> one_time_off ''c'' st'"
proof -
  let ?body = "run_scheduled_pipeline down_env ''c'' ''s'' [] (Some ''o'') (Some ''o'') None"
  let ?I = "\<lambda>s. ''o'' \<in> set (task_ids {''x''} s) \<and> length (schedule_rows ''c'' s) \<le> 1"
  obtain r st' where run: "run_scheduled_collection down_env ''c'' ''s'' [] ''o'' None another_task demo_runner = (r, st')"
    by fastforce
  then obtain n where at: "attempt_task (Suc 2) ?body another_task 0 demo_runner = (r, n, st')"
    by (auto simp: run_scheduled_collection_def MAX_RETRIES_def numeral_eq_Suc Let_def split: prod.splits)
  obtain q s where first: "?body demo_runner = (q, s)" by fastforce
  have s: "?I s" using demo_occurrence[OF first] by simp
  have "?I st'"
  proof (cases q)
    case (Inl e)
    have rest: "attempt_task 2 ?body another_task (Suc 0) (another_task 0 s) = (r, n, st')"
      using at unfolding attempt_task.simps first Inl by simp
    show ?thesis
      by (rule attempt_task_invariant[where I = ?I, OF rest])
        (use s occurrence_stays in \<open>simp_all add: another_task_keeps\<close>, blast+)
  next
    case (Inr out)
    then show ?thesis using at s unfolding attempt_task.simps first by simp
  qed
  moreover have "task_ids {''x''} demo_runner = [''t'']" by (simp add: task_ids_def own_ids_def demo_task_def)
  ultimately show ?thesis
    using occurrence_created_once[OF run, of "{''x''}"] run by (auto simp: another_task_keeps)
qed

theorem retries_end_visibly_witness:
  "\<exists>trail st' run d. run_collection down_env ''t'' [] None None another_task demo_runner = (Inl (Exn ''ConnectionError''), st') \<and>
     attempt_trail (run_collection_pipeline down_env ''t'' [] None None) another_task 0 demo_runner trail \<and>
     length trail = 4 \<and> length (runs_of ''t'' st') = 4 \<and>
     first_row (order_desc tr_created_at (runs_of ''t'' st')) = Some run \<and> tr_error_detail run = Some d \<and>
     dict_get d ''retries_exhausted'' = Some (JBool True)"
proof -
  have "there ''t'' demo_runner"
    by (simp add: there_def get_source_def get_collection_task_def demo_task_def paged_source_def)
  moreover have "\<exists>s'. run_collection_pipeline down_env ''t'' [] None None s = (Inl (Exn ''ConnectionError''), s') \<and> there ''t'' s'"
    if "there ''t'' s" for s using that by (rule down_attempt) blast
  ultimately obtain n s where "attempt_task MAX_RETRIES (run_collection_pipeline down_env ''t'' [] None None) another_task 0 demo_runner =
      (Inl (Exn ''ConnectionError''), n, s)"
    using attempt_task_raises[where I = "there ''t''" and between = another_task, OF _ another_task_keeps(4)] by blast
  then obtain st' where run: "run_collection down_env ''t'' [] None None another_task demo_runner = (Inl (Exn ''ConnectionError''), st')"
    by (simp add: run_collection_def)
  have "\<not> re_signal_fails down_env" by (simp add: down_env_def demo_run_env_def)
  with retries_end_visibly[OF run] run show ?thesis by (auto simp: another_task_keeps)
qed

end
