(* ===== verification/SkillActions.thy ===== *)
theory SkillActions
  imports OdpClient DomainLimiter
begin

text \<open>
  The act primitive of the skill loop: the text Python gives to JSON values, perception
  (\<open>backend/skills/perception.py\<close>), the page operations (\<open>backend/skills/page.py\<close>) over
  Playwright, which is a parameter, and the executor of the fixed verbs
  (\<open>backend/skills/actions.py\<close>). A history of what was asked of Playwright is kept beside the
  page, for the statements about which actions reach it.
\<close>

section \<open>The text of a value\<close>

text \<open>\<open>repr\<close> of a string of bytes: quotes as Python chooses them, escapes for what does not print.\<close>

definition repr_char :: "char \<Rightarrow> char \<Rightarrow> string" where
  "repr_char q c =
     (let n = of_char c :: nat
      in if c = q \<or> n = 92 then [CHR 0x5C, c]
         else if n = 10 then [CHR 0x5C, CHR ''n'']
         else if n = 13 then [CHR 0x5C, CHR ''r'']
         else if n = 9 then [CHR 0x5C, CHR ''t'']
         else if n < 32 \<or> (127 \<le> n \<and> n \<le> 160) \<or> n = 173
           then [CHR 0x5C, CHR ''x'', hex_digit (n div 16), hex_digit (n mod 16)]
         else [c])"

definition repr_str :: "string \<Rightarrow> string" where
  "repr_str s =
     (let q = (if List.member s (CHR 0x27) \<and> \<not> List.member s (CHR 0x22) then CHR 0x22 else CHR 0x27)
      in [q] @ concat (map (repr_char q) s) @ [q])"

text \<open>\<open>repr\<close> and \<open>str\<close> of a value; the text of a float is a parameter.\<close>

fun py_repr :: "(rat \<Rightarrow> string) \<Rightarrow> json \<Rightarrow> string"
and repr_items :: "(rat \<Rightarrow> string) \<Rightarrow> json list \<Rightarrow> string"
and repr_members :: "(rat \<Rightarrow> string) \<Rightarrow> (string \<times> json) list \<Rightarrow> string"
where
  "py_repr fl JNull = ''None''"
| "py_repr fl (JBool b) = (if b then ''True'' else ''False'')"
| "py_repr fl (JInt i) = show_int i"
| "py_repr fl (JFloat q) = fl q"
| "py_repr fl (JStr s) = repr_str s"
| "py_repr fl (JList vs) = ''['' @ repr_items fl vs @ '']''"
| "py_repr fl (JObj d) = ''{'' @ repr_members fl d @ ''}''"
| "repr_items fl [] = []"
| "repr_items fl [v] = py_repr fl v"
| "repr_items fl (v # w # vs) = py_repr fl v @ '', '' @ repr_items fl (w # vs)"
| "repr_members fl [] = []"
| "repr_members fl [(k, v)] = repr_str k @ '': '' @ py_repr fl v"
| "repr_members fl ((k, v) # m # ms) = repr_str k @ '': '' @ py_repr fl v @ '', '' @ repr_members fl (m # ms)"

fun py_str :: "(rat \<Rightarrow> string) \<Rightarrow> json \<Rightarrow> string" where
  "py_str fl (JStr s) = s"
| "py_str fl v = py_repr fl v"

text \<open>\<open>str(d.get(k) or "")\<close>.\<close>

definition text_or_empty :: "(rat \<Rightarrow> string) \<Rightarrow> json option \<Rightarrow> string" where
  "text_or_empty fl v = (if py_truthy v then py_str fl (the v) else [])"

definition json_type :: "json \<Rightarrow> string" where
  "json_type v =
     (case v of JNull \<Rightarrow> ''NoneType'' | JBool _ \<Rightarrow> ''bool'' | JInt _ \<Rightarrow> ''int'' | JFloat _ \<Rightarrow> ''float''
      | JStr _ \<Rightarrow> ''str'' | JList _ \<Rightarrow> ''list'' | JObj _ \<Rightarrow> ''dict'')"

text \<open>Iterating a value: the items of a list, the characters of a string, the keys of a dictionary.\<close>

definition py_iter :: "json \<Rightarrow> exn + json list" where
  "py_iter v =
     (case v of
        JList vs \<Rightarrow> Inr vs
      | JStr s \<Rightarrow> Inr (map (\<lambda>c. JStr [c]) s)
      | JObj d \<Rightarrow> Inr (map (JStr \<circ> fst) d)
      | _ \<Rightarrow> Inl (Exn ''TypeError''))"

definition hashable :: "json \<Rightarrow> bool" where
  "hashable v = (case v of JList _ \<Rightarrow> False | JObj _ \<Rightarrow> False | _ \<Rightarrow> True)"

text \<open>Keys of a dictionary compare as Python compares them: numbers by value.\<close>

definition number_of :: "json \<Rightarrow> rat option" where
  "number_of v =
     (case v of JBool b \<Rightarrow> Some (if b then 1 else 0) | JInt i \<Rightarrow> Some (of_int i) | JFloat q \<Rightarrow> Some q | _ \<Rightarrow> None)"

definition same_key :: "json \<Rightarrow> json \<Rightarrow> bool" where
  "same_key a b =
     (case (number_of a, number_of b) of
        (Some x, Some y) \<Rightarrow> x = y
      | (None, None) \<Rightarrow> a = b
      | _ \<Rightarrow> False)"

fun put_key :: "(json \<times> json) list \<Rightarrow> json \<Rightarrow> json \<Rightarrow> (json \<times> json) list" where
  "put_key [] k v = [(k, v)]"
| "put_key ((k', v') # d) k v = (if same_key k' k then (k', v) # d else (k', v') # put_key d k v)"

text \<open>\<open>dict(v)\<close>: a copy of a dictionary, or built from an iterable of pairs.\<close>

fun dict_of_pairs :: "json list \<Rightarrow> (json \<times> json) list \<Rightarrow> exn + (json \<times> json) list" where
  "dict_of_pairs [] acc = Inr acc"
| "dict_of_pairs (p # ps) acc =
     (case py_iter p of
        Inl e \<Rightarrow> Inl e
      | Inr [k, v] \<Rightarrow> (if hashable k then dict_of_pairs ps (put_key acc k v) else Inl (Exn ''TypeError''))
      | Inr _ \<Rightarrow> Inl (Exn ''ValueError''))"

definition py_dict :: "json \<Rightarrow> exn + (json \<times> json) list" where
  "py_dict v =
     (case v of
        JObj d \<Rightarrow> Inr (map (\<lambda>(k, x). (JStr k, x)) d)
      | _ \<Rightarrow> (case py_iter v of Inl e \<Rightarrow> Inl e | Inr ps \<Rightarrow> dict_of_pairs ps []))"

section \<open>Perception\<close>

definition DEFAULT_MAX_ELEMENTS :: nat where
  "DEFAULT_MAX_ELEMENTS = 50"

definition SNAPSHOT_KEYS :: "string list" where
  "SNAPSHOT_KEYS = [''ref'', ''role'', ''name'', ''value'']"

text \<open>One row; \<open>index\<close> is the number of rows before it. A row that is no dictionary has no keys.\<close>

definition project_row :: "(string \<Rightarrow> int option) \<Rightarrow> (rat \<Rightarrow> string) \<Rightarrow> nat \<Rightarrow> json \<Rightarrow> json dict" where
  "project_row parse_int fl index row =
     (let d = (case row of JObj d \<Rightarrow> d | _ \<Rightarrow> []);
          ref_raw = dict_get_or d ''ref'' JNull;
          ref = (case json_int parse_int ref_raw of Inl _ \<Rightarrow> int index | Inr n \<Rightarrow> n)
      in [(''ref'', JInt ref),
          (''role'', JStr (text_or_empty fl (dict_get d ''role''))),
          (''name'', JStr (text_or_empty fl (dict_get d ''name''))),
          (''value'', JStr (text_or_empty fl (dict_get d ''value'')))])"

definition project_snapshot :: "(string \<Rightarrow> int option) \<Rightarrow> (rat \<Rightarrow> string) \<Rightarrow> json list \<Rightarrow> int \<Rightarrow> json dict list" where
  "project_snapshot parse_int fl raw max_elements =
     (let rows = take (nat (max 0 max_elements)) raw
      in map (\<lambda>(i, row). project_row parse_int fl i row) (enumerate 0 rows))"

text \<open>What the prompt builder and the risk gate rely on: a bounded list of rows of one shape.\<close>

definition snapshot_row :: "json dict \<Rightarrow> bool" where
  "snapshot_row el \<longleftrightarrow> (\<exists>ref role name val.
     el = [(''ref'', JInt ref), (''role'', JStr role), (''name'', JStr name), (''value'', JStr val)])"

lemma project_snapshot_shape:
  "length (project_snapshot parse_int fl raw n) \<le> nat (max 0 n)"
  "\<forall>el \<in> set (project_snapshot parse_int fl raw n). snapshot_row el \<and> map fst el = SNAPSHOT_KEYS"
  by (auto simp: project_snapshot_def project_row_def snapshot_row_def SNAPSHOT_KEYS_def Let_def)

section \<open>Page operations\<close>

text \<open>What the page asks of Playwright.\<close>

datatype page_call =
    PwGoto json
  | PwClick string
  | PwFill string json
  | PwPress string string
  | PwSelectOption string json
  | PwScrollBy int

text \<open>
  The page with its history: Playwright answers a call by changing the page, or with the text of
  an exception; \<open>pw_evaluate\<close> runs the injected perception script.
\<close>

record 'p playwright =
  pw_call :: "page_call \<Rightarrow> 'p \<Rightarrow> string option \<times> 'p"
  pw_evaluate :: "'p \<Rightarrow> (exn + json list) \<times> 'p"

record 'p page_state =
  pg_page :: 'p
  pg_calls :: "page_call list"

definition call_page :: "'p playwright \<Rightarrow> page_call \<Rightarrow> 'p page_state \<Rightarrow> string option \<times> 'p page_state" where
  "call_page pw c s =
     (let (err, p) = pw_call pw c (pg_page s)
      in (err, \<lparr>pg_page = p, pg_calls = pg_calls s @ [c]\<rparr>))"

text \<open>Calls one after the other, up to the first that raises.\<close>

fun call_all :: "'p playwright \<Rightarrow> page_call list \<Rightarrow> 'p page_state \<Rightarrow> string option \<times> 'p page_state" where
  "call_all pw [] s = (None, s)"
| "call_all pw (c # cs) s =
     (case call_page pw c s of
        (Some err, s') \<Rightarrow> (Some err, s')
      | (None, s') \<Rightarrow> call_all pw cs s')"

definition ref_selector :: "(rat \<Rightarrow> string) \<Rightarrow> json \<Rightarrow> string" where
  "ref_selector fl ref = ''[data-skill-ref='' @ [CHR 0x22] @ py_str fl ref @ [CHR 0x22] @ '']''"

definition page_goto :: "json \<Rightarrow> page_call list" where
  "page_goto url = [PwGoto url]"

definition page_click :: "(rat \<Rightarrow> string) \<Rightarrow> json \<Rightarrow> page_call list" where
  "page_click fl ref = [PwClick (ref_selector fl ref)]"

definition page_type :: "(rat \<Rightarrow> string) \<Rightarrow> json \<Rightarrow> json \<Rightarrow> bool \<Rightarrow> page_call list" where
  "page_type fl ref txt submit =
     [PwFill (ref_selector fl ref) txt] @ (if submit then [PwPress (ref_selector fl ref) ''Enter''] else [])"

definition page_select :: "(rat \<Rightarrow> string) \<Rightarrow> json \<Rightarrow> json \<Rightarrow> page_call list" where
  "page_select fl ref v = [PwSelectOption (ref_selector fl ref) v]"

definition page_scroll :: "(rat \<Rightarrow> string) \<Rightarrow> json \<Rightarrow> page_call list" where
  "page_scroll fl dir =
     [PwScrollBy (if List.member [''up'', ''top'', ''-1''] (lower (py_str fl dir)) then -1 else 1)]"

text \<open>\<open>snapshot(page)\<close> with the default bound.\<close>

definition take_snapshot ::
  "'p playwright \<Rightarrow> (string \<Rightarrow> int option) \<Rightarrow> (rat \<Rightarrow> string) \<Rightarrow> 'p page_state \<Rightarrow>
   (exn + json dict list) \<times> 'p page_state"
where
  "take_snapshot pw parse_int fl s =
     (case pw_evaluate pw (pg_page s) of
        (Inl e, p) \<Rightarrow> (Inl e, s\<lparr>pg_page := p\<rparr>)
      | (Inr raw, p) \<Rightarrow>
          (Inr (project_snapshot parse_int fl raw (int DEFAULT_MAX_ELEMENTS)), s\<lparr>pg_page := p\<rparr>))"

section \<open>Verbs\<close>

definition VERBS :: "(string \<times> string list \<times> string list) list" where
  "VERBS =
     [(''navigate'', [''url''], []),
      (''click'', [''ref''], []),
      (''type'', [''ref'', ''text''], [''submit'']),
      (''select'', [''ref'', ''value''], []),
      (''scroll'', [''dir''], []),
      (''extract'', [''data''], []),
      (''done'', [''status''], [''note''])]"

definition REF_VERBS :: "string list" where
  "REF_VERBS = [''click'', ''type'', ''select'']"

record action_result =
  ar_ok :: bool
  ar_verb :: "json option"
  ar_error :: "string option"
  ar_record :: "(json \<times> json) list option"
  ar_terminal :: bool
  ar_detail :: "json dict"

definition action_success :: "string \<Rightarrow> (json \<times> json) list option \<Rightarrow> bool \<Rightarrow> json dict \<Rightarrow> action_result" where
  "action_success verb rec terminal detail =
     \<lparr>ar_ok = True, ar_verb = Some (JStr verb), ar_error = None, ar_record = rec, ar_terminal = terminal,
      ar_detail = detail\<rparr>"

definition action_failure :: "json option \<Rightarrow> string \<Rightarrow> action_result" where
  "action_failure verb error =
     \<lparr>ar_ok = False, ar_verb = verb, ar_error = Some error, ar_record = None, ar_terminal = False,
      ar_detail = []\<rparr>"

text \<open>
  The first thing wrong with an action; asking for an unhashable verb in a dictionary raises.
\<close>

definition missing_field :: "json dict \<Rightarrow> string list \<Rightarrow> string option" where
  "missing_field action required = find (\<lambda>k. dict_get action k = None) required"

definition validate_action :: "(rat \<Rightarrow> string) \<Rightarrow> json \<Rightarrow> exn + string option" where
  "validate_action fl action =
     (case action of
        JObj d \<Rightarrow>
          (let verb = dict_get d ''verb''
           in if \<not> py_truthy verb then Inr (Some (''missing '' @ repr_str ''verb''))
              else if \<not> hashable (the verb) then Inl (Exn ''TypeError'')
              else case (case the verb of JStr v \<Rightarrow> map_of VERBS v | _ \<Rightarrow> None) of
                  None \<Rightarrow> Inr (Some (''unknown verb: '' @ py_repr fl (the verb) @ '' (allowed: '' @
                    repr_items fl (map JStr (sort (map fst VERBS))) @ '')''))
                | Some (required, _) \<Rightarrow>
                    (case missing_field d required of
                       None \<Rightarrow> Inr None
                     | Some k \<Rightarrow> Inr (Some (''verb '' @ py_repr fl (the verb) @
                         '' missing required field: '' @ repr_str k))))
      | _ \<Rightarrow> Inr (Some (''action must be a dict, got '' @ json_type action)))"

definition resolve_ref :: "(rat \<Rightarrow> string) \<Rightarrow> json dict list \<Rightarrow> json \<Rightarrow> json dict option" where
  "resolve_ref fl snapshot ref =
     find (\<lambda>entry. py_str fl (dict_get_or entry ''ref'' JNull) = py_str fl ref) snapshot"

text \<open>The operation a verb makes of its fields, and the detail reported when it succeeds.\<close>

definition verb_calls :: "(rat \<Rightarrow> string) \<Rightarrow> string \<Rightarrow> json dict \<Rightarrow> page_call list" where
  "verb_calls fl verb d =
     (if verb = ''navigate'' then page_goto (dict_get_or d ''url'' JNull)
      else if verb = ''click'' then page_click fl (dict_get_or d ''ref'' JNull)
      else if verb = ''type'' then
        page_type fl (dict_get_or d ''ref'' JNull) (dict_get_or d ''text'' JNull) (py_truthy (dict_get d ''submit''))
      else if verb = ''select'' then page_select fl (dict_get_or d ''ref'' JNull) (dict_get_or d ''value'' JNull)
      else if verb = ''scroll'' then page_scroll fl (dict_get_or d ''dir'' JNull)
      else [])"

definition verb_detail :: "string \<Rightarrow> json dict \<Rightarrow> json dict" where
  "verb_detail verb d =
     (if verb = ''navigate'' then [(''url'', dict_get_or d ''url'' JNull)]
      else if verb = ''type'' then
        [(''ref'', dict_get_or d ''ref'' JNull), (''submit'', JBool (py_truthy (dict_get d ''submit'')))]
      else if verb = ''scroll'' then [(''dir'', dict_get_or d ''dir'' JNull)]
      else [(''ref'', dict_get_or d ''ref'' JNull)])"

definition dispatch_verb ::
  "'p playwright \<Rightarrow> (rat \<Rightarrow> string) \<Rightarrow> string \<Rightarrow> json dict \<Rightarrow> 'p page_state \<Rightarrow> action_result \<times> 'p page_state"
where
  "dispatch_verb pw fl verb d s =
     (case call_all pw (verb_calls fl verb d) s of
        (Some err, s') \<Rightarrow> (action_failure (Some (JStr verb)) (''page op failed: '' @ err), s')
      | (None, s') \<Rightarrow> (action_success verb None False (verb_detail verb d), s'))"

definition execute_valid ::
  "'p playwright \<Rightarrow> (rat \<Rightarrow> string) \<Rightarrow> json dict list \<Rightarrow> string \<Rightarrow> json dict \<Rightarrow> 'p page_state \<Rightarrow>
   (exn + action_result) \<times> 'p page_state"
where
  "execute_valid pw fl snapshot verb d s =
     (if verb = ''extract'' then
        (case py_dict (dict_get_or d ''data'' JNull) of
           Inl e \<Rightarrow> (Inl e, s)
         | Inr rec \<Rightarrow> (Inr (action_success ''extract'' (Some rec) False []), s))
      else if verb = ''done'' then
        (Inr (action_success ''done'' None True
           [(''status'', dict_get_or d ''status'' JNull), (''note'', dict_get_or d ''note'' JNull)]), s)
      else if List.member REF_VERBS verb \<and> resolve_ref fl snapshot (dict_get_or d ''ref'' JNull) = None then
        (Inr (action_failure (Some (JStr verb))
           (''stale/unknown ref: '' @ py_repr fl (dict_get_or d ''ref'' JNull))), s)
      else map_prod Inr id (dispatch_verb pw fl verb d s))"

definition execute_page_action ::
  "'p playwright \<Rightarrow> (rat \<Rightarrow> string) \<Rightarrow> json dict list \<Rightarrow> json \<Rightarrow> 'p page_state \<Rightarrow>
   (exn + action_result) \<times> 'p page_state"
where
  "execute_page_action pw fl snapshot action s =
     (case validate_action fl action of
        Inl e \<Rightarrow> (Inl e, s)
      | Inr (Some err) \<Rightarrow>
          (case action of
             JObj d \<Rightarrow> (Inr (action_failure (dict_get d ''verb'') err), s)
           | _ \<Rightarrow> (Inl (Exn ''AttributeError''), s))
      | Inr None \<Rightarrow>
          (case action of
             JObj d \<Rightarrow>
               (case dict_get d ''verb'' of
                  Some (JStr verb) \<Rightarrow> execute_valid pw fl snapshot verb d s
                | _ \<Rightarrow> (Inl (Exn ''KeyError''), s))
           | _ \<Rightarrow> (Inl (Exn ''KeyError''), s)))"

end
