(* ===== verification/SkillRisk.thy ===== *)
theory SkillRisk
  imports SkillActions WorkflowGraph
begin

text \<open>
  The risk gate of the skill loop (\<open>backend/skills/risk.py\<close>): which actions need a human's
  confirmation, and which of those a source may waive.
\<close>

definition AWAITING_CONFIRM :: string where
  "AWAITING_CONFIRM = ''awaiting_confirm''"

definition PROPOSED_ACTION :: string where
  "PROPOSED_ACTION = ''proposed_action''"

definition HIGH_RISK_VERBS :: "string list" where
  "HIGH_RISK_VERBS = [''submit'', ''pay'', ''post'', ''delete'']"

definition AUTO_RUN_VERBS :: "string list" where
  "AUTO_RUN_VERBS = [''navigate'', ''scroll'', ''extract'', ''done'']"

definition WRITE_VERBS :: "string list" where
  "WRITE_VERBS = [''click'', ''type'', ''select'']"

datatype risk_tier = AutoTier | ConfirmTier

record risk_decision =
  rd_tier :: risk_tier
  rd_needs_confirm :: bool
  rd_reason :: string
  rd_matched_red_line :: "string option"

definition tier_value :: "risk_tier \<Rightarrow> string" where
  "tier_value t = (case t of AutoTier \<Rightarrow> ''auto'' | ConfirmTier \<Rightarrow> ''confirm'')"

definition decision_dict :: "risk_decision \<Rightarrow> json dict" where
  "decision_dict r =
     [(''tier'', JStr (tier_value (rd_tier r))), (''needs_confirm'', JBool (rd_needs_confirm r)),
      (''reason'', JStr (rd_reason r)), (''matched_red_line'', opt_str (rd_matched_red_line r))]"

text \<open>What the caller passes as the skill: nothing, a dictionary, or a row with its \<open>elements\<close>.\<close>

datatype skill_arg = NoSkill | SkillDict "json dict" | SkillRow json

definition red_lines_value :: "skill_arg \<Rightarrow> json option" where
  "red_lines_value skill =
     (let elements = (case skill of NoSkill \<Rightarrow> JNull | SkillDict d \<Rightarrow> dict_get_or d ''elements'' (JObj d) | SkillRow e \<Rightarrow> e);
          red_lines = (case elements of JObj d \<Rightarrow> dict_get d ''red_lines'' | _ \<Rightarrow> None)
      in if red_lines \<in> {None, Some JNull}
         then (case skill of SkillDict d \<Rightarrow> dict_get d ''red_lines'' | _ \<Rightarrow> None)
         else red_lines)"

definition phrases_of :: "(rat \<Rightarrow> string) \<Rightarrow> json list \<Rightarrow> string list" where
  "phrases_of fl vs = filter (\<lambda>s. s \<noteq> []) (map (\<lambda>v. strip (py_str fl v)) vs)"

definition red_lines_of :: "(rat \<Rightarrow> string) \<Rightarrow> skill_arg \<Rightarrow> exn + string list" where
  "red_lines_of fl skill =
     (let red_lines = red_lines_value skill
      in if \<not> py_truthy red_lines then Inr []
         else case the red_lines of
             JStr s \<Rightarrow> Inr (phrases_of fl [JStr s])
           | v \<Rightarrow> (case py_iter v of Inl e \<Rightarrow> Inl e | Inr vs \<Rightarrow> Inr (phrases_of fl vs)))"

definition text_parts :: "(rat \<Rightarrow> string) \<Rightarrow> json dict \<Rightarrow> string list \<Rightarrow> string list" where
  "text_parts fl d keys =
     concat (map (\<lambda>k. if py_truthy (dict_get d k) then [py_str fl (dict_get_or d k JNull)] else []) keys)"

definition action_haystack :: "(rat \<Rightarrow> string) \<Rightarrow> json dict \<Rightarrow> json dict option \<Rightarrow> string" where
  "action_haystack fl action element =
     lower (join_with '' ''
       (text_parts fl action [''verb'', ''text'', ''url'', ''value'', ''note'', ''status'', ''data''] @
        (case element of None \<Rightarrow> [] | Some el \<Rightarrow> text_parts fl el [''name'', ''role'', ''value''])))"

definition ambiguous_confirm :: risk_decision where
  "ambiguous_confirm = \<lparr>rd_tier = ConfirmTier, rd_needs_confirm = True,
     rd_reason = ''ambiguous-default-confirm'', rd_matched_red_line = None\<rparr>"

definition confirm_because :: "string \<Rightarrow> risk_decision" where
  "confirm_because reason = \<lparr>rd_tier = ConfirmTier, rd_needs_confirm = True, rd_reason = reason,
     rd_matched_red_line = None\<rparr>"

text \<open>The decision once no red line has matched.\<close>

definition classify_generic ::
  "string \<Rightarrow> string \<Rightarrow> json dict \<Rightarrow> json dict option \<Rightarrow> risk_decision"
where
  "classify_generic verb haystack action element =
     (let is_write_verb = List.member WRITE_VERBS verb
      in if is_write_verb \<and> verb = ''type'' \<and> py_truthy (dict_get action ''submit'')
         then confirm_because ''submit-flag''
         else case (if is_write_verb then find (\<lambda>token. infix_of token haystack) HIGH_RISK_VERBS else None) of
             Some token \<Rightarrow> confirm_because (''high-risk-verb:'' @ token)
           | None \<Rightarrow>
               (if is_write_verb \<and> element = None then ambiguous_confirm
                else if List.member AUTO_RUN_VERBS verb \<or> is_write_verb
                then \<lparr>rd_tier = AutoTier, rd_needs_confirm = False, rd_reason = ''auto:'' @ verb,
                  rd_matched_red_line = None\<rparr>
                else ambiguous_confirm))"

definition crossed_line :: "string \<Rightarrow> string list \<Rightarrow> string option" where
  "crossed_line haystack lines = find (\<lambda>line. lower line \<noteq> [] \<and> infix_of (lower line) haystack) lines"

definition classify_action ::
  "(rat \<Rightarrow> string) \<Rightarrow> json \<Rightarrow> json dict option \<Rightarrow> skill_arg \<Rightarrow> exn + risk_decision"
where
  "classify_action fl action element skill =
     (case action of
        JObj d \<Rightarrow>
          (let verb = lower (strip (text_or_empty fl (dict_get d ''verb'')));
               haystack = action_haystack fl d element
           in case red_lines_of fl skill of
                Inl e \<Rightarrow> Inl e
              | Inr lines \<Rightarrow>
                  (case crossed_line haystack lines of
                     Some line \<Rightarrow> Inr \<lparr>rd_tier = ConfirmTier, rd_needs_confirm = True, rd_reason = ''red-line'',
                       rd_matched_red_line = Some line\<rparr>
                   | None \<Rightarrow> Inr (classify_generic verb haystack d element)))
      | _ \<Rightarrow> Inr ambiguous_confirm)"

definition should_run :: "risk_decision \<Rightarrow> bool \<Rightarrow> bool" where
  "should_run decision auto_confirm =
     (if \<not> rd_needs_confirm decision then True
      else if rd_matched_red_line decision \<noteq> None then False
      else auto_confirm)"

definition awaiting_confirm_metadata :: "json dict \<Rightarrow> json dict" where
  "awaiting_confirm_metadata action = [(AWAITING_CONFIRM, JBool True), (PROPOSED_ACTION, JObj action)]"

end
