(* ===== verification/SkillLoop.thy ===== *)
theory SkillLoop
  imports SkillRisk
begin

text \<open>
  The step loop of a skill (\<open>backend/skills/loop.py\<close>): perceive, propose, validate, gate, act.
  What the model answers in a step, parsed into tool calls, is the parameter \<open>le_ask\<close> of the
  step, its snapshot and the transcript; it stands for the prompt builder, the provider and the
  reply parser. The event announced for a blocked step is left out.
\<close>

definition MAX_STEPS :: nat where
  "MAX_STEPS = 20"

definition TRANSCRIPT_WINDOW :: nat where
  "TRANSCRIPT_WINDOW = 12"

record step_record =
  sr_index :: nat
  sr_verb :: "string option"
  sr_args :: "json dict"
  sr_target :: json
  sr_digest :: string
  sr_result :: "json dict option"
  sr_error :: "string option"
  sr_terminal_check :: "string option"
  sr_elapsed_ms :: int

record loop_result =
  lo_steps :: "step_record list"
  lo_extracts :: "(json \<times> json) list list"
  lo_outcome :: string
  lo_summary :: "json dict"
  lo_awaiting_confirm :: bool
  lo_proposed_action :: "json dict option"

definition new_result :: loop_result where
  "new_result = \<lparr>lo_steps = [], lo_extracts = [], lo_outcome = ''error'', lo_summary = [],
     lo_awaiting_confirm = False, lo_proposed_action = None\<rparr>"

type_synonym transcript = "(string \<times> string) list"

text \<open>
  The arguments of a run and the world around it: tool calls in order with the text of the reply,
  or the text of a provider error.
\<close>

record 'p loop_env =
  le_playwright :: "'p playwright"
  le_parse_int :: "string \<Rightarrow> int option"
  le_float_str :: "rat \<Rightarrow> string"
  le_ask :: "nat \<Rightarrow> json dict list \<Rightarrow> transcript \<Rightarrow> string + (string \<times> json dict) list \<times> string"
  le_elapsed :: "nat \<Rightarrow> int"
  le_elements :: "json dict option"
  le_skill :: skill_arg
  le_max_steps :: nat
  le_auto_confirm :: bool

section \<open>Helpers\<close>

definition digest_snapshot :: "(rat \<Rightarrow> string) \<Rightarrow> json dict list \<Rightarrow> string" where
  "digest_snapshot fl snapshot =
     (if snapshot = [] then ''0 elements''
      else show_int (int (length snapshot)) @ '' elements ['' @
        join_with '','' (map (\<lambda>el. py_str fl (dict_get_or el ''ref'' JNull)) (take 8 snapshot)) @
        (if length snapshot > 8 then ''...'' else []) @ '']'')"

definition done_text :: "(rat \<Rightarrow> string) \<Rightarrow> json dict \<Rightarrow> json dict list \<Rightarrow> string" where
  "done_text fl action snapshot =
     lower (text_or_empty fl (dict_get action ''note'') @ '' '' @
       join_with '' '' (map (\<lambda>el. py_str fl (dict_get_or el ''name'' (JStr [])) @ '' '' @
         py_str fl (dict_get_or el ''value'' (JStr []))) snapshot))"

definition check_done ::
  "(rat \<Rightarrow> string) \<Rightarrow> json dict \<Rightarrow> json dict list \<Rightarrow> json dict option \<Rightarrow> exn + string"
where
  "check_done fl action snapshot elements =
     (let fts = dict_get (case elements of None \<Rightarrow> [] | Some d \<Rightarrow> d) ''false_terminal_states''
      in if \<not> py_truthy fts then Inr ''accepted''
         else case py_iter (the fts) of
             Inl e \<Rightarrow> Inl e
           | Inr phrases \<Rightarrow>
               Inr (if list_ex (\<lambda>phrase. let p = lower (strip (py_str fl phrase))
                      in p \<noteq> [] \<and> infix_of p (done_text fl action snapshot)) phrases
                    then ''rejected'' else ''accepted''))"

definition outcome_for_done :: "(rat \<Rightarrow> string) \<Rightarrow> json \<Rightarrow> string" where
  "outcome_for_done fl status = (if lower (py_str fl status) = ''success'' then ''done_success'' else ''done_failed'')"

definition push_turn :: "transcript \<Rightarrow> string \<Rightarrow> string \<Rightarrow> transcript" where
  "push_turn transcript assistant user =
     (let t = transcript @ [(''assistant'', assistant), (''user'', user)]
      in drop (length t - TRANSCRIPT_WINDOW * 2) t)"

definition target_of :: "json dict \<Rightarrow> json" where
  "target_of action =
     (case find (\<lambda>k. dict_get action k \<noteq> None) [''ref'', ''url'', ''dir''] of
        None \<Rightarrow> JNull | Some k \<Rightarrow> dict_get_or action k JNull)"

definition summarize :: "loop_result \<Rightarrow> nat \<Rightarrow> json \<Rightarrow> json dict" where
  "summarize r step_count final_status =
     [(''step_count'', JInt (int step_count)), (''extract_count'', JInt (int (length (lo_extracts r)))),
      (''outcome'', JStr (lo_outcome r)), (''final_status'', final_status)]"

definition tool_result :: "string \<Rightarrow> string \<Rightarrow> string" where
  "tool_result verb body =
     ''<tool_result name='' @ [CHR 0x22] @ verb @ [CHR 0x22] @ ''>'' @ body @ ''</tool_result>''"

section \<open>A step\<close>

text \<open>The state between two steps, and how a step ends: an exception, a return, the next step.\<close>

record 'p loop_state =
  ls_page :: "'p page_state"
  ls_result :: loop_result
  ls_transcript :: transcript

datatype 'p step_end =
    StepRaises exn "'p page_state"
  | StepReturns loop_result "'p page_state"
  | StepContinues "'p loop_state"

definition add_step :: "step_record \<Rightarrow> loop_result \<Rightarrow> loop_result" where
  "add_step step r = r\<lparr>lo_steps := lo_steps r @ [step]\<rparr>"

definition blank_step :: "'p loop_env \<Rightarrow> nat \<Rightarrow> json dict list \<Rightarrow> step_record" where
  "blank_step env index snapshot =
     \<lparr>sr_index = index, sr_verb = None, sr_args = [], sr_target = JNull,
      sr_digest = digest_snapshot (le_float_str env) snapshot, sr_result = None, sr_error = None,
      sr_terminal_check = None, sr_elapsed_ms = le_elapsed env index\<rparr>"

text \<open>The step goes on: its record is kept, and the reply with what came of it is told the model.\<close>

definition go_on :: "step_record \<Rightarrow> string \<Rightarrow> string \<Rightarrow> loop_result \<Rightarrow> transcript \<Rightarrow> 'p page_state \<Rightarrow> 'p step_end" where
  "go_on step content user r transcript page =
     StepContinues \<lparr>ls_page = page, ls_result = add_step step r, ls_transcript = push_turn transcript content user\<rparr>"

definition returns_with :: "loop_result \<Rightarrow> nat \<Rightarrow> json \<Rightarrow> 'p page_state \<Rightarrow> 'p step_end" where
  "returns_with r step_count final_status page =
     StepReturns (r\<lparr>lo_summary := summarize r step_count final_status\<rparr>) page"

definition done_step ::
  "'p loop_env \<Rightarrow> nat \<Rightarrow> json dict list \<Rightarrow> json dict \<Rightarrow> json dict \<Rightarrow> string \<Rightarrow> 'p loop_state \<Rightarrow> 'p step_end"
where
  "done_step env index snapshot args action content st =
     (case check_done (le_float_str env) action snapshot (le_elements env) of
        Inl e \<Rightarrow> StepRaises e (ls_page st)
      | Inr check \<Rightarrow>
          (let status = dict_get_or args ''status'' JNull;
               step = (blank_step env index snapshot)
                 \<lparr>sr_verb := Some ''done'', sr_args := args, sr_target := status,
                  sr_result := Some [(''status'', status), (''note'', dict_get_or args ''note'' JNull)],
                  sr_terminal_check := Some check\<rparr>
           in if check = ''accepted''
              then returns_with (add_step step (ls_result st)\<lparr>lo_outcome := outcome_for_done (le_float_str env) status\<rparr>)
                (index + 1) status (ls_page st)
              else go_on step content
                (tool_result ''done'' ''rejected: a false_terminal_state applies; the task is not actually complete. Keep going.'')
                (ls_result st) (ls_transcript st) (ls_page st)))"

definition blocked_step ::
  "'p loop_env \<Rightarrow> nat \<Rightarrow> json dict list \<Rightarrow> string \<Rightarrow> json dict \<Rightarrow> json dict \<Rightarrow> risk_decision \<Rightarrow> 'p loop_state \<Rightarrow> 'p step_end"
where
  "blocked_step env index snapshot verb args action decision st =
     (let step = (blank_step env index snapshot)
            \<lparr>sr_verb := Some verb, sr_args := args, sr_target := target_of action,
             sr_result := Some [(''gate'', JStr ''blocked''), (''decision'', JObj (decision_dict decision))],
             sr_error := Some (''awaiting_confirm: '' @ rd_reason decision)\<rparr>
      in returns_with (add_step step (ls_result st)
           \<lparr>lo_outcome := AWAITING_CONFIRM, lo_awaiting_confirm := True, lo_proposed_action := Some action\<rparr>)
           (index + 1) JNull (ls_page st))"

definition act_step ::
  "'p loop_env \<Rightarrow> nat \<Rightarrow> json dict list \<Rightarrow> string \<Rightarrow> json dict \<Rightarrow> json dict \<Rightarrow> bool \<Rightarrow> string \<Rightarrow> 'p loop_state \<Rightarrow>
   'p step_end"
where
  "act_step env index snapshot verb args action truncated content st =
     (case execute_page_action (le_playwright env) (le_float_str env) snapshot (JObj action) (ls_page st) of
        (Inl e, page) \<Rightarrow> StepRaises e page
      | (Inr result, page) \<Rightarrow>
          (let r = (if verb = ''extract'' \<and> ar_ok result
                 then (case ar_record result of
                     None \<Rightarrow> ls_result st
                   | Some rec \<Rightarrow> (ls_result st)\<lparr>lo_extracts := lo_extracts (ls_result st) @ [rec]\<rparr>)
                 else ls_result st);
               step = (blank_step env index snapshot)
                 \<lparr>sr_verb := Some verb, sr_args := args, sr_target := target_of action,
                  sr_result := Some ([(''ok'', JBool (ar_ok result)), (''detail'', JObj (ar_detail result))] @
                    (if truncated then [(''truncated_extra_calls'', JBool True)] else [])),
                  sr_error := ar_error result\<rparr>;
               feedback = (case ar_error result of
                   None \<Rightarrow> ''ok: '' @ py_repr (le_float_str env) (JObj (ar_detail result))
                 | Some err \<Rightarrow> ''error: '' @ err)
           in go_on step content (tool_result verb feedback) r (ls_transcript st) page))"

definition gated_step ::
  "'p loop_env \<Rightarrow> nat \<Rightarrow> json dict list \<Rightarrow> string \<Rightarrow> json dict \<Rightarrow> json dict \<Rightarrow> bool \<Rightarrow> string \<Rightarrow> 'p loop_state \<Rightarrow>
   'p step_end"
where
  "gated_step env index snapshot verb args action truncated content st =
     (let ref = dict_get_or action ''ref'' JNull;
          element = (if ref \<noteq> JNull then resolve_ref (le_float_str env) snapshot ref else None)
      in case classify_action (le_float_str env) (JObj action) element (le_skill env) of
           Inl e \<Rightarrow> StepRaises e (ls_page st)
         | Inr decision \<Rightarrow>
             (if \<not> should_run decision (le_auto_confirm env)
              then blocked_step env index snapshot verb args action decision st
              else act_step env index snapshot verb args action truncated content st))"

definition call_step ::
  "'p loop_env \<Rightarrow> nat \<Rightarrow> json dict list \<Rightarrow> string \<Rightarrow> json dict \<Rightarrow> bool \<Rightarrow> string \<Rightarrow> 'p loop_state \<Rightarrow> 'p step_end"
where
  "call_step env index snapshot verb args truncated content st =
     (let action = dict_update [(''verb'', JStr verb)] args
      in case validate_action (le_float_str env) (JObj action) of
           Inl e \<Rightarrow> StepRaises e (ls_page st)
         | Inr (Some verr) \<Rightarrow>
             go_on ((blank_step env index snapshot)
                 \<lparr>sr_verb := Some verb, sr_args := args,
                  sr_error := Some (verr @ (if truncated then '' (extra tool calls ignored: one action/step)'' else []))\<rparr>)
               content (tool_result verb (''error: '' @ verr)) (ls_result st) (ls_transcript st) (ls_page st)
         | Inr None \<Rightarrow>
             (if verb = ''done'' then done_step env index snapshot args action content st
              else gated_step env index snapshot verb args action truncated content st))"

definition skill_step :: "'p loop_env \<Rightarrow> nat \<Rightarrow> 'p loop_state \<Rightarrow> 'p step_end" where
  "skill_step env index st =
     (case take_snapshot (le_playwright env) (le_parse_int env) (le_float_str env) (ls_page st) of
        (Inl e, page) \<Rightarrow> StepRaises e page
      | (Inr snapshot, page) \<Rightarrow>
          (let st = st\<lparr>ls_page := page\<rparr>
           in case le_ask env index snapshot (ls_transcript st) of
                Inl err \<Rightarrow>
                  returns_with (add_step ((blank_step env index snapshot)\<lparr>sr_error := Some (''model call failed: '' @ err)\<rparr>)
                    (ls_result st)\<lparr>lo_outcome := ''error''\<rparr>) (index + 1) JNull page
              | Inr (calls, content) \<Rightarrow>
                  (case calls of
                     [] \<Rightarrow> go_on ((blank_step env index snapshot)\<lparr>sr_error := Some ''no tool call emitted''\<rparr>) content
                       ''No tool call detected. Emit EXACTLY ONE tool call.'' (ls_result st) (ls_transcript st) page
                   | (verb, args) # others \<Rightarrow>
                       call_step env index snapshot verb args (others \<noteq> []) content st)))"

section \<open>The loop\<close>

function skill_steps :: "'p loop_env \<Rightarrow> nat \<Rightarrow> 'p loop_state \<Rightarrow> (exn + loop_result) \<times> 'p page_state" where
  "skill_steps env index st =
     (if index < le_max_steps env
      then (case skill_step env index st of
              StepRaises e page \<Rightarrow> (Inl e, page)
            | StepReturns r page \<Rightarrow> (Inr r, page)
            | StepContinues st' \<Rightarrow> skill_steps env (index + 1) st')
      else (let r = (ls_result st)\<lparr>lo_outcome := ''capped''\<rparr>
            in (Inr (r\<lparr>lo_summary := summarize r index JNull\<rparr>), ls_page st)))"
  by pat_completeness auto
termination
  by (relation "measure (\<lambda>(env, index, _). le_max_steps env - index)") auto

declare skill_steps.simps [simp del]

definition run_skill_loop :: "'p loop_env \<Rightarrow> 'p page_state \<Rightarrow> (exn + loop_result) \<times> 'p page_state" where
  "run_skill_loop env page =
     skill_steps env 0 \<lparr>ls_page = page, ls_result = new_result, ls_transcript = []\<rparr>"

end
