(* ===== verification/SkillProps.thy ===== *)
theory SkillProps
  imports SkillLoop
begin

text \<open>
  What the skill loop guarantees: only actions the risk gate clears reach the page, the loop ends
  within its steps with a consistent account, and the inputs on which the executor raises.
\<close>

section \<open>The gate\<close>

text \<open>
  What a cleared action is, in the words of the policy: it crosses no red line of the skill, and
  unless the source waives confirmation, a write has a target on the page, submits nothing and
  carries none of the high-risk words.
\<close>

definition target_element :: "'p loop_env \<Rightarrow> json dict list \<Rightarrow> json dict \<Rightarrow> json dict option" where
  "target_element env snapshot action =
     (let ref = dict_get_or action ''ref'' JNull
      in if ref \<noteq> JNull then resolve_ref (le_float_str env) snapshot ref else None)"

definition crosses :: "'p loop_env \<Rightarrow> json dict list \<Rightarrow> json dict \<Rightarrow> string \<Rightarrow> bool" where
  "crosses env snapshot action phrase \<longleftrightarrow> phrase \<noteq> [] \<and>
     infix_of (lower phrase) (action_haystack (le_float_str env) action (target_element env snapshot action))"

text \<open>
  Where a phrase counts for sure: in the text of one of the fields of the action, or of the name, the role
  or the value of the element it targets.
\<close>

definition action_texts :: "string list" where
  "action_texts = [''verb'', ''text'', ''url'', ''value'', ''note'', ''status'', ''data'']"

definition element_texts :: "string list" where
  "element_texts = [''name'', ''role'', ''value'']"

definition mentions :: "'p loop_env \<Rightarrow> json dict list \<Rightarrow> json dict \<Rightarrow> string \<Rightarrow> bool" where
  "mentions env snapshot action phrase \<longleftrightarrow> phrase \<noteq> [] \<and>
     (\<exists>d k v. (d = action \<and> k \<in> set action_texts \<or>
         target_element env snapshot action = Some d \<and> k \<in> set element_texts) \<and>
       dict_get d k = Some v \<and> py_truthy (Some v) \<and> infix_of (lower phrase) (lower (py_str (le_float_str env) v)))"

lemma infix_of_iff: "infix_of p s \<longleftrightarrow> (\<exists>u v. s = u @ p @ v)"
proof (induction s)
  case (Cons c s)
  show ?case (is "?l = ?r")
  proof
    assume ?l
    then consider "prefix p (c # s)" | "infix_of p s" by auto
    then show ?r
    proof cases
      case 1
      then show ?thesis by (metis append_Nil prefixE)
    next
      case 2
      with Cons.IH obtain u v where "s = u @ p @ v" by blast
      then show ?thesis by (intro exI[of _ "c # u"] exI[of _ v]) simp
    qed
  next
    assume ?r
    then obtain u v where uv: "c # s = u @ p @ v" by blast
    show ?l
    proof (cases u)
      case Nil
      with uv have "prefix p (c # s)" by (auto simp: prefix_def)
      then show ?thesis by simp
    next
      case (Cons x u')
      with uv Cons.IH have "infix_of p s" by auto
      then show ?thesis by simp
    qed
  qed
qed simp

lemma infix_of_join:
  assumes "s \<in> set ss" and "infix_of p (lower s)"
  shows "infix_of p (lower (join_with sep ss))"
proof -
  have "\<exists>u v. join_with sep ss = u @ s @ v" using assms(1)
  proof (induction sep ss rule: join_with.induct)
    case (3 sep x y ys)
    show ?case
    proof (cases "s = x")
      case True
      then show ?thesis by (intro exI[of _ "[]"] exI) simp
    next
      case False
      with 3 obtain u v where "join_with sep (y # ys) = u @ s @ v" by auto
      then show ?thesis by (intro exI[of _ "x @ sep @ u"] exI[of _ v]) simp
    qed
  qed (auto intro: exI[of _ "[]"])
  then obtain u v where "join_with sep ss = u @ s @ v" by blast
  moreover obtain u' v' where "lower s = u' @ p @ v'" using assms(2) by (auto simp: infix_of_iff)
  ultimately show ?thesis
    unfolding infix_of_iff by (intro exI[of _ "lower u @ u'"] exI[of _ "v' @ lower v"]) (simp add: lower_def)
qed

lemma text_parts_member:
  "k \<in> set keys \<Longrightarrow> dict_get d k = Some v \<Longrightarrow> py_truthy (Some v) \<Longrightarrow> py_str fl v \<in> set (text_parts fl d keys)"
  unfolding text_parts_def by (induction keys) (auto simp: dict_get_def dict_get_or_def)

lemma mentions_crosses:
  assumes "mentions env snapshot action phrase"
  shows "crosses env snapshot action phrase"
proof -
  let ?fl = "le_float_str env"
  obtain d k v where d: "d = action \<and> k \<in> set action_texts \<or>
      target_element env snapshot action = Some d \<and> k \<in> set element_texts"
    and v: "dict_get d k = Some v" "py_truthy (Some v)" "infix_of (lower phrase) (lower (py_str ?fl v))" and ne: "phrase \<noteq> []"
    using assms unfolding mentions_def by blast
  have "py_str ?fl v \<in> set (text_parts ?fl action action_texts @
      (case target_element env snapshot action of None \<Rightarrow> [] | Some el \<Rightarrow> text_parts ?fl el element_texts))"
    using d text_parts_member[OF _ v(1,2), of action_texts] text_parts_member[OF _ v(1,2), of element_texts] by auto
  from infix_of_join[OF this v(3)] ne show ?thesis
    unfolding crosses_def action_haystack_def action_texts_def element_texts_def by simp
qed

definition harmless :: "'p loop_env \<Rightarrow> json dict list \<Rightarrow> string \<Rightarrow> json dict \<Rightarrow> bool" where
  "harmless env snapshot verb action \<longleftrightarrow>
     (verb \<in> set WRITE_VERBS \<longrightarrow>
        target_element env snapshot action \<noteq> None \<and>
        \<not> (verb = ''type'' \<and> py_truthy (dict_get action ''submit'')) \<and>
        (\<forall>token \<in> set HIGH_RISK_VERBS. \<not> crosses env snapshot action token))"

definition cleared :: "'p loop_env \<Rightarrow> json dict list \<Rightarrow> string \<Rightarrow> json dict \<Rightarrow> bool" where
  "cleared env snapshot verb action \<longleftrightarrow>
     (\<exists>lines. red_lines_of (le_float_str env) (le_skill env) = Inr lines \<and>
        (\<forall>line \<in> set lines. \<not> crosses env snapshot action line)) \<and>
     (le_auto_confirm env \<or> harmless env snapshot verb action)"

lemma lower_Nil [simp]: "lower s = [] \<longleftrightarrow> s = []"
  by (simp add: lower_def)

lemma risk_words_lower: "token \<in> set HIGH_RISK_VERBS \<Longrightarrow> lower token = token \<and> token \<noteq> []"
  by (auto simp: HIGH_RISK_VERBS_def lower_def lower_char_def)

lemma verb_text: "map_of VERBS verb \<noteq> None \<Longrightarrow> lower (strip verb) = verb \<and> verb \<noteq> []"
  by (auto simp: VERBS_def lower_def lower_char_def strip_def py_space_def split: if_splits)

lemma valid_actionD:
  assumes "validate_action fl (JObj d) = Inr None"
  obtains verb where "dict_get d ''verb'' = Some (JStr verb)" "map_of VERBS verb \<noteq> None"
  using assms by (cases "dict_get d ''verb''")
    (auto simp: validate_action_def Let_def split: if_splits json.splits option.splits)

lemma crossed_line_None:
  "crossed_line haystack lines = None \<longleftrightarrow> (\<forall>line \<in> set lines. \<not> (line \<noteq> [] \<and> infix_of (lower line) haystack))"
  by (auto simp: crossed_line_def find_None_iff)

lemma generic_run:
  assumes "should_run (classify_generic verb haystack action element) auto" and "\<not> auto" and "verb \<in> set WRITE_VERBS"
  shows "element \<noteq> None" and "\<not> (verb = ''type'' \<and> py_truthy (dict_get action ''submit''))"
    and "token \<in> set HIGH_RISK_VERBS \<Longrightarrow> \<not> infix_of token haystack"
proof -
  have "List.member WRITE_VERBS verb" using assms(3) by simp
  with assms(1,2) show "element \<noteq> None" and "\<not> (verb = ''type'' \<and> py_truthy (dict_get action ''submit''))"
    and "token \<in> set HIGH_RISK_VERBS \<Longrightarrow> \<not> infix_of token haystack"
    by (auto simp: classify_generic_def should_run_def confirm_because_def ambiguous_confirm_def Let_def
        find_None_iff find_Some_iff split: if_splits option.splits)
qed

lemma gate_clears:
  assumes valid: "validate_action fl (JObj action) = Inr None" and verb: "dict_get action ''verb'' = Some (JStr verb)"
    and fl: "fl = le_float_str env"
    and decided: "classify_action fl (JObj action) (target_element env snapshot action) (le_skill env) = Inr decision"
    and runs: "should_run decision (le_auto_confirm env)"
  shows "cleared env snapshot verb action"
proof -
  let ?el = "target_element env snapshot action"
  have norm: "lower (strip (text_or_empty fl (dict_get action ''verb''))) = verb"
  proof -
    obtain v where "dict_get action ''verb'' = Some (JStr v)" "map_of VERBS v \<noteq> None"
      by (rule valid_actionD[OF valid])
    with verb verb_text[of verb] show ?thesis by (simp add: text_or_empty_def)
  qed
  obtain lines where lines: "red_lines_of fl (le_skill env) = Inr lines"
    and none: "crossed_line (action_haystack fl action ?el) lines = None"
    and dec: "decision = classify_generic verb (action_haystack fl action ?el) action ?el"
    using decided runs norm by (auto simp: classify_action_def Let_def should_run_def split: sum.splits option.splits)
  have "harmless env snapshot verb action" if "\<not> le_auto_confirm env"
    using generic_run[OF runs[unfolded dec] that] risk_words_lower fl
    by (auto simp: harmless_def crosses_def)
  with lines none show ?thesis
    by (auto simp: cleared_def crossed_line_None crosses_def fl)
qed

section \<open>What reaches the page\<close>

lemma call_all_calls:
  "call_all pw cs s = (res, s') \<Longrightarrow> \<exists>ds. prefix ds cs \<and> pg_calls s' = pg_calls s @ ds"
proof (induction cs arbitrary: s)
  case (Cons c cs)
  obtain err s1 where c: "call_page pw c s = (err, s1)" by fastforce
  then have s1: "pg_calls s1 = pg_calls s @ [c]" by (auto simp: call_page_def split: prod.splits)
  show ?case
  proof (cases err)
    case None
    with Cons c obtain d where "prefix d cs" "pg_calls s' = pg_calls s1 @ d" by auto
    with s1 show ?thesis by (intro exI[of _ "c # d"]) simp
  next
    case (Some e)
    with Cons.prems c s1 show ?thesis by (intro exI[of _ "[c]"]) auto
  qed
qed auto

text \<open>An action performed in a step: the snapshot it was chosen on, its verb, its fields, its calls.\<close>

type_synonym act = "json dict list \<times> string \<times> json dict \<times> page_call list"

definition good_act :: "'p loop_env \<Rightarrow> act \<Rightarrow> bool" where
  "good_act env act \<longleftrightarrow> (case act of (snapshot, verb, action, calls) \<Rightarrow>
     dict_get action ''verb'' = Some (JStr verb) \<and> map_of VERBS verb \<noteq> None \<and>
     prefix calls (verb_calls (le_float_str env) verb action) \<and> cleared env snapshot verb action)"

definition calls_of :: "act \<Rightarrow> page_call list" where
  "calls_of act = snd (snd (snd act))"

text \<open>An action as it is carried out on a page.\<close>

definition performed :: "'p loop_env \<Rightarrow> act \<Rightarrow> 'p page_state \<Rightarrow> 'p page_state \<Rightarrow> bool" where
  "performed env act s s' \<longleftrightarrow> (case act of (snapshot, verb, action, calls) \<Rightarrow>
     snd (execute_page_action (le_playwright env) (le_float_str env) snapshot (JObj action) s) = s' \<and>
     pg_calls s' = pg_calls s @ calls)"

text \<open>
  The history of a page: it is looked at, and every action is carried out on the page as it was left by
  the look that gave the snapshot of the action.
\<close>

definition looked :: "'p loop_env \<Rightarrow> 'p page_state \<Rightarrow> (exn + json dict list) \<times> 'p page_state" where
  "looked env s = take_snapshot (le_playwright env) (le_parse_int env) (le_float_str env) s"

inductive acted :: "'p loop_env \<Rightarrow> act list \<Rightarrow> 'p page_state \<Rightarrow> 'p page_state \<Rightarrow> bool" for env :: "'p loop_env" where
  acted_end: "acted env [] s s"
| acted_look: "looked env s = (view, s1) \<Longrightarrow> acted env acts s1 s' \<Longrightarrow> acted env acts s s'"
| acted_act: "looked env s = (Inr snapshot, s1) \<Longrightarrow> performed env (snapshot, verb, action, calls) s1 s2 \<Longrightarrow>
    acted env acts s2 s' \<Longrightarrow> acted env ((snapshot, verb, action, calls) # acts) s s'"

lemma acted_append: "acted env acts s s' \<Longrightarrow> acted env acts' s' s'' \<Longrightarrow> acted env (acts @ acts') s s''"
  by (induction rule: acted.induct) (auto intro: acted.intros)

lemma look_calls: "looked env s = (view, s1) \<Longrightarrow> pg_calls s1 = pg_calls s"
  by (auto simp: looked_def take_snapshot_def split: prod.splits sum.splits)

lemma acted_calls: "acted env acts s s' \<Longrightarrow> pg_calls s' = pg_calls s @ concat (map calls_of acts)"
  by (induction rule: acted.induct) (auto simp: look_calls performed_def calls_of_def)

text \<open>At most so many actions between two page states, each of them cleared.\<close>

definition acts_between :: "'p loop_env \<Rightarrow> nat \<Rightarrow> 'p page_state \<Rightarrow> 'p page_state \<Rightarrow> bool" where
  "acts_between env n s s' \<longleftrightarrow> (\<exists>acts. length acts \<le> n \<and> acted env acts s s' \<and> (\<forall>a \<in> set acts. good_act env a))"

lemma acts_refl: "acts_between env n s s"
  unfolding acts_between_def by (intro exI[of _ "[]"]) (simp add: acted_end)

lemma acts_trans: "acts_between env n s s' \<Longrightarrow> acts_between env m s' s'' \<Longrightarrow> acts_between env (n + m) s s''"
  unfolding acts_between_def by (elim exE, rule_tac x = "acts @ actsa" in exI) (auto intro: acted_append)

text \<open>What a step does to the page it has looked at.\<close>

definition one_act :: "'p loop_env \<Rightarrow> json dict list \<Rightarrow> 'p page_state \<Rightarrow> 'p page_state \<Rightarrow> bool" where
  "one_act env snapshot s s' \<longleftrightarrow> s' = s \<or>
     (\<exists>verb action calls. performed env (snapshot, verb, action, calls) s s' \<and> good_act env (snapshot, verb, action, calls))"

lemma one_act_refl [simp]: "one_act env snapshot s s"
  by (simp add: one_act_def)

lemma one_act_acts:
  assumes "looked env s = (Inr snapshot, s1)" and "one_act env snapshot s1 s'"
  shows "acts_between env 1 s s'"
  using assms(2) unfolding one_act_def
proof
  assume "s' = s1"
  with assms(1) show ?thesis
    unfolding acts_between_def by (intro exI[of _ "[]"]) (auto intro: acted.intros)
next
  assume "\<exists>verb action calls. performed env (snapshot, verb, action, calls) s1 s' \<and> good_act env (snapshot, verb, action, calls)"
  then obtain verb action calls where a: "performed env (snapshot, verb, action, calls) s1 s'"
    "good_act env (snapshot, verb, action, calls)" by blast
  with assms(1) show ?thesis
    unfolding acts_between_def
    by (intro exI[of _ "[(snapshot, verb, action, calls)]"]) (auto intro: acted.intros)
qed

lemma execute_calls:
  assumes "execute_page_action pw fl snapshot (JObj action) s = (res, s')" and "validate_action fl (JObj action) = Inr None"
    and "dict_get action ''verb'' = Some (JStr verb)"
  shows "\<exists>calls. prefix calls (verb_calls fl verb action) \<and> pg_calls s' = pg_calls s @ calls"
  using assms by (auto simp: execute_page_action_def execute_valid_def dispatch_verb_def map_prod_def
      split: prod.splits option.splits if_splits sum.splits dest: call_all_calls)

fun page_after :: "'p step_end \<Rightarrow> 'p page_state" where
  "page_after (StepRaises e page) = page"
| "page_after (StepReturns r page) = page"
| "page_after (StepContinues st) = ls_page st"

lemma page_after_simps [simp]:
  "page_after (go_on step content user r transcript page) = page"
  "page_after (returns_with r n v page) = page"
  by (simp_all add: go_on_def returns_with_def)

lemma call_step_acts:
  "one_act env snapshot (ls_page st) (page_after (call_step env index snapshot verb args truncated content st))"
proof -
  let ?fl = "le_float_str env" and ?action = "dict_update [(''verb'', JStr verb)] args"
  have gated: "one_act env snapshot (ls_page st) (page_after (gated_step env index snapshot verb args ?action truncated content st))"
    if valid: "validate_action ?fl (JObj ?action) = Inr None"
  proof (cases "classify_action ?fl (JObj ?action) (target_element env snapshot ?action) (le_skill env)")
    case (Inl e)
    then show ?thesis by (simp add: gated_step_def target_element_def Let_def)
  next
    case (Inr decision)
    show ?thesis
    proof (cases "should_run decision (le_auto_confirm env)")
      case False
      with Inr show ?thesis by (simp add: gated_step_def target_element_def Let_def blocked_step_def)
    next
      case True
      obtain v where v: "dict_get ?action ''verb'' = Some (JStr v)" "map_of VERBS v \<noteq> None"
        using valid_actionD[OF valid] by blast
      obtain res s' where ex: "execute_page_action (le_playwright env) ?fl snapshot (JObj ?action) (ls_page st) = (res, s')"
        by fastforce
      obtain calls where calls: "prefix calls (verb_calls ?fl v ?action)" "pg_calls s' = pg_calls (ls_page st) @ calls"
        using execute_calls[OF ex valid v(1)] by blast
      have "cleared env snapshot v ?action"
        by (rule gate_clears[OF valid v(1) refl Inr True])
      with calls v have "good_act env (snapshot, v, ?action, calls)" by (simp add: good_act_def)
      moreover have "performed env (snapshot, v, ?action, calls) (ls_page st) s'"
        using ex calls(2) by (simp add: performed_def)
      moreover have "page_after (gated_step env index snapshot verb args ?action truncated content st) = s'"
        using Inr True ex by (cases res) (simp_all add: gated_step_def target_element_def act_step_def Let_def)
      ultimately show ?thesis unfolding one_act_def by blast
    qed
  qed
  show ?thesis
    using gated by (auto simp: call_step_def done_step_def Let_def split: sum.splits option.splits)
qed

lemma skill_step_acts: "acts_between env 1 (ls_page st) (page_after (skill_step env index st))"
proof -
  obtain view page where look: "looked env (ls_page st) = (view, page)" by fastforce
  note snap = look[unfolded looked_def]
  show ?thesis
  proof (cases view)
    case (Inl e)
    have "acts_between env 1 (ls_page st) page"
      using look unfolding acts_between_def by (intro exI[of _ "[]"]) (auto intro: acted.intros)
    with Inl show ?thesis by (simp add: skill_step_def snap)
  next
    case (Inr snapshot)
    have "one_act env snapshot page (page_after (skill_step env index st))"
      using call_step_acts[of env snapshot "st\<lparr>ls_page := page\<rparr>" index]
      by (auto simp: skill_step_def snap Inr Let_def split: sum.splits prod.splits list.splits)
    with one_act_acts[OF look[unfolded Inr]] show ?thesis by simp
  qed
qed

lemma skill_steps_acts:
  "skill_steps env index st = (res, page') \<Longrightarrow> acts_between env (le_max_steps env - index) (ls_page st) page'"
proof (induction env index st rule: skill_steps.induct)
  case (1 env index st)
  show ?case
  proof (cases "index < le_max_steps env")
    case False
    with 1 show ?thesis by (subst (asm) skill_steps.simps) (simp add: Let_def acts_refl)
  next
    case True
    have one: "acts_between env (le_max_steps env - index) (ls_page st) s"
      if "acts_between env 1 (ls_page st) s" for s
      using that True unfolding acts_between_def by (elim exE, rule_tac x = acts in exI) auto
    note step = skill_step_acts[of env st index]
    show ?thesis
    proof (cases "skill_step env index st")
      case (StepContinues st')
      with 1 True have "acts_between env (le_max_steps env - (index + 1)) (ls_page st') page'"
        by (subst (asm) skill_steps.simps) simp
      from acts_trans[OF _ this, of 1 "ls_page st"] step StepContinues True show ?thesis by (simp add: Suc_diff_Suc)
    qed (use 1 True step one in \<open>subst (asm) skill_steps.simps, simp\<close>)+
  qed
qed

text \<open>
  C8: Safety of the skill loop. Whatever the model proposes, whatever the page does and however the
  run ends (a return or an exception), the history of the page is one of looks and of at most
  \<open>max_steps\<close> actions, each carried out on the page just looked at and judged by what that look has shown:
  it has one of the seven verbs and makes the calls of that verb; it crosses no red line of the skill,
  which is searched in its fields and in name, role and value of the element it targets, even when the
  source waives confirmation; and when it does not, no write without a target among the elements shown, no
  submitting and no high-risk word gets through. A phrase that the text of one of these fields contains
  is found. These calls are all the calls the run makes.
\<close>

theorem skill_acts_cleared:
  assumes "run_skill_loop env page = (res, page')"
  shows "\<exists>acts. length acts \<le> le_max_steps env \<and> acted env acts page page' \<and>
    pg_calls page' = pg_calls page @ concat (map calls_of acts) \<and>
    (\<forall>(snapshot, verb, action, calls) \<in> set acts.
       dict_get action ''verb'' = Some (JStr verb) \<and> verb \<in> fst ` set VERBS \<and>
       prefix calls (verb_calls (le_float_str env) verb action) \<and>
       (\<exists>lines. red_lines_of (le_float_str env) (le_skill env) = Inr lines \<and>
          (\<forall>line \<in> set lines. \<not> crosses env snapshot action line)) \<and>
       (\<not> le_auto_confirm env \<longrightarrow> harmless env snapshot verb action)) \<and>
    (\<forall>snapshot action phrase. mentions env snapshot action phrase \<longrightarrow> crosses env snapshot action phrase)"
proof -
  from assms have "acts_between env (le_max_steps env) page page'"
    using skill_steps_acts by (fastforce simp: run_skill_loop_def)
  then obtain acts where "length acts \<le> le_max_steps env" "acted env acts page page'" "\<forall>a \<in> set acts. good_act env a"
    by (auto simp: acts_between_def)
  then show ?thesis
    by (intro exI[of _ acts]) (auto simp: acted_calls good_act_def cleared_def map_of_eq_None_iff mentions_crosses)
qed

text \<open>A page with one harmless button, a model that presses it and finishes, a skill with a red line.\<close>

definition demo_playwright :: "unit playwright" where
  "demo_playwright = \<lparr>pw_call = (\<lambda>c p. (None, p)),
     pw_evaluate = (\<lambda>p. (Inr [JObj [(''ref'', JInt 0), (''role'', JStr ''button''), (''name'', JStr ''Next'')]], p))\<rparr>"

definition demo_skill_env :: "unit loop_env" where
  "demo_skill_env = \<lparr>le_playwright = demo_playwright, le_parse_int = (\<lambda>s. None), le_float_str = (\<lambda>q. []),
     le_ask = (\<lambda>index snapshot transcript.
       if index = 0 then Inr ([(''click'', [(''ref'', JInt 0)])], [])
       else Inr ([(''done'', [(''status'', JStr ''success'')])], [])),
     le_elapsed = (\<lambda>index. 0), le_elements = None,
     le_skill = SkillDict [(''red_lines'', JList [JStr ''Delete account''])], le_max_steps = 20, le_auto_confirm = False\<rparr>"

definition demo_skill_page :: "unit page_state" where
  "demo_skill_page = \<lparr>pg_page = (), pg_calls = []\<rparr>"

definition demo_button :: "json dict list" where
  "demo_button = [[(''ref'', JInt 0), (''role'', JStr ''button''), (''name'', JStr ''Next''), (''value'', JStr [])]]"

definition demo_state :: "nat \<Rightarrow> unit loop_state" where
  "demo_state n = (case n of 0 \<Rightarrow> \<lparr>ls_page = demo_skill_page, ls_result = new_result, ls_transcript = []\<rparr>
     | _ \<Rightarrow> (case skill_step demo_skill_env 0 \<lparr>ls_page = demo_skill_page, ls_result = new_result, ls_transcript = []\<rparr> of
         StepContinues st \<Rightarrow> st | _ \<Rightarrow> \<lparr>ls_page = demo_skill_page, ls_result = new_result, ls_transcript = []\<rparr>))"

lemma demo_skill_steps:
  "skill_step demo_skill_env 0 (demo_state 0) = StepContinues (demo_state 1)"
  "case skill_step demo_skill_env 1 (demo_state 1) of
     StepReturns r page \<Rightarrow> lo_outcome r = ''done_success'' \<and> pg_calls page = [PwClick (ref_selector (\<lambda>q. []) (JInt 0))]
   | _ \<Rightarrow> False"
  by code_simp+

lemma demo_skill_run:
  obtains r page' where "run_skill_loop demo_skill_env demo_skill_page = (Inr r, page')"
    and "lo_outcome r = ''done_success''" and "pg_calls page' = [PwClick (ref_selector (\<lambda>q. []) (JInt 0))]"
proof -
  obtain r page' where second: "skill_step demo_skill_env 1 (demo_state 1) = StepReturns r page'"
    "lo_outcome r = ''done_success''" "pg_calls page' = [PwClick (ref_selector (\<lambda>q. []) (JInt 0))]"
    using demo_skill_steps(2) by (cases "skill_step demo_skill_env 1 (demo_state 1)") auto
  have "le_max_steps demo_skill_env = 20" by (simp add: demo_skill_env_def)
  moreover have "run_skill_loop demo_skill_env demo_skill_page = skill_steps demo_skill_env 0 (demo_state 0)"
    by (simp add: run_skill_loop_def demo_state_def)
  ultimately have "run_skill_loop demo_skill_env demo_skill_page = (Inr r, page')"
    using demo_skill_steps(1) second(1)
    by (simp add: skill_steps.simps[of _ 0] skill_steps.simps[of _ "Suc 0"])
  with second that show thesis by blast
qed

theorem skill_acts_cleared_witness:
  "\<exists>r page' acts. run_skill_loop demo_skill_env demo_skill_page = (Inr r, page') \<and> lo_outcome r = ''done_success'' \<and>
     acted demo_skill_env acts demo_skill_page page' \<and> pg_calls page' = concat (map calls_of acts) \<and> acts \<noteq> [] \<and>
     (\<forall>(snapshot, verb, action, calls) \<in> set acts. harmless demo_skill_env snapshot verb action)"
proof -
  obtain r page' where run: "run_skill_loop demo_skill_env demo_skill_page = (Inr r, page')"
    "lo_outcome r = ''done_success''" "pg_calls page' = [PwClick (ref_selector (\<lambda>q. []) (JInt 0))]"
    by (rule demo_skill_run)
  have "\<not> le_auto_confirm demo_skill_env" "pg_calls demo_skill_page = []"
    by (simp_all add: demo_skill_env_def demo_skill_page_def)
  with skill_acts_cleared[OF run(1)] obtain acts where acts: "acted demo_skill_env acts demo_skill_page page'"
    "pg_calls page' = concat (map calls_of acts)"
    "\<forall>(snapshot, verb, action, calls) \<in> set acts. harmless demo_skill_env snapshot verb action"
    by fastforce
  moreover from this(2) run(3) have "acts \<noteq> []" by auto
  ultimately show ?thesis using run(1,2) by blast
qed

section \<open>The account of a run\<close>

definition counted :: "nat \<Rightarrow> loop_result \<Rightarrow> bool" where
  "counted n r \<longleftrightarrow> map sr_index (lo_steps r) = [0..<n] \<and> length (lo_extracts r) \<le> n"

text \<open>Between two steps: nothing awaits confirmation, no finish was accepted.\<close>

definition running_result :: "nat \<Rightarrow> loop_result \<Rightarrow> bool" where
  "running_result n r \<longleftrightarrow> counted n r \<and> \<not> lo_awaiting_confirm r \<and> lo_proposed_action r = None \<and>
     (\<forall>s \<in> set (lo_steps r). sr_terminal_check s \<noteq> Some ''accepted'')"

definition finished_result :: "nat \<Rightarrow> loop_result \<Rightarrow> bool" where
  "finished_result n r \<longleftrightarrow> counted n r \<and>
     lo_outcome r \<in> {''done_success'', ''done_failed'', ''capped'', ''error'', ''awaiting_confirm''} \<and>
     (\<exists>final_status. lo_summary r = summarize r n final_status) \<and>
     lo_awaiting_confirm r = (lo_outcome r = ''awaiting_confirm'') \<and>
     (lo_proposed_action r \<noteq> None) = (lo_outcome r = ''awaiting_confirm'') \<and>
     (\<exists>s \<in> set (lo_steps r). sr_terminal_check s = Some ''accepted'') =
       (lo_outcome r \<in> {''done_success'', ''done_failed''})"

lemma summarize_update [simp]: "summarize (r\<lparr>lo_summary := v\<rparr>) n x = summarize r n x"
  by (simp add: summarize_def)

lemma running_add:
  "running_result n r \<Longrightarrow> sr_index step = n \<Longrightarrow> sr_terminal_check step \<noteq> Some ''accepted'' \<Longrightarrow>
    running_result (n + 1) (add_step step r)"
  by (auto simp: running_result_def counted_def add_step_def)

lemma blank_step_fields [simp]:
  "sr_index (blank_step env n snapshot) = n" "sr_terminal_check (blank_step env n snapshot) = None"
  by (simp_all add: blank_step_def)

text \<open>How a step changes the result.\<close>

definition step_counts :: "nat \<Rightarrow> 'p step_end \<Rightarrow> bool" where
  "step_counts n e \<longleftrightarrow>
     (case e of
        StepRaises _ _ \<Rightarrow> True
      | StepReturns r _ \<Rightarrow> finished_result (n + 1) r \<and> lo_outcome r \<noteq> ''capped''
      | StepContinues st \<Rightarrow> running_result (n + 1) (ls_result st))"

lemma go_on_counts:
  "running_result n r \<Longrightarrow> sr_index step = n \<Longrightarrow> sr_terminal_check step \<noteq> Some ''accepted'' \<Longrightarrow>
    step_counts n (go_on step content user r transcript page)"
  by (simp add: step_counts_def go_on_def running_add del: One_nat_def)

lemma check_done_values: "check_done fl action snapshot elements = Inr c \<Longrightarrow> c = ''accepted'' \<or> c = ''rejected''"
  by (auto simp: check_done_def Let_def split: if_splits sum.splits)

lemma done_step_counts:
  assumes "running_result n (ls_result st)"
  shows "step_counts n (done_step env n snapshot args action content st)"
proof (cases "check_done (le_float_str env) action snapshot (le_elements env)")
  case (Inl e)
  then show ?thesis by (simp add: done_step_def step_counts_def)
next
  case (Inr check)
  show ?thesis
  proof (cases "check = ''accepted''")
    case True
    with assms Inr show ?thesis
      by (auto simp: done_step_def step_counts_def returns_with_def finished_result_def running_result_def counted_def
          add_step_def outcome_for_done_def Let_def)
  next
    case False
    with assms Inr show ?thesis by (simp add: done_step_def Let_def go_on_counts)
  qed
qed

lemma blocked_step_counts:
  "running_result n (ls_result st) \<Longrightarrow> step_counts n (blocked_step env n snapshot verb args action decision st)"
  by (auto simp: blocked_step_def step_counts_def returns_with_def finished_result_def running_result_def counted_def
      add_step_def AWAITING_CONFIRM_def Let_def)

lemma act_step_counts:
  assumes "running_result n (ls_result st)"
  shows "step_counts n (act_step env n snapshot verb args action truncated content st)"
proof -
  have kept: "step_counts n (go_on step content user ((ls_result st)\<lparr>lo_extracts := lo_extracts (ls_result st) @ [rec]\<rparr>) transcript page)"
    if "sr_index step = n" "sr_terminal_check step \<noteq> Some ''accepted''" for step user rec transcript page
    using assms that by (auto simp: step_counts_def go_on_def running_result_def counted_def add_step_def)
  obtain res page where ex: "execute_page_action (le_playwright env) (le_float_str env) snapshot (JObj action) (ls_page st) = (res, page)"
    by fastforce
  show ?thesis
  proof (cases res)
    case (Inl e)
    with ex show ?thesis by (simp add: act_step_def step_counts_def)
  next
    case (Inr result)
    show ?thesis
    proof (cases "verb = ''extract'' \<and> ar_ok result \<and> ar_record result \<noteq> None")
      case True
      with ex Inr show ?thesis
        by (simp add: act_step_def Let_def split del: if_split) (auto intro!: kept)
    next
      case False
      then have "(if verb = ''extract'' \<and> ar_ok result then case ar_record result of None \<Rightarrow> ls_result st
          | Some rec \<Rightarrow> (ls_result st)\<lparr>lo_extracts := lo_extracts (ls_result st) @ [rec]\<rparr> else ls_result st) = ls_result st"
        by (auto split: option.splits)
      with ex Inr assms show ?thesis by (simp add: act_step_def Let_def go_on_counts)
    qed
  qed
qed

lemma gated_step_counts:
  assumes "running_result n (ls_result st)"
  shows "step_counts n (gated_step env n snapshot verb args action truncated content st)"
proof (cases "classify_action (le_float_str env) (JObj action) (target_element env snapshot action) (le_skill env)")
  case (Inl e)
  then show ?thesis by (simp add: gated_step_def target_element_def Let_def step_counts_def)
next
  case (Inr decision)
  then show ?thesis using blocked_step_counts[OF assms] act_step_counts[OF assms]
    by (simp add: gated_step_def target_element_def Let_def)
qed

lemma call_step_counts:
  assumes "running_result n (ls_result st)"
  shows "step_counts n (call_step env n snapshot verb args truncated content st)"
proof (cases "validate_action (le_float_str env) (JObj (dict_update [(''verb'', JStr verb)] args))")
  case (Inl e)
  then show ?thesis by (simp add: call_step_def step_counts_def)
next
  case (Inr verr)
  then show ?thesis using done_step_counts[OF assms] gated_step_counts[OF assms]
    by (cases verr) (simp_all add: call_step_def Let_def go_on_counts[OF assms])
qed

lemma skill_step_counts:
  assumes "running_result n (ls_result st)"
  shows "step_counts n (skill_step env n st)"
proof -
  have failed: "step_counts n (returns_with (add_step step (ls_result st)\<lparr>lo_outcome := ''error''\<rparr>) (n + 1) JNull page)"
    if "sr_index step = n" "sr_terminal_check step = None" for step page
    using assms that by (auto simp: step_counts_def returns_with_def finished_result_def running_result_def counted_def add_step_def)
  with assms show ?thesis
    by (auto simp: skill_step_def Let_def step_counts_def[of _ "StepRaises _ _"] simp del: One_nat_def
        intro!: failed go_on_counts call_step_counts split: prod.splits sum.splits list.splits)
qed

lemma skill_steps_counts:
  assumes "running_result index (ls_result st)" and "index \<le> le_max_steps env"
    and "skill_steps env index st = (Inr r, page')"
  shows "\<exists>n \<le> le_max_steps env. finished_result n r \<and> (lo_outcome r = ''capped'' \<longrightarrow> n = le_max_steps env)"
  using assms
proof (induction env index st rule: skill_steps.induct)
  case (1 env index st)
  show ?case
  proof (cases "index < le_max_steps env")
    case False
    with 1 have "index = le_max_steps env" by simp
    moreover from False 1(4) have "r = (ls_result st)\<lparr>lo_outcome := ''capped'',
        lo_summary := summarize ((ls_result st)\<lparr>lo_outcome := ''capped''\<rparr>) index JNull\<rparr>"
      by (subst (asm) skill_steps.simps) (simp add: Let_def)
    ultimately show ?thesis using 1(2)
      by (intro exI[of _ index]) (auto simp: finished_result_def running_result_def counted_def)
  next
    case True
    note step = skill_step_counts[OF 1(2), of env]
    show ?thesis
    proof (cases "skill_step env index st")
      case (StepRaises e page)
      with 1(4) True show ?thesis by (subst (asm) skill_steps.simps) simp
    next
      case (StepReturns r' page)
      with 1(4) True have "r' = r" by (subst (asm) skill_steps.simps) simp
      with step StepReturns True show ?thesis
        by (intro exI[of _ "index + 1"]) (simp add: step_counts_def)
    next
      case (StepContinues st')
      with 1(4) True have "skill_steps env (index + 1) st' = (Inr r, page')"
        by (subst (asm) skill_steps.simps) simp
      with 1(1)[OF True StepContinues] step StepContinues True show ?thesis
        by (simp add: step_counts_def)
    qed
  qed
qed

text \<open>
  Every run of the skill loop that returns does so within \<open>max_steps\<close> steps, numbered
  consecutively, with at most one extract per step, a summary that counts them and one of the five
  outcomes. It is capped only after all its steps; it proposes an action and awaits confirmation
  exactly with the outcome \<open>awaiting_confirm\<close>; it reports a finish exactly when a \<open>done\<close>
  of the model was accepted.
\<close>

lemma skill_run_accounts:
  assumes "run_skill_loop env page = (Inr r, page')"
  shows "\<exists>n \<le> le_max_steps env. map sr_index (lo_steps r) = [0..<n] \<and> length (lo_extracts r) \<le> n \<and>
    (\<exists>final_status. lo_summary r = summarize r n final_status) \<and>
    lo_outcome r \<in> {''done_success'', ''done_failed'', ''capped'', ''error'', ''awaiting_confirm''} \<and>
    (lo_outcome r = ''capped'' \<longrightarrow> n = le_max_steps env) \<and>
    lo_awaiting_confirm r = (lo_outcome r = ''awaiting_confirm'') \<and>
    (lo_proposed_action r \<noteq> None) = (lo_outcome r = ''awaiting_confirm'') \<and>
    (\<exists>s \<in> set (lo_steps r). sr_terminal_check s = Some ''accepted'') =
      (lo_outcome r \<in> {''done_success'', ''done_failed''})"
proof -
  have "running_result 0 (ls_result \<lparr>ls_page = page, ls_result = new_result, ls_transcript = []\<rparr>)"
    by (simp add: running_result_def counted_def new_result_def)
  from skill_steps_counts[OF this _ assms[unfolded run_skill_loop_def]] show ?thesis
    unfolding finished_result_def counted_def by blast
qed

lemma skill_run_accounts_witness:
  "\<exists>r page'. run_skill_loop demo_skill_env demo_skill_page = (Inr r, page') \<and> lo_outcome r = ''done_success'' \<and>
     \<not> lo_awaiting_confirm r \<and> length (lo_steps r) \<le> 20"
proof -
  obtain r page' where run: "run_skill_loop demo_skill_env demo_skill_page = (Inr r, page')" "lo_outcome r = ''done_success''"
    by (rule demo_skill_run)
  from skill_run_accounts[OF run(1)] obtain n where "n \<le> 20" "map sr_index (lo_steps r) = [0..<n]" "\<not> lo_awaiting_confirm r"
    by (auto simp: demo_skill_env_def run(2))
  moreover from this(2) have "length (lo_steps r) = n" by (metis length_map length_upt minus_nat.diff_0)
  ultimately show ?thesis using run by blast
qed

section \<open>When the executor raises\<close>


section \<open>Where the documentation promises otherwise\<close>

text \<open>An \<open>extract\<close> whose data is a text, as models write it, raises instead of failing.\<close>

lemma text_extract_raises:
  "fst (execute_page_action pw fl snapshot (JObj [(''verb'', JStr ''extract''), (''data'', JStr (c # cs))]) s) =
     Inl (Exn ''ValueError'')"
proof -
  have "validate_action fl (JObj [(''verb'', JStr ''extract''), (''data'', JStr (c # cs))]) = Inr None"
    by (simp add: validate_action_def dict_get_def hashable_def VERBS_def missing_field_def)
  then show ?thesis
    by (simp add: execute_page_action_def execute_valid_def dict_get_def dict_get_or_def py_dict_def py_iter_def)
qed

text \<open>
  States that falsely look terminal given as one text are read letter by letter: a \<open>done\<close> is then
  rejected as soon as one of the letters occurs on the page.
\<close>

lemma text_states_read_by_letters:
  assumes "s \<noteq> []"
  shows "check_done fl action snapshot (Some [(''false_terminal_states'', JStr s)]) = Inr ''rejected'' \<longleftrightarrow>
    (\<exists>c \<in> set s. lower (strip [c]) \<noteq> [] \<and> infix_of (lower (strip [c])) (done_text fl action snapshot))"
  using assms by (auto simp: check_done_def dict_get_def py_iter_def list_ex_iff Let_def)

end
