(* ===== verification/SkillEvidence.thy ===== *)
theory SkillEvidence
  imports SkillProps
begin

text \<open>
  The closed loop around a skill: how a run is judged against what the skill declares
  (\<open>backend/skills/trace.py\<close>, the feedback part of \<open>backend/channels/skill_channel.py\<close>), and
  how failing skills are corrected (\<open>backend/skills/correction.py\<close>): a proposal after a streak of
  failures, re-distillation into the next version, rollback. Writers hold the row lock of the skill,
  so each operation is one step. The distiller is a parameter, and so is the clock.
\<close>

section \<open>Judging a run\<close>

definition outcome_status :: "string \<Rightarrow> string" where
  "outcome_status loop_outcome =
     (case map_of [(''done_success'', ''success''), (''done_failed'', ''failed''), (''capped'', ''failed''),
        (''error'', ''failed''), (''awaiting_confirm'', ''paused'')] loop_outcome of
        None \<Rightarrow> ''failed'' | Some s \<Rightarrow> s)"

definition outcome_from_loop :: "string \<Rightarrow> json list \<Rightarrow> json \<Rightarrow> json dict \<Rightarrow> json dict" where
  "outcome_from_loop loop_outcome milestones_hit terminal_check extra =
     dict_update
       [(''status'', JStr (outcome_status loop_outcome)), (''loop_outcome'', JStr loop_outcome),
        (''milestones_hit'', JList milestones_hit), (''terminal_check'', terminal_check)] extra"

definition assemble_trace :: "json list \<Rightarrow> json dict \<Rightarrow> string \<Rightarrow> string \<Rightarrow> string \<Rightarrow> json dict \<Rightarrow> json dict" where
  "assemble_trace step_events outcome domain label trace_id extra =
     [(''schema'', JStr ''journey_trace_v1''), (''trace_id'', JStr trace_id), (''label'', JStr label),
      (''summary'', JObj (dict_update [(''domain'', JStr domain)] extra)), (''steps'', JList step_events),
      (''outcome'', JObj outcome)]"

definition as_list :: "json option \<Rightarrow> json list" where
  "as_list v =
     (case v of
        None \<Rightarrow> []
      | Some JNull \<Rightarrow> []
      | Some (JList vs) \<Rightarrow> vs
      | Some x \<Rightarrow> [x])"

definition skill_elements :: "skill_arg \<Rightarrow> json dict" where
  "skill_elements skill =
     (case skill of
        NoSkill \<Rightarrow> []
      | SkillRow (JObj d) \<Rightarrow> d
      | SkillRow _ \<Rightarrow> []
      | SkillDict d \<Rightarrow> (case dict_get d ''elements'' of Some (JObj e) \<Rightarrow> e | _ \<Rightarrow> d))"

definition self_eval :: "(rat \<Rightarrow> string) \<Rightarrow> string \<Rightarrow> json dict \<Rightarrow> skill_arg \<Rightarrow> json dict" where
  "self_eval fl now outcome skill =
     (let elements = skill_elements skill;
          declared_terminals = as_list (dict_get elements ''terminal_conditions'');
          declared_milestones = as_list (dict_get elements ''milestones'');
          status = lower (text_or_empty fl (dict_get outcome ''status''));
          succeeded = (status = ''success'');
          reported_hits = as_list (dict_get outcome ''milestones_hit'');
          milestones_hit = (if declared_milestones \<noteq> []
            then filter (\<lambda>m. List.member (map (py_str fl) declared_milestones) (py_str fl m)) reported_hits
            else reported_hits);
          reported_terminal_hits = dict_get_or outcome ''terminal_conditions_hit'' JNull;
          terminal_met = (if declared_terminals \<noteq> [] \<and> reported_terminal_hits \<noteq> JNull
            then succeeded \<and> as_list (Some reported_terminal_hits) \<noteq> [] else succeeded)
      in [(''event'', JStr ''executed''), (''passed'', JBool (succeeded \<and> terminal_met)),
          (''milestones_hit'', JList milestones_hit), (''terminal_met'', JBool terminal_met),
          (''outcome'', JStr (if status \<noteq> [] then status else ''unknown'')),
          (''loop_outcome'', dict_get_or outcome ''loop_outcome'' JNull),
          (''trace_id'', dict_get_or outcome ''trace_id'' JNull), (''at'', JStr now)])"

text \<open>The text of a run that declared phrases are looked for in.\<close>

definition step_haystack :: "(rat \<Rightarrow> string) \<Rightarrow> loop_result \<Rightarrow> string" where
  "step_haystack fl result =
     lower (join_with '' '' (py_repr fl (JObj (lo_summary result)) #
       concat (map (\<lambda>step.
         (case sr_result step of None \<Rightarrow> ''None'' | Some d \<Rightarrow> py_repr fl (JObj d)) #
         (case sr_error step of None \<Rightarrow> [] | Some e \<Rightarrow> if e = [] then [] else [e])) (lo_steps result))))"

definition declared_hits :: "(rat \<Rightarrow> string) \<Rightarrow> string \<Rightarrow> loop_result \<Rightarrow> json dict option \<Rightarrow> exn + json list" where
  "declared_hits fl key result elements =
     (let declared = dict_get (case elements of None \<Rightarrow> [] | Some d \<Rightarrow> d) key
      in if \<not> py_truthy declared then Inr []
         else case py_iter (the declared) of
             Inl e \<Rightarrow> Inl e
           | Inr vs \<Rightarrow> Inr (filter (\<lambda>v. let p = lower (strip (py_str fl v))
               in p \<noteq> [] \<and> infix_of p (step_haystack fl result)) vs))"

definition milestones_hit :: "(rat \<Rightarrow> string) \<Rightarrow> loop_result \<Rightarrow> json dict option \<Rightarrow> exn + json list" where
  "milestones_hit fl = declared_hits fl ''milestones''"

definition terminal_conditions_hit :: "(rat \<Rightarrow> string) \<Rightarrow> loop_result \<Rightarrow> json dict option \<Rightarrow> exn + json list" where
  "terminal_conditions_hit fl = declared_hits fl ''terminal_conditions''"

definition terminal_check :: "loop_result \<Rightarrow> json" where
  "terminal_check result =
     (case find (\<lambda>step. sr_verb step = Some ''done'' \<and> sr_terminal_check step \<noteq> None) (rev (lo_steps result)) of
        Some step \<Rightarrow> opt_str (sr_terminal_check step)
      | None \<Rightarrow> (if lo_outcome result = ''done_success'' then JBool True else JNull))"

definition channel_outcome ::
  "(rat \<Rightarrow> string) \<Rightarrow> string \<Rightarrow> loop_result \<Rightarrow> json dict option \<Rightarrow> exn + json dict"
where
  "channel_outcome fl trace_id result elements =
     (case milestones_hit fl result elements of
        Inl e \<Rightarrow> Inl e
      | Inr milestones \<Rightarrow>
          (case terminal_conditions_hit fl result elements of
             Inl e \<Rightarrow> Inl e
           | Inr terminals \<Rightarrow>
               Inr (dict_set (outcome_from_loop (lo_outcome result) milestones (terminal_check result)
                 [(''awaiting_confirm'', JBool (lo_awaiting_confirm result)),
                  (''terminal_conditions_hit'', JList terminals)]) ''trace_id'' (JStr trace_id))))"

section \<open>Skills and their evidence\<close>

record skill =
  sk_id :: string
  sk_domain :: string
  sk_capability :: string
  sk_skill_md :: string
  sk_elements :: "json dict"
  sk_source_trace :: json
  sk_distill_model :: json
  sk_evidence :: "json dict list"
  sk_last_failing_trace :: "json dict option"
  sk_version :: int
  sk_enabled :: bool

definition event_of :: "json dict \<Rightarrow> json" where
  "event_of ev = dict_get_or ev ''event'' JNull"

definition is_event :: "string \<Rightarrow> json dict \<Rightarrow> bool" where
  "is_event name ev \<longleftrightarrow> event_of ev = JStr name"

definition append_evidence :: "json dict \<Rightarrow> skill \<Rightarrow> skill" where
  "append_evidence ev sk = sk\<lparr>sk_evidence := sk_evidence sk @ [ev]\<rparr>"

definition DEFAULT_FAIL_STREAK :: nat where
  "DEFAULT_FAIL_STREAK = 3"

definition resets_streak :: "json dict \<Rightarrow> bool" where
  "resets_streak ev \<longleftrightarrow> is_event ''corrected'' ev \<or> is_event ''correction_dismissed'' ev"

fun boundary_from :: "nat \<Rightarrow> nat \<Rightarrow> json dict list \<Rightarrow> nat" where
  "boundary_from i boundary [] = boundary"
| "boundary_from i boundary (ev # evs) = boundary_from (i + 1) (if resets_streak ev then i + 1 else boundary) evs"

definition correction_boundary :: "json dict list \<Rightarrow> nat" where
  "correction_boundary evidence = boundary_from 0 0 evidence"

definition has_open_proposal :: "json dict list \<Rightarrow> bool" where
  "has_open_proposal evidence \<longleftrightarrow>
     list_ex (is_event ''correction_proposed'') (drop (correction_boundary evidence) evidence)"

definition counts_for_streak :: "json dict \<Rightarrow> bool" where
  "counts_for_streak ev \<longleftrightarrow> is_event ''executed'' ev \<and> dict_get_or ev ''loop_outcome'' JNull \<noteq> JStr ''error''"

definition failed_run :: "json dict \<Rightarrow> bool" where
  "failed_run ev \<longleftrightarrow> dict_get_or ev ''passed'' JNull = JBool False"

definition proposal :: "string \<Rightarrow> json dict list \<Rightarrow> json dict list \<Rightarrow> json dict" where
  "proposal now streak evidence =
     [(''event'', JStr ''correction_proposed''),
      (''trace_ids'', JList (map (\<lambda>ev. dict_get_or ev ''trace_id'' JNull) streak)),
      (''prior_redistill_count'', JInt (int (length (filter (is_event ''corrected'') evidence)))),
      (''at'', JStr now)]"

text \<open>The list after the call, and whether a proposal was appended.\<close>

definition maybe_propose_correction :: "nat \<Rightarrow> string \<Rightarrow> json dict list \<Rightarrow> bool \<times> json dict list" where
  "maybe_propose_correction n now evidence =
     (let tail = drop (correction_boundary evidence) evidence;
          executed = filter counts_for_streak tail;
          streak = drop (length executed - n) executed
      in if list_ex (is_event ''correction_proposed'') tail then (False, evidence)
         else if length executed < n then (False, evidence)
         else if \<not> list_all failed_run streak then (False, evidence)
         else (True, evidence @ [proposal now streak evidence]))"

definition propose_step :: "string \<Rightarrow> skill \<Rightarrow> skill" where
  "propose_step now sk =
     (let (proposed, evidence) = maybe_propose_correction DEFAULT_FAIL_STREAK now (sk_evidence sk)
      in if proposed then sk\<lparr>sk_evidence := evidence\<rparr> else sk)"

definition dismiss_correction :: "string \<Rightarrow> skill \<Rightarrow> skill" where
  "dismiss_correction now sk =
     append_evidence [(''event'', JStr ''correction_dismissed''), (''at'', JStr now)] sk"

record skill_fields =
  sf_skill_md :: string
  sf_elements :: "json dict"
  sf_distill_model :: json
  sf_source_trace :: json

text \<open>The distiller and the mapping onto the columns, for one trace.\<close>

type_synonym distiller = "json dict \<Rightarrow> exn + skill_fields"

definition corrected_entry :: "string \<Rightarrow> json dict \<Rightarrow> skill \<Rightarrow> json dict" where
  "corrected_entry now trace sk =
     [(''event'', JStr ''corrected''), (''from_version'', JInt (sk_version sk)),
      (''to_version'', JInt (sk_version sk + 1)), (''trace_id'', dict_get_or trace ''trace_id'' JNull),
      (''at'', JStr now), (''prev_skill_md'', JStr (sk_skill_md sk)), (''prev_elements'', JObj (sk_elements sk)),
      (''prev_distill_model'', sk_distill_model sk), (''prev_source_trace'', sk_source_trace sk)]"

definition re_distill :: "distiller \<Rightarrow> string \<Rightarrow> json dict list \<Rightarrow> skill \<Rightarrow> exn + skill" where
  "re_distill distill now traces sk =
     (if traces = [] then Inl (Exn ''ValueError'')
      else case distill (last traces) of
          Inl e \<Rightarrow> Inl e
        | Inr fs \<Rightarrow>
            Inr (append_evidence (corrected_entry now (last traces) sk)
              (sk\<lparr>sk_skill_md := sf_skill_md fs, sk_elements := sf_elements fs,
                sk_distill_model := sf_distill_model fs, sk_source_trace := sf_source_trace fs,
                sk_version := sk_version sk + 1\<rparr>)))"

text \<open>The last correction, with what was recorded after it.\<close>

definition last_corrected :: "json dict list \<Rightarrow> (json dict \<times> json dict list) option" where
  "last_corrected evidence =
     (let later = rev (takeWhile (\<lambda>ev. \<not> is_event ''corrected'' ev) (rev evidence))
      in case dropWhile (\<lambda>ev. \<not> is_event ''corrected'' ev) (rev evidence) of
           [] \<Rightarrow> None
         | ev # _ \<Rightarrow> Some (ev, later))"

definition already_rolled_back :: "json dict \<Rightarrow> json dict list \<Rightarrow> bool" where
  "already_rolled_back corrected later \<longleftrightarrow>
     list_ex (\<lambda>ev. is_event ''rolled_back'' ev \<and>
       dict_get_or ev ''from_version'' JNull = dict_get_or corrected ''to_version'' JNull) later"

definition rollback_correction :: "(rat \<Rightarrow> string) \<Rightarrow> string \<Rightarrow> skill \<Rightarrow> exn + skill" where
  "rollback_correction fl now sk =
     (case last_corrected (sk_evidence sk) of
        None \<Rightarrow> Inl (Exn ''ValueError'')
      | Some (corrected, later) \<Rightarrow>
          (if already_rolled_back corrected later then Inl (Exn ''ValueError'')
           else
             let version = (case dict_get_or corrected ''from_version'' (JInt (sk_version sk - 1)) of
                   JInt v \<Rightarrow> v | _ \<Rightarrow> sk_version sk - 1)
             in Inr (append_evidence
                  [(''event'', JStr ''rolled_back''), (''from_version'', JInt (sk_version sk)),
                   (''to_version'', JInt version), (''at'', JStr now)]
                  (sk\<lparr>sk_skill_md := text_or_empty fl (dict_get corrected ''prev_skill_md''),
                    sk_elements := (case dict_get_or corrected ''prev_elements'' JNull of JObj d \<Rightarrow> d | _ \<Rightarrow> []),
                    sk_distill_model := dict_get_or corrected ''prev_distill_model'' JNull,
                    sk_source_trace := dict_get_or corrected ''prev_source_trace'' JNull,
                    sk_version := version\<rparr>))))"

section \<open>Reading the evidence\<close>

lemma event_simps [simp]:
  "is_event name ((''event'', JStr n) # d) \<longleftrightarrow> n = name"
  by (auto simp: is_event_def event_of_def dict_get_or_def)

lemma boundary_from_snoc:
  "boundary_from i b (evs @ [ev]) = (if resets_streak ev then i + length evs + 1 else boundary_from i b evs)"
  by (induction evs arbitrary: i b) auto

lemma boundary_snoc:
  "correction_boundary (evs @ [ev]) = (if resets_streak ev then length evs + 1 else correction_boundary evs)"
  by (simp add: correction_boundary_def boundary_from_snoc)

lemma boundary_le: "correction_boundary evs \<le> length evs"
  by (induction evs rule: rev_induct) (auto simp: boundary_snoc correction_boundary_def[of "[]"])

text \<open>The part of the evidence that counts for the next proposal.\<close>

definition since_boundary :: "json dict list \<Rightarrow> json dict list" where
  "since_boundary evs = drop (correction_boundary evs) evs"

lemma since_boundary_snoc: "since_boundary (evs @ [ev]) = (if resets_streak ev then [] else since_boundary evs @ [ev])"
  using boundary_le[of evs] by (simp add: since_boundary_def boundary_snoc)

lemma last_corrected_snoc:
  "last_corrected (evs @ [ev]) =
     (if is_event ''corrected'' ev then Some (ev, [])
      else map_option (\<lambda>(c, later). (c, later @ [ev])) (last_corrected evs))"
proof (cases "dropWhile (\<lambda>ev. \<not> is_event ''corrected'' ev) (rev evs)")
  case Nil
  show ?thesis by (cases "is_event ''corrected'' ev") (simp_all add: last_corrected_def Nil)
next
  case (Cons c cs)
  show ?thesis by (cases "is_event ''corrected'' ev") (simp_all add: last_corrected_def Cons)
qed

lemma last_corrected_append:
  "list_all (\<lambda>ev. \<not> is_event ''corrected'' ev) evs \<Longrightarrow>
    last_corrected (evs0 @ evs) = map_option (\<lambda>(c, later). (c, later @ evs)) (last_corrected evs0)"
proof (induction evs rule: rev_induct)
  case (snoc ev evs)
  then have "last_corrected (evs0 @ evs) = map_option (\<lambda>(c, later). (c, later @ evs)) (last_corrected evs0)"
    by simp
  with snoc.prems show ?case
    using last_corrected_snoc[of "evs0 @ evs" ev] by (cases "last_corrected evs0") auto
qed (simp add: option.map_id)

section \<open>Rollback\<close>

text \<open>
  C29: Rolling a correction back. After a skill is re-distilled, and after any runs, proposals and
  dismissals recorded since (entries that are neither corrections nor rollbacks), rolling back gives
  back exactly the body and the version the skill had, appends one entry to the evidence and keeps
  the rest of it, and a second rollback is refused.
\<close>

theorem rollback_restores:
  assumes "re_distill distill now traces sk = Inr sk1"
    and "sk_evidence sk2 = sk_evidence sk1 @ evs"
    and "list_all (\<lambda>ev. \<not> is_event ''corrected'' ev \<and> \<not> is_event ''rolled_back'' ev) evs"
    and "sk_version sk2 = sk_version sk1"
  shows "\<exists>sk3 entry. rollback_correction fl now' sk2 = Inr sk3 \<and>
    sk_skill_md sk3 = sk_skill_md sk \<and> sk_elements sk3 = sk_elements sk \<and>
    sk_distill_model sk3 = sk_distill_model sk \<and> sk_source_trace sk3 = sk_source_trace sk \<and>
    sk_version sk3 = sk_version sk \<and> sk_evidence sk3 = sk_evidence sk2 @ [entry] \<and>
    rollback_correction fl now'' sk3 = Inl (Exn ''ValueError'')"
proof -
  obtain trace where ev1: "sk_evidence sk1 = sk_evidence sk @ [corrected_entry now trace sk]"
    and v1: "sk_version sk1 = sk_version sk + 1"
    using assms(1) by (auto simp: re_distill_def append_evidence_def split: if_splits sum.splits)
  let ?c = "corrected_entry now trace sk"
  have c: "is_event ''corrected'' ?c" by (simp add: corrected_entry_def)
  have none: "list_all (\<lambda>ev. \<not> is_event ''corrected'' ev) evs" "\<not> already_rolled_back ?c evs"
    using assms(3) by (auto simp: already_rolled_back_def list_all_iff list_ex_iff)
  have last: "last_corrected (sk_evidence sk2) = Some (?c, evs)"
    using last_corrected_append[OF none(1), of "sk_evidence sk @ [?c]"] c
    by (simp add: assms(2) ev1 last_corrected_snoc)
  define entry where "entry = [(''event'', JStr ''rolled_back''), (''from_version'', JInt (sk_version sk2)),
      (''to_version'', JInt (sk_version sk)), (''at'', JStr now')]"
  obtain sk3 where roll: "rollback_correction fl now' sk2 = Inr sk3"
    and body: "sk_skill_md sk3 = sk_skill_md sk" "sk_elements sk3 = sk_elements sk"
      "sk_distill_model sk3 = sk_distill_model sk" "sk_source_trace sk3 = sk_source_trace sk"
      "sk_version sk3 = sk_version sk" and ev3: "sk_evidence sk3 = sk_evidence sk2 @ [entry]"
    using last none(2)
    by (auto simp: rollback_correction_def append_evidence_def corrected_entry_def dict_get_or_def dict_get_def
        text_or_empty_def entry_def Let_def)
  have "\<not> is_event ''corrected'' entry" by (simp add: entry_def)
  then have "last_corrected (sk_evidence sk3) = Some (?c, evs @ [entry])"
    using last by (simp add: ev3 last_corrected_snoc)
  moreover have "already_rolled_back ?c (evs @ [entry])"
    by (simp add: already_rolled_back_def entry_def corrected_entry_def dict_get_or_def assms(4) v1)
  ultimately have "rollback_correction fl now'' sk3 = Inl (Exn ''ValueError'')"
    by (simp add: rollback_correction_def)
  with roll body ev3 show ?thesis by blast
qed

definition demo_skill :: skill where
  "demo_skill = \<lparr>sk_id = ''s'', sk_domain = ''d'', sk_capability = ''c'', sk_skill_md = ''v1'',
     sk_elements = [(''red_lines'', JList [])], sk_source_trace = JNull, sk_distill_model = JStr ''m'', sk_evidence = [],
     sk_last_failing_trace = None, sk_version = 1, sk_enabled = True\<rparr>"

definition demo_distiller :: distiller where
  "demo_distiller trace = Inr \<lparr>sf_skill_md = ''v2'', sf_elements = [], sf_distill_model = JStr ''m2'', sf_source_trace = JStr ''t''\<rparr>"

theorem rollback_restores_witness:
  "\<exists>sk1 sk3. re_distill demo_distiller ''now'' [[]] demo_skill = Inr sk1 \<and> sk_skill_md sk1 = ''v2'' \<and> sk_version sk1 = 2 \<and>
     rollback_correction (\<lambda>q. []) ''later'' sk1 = Inr sk3 \<and> sk_skill_md sk3 = ''v1'' \<and> sk_version sk3 = 1"
proof -
  obtain sk1 where sk1: "re_distill demo_distiller ''now'' [[]] demo_skill = Inr sk1"
    "sk_skill_md sk1 = ''v2''" "sk_version sk1 = 2"
    by (simp add: re_distill_def demo_distiller_def append_evidence_def demo_skill_def)
  then show ?thesis
    using rollback_restores[OF sk1(1), of sk1 "[]" "\<lambda>q. []" "''later''"] by (auto simp: demo_skill_def)
qed

section \<open>The life of a skill\<close>

text \<open>
  What happens to a skill after it is created: runs are judged, proposals are considered, a human
  dismisses, re-distills or rolls back, the trace of a failing run is kept. Each operation reads the
  row and commits it as one step. The row lock of the writers makes it one where the database has row
  locks; on SQLite the lock does nothing and that no two of them overlap is an assumption, as it is
  everywhere for a re-distillation, which awaits the distiller between its read and its commit.
\<close>

inductive skill_history :: "distiller \<Rightarrow> (rat \<Rightarrow> string) \<Rightarrow> skill \<Rightarrow> skill \<Rightarrow> bool"
  for distill :: distiller and fl :: "rat \<Rightarrow> string" and sk0 :: skill
where
  sk_created: "skill_history distill fl sk0 sk0"
| sk_executed: "skill_history distill fl sk0 sk \<Longrightarrow>
    skill_history distill fl sk0 (append_evidence (self_eval fl now outcome arg) sk)"
| sk_failing_trace: "skill_history distill fl sk0 sk \<Longrightarrow> skill_history distill fl sk0 (sk\<lparr>sk_last_failing_trace := Some trace\<rparr>)"
| sk_proposed: "skill_history distill fl sk0 sk \<Longrightarrow> skill_history distill fl sk0 (propose_step now sk)"
| sk_dismissed: "skill_history distill fl sk0 sk \<Longrightarrow> skill_history distill fl sk0 (dismiss_correction now sk)"
| sk_corrected: "skill_history distill fl sk0 sk \<Longrightarrow> re_distill distill now traces sk = Inr sk' \<Longrightarrow>
    skill_history distill fl sk0 sk'"
| sk_rolled_back: "skill_history distill fl sk0 sk \<Longrightarrow> rollback_correction fl now sk = Inr sk' \<Longrightarrow>
    skill_history distill fl sk0 sk'"

definition events :: "string \<Rightarrow> json dict list \<Rightarrow> nat" where
  "events name evs = length (filter (is_event name) evs)"

definition untouched :: "json dict list \<Rightarrow> bool" where
  "untouched evs \<longleftrightarrow> events ''corrected'' evs = 0 \<and> events ''rolled_back'' evs = 0 \<and> events ''correction_proposed'' evs = 0"

text \<open>When a proposal is due: no open one, and the last three counted runs since the boundary failed.\<close>

definition proposal_due :: "json dict list \<Rightarrow> bool" where
  "proposal_due evs \<longleftrightarrow>
     (let executed = filter counts_for_streak (since_boundary evs)
      in events ''correction_proposed'' (since_boundary evs) = 0 \<and> 3 \<le> length executed \<and>
         (\<forall>ev \<in> set (drop (length executed - 3) executed). failed_run ev))"

lemma events_snoc [simp]: "events name (evs @ [ev]) = events name evs + (if is_event name ev then 1 else 0)"
  by (simp add: events_def)

lemma maybe_propose_due:
  "maybe_propose_correction DEFAULT_FAIL_STREAK now evs =
     (if proposal_due evs
      then (True, evs @ [proposal now (let executed = filter counts_for_streak (since_boundary evs)
        in drop (length executed - 3) executed) evs])
      else (False, evs))"
  by (auto simp: maybe_propose_correction_def proposal_due_def since_boundary_def DEFAULT_FAIL_STREAK_def Let_def
      events_def list_ex_iff list_all_iff filter_empty_conv)

text \<open>What a history keeps of its evidence.\<close>

definition evidence_inv :: "json dict list \<Rightarrow> bool" where
  "evidence_inv evs \<longleftrightarrow>
     events ''correction_proposed'' (since_boundary evs) \<le> 1 \<and>
     events ''correction_proposed'' evs \<le> 1 + events ''corrected'' evs + events ''correction_dismissed'' evs \<and>
     (\<forall>i < length evs. is_event ''correction_proposed'' (evs ! i) \<longrightarrow> proposal_due (take i evs))"

text \<open>The stronger count that induction needs: the proposals before the boundary are settled.\<close>

definition settled :: "json dict list \<Rightarrow> bool" where
  "settled evs \<longleftrightarrow> events ''correction_proposed'' evs \<le>
     events ''correction_proposed'' (since_boundary evs) + events ''corrected'' evs + events ''correction_dismissed'' evs"

lemma is_event_unique: "is_event a ev \<Longrightarrow> is_event b ev \<longleftrightarrow> a = b"
  by (auto simp: is_event_def)

lemma resets_events: "resets_streak ev \<longleftrightarrow> is_event ''corrected'' ev \<or> is_event ''correction_dismissed'' ev"
  by (simp add: resets_streak_def)

lemma evidence_inv_snoc:
  assumes inv: "evidence_inv evs" "settled evs"
    and ev: "is_event ''correction_proposed'' ev \<Longrightarrow> proposal_due evs"
  shows "evidence_inv (evs @ [ev]) \<and> settled (evs @ [ev])"
proof -
  have "proposal_due (take i (evs @ [ev]))"
    if "i < length (evs @ [ev])" "is_event ''correction_proposed'' ((evs @ [ev]) ! i)" for i
    using that inv ev by (cases "i = length evs") (auto simp: evidence_inv_def nth_append)
  moreover have "events ''correction_proposed'' (since_boundary (evs @ [ev])) \<le> 1 \<and> settled (evs @ [ev])"
    using inv ev is_event_unique[of "''correction_proposed''" ev "''corrected''"]
      is_event_unique[of "''correction_proposed''" ev "''correction_dismissed''"]
      is_event_unique[of "''corrected''" ev "''correction_dismissed''"]
    by (auto simp: since_boundary_snoc settled_def evidence_inv_def proposal_due_def resets_events events_def[of _ "[]"] Let_def)
  ultimately show ?thesis by (auto simp: evidence_inv_def settled_def)
qed

lemma untouched_inv: "untouched evs \<Longrightarrow> evidence_inv evs \<and> settled evs"
proof -
  assume un: "untouched evs"
  then have "\<not> is_event ''correction_proposed'' ev" if "ev \<in> set evs" for ev
    using that by (auto simp: untouched_def events_def filter_empty_conv)
  moreover from this have "events ''correction_proposed'' (since_boundary evs) = 0"
    by (auto simp: events_def since_boundary_def filter_empty_conv dest: in_set_dropD)
  ultimately show ?thesis using un by (auto simp: evidence_inv_def settled_def untouched_def)
qed

text \<open>The version: one up for a correction, back down for its rollback.\<close>

definition version_inv :: "int \<Rightarrow> skill \<Rightarrow> bool" where
  "version_inv v0 sk \<longleftrightarrow>
     sk_version sk = v0 + int (events ''corrected'' (sk_evidence sk)) - int (events ''rolled_back'' (sk_evidence sk)) \<and>
     (case last_corrected (sk_evidence sk) of
        None \<Rightarrow> events ''corrected'' (sk_evidence sk) = 0 \<and> events ''rolled_back'' (sk_evidence sk) = 0
      | Some (c, later) \<Rightarrow> (\<exists>v. dict_get c ''from_version'' = Some (JInt v) \<and> dict_get c ''to_version'' = Some (JInt (v + 1)) \<and>
          events ''rolled_back'' (sk_evidence sk) + (if already_rolled_back c later then 0 else 1) \<le>
            events ''corrected'' (sk_evidence sk) \<and>
          sk_version sk = (if already_rolled_back c later then v else v + 1)))"

lemma already_snoc:
  "already_rolled_back c (later @ [ev]) \<longleftrightarrow> already_rolled_back c later \<or>
     is_event ''rolled_back'' ev \<and> dict_get_or ev ''from_version'' JNull = dict_get_or c ''to_version'' JNull"
  by (auto simp: already_rolled_back_def)

lemma version_inv_other:
  assumes "version_inv v0 sk" and "\<not> is_event ''corrected'' ev" and "\<not> is_event ''rolled_back'' ev"
    and "sk_version sk' = sk_version sk" and "sk_evidence sk' = sk_evidence sk @ [ev]"
  shows "version_inv v0 sk'"
  using assms by (auto simp: version_inv_def last_corrected_snoc already_snoc split: option.splits)

lemma last_corrected_None: "last_corrected evs = None \<longleftrightarrow> events ''corrected'' evs = 0"
  by (induction evs rule: rev_induct) (auto simp: last_corrected_snoc last_corrected_def[of "[]"] events_def[of _ "[]"])

lemma untouched_version: "untouched (sk_evidence sk) \<Longrightarrow> version_inv (sk_version sk) sk"
  using last_corrected_None[of "sk_evidence sk"] by (simp add: version_inv_def untouched_def)

lemma re_distill_state:
  assumes "re_distill distill now traces sk = Inr sk'"
  obtains trace where "sk_evidence sk' = sk_evidence sk @ [corrected_entry now trace sk]" "sk_version sk' = sk_version sk + 1"
  using assms by (auto simp: re_distill_def append_evidence_def split: if_splits sum.splits)

lemma version_inv_corrected:
  assumes "version_inv v0 sk" and "re_distill distill now traces sk = Inr sk'"
  shows "version_inv v0 sk'"
proof -
  obtain trace where "sk_evidence sk' = sk_evidence sk @ [corrected_entry now trace sk]" "sk_version sk' = sk_version sk + 1"
    using re_distill_state[OF assms(2)] .
  then show ?thesis using assms(1)
    by (auto simp: version_inv_def last_corrected_snoc corrected_entry_def dict_get_def already_rolled_back_def
        split: option.splits if_splits)
qed

lemma rollback_state:
  assumes "rollback_correction fl now sk = Inr sk'" and "version_inv v0 sk"
  obtains c later v where "last_corrected (sk_evidence sk) = Some (c, later)" "\<not> already_rolled_back c later"
    "dict_get c ''from_version'' = Some (JInt v)" "dict_get c ''to_version'' = Some (JInt (v + 1))"
    "sk_version sk = v + 1" "sk_version sk' = v"
    "sk_evidence sk' = sk_evidence sk @ [[(''event'', JStr ''rolled_back''), (''from_version'', JInt (v + 1)),
       (''to_version'', JInt v), (''at'', JStr now)]]"
  using assms by (auto simp: rollback_correction_def version_inv_def append_evidence_def dict_get_or_def dict_get_def Let_def
      split: option.splits if_splits)

lemma version_inv_rolled_back:
  assumes "version_inv v0 sk" and "rollback_correction fl now sk = Inr sk'"
  shows "version_inv v0 sk'"
  by (rule rollback_state[OF assms(2,1)])
    (use assms(1) in \<open>auto simp: version_inv_def last_corrected_snoc already_snoc dict_get_or_def dict_get_def\<close>)

lemma self_eval_event: "is_event name (self_eval fl now outcome arg) \<longleftrightarrow> name = ''executed''"
  by (auto simp: self_eval_def Let_def)

lemma propose_step_cases:
  "propose_step now sk = sk \<or> proposal_due (sk_evidence sk) \<and>
     (\<exists>streak. propose_step now sk = append_evidence (proposal now streak (sk_evidence sk)) sk)"
  unfolding propose_step_def maybe_propose_due append_evidence_def by (auto split: prod.splits)

lemma history_inv:
  assumes "skill_history distill fl sk0 sk" and "untouched (sk_evidence sk0)"
  shows "prefix (sk_evidence sk0) (sk_evidence sk) \<and> evidence_inv (sk_evidence sk) \<and> settled (sk_evidence sk) \<and>
    version_inv (sk_version sk0) sk"
  using assms
proof (induction rule: skill_history.induct)
  case sk_created
  then show ?case using untouched_inv untouched_version by simp
next
  case (sk_executed sk now outcome arg)
  then show ?case
    using evidence_inv_snoc[of "sk_evidence sk" "self_eval fl now outcome arg"]
    by (auto simp: append_evidence_def self_eval_event intro: version_inv_other[of _ sk "self_eval fl now outcome arg"])
next
  case (sk_failing_trace sk trace)
  moreover have "version_inv v (sk\<lparr>sk_last_failing_trace := Some trace\<rparr>) = version_inv v sk" for v
    by (simp add: version_inv_def split: option.split)
  ultimately show ?case by simp
next
  case (sk_proposed sk now)
  show ?case
  proof (cases "propose_step now sk = sk")
    case True
    with sk_proposed show ?thesis by simp
  next
    case False
    then obtain streak where step: "proposal_due (sk_evidence sk)"
      "propose_step now sk = append_evidence (proposal now streak (sk_evidence sk)) sk"
      using propose_step_cases by blast
    have ev: "is_event name (proposal now streak (sk_evidence sk)) \<longleftrightarrow> name = ''correction_proposed''" for name
      by (auto simp: proposal_def)
    show ?thesis using sk_proposed step evidence_inv_snoc[of "sk_evidence sk" "proposal now streak (sk_evidence sk)"]
      by (auto simp: append_evidence_def ev intro: version_inv_other[of _ sk "proposal now streak (sk_evidence sk)"])
  qed
next
  case (sk_dismissed sk now)
  let ?ev = "[(''event'', JStr ''correction_dismissed''), (''at'', JStr now)]"
  show ?case using sk_dismissed evidence_inv_snoc[of "sk_evidence sk" ?ev]
    by (auto simp: dismiss_correction_def append_evidence_def intro: version_inv_other[of _ sk ?ev])
next
  case (sk_corrected sk now traces sk')
  obtain trace where "sk_evidence sk' = sk_evidence sk @ [corrected_entry now trace sk]"
    using re_distill_state[OF sk_corrected(2)] by blast
  then show ?case using sk_corrected evidence_inv_snoc[of "sk_evidence sk" "corrected_entry now trace sk"]
    by (auto simp: corrected_entry_def intro: version_inv_corrected[OF _ sk_corrected(2)])
next
  case (sk_rolled_back sk now sk')
  then have inv: "version_inv (sk_version sk0) sk" by simp
  obtain ev where "sk_evidence sk' = sk_evidence sk @ [ev]" "is_event ''rolled_back'' ev"
    by (rule rollback_state[OF sk_rolled_back(2) inv]) auto
  then show ?case using sk_rolled_back evidence_inv_snoc[of "sk_evidence sk" ev] is_event_unique[of "''rolled_back''" ev]
    by (auto intro: version_inv_rolled_back[OF inv sk_rolled_back(2)])
qed

text \<open>
  C25: The life of a skill. Over any history, one operation at a time, of judged runs, considered proposals, dismissals,
  re-distillations and rollbacks of a freshly created skill: its evidence only grows at the end; every
  proposal to correct it came when none was open and the last three counted runs since the last
  correction or dismissal had all failed; no second one is open at any time, and their number is
  bounded by the corrections and dismissals; the version is the first one plus the corrections less
  the rollbacks, of which there are never more than corrections.
\<close>

theorem skill_life:
  assumes "skill_history distill fl sk0 sk" and "untouched (sk_evidence sk0)"
  shows "prefix (sk_evidence sk0) (sk_evidence sk) \<and>
    (\<forall>i < length (sk_evidence sk). is_event ''correction_proposed'' (sk_evidence sk ! i) \<longrightarrow>
       proposal_due (take i (sk_evidence sk))) \<and>
    events ''correction_proposed'' (drop (correction_boundary (sk_evidence sk)) (sk_evidence sk)) \<le> 1 \<and>
    events ''correction_proposed'' (sk_evidence sk) \<le>
      1 + events ''corrected'' (sk_evidence sk) + events ''correction_dismissed'' (sk_evidence sk) \<and>
    events ''rolled_back'' (sk_evidence sk) \<le> events ''corrected'' (sk_evidence sk) \<and>
    sk_version sk = sk_version sk0 + int (events ''corrected'' (sk_evidence sk)) -
      int (events ''rolled_back'' (sk_evidence sk))"
proof -
  from history_inv[OF assms] have pre: "prefix (sk_evidence sk0) (sk_evidence sk)"
    and ev: "evidence_inv (sk_evidence sk)" and v: "version_inv (sk_version sk0) sk" by simp_all
  from v have "events ''rolled_back'' (sk_evidence sk) \<le> events ''corrected'' (sk_evidence sk)"
    by (auto simp: version_inv_def split: option.splits if_splits)
  with pre ev v show ?thesis
    by (simp add: evidence_inv_def since_boundary_def[symmetric] version_inv_def)
qed

theorem skill_life_witness:
  "\<exists>sk. skill_history demo_distiller (\<lambda>q. []) demo_skill sk \<and> sk_version sk = 2 \<and>
     events ''rolled_back'' (sk_evidence sk) \<le> 1"
proof -
  obtain sk1 where sk1: "re_distill demo_distiller ''now'' [[]] demo_skill = Inr sk1" "sk_version sk1 = 2"
    by (simp add: re_distill_def demo_distiller_def append_evidence_def demo_skill_def)
  have hist: "skill_history demo_distiller (\<lambda>q. []) demo_skill sk1"
    by (rule sk_corrected[OF sk_created sk1(1)])
  have "events ''corrected'' (sk_evidence sk1) = 1"
    using sk1(1) by (auto simp: re_distill_def demo_distiller_def append_evidence_def demo_skill_def corrected_entry_def events_def)
  with skill_life[OF hist] sk1(2) hist show ?thesis
    by (intro exI[of _ sk1]) (simp add: untouched_def demo_skill_def events_def)
qed

end
