(* ===== verification/Acquisition.thy ===== *)
theory Acquisition
  imports ChannelRunner DomainLimiter
begin

text \<open>
  Durable acquisition executions (\<open>backend/models/acquisition.py\<close>,
  \<open>backend/services/acquisition_service.py\<close>, \<open>backend/acquisition/registry.py\<close> and
  \<open>runner.py\<close>): idempotent submission, the lease a worker claims, renews and loses, recovery
  of expired leases, cancellation. A statement with its condition in the \<open>WHERE\<close> clause is one
  step; where the code reads a row, decides and writes it back through the ORM, the read and the write
  are two steps, and the write sets the columns that changed since the read, for the row's key only.
\<close>

section \<open>Executions\<close>

datatype acq_status = ACCEPTED | QUEUED | RUNNING | SUCCEEDED | FAILED | CANCELLED

definition accepts_cancel_request :: "acq_status \<Rightarrow> bool" where
  "accepts_cancel_request s \<longleftrightarrow> List.member [ACCEPTED, QUEUED, RUNNING, CANCELLED] s"

definition cancel_status :: "acq_status \<Rightarrow> acq_status" where
  "cancel_status s = (if List.member [ACCEPTED, QUEUED, RUNNING] s then CANCELLED else s)"

record run_correlation =
  co_workspace_id :: string
  co_project_id :: string
  co_workflow_id :: string
  co_run_id :: string

record submission =
  su_request_id :: string
  su_idempotency_key :: string
  su_capability_id :: string
  su_capability_version :: string
  su_output_schema_version :: string
  su_input :: "json dict"
  su_environment :: "json dict"
  su_required_artifacts :: "string list"
  su_geo_refs :: "json dict"
  su_correlation :: "run_correlation option"

text \<open>The four correlation columns are set together or not at all, as the table's check demands.\<close>

record execution =
  ex_id :: string
  ex_request_id :: string
  ex_idempotency_key :: string
  ex_request_fingerprint :: string
  ex_capability_id :: string
  ex_capability_version :: string
  ex_output_schema_version :: string
  ex_input_payload :: "json dict"
  ex_environment :: "json dict"
  ex_required_artifacts :: "string list"
  ex_geo_refs :: "json dict"
  ex_correlation :: "run_correlation option"
  ex_status :: acq_status
  ex_result_payload :: "json dict option"
  ex_failure :: "json dict option"
  ex_trace_ref :: json
  ex_artifact_refs :: "json list"
  ex_started_at :: "int option"
  ex_finished_at :: "int option"
  ex_lease_owner :: "string option"
  ex_heartbeat_at :: "int option"
  ex_lease_expires_at :: "int option"

type_synonym acq_rows = "execution list"

text \<open>
  The settings a worker reads, the digest of a submission's canonical JSON, and whether the
  correlated run exists.
\<close>

record acq_env =
  ae_agent_mode :: bool
  ae_fingerprint :: "submission \<Rightarrow> string"
  ae_correlation_valid :: "run_correlation \<Rightarrow> bool"

definition find_execution :: "string \<Rightarrow> acq_rows \<Rightarrow> execution option" where
  "find_execution eid rows = find (\<lambda>r. ex_id r = eid) rows"

definition get_by_idempotency_key :: "string \<Rightarrow> acq_rows \<Rightarrow> execution option" where
  "get_by_idempotency_key key rows = find (\<lambda>r. ex_idempotency_key r = key) rows"

text \<open>\<open>UPDATE \<dots> WHERE\<close>: the number of rows matched, and the table after it.\<close>

definition update_where :: "(execution \<Rightarrow> bool) \<Rightarrow> (execution \<Rightarrow> execution) \<Rightarrow> acq_rows \<Rightarrow> nat \<times> acq_rows" where
  "update_where P f rows = (length (filter P rows), map (\<lambda>r. if P r then f r else r) rows)"

text \<open>What the ORM writes back: the columns that differ from the row as it was loaded.\<close>

definition changed :: "'c \<Rightarrow> 'c \<Rightarrow> 'c \<Rightarrow> 'c" where
  "changed old new current = (if new = old then current else new)"

definition merge_columns :: "execution \<Rightarrow> execution \<Rightarrow> execution \<Rightarrow> execution" where
  "merge_columns old new r =
     r\<lparr>ex_status := changed (ex_status old) (ex_status new) (ex_status r),
       ex_result_payload := changed (ex_result_payload old) (ex_result_payload new) (ex_result_payload r),
       ex_failure := changed (ex_failure old) (ex_failure new) (ex_failure r),
       ex_trace_ref := changed (ex_trace_ref old) (ex_trace_ref new) (ex_trace_ref r),
       ex_artifact_refs := changed (ex_artifact_refs old) (ex_artifact_refs new) (ex_artifact_refs r),
       ex_finished_at := changed (ex_finished_at old) (ex_finished_at new) (ex_finished_at r),
       ex_lease_owner := changed (ex_lease_owner old) (ex_lease_owner new) (ex_lease_owner r),
       ex_heartbeat_at := changed (ex_heartbeat_at old) (ex_heartbeat_at new) (ex_heartbeat_at r),
       ex_lease_expires_at := changed (ex_lease_expires_at old) (ex_lease_expires_at new) (ex_lease_expires_at r)\<rparr>"

definition flush_row :: "execution \<Rightarrow> execution \<Rightarrow> acq_rows \<Rightarrow> acq_rows" where
  "flush_row old new rows = map (\<lambda>r. if ex_id r = ex_id old then merge_columns old new r else r) rows"

section \<open>The service\<close>

definition new_execution :: "acq_env \<Rightarrow> string \<Rightarrow> submission \<Rightarrow> execution" where
  "new_execution env eid body =
     \<lparr>ex_id = eid, ex_request_id = su_request_id body, ex_idempotency_key = su_idempotency_key body,
      ex_request_fingerprint = ae_fingerprint env body, ex_capability_id = su_capability_id body,
      ex_capability_version = su_capability_version body, ex_output_schema_version = su_output_schema_version body,
      ex_input_payload = su_input body, ex_environment = su_environment body,
      ex_required_artifacts = su_required_artifacts body, ex_geo_refs = su_geo_refs body,
      ex_correlation = su_correlation body, ex_status = ACCEPTED, ex_result_payload = None, ex_failure = None,
      ex_trace_ref = JNull, ex_artifact_refs = [], ex_started_at = None, ex_finished_at = None,
      ex_lease_owner = None, ex_heartbeat_at = None, ex_lease_expires_at = None\<rparr>"

record submission_outcome =
  so_execution :: execution
  so_idempotency_match :: bool
  so_created :: bool

definition known_outcome :: "acq_env \<Rightarrow> submission \<Rightarrow> execution \<Rightarrow> submission_outcome" where
  "known_outcome env body existing =
     \<lparr>so_execution = existing, so_idempotency_match = (ex_request_fingerprint existing = ae_fingerprint env body),
      so_created = False\<rparr>"

definition created_outcome :: "execution \<Rightarrow> submission_outcome" where
  "created_outcome r = \<lparr>so_execution = r, so_idempotency_match = True, so_created = True\<rparr>"

definition correlation_ok :: "acq_env \<Rightarrow> submission \<Rightarrow> bool" where
  "correlation_ok env body = (case su_correlation body of None \<Rightarrow> True | Some c \<Rightarrow> ae_correlation_valid env c)"

text \<open>The row as the request loaded it decides; the write goes by the row's key.\<close>

definition queue_execution :: "execution \<Rightarrow> acq_rows \<Rightarrow> acq_rows" where
  "queue_execution loaded rows =
     (if ex_status loaded = ACCEPTED then flush_row loaded (loaded\<lparr>ex_status := QUEUED\<rparr>) rows else rows)"

definition cancel_execution :: "execution \<Rightarrow> acq_rows \<Rightarrow> acq_rows" where
  "cancel_execution loaded rows =
     (let next_status = cancel_status (ex_status loaded)
      in if next_status \<noteq> ex_status loaded
         then flush_row loaded (loaded\<lparr>ex_status := next_status, ex_lease_owner := None, ex_heartbeat_at := None,
           ex_lease_expires_at := None\<rparr>) rows
         else rows)"

section \<open>Capabilities\<close>

record capability_registration =
  cg_capability_id :: string
  cg_capability_version :: string
  cg_output_schema_version :: string
  cg_source_commit :: string
  cg_invocation :: "json dict"

definition OHMYOPENCLI_COMMIT :: string where
  "OHMYOPENCLI_COMMIT = ''73cc60c83586ef2c95469b3b70d6cfc80fa5bc53''"

definition OFFICIAL_SITE_CAPABILITY_COMMIT :: string where
  "OFFICIAL_SITE_CAPABILITY_COMMIT = ''73cc60c83586ef2c95469b3b70d6cfc80fa5bc53''"

definition OPENCLI_VERSION :: string where
  "OPENCLI_VERSION = ''1.8.7''"

definition registrations :: "capability_registration list" where
  "registrations =
     [\<lparr>cg_capability_id = ''official-site.observe'', cg_capability_version = ''1.0.0'',
       cg_output_schema_version = ''1'', cg_source_commit = OFFICIAL_SITE_CAPABILITY_COMMIT,
       cg_invocation = [(''site'', JStr ''official-site''), (''command'', JStr ''observe''), (''format'', JStr ''json'')]\<rparr>]"

definition runtime_identity :: "capability_registration \<Rightarrow> json dict" where
  "runtime_identity g =
     [(''ohmyopencli_repo_commit'', JStr OHMYOPENCLI_COMMIT), (''capability_source_commit'', JStr (cg_source_commit g)),
      (''opencli_version'', JStr OPENCLI_VERSION)]"

definition get_capability_registration :: "string \<Rightarrow> string \<Rightarrow> string \<Rightarrow> capability_registration option" where
  "get_capability_registration cid version schema =
     find (\<lambda>g. cg_capability_id g = cid \<and> cg_capability_version g = version \<and> cg_output_schema_version g = schema)
       registrations"

definition registration_of :: "execution \<Rightarrow> capability_registration option" where
  "registration_of r =
     get_capability_registration (ex_capability_id r) (ex_capability_version r) (ex_output_schema_version r)"

section \<open>The worker\<close>

text \<open>Times are in microseconds.\<close>

definition LEASE_DURATION :: int where
  "LEASE_DURATION = 30 * 1000000"

definition claim :: "string \<Rightarrow> string \<Rightarrow> int \<Rightarrow> acq_rows \<Rightarrow> nat \<times> acq_rows" where
  "claim eid owner now rows =
     update_where (\<lambda>r. ex_id r = eid \<and> ex_status r = QUEUED)
       (\<lambda>r. r\<lparr>ex_status := RUNNING, ex_started_at := Some now, ex_lease_owner := Some owner,
         ex_heartbeat_at := Some now, ex_lease_expires_at := Some (now + LEASE_DURATION)\<rparr>) rows"

text \<open>The fence of every write a worker makes while it runs.\<close>

definition leased_to :: "string \<Rightarrow> string \<Rightarrow> execution \<Rightarrow> bool" where
  "leased_to eid owner r \<longleftrightarrow> ex_id r = eid \<and> ex_status r = RUNNING \<and> ex_lease_owner r = Some owner"

definition heartbeat :: "string \<Rightarrow> string \<Rightarrow> int \<Rightarrow> acq_rows \<Rightarrow> nat \<times> acq_rows" where
  "heartbeat eid owner now rows =
     update_where (leased_to eid owner)
       (\<lambda>r. r\<lparr>ex_heartbeat_at := Some now, ex_lease_expires_at := Some (now + LEASE_DURATION)\<rparr>) rows"

definition fail_execution :: "string \<Rightarrow> json dict \<Rightarrow> string \<Rightarrow> int \<Rightarrow> acq_rows \<Rightarrow> acq_rows" where
  "fail_execution eid failure owner now rows =
     snd (update_where (leased_to eid owner)
       (\<lambda>r. r\<lparr>ex_status := FAILED, ex_failure := Some failure, ex_finished_at := Some now, ex_lease_owner := None,
         ex_heartbeat_at := None, ex_lease_expires_at := None\<rparr>) rows)"

definition lease_expired :: "int \<Rightarrow> execution \<Rightarrow> bool" where
  "lease_expired now r \<longleftrightarrow> (case ex_lease_expires_at r of None \<Rightarrow> True | Some t \<Rightarrow> t \<le> now)"

definition recoverable :: "int \<Rightarrow> bool \<Rightarrow> execution \<Rightarrow> bool" where
  "recoverable now include_queued r \<longleftrightarrow>
     ex_status r = ACCEPTED \<or> (include_queued \<and> ex_status r = QUEUED) \<or>
     (ex_status r = RUNNING \<and> lease_expired now r)"

text \<open>Requeueing a row the recovery has read with status \<open>seen\<close>; queued rows are only dispatched.\<close>

definition requeue :: "int \<Rightarrow> string \<Rightarrow> acq_status \<Rightarrow> acq_rows \<Rightarrow> nat \<times> acq_rows" where
  "requeue now eid seen rows =
     update_where
       (\<lambda>r. ex_id r = eid \<and>
         (if seen = RUNNING then ex_status r = RUNNING \<and> lease_expired now r else ex_status r = ACCEPTED))
       (\<lambda>r. r\<lparr>ex_status := QUEUED, ex_started_at := None, ex_finished_at := None, ex_lease_owner := None,
         ex_heartbeat_at := None, ex_lease_expires_at := None\<rparr>) rows"

text \<open>
  What the world answers during one execution: the guarded URL or the guard's message, the browser
  endpoint or the code and message of its error, the collected result or the type and message of an
  exception, and the guard's verdict on redirects.
\<close>

record attempt_world =
  aw_url :: "string + string"
  aw_endpoint :: "(string \<times> string) + string"
  aw_collected :: "(string \<times> string) + channel_result"
  aw_redirect :: "json \<Rightarrow> string option"

definition failure_dict :: "string \<Rightarrow> string \<Rightarrow> json dict" where
  "failure_dict code message = [(''code'', JStr code), (''message'', JStr message)]"

definition redirect_urls :: "json dict \<Rightarrow> json list" where
  "redirect_urls payload =
     filter (\<lambda>u. py_truthy (Some u))
       ([dict_get_or payload ''finalUrl'' JNull] @
        (case dict_get_or payload ''observedRedirectEndpoints'' (JList []) of JList us \<Rightarrow> us | _ \<Rightarrow> []))"

definition rejected_redirect :: "attempt_world \<Rightarrow> channel_result \<Rightarrow> string option" where
  "rejected_redirect w result =
     (if cr_success result \<and> cr_items result \<noteq> []
      then (case filter (\<lambda>u. aw_redirect w u \<noteq> None) (redirect_urls (hd (cr_items result))) of
              [] \<Rightarrow> None | u # _ \<Rightarrow> aw_redirect w u)
      else None)"

text \<open>The body between the claim and the verdict: a failure to record, or a result to judge.\<close>

definition run_capability :: "execution \<Rightarrow> attempt_world \<Rightarrow> json dict + channel_result \<times> string" where
  "run_capability r w =
     (case registration_of r of
        None \<Rightarrow> Inl (failure_dict ''unsupported_capability_invocation''
          (''No invocation is registered for '' @ ex_capability_id r @ ''@'' @ ex_capability_version r @ '' schema '' @
           ex_output_schema_version r))
      | Some _ \<Rightarrow>
          (case aw_url w of
             Inl msg \<Rightarrow> Inl (failure_dict ''ssrf_rejected'' msg)
           | Inr _ \<Rightarrow>
               (case aw_endpoint w of
                  Inl (code, msg) \<Rightarrow> Inl (failure_dict code msg)
                | Inr endpoint \<Rightarrow>
                    (case aw_collected w of
                       Inl (error_type, msg) \<Rightarrow>
                         Inl (failure_dict ''capability_execution_failed'' msg @ [(''error_type'', JStr error_type)])
                     | Inr result \<Rightarrow>
                         (case rejected_redirect w result of
                            Some msg \<Rightarrow> Inl (failure_dict ''ssrf_redirect_rejected'' msg)
                          | None \<Rightarrow> Inr (result, endpoint))))))"

section \<open>The verdict\<close>

definition failed_row :: "json dict \<Rightarrow> execution \<Rightarrow> execution" where
  "failed_row failure r = r\<lparr>ex_status := FAILED, ex_failure := Some failure\<rparr>"

definition identity_matches :: "execution \<Rightarrow> json dict \<Rightarrow> bool" where
  "identity_matches r payload \<longleftrightarrow>
     dict_get payload ''capabilityId'' = Some (JStr (ex_capability_id r)) \<and>
     dict_get payload ''capabilityVersion'' = Some (JStr (ex_capability_version r)) \<and>
     dict_get payload ''outputSchemaVersion'' = Some (JStr (ex_output_schema_version r))"

definition trace_artifact :: "channel_result \<Rightarrow> json" where
  "trace_artifact result = dict_get_or (cr_metadata result) ''trace_artifact'' JNull"

definition missing_artifacts :: "execution \<Rightarrow> channel_result \<Rightarrow> string list" where
  "missing_artifacts r result =
     filter (\<lambda>kind. \<not> (kind = ''trace'' \<and> py_truthy (Some (trace_artifact result)))) (ex_required_artifacts r)"

definition runtime_matches :: "acq_env \<Rightarrow> capability_registration \<Rightarrow> channel_result \<Rightarrow> bool" where
  "runtime_matches env g result \<longleftrightarrow>
     \<not> ae_agent_mode env \<or> dict_get (cr_metadata result) ''runtime'' = Some (JObj (runtime_identity g))"

definition success_payload ::
  "acq_env \<Rightarrow> capability_registration \<Rightarrow> execution \<Rightarrow> channel_result \<Rightarrow> string \<Rightarrow> json dict \<Rightarrow> json dict"
where
  "success_payload env g r result endpoint payload =
     [(''capability'', JObj [(''id'', JStr (ex_capability_id r)), (''version'', JStr (ex_capability_version r))]),
      (''output_schema_version'', JStr (ex_output_schema_version r)),
      (''payload'', JObj payload),
      (''operational'', JObj
         [(''runtime'', if ae_agent_mode env then dict_get_or (cr_metadata result) ''runtime'' JNull
             else JObj (runtime_identity g)),
          (''browser'', JObj [(''endpoint'', JStr endpoint), (''profile_kind'', JStr ''anonymous'')]),
          (''channel_metadata'', JObj (cr_metadata result))])]"

definition artifact_refs_of :: "channel_result \<Rightarrow> json dict \<Rightarrow> json list" where
  "artifact_refs_of result payload =
     (case dict_get_or payload ''artifacts'' (JList []) of JList vs \<Rightarrow> vs | _ \<Rightarrow> []) @
     (if py_truthy (Some (trace_artifact result))
      then [JObj [(''kind'', JStr ''trace''), (''ref'', trace_artifact result)]] else [])"

definition finish_execution ::
  "acq_env \<Rightarrow> capability_registration \<Rightarrow> int \<Rightarrow> channel_result \<Rightarrow> string \<Rightarrow> execution \<Rightarrow> execution"
where
  "finish_execution env g now result endpoint loaded =
     (let r = loaded\<lparr>ex_finished_at := Some now, ex_lease_owner := None, ex_heartbeat_at := None,
            ex_lease_expires_at := None, ex_trace_ref := trace_artifact result\<rparr>
      in if \<not> cr_success result \<or> cr_items result = [] then
           (let message = (case cr_error result of
                  Some e \<Rightarrow> if e = [] then ''Capability returned no payload'' else e
                | None \<Rightarrow> ''Capability returned no payload'')
            in failed_row (failure_dict
                 (if infix_of ''CDP not reachable'' message then ''browser_route_unavailable''
                  else ''capability_execution_failed'') message) r)
         else
           (let payload = hd (cr_items result)
            in if \<not> runtime_matches env g result then
                 failed_row (failure_dict ''runtime_lineage_mismatch''
                     ''Agent-reported runtime lineage does not match audited pins'' @
                   [(''expected'', JObj (runtime_identity g)),
                    (''actual'', dict_get_or (cr_metadata result) ''runtime'' JNull)]) r
               else if \<not> identity_matches r payload then
                 failed_row (failure_dict ''invalid_capability_envelope''
                   ''Capability payload identity does not match the requested contract'') r
               else if missing_artifacts r result \<noteq> [] then
                 failed_row (failure_dict ''required_artifact_missing''
                   (''Capability did not return required artifacts: '' @ concat (map (\<lambda>k. k @ '', '') (butlast (missing_artifacts r result))) @
                    last (missing_artifacts r result))) r
               else r\<lparr>ex_status := SUCCEEDED, ex_result_payload := Some (success_payload env g r result endpoint payload),
                 ex_artifact_refs := artifact_refs_of result payload, ex_failure := None\<rparr>))"

section \<open>Concurrent requests, workers and sweeps\<close>

text \<open>
  Where an actor stands: a submission before its lookup, before its insert, before it reads back the
  row it created, or about to queue it; an answered submission; a cancellation before its read and before its write; a
  worker before its claim, at work, about to record a failure, about to judge a result, about to
  commit the verdict; a sweep about to requeue a row it has read.
\<close>

datatype actor =
    Submitting submission
  | Inserting submission
  | Inserted submission string
  | Queueing submission execution
  | Answered submission submission_outcome
  | CancelAsked string
  | Cancelling execution
  | Claiming string
  | Working execution string
  | Failing string string "json dict"
  | Judging execution string channel_result string
  | Committing execution string execution execution
  | Sweeping bool
  | Requeueing int string acq_status
  | Gone

definition arriving :: "actor \<Rightarrow> bool" where
  "arriving a \<longleftrightarrow> (case a of Submitting _ \<Rightarrow> True | CancelAsked _ \<Rightarrow> True | Claiming _ \<Rightarrow> True | Sweeping _ \<Rightarrow> True | _ \<Rightarrow> False)"

text \<open>The leases in use; a new one is a fresh UUID.\<close>

fun lease_of :: "actor \<Rightarrow> string option" where
  "lease_of (Working _ owner) = Some owner"
| "lease_of (Failing _ owner _) = Some owner"
| "lease_of (Judging _ owner _ _) = Some owner"
| "lease_of (Committing _ owner _ _) = Some owner"
| "lease_of _ = None"

definition fresh_lease :: "string \<Rightarrow> acq_rows \<Rightarrow> actor list \<Rightarrow> bool" where
  "fresh_lease owner rows actors \<longleftrightarrow>
     Some owner \<notin> ex_lease_owner ` set rows \<and> Some owner \<notin> lease_of ` set actors"

inductive actor_step :: "acq_env \<Rightarrow> actor list \<Rightarrow> acq_rows \<times> actor \<Rightarrow> acq_rows \<times> actor \<Rightarrow> bool"
  for env :: acq_env and actors :: "actor list"
where
  submit_known: "get_by_idempotency_key (su_idempotency_key body) rows = Some r \<Longrightarrow>
    actor_step env actors (rows, Submitting body) (rows, Answered body (known_outcome env body r))"
| submit_rejected: "get_by_idempotency_key (su_idempotency_key body) rows = None \<Longrightarrow> \<not> correlation_ok env body \<Longrightarrow>
    actor_step env actors (rows, Submitting body) (rows, Gone)"
| submit_unknown: "get_by_idempotency_key (su_idempotency_key body) rows = None \<Longrightarrow> correlation_ok env body \<Longrightarrow>
    actor_step env actors (rows, Submitting body) (rows, Inserting body)"
| insert_lost: "get_by_idempotency_key (su_idempotency_key body) rows = Some r \<Longrightarrow>
    actor_step env actors (rows, Inserting body) (rows, Answered body (known_outcome env body r))"
| insert_new: "get_by_idempotency_key (su_idempotency_key body) rows = None \<Longrightarrow> find_execution eid rows = None \<Longrightarrow>
    actor_step env actors (rows, Inserting body) (rows @ [new_execution env eid body], Inserted body eid)"
| insert_refresh: "find_execution eid rows = Some r \<Longrightarrow>
    actor_step env actors (rows, Inserted body eid) (rows, Queueing body r)"
| queue: "actor_step env actors (rows, Queueing body r) (queue_execution r rows, Answered body (created_outcome r))"
| cancel_read: "find_execution eid rows = Some r \<Longrightarrow> accepts_cancel_request (ex_status r) \<Longrightarrow>
    actor_step env actors (rows, CancelAsked eid) (rows, Cancelling r)"
| cancel_refused: "(\<And>r. find_execution eid rows = Some r \<Longrightarrow> \<not> accepts_cancel_request (ex_status r)) \<Longrightarrow>
    actor_step env actors (rows, CancelAsked eid) (rows, Gone)"
| cancel_write: "actor_step env actors (rows, Cancelling r) (cancel_execution r rows, Gone)"
| claim_won: "fresh_lease owner rows actors \<Longrightarrow> claim eid owner now rows = (1, rows') \<Longrightarrow>
    find_execution eid rows' = Some r \<Longrightarrow> actor_step env actors (rows, Claiming eid) (rows', Working r owner)"
| claim_lost: "fst (claim eid owner now rows) \<noteq> 1 \<Longrightarrow> actor_step env actors (rows, Claiming eid) (rows, Gone)"
| beat: "actor_step env actors (rows, Working r owner) (snd (heartbeat (ex_id r) owner now rows), Working r owner)"
| lease_lost: "fst (heartbeat (ex_id r) owner now rows) \<noteq> 1 \<Longrightarrow>
    actor_step env actors (rows, Working r owner) (rows, Gone)"
| run_failed: "run_capability r w = Inl failure \<Longrightarrow>
    actor_step env actors (rows, Working r owner) (rows, Failing (ex_id r) owner failure)"
| run_ended: "run_capability r w = Inr (result, endpoint) \<Longrightarrow>
    actor_step env actors (rows, Working r owner) (rows, Judging r owner result endpoint)"
| record_failure: "actor_step env actors (rows, Failing eid owner failure) (fail_execution eid failure owner now rows, Gone)"
| judge: "find_execution (ex_id r) rows = Some loaded \<Longrightarrow> leased_to (ex_id r) owner loaded \<Longrightarrow>
    registration_of r = Some g \<Longrightarrow>
    actor_step env actors (rows, Judging r owner result endpoint)
      (rows, Committing r owner loaded (finish_execution env g now result endpoint loaded))"
| judge_refused: "(\<And>loaded. find_execution (ex_id r) rows = Some loaded \<Longrightarrow> \<not> leased_to (ex_id r) owner loaded) \<Longrightarrow>
    actor_step env actors (rows, Judging r owner result endpoint) (rows, Gone)"
| commit: "actor_step env actors (rows, Committing r owner loaded verdict) (flush_row loaded verdict rows, Gone)"
| sweep: "r \<in> set rows \<Longrightarrow> recoverable now include_queued r \<Longrightarrow> ex_status r \<noteq> QUEUED \<Longrightarrow>
    actor_step env actors (rows, Sweeping include_queued) (rows, Requeueing now (ex_id r) (ex_status r))"
| sweep_queued: "r \<in> set rows \<Longrightarrow> recoverable now include_queued r \<Longrightarrow> ex_status r = QUEUED \<Longrightarrow>
    actor_step env actors (rows, Sweeping include_queued) (rows, Claiming (ex_id r))"
| requeue_done: "requeue now eid seen rows = (1, rows') \<Longrightarrow>
    actor_step env actors (rows, Requeueing now eid seen) (rows', Claiming eid)"
| requeue_lost: "fst (requeue now eid seen rows) \<noteq> 1 \<Longrightarrow>
    actor_step env actors (rows, Requeueing now eid seen) (rows, Gone)"
| crash: "actor_step env actors (rows, a) (rows, Gone)"

inductive acq_reachable :: "acq_env \<Rightarrow> acq_rows \<times> actor list \<Rightarrow> bool" for env :: acq_env where
  acq_init: "acq_reachable env ([], [])"
| acq_arrive: "acq_reachable env (rows, actors) \<Longrightarrow> arriving a \<Longrightarrow> acq_reachable env (rows, actors @ [a])"
| acq_step: "acq_reachable env (rows, actors) \<Longrightarrow> i < length actors \<Longrightarrow>
    actor_step env actors (rows, actors ! i) (rows', a') \<Longrightarrow> acq_reachable env (rows', actors[i := a'])"

inductive_cases submitting_elim: "actor_step env actors (rows, Submitting body) s"
inductive_cases inserting_elim: "actor_step env actors (rows, Inserting body) s"
inductive_cases actor_elim: "actor_step env actors (rows, a) (rows', a')"

end
