(* ===== verification/AcquisitionProps.thy ===== *)
theory AcquisitionProps
  imports Acquisition
begin

text \<open>
  What holds of acquisition executions under all interleavings of submissions, cancellations,
  workers and sweeps, and what holds of the steps whose reads are still current.
\<close>

section \<open>What no operation changes\<close>

definition fixed_columns :: "execution \<Rightarrow> execution" where
  "fixed_columns r =
     r\<lparr>ex_status := ACCEPTED, ex_result_payload := None, ex_failure := None, ex_trace_ref := JNull,
       ex_artifact_refs := [], ex_started_at := None, ex_finished_at := None, ex_lease_owner := None,
       ex_heartbeat_at := None, ex_lease_expires_at := None\<rparr>"

named_theorems fixed_simps \<open>Updates that keep the fixed columns\<close>

lemma fixed_updates [fixed_simps]:
  "fixed_columns (r\<lparr>ex_status := s\<rparr>) = fixed_columns r"
  "fixed_columns (r\<lparr>ex_result_payload := p\<rparr>) = fixed_columns r"
  "fixed_columns (r\<lparr>ex_failure := f\<rparr>) = fixed_columns r"
  "fixed_columns (r\<lparr>ex_trace_ref := t\<rparr>) = fixed_columns r"
  "fixed_columns (r\<lparr>ex_artifact_refs := a\<rparr>) = fixed_columns r"
  "fixed_columns (r\<lparr>ex_started_at := x\<rparr>) = fixed_columns r"
  "fixed_columns (r\<lparr>ex_finished_at := x\<rparr>) = fixed_columns r"
  "fixed_columns (r\<lparr>ex_lease_owner := w\<rparr>) = fixed_columns r"
  "fixed_columns (r\<lparr>ex_heartbeat_at := x\<rparr>) = fixed_columns r"
  "fixed_columns (r\<lparr>ex_lease_expires_at := x\<rparr>) = fixed_columns r"
  by (simp_all add: fixed_columns_def)

lemma fixed_merge [fixed_simps]: "fixed_columns (merge_columns old new r) = fixed_columns r"
  by (simp add: merge_columns_def fixed_simps)

lemma fixed_selectors:
  assumes "fixed_columns r = fixed_columns r'"
  shows "ex_id r = ex_id r'" "ex_idempotency_key r = ex_idempotency_key r'"
    "ex_request_fingerprint r = ex_request_fingerprint r'" "registration_of r = registration_of r'"
    "ex_capability_id r = ex_capability_id r'" "ex_capability_version r = ex_capability_version r'"
    "ex_output_schema_version r = ex_output_schema_version r'" "ex_required_artifacts r = ex_required_artifacts r'"
  using assms by (cases r; cases r'; simp add: fixed_columns_def registration_of_def)+

lemma fixed_finish: "fixed_columns (finish_execution env g now result endpoint loaded) = fixed_columns loaded"
  by (simp add: finish_execution_def failed_row_def Let_def fixed_simps)

lemma find_execution_Some: "find_execution eid rows = Some r \<Longrightarrow> r \<in> set rows \<and> ex_id r = eid"
  by (auto simp: find_execution_def find_Some_iff)

lemma key_Some: "get_by_idempotency_key key rows = Some r \<Longrightarrow> r \<in> set rows \<and> ex_idempotency_key r = key"
  by (auto simp: get_by_idempotency_key_def find_Some_iff)

lemma key_None: "get_by_idempotency_key key rows = None \<longleftrightarrow> key \<notin> ex_idempotency_key ` set rows"
  by (auto simp: get_by_idempotency_key_def find_None_iff)

lemma id_None: "find_execution eid rows = None \<longleftrightarrow> eid \<notin> ex_id ` set rows"
  by (auto simp: find_execution_def find_None_iff)

text \<open>A step either inserts one new row, or changes rows in place, keeping their fixed columns.\<close>

definition in_place :: "acq_rows \<Rightarrow> acq_rows \<Rightarrow> bool" where
  "in_place rows rows' \<longleftrightarrow> (\<exists>f. rows' = map f rows \<and> (\<forall>r. fixed_columns (f r) = fixed_columns r))"

lemma in_place_refl: "in_place rows rows"
  unfolding in_place_def by (intro exI[of _ id]) simp

lemma in_place_if: "(\<And>r. fixed_columns (f r) = fixed_columns r) \<Longrightarrow> in_place rows (map (\<lambda>r. if P r then f r else r) rows)"
  unfolding in_place_def by (intro exI[of _ "\<lambda>r. if P r then f r else r"]) simp

lemma in_place_ops:
  "in_place rows (queue_execution r rows)" "in_place rows (cancel_execution r rows)"
  "in_place rows (snd (claim eid owner now rows))" "in_place rows (snd (heartbeat eid owner now rows))"
  "in_place rows (fail_execution eid failure owner now rows)" "in_place rows (snd (requeue now eid seen rows))"
  "in_place rows (flush_row old new rows)"
  by (auto simp: queue_execution_def cancel_execution_def claim_def heartbeat_def fail_execution_def requeue_def
      flush_row_def update_where_def Let_def in_place_refl fixed_simps intro!: in_place_if)

lemma step_rows:
  assumes "actor_step env actors (rows, a) (rows', a')"
  shows "in_place rows rows' \<or> (\<exists>body eid. a = Inserting body \<and> a' = Inserted body eid \<and>
    rows' = rows @ [new_execution env eid body] \<and>
    get_by_idempotency_key (su_idempotency_key body) rows = None \<and> find_execution eid rows = None)"
  using assms
proof (cases rule: actor_step.cases)
  case (claim_won owner eid now r)
  then show ?thesis using in_place_ops(3)[of rows eid owner now] by simp
next
  case (requeue_done now eid seen)
  then show ?thesis using in_place_ops(6)[of rows now eid seen] by simp
qed (auto simp: in_place_refl in_place_ops)

lemma in_place_map_fixed: "in_place rows rows' \<Longrightarrow> map fixed_columns rows' = map fixed_columns rows"
  by (auto simp: in_place_def)

lemma in_placeE:
  assumes "in_place rows rows'"
  obtains f where "rows' = map f rows" "\<And>r. fixed_columns (f r) = fixed_columns r" "\<And>r. ex_id (f r) = ex_id r"
    "\<And>r. ex_idempotency_key (f r) = ex_idempotency_key r"
    "\<And>r. ex_request_fingerprint (f r) = ex_request_fingerprint r"
proof -
  obtain f where "rows' = map f rows" and f: "\<And>r. fixed_columns (f r) = fixed_columns r"
    using assms by (auto simp: in_place_def)
  with that fixed_selectors[OF f] show thesis by blast
qed

lemma in_place_keys:
  assumes "in_place rows rows'"
  shows "map ex_id rows' = map ex_id rows" "map ex_idempotency_key rows' = map ex_idempotency_key rows"
  by (rule in_placeE[OF assms], simp)+

section \<open>Submissions\<close>

text \<open>An actor that created a row, and the key it was created under.\<close>

fun creator_of :: "actor \<Rightarrow> string option" where
  "creator_of (Inserted body eid) = Some (su_idempotency_key body)"
| "creator_of (Queueing body r) = Some (su_idempotency_key body)"
| "creator_of (Answered body outcome) = (if so_created outcome then Some (su_idempotency_key body) else None)"
| "creator_of _ = None"

text \<open>The row an answer or a creation speaks of is in the table, under its key.\<close>

definition row_for :: "acq_env \<Rightarrow> acq_rows \<Rightarrow> submission \<Rightarrow> string \<Rightarrow> bool \<Rightarrow> bool" where
  "row_for env rows body eid same \<longleftrightarrow>
     (\<exists>r \<in> set rows. ex_id r = eid \<and> ex_idempotency_key r = su_idempotency_key body \<and>
        same = (ex_request_fingerprint r = ae_fingerprint env body))"

fun submission_ok :: "acq_env \<Rightarrow> acq_rows \<Rightarrow> actor \<Rightarrow> bool" where
  "submission_ok env rows (Inserted body eid) = row_for env rows body eid True"
| "submission_ok env rows (Queueing body r) = row_for env rows body (ex_id r) True"
| "submission_ok env rows (Answered body outcome) =
     row_for env rows body (ex_id (so_execution outcome)) (so_idempotency_match outcome)"
| "submission_ok env rows _ = True"

definition submit_inv :: "acq_env \<Rightarrow> acq_rows \<times> actor list \<Rightarrow> bool" where
  "submit_inv env s \<longleftrightarrow> (case s of (rows, actors) \<Rightarrow>
     distinct (map ex_id rows) \<and> distinct (map ex_idempotency_key rows) \<and>
     (\<forall>a \<in> set actors. submission_ok env rows a) \<and>
     (\<forall>key. length (filter (\<lambda>a. creator_of a = Some key) actors) \<le> 1))"

lemma row_for_in_place: "in_place rows rows' \<Longrightarrow> row_for env rows body eid same \<Longrightarrow> row_for env rows' body eid same"
  by (erule in_placeE) (auto simp: row_for_def)

lemma submission_ok_in_place: "in_place rows rows' \<Longrightarrow> submission_ok env rows a \<Longrightarrow> submission_ok env rows' a"
  by (cases a) (auto intro: row_for_in_place)

lemma submission_ok_append: "submission_ok env rows a \<Longrightarrow> submission_ok env (rows @ [r]) a"
  by (cases a) (auto simp: row_for_def)

lemma row_for_key: "row_for env rows body eid same \<Longrightarrow> su_idempotency_key body \<in> ex_idempotency_key ` set rows"
  unfolding row_for_def by (metis imageI)

lemma creator_has_row: "submission_ok env rows a \<Longrightarrow> creator_of a = Some key \<Longrightarrow> key \<in> ex_idempotency_key ` set rows"
  by (cases a) (auto dest: row_for_key split: if_splits)

text \<open>In place, an actor's answer fits the table and it creates nothing it had not created.\<close>

lemma step_actor_ok:
  assumes "actor_step env actors (rows, a) (rows', a')" and "in_place rows rows'" and "submission_ok env rows a"
  shows "submission_ok env rows' a' \<and> (creator_of a' = creator_of a \<or> creator_of a' = None)"
  using assms(1)
proof (cases rule: actor_step.cases)
  case (submit_known body r)
  then show ?thesis using key_Some by (fastforce simp: known_outcome_def row_for_def)
next
  case (insert_lost body r)
  then show ?thesis using key_Some by (fastforce simp: known_outcome_def row_for_def)
next
  case (insert_new body eid)
  then show ?thesis using assms(2) by (auto simp: in_place_def dest: arg_cong[where f = length])
next
  case (insert_refresh eid r body)
  then show ?thesis using assms(3) find_execution_Some by auto
next
  case (queue body r)
  then show ?thesis using row_for_in_place[OF assms(2)] assms(3) by (simp add: created_outcome_def)
qed auto

lemma set_list_update: "i < length xs \<Longrightarrow> x \<in> set (xs[i := y]) \<Longrightarrow> x \<in> set xs \<or> x = y"
  using set_update_subset_insert[of xs i y] by blast

lemma submit_inv_step:
  assumes inv: "submit_inv env (rows, actors)" and i: "i < length actors"
    and step: "actor_step env actors (rows, actors ! i) (rows', a')"
  shows "submit_inv env (rows', actors[i := a'])"
  using step_rows[OF step]
proof
  assume place: "in_place rows rows'"
  have ok: "submission_ok env rows (actors ! i)" using inv i by (simp add: submit_inv_def)
  note a' = step_actor_ok[OF step place ok]
  have "length (filter (\<lambda>a. creator_of a = Some key) (actors[i := a'])) \<le> 1" for key
  proof -
    have "length (filter (\<lambda>a. creator_of a = Some key) actors) \<le> 1" using inv by (simp add: submit_inv_def)
    with length_filter_update[OF i, of "\<lambda>a. creator_of a = Some key" a'] a' show ?thesis
      by (auto split: if_splits)
  qed
  moreover have "submission_ok env rows' a" if "a \<in> set (actors[i := a'])" for a
    using set_list_update[OF i that] a' inv submission_ok_in_place[OF place] by (auto simp: submit_inv_def)
  ultimately show ?thesis using inv in_place_keys[OF place] by (simp add: submit_inv_def)
next
  assume "\<exists>body eid. actors ! i = Inserting body \<and> a' = Inserted body eid \<and>
    rows' = rows @ [new_execution env eid body] \<and>
    get_by_idempotency_key (su_idempotency_key body) rows = None \<and> find_execution eid rows = None"
  then obtain body eid where a: "actors ! i = Inserting body" "a' = Inserted body eid"
    and rows': "rows' = rows @ [new_execution env eid body]"
    and new: "su_idempotency_key body \<notin> ex_idempotency_key ` set rows" "eid \<notin> ex_id ` set rows"
    by (auto simp: key_None id_None)
  have none: "filter (\<lambda>a. creator_of a = Some (su_idempotency_key body)) actors = []"
    using inv new(1) creator_has_row unfolding submit_inv_def filter_empty_conv by fastforce
  have "length (filter (\<lambda>a. creator_of a = Some key) (actors[i := a'])) \<le> 1" for key
  proof -
    have "length (filter (\<lambda>a. creator_of a = Some key) actors) \<le> 1" using inv by (simp add: submit_inv_def)
    with length_filter_update[OF i, of "\<lambda>a. creator_of a = Some key" a'] a none show ?thesis
      by (cases "key = su_idempotency_key body") auto
  qed
  moreover have "submission_ok env rows' a" if "a \<in> set (actors[i := a'])" for a
    using set_list_update[OF i that] inv submission_ok_append
    by (auto simp: submit_inv_def a(2) rows' row_for_def new_execution_def)
  moreover have "distinct (map ex_id rows')" "distinct (map ex_idempotency_key rows')"
    using inv new by (auto simp: submit_inv_def rows' new_execution_def)
  ultimately show ?thesis by (simp add: submit_inv_def)
qed

lemma reachable_submit_inv: "acq_reachable env s \<Longrightarrow> submit_inv env s"
proof (induction rule: acq_reachable.induct)
  case acq_init
  then show ?case by (simp add: submit_inv_def)
next
  case (acq_arrive rows actors a)
  then show ?case by (cases a) (auto simp: submit_inv_def arriving_def)
next
  case (acq_step rows actors i rows' a')
  then show ?case by (intro submit_inv_step)
qed

text \<open>
  C26: Submissions are idempotent. However requests interleave, no two executions share an
  idempotency key, every answered submission names the one execution of its key, it is told that the
  key identifies the same work exactly when the fingerprints agree, and at most one of the
  submissions of a key is told that it created the execution.
\<close>

theorem submissions_idempotent:
  assumes "acq_reachable env (rows, actors)"
  shows "distinct (map ex_idempotency_key rows) \<and>
    (\<forall>body outcome. Answered body outcome \<in> set actors \<longrightarrow>
       (\<exists>r \<in> set rows. ex_id r = ex_id (so_execution outcome) \<and> ex_idempotency_key r = su_idempotency_key body \<and>
          so_idempotency_match outcome = (ex_request_fingerprint r = ae_fingerprint env body))) \<and>
    (\<forall>i j body body' outcome outcome'. i < length actors \<longrightarrow> j < length actors \<longrightarrow>
       actors ! i = Answered body outcome \<longrightarrow> actors ! j = Answered body' outcome' \<longrightarrow>
       so_created outcome \<longrightarrow> so_created outcome' \<longrightarrow> su_idempotency_key body = su_idempotency_key body' \<longrightarrow> i = j)"
proof (intro conjI allI impI)
  note inv = reachable_submit_inv[OF assms]
  show "distinct (map ex_idempotency_key rows)" using inv by (simp add: submit_inv_def)
  show "\<exists>r \<in> set rows. ex_id r = ex_id (so_execution outcome) \<and> ex_idempotency_key r = su_idempotency_key body \<and>
      so_idempotency_match outcome = (ex_request_fingerprint r = ae_fingerprint env body)"
    if "Answered body outcome \<in> set actors" for body outcome
    using inv that by (fastforce simp: submit_inv_def row_for_def)
  fix i j body body' outcome outcome'
  assume ij: "i < length actors" "j < length actors" "actors ! i = Answered body outcome" "actors ! j = Answered body' outcome'"
    and c: "so_created outcome" "so_created outcome'" "su_idempotency_key body = su_idempotency_key body'"
  show "i = j"
  proof (rule ccontr)
    let ?P = "\<lambda>a. creator_of a = Some (su_idempotency_key body)"
    assume "i \<noteq> j"
    then have "{i, j} \<subseteq> {k. k < length actors \<and> ?P (actors ! k)}" "card {i, j} = 2"
      using ij c by auto
    then have "2 \<le> length (filter ?P actors)"
      unfolding length_filter_conv_card by (metis card_mono finite_Collect_conjI finite_Collect_less_nat)
    moreover have "length (filter ?P actors) \<le> 1" using inv by (simp add: submit_inv_def)
    ultimately show False by simp
  qed
qed

section \<open>Results\<close>

text \<open>
  The history of the collections: what a worker, under which lease, has collected for an execution as it had
  read it, and through which browser.
\<close>

type_synonym collection = "execution \<times> string \<times> channel_result \<times> string"

definition collected_by :: "actor \<Rightarrow> actor \<Rightarrow> collection list" where
  "collected_by a a' = (case (a, a') of
     (Working r owner, Judging r' owner' result endpoint) \<Rightarrow> [(r, owner, result, endpoint)] | _ \<Rightarrow> [])"

inductive acq_history :: "acq_env \<Rightarrow> collection list \<Rightarrow> acq_rows \<times> actor list \<Rightarrow> bool" for env :: acq_env where
  hist_init: "acq_history env [] ([], [])"
| hist_arrive: "acq_history env colls (rows, actors) \<Longrightarrow> arriving a \<Longrightarrow> acq_history env colls (rows, actors @ [a])"
| hist_step: "acq_history env colls (rows, actors) \<Longrightarrow> i < length actors \<Longrightarrow>
    actor_step env actors (rows, actors ! i) (rows', a') \<Longrightarrow>
    acq_history env (colls @ collected_by (actors ! i) a') (rows', actors[i := a'])"

lemma history_reachable: "acq_history env colls s \<Longrightarrow> acq_reachable env s"
  by (induction rule: acq_history.induct) (auto intro: acq_reachable.intros)

lemma reachable_history: "acq_reachable env s \<Longrightarrow> \<exists>colls. acq_history env colls s"
  by (induction rule: acq_reachable.induct) (blast intro: acq_history.intros)+

lemma collected_ran:
  assumes "actor_step env actors (rows, a) (rows', a')" and "(r, owner, result, endpoint) \<in> set (collected_by a a')"
  shows "\<exists>w. run_capability r w = Inr (result, endpoint)"
proof -
  from assms(2) have a: "a = Working r owner" "\<exists>r' owner'. a' = Judging r' owner' result endpoint"
    by (auto simp: collected_by_def split: actor.splits)
  from assms(1) show ?thesis using a by (cases rule: actor_step.cases) auto
qed

lemma history_ran: "acq_history env colls s \<Longrightarrow> (r, owner, result, endpoint) \<in> set colls \<Longrightarrow>
    \<exists>w. run_capability r w = Inr (result, endpoint)"
  by (induction rule: acq_history.induct) (auto dest: collected_ran)

text \<open>
  A stored result comes from a successful collection of the requested capability: the payload
  identifies itself as such, the audited runtime produced it, and the required artifacts are there.
\<close>

definition sound_payload :: "acq_env \<Rightarrow> collection list \<Rightarrow> execution \<Rightarrow> json dict \<Rightarrow> bool" where
  "sound_payload env colls r p \<longleftrightarrow>
     (\<exists>g worker owner result endpoint. (worker, owner, result, endpoint) \<in> set colls \<and> ex_id worker = ex_id r \<and>
        registration_of r = Some g \<and> cr_success result \<and> cr_items result \<noteq> [] \<and>
        runtime_matches env g result \<and> identity_matches r (hd (cr_items result)) \<and>
        missing_artifacts r result = [] \<and> p = success_payload env g r result endpoint (hd (cr_items result)))"

definition row_ok :: "acq_env \<Rightarrow> collection list \<Rightarrow> execution \<Rightarrow> bool" where
  "row_ok env colls r \<longleftrightarrow>
     (ex_status r = SUCCEEDED \<longrightarrow> ex_result_payload r \<noteq> None) \<and>
     (\<forall>p. ex_result_payload r = Some p \<longrightarrow> sound_payload env colls r p) \<and>
     (ex_status r = RUNNING \<longrightarrow> ex_lease_owner r \<noteq> None \<and> ex_lease_expires_at r \<noteq> None)"

lemma sound_payload_fixed:
  assumes "fixed_columns r = fixed_columns r'"
  shows "sound_payload env colls r p = sound_payload env colls r' p"
  using fixed_selectors[OF assms]
  by (simp add: sound_payload_def identity_matches_def missing_artifacts_def success_payload_def)

text \<open>A row as an actor saw it: its fixed columns are still the table's, and a result does not vanish.\<close>

definition still_seen :: "acq_env \<Rightarrow> collection list \<Rightarrow> acq_rows \<Rightarrow> execution \<Rightarrow> bool" where
  "still_seen env colls rows loaded \<longleftrightarrow>
     (\<exists>r \<in> set rows. fixed_columns r = fixed_columns loaded \<and>
        (ex_result_payload loaded \<noteq> None \<longrightarrow> ex_result_payload r \<noteq> None)) \<and>
     (\<forall>p. ex_result_payload loaded = Some p \<longrightarrow> sound_payload env colls loaded p)"

fun actor_ok :: "acq_env \<Rightarrow> collection list \<Rightarrow> acq_rows \<Rightarrow> actor \<Rightarrow> bool" where
  "actor_ok env colls rows (Queueing body r) = still_seen env colls rows r"
| "actor_ok env colls rows (Cancelling r) = still_seen env colls rows r"
| "actor_ok env colls rows (Working r owner) = still_seen env colls rows r"
| "actor_ok env colls rows (Judging r owner result endpoint) =
     (still_seen env colls rows r \<and> (r, owner, result, endpoint) \<in> set colls)"
| "actor_ok env colls rows (Committing r owner loaded verdict) =
     (still_seen env colls rows loaded \<and> leased_to (ex_id r) owner loaded \<and>
      (\<exists>g now result endpoint. registration_of loaded = Some g \<and> (r, owner, result, endpoint) \<in> set colls \<and>
         verdict = finish_execution env g now result endpoint loaded))"
| "actor_ok env colls rows _ = True"

definition results_inv :: "acq_env \<Rightarrow> collection list \<Rightarrow> acq_rows \<times> actor list \<Rightarrow> bool" where
  "results_inv env colls s \<longleftrightarrow> (case s of (rows, actors) \<Rightarrow>
     (\<forall>r \<in> set rows. row_ok env colls r) \<and> (\<forall>a \<in> set actors. actor_ok env colls rows a))"

lemma finish_cases:
  assumes "registration_of loaded = Some g" and "verdict = finish_execution env g now result endpoint loaded"
  shows "(worker, owner, result, endpoint) \<in> set colls \<Longrightarrow> ex_id worker = ex_id loaded \<Longrightarrow>
    ex_status verdict = FAILED \<and> ex_result_payload verdict = ex_result_payload loaded \<or>
    ex_status verdict = SUCCEEDED \<and> (\<exists>p. ex_result_payload verdict = Some p \<and> sound_payload env colls loaded p)"
    and "ex_lease_owner verdict = None" and "ex_heartbeat_at verdict = None" and "ex_lease_expires_at verdict = None"
    and "ex_finished_at verdict = Some now"
proof -
  let ?r = "loaded\<lparr>ex_finished_at := Some now, ex_lease_owner := None, ex_heartbeat_at := None,
            ex_lease_expires_at := None, ex_trace_ref := trace_artifact result\<rparr>"
  have same: "identity_matches ?r p = identity_matches loaded p" "missing_artifacts ?r result = missing_artifacts loaded result"
    "success_payload env g ?r result endpoint p = success_payload env g loaded result endpoint p" for p
    by (simp_all add: identity_matches_def missing_artifacts_def success_payload_def)
  show "ex_status verdict = FAILED \<and> ex_result_payload verdict = ex_result_payload loaded \<or>
    ex_status verdict = SUCCEEDED \<and> (\<exists>p. ex_result_payload verdict = Some p \<and> sound_payload env colls loaded p)"
    if "(worker, owner, result, endpoint) \<in> set colls" "ex_id worker = ex_id loaded"
    using assms that unfolding finish_execution_def Let_def failed_row_def same sound_payload_def by auto
  show "ex_lease_owner verdict = None" "ex_heartbeat_at verdict = None" "ex_lease_expires_at verdict = None"
    "ex_finished_at verdict = Some now"
    using assms by (simp_all add: finish_execution_def failed_row_def Let_def)
qed

text \<open>What a write keeps, row by row.\<close>

definition keeps_row :: "acq_env \<Rightarrow> collection list \<Rightarrow> execution \<Rightarrow> execution \<Rightarrow> bool" where
  "keeps_row env colls r r' \<longleftrightarrow> fixed_columns r' = fixed_columns r \<and>
     (ex_result_payload r \<noteq> None \<longrightarrow> ex_result_payload r' \<noteq> None) \<and> (row_ok env colls r \<longrightarrow> row_ok env colls r')"

definition keeps_rows :: "acq_env \<Rightarrow> collection list \<Rightarrow> acq_rows \<Rightarrow> acq_rows \<Rightarrow> bool" where
  "keeps_rows env colls rows rows' \<longleftrightarrow> (\<exists>f. rows' = map f rows \<and> (\<forall>r \<in> set rows. keeps_row env colls r (f r)))"

lemma keeps_rows_if:
  "(\<And>r. r \<in> set rows \<Longrightarrow> P r \<Longrightarrow> keeps_row env colls r (f r)) \<Longrightarrow> keeps_rows env colls rows (map (\<lambda>r. if P r then f r else r) rows)"
  unfolding keeps_rows_def by (intro exI[of _ "\<lambda>r. if P r then f r else r"]) (auto simp: keeps_row_def)

lemma keeps_rows_refl: "keeps_rows env colls rows rows"
  unfolding keeps_rows_def by (intro exI[of _ id]) (simp add: keeps_row_def)

text \<open>Changes of the status and the lease alone, away from \<open>SUCCEEDED\<close>.\<close>

lemma keeps_row_plain:
  assumes "fixed_columns r' = fixed_columns r" and "ex_result_payload r' = ex_result_payload r"
    and "ex_status r' = SUCCEEDED \<longrightarrow> ex_status r = SUCCEEDED"
    and "ex_status r' = RUNNING \<longrightarrow> ex_lease_owner r' \<noteq> None \<and> ex_lease_expires_at r' \<noteq> None"
  shows "keeps_row env colls r r'"
  using assms sound_payload_fixed[OF assms(1)] by (auto simp: keeps_row_def row_ok_def)

lemma keeps_flush_plain:
  assumes "ex_result_payload new = ex_result_payload old" and "ex_status new \<noteq> ex_status old"
    and "ex_status new \<noteq> SUCCEEDED" and "ex_status new \<noteq> RUNNING"
  shows "keeps_rows env colls rows (flush_row old new rows)"
  unfolding flush_row_def
  by (rule keeps_rows_if, rule keeps_row_plain) (use assms in \<open>auto simp: fixed_simps merge_columns_def changed_def\<close>)

lemma keeps_ops:
  "keeps_rows env colls rows (queue_execution r rows)" "keeps_rows env colls rows (cancel_execution r rows)"
  "keeps_rows env colls rows (snd (claim eid owner now rows))" "keeps_rows env colls rows (snd (heartbeat eid owner now rows))"
  "keeps_rows env colls rows (fail_execution eid failure owner now rows)" "keeps_rows env colls rows (snd (requeue now eid seen rows))"
proof -
  show "keeps_rows env colls rows (queue_execution r rows)" "keeps_rows env colls rows (cancel_execution r rows)"
    by (auto simp: queue_execution_def cancel_execution_def cancel_status_def Let_def keeps_rows_refl intro!: keeps_flush_plain)
  show "keeps_rows env colls rows (snd (claim eid owner now rows))" "keeps_rows env colls rows (snd (heartbeat eid owner now rows))"
    "keeps_rows env colls rows (fail_execution eid failure owner now rows)" "keeps_rows env colls rows (snd (requeue now eid seen rows))"
    unfolding claim_def heartbeat_def fail_execution_def requeue_def update_where_def snd_conv
    by (rule keeps_rows_if, rule keeps_row_plain; simp add: fixed_simps leased_to_def)+
qed

lemma same_id_same_row: "distinct (map ex_id rows) \<Longrightarrow> r \<in> set rows \<Longrightarrow> r' \<in> set rows \<Longrightarrow> ex_id r = ex_id r' \<Longrightarrow> r = r'"
  by (auto simp: distinct_map inj_on_def)

lemma keeps_commit:
  assumes ids: "distinct (map ex_id rows)" and ok: "actor_ok env colls rows (Committing w owner loaded verdict)"
  shows "keeps_rows env colls rows (flush_row loaded verdict rows)"
proof -
  obtain g now result endpoint where g: "registration_of loaded = Some g"
    and v: "verdict = finish_execution env g now result endpoint loaded" and run: "ex_status loaded = RUNNING"
    and col: "(w, owner, result, endpoint) \<in> set colls" "ex_id w = ex_id loaded"
    using ok by (auto simp: leased_to_def)
  obtain r0 where r0: "r0 \<in> set rows" "fixed_columns r0 = fixed_columns loaded"
    "ex_result_payload loaded \<noteq> None \<longrightarrow> ex_result_payload r0 \<noteq> None"
    using ok by (auto simp: still_seen_def)
  have "keeps_row env colls r (merge_columns loaded verdict r)" if r: "r \<in> set rows" "ex_id r = ex_id loaded" for r
  proof -
    have "r = r0" using same_id_same_row[OF ids r(1) r0(1)] r(2) fixed_selectors(1)[OF r0(2)] by simp
    with r0 have "fixed_columns r = fixed_columns loaded"
      and pay: "ex_result_payload loaded \<noteq> None \<longrightarrow> ex_result_payload r \<noteq> None" by simp_all
    then have "fixed_columns (merge_columns loaded verdict r) = fixed_columns loaded" "fixed_columns r = fixed_columns loaded"
      by (simp_all add: fixed_simps)
    note sound = this[THEN sound_payload_fixed]
    from finish_cases(1)[OF g v col] show ?thesis
    proof
      assume failed: "ex_status verdict = FAILED \<and> ex_result_payload verdict = ex_result_payload loaded"
      with run show ?thesis
        by (intro keeps_row_plain) (simp_all add: merge_columns_def changed_def fixed_updates)
    next
      assume "ex_status verdict = SUCCEEDED \<and> (\<exists>p. ex_result_payload verdict = Some p \<and> sound_payload env colls loaded p)"
      then obtain p where p: "ex_status verdict = SUCCEEDED" "ex_result_payload verdict = Some p" "sound_payload env colls loaded p"
        by blast
      have m: "ex_status (merge_columns loaded verdict r) = SUCCEEDED"
        "ex_result_payload (merge_columns loaded verdict r) = (if ex_result_payload loaded = Some p then ex_result_payload r else Some p)"
        using run p by (auto simp: merge_columns_def changed_def)
      show ?thesis unfolding keeps_row_def
      proof (intro conjI impI)
        show "fixed_columns (merge_columns loaded verdict r) = fixed_columns r" by (rule fixed_merge)
        show "ex_result_payload (merge_columns loaded verdict r) \<noteq> None" if "ex_result_payload r \<noteq> None"
          using that m(2) by simp
        assume ok: "row_ok env colls r"
        have "ex_result_payload (merge_columns loaded verdict r) \<noteq> None" using m(2) pay by simp
        moreover have "sound_payload env colls loaded q" if "ex_result_payload (merge_columns loaded verdict r) = Some q" for q
          using that m(2) p(3) ok sound(2) by (simp add: row_ok_def split: if_splits)
        ultimately show "row_ok env colls (merge_columns loaded verdict r)"
          unfolding row_ok_def m(1) sound(1) by simp
      qed
    qed
  qed
  then show ?thesis unfolding flush_row_def by (intro keeps_rows_if)
qed

lemma step_keeps_rows:
  assumes "actor_step env actors (rows, a) (rows', a')" and "distinct (map ex_id rows)" and "actor_ok env colls rows a"
  shows "keeps_rows env colls rows rows' \<or> (\<exists>body eid. rows' = rows @ [new_execution env eid body])"
  using assms(1)
proof (cases rule: actor_step.cases)
  case (claim_won owner eid now r)
  then show ?thesis using keeps_ops(3)[of env colls rows eid owner now] by simp
next
  case (requeue_done now eid seen)
  then show ?thesis using keeps_ops(6)[of env colls rows now eid seen] by simp
next
  case (commit r owner loaded verdict)
  from keeps_commit[OF assms(2)] assms(3) have "keeps_rows env colls rows (flush_row loaded verdict rows)"
    unfolding commit(1) by blast
  with commit show ?thesis by simp
qed (auto simp: keeps_rows_refl keeps_ops)

lemma still_seen_mono:
  assumes "still_seen env colls rows loaded" and "keeps_rows env colls rows rows' \<or> (\<exists>r. rows' = rows @ [r])"
  shows "still_seen env colls rows' loaded"
proof -
  obtain r where r: "r \<in> set rows" "fixed_columns r = fixed_columns loaded"
    "ex_result_payload loaded \<noteq> None \<longrightarrow> ex_result_payload r \<noteq> None"
    using assms(1) by (auto simp: still_seen_def)
  from assms(2) have "\<exists>r' \<in> set rows'. fixed_columns r' = fixed_columns r \<and>
      (ex_result_payload r \<noteq> None \<longrightarrow> ex_result_payload r' \<noteq> None)"
    using r(1) by (auto simp: keeps_rows_def keeps_row_def)
  with r assms(1) show ?thesis unfolding still_seen_def by metis
qed

lemma actor_ok_mono:
  assumes "actor_ok env colls rows a" and "keeps_rows env colls rows rows' \<or> (\<exists>r. rows' = rows @ [r])"
  shows "actor_ok env colls rows' a"
  using assms(1) still_seen_mono[OF _ assms(2)] by (cases a) auto

lemma new_row_ok: "row_ok env colls (new_execution env' eid body)"
  by (simp add: row_ok_def new_execution_def)

lemma still_seen_row: "row_ok env colls r \<Longrightarrow> r \<in> set rows \<Longrightarrow> still_seen env colls rows r"
  by (auto simp: still_seen_def row_ok_def)

lemma step_new_actor_ok:
  assumes step: "actor_step env actors (rows, a) (rows', a')" and ids: "distinct (map ex_id rows)"
    and new: "set (collected_by a a') \<subseteq> set colls"
    and rows: "\<forall>r \<in> set rows. row_ok env colls r" and rows': "\<forall>r \<in> set rows'. row_ok env colls r" and ok: "actor_ok env colls rows a"
  shows "actor_ok env colls rows' a'"
  using step
proof (cases rule: actor_step.cases)
  case (claim_won owner eid now r)
  then show ?thesis using find_execution_Some[of eid rows' r] rows' by (auto intro: still_seen_row)
next
  case (beat r owner now)
  then show ?thesis using ok still_seen_mono keeps_ops(4) by (metis actor_ok.simps(3))
next
  case (judge r loaded owner g result endpoint now)
  obtain r0 where r0: "r0 \<in> set rows" "fixed_columns r0 = fixed_columns r"
    using ok judge(1) by (auto simp: still_seen_def)
  have "r0 = loaded"
    using same_id_same_row[OF ids r0(1)] find_execution_Some[OF judge(4)] fixed_selectors(1)[OF r0(2)] by simp
  with fixed_selectors(4)[OF r0(2)] judge(6) have "registration_of loaded = Some g" by simp
  with judge ok find_execution_Some[OF judge(4)] rows show ?thesis by (auto intro: still_seen_row)
next
  case (run_ended r w result endpoint owner)
  then show ?thesis using ok new by (auto simp: collected_by_def)
qed (use ok rows find_execution_Some in \<open>auto intro: still_seen_row\<close>)

text \<open>A longer history.\<close>

lemma sound_payload_mono: "sound_payload env colls r p \<Longrightarrow> set colls \<subseteq> set colls' \<Longrightarrow> sound_payload env colls' r p"
  unfolding sound_payload_def by blast

lemma row_ok_mono: "row_ok env colls r \<Longrightarrow> set colls \<subseteq> set colls' \<Longrightarrow> row_ok env colls' r"
  unfolding row_ok_def using sound_payload_mono by blast

lemma still_seen_log: "still_seen env colls rows r \<Longrightarrow> set colls \<subseteq> set colls' \<Longrightarrow> still_seen env colls' rows r"
  unfolding still_seen_def using sound_payload_mono by blast

lemma actor_ok_log: "actor_ok env colls rows a \<Longrightarrow> set colls \<subseteq> set colls' \<Longrightarrow> actor_ok env colls' rows a"
  using still_seen_log by (cases a) (fastforce simp del: split_paired_Ex)+

lemma history_results_inv: "acq_history env colls s \<Longrightarrow> results_inv env colls s"
proof (induction rule: acq_history.induct)
  case hist_init
  then show ?case by (simp add: results_inv_def)
next
  case (hist_arrive colls rows actors a)
  then show ?case by (cases a) (auto simp: results_inv_def arriving_def)
next
  case (hist_step colls rows actors i rows' a')
  let ?colls = "colls @ collected_by (actors ! i) a'"
  have rows: "\<forall>r \<in> set rows. row_ok env ?colls r" and acts: "\<forall>a \<in> set actors. actor_ok env ?colls rows a"
    using hist_step.IH row_ok_mono[of env colls _ ?colls] actor_ok_log[of env colls rows _ ?colls] by (auto simp: results_inv_def)
  have ids: "distinct (map ex_id rows)"
    using reachable_submit_inv[OF history_reachable[OF hist_step(1)]] by (simp add: submit_inv_def)
  have ok: "actor_ok env ?colls rows (actors ! i)" using acts hist_step(2) by simp
  note kept = step_keeps_rows[OF hist_step(3) ids ok]
  then have mono: "keeps_rows env ?colls rows rows' \<or> (\<exists>r. rows' = rows @ [r])" by blast
  have rows': "\<forall>r \<in> set rows'. row_ok env ?colls r"
    using kept rows new_row_ok by (auto simp: keeps_rows_def keeps_row_def)
  have "actor_ok env ?colls rows' a" if "a \<in> set (actors[i := a'])" for a
    using set_list_update[OF hist_step(2) that] step_new_actor_ok[OF hist_step(3) ids _ rows rows' ok]
      actor_ok_mono[OF _ mono] acts by auto
  with rows' show ?case by (simp add: results_inv_def)
qed

text \<open>
  C28: Whatever races happen between workers, sweeps and cancellations, an execution marked as
  succeeded holds a result, and every stored result is the envelope of a collection that a worker has made
  for this very execution: it was successful, its payload names the requested
  capability, version and schema, its runtime is the audited one where agents collect, and it brought
  the required artifacts. A running execution has a lease with an owner and an end.
\<close>

theorem acquisition_results_sound:
  assumes "acq_history env colls (rows, actors)" and "r \<in> set rows"
  shows "(ex_status r = SUCCEEDED \<longrightarrow> ex_result_payload r \<noteq> None) \<and>
    (\<forall>p. ex_result_payload r = Some p \<longrightarrow>
       (\<exists>g worker owner result endpoint w. (worker, owner, result, endpoint) \<in> set colls \<and> ex_id worker = ex_id r \<and>
          run_capability worker w = Inr (result, endpoint) \<and> aw_collected w = Inr result \<and>
          registration_of r = Some g \<and> cr_success result \<and> cr_items result \<noteq> [] \<and>
          runtime_matches env g result \<and> identity_matches r (hd (cr_items result)) \<and>
          missing_artifacts r result = [] \<and> p = success_payload env g r result endpoint (hd (cr_items result)))) \<and>
    (ex_status r = RUNNING \<longrightarrow> ex_lease_owner r \<noteq> None \<and> ex_lease_expires_at r \<noteq> None)"
proof -
  have ran: "\<exists>w. run_capability worker w = Inr (result, endpoint) \<and> aw_collected w = Inr result"
    if "(worker, owner, result, endpoint) \<in> set colls" for worker owner result endpoint
  proof -
    from history_ran[OF assms(1) that] obtain w where w: "run_capability worker w = Inr (result, endpoint)" by blast
    then have "aw_collected w = Inr result"
      by (auto simp: run_capability_def split: option.splits sum.splits)
    with w show ?thesis by blast
  qed
  have ok: "row_ok env colls r" using history_results_inv[OF assms(1)] assms(2) by (simp add: results_inv_def)
  have "\<exists>g worker owner result endpoint w. (worker, owner, result, endpoint) \<in> set colls \<and> ex_id worker = ex_id r \<and>
      run_capability worker w = Inr (result, endpoint) \<and> aw_collected w = Inr result \<and>
      registration_of r = Some g \<and> cr_success result \<and> cr_items result \<noteq> [] \<and>
      runtime_matches env g result \<and> identity_matches r (hd (cr_items result)) \<and>
      missing_artifacts r result = [] \<and> p = success_payload env g r result endpoint (hd (cr_items result))"
    if "ex_result_payload r = Some p" for p
  proof -
    have "sound_payload env colls r p" using ok that by (simp add: row_ok_def)
    then obtain g worker owner result endpoint where c: "(worker, owner, result, endpoint) \<in> set colls" "ex_id worker = ex_id r"
      "registration_of r = Some g" "cr_success result" "cr_items result \<noteq> []" "runtime_matches env g result"
      "identity_matches r (hd (cr_items result))" "missing_artifacts r result = []"
      "p = success_payload env g r result endpoint (hd (cr_items result))"
      unfolding sound_payload_def by (elim exE conjE)
    from c ran[OF c(1)] show ?thesis by blast
  qed
  with ok show ?thesis by (simp add: row_ok_def)
qed

section \<open>The life cycle\<close>

text \<open>The row an actor is about to write back is still the one in the table.\<close>

fun current_read :: "acq_rows \<Rightarrow> actor \<Rightarrow> bool" where
  "current_read rows (Queueing body r) = (r \<in> set rows)"
| "current_read rows (Cancelling r) = (r \<in> set rows)"
| "current_read rows (Committing r owner loaded verdict) = (loaded \<in> set rows)"
| "current_read rows _ = True"

text \<open>The moves of an execution and who may make them.\<close>

definition legal_move :: "actor \<Rightarrow> execution \<Rightarrow> execution \<Rightarrow> bool" where
  "legal_move a r r' \<longleftrightarrow>
     ex_status r' = ex_status r \<and> (r' \<noteq> r \<longrightarrow> ex_status r = RUNNING \<and> lease_of a = ex_lease_owner r) \<or>
     ex_status r = ACCEPTED \<and> ex_status r' = QUEUED \<or>
     ex_status r = QUEUED \<and> ex_status r' = RUNNING \<and> (\<exists>eid. a = Claiming eid) \<or>
     ex_status r = RUNNING \<and> ex_status r' = QUEUED \<and> (\<exists>now eid. a = Requeueing now eid RUNNING \<and> lease_expired now r) \<or>
     ex_status r = RUNNING \<and> ex_status r' \<in> {SUCCEEDED, FAILED} \<and> lease_of a = ex_lease_owner r \<and> ex_lease_owner r' = None \<or>
     ex_status r \<in> {ACCEPTED, QUEUED, RUNNING} \<and> ex_status r' = CANCELLED \<and> (\<exists>loaded. a = Cancelling loaded)"

lemma legal_refl: "legal_move a r r"
  by (simp add: legal_move_def)

lemma merge_same: "merge_columns r new r = r\<lparr>ex_status := ex_status new, ex_result_payload := ex_result_payload new,
    ex_failure := ex_failure new, ex_trace_ref := ex_trace_ref new, ex_artifact_refs := ex_artifact_refs new,
    ex_finished_at := ex_finished_at new, ex_lease_owner := ex_lease_owner new, ex_heartbeat_at := ex_heartbeat_at new,
    ex_lease_expires_at := ex_lease_expires_at new\<rparr>"
  by (simp add: merge_columns_def changed_def)

lemma flush_legal:
  assumes "distinct (map ex_id rows)" and "old \<in> set rows" and "legal_move a old (merge_columns old new old)"
    and "j < length rows"
  shows "legal_move a (rows ! j) (flush_row old new rows ! j)"
proof (cases "ex_id (rows ! j) = ex_id old")
  case True
  then have "rows ! j = old" using same_id_same_row[OF assms(1) _ assms(2)] assms(4) by simp
  with assms show ?thesis by (simp add: flush_row_def)
next
  case False
  with assms(4) show ?thesis by (simp add: flush_row_def legal_refl)
qed

lemma update_legal:
  "(\<And>r. P r \<Longrightarrow> legal_move a r (f r)) \<Longrightarrow> j < length rows \<Longrightarrow>
    legal_move a (rows ! j) (snd (update_where P f rows) ! j)"
  by (simp add: update_where_def legal_refl)

lemma op_legal:
  assumes "j < length rows"
  shows "legal_move (Claiming eid) (rows ! j) (snd (claim eid owner now rows) ! j)"
    "legal_move (Working r owner) (rows ! j) (snd (heartbeat eid owner now rows) ! j)"
    "legal_move (Failing eid owner failure) (rows ! j) (fail_execution eid failure owner now rows ! j)"
    "legal_move (Requeueing now eid seen) (rows ! j) (snd (requeue now eid seen rows) ! j)"
  unfolding claim_def heartbeat_def fail_execution_def requeue_def
  by (rule update_legal[OF _ assms]; simp add: legal_move_def leased_to_def split: if_splits)+

text \<open>
  C21: The life cycle of an execution. In a step whose write-back, if it is one, rests on a read that is
  still current, an execution only moves from accepted to queued, from queued to running by a
  claim, back to queued by recovery after its lease has expired, from running to its end by the worker
  that holds its lease, which it then gives up, or to cancelled while it is not at its end; an
  execution at its end stays as it is, and only the lease holder touches a running one otherwise.
\<close>

theorem acquisition_life_cycle:
  assumes "acq_reachable env (rows, actors)" and "a \<in> set actors"
    and "actor_step env actors (rows, a) (rows', a')" and "current_read rows a" and "j < length rows"
  shows "legal_move a (rows ! j) (rows' ! j)"
proof -
  have ids: "distinct (map ex_id rows)"
    using reachable_submit_inv[OF assms(1)] by (simp add: submit_inv_def)
  obtain colls where "acq_history env colls (rows, actors)" using reachable_history[OF assms(1)] by blast
  from history_results_inv[OF this] have ok: "actor_ok env colls rows a"
    using assms(2) by (simp add: results_inv_def)
  show ?thesis
    using assms(3)
  proof (cases rule: actor_step.cases)
    case (queue body r)
    with assms show ?thesis
      by (auto simp: queue_execution_def legal_refl intro!: flush_legal[OF ids]) (simp add: legal_move_def merge_same)
  next
    case (cancel_write r)
    with assms show ?thesis
      by (auto simp: cancel_execution_def Let_def legal_refl intro!: flush_legal[OF ids])
        (auto simp: legal_move_def merge_same cancel_status_def split: if_splits)
  next
    case (claim_won owner eid now r)
    with op_legal(1)[OF assms(5), of eid owner now] show ?thesis by simp
  next
    case (beat r owner now)
    with op_legal(2)[OF assms(5)] show ?thesis by simp
  next
    case (record_failure eid owner failure now)
    with op_legal(3)[OF assms(5)] show ?thesis by simp
  next
    case (requeue_done now eid seen)
    with op_legal(4)[OF assms(5), of now eid seen] show ?thesis by simp
  next
    case (commit r owner loaded verdict)
    obtain g now result endpoint where g: "registration_of loaded = Some g"
      and v: "verdict = finish_execution env g now result endpoint loaded"
      and lease: "leased_to (ex_id r) owner loaded" and col: "(r, owner, result, endpoint) \<in> set colls"
      using ok commit(1) by auto
    have same: "ex_id r = ex_id loaded" using lease by (simp add: leased_to_def)
    have "legal_move a loaded (merge_columns loaded verdict loaded)"
      using finish_cases(1)[OF g v col same] finish_cases(2)[OF g v] lease commit(1) by (auto simp: legal_move_def merge_same leased_to_def)
    with commit assms(4,5) show ?thesis by (auto intro!: flush_legal[OF ids])
  next
    case (insert_new body eid)
    with assms(5) show ?thesis by (simp add: nth_append legal_refl)
  qed (simp_all add: legal_refl)
qed

section \<open>A run\<close>

text \<open>
  One submission, one worker that succeeds, and a cancellation that is stored between the worker's
  verdict and its commit.
\<close>

definition demo_acq_env :: acq_env where
  "demo_acq_env = \<lparr>ae_agent_mode = False, ae_fingerprint = (\<lambda>body. ''f''), ae_correlation_valid = (\<lambda>c. True)\<rparr>"

definition demo_body :: submission where
  "demo_body = \<lparr>su_request_id = ''q'', su_idempotency_key = ''k'', su_capability_id = ''official-site.observe'',
     su_capability_version = ''1.0.0'', su_output_schema_version = ''1'', su_input = [(''url'', JStr ''https://a.b'')],
     su_environment = [], su_required_artifacts = [], su_geo_refs = [], su_correlation = None\<rparr>"

definition demo_accepted :: execution where
  "demo_accepted = new_execution demo_acq_env ''e'' demo_body"

definition demo_queued :: execution where
  "demo_queued = demo_accepted\<lparr>ex_status := QUEUED\<rparr>"

definition demo_running :: execution where
  "demo_running = demo_queued\<lparr>ex_status := RUNNING, ex_started_at := Some 0, ex_lease_owner := Some ''w'',
     ex_heartbeat_at := Some 0, ex_lease_expires_at := Some LEASE_DURATION\<rparr>"

definition demo_collected :: channel_result where
  "demo_collected = channel_ok [[(''capabilityId'', JStr ''official-site.observe''),
     (''capabilityVersion'', JStr ''1.0.0''), (''outputSchemaVersion'', JStr ''1'')]] []"

definition demo_world :: attempt_world where
  "demo_world = \<lparr>aw_url = Inr ''https://a.b'', aw_endpoint = Inr ''http://c'', aw_collected = Inr demo_collected,
     aw_redirect = (\<lambda>u. None)\<rparr>"

definition demo_verdict :: execution where
  "demo_verdict = finish_execution demo_acq_env (hd registrations) 1 demo_collected ''http://c'' demo_running"

definition demo_cancelled :: execution where
  "demo_cancelled = demo_running\<lparr>ex_status := CANCELLED, ex_lease_owner := None, ex_heartbeat_at := None,
     ex_lease_expires_at := None\<rparr>"

definition demo_answer :: actor where
  "demo_answer = Answered demo_body (created_outcome demo_accepted)"

lemma demo_values:
  "get_by_idempotency_key (su_idempotency_key demo_body) [] = None" "correlation_ok demo_acq_env demo_body"
  "find_execution ''e'' [] = None" "find_execution ''e'' [demo_accepted] = Some demo_accepted"
  "queue_execution demo_accepted [demo_accepted] = [demo_queued]"
  "claim ''e'' ''w'' 0 [demo_queued] = (1, [demo_running])" "find_execution ''e'' [demo_running] = Some demo_running"
  "run_capability demo_running demo_world = Inr (demo_collected, ''http://c'')"
  "ex_id demo_running = ''e''" "leased_to ''e'' ''w'' demo_running" "registration_of demo_running = Some (hd registrations)"
  "accepts_cancel_request (ex_status demo_running)" "cancel_execution demo_running [demo_running] = [demo_cancelled]"
  "ex_status (hd (flush_row demo_running demo_verdict [demo_cancelled])) = SUCCEEDED" "ex_status demo_cancelled = CANCELLED"
  "ex_status demo_verdict = SUCCEEDED"
  by code_simp+

lemma demo_history_submitted: "acq_history demo_acq_env [] ([demo_queued], [demo_answer])"
proof -
  have "acq_history demo_acq_env [] ([], [Submitting demo_body])"
    using hist_arrive[OF hist_init, of "Submitting demo_body"] by (simp add: arriving_def)
  from hist_step[OF this, of 0] submit_unknown[OF demo_values(1,2)]
  have "acq_history demo_acq_env [] ([], [Inserting demo_body])" by (fastforce simp: collected_by_def)
  from hist_step[OF this, of 0] insert_new[OF demo_values(1,3)]
  have "acq_history demo_acq_env [] ([demo_accepted], [Inserted demo_body ''e''])"
    by (fastforce simp: demo_accepted_def collected_by_def)
  from hist_step[OF this, of 0] insert_refresh[OF demo_values(4)]
  have "acq_history demo_acq_env [] ([demo_accepted], [Queueing demo_body demo_accepted])"
    by (fastforce simp: collected_by_def)
  from hist_step[OF this, of 0] queue[of demo_acq_env _ "[demo_accepted]" demo_body demo_accepted]
  show ?thesis by (fastforce simp: demo_values(5) demo_answer_def collected_by_def)
qed

lemmas demo_submitted = history_reachable[OF demo_history_submitted]

definition demo_log :: "collection list" where
  "demo_log = [(demo_running, ''w'', demo_collected, ''http://c'')]"

lemma demo_history_committing:
  "acq_history demo_acq_env demo_log ([demo_running], [demo_answer, Committing demo_running ''w'' demo_running demo_verdict])"
proof -
  have "acq_history demo_acq_env [] ([demo_queued], [demo_answer, Claiming ''e''])"
    using hist_arrive[OF demo_history_submitted, of "Claiming ''e''"] by (simp add: arriving_def)
  moreover have "fresh_lease ''w'' [demo_queued] [demo_answer, Claiming ''e'']"
    by code_simp
  ultimately have "acq_history demo_acq_env [] ([demo_running], [demo_answer, Working demo_running ''w''])"
    using hist_step[of demo_acq_env "[]" "[demo_queued]" "[demo_answer, Claiming ''e'']" 1] claim_won[OF _ demo_values(6,7)]
    by (fastforce simp: collected_by_def)
  from hist_step[OF this, of 1 "[demo_running]" "Judging demo_running ''w'' demo_collected ''http://c''"] run_ended[OF demo_values(8)]
  have "acq_history demo_acq_env demo_log ([demo_running], [demo_answer, Judging demo_running ''w'' demo_collected ''http://c''])"
    by (simp add: collected_by_def demo_log_def)
  from hist_step[OF this, of 1 "[demo_running]" "Committing demo_running ''w'' demo_running demo_verdict"]
    judge[of demo_running "[demo_running]" demo_running "''w''" "hd registrations" demo_acq_env]
  show ?thesis by (simp add: demo_values(7,9,10,11) demo_verdict_def collected_by_def)
qed

lemmas demo_committing = history_reachable[OF demo_history_committing]

text \<open>
  The verdict is judged on a read and written by key: a cancellation stored in between is lost, and the
  execution the client was told is cancelled ends as succeeded.
\<close>

lemma cancelled_then_succeeded:
  "\<exists>env rows actors a rows' a'. acq_reachable env (rows, actors) \<and> a \<in> set actors \<and>
     actor_step env actors (rows, a) (rows', a') \<and>
     map ex_status rows = [CANCELLED] \<and> map ex_status rows' = [SUCCEEDED]"
proof -
  let ?c = "Committing demo_running ''w'' demo_running demo_verdict"
  have "acq_reachable demo_acq_env ([demo_running], [demo_answer, ?c, CancelAsked ''e''])"
    using acq_arrive[OF demo_committing, of "CancelAsked ''e''"] by (simp add: arriving_def)
  from acq_step[OF this, of 2] cancel_read[OF demo_values(7,12)]
  have "acq_reachable demo_acq_env ([demo_running], [demo_answer, ?c, Cancelling demo_running])" by simp
  from acq_step[OF this, of 2] cancel_write[of demo_acq_env _ "[demo_running]" demo_running]
  have reach: "acq_reachable demo_acq_env ([demo_cancelled], [demo_answer, ?c, Gone])" by (simp add: demo_values(13))
  have "map ex_status (flush_row demo_running demo_verdict [demo_cancelled]) = [SUCCEEDED]"
    using demo_values(14) by (simp add: flush_row_def)
  with reach commit[of demo_acq_env "[demo_answer, ?c, Gone]" "[demo_cancelled]" demo_running "''w''" demo_running demo_verdict]
  show ?thesis
    by (intro exI[of _ demo_acq_env] exI[of _ "[demo_cancelled]"] exI[of _ "[demo_answer, ?c, Gone]"] exI[of _ ?c]
        exI[of _ "flush_row demo_running demo_verdict [demo_cancelled]"] exI[of _ Gone]) (simp add: demo_values(15))
qed

theorem submissions_idempotent_witness:
  "acq_reachable demo_acq_env ([demo_queued], [demo_answer]) \<and>
   (\<exists>r \<in> {demo_queued}. ex_id r = ''e'' \<and> ex_idempotency_key r = ''k'' \<and> ex_request_fingerprint r = ''f'')"
  using submissions_idempotent[OF demo_submitted] demo_submitted
  by (auto simp: demo_answer_def created_outcome_def demo_accepted_def new_execution_def demo_body_def demo_acq_env_def)

theorem acquisition_results_sound_witness:
  "\<exists>rows actors r p. acq_history demo_acq_env demo_log (rows, actors) \<and> r \<in> set rows \<and> ex_status r = SUCCEEDED \<and>
     ex_result_payload r = Some p \<and>
     p = success_payload demo_acq_env (hd registrations) r demo_collected ''http://c'' (hd (cr_items demo_collected))"
proof -
  let ?rows = "flush_row demo_running demo_verdict [demo_running]"
  from hist_step[OF demo_history_committing, of 1 ?rows Gone]
    commit[of demo_acq_env _ "[demo_running]" demo_running "''w''" demo_running demo_verdict]
  have hist: "acq_history demo_acq_env demo_log (?rows, [demo_answer, Gone])" by (simp add: collected_by_def)
  have mem: "merge_columns demo_running demo_verdict demo_running \<in> set ?rows" (is "?r \<in> _") by (simp add: flush_row_def)
  have ok: "ex_status ?r = SUCCEEDED" "registration_of ?r = Some (hd registrations)"
    using demo_values(11) by (simp_all add: merge_same demo_values(16) registration_of_def)
  with acquisition_results_sound[OF hist mem] obtain p where "ex_result_payload ?r = Some p"
    "p = success_payload demo_acq_env (hd registrations) ?r demo_collected ''http://c'' (hd (cr_items demo_collected))"
    by (auto simp: demo_log_def)
  with hist mem ok(1) show ?thesis by blast
qed

theorem acquisition_life_cycle_witness:
  "legal_move (Committing demo_running ''w'' demo_running demo_verdict) demo_running
     (merge_columns demo_running demo_verdict demo_running) \<and>
   ex_status demo_running = RUNNING \<and> ex_status (merge_columns demo_running demo_verdict demo_running) = SUCCEEDED"
proof -
  let ?c = "Committing demo_running ''w'' demo_running demo_verdict"
  have "legal_move ?c ([demo_running] ! 0) (flush_row demo_running demo_verdict [demo_running] ! 0)"
    by (rule acquisition_life_cycle[OF demo_committing _ commit]) simp_all
  then show ?thesis using demo_values(10) by (simp add: flush_row_def merge_same demo_values(16) leased_to_def)
qed

end
