(* ===== verification/AutomationSchedule.thy ===== *)
theory AutomationSchedule
  imports CronText ErrorKinds
begin

text \<open>
  When an automation is due (\<open>backend/automation_schedule.py\<close>): the schedule texts, and the UTC
  minutes of a window whose local time matches. Instants are microseconds; what the time zone data
  base says of an instant is the parameter \<open>zones\<close>.
\<close>

section \<open>Schedules\<close>

record schedule_spec =
  as_kind :: string
  as_hour :: "nat option"
  as_minute :: nat

definition two_digits :: "char \<Rightarrow> char \<Rightarrow> nat" where
  "two_digits a b = digits_value 0 [a, b]"

text \<open>The regular expression \<open>^(daily|weekdays|weekly)@(\d{2}):(\d{2})$\<close> on the whole text.\<close>

definition schedule_groups :: "string \<Rightarrow> (string \<times> nat \<times> nat) option" where
  "schedule_groups text =
     (case find (\<lambda>kind. prefix (kind @ ''@'') text) [''daily'', ''weekdays'', ''weekly''] of
        None \<Rightarrow> None
      | Some kind \<Rightarrow>
          (case drop (length kind + 1) text of
             [a, b, c, d, e] \<Rightarrow>
               (if is_digit a \<and> is_digit b \<and> c = CHR '':'' \<and> is_digit d \<and> is_digit e
                then Some (kind, two_digits a b, two_digits d e) else None)
           | _ \<Rightarrow> None))"

definition parse_automation_schedule :: "string \<Rightarrow> exn + schedule_spec" where
  "parse_automation_schedule text =
     (if text = ''hourly'' then Inr \<lparr>as_kind = ''hourly'', as_hour = None, as_minute = 0\<rparr>
      else case schedule_groups text of
          None \<Rightarrow> Inl (Exn ''ValueError'')
        | Some (kind, hour, minute) \<Rightarrow>
            (if hour > 23 \<or> minute > 59 then Inl (Exn ''ValueError'')
             else Inr \<lparr>as_kind = kind, as_hour = Some hour, as_minute = minute\<rparr>))"

section \<open>Fire times\<close>

record local_time =
  lt_hour :: nat
  lt_minute :: nat
  lt_weekday :: nat

text \<open>The zones known by name, and the local time of an instant in each.\<close>

type_synonym zones = "string \<Rightarrow> (int \<Rightarrow> local_time) option"

definition parse_automation_timezone :: "zones \<Rightarrow> string \<Rightarrow> exn + (int \<Rightarrow> local_time)" where
  "parse_automation_timezone zones name =
     (case zones name of None \<Rightarrow> Inl (Exn ''ValueError'') | Some z \<Rightarrow> Inr z)"

definition MINUTE :: int where
  "MINUTE = 60 * 1000000"

definition floor_minute :: "int \<Rightarrow> int" where
  "floor_minute t = t - t mod MINUTE"

definition matches_time :: "schedule_spec \<Rightarrow> local_time \<Rightarrow> bool" where
  "matches_time spec local =
     (if as_kind spec = ''hourly'' then lt_minute local = 0
      else as_hour spec = Some (lt_hour local) \<and> lt_minute local = as_minute spec)"

definition matches_day :: "schedule_spec \<Rightarrow> local_time \<Rightarrow> bool" where
  "matches_day spec local \<longleftrightarrow>
     (as_kind spec \<noteq> ''weekdays'' \<and> as_kind spec \<noteq> ''weekly'') \<or>
     (as_kind spec = ''weekdays'' \<and> lt_weekday local < 5) \<or>
     (as_kind spec = ''weekly'' \<and> lt_weekday local = 0)"

definition due :: "schedule_spec \<Rightarrow> (int \<Rightarrow> local_time) \<Rightarrow> int \<Rightarrow> bool" where
  "due spec zone t \<longleftrightarrow> matches_time spec (zone t) \<and> matches_day spec (zone t)"

function fire_loop :: "schedule_spec \<Rightarrow> (int \<Rightarrow> local_time) \<Rightarrow> int \<Rightarrow> int \<Rightarrow> int list" where
  "fire_loop spec zone cursor end_utc =
     (if cursor \<le> end_utc
      then (if due spec zone cursor then [cursor] else []) @ fire_loop spec zone (cursor + MINUTE) end_utc
      else [])"
  by pat_completeness auto
termination
  by (relation "measure (\<lambda>(_, _, cursor, end_utc). nat (end_utc - cursor + 1))") (auto simp: MINUTE_def)

declare fire_loop.simps [simp del]

fun tz_aware :: "datetime \<Rightarrow> bool" where
  "tz_aware (Naive _) = False"
| "tz_aware (Aware _) = True"

definition automation_fire_times :: "zones \<Rightarrow> string \<Rightarrow> string \<Rightarrow> datetime \<Rightarrow> datetime \<Rightarrow> exn + int list" where
  "automation_fire_times zones schedule timezone_name window_start window_end =
     (if \<not> tz_aware window_start \<or> \<not> tz_aware window_end then Inl (Exn ''ValueError'')
      else if instant window_end \<le> instant window_start then Inr []
      else case parse_automation_schedule schedule of
          Inl e \<Rightarrow> Inl e
        | Inr spec \<Rightarrow>
            (case parse_automation_timezone zones timezone_name of
               Inl e \<Rightarrow> Inl e
             | Inr zone \<Rightarrow>
                 (let cursor = floor_minute (instant window_start);
                      first = (if cursor \<le> instant window_start then cursor + MINUTE else cursor)
                  in Inr (fire_loop spec zone first (instant window_end)))))"

section \<open>Exactly the due minutes of a window\<close>

lemma parse_kinds:
  "parse_automation_schedule text = Inr spec \<Longrightarrow>
     as_kind spec \<in> {''hourly'', ''daily'', ''weekdays'', ''weekly''} \<and>
     (as_kind spec = ''hourly'' \<longleftrightarrow> as_hour spec = None) \<and>
     (\<forall>h. as_hour spec = Some h \<longrightarrow> h < 24) \<and> as_minute spec < 60"
  by (auto simp: parse_automation_schedule_def schedule_groups_def split: if_splits option.splits list.splits)

lemma floor_minute_bounds:
  "floor_minute t \<le> t" "t < floor_minute t + MINUTE" "floor_minute t mod MINUTE = 0"
proof -
  have m: "0 < MINUTE" by (simp add: MINUTE_def)
  show "floor_minute t \<le> t" "t < floor_minute t + MINUTE"
    using pos_mod_sign[OF m, of t] pos_mod_bound[OF m, of t] by (auto simp: floor_minute_def)
  show "floor_minute t mod MINUTE = 0" by (simp add: floor_minute_def minus_mod_eq_mult_div)
qed

text \<open>Whole minutes are a minute apart.\<close>

lemma minute_gap: "s mod MINUTE = 0 \<Longrightarrow> t mod MINUTE = 0 \<Longrightarrow> s < t \<Longrightarrow> s + MINUTE \<le> t"
proof -
  assume "s mod MINUTE = 0" "t mod MINUTE = 0" "s < t"
  moreover from this obtain j k where "s = MINUTE * j" "t = MINUTE * k" by (meson mod_0_imp_dvd dvdE)
  ultimately have "j + 1 \<le> k" by (simp add: MINUTE_def)
  with \<open>s = MINUTE * j\<close> \<open>t = MINUTE * k\<close> show ?thesis by (simp add: MINUTE_def)
qed

lemma fire_loop_sorted:
  "sorted_wrt (<) (fire_loop spec zone c e) \<and> (\<forall>t \<in> set (fire_loop spec zone c e). c \<le> t)"
proof (induction spec zone c e rule: fire_loop.induct)
  case (1 spec zone c e)
  show ?case
  proof (cases "c \<le> e")
    case True
    with 1 have "sorted_wrt (<) (fire_loop spec zone (c + MINUTE) e)"
      "\<forall>t \<in> set (fire_loop spec zone (c + MINUTE) e). c + MINUTE \<le> t" by auto
    with True show ?thesis by (subst (1 2) fire_loop.simps) (auto simp: MINUTE_def)
  qed (simp add: fire_loop.simps)
qed

lemma fire_loop_set:
  assumes "c mod MINUTE = 0"
  shows "set (fire_loop spec zone c e) = {t. c \<le> t \<and> t \<le> e \<and> t mod MINUTE = 0 \<and> due spec zone t}"
  using assms
proof (induction spec zone c e rule: fire_loop.induct)
  case (1 spec zone c e)
  show ?case
  proof (cases "c \<le> e")
    case True
    have m: "0 < MINUTE" by (simp add: MINUTE_def)
    have next_minute: "t mod MINUTE = 0 \<and> c \<le> t \<longleftrightarrow> t = c \<or> t mod MINUTE = 0 \<and> c + MINUTE \<le> t" for t
      using minute_gap[OF 1(2), of t] 1(2) m by (cases "t = c") auto
    have "(c + MINUTE) mod MINUTE = 0" using 1(2) by simp
    note ih = 1(1)[OF True this]
    have rest: "set (fire_loop spec zone (c + MINUTE) e) =
        {t. c + MINUTE \<le> t \<and> t \<le> e \<and> t mod MINUTE = 0 \<and> due spec zone t}" by (rule ih)
    have "set (fire_loop spec zone c e) = (if due spec zone c then {c} else {}) \<union> set (fire_loop spec zone (c + MINUTE) e)"
      using True by (subst fire_loop.simps) simp
    also have "\<dots> = {t. c \<le> t \<and> t \<le> e \<and> t mod MINUTE = 0 \<and> due spec zone t}"
      unfolding rest
    proof (rule set_eqI)
      fix t
      show "t \<in> (if due spec zone c then {c} else {}) \<union> {t. c + MINUTE \<le> t \<and> t \<le> e \<and> t mod MINUTE = 0 \<and> due spec zone t} \<longleftrightarrow>
          t \<in> {t. c \<le> t \<and> t \<le> e \<and> t mod MINUTE = 0 \<and> due spec zone t}"
        using next_minute[of t] True by (cases "t = c") auto
    qed
    finally show ?thesis .
  qed (auto simp: fire_loop.simps)
qed

lemma fires_in_window:
  assumes "tz_aware ws" and "tz_aware we" and "parse_automation_schedule schedule = Inr spec" and "zones tz = Some zone"
  shows "\<exists>fires. automation_fire_times zones schedule tz ws we = Inr fires \<and> sorted_wrt (<) fires \<and>
    set fires = {t. instant ws < t \<and> t \<le> instant we \<and> t mod MINUTE = 0 \<and> due spec zone t}"
proof (cases "instant we \<le> instant ws")
  case True
  with assms show ?thesis by (auto simp: automation_fire_times_def)
next
  case False
  let ?c = "floor_minute (instant ws) + MINUTE"
  have "?c mod MINUTE = 0" using floor_minute_bounds(3) by simp
  have after: "?c \<le> t \<longleftrightarrow> instant ws < t" if "t mod MINUTE = 0" for t
    using floor_minute_bounds[of "instant ws"] minute_gap[OF floor_minute_bounds(3) that, of "instant ws"] by linarith
  have "automation_fire_times zones schedule tz ws we = Inr (fire_loop spec zone ?c (instant we))"
    using assms False floor_minute_bounds(1)[of "instant ws"]
    by (simp add: automation_fire_times_def parse_automation_timezone_def Let_def)
  then show ?thesis
    using fire_loop_sorted[of spec zone ?c] fire_loop_set[OF \<open>?c mod MINUTE = 0\<close>, of spec zone "instant we"] after
    by auto
qed

text \<open>
  C31: An automation fires exactly at the due minutes of the window: for two aware bounds in order, a
  schedule that parses and a known zone, the fire times are, in strictly increasing order, the whole
  UTC minutes after the start and up to the end whose local time matches the schedule.
\<close>

theorem fire_times_exact:
  assumes "tz_aware ws" and "tz_aware we" and "parse_automation_schedule schedule = Inr spec" and "zones tz = Some zone"
  shows "\<exists>fires. automation_fire_times zones schedule tz ws we = Inr fires \<and> sorted_wrt (<) fires \<and>
    set fires = {t. instant ws < t \<and> t \<le> instant we \<and> t mod MINUTE = 0 \<and> due spec zone t}"
  using assms by (rule fires_in_window)

definition utc_zone :: "int \<Rightarrow> local_time" where
  "utc_zone t = \<lparr>lt_hour = nat (t div (60 * MINUTE) mod 24), lt_minute = nat (t div MINUTE mod 60),
     lt_weekday = nat ((t div (24 * 60 * MINUTE) + 3) mod 7)\<rparr>"

definition demo_zones :: zones where
  "demo_zones name = (if name = ''UTC'' then Some utc_zone else None)"

theorem fire_times_exact_witness:
  "\<exists>fires. automation_fire_times demo_zones ''daily@00:02'' ''UTC'' (Aware 0) (Aware (5 * MINUTE)) = Inr fires \<and>
     2 * MINUTE \<in> set fires \<and> 3 * MINUTE \<notin> set fires"
proof -
  have parse: "parse_automation_schedule ''daily@00:02'' = Inr \<lparr>as_kind = ''daily'', as_hour = Some 0, as_minute = 2\<rparr>"
    by code_simp
  have "demo_zones ''UTC'' = Some utc_zone" by (simp add: demo_zones_def)
  from fire_times_exact[where zones = demo_zones and tz = "''UTC''", OF _ _ parse this, of "Aware 0" "Aware (5 * MINUTE)"] obtain fires
    where "automation_fire_times demo_zones ''daily@00:02'' ''UTC'' (Aware 0) (Aware (5 * MINUTE)) = Inr fires"
      "set fires = {t. 0 < t \<and> t \<le> 5 * MINUTE \<and> t mod MINUTE = 0 \<and>
        due \<lparr>as_kind = ''daily'', as_hour = Some 0, as_minute = 2\<rparr> utc_zone t}"
    by auto
  then show ?thesis
    by (auto simp: MINUTE_def due_def matches_time_def matches_day_def utc_zone_def)
qed

text \<open>Windows put end to end: what fires in the whole is what fires in one part after the other.\<close>

lemma fire_times_windows:
  assumes "tz_aware a" "tz_aware b" "tz_aware c" and "instant a \<le> instant b" "instant b \<le> instant c"
    and "parse_automation_schedule schedule = Inr spec" and "zones tz = Some zone"
    and "automation_fire_times zones schedule tz a b = Inr first" "automation_fire_times zones schedule tz b c = Inr rest"
  shows "automation_fire_times zones schedule tz a c = Inr (first @ rest)"
proof -
  obtain whole where whole: "automation_fire_times zones schedule tz a c = Inr whole" "sorted_wrt (<) whole"
    "set whole = {t. instant a < t \<and> t \<le> instant c \<and> t mod MINUTE = 0 \<and> due spec zone t}"
    using fires_in_window[where zones = zones and tz = tz, OF assms(1,3,6,7)] by blast
  have first: "sorted_wrt (<) first" "set first = {t. instant a < t \<and> t \<le> instant b \<and> t mod MINUTE = 0 \<and> due spec zone t}"
    using fires_in_window[where zones = zones and tz = tz, OF assms(1,2,6,7)] assms(8) by auto
  have rest: "sorted_wrt (<) rest" "set rest = {t. instant b < t \<and> t \<le> instant c \<and> t mod MINUTE = 0 \<and> due spec zone t}"
    using fires_in_window[where zones = zones and tz = tz, OF assms(2,3,6,7)] assms(9) by auto
  have "set whole = set (first @ rest)" "sorted_wrt (<) (first @ rest)"
    using whole(3) first rest assms(4,5) by (auto simp: sorted_wrt_append)
  with whole(1,2) show ?thesis
    using sorted_distinct_set_unique[of whole "first @ rest"] by (simp add: strict_sorted_iff)
qed

end
