(* ===== verification/AutomationRuns.thy ===== *)
theory AutomationRuns
  imports AutomationSchedule Prelude
begin

text \<open>
  From due automations to runs of operations agents
  (\<open>backend/services/automation_schedule_service.py\<close>). A claim holds the row lock of its
  automation, so it is one step; the unique index on automation and occurrence is the condition of an
  insert. The contract of an agent version, the choice of its runtime, the validation of payloads and
  printed times are parameters.
\<close>

section \<open>Rows\<close>

record automation =
  au_id :: string
  au_workspace_id :: string
  au_revision :: int
  au_name :: string
  au_prompt :: string
  au_precheck :: "string option"
  au_executor :: string
  au_schedule :: string
  au_timezone :: string
  au_session_mode :: string
  au_approval_mode :: string
  au_project :: "json dict"
  au_enabled :: bool
  au_agent_id :: "string option"
  au_agent_version :: "int option"
  au_created_by :: string

record agent_identity =
  og_id :: string
  og_workspace_id :: string
  og_disabled :: bool
  og_profile_version :: int

record agent_version =
  ov_agent_id :: string
  ov_version :: int
  ov_model_configuration :: "json dict"

record agent_profile =
  op_agent_id :: string
  op_version :: int
  op_mode :: string

record agent_run =
  rn_id :: nat
  rn_workspace_id :: string
  rn_agent_id :: string
  rn_published_version :: int
  rn_profile_version :: int
  rn_trigger_type :: string
  rn_trigger_reference :: "string option"
  rn_automation_id :: string
  rn_automation_revision :: int
  rn_snapshot :: "json dict"
  rn_scheduled_for :: "int option"
  rn_timezone :: string
  rn_input :: "json dict"
  rn_binding :: "json option"
  rn_error :: "string option"
  rn_status :: string
  rn_started_by :: string

text \<open>\<open>ad_handed\<close>: the runs handed to the agent runtime after the commit.\<close>

record auto_db =
  ad_automations :: "automation list"
  ad_agents :: "agent_identity list"
  ad_versions :: "agent_version list"
  ad_profiles :: "agent_profile list"
  ad_runs :: "agent_run list"
  ad_next_id :: nat
  ad_handed :: "nat list"

record auto_env =
  av_zones :: zones
  av_iso :: "int \<Rightarrow> string"
  av_stamp :: "int \<Rightarrow> string"
  av_binding :: "json dict \<Rightarrow> exn + json option"
  av_contract :: "json dict \<Rightarrow> exn + json option"
  av_select_runtime :: "json \<Rightarrow> json \<Rightarrow> bool \<Rightarrow> string + json"
  av_validate :: "json \<Rightarrow> string \<Rightarrow> json dict \<Rightarrow> string option"

section \<open>Binding an automation\<close>

definition automation_snapshot :: "automation \<Rightarrow> json dict" where
  "automation_snapshot a =
     [(''id'', JStr (au_id a)), (''revision'', JInt (au_revision a)), (''name'', JStr (au_name a)),
      (''prompt'', JStr (au_prompt a)), (''precheck'', opt_str (au_precheck a)), (''executor'', JStr (au_executor a)),
      (''schedule'', JStr (au_schedule a)), (''timezone'', JStr (au_timezone a)),
      (''session_mode'', JStr (au_session_mode a)), (''approval_mode'', JStr (au_approval_mode a)),
      (''project'', JObj (au_project a)), (''enabled'', JBool (au_enabled a)),
      (''operations_agent_id'', opt_str (au_agent_id a)),
      (''operations_agent_version'', case au_agent_version a of None \<Rightarrow> JNull | Some v \<Rightarrow> JInt v)]"

definition automation_run_input :: "auto_env \<Rightarrow> automation \<Rightarrow> int option \<Rightarrow> json dict" where
  "automation_run_input env a scheduled_for =
     [(''automation'', JObj (automation_snapshot a)), (''prompt'', JStr (au_prompt a)),
      (''scheduled_for'', case scheduled_for of None \<Rightarrow> JNull | Some t \<Rightarrow> JStr (av_iso env t))]"

definition find_agent :: "auto_db \<Rightarrow> automation \<Rightarrow> agent_identity option" where
  "find_agent db a =
     find (\<lambda>g. Some (og_id g) = au_agent_id a \<and> og_workspace_id g = au_workspace_id a) (ad_agents db)"

text \<open>The contract of the pinned version: its runtime, or why the automation cannot run it.\<close>

definition check_contract ::
  "auto_env \<Rightarrow> automation \<Rightarrow> agent_version \<Rightarrow> int option \<Rightarrow> bool \<Rightarrow> string + json"
where
  "check_contract env a version scheduled_for require_online =
     (case (av_binding env (ov_model_configuration version), av_contract env (ov_model_configuration version)) of
        (Inr (Some binding), Inr (Some contract)) \<Rightarrow>
          (case av_select_runtime env contract binding require_online of
             Inl msg \<Rightarrow> Inl msg
           | Inr execution_binding \<Rightarrow>
               (case av_validate env contract ''input_schema'' (automation_run_input env a scheduled_for) of
                  Some msg \<Rightarrow> Inl (''Automation payload is incompatible with bound AgentContractV2: '' @ msg)
                | None \<Rightarrow>
                    (case av_validate env contract ''state_schema'' [] of
                       Some msg \<Rightarrow> Inl (''Automation payload is incompatible with bound AgentContractV2: '' @ msg)
                     | None \<Rightarrow> Inr execution_binding)))
      | (Inr _, Inr _) \<Rightarrow> Inl ''Bound Operations Agent version requires contract and Runtime Binding''
      | _ \<Rightarrow> Inl ''Bound Operations Agent contract is invalid'')"

text \<open>The first thing wrong with the binding, as the message of an \<open>AutomationBindingError\<close>.\<close>

definition validate_automation_binding ::
  "auto_env \<Rightarrow> auto_db \<Rightarrow> automation \<Rightarrow> int option \<Rightarrow> bool \<Rightarrow>
   string + agent_identity \<times> agent_version \<times> agent_profile \<times> json"
where
  "validate_automation_binding env db a scheduled_for require_online =
     (if au_agent_id a = None \<or> au_agent_version a = None
      then Inl ''Automation requires a pinned Operations Agent version''
      else case find_agent db a of
          None \<Rightarrow> Inl ''Bound Operations Agent must belong to Automation Workspace''
        | Some agent \<Rightarrow>
            (if og_disabled agent then Inl ''Bound Operations Agent is disabled''
             else case find (\<lambda>v. ov_agent_id v = og_id agent \<and> Some (ov_version v) = au_agent_version a) (ad_versions db) of
                 None \<Rightarrow> Inl ''Bound Operations Agent version is not published''
               | Some version \<Rightarrow>
                   (case find (\<lambda>p. op_agent_id p = og_id agent \<and> op_version p = og_profile_version agent) (ad_profiles db) of
                      None \<Rightarrow> Inl ''Bound Operations Agent profile is missing''
                    | Some profile \<Rightarrow>
                        (if op_mode profile = ''low_risk_automatic''
                         then Inl ''Automation cannot bind a Low-Risk Automatic profile''
                         else if op_mode profile \<noteq> au_approval_mode a
                         then Inl ''Automation approval_mode must match the bound Operations Agent profile''
                         else case check_contract env a version scheduled_for require_online of
                             Inl msg \<Rightarrow> Inl msg
                           | Inr execution_binding \<Rightarrow> Inr (agent, version, profile, execution_binding)))))"

section \<open>Runs\<close>

definition occurrence_run :: "auto_db \<Rightarrow> string \<Rightarrow> int option \<Rightarrow> agent_run option" where
  "occurrence_run db aid scheduled_for =
     (if scheduled_for = None then None
      else find (\<lambda>r. rn_automation_id r = aid \<and> rn_scheduled_for r = scheduled_for) (ad_runs db))"

text \<open>
  Inserting a run under the unique index: the run that holds the occurrence already, or the new one.
\<close>

definition insert_run :: "auto_db \<Rightarrow> agent_run \<Rightarrow> (agent_run \<times> bool) \<times> auto_db" where
  "insert_run db run =
     (case occurrence_run db (rn_automation_id run) (rn_scheduled_for run) of
        Some existing \<Rightarrow> ((existing, False), db)
      | None \<Rightarrow>
          (let r = run\<lparr>rn_id := ad_next_id db\<rparr>
           in ((r, True), db\<lparr>ad_runs := ad_runs db @ [r], ad_next_id := ad_next_id db + 1\<rparr>)))"

definition base_run :: "auto_env \<Rightarrow> automation \<Rightarrow> string \<Rightarrow> int option \<Rightarrow> agent_run" where
  "base_run env a agent_id fire =
     \<lparr>rn_id = 0, rn_workspace_id = au_workspace_id a, rn_agent_id = agent_id, rn_published_version = 0,
      rn_profile_version = 0, rn_trigger_type = ''scheduled'',
      rn_trigger_reference = map_option (\<lambda>t. ''automation:'' @ au_id a @ '':'' @ av_stamp env t) fire,
      rn_automation_id = au_id a, rn_automation_revision = au_revision a, rn_snapshot = automation_snapshot a,
      rn_scheduled_for = fire, rn_timezone = au_timezone a, rn_input = automation_run_input env a fire,
      rn_binding = None, rn_error = None, rn_status = ''queued'', rn_started_by = au_created_by a\<rparr>"

definition create_bound_automation_run ::
  "auto_env \<Rightarrow> auto_db \<Rightarrow> automation \<Rightarrow> string \<Rightarrow> string \<Rightarrow> int option \<Rightarrow>
   string + (agent_run \<times> bool) \<times> auto_db"
where
  "create_bound_automation_run env db a trigger_type started_by scheduled_for =
     (case validate_automation_binding env db a scheduled_for (trigger_type = ''manual'') of
        Inl msg \<Rightarrow> Inl msg
      | Inr (agent, version, profile, execution_binding) \<Rightarrow>
          (let fire = map_option floor_minute scheduled_for;
               run = (base_run env a (og_id agent) fire)
                 \<lparr>rn_published_version := ov_version version, rn_profile_version := op_version profile,
                  rn_trigger_type := trigger_type, rn_binding := Some execution_binding, rn_started_by := started_by\<rparr>;
               ((r, created), db') = insert_run db run
           in Inr ((r, created),
                if created \<and> trigger_type = ''manual'' then db'\<lparr>ad_handed := ad_handed db' @ [rn_id r]\<rparr> else db')))"

definition create_failed_scheduled_run ::
  "auto_env \<Rightarrow> auto_db \<Rightarrow> automation \<Rightarrow> int \<Rightarrow> string \<Rightarrow> (agent_run option \<times> bool) \<times> auto_db"
where
  "create_failed_scheduled_run env db a scheduled_for error_message =
     (case (au_agent_version a, if au_agent_id a = None then None else find_agent db a) of
        (Some version, Some agent) \<Rightarrow>
          (let run = (base_run env a (og_id agent) (Some (floor_minute scheduled_for)))
                 \<lparr>rn_published_version := version, rn_profile_version := og_profile_version agent,
                  rn_error := Some (take 4000 error_message), rn_status := ''failed''\<rparr>;
               ((r, created), db') = insert_run db run
           in ((Some r, created), db'))
      | _ \<Rightarrow> ((None, False), db))"

definition claim_scheduled_automation_run ::
  "auto_env \<Rightarrow> auto_db \<Rightarrow> string \<Rightarrow> int \<Rightarrow> exn + (agent_run option \<times> bool) \<times> auto_db"
where
  "claim_scheduled_automation_run env db automation_id scheduled_for =
     (let fire = floor_minute scheduled_for
      in case find (\<lambda>a. au_id a = automation_id) (ad_automations db) of
           None \<Rightarrow> Inr ((None, False), db)
         | Some a \<Rightarrow>
             (if \<not> au_enabled a then Inr ((None, False), db)
              else case automation_fire_times (av_zones env) (au_schedule a) (au_timezone a)
                      (Aware (fire - 1000000)) (Aware fire) of
                  Inl e \<Rightarrow> Inl e
                | Inr fires \<Rightarrow>
                    (if fire \<notin> set fires then Inr ((None, False), db)
                     else case create_bound_automation_run env db a ''scheduled'' (au_created_by a) (Some fire) of
                         Inr ((run, created), db') \<Rightarrow> Inr ((Some run, created), db')
                       | Inl msg \<Rightarrow> Inr (create_failed_scheduled_run env db a fire msg))))"

section \<open>Dispatch\<close>

text \<open>The occurrences of one automation; a claim that raises ends the dispatch, earlier claims stand.\<close>

fun claim_all ::
  "auto_env \<Rightarrow> string \<Rightarrow> int list \<Rightarrow> auto_db \<Rightarrow> agent_run list \<Rightarrow> (exn + agent_run list) \<times> auto_db"
where
  "claim_all env aid [] db claimed = (Inr claimed, db)"
| "claim_all env aid (t # ts) db claimed =
     (case claim_scheduled_automation_run env db aid t of
        Inl e \<Rightarrow> (Inl e, db)
      | Inr ((run, created), db') \<Rightarrow>
          claim_all env aid ts db'
            (case run of Some r \<Rightarrow> if created then claimed @ [r] else claimed | None \<Rightarrow> claimed))"

fun dispatch_rows ::
  "auto_env \<Rightarrow> datetime \<Rightarrow> datetime \<Rightarrow> (string \<times> string \<times> string) list \<Rightarrow> auto_db \<Rightarrow> agent_run list \<Rightarrow>
   (exn + agent_run list) \<times> auto_db"
where
  "dispatch_rows env ws we [] db claimed = (Inr claimed, db)"
| "dispatch_rows env ws we ((aid, schedule, timezone_name) # rows) db claimed =
     (case automation_fire_times (av_zones env) schedule timezone_name ws we of
        Inl e \<Rightarrow> (Inl e, db)
      | Inr fires \<Rightarrow>
          (case claim_all env aid fires db claimed of
             (Inl e, db') \<Rightarrow> (Inl e, db')
           | (Inr claimed', db') \<Rightarrow> dispatch_rows env ws we rows db' claimed'))"

definition enabled_rows :: "auto_db \<Rightarrow> (string \<times> string \<times> string) list" where
  "enabled_rows db = map (\<lambda>a. (au_id a, au_schedule a, au_timezone a)) (filter au_enabled (ad_automations db))"

definition dispatch_due_automations ::
  "auto_env \<Rightarrow> datetime \<Rightarrow> datetime \<Rightarrow> auto_db \<Rightarrow> (exn + agent_run list) \<times> auto_db"
where
  "dispatch_due_automations env ws we db = dispatch_rows env ws we (enabled_rows db) db []"

end
