(* ===== verification/AutomationProps.thy ===== *)
theory AutomationProps
  imports AutomationRuns
begin

text \<open>
  The claims of automations: every occurrence has at most one run, whatever claims, manual starts and
  edits come in between, and a dispatch leaves nothing due behind that it could record.
\<close>

section \<open>One claim\<close>

definition same_tables :: "auto_db \<Rightarrow> auto_db \<Rightarrow> bool" where
  "same_tables db db' \<longleftrightarrow> ad_automations db' = ad_automations db \<and> ad_agents db' = ad_agents db \<and>
     ad_versions db' = ad_versions db \<and> ad_profiles db' = ad_profiles db"

lemma same_tables_trans: "same_tables a b \<Longrightarrow> same_tables b c \<Longrightarrow> same_tables a c"
  by (simp add: same_tables_def)

text \<open>An automation whose run can be recorded, if only as failed; an occurrence that has a run.\<close>

definition placeable :: "auto_db \<Rightarrow> automation \<Rightarrow> bool" where
  "placeable db a \<longleftrightarrow> au_agent_id a \<noteq> None \<and> au_agent_version a \<noteq> None \<and> find_agent db a \<noteq> None"

definition covered :: "auto_db \<Rightarrow> string \<Rightarrow> int \<Rightarrow> bool" where
  "covered db aid t \<longleftrightarrow> (\<exists>r \<in> set (ad_runs db). rn_automation_id r = aid \<and> rn_scheduled_for r = Some t)"

lemma occurrence_run_None: "occurrence_run db aid (Some t) = None \<longleftrightarrow> \<not> covered db aid t"
  by (auto simp: occurrence_run_def covered_def find_None_iff)

lemma insert_run_cases:
  assumes "insert_run db run = ((r, created), db')"
  shows "if created
    then ad_runs db' = ad_runs db @ [r] \<and> r = run\<lparr>rn_id := ad_next_id db\<rparr> \<and> ad_next_id db' = ad_next_id db + 1 \<and>
      ad_handed db' = ad_handed db \<and> occurrence_run db (rn_automation_id run) (rn_scheduled_for run) = None
    else db' = db \<and> occurrence_run db (rn_automation_id run) (rn_scheduled_for run) = Some r"
    and "same_tables db db'"
  using assms by (auto simp: insert_run_def same_tables_def Let_def split: option.splits)

lemma valid_binding_placeable:
  "validate_automation_binding env db a s online = Inr (agent, version, profile, b) \<Longrightarrow> placeable db a \<and> find_agent db a = Some agent"
  by (auto simp: validate_automation_binding_def placeable_def split: if_splits option.splits sum.splits)

text \<open>What a claim does, once the occurrence is known to be due.\<close>

definition place_occurrence :: "auto_env \<Rightarrow> auto_db \<Rightarrow> automation \<Rightarrow> int \<Rightarrow> (agent_run option \<times> bool) \<times> auto_db" where
  "place_occurrence env db a fire =
     (case create_bound_automation_run env db a ''scheduled'' (au_created_by a) (Some fire) of
        Inr ((run, created), db') \<Rightarrow> ((Some run, created), db')
      | Inl msg \<Rightarrow> create_failed_scheduled_run env db a fire msg)"

lemma base_run_fields [simp]:
  "rn_automation_id (base_run env a g fire) = au_id a" "rn_scheduled_for (base_run env a g fire) = fire"
  by (simp_all add: base_run_def)

lemma insert_occurrence:
  assumes "insert_run db run = ((r, created), db')" and "rn_automation_id run = aid" and "rn_scheduled_for run = Some fire"
  shows "same_tables db db' \<and> created = (\<not> covered db aid fire) \<and> covered db' aid fire \<and>
    (if created then ad_runs db' = ad_runs db @ [r] \<and> rn_automation_id r = aid \<and> rn_scheduled_for r = Some fire else db' = db)"
proof (cases created)
  case True
  with insert_run_cases[OF assms(1)] assms(2,3) show ?thesis
    by (auto simp: covered_def occurrence_run_None[unfolded covered_def])
next
  case False
  with insert_run_cases[OF assms(1)] assms(2,3) have "db' = db" "occurrence_run db aid (Some fire) = Some r" by simp_all
  with False insert_run_cases(2)[OF assms(1)] show ?thesis
    using occurrence_run_None[of db aid fire] by auto
qed

lemma place_occurrence_spec:
  assumes "place_occurrence env db a fire = ((r, created), db')" and "floor_minute fire = fire"
  shows "same_tables db db' \<and> created = (placeable db a \<and> \<not> covered db (au_id a) fire) \<and>
    (placeable db a \<longrightarrow> covered db' (au_id a) fire) \<and>
    (if created then \<exists>x. r = Some x \<and> ad_runs db' = ad_runs db @ [x] \<and> rn_automation_id x = au_id a \<and>
       rn_scheduled_for x = Some fire
     else db' = db)"
proof (cases "validate_automation_binding env db a (Some fire) False")
  case (Inr v)
  obtain agent version profile b where v: "v = (agent, version, profile, b)" by (cases v)
  then have place: "placeable db a" using valid_binding_placeable Inr by blast
  let ?run = "(base_run env a (og_id agent) (Some fire))
                 \<lparr>rn_published_version := ov_version version, rn_profile_version := op_version profile,
                  rn_trigger_type := ''scheduled'', rn_binding := Some b, rn_started_by := au_created_by a\<rparr>"
  obtain x c d where ins: "insert_run db ?run = ((x, c), d)" by (metis surj_pair)
  then have "(r, created) = (Some x, c)" "db' = d"
    using assms Inr v by (simp_all add: place_occurrence_def create_bound_automation_run_def Let_def)
  with insert_occurrence[OF ins, of "au_id a" fire] place show ?thesis by (auto split: if_splits)
next
  case (Inl msg)
  then have failed: "create_failed_scheduled_run env db a fire msg = ((r, created), db')"
    using assms(1) by (simp add: place_occurrence_def create_bound_automation_run_def)
  show ?thesis
  proof (cases "placeable db a")
    case False
    then show ?thesis using failed
      by (auto simp: create_failed_scheduled_run_def placeable_def same_tables_def split: option.splits if_splits)
  next
    case True
    then obtain version agent where pv: "au_agent_version a = Some version" "au_agent_id a \<noteq> None" "find_agent db a = Some agent"
      by (auto simp: placeable_def)
    let ?run = "(base_run env a (og_id agent) (Some fire))
                 \<lparr>rn_published_version := version, rn_profile_version := og_profile_version agent,
                  rn_error := Some (take 4000 msg), rn_status := ''failed''\<rparr>"
    obtain x c d where ins: "insert_run db ?run = ((x, c), d)" by (metis surj_pair)
    then have "(r, created) = (Some x, c)" "db' = d"
      using failed pv assms(2) by (auto simp: create_failed_scheduled_run_def Let_def)
    with insert_occurrence[OF ins, of "au_id a" fire] True show ?thesis by (auto split: if_splits)
  qed
qed

text \<open>A claim that returns either leaves everything as it is or places the occurrence.\<close>

lemma claim_cases:
  assumes "claim_scheduled_automation_run env db aid t = Inr ((r, created), db')"
  shows "(r = None \<and> \<not> created \<and> db' = db) \<or>
    (\<exists>a \<in> set (ad_automations db). au_id a = aid \<and> place_occurrence env db a (floor_minute t) = ((r, created), db'))"
  using assms
  by (auto simp: claim_scheduled_automation_run_def place_occurrence_def Let_def find_Some_iff
      split: option.splits if_splits sum.splits)

lemma floor_floor [simp]: "floor_minute (floor_minute t) = floor_minute t"
  using floor_minute_bounds(3)[of t] by (simp add: floor_minute_def[of "floor_minute t"])

section \<open>At most one run per occurrence\<close>

text \<open>
  Everything that happens to the tables: a claim of any automation for any time, a manual start, an
  edit of automations, agents, versions or profiles, and the life of a run after its creation.
\<close>

inductive auto_history :: "auto_env \<Rightarrow> auto_db \<Rightarrow> bool" for env :: auto_env where
  auto_start: "ad_runs db = [] \<Longrightarrow> auto_history env db"
| auto_claim: "auto_history env db \<Longrightarrow> claim_scheduled_automation_run env db aid t = Inr (res, db') \<Longrightarrow> auto_history env db'"
| auto_manual: "auto_history env db \<Longrightarrow> create_bound_automation_run env db a ''manual'' user None = Inr (res, db') \<Longrightarrow>
    auto_history env db'"
| auto_edit: "auto_history env db \<Longrightarrow>
    auto_history env (db\<lparr>ad_automations := as', ad_agents := gs, ad_versions := vs, ad_profiles := ps\<rparr>)"
| auto_progress: "auto_history env db \<Longrightarrow>
    auto_history env (db\<lparr>ad_runs := map (\<lambda>r. r\<lparr>rn_status := status r, rn_error := err r\<rparr>) (ad_runs db)\<rparr>)"

definition occurrence_of :: "agent_run \<Rightarrow> (string \<times> int) list" where
  "occurrence_of r = (case rn_scheduled_for r of None \<Rightarrow> [] | Some t \<Rightarrow> [(rn_automation_id r, t)])"

definition occurrences :: "auto_db \<Rightarrow> (string \<times> int) list" where
  "occurrences db = concat (map occurrence_of (ad_runs db))"

lemma occurrence_of_simps [simp]:
  "occurrence_of (r\<lparr>rn_status := s\<rparr>) = occurrence_of r" "occurrence_of (r\<lparr>rn_error := e\<rparr>) = occurrence_of r"
  "rn_scheduled_for r = None \<Longrightarrow> occurrence_of r = []"
  "rn_scheduled_for r = Some t \<Longrightarrow> occurrence_of r = [(rn_automation_id r, t)]"
  by (simp_all add: occurrence_of_def split: option.split)

lemma occurrences_mem: "(aid, t) \<in> set (occurrences db) \<longleftrightarrow> covered db aid t"
  by (force simp: occurrences_def occurrence_of_def covered_def split: option.splits)

lemma occurrences_same: "ad_runs db' = ad_runs db \<Longrightarrow> occurrences db' = occurrences db"
  by (simp add: occurrences_def)

definition claims_inv :: "auto_db \<Rightarrow> bool" where
  "claims_inv db \<longleftrightarrow> distinct (occurrences db) \<and> (\<forall>(aid, t) \<in> set (occurrences db). t mod MINUTE = 0)"

lemma claims_inv_place:
  assumes "claims_inv db" and "place_occurrence env db a (floor_minute t) = ((r, created), db')"
  shows "claims_inv db'"
proof (cases created)
  case False
  with place_occurrence_spec[OF assms(2)] assms(1) show ?thesis by simp
next
  case True
  with place_occurrence_spec[OF assms(2)] obtain x where x: "ad_runs db' = ad_runs db @ [x]" "rn_automation_id x = au_id a"
    "rn_scheduled_for x = Some (floor_minute t)" and new: "\<not> covered db (au_id a) (floor_minute t)" by auto
  then have "occurrences db' = occurrences db @ [(au_id a, floor_minute t)]" by (simp add: occurrences_def)
  with assms(1) new floor_minute_bounds(3)[of t] show ?thesis
    by (auto simp: claims_inv_def occurrences_mem)
qed

lemma manual_run:
  assumes "create_bound_automation_run env db a ''manual'' user None = Inr (res, db')"
  shows "occurrences db' = occurrences db"
proof -
  obtain agent version profile b where v: "validate_automation_binding env db a None True = Inr (agent, version, profile, b)"
    using assms by (auto simp: create_bound_automation_run_def split: sum.splits)
  let ?run = "(base_run env a (og_id agent) None)
                 \<lparr>rn_published_version := ov_version version, rn_profile_version := op_version profile,
                  rn_trigger_type := ''manual'', rn_binding := Some b, rn_started_by := user\<rparr>"
  obtain x c d where ins: "insert_run db ?run = ((x, c), d)" by (metis surj_pair)
  then have "ad_runs db' = ad_runs d"
    using assms v by (auto simp: create_bound_automation_run_def Let_def split: if_splits)
  moreover have "occurrences d = occurrences db"
    using insert_run_cases(1)[OF ins] by (cases c) (auto simp: occurrences_def occurrence_run_def)
  ultimately show ?thesis by (metis occurrences_same)
qed

text \<open>
  C20: However scheduled claims, repeated and late ones included, manual starts, edits and running
  agents interleave, an occurrence of an automation, its id with a minute, is claimed by at most one
  run, and every claimed occurrence is a whole UTC minute.
\<close>

theorem occurrence_claimed_once:
  assumes "auto_history env db"
  shows "distinct (occurrences db) \<and> (\<forall>(aid, t) \<in> set (occurrences db). t mod MINUTE = 0)"
  using assms unfolding claims_inv_def[symmetric]
proof (induction rule: auto_history.induct)
  case (auto_claim db aid t res db')
  obtain r created where res: "res = (r, created)" by fastforce
  from claim_cases[OF auto_claim(2)[unfolded res]] auto_claim(3) show ?case
    by (auto intro: claims_inv_place)
next
  case (auto_manual db a user res db')
  then show ?case by (simp add: claims_inv_def manual_run)
next
  case (auto_progress db status err)
  then show ?case by (simp add: claims_inv_def occurrences_def comp_def)
qed (simp_all add: claims_inv_def occurrences_def)

section \<open>Dispatch\<close>

lemma fire_at_itself:
  assumes "automation_fire_times zones schedule tz ws we = Inr fires" and "t \<in> set fires"
  shows "floor_minute t = t \<and>
    (\<exists>fs. automation_fire_times zones schedule tz (Aware (t - 1000000)) (Aware t) = Inr fs \<and> t \<in> set fs)"
proof -
  from assms obtain spec zone where ok: "tz_aware ws" "tz_aware we" "parse_automation_schedule schedule = Inr spec"
    "zones tz = Some zone"
    by (auto simp: automation_fire_times_def parse_automation_timezone_def split: if_splits sum.splits option.splits)
  from fires_in_window[where zones = zones and tz = tz, OF ok] assms have t: "t mod MINUTE = 0" "due spec zone t" by auto
  from fires_in_window[where zones = zones and tz = tz, OF _ _ ok(3,4), of "Aware (t - 1000000)" "Aware t"] t
  show ?thesis by (auto simp: floor_minute_def)
qed

lemma find_by_key: "distinct (map key xs) \<Longrightarrow> x \<in> set xs \<Longrightarrow> find (\<lambda>y. key y = key x) xs = Some x"
  by (induction xs) (auto simp: rev_image_eqI)

lemma claim_due:
  assumes ids: "distinct (map au_id (ad_automations db))" and a: "a \<in> set (ad_automations db)" "au_enabled a"
    and fires: "automation_fire_times (av_zones env) (au_schedule a) (au_timezone a) ws we = Inr fires" "t \<in> set fires"
  shows "claim_scheduled_automation_run env db (au_id a) t = Inr (place_occurrence env db a t)"
proof -
  have "find (\<lambda>x. au_id x = au_id a) (ad_automations db) = Some a"
    by (rule find_by_key[OF ids a(1)])
  with fire_at_itself[OF fires] a(2) show ?thesis
    by (auto simp: claim_scheduled_automation_run_def place_occurrence_def Let_def split: sum.splits)
qed

text \<open>Claims grow the runs by what they report as claimed, and cover what can be placed.\<close>

definition claims_to :: "auto_db \<Rightarrow> agent_run list \<Rightarrow> auto_db \<Rightarrow> bool" where
  "claims_to db new db' \<longleftrightarrow> same_tables db db' \<and> ad_runs db' = ad_runs db @ new"

lemma claims_to_trans: "claims_to a xs b \<Longrightarrow> claims_to b ys c \<Longrightarrow> claims_to a (xs @ ys) c"
  by (auto simp: claims_to_def intro: same_tables_trans)

lemma claims_to_covered: "claims_to db new db' \<Longrightarrow> covered db aid t \<Longrightarrow> covered db' aid t"
  by (auto simp: claims_to_def covered_def)

lemma same_tables_placeable: "same_tables db db' \<Longrightarrow> placeable db' a = placeable db a"
  by (simp add: same_tables_def placeable_def find_agent_def)

lemma claim_all_spec:
  assumes ids: "distinct (map au_id (ad_automations db))" and a: "a \<in> set (ad_automations db)" "au_enabled a"
    and fires: "automation_fire_times (av_zones env) (au_schedule a) (au_timezone a) ws we = Inr fires" "set ts \<subseteq> set fires"
  shows "\<exists>new db'. claim_all env (au_id a) ts db claimed = (Inr (claimed @ new), db') \<and> claims_to db new db' \<and>
    (placeable db a \<longrightarrow> (\<forall>t \<in> set ts. covered db' (au_id a) t)) \<and>
    ((\<forall>t \<in> set ts. placeable db a \<longrightarrow> covered db (au_id a) t) \<longrightarrow> new = [] \<and> db' = db)"
  using ids a fires(2)
proof (induction ts arbitrary: db claimed)
  case Nil
  then show ?case by (simp add: claims_to_def same_tables_def)
next
  case (Cons t ts)
  then have t: "t \<in> set fires" by simp
  obtain r c db1 where place: "place_occurrence env db a t = ((r, c), db1)" by (metis surj_pair)
  note spec = place_occurrence_spec[OF place conjunct1[OF fire_at_itself[OF fires(1) t]]]
  have claim: "claim_scheduled_automation_run env db (au_id a) t = Inr ((r, c), db1)"
    using claim_due[OF Cons.prems(1-3) fires(1) t] place by simp
  define new1 where "new1 = (if c then [the r] else [])"
  have to1: "claims_to db new1 db1" using spec by (auto simp: new1_def claims_to_def split: if_splits)
  then have same: "same_tables db db1" by (simp add: claims_to_def)
  then have "distinct (map au_id (ad_automations db1))" "a \<in> set (ad_automations db1)"
    using Cons.prems by (simp_all add: same_tables_def)
  from Cons.IH[OF this Cons.prems(3), of "claimed @ new1"] Cons.prems(4) obtain new2 db'
    where rest: "claim_all env (au_id a) ts db1 (claimed @ new1) = (Inr ((claimed @ new1) @ new2), db')"
      and to2: "claims_to db1 new2 db'" and cov: "placeable db1 a \<longrightarrow> (\<forall>t \<in> set ts. covered db' (au_id a) t)"
      and idle: "(\<forall>t \<in> set ts. placeable db1 a \<longrightarrow> covered db1 (au_id a) t) \<longrightarrow> new2 = [] \<and> db' = db1"
    by auto
  have "claim_all env (au_id a) (t # ts) db claimed = (Inr (claimed @ new1 @ new2), db')"
    using claim rest spec by (auto simp: new1_def split: if_splits option.splits)
  moreover have "claims_to db (new1 @ new2) db'" by (rule claims_to_trans[OF to1 to2])
  moreover have "placeable db a \<longrightarrow> (\<forall>t \<in> set (t # ts). covered db' (au_id a) t)"
    using spec cov same_tables_placeable[OF same] claims_to_covered[OF to2] by auto
  moreover have "(\<forall>t \<in> set (t # ts). placeable db a \<longrightarrow> covered db (au_id a) t) \<longrightarrow> new1 @ new2 = [] \<and> db' = db"
    using spec idle same_tables_placeable[OF same] by (auto simp: new1_def)
  ultimately show ?case by blast
qed

lemma dispatch_rows_spec:
  assumes "distinct (map au_id (ad_automations db))" and "set as \<subseteq> {a \<in> set (ad_automations db). au_enabled a}"
    and "\<forall>a \<in> set as. automation_fire_times (av_zones env) (au_schedule a) (au_timezone a) ws we = Inr (fires a)"
  shows "\<exists>new db'. dispatch_rows env ws we (map (\<lambda>a. (au_id a, au_schedule a, au_timezone a)) as) db claimed =
      (Inr (claimed @ new), db') \<and> claims_to db new db' \<and>
    (\<forall>a \<in> set as. placeable db a \<longrightarrow> (\<forall>t \<in> set (fires a). covered db' (au_id a) t)) \<and>
    ((\<forall>a \<in> set as. \<forall>t \<in> set (fires a). placeable db a \<longrightarrow> covered db (au_id a) t) \<longrightarrow> new = [] \<and> db' = db)"
  using assms
proof (induction as arbitrary: db claimed)
  case Nil
  then show ?case by (simp add: claims_to_def same_tables_def)
next
  case (Cons a as)
  then have f: "automation_fire_times (av_zones env) (au_schedule a) (au_timezone a) ws we = Inr (fires a)"
    and a: "a \<in> set (ad_automations db)" "au_enabled a" by auto
  obtain new1 db1 where one: "claim_all env (au_id a) (fires a) db claimed = (Inr (claimed @ new1), db1)" "claims_to db new1 db1"
    "placeable db a \<longrightarrow> (\<forall>t \<in> set (fires a). covered db1 (au_id a) t)"
    "(\<forall>t \<in> set (fires a). placeable db a \<longrightarrow> covered db (au_id a) t) \<longrightarrow> new1 = [] \<and> db1 = db"
    using claim_all_spec[OF Cons.prems(1) a f subset_refl] by metis
  then have same: "same_tables db db1" by (simp add: claims_to_def)
  then have "distinct (map au_id (ad_automations db1))" "set as \<subseteq> {a \<in> set (ad_automations db1). au_enabled a}"
    using Cons.prems by (auto simp: same_tables_def)
  from Cons.IH[OF this, of "claimed @ new1"] Cons.prems(3) obtain new2 db'
    where two: "dispatch_rows env ws we (map (\<lambda>a. (au_id a, au_schedule a, au_timezone a)) as) db1 (claimed @ new1) =
        (Inr ((claimed @ new1) @ new2), db')" "claims_to db1 new2 db'"
      "\<forall>a \<in> set as. placeable db1 a \<longrightarrow> (\<forall>t \<in> set (fires a). covered db' (au_id a) t)"
      "(\<forall>a \<in> set as. \<forall>t \<in> set (fires a). placeable db1 a \<longrightarrow> covered db1 (au_id a) t) \<longrightarrow> new2 = [] \<and> db' = db1"
    by auto
  have "dispatch_rows env ws we (map (\<lambda>a. (au_id a, au_schedule a, au_timezone a)) (a # as)) db claimed =
      (Inr (claimed @ new1 @ new2), db')" using f one(1) two(1) by simp
  moreover have "claims_to db (new1 @ new2) db'" by (rule claims_to_trans[OF one(2) two(2)])
  moreover have "\<forall>a \<in> set (a # as). placeable db a \<longrightarrow> (\<forall>t \<in> set (fires a). covered db' (au_id a) t)"
    using one(3) two(3) same_tables_placeable[OF same] claims_to_covered[OF two(2)] by auto
  moreover have "(\<forall>a \<in> set (a # as). \<forall>t \<in> set (fires a). placeable db a \<longrightarrow> covered db (au_id a) t) \<longrightarrow>
      new1 @ new2 = [] \<and> db' = db"
    using one(4) two(4) same_tables_placeable[OF same] by auto
  ultimately show ?case by blast
qed

text \<open>
  C30: A dispatch over a window, when the schedules and zones of the enabled automations parse,
  claims: it appends the runs it reports and nothing else, afterwards every due occurrence of an
  enabled automation whose agent exists has a run, and dispatching the window again claims nothing.
\<close>

theorem dispatch_claims_due:
  assumes "distinct (map au_id (ad_automations db))"
    and "\<forall>a \<in> set (ad_automations db). au_enabled a \<longrightarrow>
      automation_fire_times (av_zones env) (au_schedule a) (au_timezone a) ws we = Inr (fires a)"
  shows "\<exists>new db'. dispatch_due_automations env ws we db = (Inr new, db') \<and> ad_runs db' = ad_runs db @ new \<and>
    (\<forall>a \<in> set (ad_automations db). au_enabled a \<longrightarrow> au_agent_id a \<noteq> None \<longrightarrow> au_agent_version a \<noteq> None \<longrightarrow>
       find_agent db a \<noteq> None \<longrightarrow>
       (\<forall>t \<in> set (fires a). \<exists>r \<in> set (ad_runs db'). rn_automation_id r = au_id a \<and> rn_scheduled_for r = Some t)) \<and>
    dispatch_due_automations env ws we db' = (Inr [], db')"
proof -
  let ?as = "filter au_enabled (ad_automations db)"
  have fires: "\<forall>a \<in> set ?as. automation_fire_times (av_zones env) (au_schedule a) (au_timezone a) ws we = Inr (fires a)"
    using assms(2) by simp
  obtain new db' where one: "dispatch_due_automations env ws we db = (Inr new, db')" "claims_to db new db'"
    "\<forall>a \<in> set ?as. placeable db a \<longrightarrow> (\<forall>t \<in> set (fires a). covered db' (au_id a) t)"
    using dispatch_rows_spec[OF assms(1) _ fires, of "[]"] by (auto simp: dispatch_due_automations_def enabled_rows_def)
  then have same: "same_tables db db'" by (simp add: claims_to_def)
  then have tables: "ad_automations db' = ad_automations db" by (simp add: same_tables_def)
  have "\<forall>a \<in> set ?as. \<forall>t \<in> set (fires a). placeable db' a \<longrightarrow> covered db' (au_id a) t"
    using one(3) same_tables_placeable[OF same] by blast
  then have "dispatch_due_automations env ws we db' = (Inr [], db')"
    using dispatch_rows_spec[of db' ?as env ws we fires "[]"] assms(1) fires
    by (auto simp: dispatch_due_automations_def enabled_rows_def tables)
  with one show ?thesis by (auto simp: claims_to_def placeable_def covered_def)
qed

section \<open>Examples\<close>

definition demo_automation :: "string \<Rightarrow> string \<Rightarrow> automation" where
  "demo_automation aid schedule = \<lparr>au_id = aid, au_workspace_id = ''w'', au_revision = 1, au_name = ''n'', au_prompt = ''p'',
     au_precheck = None, au_executor = ''x'', au_schedule = schedule, au_timezone = ''UTC'', au_session_mode = ''fresh'',
     au_approval_mode = ''suggest_changes'', au_project = [], au_enabled = True, au_agent_id = Some ''g'',
     au_agent_version = Some 1, au_created_by = ''u''\<rparr>"

definition demo_auto_env :: auto_env where
  "demo_auto_env = \<lparr>av_zones = demo_zones, av_iso = (\<lambda>t. []), av_stamp = (\<lambda>t. []), av_binding = (\<lambda>d. Inr (Some JNull)),
     av_contract = (\<lambda>d. Inr (Some JNull)), av_select_runtime = (\<lambda>c b online. Inr JNull), av_validate = (\<lambda>c k d. None)\<rparr>"

definition demo_auto_db :: "automation list \<Rightarrow> auto_db" where
  "demo_auto_db as = \<lparr>ad_automations = as,
     ad_agents = [\<lparr>og_id = ''g'', og_workspace_id = ''w'', og_disabled = False, og_profile_version = 1\<rparr>],
     ad_versions = [\<lparr>ov_agent_id = ''g'', ov_version = 1, ov_model_configuration = []\<rparr>],
     ad_profiles = [\<lparr>op_agent_id = ''g'', op_version = 1, op_mode = ''suggest_changes''\<rparr>],
     ad_runs = [], ad_next_id = 0, ad_handed = []\<rparr>"

lemma demo_parse: "parse_automation_schedule ''daily@00:02'' = Inr \<lparr>as_kind = ''daily'', as_hour = Some 0, as_minute = 2\<rparr>"
  by code_simp

lemma demo_fires:
  "automation_fire_times demo_zones ''daily@00:02'' ''UTC'' (Aware 0) (Aware (5 * MINUTE)) = Inr [2 * MINUTE]"
proof -
  have zone: "demo_zones ''UTC'' = Some utc_zone" by (simp add: demo_zones_def)
  from fires_in_window[where zones = demo_zones and tz = "''UTC''", OF _ _ demo_parse zone, of "Aware 0" "Aware (5 * MINUTE)"]
  obtain fires where fires: "automation_fire_times demo_zones ''daily@00:02'' ''UTC'' (Aware 0) (Aware (5 * MINUTE)) = Inr fires"
    "sorted_wrt (<) fires" "set fires = {t. 0 < t \<and> t \<le> 5 * MINUTE \<and> t mod MINUTE = 0 \<and>
       due \<lparr>as_kind = ''daily'', as_hour = Some 0, as_minute = 2\<rparr> utc_zone t}" by auto
  have "t = 2 * MINUTE" if t: "0 < t" "t \<le> 5 * MINUTE" "t mod MINUTE = 0" "nat (t div MINUTE mod 60) = 2" for t
  proof -
    obtain k where "t = MINUTE * k" using t(3) by (meson mod_0_imp_dvd dvdE)
    with t show ?thesis by (simp add: MINUTE_def)
  qed
  then have "set fires = {2 * MINUTE}"
    unfolding fires(3) by (auto simp: due_def matches_time_def matches_day_def utc_zone_def MINUTE_def)
  with fires(2) have "fires = [2 * MINUTE]"
    using sorted_distinct_set_unique[of fires "[2 * MINUTE]"] by (simp add: strict_sorted_iff)
  with fires(1) show ?thesis by simp
qed

theorem dispatch_claims_due_witness:
  "\<exists>new db'. dispatch_due_automations demo_auto_env (Aware 0) (Aware (5 * MINUTE))
      (demo_auto_db [demo_automation ''a'' ''daily@00:02'']) = (Inr new, db') \<and>
    ad_runs db' = new \<and> covered db' ''a'' (2 * MINUTE) \<and>
    dispatch_due_automations demo_auto_env (Aware 0) (Aware (5 * MINUTE)) db' = (Inr [], db')"
proof -
  define db where db: "db = demo_auto_db [demo_automation ''a'' ''daily@00:02'']"
  have find: "find_agent db (demo_automation ''a'' ''daily@00:02'') \<noteq> None"
    by (simp add: db find_agent_def demo_auto_db_def demo_automation_def)
  have "ad_automations db = [demo_automation ''a'' ''daily@00:02'']" "ad_runs db = []"
    by (simp_all add: db demo_auto_db_def)
  moreover have "au_id (demo_automation ''a'' s) = ''a''" "au_enabled (demo_automation ''a'' s)" "au_schedule (demo_automation ''a'' s) = s"
    "au_timezone (demo_automation ''a'' s) = ''UTC''" "au_agent_id (demo_automation ''a'' s) \<noteq> None"
    "au_agent_version (demo_automation ''a'' s) \<noteq> None" for s
    by (simp_all add: demo_automation_def)
  moreover have "av_zones demo_auto_env = demo_zones" by (simp add: demo_auto_env_def)
  ultimately show ?thesis
    using dispatch_claims_due[of db demo_auto_env "Aware 0" "Aware (5 * MINUTE)" "\<lambda>a. [2 * MINUTE]"] demo_fires find
    unfolding db[symmetric] by (auto simp: covered_def)
qed

lemma claim_of_minute:
  "claim_scheduled_automation_run env db aid (floor_minute t) = claim_scheduled_automation_run env db aid t"
  by (simp add: claim_scheduled_automation_run_def Let_def)

abbreviation "daily_a \<equiv> demo_automation ''a'' ''daily@00:02''"

text \<open>A claim of the occurrence at two past midnight, at any moment of that minute.\<close>

lemma demo_claim:
  assumes "ad_automations db = [daily_a]" and "floor_minute t = 2 * MINUTE"
  shows "claim_scheduled_automation_run demo_auto_env db ''a'' t = Inr (place_occurrence demo_auto_env db daily_a (2 * MINUTE))"
proof -
  have fields: "au_id daily_a = ''a''" "au_enabled daily_a" "au_schedule daily_a = ''daily@00:02''"
      "au_timezone daily_a = ''UTC''" "av_zones demo_auto_env = demo_zones"
    by (simp_all add: demo_automation_def demo_auto_env_def)
  then have "claim_scheduled_automation_run demo_auto_env db (au_id daily_a) (2 * MINUTE) =
      Inr (place_occurrence demo_auto_env db daily_a (2 * MINUTE))"
    using demo_fires by (intro claim_due[where fires = "[2 * MINUTE]"]) (simp_all add: assms(1))
  then show ?thesis using claim_of_minute[of demo_auto_env db "''a''" t] by (simp add: fields assms(2))
qed

lemma demo_manual:
  assumes "same_tables (demo_auto_db [daily_a]) db"
  shows "\<exists>m db'. create_bound_automation_run demo_auto_env db daily_a ''manual'' ''u'' None = Inr ((m, True), db') \<and>
    ad_runs db' = ad_runs db @ [m] \<and> rn_scheduled_for m = None"
  using assms
  by (simp add: create_bound_automation_run_def validate_automation_binding_def find_agent_def check_contract_def
      same_tables_def demo_auto_db_def demo_automation_def demo_auto_env_def insert_run_def occurrence_run_def
      base_run_def Let_def)

text \<open>
  A late claim records the occurrence, a second claim finds it, a manual start adds a run of no
  occurrence, and a third claim while the runs are under way finds it still.
\<close>

theorem occurrence_claimed_once_witness:
  "\<exists>r db1 r' m db2 db3 r''. claim_scheduled_automation_run demo_auto_env (demo_auto_db [daily_a]) ''a'' (2 * MINUTE + 30000000) =
      Inr ((Some r, True), db1) \<and>
    claim_scheduled_automation_run demo_auto_env db1 ''a'' (2 * MINUTE) = Inr ((r', False), db1) \<and>
    create_bound_automation_run demo_auto_env db1 daily_a ''manual'' ''u'' None = Inr ((m, True), db2) \<and>
    db3 = db2\<lparr>ad_runs := map (\<lambda>x. x\<lparr>rn_status := ''running'', rn_error := None\<rparr>) (ad_runs db2)\<rparr> \<and>
    claim_scheduled_automation_run demo_auto_env db3 ''a'' (2 * MINUTE + 59000000) = Inr ((r'', False), db3) \<and>
    auto_history demo_auto_env db3 \<and> length (ad_runs db3) = 2 \<and> occurrences db3 = [(''a'', 2 * MINUTE)] \<and>
    distinct (occurrences db3) \<and> (\<forall>(aid, t) \<in> set (occurrences db3). t mod MINUTE = 0)"
proof -
  let ?env = demo_auto_env and ?db = "demo_auto_db [daily_a]"
  have fire: "floor_minute (2 * MINUTE) = 2 * MINUTE" "floor_minute (2 * MINUTE + 30000000) = 2 * MINUTE"
    "floor_minute (2 * MINUTE + 59000000) = 2 * MINUTE"
    by (simp_all add: floor_minute_def MINUTE_def)
  have tables: "ad_automations ?db = [daily_a]" "ad_runs ?db = []" "au_id daily_a = ''a''" "placeable ?db daily_a"
    by (simp_all add: demo_auto_db_def demo_automation_def placeable_def find_agent_def)
  obtain o1 c1 db1 where p1: "place_occurrence ?env ?db daily_a (2 * MINUTE) = ((o1, c1), db1)" by (metis surj_pair)
  from place_occurrence_spec[OF p1 fire(1)] tables obtain r where
    one: "o1 = Some r" "c1" "ad_runs db1 = [r]" "rn_automation_id r = ''a''" "rn_scheduled_for r = Some (2 * MINUTE)"
      "same_tables ?db db1"
    by (auto simp: covered_def)
  have claim1: "claim_scheduled_automation_run ?env ?db ''a'' (2 * MINUTE + 30000000) = Inr ((Some r, True), db1)"
    using demo_claim[OF tables(1) fire(2)] p1 one by simp
  have again: "\<exists>o'. claim_scheduled_automation_run ?env db ''a'' t = Inr ((o', False), db)"
    if "same_tables ?db db" "covered db ''a'' (2 * MINUTE)" "floor_minute t = 2 * MINUTE" for db t
  proof -
    obtain o' c' db' where p: "place_occurrence ?env db daily_a (2 * MINUTE) = ((o', c'), db')" by (metis surj_pair)
    have autos: "ad_automations db = [daily_a]" using that(1) tables(1) by (simp add: same_tables_def)
    from place_occurrence_spec[OF p fire(1)] that tables(3) have "\<not> c'" "db' = db" by auto
    then show ?thesis using demo_claim[OF autos that(3)] p by auto
  qed
  have cov1: "covered db1 ''a'' (2 * MINUTE)" using one by (auto simp: covered_def)
  from again[OF one(6) cov1 fire(1)] obtain r' where
    claim2: "claim_scheduled_automation_run ?env db1 ''a'' (2 * MINUTE) = Inr ((r', False), db1)" by blast
  from demo_manual[OF one(6)] one obtain m db2 where
    manual: "create_bound_automation_run ?env db1 daily_a ''manual'' ''u'' None = Inr ((m, True), db2)"
      "ad_runs db2 = [r, m]" "rn_scheduled_for m = None" by auto
  define db3 where db3: "db3 = db2\<lparr>ad_runs := map (\<lambda>x. x\<lparr>rn_status := ''running'', rn_error := None\<rparr>) (ad_runs db2)\<rparr>"
  have "same_tables ?db db2"
    using manual one(6)
    by (auto simp: create_bound_automation_run_def insert_run_def same_tables_def Let_def split: sum.splits option.splits if_splits)
  then have same: "same_tables ?db db3" by (simp add: same_tables_def db3)
  have occ: "occurrences db3 = [(''a'', 2 * MINUTE)]" "length (ad_runs db3) = 2"
    using manual one by (simp_all add: db3 occurrences_def occurrence_of_def)
  then have "covered db3 ''a'' (2 * MINUTE)" using occurrences_mem[of "''a''" "2 * MINUTE" db3] by simp
  from again[OF same this fire(3)] obtain r'' where
    claim3: "claim_scheduled_automation_run ?env db3 ''a'' (2 * MINUTE + 59000000) = Inr ((r'', False), db3)" by blast
  have "auto_history ?env db1" by (rule auto_claim[OF auto_start claim1]) (rule tables)
  then have "auto_history ?env db3" unfolding db3 by (intro auto_progress auto_manual[OF _ manual(1)])
  then have hist: "auto_history ?env db3" by (rule auto_claim) (rule claim3)
  from claim1 claim2 manual(1) db3 claim3 occ hist occurrence_claimed_once[OF hist] show ?thesis by blast
qed

text \<open>
  A row whose schedule does not parse ends the dispatch: the automations after it are not looked at,
  and the scheduler, which logs the exception, moves its watermark past the window.
\<close>

lemma bad_schedule_starves:
  "dispatch_due_automations demo_auto_env (Aware 0) (Aware (5 * MINUTE))
      (demo_auto_db [demo_automation ''bad'' ''monthly'', demo_automation ''a'' ''daily@00:02'']) =
    (Inl (Exn ''ValueError''), demo_auto_db [demo_automation ''bad'' ''monthly'', demo_automation ''a'' ''daily@00:02''])"
proof -
  have "parse_automation_schedule ''monthly'' = Inl (Exn ''ValueError'')" by code_simp
  then have "automation_fire_times demo_zones ''monthly'' ''UTC'' (Aware 0) (Aware (5 * MINUTE)) = Inl (Exn ''ValueError'')"
    by (simp add: automation_fire_times_def MINUTE_def)
  then show ?thesis
    by (simp add: dispatch_due_automations_def enabled_rows_def demo_auto_db_def demo_automation_def demo_auto_env_def)
qed

end
