(* ===== verification/LocalScheduler.thy ===== *)
theory LocalScheduler
  imports AutomationProps ControlState
begin

text \<open>
  The local scheduler (\<open>backend/scheduler.py\<close>), the executor it dispatches to in one process
  (\<open>backend/executor/local.py\<close>) and the recovery of queued agent runs
  (\<open>backend/services/scheduled_run_recovery.py\<close>). The cron library is a parameter: whether it
  reads an expression, and the next fire time after an instant, which it may fail to find. The parameters
  of a schedule are passed on unread and left out; the sleep between two ticks is not modelled.
\<close>

section \<open>Schedules\<close>

definition source_dispatchable :: "control_db \<Rightarrow> cron_schedule \<Rightarrow> bool" where
  "source_dispatchable db c \<longleftrightarrow>
     list_ex (\<lambda>s. ds_id s = cs_source_id c \<and> ds_enabled s \<and> \<not> ds_review_required s) (db_sources db)"

definition get_enabled_schedules :: "control_db \<Rightarrow> cron_schedule list" where
  "get_enabled_schedules db = filter (\<lambda>c. cs_enabled c \<and> source_dispatchable db c) (db_schedules db)"

record 'x scheduler_env =
  se_parses :: "string \<Rightarrow> bool"
  se_next :: "string \<Rightarrow> int \<Rightarrow> exn + int"
  se_dispatch :: "string \<Rightarrow> string \<Rightarrow> 'x \<Rightarrow> exn option \<times> 'x"
  se_auto :: auto_env

text \<open>The loop over fire times; it has no bound of its own.\<close>

partial_function (option) count_fires ::
  "(string \<Rightarrow> int \<Rightarrow> exn + int) \<Rightarrow> string \<Rightarrow> int \<Rightarrow> int \<Rightarrow> nat \<Rightarrow> (exn + nat) option"
where
  "count_fires next_fire expr cur window_end n =
     (case next_fire expr cur of
        Inl e \<Rightarrow> Some (Inl e)
      | Inr t \<Rightarrow> (if t > window_end then Some (Inr n) else count_fires next_fire expr t window_end (n + 1)))"

text \<open>\<open>sd_warned\<close>: the pairs of schedule and expression warned about so far.\<close>

definition fires_of_schedule ::
  "'x scheduler_env \<Rightarrow> cron_schedule \<Rightarrow> int \<Rightarrow> int \<Rightarrow> (string \<times> string) list \<Rightarrow>
   ((exn + nat) \<times> (string \<times> string) list) option"
where
  "fires_of_schedule env c window_start window_end warned =
     (if \<not> se_parses env (cs_cron_expression c)
      then Some (Inr 0, List.insert (cs_id c, cs_cron_expression c) warned)
      else map_option (\<lambda>r. (r, warned)) (count_fires (se_next env) (cs_cron_expression c) window_start window_end 0))"

section \<open>A tick\<close>

text \<open>The state of the loop; \<open>sd_requests\<close> lists what was asked of the executor, with the tick.\<close>

record 'x scheduler =
  sd_last_tick :: "int option"
  sd_warned :: "(string \<times> string) list"
  sd_exec :: 'x
  sd_auto :: auto_db
  sd_requests :: "(int \<times> string) list"

fun fire_schedules ::
  "'x scheduler_env \<Rightarrow> int \<Rightarrow> int \<Rightarrow> cron_schedule list \<Rightarrow> 'x scheduler \<Rightarrow> (exn option \<times> 'x scheduler) option"
where
  "fire_schedules env last_tick now [] st = Some (None, st)"
| "fire_schedules env last_tick now (c # cs) st =
     (case fires_of_schedule env c last_tick now (sd_warned st) of
        None \<Rightarrow> None
      | Some (Inl e, warned) \<Rightarrow> Some (Some e, st\<lparr>sd_warned := warned\<rparr>)
      | Some (Inr fire_count, warned) \<Rightarrow>
          (if fire_count = 0 then fire_schedules env last_tick now cs (st\<lparr>sd_warned := warned\<rparr>)
           else fire_schedules env last_tick now cs
             (st\<lparr>sd_warned := warned, sd_exec := snd (se_dispatch env (cs_id c) (cs_source_id c) (sd_exec st)),
                sd_requests := sd_requests st @ [(now, cs_id c)]\<rparr>)))"

definition list_queued_scheduled_run_ids :: "auto_db \<Rightarrow> nat \<Rightarrow> nat list" where
  "list_queued_scheduled_run_ids db limit =
     take limit (map rn_id (filter (\<lambda>r. rn_trigger_type r = ''scheduled'' \<and> rn_status r = ''queued'') (ad_runs db)))"

definition recover_queued_scheduled_runs_local :: "auto_db \<Rightarrow> auto_db" where
  "recover_queued_scheduled_runs_local db =
     db\<lparr>ad_handed := ad_handed db @ list_queued_scheduled_run_ids db 200\<rparr>"

definition recover_operations_agent_runs_on_startup :: "auto_db \<Rightarrow> auto_db" where
  "recover_operations_agent_runs_on_startup db =
     db\<lparr>ad_runs := map (\<lambda>r.
       if rn_status r = ''running'' \<or> rn_status r = ''queued'' \<and> rn_trigger_type r \<noteq> ''scheduled''
       then r\<lparr>rn_status := ''failed'', rn_error := Some ''Operations Agent run interrupted by server restart''\<rparr>
       else r) (ad_runs db)\<rparr>"

text \<open>
  One pass of the loop at the instant \<open>now\<close>. What a fire time raises ends the pass before the watermark
  moves; what automations raise does not.
\<close>

definition scheduler_tick ::
  "'x scheduler_env \<Rightarrow> int \<Rightarrow> control_db \<Rightarrow> 'x scheduler \<Rightarrow> 'x scheduler option"
where
  "scheduler_tick env now db st =
     (case sd_last_tick st of
        None \<Rightarrow> Some (st\<lparr>sd_last_tick := Some now\<rparr>)
      | Some last_tick \<Rightarrow>
          (case fire_schedules env last_tick now (get_enabled_schedules db) st of
             None \<Rightarrow> None
           | Some (Some e, st') \<Rightarrow> Some st'
           | Some (None, st') \<Rightarrow>
               (let auto = snd (dispatch_due_automations (se_auto env) (Aware last_tick) (Aware now) (sd_auto st'))
                in Some (st'\<lparr>sd_auto := recover_queued_scheduled_runs_local auto, sd_last_tick := Some now\<rparr>))))"

text \<open>
  The passes of a process. Between two of them the tables change as they may: every pass comes with the
  control tables it finds and with what happened to the automations since the last one.
\<close>

type_synonym tick_input = "int \<times> control_db \<times> (auto_db \<Rightarrow> auto_db)"

fun scheduler_ticks :: "'x scheduler_env \<Rightarrow> tick_input list \<Rightarrow> 'x scheduler \<Rightarrow> 'x scheduler option" where
  "scheduler_ticks env [] st = Some st"
| "scheduler_ticks env ((now, db, change) # ticks) st =
     (case scheduler_tick env now db (st\<lparr>sd_auto := change (sd_auto st)\<rparr>) of
        None \<Rightarrow> None
      | Some st' \<Rightarrow> scheduler_ticks env ticks st')"

definition start_scheduler :: "'x \<Rightarrow> auto_db \<Rightarrow> 'x scheduler" where
  "start_scheduler x db = \<lparr>sd_last_tick = None, sd_warned = [], sd_exec = x, sd_auto = db, sd_requests = []\<rparr>"

section \<open>The executor of one process\<close>

text \<open>
  Background tasks by key, as the code keeps them for collections and for scheduled collections; the
  list of all tasks started shows which requests were skipped.
\<close>

record local_executor =
  lx_inflight :: "string list"
  lx_started :: "(string \<times> string) list"

definition dispatch_scheduled_collection ::
  "string \<Rightarrow> string \<Rightarrow> local_executor \<Rightarrow> exn option \<times> local_executor"
where
  "dispatch_scheduled_collection schedule_id source_id x =
     (if List.member (lx_inflight x) schedule_id then (None, x)
      else (None, \<lparr>lx_inflight = lx_inflight x @ [schedule_id], lx_started = lx_started x @ [(schedule_id, source_id)]\<rparr>))"

text \<open>The callback of a task that has come to its end.\<close>

definition task_done :: "string \<Rightarrow> local_executor \<Rightarrow> local_executor" where
  "task_done schedule_id x = x\<lparr>lx_inflight := filter (\<lambda>k. k \<noteq> schedule_id) (lx_inflight x)\<rparr>"

section \<open>Counting fire times\<close>

text \<open>What the cron library promises of an expression it can enumerate: the next fire time in \<open>F\<close>.\<close>

definition enumerates :: "(int \<Rightarrow> exn + int) \<Rightarrow> int set \<Rightarrow> bool" where
  "enumerates next_fire F \<longleftrightarrow>
     (\<forall>cur. \<exists>t \<in> F. next_fire cur = Inr t \<and> cur < t \<and> (\<forall>s \<in> F. cur < s \<longrightarrow> t \<le> s))"

lemma count_fires_enumerates:
  assumes "enumerates (next_fire expr) F"
  shows "count_fires next_fire expr cur we n = Some (Inr (n + card {f \<in> F. cur < f \<and> f \<le> we}))"
proof (induction "nat (we - cur)" arbitrary: cur n rule: less_induct)
  case less
  obtain t where t: "t \<in> F" "next_fire expr cur = Inr t" "cur < t" and least: "\<forall>s \<in> F. cur < s \<longrightarrow> t \<le> s"
    using assms unfolding enumerates_def by blast
  show ?case
  proof (cases "t > we")
    case True
    then have none: "{f \<in> F. cur < f \<and> f \<le> we} = {}" using least by force
    show ?thesis unfolding none using True t by (subst count_fires.simps) simp
  next
    case False
    have fin: "finite {f \<in> F. t < f \<and> f \<le> we}"
      by (rule finite_subset[of _ "{t..we}"]) auto
    have split_first: "{f \<in> F. cur < f \<and> f \<le> we} = insert t {f \<in> F. t < f \<and> f \<le> we}"
      using t(1,3) least False by (auto simp: le_less)
    have "nat (we - t) < nat (we - cur)" using False t(3) by simp
    from less[OF this, of "n + 1"] show ?thesis
      unfolding split_first using False t(2) fin by (subst count_fires.simps) simp
  qed
qed

text \<open>A schedule the scheduler can count: it does not parse, or the library enumerates it.\<close>

definition countable_cron :: "'x scheduler_env \<Rightarrow> string \<Rightarrow> bool" where
  "countable_cron env expr \<longleftrightarrow> \<not> se_parses env expr \<or> (\<exists>F. enumerates (se_next env expr) F)"

lemma fires_of_schedule_count:
  assumes "countable_cron env (cs_cron_expression c)"
  shows "\<exists>n warned'. fires_of_schedule env c ws we warned = Some (Inr n, warned')"
  using assms count_fires_enumerates[of "se_next env" "cs_cron_expression c"]
  by (auto simp: fires_of_schedule_def countable_cron_def)

lemma fires_of_schedule_exact:
  assumes "se_parses env (cs_cron_expression c)" and "enumerates (se_next env (cs_cron_expression c)) F"
  shows "fires_of_schedule env c ws we warned = Some (Inr (card {f \<in> F. ws < f \<and> f \<le> we}), warned)"
  using assms count_fires_enumerates[of "se_next env" "cs_cron_expression c" F ws we 0]
  by (simp add: fires_of_schedule_def)

text \<open>One pass asks for exactly the schedules with a fire time in the window.\<close>

definition asked :: "'x scheduler \<Rightarrow> string \<Rightarrow> int list" where
  "asked st sid = map fst (filter (\<lambda>(now, i). i = sid) (sd_requests st))"

lemma fire_schedules_returns:
  assumes "\<forall>c \<in> set cs. countable_cron env (cs_cron_expression c)"
  shows "\<exists>st'. fire_schedules env ws now cs st = Some (None, st') \<and> sd_auto st' = sd_auto st \<and>
    (sid \<notin> cs_id ` set cs \<longrightarrow> asked st' sid = asked st sid)"
  using assms
proof (induction cs arbitrary: st)
  case (Cons c cs)
  obtain n w where n: "fires_of_schedule env c ws now (sd_warned st) = Some (Inr n, w)"
    using fires_of_schedule_count[of env c] Cons.prems by force
  have "\<forall>c \<in> set cs. countable_cron env (cs_cron_expression c)" using Cons.prems by simp
  note ih = Cons.IH[OF this]
  show ?case
  proof (cases "n = 0")
    case True
    with ih[of "st\<lparr>sd_warned := w\<rparr>"] n show ?thesis by (auto simp: asked_def)
  next
    case False
    with ih[of "st\<lparr>sd_warned := w, sd_exec := snd (se_dispatch env (cs_id c) (cs_source_id c) (sd_exec st)),
                sd_requests := sd_requests st @ [(now, cs_id c)]\<rparr>"] n
    show ?thesis by (auto simp: asked_def)
  qed
qed simp

lemma fire_schedules_asks:
  assumes "\<forall>c \<in> set cs. countable_cron env (cs_cron_expression c)" and "distinct (map cs_id cs)"
    and "c \<in> set cs" and "se_parses env (cs_cron_expression c)" and "enumerates (se_next env (cs_cron_expression c)) F"
  shows "\<exists>st'. fire_schedules env ws now cs st = Some (None, st') \<and> sd_auto st' = sd_auto st \<and>
    asked st' (cs_id c) = asked st (cs_id c) @ (if \<exists>f \<in> F. ws < f \<and> f \<le> now then [now] else [])"
  using assms(1-3)
proof (induction cs arbitrary: st)
  case (Cons d cs)
  have good: "\<forall>c \<in> set cs. countable_cron env (cs_cron_expression c)" using Cons.prems by simp
  obtain n w where n: "fires_of_schedule env d ws now (sd_warned st) = Some (Inr n, w)"
    using fires_of_schedule_count[of env d] Cons.prems by force
  let ?st = "if n = 0 then st\<lparr>sd_warned := w\<rparr>
    else st\<lparr>sd_warned := w, sd_exec := snd (se_dispatch env (cs_id d) (cs_source_id d) (sd_exec st)),
                sd_requests := sd_requests st @ [(now, cs_id d)]\<rparr>"
  have step: "fire_schedules env ws now (d # cs) st = fire_schedules env ws now cs ?st"
    using n by simp
  show ?case
  proof (cases "c = d")
    case True
    have fin: "finite {f \<in> F. ws < f \<and> f \<le> now}" by (rule finite_subset[of _ "{ws..now}"]) auto
    have "n = card {f \<in> F. ws < f \<and> f \<le> now}"
      using n fires_of_schedule_exact[OF assms(4,5), of ws now "sd_warned st"] True by simp
    with fin have zero: "n = 0 \<longleftrightarrow> \<not> (\<exists>f \<in> F. ws < f \<and> f \<le> now)" by auto
    have "cs_id c \<notin> cs_id ` set cs" using Cons.prems(2) True by auto
    with fire_schedules_returns[OF good, of ws now ?st "cs_id c"] obtain st' where
      st': "fire_schedules env ws now cs ?st = Some (None, st')" "sd_auto st' = sd_auto ?st"
        "asked st' (cs_id c) = asked ?st (cs_id c)" by blast
    have "asked ?st (cs_id c) = asked st (cs_id c) @ (if \<exists>f \<in> F. ws < f \<and> f \<le> now then [now] else [])"
      "sd_auto ?st = sd_auto st"
      using zero True by (auto simp: asked_def)
    with st' step show ?thesis by auto
  next
    case False
    then have "c \<in> set cs" "cs_id d \<noteq> cs_id c" using Cons.prems by auto
    from Cons.IH[OF good _ this(1), of ?st] Cons.prems(2) obtain st' where
      st': "fire_schedules env ws now cs ?st = Some (None, st')" "sd_auto st' = sd_auto ?st"
        "asked st' (cs_id c) = asked ?st (cs_id c) @ (if \<exists>f \<in> F. ws < f \<and> f \<le> now then [now] else [])" by auto
    have "asked ?st (cs_id c) = asked st (cs_id c)" "sd_auto ?st = sd_auto st"
      using \<open>cs_id d \<noteq> cs_id c\<close> by (auto simp: asked_def)
    with st' step show ?thesis by auto
  qed
qed simp

section \<open>Every window with a fire time, once\<close>

text \<open>The passes whose window, since the pass before, holds a fire time.\<close>

fun due_ticks :: "int set \<Rightarrow> int list \<Rightarrow> int list" where
  "due_ticks F (a # b # ts) = (if \<exists>f \<in> F. a < f \<and> f \<le> b then [b] else []) @ due_ticks F (b # ts)"
| "due_ticks F _ = []"

text \<open>A schedule with this key and this expression is enabled, whatever else its row holds.\<close>

definition keeps_schedule :: "control_db \<Rightarrow> string \<Rightarrow> string \<Rightarrow> bool" where
  "keeps_schedule db sid expr \<longleftrightarrow> (\<exists>c \<in> set (get_enabled_schedules db). cs_id c = sid \<and> cs_cron_expression c = expr)"

lemma scheduler_ticks_asks:
  assumes "\<forall>(now, db, change) \<in> set ticks. keeps_schedule db sid expr \<and>
      distinct (map cs_id (get_enabled_schedules db)) \<and>
      (\<forall>d \<in> set (get_enabled_schedules db). countable_cron env (cs_cron_expression d))"
    and "se_parses env expr" and "enumerates (se_next env expr) F"
    and "sd_last_tick st = Some last_tick"
  shows "\<exists>st'. scheduler_ticks env ticks st = Some st' \<and>
    asked st' sid = asked st sid @ due_ticks F (last_tick # map fst ticks)"
  using assms(1,4)
proof (induction ticks arbitrary: st last_tick)
  case (Cons t ticks)
  obtain now db change where t: "t = (now, db, change)" by (metis surj_pair)
  let ?cs = "get_enabled_schedules db" and ?st = "st\<lparr>sd_auto := change (sd_auto st)\<rparr>"
  obtain c where c: "c \<in> set ?cs" "cs_id c = sid" "cs_cron_expression c = expr"
    using Cons.prems(1) t by (auto simp: keeps_schedule_def)
  have "distinct (map cs_id ?cs)" "\<forall>d \<in> set ?cs. countable_cron env (cs_cron_expression d)"
    using Cons.prems(1) t by auto
  from fire_schedules_asks[OF this(2,1) c(1), of F last_tick now ?st] assms(2,3) obtain st1 where
    st1: "fire_schedules env last_tick now ?cs ?st = Some (None, st1)" "sd_auto st1 = sd_auto ?st"
      "asked st1 sid = asked st sid @ (if \<exists>f \<in> F. last_tick < f \<and> f \<le> now then [now] else [])"
    by (auto simp: asked_def c)
  let ?st2 = "st1\<lparr>sd_auto := recover_queued_scheduled_runs_local
      (snd (dispatch_due_automations (se_auto env) (Aware last_tick) (Aware now) (sd_auto st1))), sd_last_tick := Some now\<rparr>"
  have step: "scheduler_ticks env (t # ticks) st = scheduler_ticks env ticks ?st2"
    using Cons.prems(2) st1(1) by (simp add: t scheduler_tick_def)
  have "\<exists>st'. scheduler_ticks env ticks ?st2 = Some st' \<and>
      asked st' sid = asked ?st2 sid @ due_ticks F (now # map fst ticks)"
    using Cons.prems(1) by (intro Cons.IH) auto
  with step st1(3) show ?case by (auto simp: t asked_def)
qed simp

lemma due_ticks_subset: "set (due_ticks F ts) \<subseteq> set (tl ts)"
  by (induction F ts rule: due_ticks.induct) auto

text \<open>With the clock going forward, the passes that were due, and how often.\<close>

lemma due_ticks_exact:
  assumes "sorted_wrt (<) ts"
  shows "distinct (due_ticks F ts)"
    and "set (due_ticks F ts) =
      {ts ! Suc i | i. Suc i < length ts \<and> (\<exists>f \<in> F. ts ! i < f \<and> f \<le> ts ! Suc i)}"
proof -
  show "distinct (due_ticks F ts)"
    using assms
  proof (induction F ts rule: due_ticks.induct)
    case (1 F a b ts)
    have "b \<notin> set (due_ticks F (b # ts))"
      using due_ticks_subset[of F "b # ts"] 1(2) by auto
    with 1 show ?case by auto
  qed auto
  show "set (due_ticks F ts) =
      {ts ! Suc i | i. Suc i < length ts \<and> (\<exists>f \<in> F. ts ! i < f \<and> f \<le> ts ! Suc i)}"
  proof (induction F ts rule: due_ticks.induct)
    case (1 F a b ts)
    show ?case (is "?lhs = ?rhs")
    proof
      show "?lhs \<subseteq> ?rhs"
        using 1 by (fastforce intro: exI[of _ 0] exI[of _ "Suc _"])
      show "?rhs \<subseteq> ?lhs"
      proof
        fix x assume "x \<in> ?rhs"
        then obtain i where i: "x = (a # b # ts) ! Suc i" "Suc i < length (a # b # ts)"
          "\<exists>f \<in> F. (a # b # ts) ! i < f \<and> f \<le> (a # b # ts) ! Suc i" by blast
        then show "x \<in> ?lhs" using 1 by (cases i) fastforce+
      qed
    qed
  qed auto
qed

text \<open>
  C22: No scheduled collection is lost or doubled by the local scheduler, however its ticks drift. While
  a schedule stays enabled with the same expression, its source stays enabled and out of review, and every
  enabled expression is one the cron library can enumerate, its collection is asked for at exactly those
  ticks that have a fire time since the tick before, once each, whatever the executor and the automations
  raise and whatever else changes in the tables, the time of its last run included; fire times before the
  first tick are not replayed.
\<close>

theorem scheduled_once_per_window:
  assumes "sorted_wrt (<) (map fst ticks)"
    and "\<forall>(now, db, change) \<in> set ticks.
      (\<exists>c \<in> set (get_enabled_schedules db). cs_id c = sid \<and> cs_cron_expression c = expr) \<and>
      distinct (map cs_id (get_enabled_schedules db)) \<and>
      (\<forall>d \<in> set (get_enabled_schedules db). countable_cron env (cs_cron_expression d))"
    and "se_parses env expr" and "enumerates (se_next env expr) F"
  shows "\<exists>st. scheduler_ticks env ticks (start_scheduler x auto) = Some st \<and> distinct (asked st sid) \<and>
    set (asked st sid) = {map fst ticks ! Suc i | i. Suc i < length ticks \<and>
      (\<exists>f \<in> F. map fst ticks ! i < f \<and> f \<le> map fst ticks ! Suc i)}"
proof (cases ticks)
  case Nil
  then show ?thesis by (simp add: asked_def start_scheduler_def)
next
  case (Cons t rest)
  obtain now db change where t: "t = (now, db, change)" by (metis surj_pair)
  let ?st = "(start_scheduler x (change auto))\<lparr>sd_last_tick := Some now\<rparr>"
  have step: "scheduler_ticks env ticks (start_scheduler x auto) = scheduler_ticks env rest ?st"
    by (simp add: Cons t scheduler_tick_def start_scheduler_def)
  have "\<exists>st'. scheduler_ticks env rest ?st = Some st' \<and>
      asked st' sid = asked ?st sid @ due_ticks F (now # map fst rest)"
    using assms(2) by (intro scheduler_ticks_asks[OF _ assms(3,4)]) (auto simp: Cons keeps_schedule_def)
  moreover have "asked ?st sid = []" by (simp add: asked_def start_scheduler_def)
  moreover have "now # map fst rest = map fst ticks" by (simp add: Cons t)
  ultimately show ?thesis
    using due_ticks_exact[OF assms(1), of F] step by (auto simp: length_map)
qed

section \<open>Examples\<close>

definition demo_schedule :: "string \<Rightarrow> string \<Rightarrow> cron_schedule" where
  "demo_schedule cid expr = \<lparr>cs_id = cid, cs_source_id = ''s'', cs_agent_id = None, cs_cron_expression = expr,
     cs_enabled = True, cs_is_one_time = False, cs_last_run_at = None\<rparr>"

definition demo_tables :: "cron_schedule list \<Rightarrow> control_db" where
  "demo_tables cs = empty_db\<lparr>db_schedules := cs,
     db_sources := [\<lparr>ds_id = ''s'', ds_name = ''n'', ds_channel_type = ''rss'', ds_channel_config = [],
       ds_write_strategy = None, ds_ai_config = None, ds_objective_override = None, ds_enabled = True,
       ds_review_required = False, ds_paused_until = None\<rparr>]\<rparr>"

text \<open>\<open>minutely\<close> fires at the multiples of 60, \<open>once\<close> at 30 and long after, \<open>never\<close> finds no date.\<close>

definition demo_next :: "string \<Rightarrow> int \<Rightarrow> exn + int" where
  "demo_next expr cur =
     (if expr = ''minutely'' then Inr (cur - cur mod 60 + 60)
      else if expr = ''once'' then Inr (if cur < 30 then 30 else cur + 1000)
      else Inl (Exn ''CroniterBadDateError''))"

definition demo_scheduler_env :: "local_executor scheduler_env" where
  "demo_scheduler_env = \<lparr>se_parses = (\<lambda>expr. True), se_next = demo_next, se_dispatch = dispatch_scheduled_collection,
     se_auto = demo_auto_env\<rparr>"

lemma demo_minutely: "enumerates (demo_next ''minutely'') {f. f mod 60 = 0}"
  unfolding enumerates_def
proof
  fix cur :: int
  let ?t = "cur - cur mod 60 + 60"
  have "?t mod 60 = 0" "cur < ?t" by (presburger, simp)
  moreover have "?t \<le> s" if "s mod 60 = 0" "cur < s" for s using that by presburger
  ultimately show "\<exists>t \<in> {f. f mod 60 = 0}. demo_next ''minutely'' cur = Inr t \<and> cur < t \<and>
      (\<forall>s \<in> {f. f mod 60 = 0}. cur < s \<longrightarrow> t \<le> s)"
    by (intro bexI[of _ ?t]) (auto simp: demo_next_def)
qed

lemma demo_enabled:
  "get_enabled_schedules (demo_tables [demo_schedule i e]) = [demo_schedule i e]"
  "get_enabled_schedules (demo_tables [demo_schedule i e, demo_schedule j f]) = [demo_schedule i e, demo_schedule j f]"
  by (simp_all add: get_enabled_schedules_def source_dispatchable_def demo_tables_def demo_schedule_def)

lemma demo_schedule_fields [simp]:
  "cs_id (demo_schedule i e) = i" "cs_cron_expression (demo_schedule i e) = e" "cs_source_id (demo_schedule i e) = ''s''"
  by (simp_all add: demo_schedule_def)

text \<open>The row of a schedule as its occurrences have stamped it.\<close>

definition demo_stamped :: "datetime \<Rightarrow> control_db" where
  "demo_stamped t = demo_tables [(demo_schedule ''c'' ''minutely'')\<lparr>cs_last_run_at := Some t\<rparr>]"

lemma demo_stamped_enabled:
  "get_enabled_schedules (demo_stamped t) = [(demo_schedule ''c'' ''minutely'')\<lparr>cs_last_run_at := Some t\<rparr>]"
  by (simp add: get_enabled_schedules_def source_dispatchable_def demo_stamped_def demo_tables_def demo_schedule_def)

lemma first_three: "{f i | i. Suc i < 4 \<and> P i} = {f i | i. i \<in> {0, 1, 2::nat} \<and> P i}"
proof -
  have "Suc i < 4 \<longleftrightarrow> i \<in> {0, 1, 2}" for i :: nat by auto
  then show ?thesis by presburger
qed

lemma demo_windows:
  "{[10, 75, 100, 200 :: int] ! Suc i | i. Suc i < 4 \<and>
     (\<exists>f \<in> {f. f mod 60 = 0}. [10, 75, 100, 200 :: int] ! i < f \<and> f \<le> [10, 75, 100, 200] ! Suc i)} = {75, 200}"
    (is "{?t i | i. _ \<and> ?P i} = _")
proof -
  have "?P 0" by (rule bexI[of _ 60]) simp_all
  moreover have "\<not> ?P 1" by simp presburger
  moreover have "?P 2" by (rule bexI[of _ 120]) simp_all
  ultimately have "i \<in> {0, 1, 2} \<and> ?P i \<longleftrightarrow> i = 0 \<or> i = 2" for i by blast
  then have "{?t i | i. i \<in> {0, 1, 2} \<and> ?P i} = {?t i | i. i = 0 \<or> i = 2}" by presburger
  also have "\<dots> = {?t 0, ?t 2}" by blast
  finally show ?thesis unfolding first_three by simp
qed

theorem scheduled_once_per_window_witness:
  "\<exists>st. scheduler_ticks demo_scheduler_env
      [(10, demo_tables [demo_schedule ''c'' ''minutely''], id), (75, demo_tables [demo_schedule ''c'' ''minutely''], id),
       (100, demo_stamped (Aware 76), id), (200, demo_stamped (Aware 76), id)]
      (start_scheduler \<lparr>lx_inflight = [], lx_started = []\<rparr> (demo_auto_db [])) = Some st \<and>
    set (asked st ''c'') = {75, 200}"
proof -
  let ?c = "demo_schedule ''c'' ''minutely''"
  let ?ticks = "[(10, demo_tables [?c], id), (75, demo_tables [?c], id), (100, demo_stamped (Aware 76), id),
    (200, demo_stamped (Aware 76), id)] :: tick_input list"
  have env: "se_parses demo_scheduler_env = (\<lambda>expr. True)" "se_next demo_scheduler_env = demo_next"
    by (simp_all add: demo_scheduler_env_def)
  have countable: "countable_cron demo_scheduler_env ''minutely''"
    using demo_minutely by (auto simp: countable_cron_def env)
  have times: "map fst ?ticks = [10, 75, 100, 200]" "length ?ticks = 4" by simp_all
  have sorted: "sorted_wrt (<) (map fst ?ticks)" by simp
  have kept: "\<forall>(now, db, change) \<in> set ?ticks.
      (\<exists>c \<in> set (get_enabled_schedules db). cs_id c = ''c'' \<and> cs_cron_expression c = ''minutely'') \<and>
      distinct (map cs_id (get_enabled_schedules db)) \<and>
      (\<forall>d \<in> set (get_enabled_schedules db). countable_cron demo_scheduler_env (cs_cron_expression d))"
    by (simp add: demo_enabled demo_stamped_enabled countable)
  have parses: "se_parses demo_scheduler_env ''minutely''" and dates: "enumerates (se_next demo_scheduler_env ''minutely'') {f. f mod 60 = 0}"
    using demo_minutely by (simp_all add: env)
  show ?thesis
    using scheduled_once_per_window[OF sorted kept parses dates, of "\<lparr>lx_inflight = [], lx_started = []\<rparr>" "demo_auto_db []"]
    unfolding times demo_windows by blast
qed

text \<open>
  An expression that parses but has no date (the 30th of February) makes the cron library raise inside
  the loop: the watermark stays, the schedules before it are asked for again in every later tick for one
  and the same fire time, the schedules after it and the automations are never looked at.
\<close>

lemma undated_cron_redispatches:
  "\<exists>st. scheduler_ticks (demo_scheduler_env\<lparr>se_dispatch := (\<lambda>c s x. (None, x))\<rparr>)
      [(0, demo_tables [demo_schedule ''a'' ''once'', demo_schedule ''b'' ''never''], id),
       (60, demo_tables [demo_schedule ''a'' ''once'', demo_schedule ''b'' ''never''], id),
       (120, demo_tables [demo_schedule ''a'' ''once'', demo_schedule ''b'' ''never''], id)]
      (start_scheduler x auto) = Some st \<and>
    asked st ''a'' = [60, 120] \<and> sd_last_tick st = Some 0 \<and> sd_auto st = auto"
proof -
  have once: "count_fires demo_next ''once'' 0 now 0 = Some (Inr 1)" if "30 \<le> now" "now < 1000" for now
    using that by (simp add: count_fires.simps demo_next_def)
  have never: "count_fires demo_next ''never'' 0 now 0 = Some (Inl (Exn ''CroniterBadDateError''))" for now
    by (simp add: count_fires.simps demo_next_def)
  show ?thesis
    by (simp add: scheduler_tick_def demo_enabled fires_of_schedule_def demo_scheduler_env_def once never
        start_scheduler_def asked_def)
qed

section \<open>One run of a schedule at a time\<close>

text \<open>The local executor skips a schedule whose run is still in flight.\<close>

lemma one_run_in_flight:
  "distinct (lx_inflight x) \<Longrightarrow>
     distinct (lx_inflight (snd (dispatch_scheduled_collection c s x))) \<and>
     length (lx_started (snd (dispatch_scheduled_collection c s x))) =
       length (lx_started x) + (if c \<in> set (lx_inflight x) then 0 else 1)"
  by (simp add: dispatch_scheduled_collection_def)

end
