(* ===== verification/IpAddress.thy ===== *)
theory IpAddress
  imports WorkflowGraph DomainLimiter "HOL-Library.Word"
begin

text \<open>
  Internet addresses as the standard library of Python 3.13 reads, prints and classifies them
  (module \<open>ipaddress\<close>), which is what the outbound guard (theory \<open>UrlGuard\<close>) decides on. An
  address is a machine word; an IPv6 address may carry a scope.
\<close>

datatype ip = V4 "32 word" | V6 "128 word" "string option"

section \<open>Text\<close>

definition parse_octet :: "string \<Rightarrow> nat option" where
  "parse_octet s =
     (if s = [] \<or> \<not> list_all is_digit s \<or> length s > 3 \<or> (s \<noteq> ''0'' \<and> hd s = CHR ''0'') then None
      else if digits_value 0 s > 255 then None else Some (digits_value 0 s))"

definition word_of_digits :: "'a word \<Rightarrow> nat list \<Rightarrow> 'a::len word" where
  "word_of_digits base ds = foldl (\<lambda>a d. a * base + of_nat d) 0 ds"

definition parse_v4 :: "string \<Rightarrow> 32 word option" where
  "parse_v4 s =
     (case map parse_octet (split_one (CHR ''.'') s) of
        [Some a, Some b, Some c, Some d] \<Rightarrow> Some (word_of_digits 256 [a, b, c, d])
      | _ \<Rightarrow> None)"

definition octets :: "32 word \<Rightarrow> nat list" where
  "octets w = map (\<lambda>i. unat (take_bit 8 (drop_bit (8 * i) w))) [3, 2, 1, 0]"

definition show_v4 :: "32 word \<Rightarrow> string" where
  "show_v4 w = join_with ''.'' (map show_nat (octets w))"

text \<open>Hexadecimal digits and groups of up to four of them.\<close>

definition hex_value :: "char \<Rightarrow> nat option" where
  "hex_value c =
     (let n = of_char c
      in if 48 \<le> n \<and> n \<le> 57 then Some (n - 48)
         else if 65 \<le> n \<and> n \<le> 70 then Some (n - 55)
         else if 97 \<le> n \<and> n \<le> 102 then Some (n - 87) else None)"

definition parse_hextet :: "string \<Rightarrow> nat option" where
  "parse_hextet s =
     (if s = [] \<or> length s > 4 then None
      else map_option (foldl (\<lambda>a d. a * 16 + d) 0) (those (map hex_value s)))"

fun show_hex :: "nat \<Rightarrow> string" where
  "show_hex n = (if n < 16 then [hex_digit n] else show_hex (n div 16) @ [hex_digit (n mod 16)])"

declare show_hex.simps [simp del]

text \<open>Splitting at colons; an address in dots at the end counts as two groups.\<close>

definition v6_parts :: "string \<Rightarrow> string list option" where
  "v6_parts s =
     (let parts = split_one (CHR '':'') s
      in if s = [] \<or> length parts < 3 then None
         else case (if List.member (last parts) (CHR ''.'')
                then map_option (\<lambda>w. butlast parts @ [show_hex (unat (drop_bit 16 w)), show_hex (unat (take_bit 16 w))])
                  (parse_v4 (last parts))
                else Some parts) of
             None \<Rightarrow> None
           | Some parts \<Rightarrow> (if length parts > 9 then None else Some parts))"

definition parse_v6 :: "string \<Rightarrow> 128 word option" where
  "parse_v6 s =
     (case v6_parts s of
        None \<Rightarrow> None
      | Some parts \<Rightarrow>
          (let n = length parts; first_empty = (hd parts = []); last_empty = (last parts = [])
           in case filter (\<lambda>i. parts ! i = []) [1..<n - 1] of
                [] \<Rightarrow>
                  (if n \<noteq> 8 \<or> first_empty \<or> last_empty then None
                   else map_option (word_of_digits 65536) (those (map parse_hextet parts)))
              | [skip] \<Rightarrow>
                  (let hi = (if first_empty then skip - 1 else skip);
                       lo = (if last_empty then n - skip - 2 else n - skip - 1)
                   in if first_empty \<and> hi \<noteq> 0 \<or> last_empty \<and> lo \<noteq> 0 \<or> hi + lo \<ge> 8 then None
                      else case (those (map parse_hextet (take hi parts)), those (map parse_hextet (drop (n - lo) parts))) of
                          (Some his, Some los) \<Rightarrow>
                            Some (word_of_digits 65536 (his @ replicate (8 - (hi + lo)) 0 @ los))
                        | _ \<Rightarrow> None)
              | _ \<Rightarrow> None))"

definition split_scope :: "string \<Rightarrow> (string \<times> string option) option" where
  "split_scope s =
     (if \<not> List.member s (CHR ''%'') then Some (s, None)
      else let (addr, scope) = partition_at (CHR ''%'') s
           in if scope = [] \<or> List.member scope (CHR ''%'') then None else Some (addr, Some scope))"

definition ip_address :: "string \<Rightarrow> ip option" where
  "ip_address s =
     (case parse_v4 s of
        Some w \<Rightarrow> Some (V4 w)
      | None \<Rightarrow>
          (if List.member s (CHR ''/'') then None
           else case split_scope s of
               None \<Rightarrow> None
             | Some (addr, scope) \<Rightarrow> map_option (\<lambda>w. V6 w scope) (parse_v6 addr)))"

text \<open>Printing compresses the longest run of zero groups; \<open>(start, len)\<close> is the best one so far.\<close>

fun longest_zeros :: "nat \<Rightarrow> string list \<Rightarrow> nat \<Rightarrow> nat \<times> nat \<Rightarrow> nat \<times> nat" where
  "longest_zeros i [] run best = best"
| "longest_zeros i (h # hs) run best =
     (if h = ''0''
      then longest_zeros (i + 1) hs (run + 1) (if run + 1 > snd best then (i - run, run + 1) else best)
      else longest_zeros (i + 1) hs 0 best)"

definition compress_hextets :: "string list \<Rightarrow> string list" where
  "compress_hextets hs =
     (let (start, len) = longest_zeros 0 hs 0 (0, 0)
      in if len \<le> 1 then hs
         else (if start = 0 then [[]] else []) @ take start hs @ [[]] @ drop (start + len) hs @
              (if start + len = length hs then [[]] else []))"

definition hextets :: "128 word \<Rightarrow> nat list" where
  "hextets w = map (\<lambda>i. unat (take_bit 16 (drop_bit (16 * i) w))) [7, 6, 5, 4, 3, 2, 1, 0]"

definition ip_str :: "ip \<Rightarrow> string" where
  "ip_str a =
     (case a of
        V4 w \<Rightarrow> show_v4 w
      | V6 w scope \<Rightarrow> join_with '':'' (compress_hextets (map show_hex (hextets w))) @
          (case scope of Some z \<Rightarrow> if z = [] then [] else ''%'' @ z | None \<Rightarrow> []))"

section \<open>Networks\<close>

type_synonym 'a network = "'a word \<times> nat"

definition in_network :: "'a::len word \<Rightarrow> 'a network \<Rightarrow> bool" where
  "in_network w n = (drop_bit (LENGTH('a) - snd n) w = drop_bit (LENGTH('a) - snd n) (fst n))"

definition net4 :: "nat list \<Rightarrow> nat \<Rightarrow> 32 network" where
  "net4 ds len = (word_of_digits 256 (ds @ replicate (4 - length ds) 0), len)"

definition net6 :: "nat list \<Rightarrow> nat \<Rightarrow> 128 network" where
  "net6 ds len = (word_of_digits 65536 (ds @ replicate (8 - length ds) 0), len)"

definition private_v4 :: "32 network list" where
  "private_v4 =
     [net4 [0] 8, net4 [10] 8, net4 [127] 8, net4 [169, 254] 16, net4 [172, 16] 12, net4 [192, 0, 0] 24,
      net4 [192, 0, 0, 170] 31, net4 [192, 0, 2] 24, net4 [192, 168] 16, net4 [198, 18] 15,
      net4 [198, 51, 100] 24, net4 [203, 0, 113] 24, net4 [240] 4, net4 [255, 255, 255, 255] 32]"

definition private_v4_exceptions :: "32 network list" where
  "private_v4_exceptions = [net4 [192, 0, 0, 9] 32, net4 [192, 0, 0, 10] 32]"

definition private_v6 :: "128 network list" where
  "private_v6 =
     [net6 [0, 0, 0, 0, 0, 0, 0, 1] 128, net6 [] 128, net6 [0, 0, 0, 0, 0, 0xFFFF] 96, net6 [0x64, 0xFF9B, 1] 48,
      net6 [0x100] 64, net6 [0x2001] 23, net6 [0x2001, 0xDB8] 32, net6 [0x2002] 16, net6 [0x3FFF] 20,
      net6 [0xFC00] 7, net6 [0xFE80] 10]"

definition private_v6_exceptions :: "128 network list" where
  "private_v6_exceptions =
     [net6 [0x2001, 1, 0, 0, 0, 0, 0, 1] 128, net6 [0x2001, 1, 0, 0, 0, 0, 0, 2] 128, net6 [0x2001, 3] 32,
      net6 [0x2001, 4, 0x112] 48, net6 [0x2001, 0x20] 28, net6 [0x2001, 0x30] 28]"

definition reserved_v6 :: "128 network list" where
  "reserved_v6 =
     [net6 [] 8, net6 [0x100] 8, net6 [0x200] 7, net6 [0x400] 6, net6 [0x800] 5, net6 [0x1000] 4,
      net6 [0x4000] 3, net6 [0x6000] 3, net6 [0x8000] 3, net6 [0xA000] 3, net6 [0xC000] 3, net6 [0xE000] 4,
      net6 [0xF000] 5, net6 [0xF800] 6, net6 [0xFE00] 9]"

definition in_some :: "'a::len word \<Rightarrow> 'a network list \<Rightarrow> bool" where
  "in_some w nets = list_ex (in_network w) nets"

section \<open>Classes of addresses\<close>

text \<open>An IPv4 address written as an IPv6 one is classified by the address it maps.\<close>

definition ipv4_mapped :: "128 word \<Rightarrow> 32 word option" where
  "ipv4_mapped w = (if drop_bit 32 w = 0xFFFF then Some (ucast w) else None)"

definition by_mapped :: "(32 word \<Rightarrow> bool) \<Rightarrow> (128 word \<Rightarrow> bool) \<Rightarrow> ip \<Rightarrow> bool" where
  "by_mapped P Q a =
     (case a of V4 w \<Rightarrow> P w | V6 w _ \<Rightarrow> (case ipv4_mapped w of Some m \<Rightarrow> P m | None \<Rightarrow> Q w))"

definition is_unspecified :: "ip \<Rightarrow> bool" where
  "is_unspecified = by_mapped (\<lambda>w. w = 0) (\<lambda>w. w = 0)"

definition is_multicast :: "ip \<Rightarrow> bool" where
  "is_multicast = by_mapped (\<lambda>w. in_network w (net4 [224] 4)) (\<lambda>w. in_network w (net6 [0xFF00] 8))"

definition is_reserved :: "ip \<Rightarrow> bool" where
  "is_reserved = by_mapped (\<lambda>w. in_network w (net4 [240] 4)) (\<lambda>w. in_some w reserved_v6)"

definition is_loopback :: "ip \<Rightarrow> bool" where
  "is_loopback = by_mapped (\<lambda>w. in_network w (net4 [127] 8)) (\<lambda>w. w = 1)"

definition is_link_local :: "ip \<Rightarrow> bool" where
  "is_link_local = by_mapped (\<lambda>w. in_network w (net4 [169, 254] 16)) (\<lambda>w. in_network w (net6 [0xFE80] 10))"

definition is_private :: "ip \<Rightarrow> bool" where
  "is_private = by_mapped
     (\<lambda>w. in_some w private_v4 \<and> \<not> in_some w private_v4_exceptions)
     (\<lambda>w. in_some w private_v6 \<and> \<not> in_some w private_v6_exceptions)"

section \<open>Networks as intervals\<close>

lemma in_network_div:
  "in_network w (n, len) \<longleftrightarrow> uint w div 2 ^ (LENGTH('a) - len) = uint n div 2 ^ (LENGTH('a) - len)"
  for w n :: "'a::len word"
proof -
  have "uint (drop_bit k w) = drop_bit k (uint w)" for k and w :: "'a word"
    by (metis unsigned_drop_bit_eq unsigned_take_bit_eq take_bit_length_eq)
  then have "uint (drop_bit k w) = uint w div 2 ^ k" for k and w :: "'a word"
    unfolding drop_bit_eq_div[of _ "uint w"] by (simp only: drop_bit_eq_div)
  then show ?thesis
    by (metis fst_conv snd_conv in_network_def word_uint_eq_iff)
qed

lemma div_eq_interval:
  assumes "0 < (m::int)"
  shows "x div m = k \<longleftrightarrow> k * m \<le> x \<and> x < k * m + m"
proof
  assume "x div m = k"
  then have "x = k * m + x mod m" by (metis div_mult_mod_eq)
  then show "k * m \<le> x \<and> x < k * m + m"
    using pos_mod_sign[OF assms, of x] pos_mod_bound[OF assms, of x] by linarith
next
  assume "k * m \<le> x \<and> x < k * m + m"
  then show "x div m = k" using int_div_pos_eq[of x m k "x - k * m"] by (simp add: mult.commute)
qed

lemma in_network_interval:
  "in_network w (n, len) \<longleftrightarrow> uint n div 2 ^ (LENGTH('a) - len) * 2 ^ (LENGTH('a) - len) \<le> uint w \<and>
     uint w < uint n div 2 ^ (LENGTH('a) - len) * 2 ^ (LENGTH('a) - len) + 2 ^ (LENGTH('a) - len)"
  for w n :: "'a::len word"
  unfolding in_network_div by (rule div_eq_interval) simp

section \<open>Printing and reading back\<close>

lemma split_one_join:
  assumes "\<forall>s \<in> set ss. c \<notin> set s" and "ss \<noteq> []"
  shows "split_one c (join_with [c] ss) = ss"
proof -
  have plain: "split_one c s = [s]" if "c \<notin> set s" for s
    using that by (induction s) auto
  have first: "split_one c (s @ c # t) = s # split_one c t" if "c \<notin> set s" for s t
    using that by (induction s) auto
  show ?thesis
    using assms
  proof (induction ss rule: induct_list012)
    case (3 s s' ss)
    then show ?case by (simp add: first)
  qed (simp_all add: plain)
qed

lemma parse_show_octet: "n < 256 \<Longrightarrow> parse_octet (show_nat n) = Some n"
proof -
  assume n: "n < 256"
  have "length (show_nat n) \<le> 3 \<and> (n = 0 \<or> hd (show_nat n) \<noteq> CHR ''0'')"
  proof -
    have digit: "digit_char d = CHR ''0'' \<longleftrightarrow> d = 0" if "d < 10" for d
    proof
      assume "digit_char d = CHR ''0''"
      then have "of_char (digit_char d) = (48 :: nat)" by simp
      with that show "d = 0" by simp
    next
      have "digit_char 0 = CHR ''0''" by code_simp
      then show "d = 0 \<Longrightarrow> digit_char d = CHR ''0''" by simp
    qed
    consider "n < 10" | "10 \<le> n" "n < 100" | "100 \<le> n" by linarith
    then show ?thesis
    proof cases
      case 1
      then show ?thesis using digit[of n] by (auto simp: show_nat.simps[of n])
    next
      case 2
      then have "n div 10 < 10" "n div 10 \<noteq> 0" by auto
      with 2 show ?thesis using digit[of "n div 10"] by (simp add: show_nat.simps[of n] show_nat.simps[of "n div 10"])
    next
      case 3
      with n have "n div 10 div 10 < 10" "n div 10 div 10 \<noteq> 0" "\<not> n div 10 < 10" by auto
      with 3 show ?thesis using digit[of "n div 10 div 10"]
        by (simp add: show_nat.simps[of n] show_nat.simps[of "n div 10"] show_nat.simps[of "n div 10 div 10"])
    qed
  qed
  then show ?thesis
    using n show_nat_digits[of n] by (auto simp: parse_octet_def digits_value_show show_nat.simps[of 0])
qed

text \<open>The words of digits below the base are read back.\<close>

lemma octets_word: "word_of_digits 256 (octets w) = w"
proof -
  have step: "drop_bit 8 x * 256 + take_bit 8 x = x" for x :: "32 word"
    using bits_ident[of 8 x] by (simp add: push_bit_eq_mult mult.commute)
  have top: "take_bit 8 (drop_bit 24 w) = drop_bit 24 w"
    by (rule bit_word_eqI) (auto simp: bit_simps dest: bit_imp_le_length)
  have "word_of_digits 256 (octets w) =
      ((take_bit 8 (drop_bit 24 w) * 256 + take_bit 8 (drop_bit 16 w)) * 256 + take_bit 8 (drop_bit 8 w)) * 256 + take_bit 8 w"
    by (simp add: word_of_digits_def octets_def)
  also have "\<dots> = w"
    using step[of w] step[of "drop_bit 8 w"] step[of "drop_bit 16 w"]
    by (simp only: top drop_bit_drop_bit) simp
  finally show ?thesis .
qed

text \<open>An IPv4 address survives being printed and read.\<close>

lemma parse_show_v4: "ip_address (ip_str (V4 w)) = Some (V4 w)"
proof -
  have small: "n < 256" if "n \<in> set (octets w)" for n
  proof -
    have "take_bit 8 k < (256 :: nat)" for k using take_bit_nat_less_exp[of 8 k] by simp
    with that show ?thesis by (auto simp: octets_def unsigned_take_bit_eq)
  qed
  have "CHR ''.'' \<notin> set s" if "s \<in> set (map show_nat (octets w))" for s
  proof -
    have "\<not> is_digit (CHR ''.'')" by (simp add: is_digit_def)
    with that show_nat_digits show ?thesis by (auto simp: list_all_iff)
  qed
  then have "split_one (CHR ''.'') (show_v4 w) = map show_nat (octets w)"
    unfolding show_v4_def by (intro split_one_join) (auto simp: octets_def)
  moreover have "map parse_octet (map show_nat (octets w)) = map Some (octets w)"
    using small by (simp add: parse_show_octet)
  ultimately have "parse_v4 (show_v4 w) = Some (word_of_digits 256 (octets w))"
    by (simp add: parse_v4_def octets_def)
  then show ?thesis by (simp add: octets_word ip_address_def ip_str_def)
qed

end
