(* ===== verification/UrlGuard.thy ===== *)
theory UrlGuard
  imports IpAddress
begin

text \<open>
  The guard on outbound requests (\<open>backend/security/url_guard.py\<close>): which addresses may be
  reached, the validation of a URL, and the client whose connections are pinned to the addresses that were
  validated. Name resolution is a parameter, and so is the check of a bracketed host, which varies
  between releases of the standard library. What a connection does once it is dialled is not modelled.
\<close>

section \<open>Addresses\<close>

definition CGNAT_SHARED_SPACE :: "32 network" where
  "CGNAT_SHARED_SPACE = net4 [100, 64] 10"

definition is_ip_blocked :: "bool \<Rightarrow> ip \<Rightarrow> bool" where
  "is_ip_blocked allow_private a =
     (if is_unspecified a \<or> is_multicast a \<or> is_reserved a then True
      else if allow_private then False
      else if (case a of V4 w \<Rightarrow> in_network w CGNAT_SHARED_SPACE | V6 _ _ \<Rightarrow> False) then True
      else is_loopback a \<or> is_private a \<or> is_link_local a)"

section \<open>Validating a URL\<close>

text \<open>Why a URL is rejected, or another exception that gets through.\<close>

datatype ssrf_error =
    UrlRequired
  | SchemeNotAllowed string
  | NoHostname
  | Unresolvable string
  | NoAddresses string
  | NonPublicAddress string string
  | PinnedTargetBlocked string string
  | Uncaught exn

text \<open>The world outside: \<open>gaierror\<close> is what a failing name resolution raises.\<close>

record url_env =
  ue_resolve :: "string \<Rightarrow> exn + string list"
  ue_bracketed_ok :: "string \<Rightarrow> bool"

definition ALLOWED_SCHEMES :: "string list" where
  "ALLOWED_SCHEMES = [''http'', ''https'']"

text \<open>\<open>urlparse(url).scheme\<close>, and \<open>hostname\<close>: after the user, inside brackets, before the port; the
  scope of an address keeps its case.\<close>

definition url_scheme :: "string \<Rightarrow> string" where
  "url_scheme url =
     (let u = clean_url url
      in if drop_scheme u = u then [] else lower (fst (partition_at (CHR '':'') u)))"

definition url_hostname :: "string \<Rightarrow> string" where
  "url_hostname loc =
     (let hostinfo = after_last (CHR ''@'') loc;
          bracketed = snd (partition_at (CHR ''['') hostinfo);
          name = (if List.member hostinfo (CHR ''['') then fst (partition_at (CHR '']'') bracketed)
            else fst (partition_at (CHR '':'') hostinfo))
      in lower (takeWhile (\<lambda>c. c \<noteq> CHR ''%'') name) @ dropWhile (\<lambda>c. c \<noteq> CHR ''%'') name)"

definition resolve_hostname :: "url_env \<Rightarrow> string \<Rightarrow> ssrf_error + string list" where
  "resolve_hostname env hostname =
     (case ue_resolve env hostname of
        Inl e \<Rightarrow> Inl (if exn_class e = ''gaierror'' then Unresolvable hostname else Uncaught e)
      | Inr addrs \<Rightarrow> (if addrs = [] then Inl (NoAddresses hostname) else Inr (sort (remdups addrs))))"

definition check_host_and_ips :: "bool \<Rightarrow> string \<Rightarrow> string list \<Rightarrow> ssrf_error option" where
  "check_host_and_ips allow_private hostname ips =
     map_option (NonPublicAddress hostname)
       (find (\<lambda>raw. case ip_address raw of None \<Rightarrow> False | Some a \<Rightarrow> is_ip_blocked allow_private a) ips)"

definition validate_public_url_and_ip ::
  "url_env \<Rightarrow> bool \<Rightarrow> json \<Rightarrow> ssrf_error + string \<times> string list"
where
  "validate_public_url_and_ip env allow_private url =
     (case url of
        JStr u \<Rightarrow>
          (if u = [] then Inl UrlRequired
           else case netloc (ue_bracketed_ok env) u of
               Inl e \<Rightarrow> Inl (Uncaught e)
             | Inr loc \<Rightarrow>
                 (let scheme = url_scheme u; hostname = url_hostname loc
                  in if \<not> List.member ALLOWED_SCHEMES scheme then Inl (SchemeNotAllowed scheme)
                     else if hostname = [] then Inl NoHostname
                     else case ip_address hostname of
                         Some literal_ip \<Rightarrow>
                           (case check_host_and_ips allow_private hostname [ip_str literal_ip] of
                              Some err \<Rightarrow> Inl err
                            | None \<Rightarrow> Inr (u, [ip_str literal_ip]))
                       | None \<Rightarrow>
                           (case resolve_hostname env hostname of
                              Inl err \<Rightarrow> Inl err
                            | Inr ips \<Rightarrow>
                                (case check_host_and_ips allow_private hostname ips of
                                   Some err \<Rightarrow> Inl err
                                 | None \<Rightarrow> Inr (u, ips)))))
      | _ \<Rightarrow> Inl UrlRequired)"

definition validate_public_url :: "url_env \<Rightarrow> bool \<Rightarrow> json \<Rightarrow> ssrf_error + string" where
  "validate_public_url env allow_private url = map_sum id fst (validate_public_url_and_ip env allow_private url)"

section \<open>Pinned connections\<close>

record pinned_backend =
  pb_hostname :: string
  pb_ips :: "string list"
  pb_allow_private :: bool
  pb_next_ip_index :: nat

definition pick_ip :: "pinned_backend \<Rightarrow> string \<times> pinned_backend" where
  "pick_ip b = (pb_ips b ! (pb_next_ip_index b mod length (pb_ips b)),
     b\<lparr>pb_next_ip_index := pb_next_ip_index b + 1\<rparr>)"

text \<open>The host that is dialled for a requested one.\<close>

definition connect_tcp :: "pinned_backend \<Rightarrow> string \<Rightarrow> (ssrf_error + string) \<times> pinned_backend" where
  "connect_tcp b host =
     (if host = pb_hostname b then
        (let (dial_host, b') = pick_ip b
         in case ip_address dial_host of
              None \<Rightarrow> (Inr dial_host, b')
            | Some a \<Rightarrow>
                (if is_ip_blocked (pb_allow_private b) a then (Inl (PinnedTargetBlocked dial_host host), b')
                 else (Inr dial_host, b')))
      else (Inr host, b))"

definition guarded_async_client ::
  "url_env \<Rightarrow> bool \<Rightarrow> json \<Rightarrow> ssrf_error + pinned_backend \<times> string"
where
  "guarded_async_client env allow_private url =
     (case validate_public_url_and_ip env allow_private url of
        Inl err \<Rightarrow> Inl err
      | Inr (validated_url, ips) \<Rightarrow>
          (case netloc (ue_bracketed_ok env) validated_url of
             Inl e \<Rightarrow> Inl (Uncaught e)
           | Inr loc \<Rightarrow>
               Inr (\<lparr>pb_hostname = url_hostname loc, pb_ips = ips, pb_allow_private = allow_private,
                      pb_next_ip_index = 0\<rparr>, validated_url)))"

text \<open>The connections a client opens, in order; redirects and proxies may ask for other hosts.\<close>

fun connections :: "pinned_backend \<Rightarrow> string list \<Rightarrow> (ssrf_error + string) list" where
  "connections b [] = []"
| "connections b (host # hosts) = (let (res, b') = connect_tcp b host in res # connections b' hosts)"

section \<open>Exactly the public addresses\<close>

text \<open>The ranges of IPv4 that must not be reached, as intervals.\<close>

definition forbidden_v4 :: "(int \<times> int) list" where
  "forbidden_v4 =
     [(0x00000000, 0x00FFFFFF), (0x0A000000, 0x0AFFFFFF), (0x64400000, 0x647FFFFF), (0x7F000000, 0x7FFFFFFF),
      (0xA9FE0000, 0xA9FEFFFF), (0xAC100000, 0xAC1FFFFF), (0xC0000000, 0xC0000008), (0xC000000B, 0xC00000FF),
      (0xC0000200, 0xC00002FF), (0xC0A80000, 0xC0A8FFFF), (0xC6120000, 0xC613FFFF), (0xC6336400, 0xC63364FF),
      (0xCB007100, 0xCB0071FF), (0xE0000000, 0xFFFFFFFF)]"

definition in_interval :: "int \<Rightarrow> int \<times> int \<Rightarrow> bool" where
  "in_interval x r \<longleftrightarrow> fst r \<le> x \<and> x \<le> snd r"

text \<open>The concrete networks as intervals.\<close>

named_theorems net_simps

lemma word_of_digits_zeros: "word_of_digits base (ds @ replicate n 0) = word_of_digits base ds * base ^ n"
proof -
  have "foldl (\<lambda>a d. a * base + of_nat d) x (replicate n 0) = x * base ^ n" for x
    by (induction n arbitrary: x) (simp_all add: mult.assoc)
  then show ?thesis by (simp add: word_of_digits_def)
qed

lemma net4_interval [net_simps]:
  "in_network w (net4 ds len) \<longleftrightarrow>
     (let m = 2 ^ (32 - len); n = uint (word_of_digits 256 ds * 256 ^ (4 - length ds) :: 32 word) div m * m
      in n \<le> uint w \<and> uint w < n + m)"
  by (simp add: net4_def in_network_interval Let_def word_of_digits_zeros)

lemma net6_interval [net_simps]:
  "in_network w (net6 ds len) \<longleftrightarrow>
     (let m = 2 ^ (128 - len); n = uint (word_of_digits 65536 ds * 65536 ^ (8 - length ds) :: 128 word) div m * m
      in n \<le> uint w \<and> uint w < n + m)"
  by (simp add: net6_def in_network_interval Let_def word_of_digits_zeros)

lemmas guard_defs = is_unspecified_def is_multicast_def is_reserved_def is_loopback_def is_private_def is_link_local_def
  by_mapped_def in_some_def private_v4_def private_v4_exceptions_def private_v6_def private_v6_exceptions_def
  reserved_v6_def CGNAT_SHARED_SPACE_def net_simps word_of_digits_def in_interval_def

lemma uint_bound: "0 \<le> uint w" "uint w < 2 ^ LENGTH('a)" for w :: "'a::len word"
  by (simp_all add: unsigned_less)

lemma blocked_v4: "is_ip_blocked False (V4 w) \<longleftrightarrow> list_ex (in_interval (uint w)) forbidden_v4"
proof -
  have "uint w < 4294967296" "0 \<le> uint w" "w = 0 \<longleftrightarrow> uint w = 0"
    using uint_bound[of w] by (simp_all add: uint_0_iff)
  then show ?thesis
    by (simp add: is_ip_blocked_def guard_defs forbidden_v4_def)
      (cases "uint w < 0x1", simp, cases "uint w < 0x1000000", simp, cases "uint w < 0xA000000", simp,
        cases "uint w < 0xB000000", simp, cases "uint w < 0x64400000", simp, cases "uint w < 0x64800000", simp,
        cases "uint w < 0x7F000000", simp, cases "uint w < 0x80000000", simp, cases "uint w < 0xA9FE0000", simp,
        cases "uint w < 0xA9FF0000", simp, cases "uint w < 0xAC100000", simp, cases "uint w < 0xAC200000", simp,
        cases "uint w < 0xC0000000", simp, cases "uint w < 0xC0000009", simp, cases "uint w < 0xC000000A", simp,
        cases "uint w < 0xC000000B", simp, cases "uint w < 0xC00000AA", simp, cases "uint w < 0xC00000AC", simp,
        cases "uint w < 0xC0000100", simp, cases "uint w < 0xC0000200", simp, cases "uint w < 0xC0000300", simp,
        cases "uint w < 0xC0A80000", simp, cases "uint w < 0xC0A90000", simp, cases "uint w < 0xC6120000", simp,
        cases "uint w < 0xC6140000", simp, cases "uint w < 0xC6336400", simp, cases "uint w < 0xC6336500", simp,
        cases "uint w < 0xCB007100", simp, cases "uint w < 0xCB007200", simp, cases "uint w < 0xE0000000", simp,
        cases "uint w < 0xF0000000", simp, simp)
qed

text \<open>What is left of IPv6: global unicast less its special ranges, and the site-local range.\<close>

definition special_v6 :: "128 network list" where
  "special_v6 = [net6 [0x2001] 23, net6 [0x2001, 0xDB8] 32, net6 [0x2002] 16, net6 [0x3FFF] 20]"

definition reachable_v6 :: "128 word \<Rightarrow> bool" where
  "reachable_v6 w \<longleftrightarrow>
     in_network w (net6 [0x2000] 3) \<and> (in_some w private_v6_exceptions \<or> \<not> in_some w special_v6) \<or>
     in_network w (net6 [0xFEC0] 10)"

lemma uint_bound_v6: "0 \<le> uint w" "uint w < 0x100000000000000000000000000000000" for w :: "128 word"
  using uint_bound[of w] by simp_all

lemma reserved_intervals:
  "in_some w reserved_v6 \<longleftrightarrow> uint w < 0x20000000000000000000000000000000 \<or> (0x40000000000000000000000000000000 \<le> uint w \<and> uint w < 0xFC000000000000000000000000000000) \<or>
     (0xFE000000000000000000000000000000 \<le> uint w \<and> uint w < 0xFE800000000000000000000000000000)"
  using uint_bound_v6[of w]
  by (simp add: in_some_def reserved_v6_def net_simps word_of_digits_def)
    (cases "uint w < 0x1000000000000000000000000000000", simp, cases "uint w < 0x2000000000000000000000000000000", simp,
        cases "uint w < 0x4000000000000000000000000000000", simp, cases "uint w < 0x8000000000000000000000000000000", simp,
        cases "uint w < 0x10000000000000000000000000000000", simp, cases "uint w < 0x20000000000000000000000000000000", simp,
        cases "uint w < 0x40000000000000000000000000000000", simp, cases "uint w < 0x60000000000000000000000000000000", simp,
        cases "uint w < 0x80000000000000000000000000000000", simp, cases "uint w < 0xA0000000000000000000000000000000", simp,
        cases "uint w < 0xC0000000000000000000000000000000", simp, cases "uint w < 0xE0000000000000000000000000000000", simp,
        cases "uint w < 0xF0000000000000000000000000000000", simp, cases "uint w < 0xF8000000000000000000000000000000", simp,
        cases "uint w < 0xFC000000000000000000000000000000", simp, cases "uint w < 0xFE000000000000000000000000000000", simp,
        cases "uint w < 0xFE800000000000000000000000000000", simp, simp)


lemma private_intervals:
  assumes "\<not> uint w < 0x20000000000000000000000000000000"
  shows "in_some w private_v6 \<longleftrightarrow> in_some w special_v6 \<or> (0xFC000000000000000000000000000000 \<le> uint w \<and> uint w < 0xFE000000000000000000000000000000) \<or>
     (0xFE800000000000000000000000000000 \<le> uint w \<and> uint w < 0xFEC00000000000000000000000000000)"
  using assms uint_bound_v6[of w]
  by (simp add: in_some_def private_v6_def special_v6_def net_simps word_of_digits_def disj_assoc)

lemma special_range: "in_some w special_v6 \<or> in_some w private_v6_exceptions \<Longrightarrow> 0x20010000000000000000000000000000 \<le> uint w \<and> uint w < 0x40000000000000000000000000000000"
  by (auto simp: in_some_def special_v6_def private_v6_exceptions_def net_simps word_of_digits_def)

lemma blocked_v6:
  assumes "ipv4_mapped w = None"
  shows "is_ip_blocked False (V6 w scope) \<longleftrightarrow> \<not> reachable_v6 w"
proof (cases "in_some w special_v6 \<or> in_some w private_v6_exceptions")
  case True
  note r = special_range[OF True]
  have "w \<noteq> 0" "w \<noteq> 1" using r by (auto simp: word_uint_eq_iff)
  with assms r private_intervals[of w] show ?thesis
    by (simp add: is_ip_blocked_def is_unspecified_def is_multicast_def is_reserved_def is_loopback_def is_private_def
        is_link_local_def by_mapped_def reachable_v6_def reserved_intervals net_simps word_of_digits_def) blast
next
  case False
  have "w = 0 \<longleftrightarrow> uint w = 0" "w = 1 \<longleftrightarrow> uint w = 1" by (simp_all add: word_uint_eq_iff)
  with assms False private_intervals[of w] uint_bound_v6[of w] show ?thesis
    by (simp add: is_ip_blocked_def is_unspecified_def is_multicast_def is_reserved_def is_loopback_def is_private_def
        is_link_local_def by_mapped_def reachable_v6_def reserved_intervals net_simps word_of_digits_def)
      (cases "uint w < 0x20000000000000000000000000000000", simp, cases "uint w < 0x40000000000000000000000000000000", simp,
        cases "uint w < 0xFC000000000000000000000000000000", simp, cases "uint w < 0xFE000000000000000000000000000000", simp,
        cases "uint w < 0xFE800000000000000000000000000000", simp, cases "uint w < 0xFEC00000000000000000000000000000", simp,
        cases "uint w < 0xFF000000000000000000000000000000", simp, simp)
qed

lemma shared_not_private:
  assumes "in_network w CGNAT_SHARED_SPACE"
  shows "\<not> is_unspecified (V4 w)" "\<not> is_multicast (V4 w)" "\<not> is_reserved (V4 w)" "\<not> is_loopback (V4 w)"
    "\<not> is_private (V4 w)" "\<not> is_link_local (V4 w)"
proof -
  have r: "0x64400000 \<le> uint w" "uint w < 0x64800000" using assms by (simp_all add: guard_defs)
  then have "w \<noteq> 0" by auto
  with r show "\<not> is_unspecified (V4 w)" "\<not> is_multicast (V4 w)" "\<not> is_reserved (V4 w)" "\<not> is_loopback (V4 w)"
    "\<not> is_private (V4 w)" "\<not> is_link_local (V4 w)"
    by (simp_all add: guard_defs)
qed

lemma blocked_mapped:
  assumes "ipv4_mapped w = Some m"
  shows "is_ip_blocked False (V6 w scope) \<longleftrightarrow>
    list_ex (in_interval (uint m)) forbidden_v4 \<and> \<not> in_network m CGNAT_SHARED_SPACE"
proof -
  have same: "is_unspecified (V6 w scope) = is_unspecified (V4 m)" "is_multicast (V6 w scope) = is_multicast (V4 m)"
    "is_reserved (V6 w scope) = is_reserved (V4 m)" "is_loopback (V6 w scope) = is_loopback (V4 m)"
    "is_private (V6 w scope) = is_private (V4 m)" "is_link_local (V6 w scope) = is_link_local (V4 m)"
    using assms by (simp_all add: is_unspecified_def is_multicast_def is_reserved_def is_loopback_def is_private_def
        is_link_local_def by_mapped_def)
  show ?thesis
    unfolding blocked_v4[symmetric] using shared_not_private[of m] by (auto simp: is_ip_blocked_def same)
qed

text \<open>
  C27: Which addresses the guard refuses, exactly: for IPv4 the fourteen forbidden ranges, the shared space of
  the deployment's own mesh among them; for IPv6 everything but global unicast outside its special
  ranges, and the site-local range, which gets through; and an IPv4 address written as an IPv6 one is refused
  like the IPv4 address, except in the shared space, where this spelling gets through.
\<close>

theorem blocked_exact:
  "is_ip_blocked False a \<longleftrightarrow>
     (case a of
        V4 w \<Rightarrow> list_ex (in_interval (uint w)) forbidden_v4
      | V6 w scope \<Rightarrow>
          (case ipv4_mapped w of
             Some m \<Rightarrow> list_ex (in_interval (uint m)) forbidden_v4 \<and> \<not> in_network m CGNAT_SHARED_SPACE
           | None \<Rightarrow> \<not> reachable_v6 w))"
  by (simp add: blocked_v4 blocked_v6 blocked_mapped split: ip.split option.split)

text \<open>Two consequences: the mesh is reachable, and with private addresses allowed the loopback of IPv6 is not.\<close>

lemma mapped_mesh_text:
  "ip_address ''::ffff:100.64.0.1'' = Some (V6 0xFFFF64400001 None)" "ip_address ''100.64.0.1'' = Some (V4 0x64400001)"
proof -
  have "char_of (54::nat) = CHR ''6''" "char_of (52::nat) = CHR ''4''" "char_of (48::nat) = CHR ''0''"
    "char_of (49::nat) = CHR ''1''" by code_simp+
  then have hex: "show_hex 25664 = ''6440''" "show_hex (Suc 0) = ''1''"
    by (simp_all add: show_hex.simps[of 25664] show_hex.simps[of 1604] show_hex.simps[of 100] show_hex.simps[of 6]
        show_hex.simps[of "Suc 0"] hex_digit_def)
  have v4: "parse_v4 ''100.64.0.1'' = Some 0x64400001" "parse_v4 ''::ffff:100.64.0.1'' = None"
    by (simp_all add: parse_v4_def parse_octet_def is_digit_def word_of_digits_def)
  have parts: "v6_parts ''::ffff:100.64.0.1'' = Some [[], [], ''ffff'', ''6440'', ''1'']"
    by (simp add: v6_parts_def v4 hex Let_def)
  have "replicate 5 (0::nat) = [0, 0, 0, 0, 0]" by (simp add: eval_nat_numeral)
  then have "parse_v6 ''::ffff:100.64.0.1'' = Some 0xFFFF64400001"
    by (simp add: parse_v6_def parts upt_conv_Cons parse_hextet_def hex_value_def word_of_digits_def Let_def)
  with v4 show "ip_address ''::ffff:100.64.0.1'' = Some (V6 0xFFFF64400001 None)"
    "ip_address ''100.64.0.1'' = Some (V4 0x64400001)" by (simp_all add: ip_address_def split_scope_def)
qed

lemma mapped_mesh_address_passes:
  "\<not> is_ip_blocked False (V6 0xFFFF64400001 None)" "is_ip_blocked False (V4 0x64400001)"
proof -
  have "ipv4_mapped 0xFFFF64400001 = Some 0x64400001" by code_simp
  moreover have "in_network (0x64400001 :: 32 word) CGNAT_SHARED_SPACE" by (simp add: guard_defs)
  ultimately show "\<not> is_ip_blocked False (V6 0xFFFF64400001 None)" by (simp add: blocked_mapped)
  show "is_ip_blocked False (V4 0x64400001)" by (simp add: blocked_v4 forbidden_v4_def in_interval_def)
qed

lemma loopback_v6_always_blocked: "is_ip_blocked True (V6 1 scope)" "\<not> is_ip_blocked True (V4 0x7F000001)"
proof -
  have "ipv4_mapped 1 = None" by code_simp
  then show "is_ip_blocked True (V6 1 scope)"
    by (simp add: is_ip_blocked_def is_reserved_def by_mapped_def reserved_intervals)
  show "\<not> is_ip_blocked True (V4 0x7F000001)"
    by (simp add: is_ip_blocked_def is_unspecified_def is_multicast_def is_reserved_def by_mapped_def net_simps word_of_digits_def)
qed

text \<open>A URL whose brackets do not match is not rejected: another exception than the documented one gets out.\<close>

lemma malformed_url_uncaught:
  "validate_public_url env allow (JStr ''http://[x'') = Inl (Uncaught (Exn ''ValueError''))"
proof -
  have "netloc (ue_bracketed_ok env) ''http://[x'' = Inl (Exn ''ValueError'')"
    by (simp add: netloc_def drop_scheme_def clean_url_def partition_at_def scheme_char_def is_digit_def lower_char_def Let_def)
  then show ?thesis by (simp add: validate_public_url_def validate_public_url_and_ip_def)
qed

section \<open>What a guarded client dials\<close>

lemma connections_nth:
  assumes "pb_ips b \<noteq> []" and "\<forall>s \<in> set (pb_ips b). \<forall>a. ip_address s = Some a \<longrightarrow> \<not> is_ip_blocked (pb_allow_private b) a"
    and "i < length hosts"
  shows "connections b hosts ! i = Inr (if hosts ! i = pb_hostname b
      then pb_ips b ! ((pb_next_ip_index b + length (filter (\<lambda>h. h = pb_hostname b) (take i hosts))) mod length (pb_ips b))
      else hosts ! i)"
  using assms
proof (induction hosts arbitrary: b i)
  case (Cons host hosts)
  have picked: "pb_ips b ! (pb_next_ip_index b mod length (pb_ips b)) \<in> set (pb_ips b)" using Cons.prems(1) by simp
  obtain res b' where c: "connect_tcp b host = (res, b')" by (metis surj_pair)
  have res: "res = Inr (if host = pb_hostname b then pb_ips b ! (pb_next_ip_index b mod length (pb_ips b)) else host)"
    and b': "b' = (if host = pb_hostname b then b\<lparr>pb_next_ip_index := pb_next_ip_index b + 1\<rparr> else b)"
    using c picked Cons.prems(2) by (auto simp: connect_tcp_def pick_ip_def split: option.splits if_splits)
  show ?case
  proof (cases i)
    case 0
    with c res show ?thesis by simp
  next
    case (Suc j)
    have "j < length hosts" using Cons.prems(3) Suc by simp
    then show ?thesis
      using Cons.IH[of b' j] Cons.prems(1,2) c b' Suc by simp
  qed
qed simp

lemma checked_ips:
  "check_host_and_ips allow hostname ips = None \<Longrightarrow> s \<in> set ips \<Longrightarrow> ip_address s = Some a \<Longrightarrow> \<not> is_ip_blocked allow a"
  by (auto simp: check_host_and_ips_def find_None_iff)

text \<open>
  C9: A guarded client cannot be rebound. Once it exists, the URL was http or https; the addresses of its
  host, the literal one or those resolved for the check, are fixed and none is blocked; and in every sequence
  of connections the ones to that host are dialled to these addresses in turn, never refused and never
  resolved again. Connections to any other host are dialled as they are.
\<close>

theorem guarded_dials_validated:
  assumes "guarded_async_client env allow url = Inr (client, validated)"
  shows "url = JStr validated \<and> url_scheme validated \<in> {''http'', ''https''} \<and> pb_hostname client \<noteq> [] \<and>
    pb_ips client = (case ip_address (pb_hostname client) of
        Some a \<Rightarrow> [ip_str a]
      | None \<Rightarrow> (case ue_resolve env (pb_hostname client) of Inr addrs \<Rightarrow> sort (remdups addrs) | Inl e \<Rightarrow> [])) \<and>
    pb_ips client \<noteq> [] \<and>
    (\<forall>s \<in> set (pb_ips client). \<forall>a. ip_address s = Some a \<longrightarrow> \<not> is_ip_blocked allow a) \<and>
    (\<forall>hosts i. i < length hosts \<longrightarrow> connections client hosts ! i = Inr (if hosts ! i = pb_hostname client
       then pb_ips client ! (length (filter (\<lambda>h. h = pb_hostname client) (take i hosts)) mod length (pb_ips client))
       else hosts ! i))"
proof -
  obtain u ips where v: "validate_public_url_and_ip env allow url = Inr (u, ips)"
    using assms by (auto simp: guarded_async_client_def split: sum.splits)
  then obtain loc where loc: "url = JStr u" "u \<noteq> []" "netloc (ue_bracketed_ok env) u = Inr loc"
    by (auto simp: validate_public_url_and_ip_def Let_def split: json.splits if_splits sum.splits option.splits)
  let ?h = "url_hostname loc"
  have client: "client = \<lparr>pb_hostname = ?h, pb_ips = ips, pb_allow_private = allow, pb_next_ip_index = 0\<rparr>" "validated = u"
    using assms v loc by (auto simp: guarded_async_client_def)
  have scheme: "url_scheme u \<in> {''http'', ''https''}" "?h \<noteq> []"
    using v loc by (auto simp: validate_public_url_and_ip_def ALLOWED_SCHEMES_def Let_def split: if_splits)
  have ips: "check_host_and_ips allow ?h ips = None \<and> ips \<noteq> [] \<and>
      ips = (case ip_address ?h of Some a \<Rightarrow> [ip_str a]
        | None \<Rightarrow> (case ue_resolve env ?h of Inr addrs \<Rightarrow> sort (remdups addrs) | Inl e \<Rightarrow> []))"
  proof (cases "ip_address ?h")
    case (Some a)
    with v loc scheme show ?thesis
      by (auto simp: validate_public_url_and_ip_def Let_def split: if_splits option.splits)
  next
    case None
    with v loc scheme obtain addrs where "ue_resolve env ?h = Inr addrs" "addrs \<noteq> []" "ips = sort (remdups addrs)"
      "check_host_and_ips allow ?h ips = None"
      by (auto simp: validate_public_url_and_ip_def resolve_hostname_def Let_def split: if_splits option.splits sum.splits)
    with None show ?thesis by (auto simp: set_empty[symmetric] simp del: set_empty)
  qed
  then have safe: "\<forall>s \<in> set ips. \<forall>a. ip_address s = Some a \<longrightarrow> \<not> is_ip_blocked allow a"
    using checked_ips by blast
  have ne: "ips \<noteq> []" and eq: "ips = (case ip_address ?h of Some a \<Rightarrow> [ip_str a]
        | None \<Rightarrow> (case ue_resolve env ?h of Inr addrs \<Rightarrow> sort (remdups addrs) | Inl e \<Rightarrow> []))" using ips by blast+
  have fields: "pb_hostname client = ?h" "pb_ips client = ips" "pb_allow_private client = allow" "pb_next_ip_index client = 0"
    by (simp_all add: client)
  have "connections client hosts ! i = Inr (if hosts ! i = ?h
      then ips ! (length (filter (\<lambda>h. h = ?h) (take i hosts)) mod length ips) else hosts ! i)" if "i < length hosts" for hosts i
    using connections_nth[of client i hosts] ne safe that by (simp add: fields)
  with loc(1) client(2) scheme eq ne safe show ?thesis unfolding fields by blast
qed

text \<open>A literal IPv4 address in the URL is itself among the checked ones.\<close>

lemma literal_v4_checked:
  assumes "guarded_async_client env allow url = Inr (client, validated)" and "ip_address (pb_hostname client) = Some (V4 w)"
  shows "\<not> is_ip_blocked allow (V4 w)"
proof -
  obtain u ips where v: "validate_public_url_and_ip env allow url = Inr (u, ips)"
    using assms by (auto simp: guarded_async_client_def split: sum.splits)
  then obtain loc where loc: "url = JStr u" "u \<noteq> []" "netloc (ue_bracketed_ok env) u = Inr loc"
    by (auto simp: validate_public_url_and_ip_def Let_def split: json.splits if_splits sum.splits option.splits)
  then have host: "ip_address (url_hostname loc) = Some (V4 w)"
    using assms v by (auto simp: guarded_async_client_def)
  then have "check_host_and_ips allow (url_hostname loc) [ip_str (V4 w)] = None"
    using v loc by (auto simp: validate_public_url_and_ip_def Let_def split: if_splits option.splits)
  then show ?thesis using parse_show_v4[of w] checked_ips by force
qed

definition demo_url_env :: url_env where
  "demo_url_env = \<lparr>ue_resolve = (\<lambda>host. Inr [''8.8.8.8'']), ue_bracketed_ok = (\<lambda>loc. True)\<rparr>"

lemma demo_client:
  "guarded_async_client demo_url_env False (JStr ''http://ab.de/x'') =
     Inr (\<lparr>pb_hostname = ''ab.de'', pb_ips = [''8.8.8.8''], pb_allow_private = False, pb_next_ip_index = 0\<rparr>, ''http://ab.de/x'')"
proof -
  have loc: "netloc (ue_bracketed_ok demo_url_env) ''http://ab.de/x'' = Inr ''ab.de''" by code_simp
  have names: "url_scheme ''http://ab.de/x'' = ''http''" "url_hostname ''ab.de'' = ''ab.de''" by code_simp+
  have host: "ip_address ''ab.de'' = None"
    by (simp add: ip_address_def parse_v4_def parse_octet_def is_digit_def split_scope_def parse_v6_def v6_parts_def Let_def)
  have "ip_address ''8.8.8.8'' = Some (V4 0x08080808)"
    by (simp add: ip_address_def parse_v4_def parse_octet_def is_digit_def word_of_digits_def)
  moreover have "\<not> is_ip_blocked False (V4 0x08080808)" by (simp add: blocked_v4 forbidden_v4_def in_interval_def)
  ultimately have "check_host_and_ips False ''ab.de'' [''8.8.8.8''] = None" by (simp add: check_host_and_ips_def)
  moreover have "resolve_hostname demo_url_env ''ab.de'' = Inr [''8.8.8.8'']"
    by (simp add: resolve_hostname_def demo_url_env_def)
  ultimately have "validate_public_url_and_ip demo_url_env False (JStr ''http://ab.de/x'') = Inr (''http://ab.de/x'', [''8.8.8.8''])"
    by (simp add: validate_public_url_and_ip_def loc names host ALLOWED_SCHEMES_def)
  then show ?thesis by (simp add: guarded_async_client_def loc names)
qed

theorem guarded_dials_validated_witness:
  "\<exists>client. guarded_async_client demo_url_env False (JStr ''http://ab.de/x'') = Inr (client, ''http://ab.de/x'') \<and>
     connections client [''ab.de'', ''cd.de'', ''ab.de''] ! 0 = Inr ''8.8.8.8''"
proof -
  let ?c = "\<lparr>pb_hostname = ''ab.de'', pb_ips = [''8.8.8.8''], pb_allow_private = False, pb_next_ip_index = 0\<rparr>"
  have "\<forall>hosts i. i < length hosts \<longrightarrow> connections ?c hosts ! i = Inr (if hosts ! i = pb_hostname ?c
       then pb_ips ?c ! (length (filter (\<lambda>h. h = pb_hostname ?c) (take i hosts)) mod length (pb_ips ?c)) else hosts ! i)"
    using guarded_dials_validated[OF demo_client] by blast
  from this[THEN spec[of _ "[''ab.de'', ''cd.de'', ''ab.de'']"], THEN spec[of _ 0]]
  have "connections ?c [''ab.de'', ''cd.de'', ''ab.de''] ! 0 = Inr ''8.8.8.8''" by simp
  with demo_client show ?thesis by blast
qed

end
