(* ===== verification/WorkspaceRoles.thy ===== *)
theory WorkspaceRoles
  imports ErrorKinds
begin

text \<open>
  Membership and permissions of a workspace (\<open>backend/security/workspace_rbac.py\<close>) over the tables
  of users, workspaces and memberships (\<open>backend/models/identity.py\<close>).
\<close>

datatype workspace_role = ADMIN | MAINTAINER | OPERATOR | VIEWER

datatype workspace_permission =
    READ
  | WORK_INBOX
  | MANAGE_CONFIGURATION
  | MANAGE_MEMBERS
  | MANAGE_ADMIN_ASSIGNMENTS
  | MANAGE_AGENT_IDENTITIES
  | MANAGE_CONSUMER_GRANTS
  | RUN_OPERATIONS_AGENTS
  | ASSIGN_AGENT_PROFILES
  | APPROVE_ACTIONS
  | EXPORT_ANALYSIS
  | CREATE_ANALYSIS_FINDINGS
  | MANAGE_HIGHEST_RISK_POLICY

definition all_permissions :: "workspace_permission list" where
  "all_permissions =
     [READ, WORK_INBOX, MANAGE_CONFIGURATION, MANAGE_MEMBERS, MANAGE_ADMIN_ASSIGNMENTS, MANAGE_AGENT_IDENTITIES,
      MANAGE_CONSUMER_GRANTS, RUN_OPERATIONS_AGENTS, ASSIGN_AGENT_PROFILES, APPROVE_ACTIONS, EXPORT_ANALYSIS,
      CREATE_ANALYSIS_FINDINGS, MANAGE_HIGHEST_RISK_POLICY]"

definition role_permissions :: "workspace_role \<Rightarrow> workspace_permission list" where
  "role_permissions role =
     (case role of
        ADMIN \<Rightarrow> all_permissions
      | MAINTAINER \<Rightarrow>
          [READ, WORK_INBOX, MANAGE_CONFIGURATION, MANAGE_MEMBERS, MANAGE_AGENT_IDENTITIES, MANAGE_CONSUMER_GRANTS,
           RUN_OPERATIONS_AGENTS, ASSIGN_AGENT_PROFILES, APPROVE_ACTIONS, EXPORT_ANALYSIS, CREATE_ANALYSIS_FINDINGS]
      | OPERATOR \<Rightarrow>
          [READ, WORK_INBOX, RUN_OPERATIONS_AGENTS, APPROVE_ACTIONS, EXPORT_ANALYSIS, CREATE_ANALYSIS_FINDINGS]
      | VIEWER \<Rightarrow> [READ])"

definition role_allows :: "workspace_role \<Rightarrow> workspace_permission \<Rightarrow> bool" where
  "role_allows role permission = List.member (role_permissions role) permission"

record user =
  us_id :: string
  us_subject :: string
  us_disabled :: bool

record workspace =
  ws_id :: string
  ws_active :: bool

record membership =
  wm_workspace_id :: string
  wm_user_id :: string
  wm_role :: workspace_role

record identity_db =
  id_users :: "user list"
  id_workspaces :: "workspace list"
  id_memberships :: "membership list"

record workspace_access =
  wa_user_id :: string
  wa_role :: workspace_role

definition access_rows :: "identity_db \<Rightarrow> string \<Rightarrow> string \<Rightarrow> (membership \<times> user \<times> workspace) list" where
  "access_rows db workspace_id subject =
     filter (\<lambda>(m, u, w). us_id u = wm_user_id m \<and> ws_id w = wm_workspace_id m \<and>
         wm_workspace_id m = workspace_id \<and> us_subject u = subject)
       (List.product (id_memberships db) (List.product (id_users db) (id_workspaces db)))"

text \<open>\<open>one_or_none\<close> raises for several rows.\<close>

definition get_workspace_access :: "identity_db \<Rightarrow> string \<Rightarrow> string \<Rightarrow> exn + workspace_access" where
  "get_workspace_access db workspace_id subject =
     (case access_rows db workspace_id subject of
        [] \<Rightarrow> Inl (Exn ''HTTPException'')
      | [(m, u, w)] \<Rightarrow>
          (if us_disabled u \<or> \<not> ws_active w then Inl (Exn ''HTTPException'')
           else Inr \<lparr>wa_user_id = us_id u, wa_role = wm_role m\<rparr>)
      | _ \<Rightarrow> Inl (Exn ''MultipleResultsFound''))"

definition access_allows :: "workspace_access \<Rightarrow> workspace_permission \<Rightarrow> bool" where
  "access_allows access permission = role_allows (wa_role access) permission"

definition require_permission :: "workspace_access \<Rightarrow> workspace_permission \<Rightarrow> exn option" where
  "require_permission access permission =
     (if access_allows access permission then None else Some (Exn ''HTTPException''))"

text \<open>What every guarded endpoint does first.\<close>

definition authorize :: "identity_db \<Rightarrow> string \<Rightarrow> string \<Rightarrow> workspace_permission \<Rightarrow> exn + workspace_access" where
  "authorize db workspace_id subject permission =
     (case get_workspace_access db workspace_id subject of
        Inl e \<Rightarrow> Inl e
      | Inr access \<Rightarrow> (case require_permission access permission of Some e \<Rightarrow> Inl e | None \<Rightarrow> Inr access))"

section \<open>Roles\<close>

text \<open>Each role is allowed what the next one is, and what sets it apart.\<close>

lemma role_chain:
  "role_allows VIEWER p \<longleftrightarrow> p = READ"
  "role_allows OPERATOR p \<longleftrightarrow> role_allows VIEWER p \<or> p = WORK_INBOX \<or> p = RUN_OPERATIONS_AGENTS \<or> p = APPROVE_ACTIONS \<or>
     p = EXPORT_ANALYSIS \<or> p = CREATE_ANALYSIS_FINDINGS"
  "role_allows MAINTAINER p \<longleftrightarrow> role_allows OPERATOR p \<or> p = MANAGE_CONFIGURATION \<or> p = MANAGE_MEMBERS \<or>
     p = MANAGE_AGENT_IDENTITIES \<or> p = MANAGE_CONSUMER_GRANTS \<or> p = ASSIGN_AGENT_PROFILES"
  "\<not> role_allows MAINTAINER p \<longleftrightarrow> p = MANAGE_ADMIN_ASSIGNMENTS \<or> p = MANAGE_HIGHEST_RISK_POLICY"
  "role_allows ADMIN p"
  by (cases p; simp add: role_allows_def role_permissions_def all_permissions_def)+

text \<open>The unique columns: ids, subjects, and one membership per workspace and user.\<close>

definition identity_keys :: "identity_db \<Rightarrow> bool" where
  "identity_keys db \<longleftrightarrow> distinct (map us_id (id_users db)) \<and> distinct (map us_subject (id_users db)) \<and>
     distinct (map ws_id (id_workspaces db)) \<and>
     distinct (map (\<lambda>m. (wm_workspace_id m, wm_user_id m)) (id_memberships db))"

lemma access_rows_mem:
  "(m, u, w) \<in> set (access_rows db wid subject) \<longleftrightarrow> m \<in> set (id_memberships db) \<and> u \<in> set (id_users db) \<and>
     w \<in> set (id_workspaces db) \<and> us_id u = wm_user_id m \<and> ws_id w = wm_workspace_id m \<and> wm_workspace_id m = wid \<and>
     us_subject u = subject"
  by (auto simp: access_rows_def)

lemma singleton_list: "distinct xs \<Longrightarrow> set xs = {x} \<Longrightarrow> xs = [x]"
  by (cases xs; cases "tl xs") auto

lemma access_rows_le_one:
  assumes "identity_keys db" and "r \<in> set (access_rows db wid subject)"
  shows "access_rows db wid subject = [r]"
proof -
  have keys: "inj_on us_id (set (id_users db))" "inj_on us_subject (set (id_users db))" "inj_on ws_id (set (id_workspaces db))"
    "inj_on (\<lambda>m. (wm_workspace_id m, wm_user_id m)) (set (id_memberships db))"
    "distinct (id_users db)" "distinct (id_workspaces db)" "distinct (id_memberships db)"
    using assms(1) by (simp_all add: identity_keys_def distinct_map)
  have same: "x = y" if xy: "x \<in> set (access_rows db wid subject)" "y \<in> set (access_rows db wid subject)" for x y
  proof -
    obtain m u w m' u' w' where e: "x = (m, u, w)" "y = (m', u', w')" by (metis surj_pair)
    note f = xy[unfolded e access_rows_mem]
    have "us_subject u = us_subject u'" using f by simp
    with keys(2) f have u: "u = u'" by (meson inj_onD)
    have "(wm_workspace_id m, wm_user_id m) = (wm_workspace_id m', wm_user_id m')" using f u by simp
    with keys(4) f have "m = m'" by (meson inj_onD)
    moreover have "ws_id w = ws_id w'" using f by simp
    with keys(3) f have "w = w'" by (meson inj_onD)
    moreover note u
    ultimately show ?thesis by (simp add: e)
  qed
  have d: "distinct (access_rows db wid subject)"
    using keys by (simp add: access_rows_def distinct_product)
  have "x = r" if "x \<in> set (access_rows db wid subject)" for x using same[OF that assms(2)] .
  with assms(2) have "set (access_rows db wid subject) = {r}" by blast
  with d show ?thesis by (rule singleton_list)
qed

text \<open>
  C32: Authorization, exactly: a request is let through iff the subject is a user that is not disabled, has a
  membership in the workspace, the workspace is active, and the role of the membership is one that holds the
  permission; the access it gets names that user and role.
\<close>

theorem authorized_iff:
  assumes "identity_keys db"
  shows "authorize db wid subject p = Inr access \<longleftrightarrow>
    (\<exists>m \<in> set (id_memberships db). \<exists>u \<in> set (id_users db). \<exists>w \<in> set (id_workspaces db).
       us_subject u = subject \<and> \<not> us_disabled u \<and> wm_user_id m = us_id u \<and> wm_workspace_id m = wid \<and>
       ws_id w = wid \<and> ws_active w \<and> role_allows (wm_role m) p \<and>
       access = \<lparr>wa_user_id = us_id u, wa_role = wm_role m\<rparr>)"
proof (cases "access_rows db wid subject")
  case Nil
  then have "(m, u, w) \<notin> set (access_rows db wid subject)" for m u w by simp
  then have none: "\<not> (m \<in> set (id_memberships db) \<and> u \<in> set (id_users db) \<and> w \<in> set (id_workspaces db) \<and>
     us_id u = wm_user_id m \<and> ws_id w = wm_workspace_id m \<and> wm_workspace_id m = wid \<and> us_subject u = subject)" for m u w
    unfolding access_rows_mem .
  have "authorize db wid subject p \<noteq> Inr access" by (simp add: authorize_def get_workspace_access_def Nil)
  then show ?thesis using none by metis
next
  case (Cons r rows)
  obtain m u w where r: "r = (m, u, w)" by (metis surj_pair)
  have one: "access_rows db wid subject = [(m, u, w)]" using access_rows_le_one[OF assms, of r wid subject] Cons r by simp
  then have "(m', u', w') \<in> set (access_rows db wid subject) \<longleftrightarrow> m' = m \<and> u' = u \<and> w' = w" for m' u' w' by auto
  note mem = this[unfolded access_rows_mem]
  have "authorize db wid subject p = Inr access \<longleftrightarrow> \<not> us_disabled u \<and> ws_active w \<and> role_allows (wm_role m) p \<and>
      access = \<lparr>wa_user_id = us_id u, wa_role = wm_role m\<rparr>"
    by (auto simp: authorize_def get_workspace_access_def one require_permission_def access_allows_def)
  then show ?thesis using mem by metis
qed

theorem authorized_iff_witness:
  "authorize \<lparr>id_users = [\<lparr>us_id = ''u'', us_subject = ''s'', us_disabled = False\<rparr>],
     id_workspaces = [\<lparr>ws_id = ''w'', ws_active = True\<rparr>],
     id_memberships = [\<lparr>wm_workspace_id = ''w'', wm_user_id = ''u'', wm_role = OPERATOR\<rparr>]\<rparr> ''w'' ''s'' APPROVE_ACTIONS =
   Inr \<lparr>wa_user_id = ''u'', wa_role = OPERATOR\<rparr>"
  by (subst authorized_iff) (simp_all add: identity_keys_def role_allows_def role_permissions_def)

end
