(* ===== verification/Spec2Isabelle.thy ===== *)
theory Spec2Isabelle
  imports CycleHistory ExecutorProps Patcher RunnerProps SkillEvidence AcquisitionProps
    LocalScheduler UrlGuard WorkspaceRoles
begin

text \<open>
  A verification library for the backend of opencli-Razormind (\<open>src/backend\<close>), a system that
  collects items from many sources, stores them without duplicates, runs collection plans over
  them, and watches the sources with a control plane that may back off, pause or ask for review.
  The parts modelled are the collection pipeline, the control plane, Plan IR with its executor and
  store, the workflow tool chain that turns canvas documents into plans, the loop that lets a model
  operate a web page under supervision, durable acquisitions and scheduled automations, and the
  guards on outbound addresses and workspace permissions.

  \<^bold>\<open>Shared vocabulary.\<close> \<open>Prelude\<close> holds Python values (JSON, insertion-ordered
  dictionaries as association lists), timestamps, the query shapes the code uses and the generic
  list lemmas; \<open>CronText\<close> string stripping, decimal text and step expressions;
  \<open>GraphSearch\<close> a worklist traversal and \<open>Kahn\<close> the in-degree algorithm, each as
  a locale whose lemmas are proved once and interpreted on every loop of the code that has that
  shape.

  \<^bold>\<open>Collection pipeline\<close> (\<open>pipeline/\<close>, \<open>channels/base.py\<close>, \<open>odp/\<close>). \<open>ChannelRunner\<close>: the
  channel contract, paging, the staged cursor, over the interface of a cursor store.
  \<open>RateLimiting\<close>, \<open>DomainLimiter\<close>: token bucket, retries of a request, slots per host as a relation
  on concurrent runs. \<open>Normalizer\<close>: fields and content hash. \<open>OdpClient\<close>, \<open>Lineage\<close>,
  \<open>Sinks\<close>: where a batch is written. \<open>CursorStore\<close>: optimistic locking, for all interleavings of
  saves. \<open>AiEnrichment\<close>, \<open>Notifications\<close>: what follows a write. \<open>CollectionPipeline\<close>,
  \<open>PipelineProps\<close>: the run that composes them. \<open>TaskRunner\<close>, \<open>RunnerProps\<close>: tasks, attempts,
  scheduled occurrences, worker retries, and the hand-over to plans, which share the one table of
  collection tasks with the attempt that triggers them.

  \<^bold>\<open>Control plane\<close> (\<open>control/\<close>). \<open>ErrorKinds\<close>: failure vocabulary and retry
  policy. \<open>Measurement\<close>: sensors, setpoints, coverage. \<open>Evaluator\<close>: control states and
  suggested actions. \<open>ControlState\<close>: the tables, settings and session (clock, keys) that
  operations read and write. \<open>Ledger\<close>: the evidence ledger and its tallies. \<open>Gate\<close>:
  kill switch, the conditions under which an action may execute, automatic agent actions.
  \<open>Actuator\<close>: every action that changes a source or schedule, and auto-resume.
  \<open>Aggregation\<close>: readings and trends. \<open>Outcomes\<close>: judging past actions.
  \<open>Service\<close>: one decision. \<open>Cycle\<close>, \<open>CycleSafety\<close>, \<open>CycleHistory\<close>:
  one tick, what it can change, and all histories of ticks interleaved with other steps, as an
  inductive relation with invariants by rule induction.

  \<^bold>\<open>Plans\<close> (\<open>plan_ir/\<close>, \<open>services/\<close>, \<open>pipeline/storer.py\<close>). \<open>PlanGraph\<close>:
  documents and the projection of a source. \<open>PlanValidation\<close>, \<open>PlanCycles\<close>,
  \<open>ValidPlans\<close>: the eight checks, the three-colour cycle search, and their equivalence with a
  declarative well-formedness. \<open>Storer\<close>: deduplicating storage with recovery after
  constraint violations. \<open>PlanStore\<close>: saving plans, their trigger index, health rows, tasks.
  \<open>SegmentOrder\<close>, \<open>PlanExecutor\<close>, \<open>ExecutorProps\<close>: merge shape, run order,
  source and shared segments, incremental triggering.

  \<^bold>\<open>Workflows\<close> (\<open>workflow/\<close>, \<open>schemas/workflow.py\<close>). \<open>WorkflowGraph\<close>:
  projects with nested packages, compiled nodes, error values. \<open>NodeRegistry\<close>: known node
  ids and the guard on smuggled implementation keys. \<open>TriggerScope\<close>: which part of a workflow
  a trigger starts. \<open>WorkflowOrder\<close>: the compiler's cycle check and run order.
  \<open>WorkflowPorts\<close>, \<open>WorkflowChecks\<close>: port contracts and the validation of root graph and
  packages. \<open>WorkflowCompiler\<close>: flattening of packages into compiled nodes, edges and Plan
  IR, which is handed to the validator of \<open>ValidPlans\<close>. \<open>CompiledTree\<close>,
  \<open>CompilerProps\<close>: the state-passing recursion refined to two pure functions, and from there
  what a valid compile promises. \<open>Patcher\<close>: patch operations and the all-or-nothing
  preview, which compiles what it built.

  \<^bold>\<open>Skills\<close> (\<open>skills/\<close>). \<open>SkillActions\<close>: the projection of a page, the
  page operations and the executor of the seven verbs. \<open>SkillRisk\<close>: which actions need a
  confirmation, and which of them a source may waive. \<open>SkillLoop\<close>, \<open>SkillProps\<close>: the loop that
  shows the page, asks the model, clears the action and performs it, and what every action that
  reaches the page has passed. \<open>SkillEvidence\<close>: how runs are judged, and the proposals,
  dismissals, re-distillations and rollbacks that follow from a skill's evidence.

  \<^bold>\<open>Acquisitions and automations\<close> (\<open>acquisition/\<close>, \<open>services/\<close>,
  \<open>automation_schedule.py\<close>, \<open>scheduler.py\<close>). \<open>Acquisition\<close>,
  \<open>AcquisitionProps\<close>: durable jobs that workers claim under leases, renew, finish, fail or lose,
  and their life cycle over all histories. \<open>AutomationSchedule\<close>: the schedules of automations
  and the minutes of a window at which they fire. \<open>AutomationRuns\<close>, \<open>AutomationProps\<close>: due
  automations and manual starts, one run per occurrence. \<open>LocalScheduler\<close>: the in-process
  scheduler of collection schedules with its watermark, and the recovery of queued agent runs.

  \<^bold>\<open>Guards.\<close> \<open>IpAddress\<close>: what the code uses of Python 3.13's \<open>ipaddress\<close>, on 32-bit
  and 128-bit words. \<open>UrlGuard\<close>: which addresses are blocked, and the pinned dialling that only
  reaches an address that was validated. \<open>WorkspaceRoles\<close>: who may do what in a workspace.

  \<^bold>\<open>How the state corresponds.\<close> A database row is a record, a table a list in insertion
  order, a session a record of tables with a clock and a key supply; an operation takes the
  session and returns it. Errors the code returns or raises are values: options, sums, or error
  records that keep code, anchors and path but not the English message. Lists that the compiler
  appends to down its recursion are a state record. Rates are exact rationals.

  \<^bold>\<open>What the lemmas show.\<close> Pipeline: the persisted cursor moves only with data that landed,
  other savers or not, concurrent saves are linearizable and return, a run is measured exactly once, every attempt ends
  with a verdict, an occurrence creates one task, retries are bounded, rate and slot limits hold
  under all schedules, every send is accounted for. Control plane: an action executes only under the
  full set of gate conditions, cooldowns and hourly caps hold in every history, ticks account for what
  they do, a disabled tick only resumes, pauses end, backoff reaches its cap. Plans: the validator accepts
  exactly well-formed plans, the run order is topological and complete, storage loses nothing and
  is idempotent, merged items are stored with their source's state untouched. Workflows: the key
  guard and the cycle check are exact, trigger selection picks the reachable part, a valid compile
  is ordered so that dependencies come first, its dependencies are its edges, and patches are
  applied completely or not at all. Skills: no action reaches the page without clearance, a skill
  follows its life cycle, a rollback restores what a re-distillation replaced. Acquisitions and
  automations: a job moves only along its life cycle as long as the reads behind a write are current,
  results are sound even when they are not, submissions are idempotent, an occurrence is claimed once,
  automations fire exactly at the minutes whose local time matches, a collection is dispatched once
  per window. Guards: the blocked addresses are exactly the listed ranges, every address dialled for
  the guarded host was validated, authorization is exactly what role and status allow.

  \<^bold>\<open>Termination and bounds.\<close> Fuel is used once: a cursor save among other savers gets two steps
  per attempt, which \<open>save_among_returns\<close> shows to be enough. Counting the fire
  times of a cron expression in a window is a \<open>partial_function (option)\<close>, shown to return for the
  expressions the cron library can enumerate. Other loops that are not structural are
  functions with a measure: worklists by the unvisited part of a finite graph, Kahn loops by the
  nodes that still wait plus the queue, recursion over packages by the size of the node, which
  binding parameters does not change. The compiler's nesting limit of four is a check of the
  model, not an assumption. Integers of the code are Python's and do not wrap around; addresses are
  machine words because the code takes them apart by bits.

  \<^bold>\<open>Parameters.\<close> What a channel fetches, credentials, HTTP posts, processors and notifiers, hashing
  and serialization, timestamp parsers, what other runs commit in between, parsing by pydantic, the registry of tool
  capabilities, data operator specs, native port contracts, runtime bindings, package templates
  (\<open>hda_templates.py\<close>), building nodes from OpenCLI adapters, time zones and cron
  expressions, name resolution, the page that Playwright drives, the replies of models and the
  distiller of skills are arguments of the definitions that use them. The theorems hold for all of
  them; the witnesses use concrete ones.
  One hypothesis restricts the compiler's properties: no public parameter of a package rewrites
  \<open>packageExecution\<close>, which would change what is expanded after edges were resolved.

  \<^bold>\<open>Limits of the model.\<close> A version pin whose provenance is an unhashable value raises
  \<open>TypeError\<close> in Python and is reported as disallowed here; the same error for a library
  id is modelled. Characters are those of Isabelle strings. SQL leaves the order of equal
  timestamps open; the model fixes one. The operations on a skill are steps that do not overlap: the
  row lock of the code makes them so where the database has row locks, which SQLite has not, and a
  re-distillation awaits the distiller between read and commit. The slots per host are those of one
  event loop, as in the code. Of the outages of the database one is modelled, that of the worker's mark that
  the retries are exhausted, whose failure the code only logs.

  \<^bold>\<open>Not modelled.\<close> Network, browser and process I/O (concrete channels, processors and notifiers,
  browser pool, websocket agents), HTTP endpoints, background task loops, database migrations,
  outages of the database and sessions beyond their tables, provider-specific workflow runtimes and
  importers, the execution of native nodes and data operators, package templates, plan presets, the
  operator actions prepared and executed for an agent (\<open>control/agent_control.py\<close>), what an operations
  agent does with a run that was handed to it, the frontend.
\<close>

end
